(* ===== verification/Prelude.thy ===== *)
theory Prelude
  imports Main "HOL-Library.Sublist" "HOL-Library.Code_Target_Numeral"
begin

text \<open>
  The shared vocabulary of the development: Go strings, runes and the functions of the
  Go standard library the sources call on them.

  A Go string is a sequence of bytes, and so is HOL's \<open>string\<close>, a list of 8-bit \<open>char\<close>s:
  \<open>of_char\<close> reads a byte as a number, and \<open>length\<close> is Go's \<open>len\<close>. A rune is a \<open>nat\<close>.
  \<open>DecodeRuneInString\<close> and \<open>AppendRune\<close> follow \<^verbatim>\<open>unicode/utf8\<close> byte for byte, the
  \<open>RuneError\<close> result of size one for ill-formed input included.
  The functions of \<^verbatim>\<open>strings\<close> are given for the arguments the sources pass; \<open>ToLower\<close> and
  \<open>ToUpper\<close> are given on ASCII and leave every other byte alone, which is the library's
  result on the ASCII names they are applied to.
\<close>

section \<open>Collections of rewrite rules\<close>

named_theorems ascii_simps \<open>bounds on bytes and ASCII classes\<close>
named_theorems utf8_simps \<open>facts on the rune decoder\<close>

section \<open>Tables\<close>

text \<open>
  A Go map filled by a loop over a table: a later row with the same key replaces an earlier
  one. Where the keys are distinct, a lookup finds the row.
\<close>

definition index_by :: "('a \<Rightarrow> 'k) \<Rightarrow> 'a list \<Rightarrow> ('k \<rightharpoonup> 'a)" where
  "index_by key rows = map_of (rev (map (\<lambda>r. (key r, r)) rows))"

lemma index_by_iff:
  assumes "distinct (map key rows)"
  shows "index_by key rows k = Some r \<longleftrightarrow> r \<in> set rows \<and> key r = k"
proof -
  have "map fst (rev (map (\<lambda>r. (key r, r)) rows)) = rev (map key rows)"
    by (simp add: rev_map comp_def)
  then have "distinct (map fst (rev (map (\<lambda>r. (key r, r)) rows)))"
    using assms by (simp only: distinct_rev)
  then have "index_by key rows k = Some r \<longleftrightarrow> (k, r) \<in> set (rev (map (\<lambda>r. (key r, r)) rows))"
    unfolding index_by_def by (rule map_of_eq_Some_iff)
  then show ?thesis by auto
qed

section \<open>Bytes, runes and UTF-8\<close>

type_synonym rune = nat

abbreviation byte_at :: "string \<Rightarrow> nat \<Rightarrow> nat" where
  "byte_at s i \<equiv> of_char (s ! i)"

definition RuneError :: rune where
  "RuneError = 0xFFFD"

text \<open>The range the second byte of a sequence opening with byte \<open>p0\<close> must lie in.\<close>

definition accept_lo :: "nat \<Rightarrow> nat" where
  "accept_lo p0 = (if p0 = 0xE0 then 0xA0 else if p0 = 0xF0 then 0x90 else 0x80)"

definition accept_hi :: "nat \<Rightarrow> nat" where
  "accept_hi p0 = (if p0 = 0xED then 0x9F else if p0 = 0xF4 then 0x8F else 0xBF)"

definition is_cont :: "nat \<Rightarrow> bool" where
  "is_cont b \<longleftrightarrow> 0x80 \<le> b \<and> b \<le> 0xBF"

fun decode_bytes :: "nat list \<Rightarrow> rune \<times> nat" where
  "decode_bytes [] = (RuneError, 0)"
| "decode_bytes (p0 # ps) =
     (if p0 < 0x80 then (p0, 1)
      else if p0 < 0xC2 \<or> 0xF4 < p0 then (RuneError, 1)
      else (case ps of
        [] \<Rightarrow> (RuneError, 1)
      | p1 # ps1 \<Rightarrow>
        if p1 < accept_lo p0 \<or> accept_hi p0 < p1 then (RuneError, 1)
        else if p0 < 0xE0 then ((p0 - 0xC0) * 0x40 + (p1 - 0x80), 2)
        else (case ps1 of
          [] \<Rightarrow> (RuneError, 1)
        | p2 # ps2 \<Rightarrow>
          if \<not> is_cont p2 then (RuneError, 1)
          else if p0 < 0xF0
          then ((p0 - 0xE0) * 0x1000 + (p1 - 0x80) * 0x40 + (p2 - 0x80), 3)
          else (case ps2 of
            [] \<Rightarrow> (RuneError, 1)
          | p3 # _ \<Rightarrow>
            if \<not> is_cont p3 then (RuneError, 1)
            else ((p0 - 0xF0) * 0x40000 + (p1 - 0x80) * 0x1000
                   + (p2 - 0x80) * 0x40 + (p3 - 0x80), 4)))))"

definition DecodeRuneInString :: "string \<Rightarrow> rune \<times> nat" where
  "DecodeRuneInString s = decode_bytes (map of_char (take 4 s))"

definition ValidRune :: "rune \<Rightarrow> bool" where
  "ValidRune r \<longleftrightarrow> r < 0xD800 \<or> 0xDFFF < r \<and> r \<le> 0x10FFFF"

definition encode_bytes :: "rune \<Rightarrow> nat list" where
  "encode_bytes r =
     (if r < 0x80 then [r]
      else if r < 0x800 then [0xC0 + r div 0x40, 0x80 + r mod 0x40]
      else if r < 0x10000
      then [0xE0 + r div 0x1000, 0x80 + r div 0x40 mod 0x40, 0x80 + r mod 0x40]
      else [0xF0 + r div 0x40000, 0x80 + r div 0x1000 mod 0x40,
            0x80 + r div 0x40 mod 0x40, 0x80 + r mod 0x40])"

definition AppendRune :: "rune \<Rightarrow> string" where
  "AppendRune r = map char_of (encode_bytes (if ValidRune r then r else RuneError))"

lemma of_char_lt_256 [ascii_simps]: "of_char c < (256::nat)"
  by simp

lemma decode_bytes_size_le [utf8_simps]: "snd (decode_bytes ps) \<le> length ps"
  by (cases ps rule: decode_bytes.cases) (auto split: list.splits)

lemma decode_bytes_size_pos [utf8_simps]: "ps \<noteq> [] \<Longrightarrow> 0 < snd (decode_bytes ps)"
  by (cases ps rule: decode_bytes.cases) (auto split: list.splits)

lemma DecodeRune_size_le [utf8_simps]: "snd (DecodeRuneInString s) \<le> length s"
  using decode_bytes_size_le [of "map of_char (take 4 s)"]
  by (simp add: DecodeRuneInString_def)

lemma DecodeRune_size_pos [utf8_simps]: "s \<noteq> [] \<Longrightarrow> 0 < snd (DecodeRuneInString s)"
  by (simp add: DecodeRuneInString_def decode_bytes_size_pos)

lemma DecodeRune_pair_size:
  "(r, n) = DecodeRuneInString s \<Longrightarrow> s \<noteq> [] \<Longrightarrow> 0 < n \<and> n \<le> length s"
  using DecodeRune_size_pos [of s] DecodeRune_size_le [of s]
  by (cases "DecodeRuneInString s") simp

lemma DecodeRune_Nil [simp]: "DecodeRuneInString [] = (RuneError, 0)"
  by (simp add: DecodeRuneInString_def)

text \<open>An ASCII byte is a rune of its own, and no other rune decodes below \<open>0x80\<close>.\<close>

lemma DecodeRune_ascii [utf8_simps]:
  "(of_char c :: nat) < 0x80 \<Longrightarrow> DecodeRuneInString (c # s) = (of_char c, 1)"
  by (simp add: DecodeRuneInString_def take_Cons')

lemma decode_bytes_ge_80:
  assumes "0x80 \<le> p0" shows "0x80 \<le> fst (decode_bytes (p0 # ps))"
  using assms
  by (auto simp: RuneError_def accept_lo_def accept_hi_def is_cont_def split: list.splits)

lemma DecodeRune_lt_80_iff [utf8_simps]:
  "fst (DecodeRuneInString (c # s)) < 0x80 \<longleftrightarrow> (of_char c :: nat) < 0x80"
proof (cases "(of_char c :: nat) < 0x80")
  case True
  then show ?thesis by (simp add: DecodeRune_ascii)
next
  case False
  then show ?thesis
    using decode_bytes_ge_80 [of "of_char c" "map of_char (take 3 s)"]
    by (simp add: DecodeRuneInString_def take_Cons')
qed

lemma DecodeRune_eq_ascii:
  assumes "fst (DecodeRuneInString (c # s)) = r" and "r < 0x80"
  shows "of_char c = r" and "DecodeRuneInString (c # s) = (r, 1)"
proof -
  from assms have "(of_char c :: nat) < 0x80"
    using DecodeRune_lt_80_iff by blast
  then show "of_char c = r" "DecodeRuneInString (c # s) = (r, 1)"
    using assms by (simp_all add: DecodeRune_ascii)
qed

lemma encode_bytes_lt_256:
  assumes "r \<le> 0x10FFFF" and "b \<in> set (encode_bytes r)" shows "b < 256"
proof -
  have "r div 0x40000 \<le> 4" if "\<not> r < 0x10000" using assms(1) by simp
  moreover have "r div 0x1000 < 16" if "r < 0x10000" using that by simp
  moreover have "r div 0x40 < 32" if "r < 0x800" using that by simp
  ultimately show ?thesis using assms(2) unfolding encode_bytes_def
    by (auto split: if_splits)
qed


lemma encode_decode_bytes:
  assumes "ValidRune r"
  shows "decode_bytes (encode_bytes r @ ps) = (r, length (encode_bytes r))"
proof -
  consider (one) "r < 0x80" | (two) "0x80 \<le> r" "r < 0x800" | (three) "0x800 \<le> r" "r < 0x10000"
    | (four) "0x10000 \<le> r" by linarith
  then show ?thesis
  proof cases
    case one
    then show ?thesis by (simp add: encode_bytes_def)
  next
    case two
    then have "r div 0x40 < 0x20" "2 \<le> r div 0x40" by auto
    with two show ?thesis
      by (simp add: encode_bytes_def accept_lo_def accept_hi_def)
  next
    case three
    define a b c where abc: "a = r div 0x1000" "b = r div 0x40 mod 0x40" "c = r mod 0x40"
    have q: "r div 0x1000 = r div 0x40 div 0x40" by (simp flip: div_mult2_eq)
    have r: "r = a * 0x1000 + b * 0x40 + c"
      using div_mult_mod_eq [of r "0x40"] div_mult_mod_eq [of "r div 0x40" "0x40"]
      unfolding abc q by linarith
    have bnds: "a < 0x10" "b < 0x40" "c < 0x40" unfolding abc using three by auto
    have "a = 0 \<longrightarrow> 0x20 \<le> b" using three(1) r bnds by auto
    moreover have "a = 13 \<longrightarrow> b < 0x20"
      using assms r bnds by (auto simp: ValidRune_def)
    ultimately have "decode_bytes ([0xE0 + a, 0x80 + b, 0x80 + c] @ ps)
        = (a * 0x1000 + b * 0x40 + c, 3)"
      using bnds by (auto simp: accept_lo_def accept_hi_def is_cont_def)
    moreover have "encode_bytes r = [0xE0 + a, 0x80 + b, 0x80 + c]"
      using three by (simp add: encode_bytes_def abc)
    ultimately show ?thesis using r by simp
  next
    case four
    define a b c d where abcd: "a = r div 0x40000" "b = r div 0x1000 mod 0x40"
      "c = r div 0x40 mod 0x40" "d = r mod 0x40"
    have q: "r div 0x1000 = r div 0x40 div 0x40" "r div 0x40000 = r div 0x40 div 0x40 div 0x40"
      by (simp_all flip: div_mult2_eq)
    have r: "r = a * 0x40000 + b * 0x1000 + c * 0x40 + d"
      using div_mult_mod_eq [of r "0x40"] div_mult_mod_eq [of "r div 0x40" "0x40"]
        div_mult_mod_eq [of "r div 0x40 div 0x40" "0x40"]
      unfolding abcd q by linarith
    have le: "r \<le> 0x10FFFF" using assms four by (auto simp: ValidRune_def)
    then have bnds: "a \<le> 4" "b < 0x40" "c < 0x40" "d < 0x40" unfolding abcd by auto
    have "a = 0 \<longrightarrow> 0x10 \<le> b" using four r bnds by auto
    moreover have "a = 4 \<longrightarrow> b < 0x10" using le r bnds by auto
    ultimately have "decode_bytes ([0xF0 + a, 0x80 + b, 0x80 + c, 0x80 + d] @ ps)
        = (a * 0x40000 + b * 0x1000 + c * 0x40 + d, 4)"
      using bnds by (auto simp: accept_lo_def accept_hi_def is_cont_def)
    moreover have "encode_bytes r = [0xF0 + a, 0x80 + b, 0x80 + c, 0x80 + d]"
      using four by (simp add: encode_bytes_def abcd)
    ultimately show ?thesis using r by simp
  qed
qed

lemma decode_bytes_take:
  "decode_bytes (take 4 ps) = decode_bytes ps"
proof (cases "4 \<le> length ps")
  case True
  then obtain a b c d ps' where "ps = a # b # c # d # ps'"
    by (auto simp: numeral_eq_Suc Suc_le_length_iff)
  then show ?thesis by (simp add: numeral_eq_Suc del: decode_bytes.simps) simp
next
  case False
  then show ?thesis by simp
qed

lemma length_encode_bytes_le: "length (encode_bytes r) \<le> 4"
  by (simp add: encode_bytes_def)

text \<open>Decoding undoes encoding, whatever bytes follow.\<close>

lemma DecodeRune_AppendRune:
  assumes "ValidRune r"
  shows "DecodeRuneInString (AppendRune r @ s) = (r, length (AppendRune r))"
proof -
  have le: "r \<le> 0x10FFFF" using assms by (auto simp: ValidRune_def)
  have enc: "map of_char (AppendRune r) = encode_bytes r"
    using assms encode_bytes_lt_256 [OF le]
    by (auto simp: AppendRune_def intro!: map_idI)
  have "DecodeRuneInString (AppendRune r @ s)
      = decode_bytes (take 4 (map of_char (AppendRune r @ s)))"
    by (simp only: DecodeRuneInString_def take_map)
  also have "\<dots> = decode_bytes (encode_bytes r @ map of_char s)"
    by (simp only: decode_bytes_take map_append enc)
  finally have "DecodeRuneInString (AppendRune r @ s)
      = decode_bytes (encode_bytes r @ map of_char s)" .
  then show ?thesis
    using assms by (simp add: encode_decode_bytes AppendRune_def)
qed

section \<open>Functions of the strings package\<close>

definition HasPrefix :: "string \<Rightarrow> string \<Rightarrow> bool" where
  "HasPrefix s p \<longleftrightarrow> take (length p) s = p"

definition HasSuffix :: "string \<Rightarrow> string \<Rightarrow> bool" where
  "HasSuffix s p \<longleftrightarrow> length p \<le> length s \<and> drop (length s - length p) s = p"

definition TrimPrefix :: "string \<Rightarrow> string \<Rightarrow> string" where
  "TrimPrefix s p = (if HasPrefix s p then drop (length p) s else s)"

definition TrimSuffix :: "string \<Rightarrow> string \<Rightarrow> string" where
  "TrimSuffix s p = (if HasSuffix s p then take (length s - length p) s else s)"

text \<open>The index of the first byte \<open>c\<close>, \<open>None\<close> for Go's \<open>-1\<close>.\<close>

primrec IndexByte :: "string \<Rightarrow> char \<Rightarrow> nat option" where
  "IndexByte [] c = None"
| "IndexByte (x # xs) c = (if x = c then Some 0 else map_option Suc (IndexByte xs c))"

text \<open>\<open>ReplaceAll\<close> and \<open>Count\<close> for a non-empty substring.\<close>

function ReplaceAll :: "string \<Rightarrow> string \<Rightarrow> string \<Rightarrow> string" where
  "ReplaceAll s old new =
     (case s of
        [] \<Rightarrow> []
      | c # cs \<Rightarrow>
        if old \<noteq> [] \<and> HasPrefix s old then new @ ReplaceAll (drop (length old) s) old new
        else c # ReplaceAll cs old new)"
  by pat_completeness auto
termination
  by (relation "measure (\<lambda>(s, old, new). length s)") (auto simp: neq_Nil_conv)

declare ReplaceAll.simps [simp del]

function Count :: "string \<Rightarrow> string \<Rightarrow> nat" where
  "Count s sub =
     (case s of
        [] \<Rightarrow> 0
      | c # cs \<Rightarrow>
        if sub \<noteq> [] \<and> HasPrefix s sub then Suc (Count (drop (length sub) s) sub)
        else Count cs sub)"
  by pat_completeness auto
termination
  by (relation "measure (\<lambda>(s, sub). length s)") (auto simp: neq_Nil_conv)

declare Count.simps [simp del]

fun Join :: "string list \<Rightarrow> string \<Rightarrow> string" where
  "Join [] sep = []"
| "Join [x] sep = x"
| "Join (x # y # ys) sep = x @ sep @ Join (y # ys) sep"

text \<open>\<open>Split\<close> on a one-byte separator.\<close>

fun SplitByte :: "string \<Rightarrow> char \<Rightarrow> string list" where
  "SplitByte [] sep = [[]]"
| "SplitByte (c # cs) sep =
     (if c = sep then [] # SplitByte cs sep
      else (case SplitByte cs sep of [] \<Rightarrow> [[c]] | w # ws \<Rightarrow> (c # w) # ws))"

definition lower_char :: "char \<Rightarrow> char" where
  "lower_char c = (if 65 \<le> (of_char c :: nat) \<and> (of_char c :: nat) \<le> 90
     then char_of (of_char c + 32 :: nat) else c)"

definition upper_char :: "char \<Rightarrow> char" where
  "upper_char c = (if 97 \<le> (of_char c :: nat) \<and> (of_char c :: nat) \<le> 122
     then char_of (of_char c - 32 :: nat) else c)"

definition ToLower :: "string \<Rightarrow> string" where
  "ToLower s = map lower_char s"

definition ToUpper :: "string \<Rightarrow> string" where
  "ToUpper s = map upper_char s"

lemma HasPrefix_Nil [simp]: "HasPrefix s []"
  by (simp add: HasPrefix_def)

lemma HasPrefix_Cons [simp]: "HasPrefix s (c # p) \<longleftrightarrow> (\<exists>s'. s = c # s' \<and> HasPrefix s' p)"
  by (cases s) (auto simp: HasPrefix_def)

lemma HasPrefix_iff_prefix: "HasPrefix s p \<longleftrightarrow> prefix p s"
  by (metis HasPrefix_def append_take_drop_id prefix_def append_eq_conv_conj)

lemma SplitByte_not_Nil [simp]: "SplitByte s sep \<noteq> []"
  by (cases s) (auto split: list.splits)

text \<open>Joining on the separator undoes splitting on it.\<close>

lemma Join_SplitByte [simp]: "Join (SplitByte s sep) [sep] = s"
proof (induction s)
  case Nil
  show ?case by simp
next
  case (Cons c s)
  obtain w ws where w: "SplitByte s sep = w # ws" by (cases "SplitByte s sep") auto
  with Cons show ?case by (cases ws) auto
qed

lemma SplitByte_no_sep: "w \<in> set (SplitByte s sep) \<Longrightarrow> sep \<notin> set w"
  by (induction s arbitrary: w) (auto split: if_splits list.splits)

lemma SplitByte_id: "sep \<notin> set s \<Longrightarrow> SplitByte s sep = [s]"
  by (induction s) auto

lemma SplitByte_append: "sep \<notin> set w \<Longrightarrow> SplitByte (w @ sep # s) sep = w # SplitByte s sep"
  by (induction w) auto

lemma IndexByte_None_iff: "IndexByte s c = None \<longleftrightarrow> c \<notin> set s"
  by (induction s) auto

lemma IndexByte_Some:
  "IndexByte s c = Some i \<Longrightarrow> i < length s \<and> s ! i = c \<and> c \<notin> set (take i s)"
  by (induction s arbitrary: i) (auto split: if_splits)

section \<open>Substrings and trimming\<close>

definition Contains :: "string \<Rightarrow> string \<Rightarrow> bool" where
  "Contains s sub \<longleftrightarrow> list_ex (\<lambda>i. HasPrefix (drop i s) sub) [0..<length s + 1]"

text \<open>\<open>TrimRight\<close> with a one-byte cutset.\<close>

definition TrimRight :: "string \<Rightarrow> char \<Rightarrow> string" where
  "TrimRight s c = rev (dropWhile (\<lambda>x. x = c) (rev s))"

lemma Contains_iff: "Contains s sub \<longleftrightarrow> (\<exists>a b. s = a @ sub @ b)"
proof
  assume "Contains s sub"
  then obtain i where "HasPrefix (drop i s) sub"
    unfolding Contains_def list_ex_iff by blast
  then obtain b where "drop i s = sub @ b" by (auto simp: HasPrefix_iff_prefix prefix_def)
  then have "s = take i s @ sub @ b" by (metis append_take_drop_id)
  then show "\<exists>a b. s = a @ sub @ b" by blast
next
  assume "\<exists>a b. s = a @ sub @ b"
  then obtain a b where s: "s = a @ sub @ b" by blast
  then have "length a \<in> set [0..<length s + 1]" "HasPrefix (drop (length a) s) sub"
    by (auto simp: HasPrefix_def)
  then show "Contains s sub" unfolding Contains_def list_ex_iff by blast
qed

end
