(* ===== verification/Token.thy ===== *)
theory Token
  imports Prelude
begin

text \<open>
  Tokens, positions, comments and diagnostics: \<^verbatim>\<open>internal/lexer/token.go\<close>,
  \<^verbatim>\<open>internal/lexer/position.go\<close> and the diagnostic types of \<^verbatim>\<open>internal/lexer/lexer.go\<close>.

  A token kind is a constructor of \<open>kind\<close>, in the order of the source's \<open>iota\<close>; the
  order of the constants is an instance of \<open>linorder\<close>, so the range tests of the source
  read the same here. A diagnostic's message is kept as the format and arguments the source
  hands to \<^verbatim>\<open>fmt.Sprintf\<close>, unrendered: two messages are equal exactly when format and
  arguments are. The text of an \<open>Error\<close> token is such a message, so it has a field of its
  own, \<open>tok_Err\<close>, and its \<open>tok_Text\<close> is empty.
\<close>

section \<open>Token kinds\<close>

datatype kind =
    EOF | Error
  | Ident | IntTok | Float | String | RawString | Duration | Size | PathWord
  | KwPackage | KwType | KwEnum | KwError | KwScalar | KwService | KwExtend
  | KwMiddleware | KwRequest | KwResponse | KwMap | KwTrue | KwFalse | KwNull
  | KwEvent | KwPayload
  | VerbGet | VerbPost | VerbPut | VerbPatch | VerbDelete | VerbHead | VerbOptions
  | LBrace | RBrace | LParen | RParen | LBracket | RBracket | LAngle | RAngle
  | Comma | Colon | Equal | Question | Dot | Slash | At | Dash

text \<open>The kinds in the order of the source's constant block.\<close>

definition all_kinds :: "kind list" where
  "all_kinds =
    [EOF, Error, Ident, IntTok, Float, String, RawString, Duration, Size, PathWord,
     KwPackage, KwType, KwEnum, KwError, KwScalar, KwService, KwExtend, KwMiddleware,
     KwRequest, KwResponse, KwMap, KwTrue, KwFalse, KwNull, KwEvent, KwPayload,
     VerbGet, VerbPost, VerbPut, VerbPatch, VerbDelete, VerbHead, VerbOptions,
     LBrace, RBrace, LParen, RParen, LBracket, RBracket, LAngle, RAngle,
     Comma, Colon, Equal, Question, Dot, Slash, At, Dash]"

primrec iota :: "kind \<Rightarrow> nat" where
  "iota EOF = 0" | "iota Error = 1" | "iota Ident = 2" | "iota IntTok = 3" | "iota Float = 4"
| "iota String = 5" | "iota RawString = 6" | "iota Duration = 7" | "iota Size = 8"
| "iota PathWord = 9" | "iota KwPackage = 10" | "iota KwType = 11" | "iota KwEnum = 12"
| "iota KwError = 13" | "iota KwScalar = 14" | "iota KwService = 15" | "iota KwExtend = 16"
| "iota KwMiddleware = 17" | "iota KwRequest = 18" | "iota KwResponse = 19" | "iota KwMap = 20"
| "iota KwTrue = 21" | "iota KwFalse = 22" | "iota KwNull = 23" | "iota KwEvent = 24"
| "iota KwPayload = 25" | "iota VerbGet = 26" | "iota VerbPost = 27" | "iota VerbPut = 28"
| "iota VerbPatch = 29" | "iota VerbDelete = 30" | "iota VerbHead = 31" | "iota VerbOptions = 32"
| "iota LBrace = 33" | "iota RBrace = 34" | "iota LParen = 35" | "iota RParen = 36"
| "iota LBracket = 37" | "iota RBracket = 38" | "iota LAngle = 39" | "iota RAngle = 40"
| "iota Comma = 41" | "iota Colon = 42" | "iota Equal = 43" | "iota Question = 44"
| "iota Dot = 45" | "iota Slash = 46" | "iota At = 47" | "iota Dash = 48"

lemma all_kinds_nth: "all_kinds ! iota k = k"
  by (cases k) (simp_all add: all_kinds_def)

lemma iota_inject [simp]: "iota a = iota b \<longleftrightarrow> a = b"
  by (metis all_kinds_nth)

instantiation kind :: linorder
begin

definition less_eq_kind :: "kind \<Rightarrow> kind \<Rightarrow> bool" where
  "less_eq_kind a b \<longleftrightarrow> iota a \<le> iota b"

definition less_kind :: "kind \<Rightarrow> kind \<Rightarrow> bool" where
  "less_kind a b \<longleftrightarrow> iota a < iota b"

instance
  by standard (auto simp: less_eq_kind_def less_kind_def)

end

primrec kindNames :: "kind \<Rightarrow> string" where
  "kindNames EOF = ''EOF''" | "kindNames Error = ''Error''" | "kindNames Ident = ''Ident''"
| "kindNames IntTok = ''Int''" | "kindNames Float = ''Float''" | "kindNames String = ''String''"
| "kindNames RawString = ''RawString''" | "kindNames Duration = ''Duration''"
| "kindNames Size = ''Size''" | "kindNames PathWord = ''PathWord''"
| "kindNames KwPackage = ''package''" | "kindNames KwType = ''type''"
| "kindNames KwEnum = ''enum''" | "kindNames KwError = ''error''"
| "kindNames KwScalar = ''scalar''" | "kindNames KwService = ''service''"
| "kindNames KwExtend = ''extend''" | "kindNames KwMiddleware = ''middleware''"
| "kindNames KwRequest = ''request''" | "kindNames KwResponse = ''response''"
| "kindNames KwMap = ''map''" | "kindNames KwTrue = ''true''" | "kindNames KwFalse = ''false''"
| "kindNames KwNull = ''null''" | "kindNames KwEvent = ''event''"
| "kindNames KwPayload = ''payload''" | "kindNames VerbGet = ''get''"
| "kindNames VerbPost = ''post''" | "kindNames VerbPut = ''put''"
| "kindNames VerbPatch = ''patch''" | "kindNames VerbDelete = ''delete''"
| "kindNames VerbHead = ''head''" | "kindNames VerbOptions = ''options''"
| "kindNames LBrace = ''{''" | "kindNames RBrace = ''}''" | "kindNames LParen = ''(''"
| "kindNames RParen = '')''" | "kindNames LBracket = ''[''" | "kindNames RBracket = '']''"
| "kindNames LAngle = ''<''" | "kindNames RAngle = ''>''" | "kindNames Comma = '',''"
| "kindNames Colon = '':''" | "kindNames Equal = ''=''" | "kindNames Question = ''?''"
| "kindNames Dot = ''.''" | "kindNames Slash = ''/''" | "kindNames At = ''@''"
| "kindNames Dash = ''-''"

definition IsKeyword :: "kind \<Rightarrow> bool" where
  "IsKeyword k \<longleftrightarrow> k \<ge> KwPackage \<and> k \<le> VerbOptions"

definition IsVerb :: "kind \<Rightarrow> bool" where
  "IsVerb k \<longleftrightarrow> k \<ge> VerbGet \<and> k \<le> VerbOptions"

definition spellings :: "kind \<Rightarrow> kind \<Rightarrow> (string \<rightharpoonup> kind)" where
  "spellings first last' =
     map_of (map (\<lambda>k. (kindNames k, k)) (filter (\<lambda>k. first \<le> k \<and> k \<le> last') all_kinds))"

definition keywords_tab :: "string \<rightharpoonup> kind" where
  "keywords_tab = spellings KwPackage VerbOptions"

definition punctuation :: "string \<rightharpoonup> kind" where
  "punctuation = spellings LBrace Dash"

definition LookupKeyword :: "string \<Rightarrow> kind option" where
  "LookupKeyword s = keywords_tab s"

section \<open>ASCII classes\<close>

definition isLetter :: "rune \<Rightarrow> bool" where
  "isLetter r \<longleftrightarrow> (97 \<le> r \<and> r \<le> 122) \<or> (65 \<le> r \<and> r \<le> 90)"

definition isIdentStart :: "rune \<Rightarrow> bool" where
  "isIdentStart r \<longleftrightarrow> isLetter r \<or> r = 95"

definition isDigit :: "rune \<Rightarrow> bool" where
  "isDigit r \<longleftrightarrow> 48 \<le> r \<and> r \<le> 57"

definition isPathChar :: "rune \<Rightarrow> bool" where
  "isPathChar r \<longleftrightarrow> isLetter r \<or> isDigit r \<or> r = 45 \<or> r = 46 \<or> r = 95 \<or> r = 126"

lemmas ascii_class_defs = isLetter_def isIdentStart_def isDigit_def isPathChar_def

text \<open>
  The runes of \<open>s\<close> with the byte index each starts at, as Go's \<open>for i, r := range s\<close>
  visits them.
\<close>

function range_string :: "nat \<Rightarrow> string \<Rightarrow> (nat \<times> rune) list" where
  "range_string i s =
     (if s = [] then []
      else (let (r, size) = DecodeRuneInString s
            in (i, r) # range_string (i + size) (drop size s)))"
  by pat_completeness auto
termination
  by (relation "measure (\<lambda>(i, s). length s)") (auto dest: DecodeRune_pair_size)

declare range_string.simps [simp del]

definition IsIdent :: "string \<Rightarrow> bool" where
  "IsIdent s =
     (if s = [] then False
      else if \<exists>(i, r) \<in> set (range_string 0 s). \<not> isIdentStart r \<and> (i = 0 \<or> \<not> isDigit r)
      then False
      else keywords_tab s = None)"

section \<open>Positions, comments and tokens\<close>

record Position =
  pos_Filename :: string
  pos_Offset :: nat
  pos_Line :: nat
  pos_Column :: nat

definition IsValid :: "Position \<Rightarrow> bool" where
  "IsValid p \<longleftrightarrow> pos_Line p > 0"

definition zero_Position :: Position where
  "zero_Position = \<lparr>pos_Filename = [], pos_Offset = 0, pos_Line = 0, pos_Column = 0\<rparr>"

text \<open>\<open>%d\<close> of a number that is not negative.\<close>

fun Itoa :: "nat \<Rightarrow> string" where
  "Itoa n = (if n < 10 then [char_of (48 + n)] else Itoa (n div 10) @ [char_of (48 + n mod 10)])"

declare Itoa.simps [simp del]

definition Position_String :: "Position \<Rightarrow> string" where
  "Position_String p =
     (if pos_Filename p \<noteq> [] \<and> pos_Line p = 0 then pos_Filename p
      else if pos_Filename p \<noteq> []
      then pos_Filename p @ '':'' @ Itoa (pos_Line p) @ '':'' @ Itoa (pos_Column p)
      else Itoa (pos_Line p) @ '':'' @ Itoa (pos_Column p))"

datatype CommentKind = CommentLeading | CommentTrailing

definition CommentKind_String :: "CommentKind \<Rightarrow> string" where
  "CommentKind_String k = (if k = CommentTrailing then ''trailing'' else ''leading'')"

record Comment =
  c_Pos :: Position
  c_Text :: string
  c_Kind :: CommentKind

text \<open>A message: the format and the arguments of a \<open>Sprintf\<close> call.\<close>

datatype message = Msg (msg_format: string) (msg_args: "fmt_arg list")
and fmt_arg =
    AStr string
  | AInt int
  | ARune rune
  | AKind kind
  | APos Position
  | AErr message
  | AFloat bool nat int

record Token =
  tok_Kind :: kind
  tok_Text :: string
  tok_Err :: "message option"
  tok_Pos :: Position
  tok_Doc :: "string list"

definition mk_token :: "kind \<Rightarrow> string \<Rightarrow> Position \<Rightarrow> Token" where
  "mk_token k text pos =
     \<lparr>tok_Kind = k, tok_Text = text, tok_Err = None, tok_Pos = pos, tok_Doc = []\<rparr>"

definition error_token :: "message \<Rightarrow> Position \<Rightarrow> Token" where
  "error_token msg pos =
     \<lparr>tok_Kind = Error, tok_Text = [], tok_Err = Some msg, tok_Pos = pos, tok_Doc = []\<rparr>"

text \<open>Go's zero \<open>Token\<close> but for its position, the result of a failed \<open>expect\<close>.\<close>

definition empty_token :: "Position \<Rightarrow> Token" where
  "empty_token pos = mk_token EOF [] pos"

section \<open>Diagnostics\<close>

datatype Severity = SeverityError | SeverityWarning | SeverityInfo | SeverityHint

primrec Severity_String :: "Severity \<Rightarrow> string" where
  "Severity_String SeverityWarning = ''warning''"
| "Severity_String SeverityInfo = ''info''"
| "Severity_String SeverityHint = ''hint''"
| "Severity_String SeverityError = ''error''"

record Related =
  rel_Pos :: Position
  rel_Msg :: message

record Diagnostic =
  d_Pos :: Position
  d_End :: Position
  d_Severity :: Severity
  d_Code :: string
  d_Msg :: message
  d_Related :: "Related list"

definition IsError :: "Diagnostic \<Rightarrow> bool" where
  "IsError d \<longleftrightarrow> d_Severity d \<noteq> SeverityWarning \<and> d_Severity d \<noteq> SeverityInfo
     \<and> d_Severity d \<noteq> SeverityHint"

definition CodeSyntaxToken :: string where
  "CodeSyntaxToken = ''syntax/token''"

text \<open>A diagnostic with a position, a code and a message, every other field zero.\<close>

definition mk_diag :: "Position \<Rightarrow> string \<Rightarrow> message \<Rightarrow> Diagnostic" where
  "mk_diag pos code msg =
     \<lparr>d_Pos = pos, d_End = zero_Position, d_Severity = SeverityError, d_Code = code,
      d_Msg = msg, d_Related = []\<rparr>"

lemma mk_diag_sel [simp]:
  "d_Pos (mk_diag p c m) = p" "d_Code (mk_diag p c m) = c" "d_Msg (mk_diag p c m) = m"
  "IsError (mk_diag p c m)"
  by (simp_all add: mk_diag_def IsError_def)

lemma mk_token_sel [simp]:
  "tok_Kind (mk_token k t p) = k" "tok_Text (mk_token k t p) = t" "tok_Pos (mk_token k t p) = p"
  "tok_Doc (mk_token k t p) = []" "tok_Err (mk_token k t p) = None"
  by (simp_all add: mk_token_def)

lemma error_token_sel [simp]:
  "tok_Kind (error_token m p) = Error" "tok_Pos (error_token m p) = p"
  "tok_Err (error_token m p) = Some m" "tok_Text (error_token m p) = []"
  by (simp_all add: error_token_def)

section \<open>Lemmas\<close>

lemma range_string_Cons_ascii:
  "(of_char c :: nat) < 0x80 \<Longrightarrow> range_string i (c # s) = (i, of_char c) # range_string (Suc i) s"
  by (subst range_string.simps) (simp add: DecodeRune_ascii)

lemma range_string_Nil [simp]: "range_string i [] = []"
  by (simp add: range_string.simps)

lemma ascii_class_lt_80:
  "isLetter r \<Longrightarrow> r < 0x80" "isIdentStart r \<Longrightarrow> r < 0x80" "isDigit r \<Longrightarrow> r < 0x80"
  "isPathChar r \<Longrightarrow> r < 0x80"
  by (auto simp: ascii_class_defs)

lemma in_all_kinds [simp]: "k \<in> set all_kinds"
  by (cases k) (simp_all add: all_kinds_def)

text \<open>No two kinds share a spelling, so each table of spellings inverts \<open>kindNames\<close>.\<close>

lemma kindNames_inverse: "map_of (map (\<lambda>k. (kindNames k, k)) all_kinds) (kindNames k) = Some k"
  by (cases k) (simp_all add: all_kinds_def)

lemma kindNames_inject [simp]: "kindNames a = kindNames b \<longleftrightarrow> a = b"
  by (metis kindNames_inverse option.inject)

lemma map_of_kindNames:
  "map_of (map (\<lambda>k. (kindNames k, k)) ks) s = Some k \<longleftrightarrow> k \<in> set ks \<and> kindNames k = s"
  by (induction ks) auto

lemma spellings_iff: "spellings a b s = Some k \<longleftrightarrow> a \<le> k \<and> k \<le> b \<and> kindNames k = s"
  by (auto simp: spellings_def map_of_kindNames)

lemma keywords_tab_iff: "keywords_tab s = Some k \<longleftrightarrow> IsKeyword k \<and> kindNames k = s"
  by (auto simp: keywords_tab_def spellings_iff IsKeyword_def)

lemma punctuation_iff: "punctuation s = Some k \<longleftrightarrow> LBrace \<le> k \<and> k \<le> Dash \<and> kindNames k = s"
  by (auto simp: punctuation_def spellings_iff)

lemma range_string_Cons_wide:
  assumes "\<not> (of_char c :: nat) < 0x80"
  obtains r rest where "range_string i (c # s) = (i, r) # rest" and "\<not> r < 0x80"
proof -
  obtain r n where rn: "DecodeRuneInString (c # s) = (r, n)" by fastforce
  then have "\<not> r < 0x80" using assms DecodeRune_lt_80_iff [of c s] by simp
  moreover have "range_string i (c # s) = (i, r) # range_string (i + n) (drop n (c # s))"
    by (subst range_string.simps) (simp add: rn)
  ultimately show ?thesis using that by blast
qed

lemma range_string_later: "(j, r) \<in> set (range_string i s) \<Longrightarrow> i \<le> j"
proof (induction i s rule: range_string.induct)
  case (1 i s)
  then show ?case
    by (subst (asm) (2) range_string.simps) (fastforce split: prod.splits if_splits)
qed

lemma range_string_ident:
  "(\<forall>(j, r) \<in> set (range_string i s). isIdentStart r \<or> isDigit r)
     \<longleftrightarrow> (\<forall>c \<in> set s. isIdentStart (of_char c) \<or> isDigit (of_char c))"
proof (induction s arbitrary: i)
  case (Cons c cs)
  show ?case
  proof (cases "(of_char c :: nat) < 0x80")
    case True
    then show ?thesis using Cons by (auto simp: range_string_Cons_ascii)
  next
    case False
    moreover from False obtain r rest
      where "range_string i (c # cs) = (i, r) # rest" and "\<not> r < 0x80"
      by (rule range_string_Cons_wide)
    ultimately show ?thesis using ascii_class_lt_80 by auto
  qed
qed simp

text \<open>\<open>IsIdent\<close> byte by byte: an identifier is ASCII, so its runes are its bytes.\<close>

lemma IsIdent_bytes:
  "IsIdent s \<longleftrightarrow> s \<noteq> [] \<and> isIdentStart (of_char (hd s))
     \<and> (\<forall>c \<in> set s. isIdentStart (of_char c) \<or> isDigit (of_char c)) \<and> keywords_tab s = None"
proof (cases s)
  case (Cons c cs)
  show ?thesis
  proof (cases "(of_char c :: nat) < 0x80")
    case True
    have "(\<exists>(i, r) \<in> set (range_string 1 cs). \<not> isIdentStart r \<and> (i = 0 \<or> \<not> isDigit r))
        \<longleftrightarrow> \<not> (\<forall>(j, r) \<in> set (range_string 1 cs). isIdentStart r \<or> isDigit r)"
      by (auto dest: range_string_later)
    then show ?thesis
      using Cons True
      by (auto simp: IsIdent_def range_string_Cons_ascii range_string_ident)
  next
    case False
    moreover from False obtain r rest
      where "range_string 0 (c # cs) = (0, r) # rest" and "\<not> r < 0x80"
      by (rule range_string_Cons_wide)
    ultimately show ?thesis
      using Cons ascii_class_lt_80 by (auto simp: IsIdent_def)
  qed
qed (simp add: IsIdent_def)

end
