(* ===== verification/Strconv.thy ===== *)
theory Strconv
  imports Token
begin

text \<open>
  The number conversions of Go's \<^verbatim>\<open>strconv\<close> and \<^verbatim>\<open>time\<close> packages that the lexer and the
  parser call, and \<^verbatim>\<open>internal/lexer/units.go\<close> on top of them.

  \<open>ParseInt\<close> reads base ten at 64 bits and clamps out of range, as the library does. A
  \<open>float64\<close> is a sign, a mantissa below \<open>2 ^ 53\<close> and an exponent, rounded to nearest even
  from the exact quotient; \<open>ParseFloat\<close> covers the decimal literals without an exponent,
  the only ones a \<open>Float\<close> token spells. \<open>time_ParseDuration\<close> follows the library's loop,
  its floating-point step for fractions and its 64-bit wrap-around included.
\<close>

section \<open>Integers\<close>

definition digit_val :: "char \<Rightarrow> nat" where
  "digit_val c = of_char c - 48"

definition is_digit_char :: "char \<Rightarrow> bool" where
  "is_digit_char c = isDigit (of_char c)"

definition decimal_value :: "string \<Rightarrow> nat" where
  "decimal_value s = foldl (\<lambda>n c. n * 10 + digit_val c) 0 s"

definition max_int64 :: int where
  "max_int64 = 2 ^ 63 - 1"

definition min_int64 :: int where
  "min_int64 = - (2 ^ 63)"

definition in_int64 :: "int \<Rightarrow> bool" where
  "in_int64 n \<longleftrightarrow> min_int64 \<le> n \<and> n \<le> max_int64"

text \<open>
  \<open>strconv.ParseInt(s, 10, 64)\<close>: the value and whether \<open>err\<close> is nil. A syntax error gives
  \<open>0\<close>, a range error the nearest bound.
\<close>

definition ParseInt :: "string \<Rightarrow> int \<times> bool" where
  "ParseInt s =
     (let neg = HasPrefix s ''-'';
          t = (if neg \<or> HasPrefix s ''+'' then drop 1 s else s)
      in if t = [] \<or> \<not> list_all is_digit_char t then (0, False)
         else (let un = int (decimal_value t)
               in if \<not> neg \<and> un \<ge> 2 ^ 63 then (max_int64, False)
                  else if neg \<and> un > 2 ^ 63 then (min_int64, False)
                  else (if neg then - un else un, True)))"

definition hex_val :: "char \<Rightarrow> nat option" where
  "hex_val c =
     (let b = of_char c
      in if 48 \<le> b \<and> b \<le> 57 then Some (b - 48)
         else if 97 \<le> b \<and> b \<le> 102 then Some (b - 87)
         else if 65 \<le> b \<and> b \<le> 70 then Some (b - 55)
         else None)"

fun hex_digits :: "nat \<Rightarrow> string \<Rightarrow> nat option" where
  "hex_digits n [] = Some n"
| "hex_digits n (c # cs) =
     (case hex_val c of None \<Rightarrow> None | Some d \<Rightarrow> hex_digits (n * 16 + d) cs)"

text \<open>\<open>strconv.ParseUint(s, 16, 32)\<close>, \<open>None\<close> when \<open>err\<close> is not nil.\<close>

definition ParseUintHex32 :: "string \<Rightarrow> nat option" where
  "ParseUintHex32 s =
     (if s = [] then None
      else case hex_digits 0 s of None \<Rightarrow> None | Some n \<Rightarrow> if n < 2 ^ 32 then Some n else None)"

section \<open>Floating point\<close>

datatype float64 =
    Finite (f_neg: bool) (f_mant: nat) (f_exp: int)
  | Infinite bool

fun bitlen :: "nat \<Rightarrow> nat" where
  "bitlen n = (if n = 0 then 0 else Suc (bitlen (n div 2)))"

declare bitlen.simps [simp del]

text \<open>\<open>num / den \<ge> 2 ^ k\<close>.\<close>

definition ge_pow2 :: "nat \<Rightarrow> nat \<Rightarrow> int \<Rightarrow> bool" where
  "ge_pow2 num den k \<longleftrightarrow>
     (if 0 \<le> k then den * 2 ^ nat k \<le> num else den \<le> num * 2 ^ nat (- k))"

text \<open>
  The \<open>float64\<close> nearest to \<open>num / den\<close>, ties to even, as mantissa and exponent; \<open>None\<close>
  when it is past the largest finite one.
\<close>

definition round_f64 :: "nat \<Rightarrow> nat \<Rightarrow> (nat \<times> int) option" where
  "round_f64 num den =
     (if num = 0 then Some (0, 0)
      else
        let k = int (bitlen num) - int (bitlen den);
            fl = (if ge_pow2 num den k then k else k - 1);
            e = max (- 1074) (fl - 52);
            N = (if 0 \<le> e then num else num * 2 ^ nat (- e));
            D = (if 0 \<le> e then den * 2 ^ nat e else den);
            m0 = N div D;
            r = N mod D;
            m1 = (if D < 2 * r \<or> D = 2 * r \<and> odd m0 then Suc m0 else m0);
            (m, e') = (if m1 = 2 ^ 53 then (2 ^ 52, e + 1) else (m1, e))
        in if 971 < e' then None else Some (m, e'))"

text \<open>
  \<open>strconv.ParseFloat(s, 64)\<close> of \<open>[-]digits[.digits]\<close>: the value and whether \<open>err\<close> is
  nil; past the range it is an infinity and a range error.
\<close>

definition ParseFloat :: "string \<Rightarrow> float64 \<times> bool" where
  "ParseFloat s =
     (let neg = HasPrefix s ''-'';
          t = TrimPrefix s ''-'';
          whole = takeWhile is_digit_char t;
          rest = drop (length whole) t;
          frac = TrimPrefix rest ''.''
      in if (rest = [] \<or> HasPrefix rest ''.'') \<and> list_all is_digit_char frac \<and> whole @ frac \<noteq> []
         then (case round_f64 (decimal_value (whole @ frac)) (10 ^ length frac) of
                 None \<Rightarrow> (Infinite neg, False)
               | Some (m, e) \<Rightarrow> (Finite neg m e, True))
         else (Finite False 0 0, False))"

section \<open>Durations\<close>

definition micro_sign :: string where
  "micro_sign = [CHR 0xC2, CHR 0xB5]"

definition greek_mu :: string where
  "greek_mu = [CHR 0xCE, CHR 0xBC]"

definition unitMap :: "string \<rightharpoonup> nat" where
  "unitMap = map_of
     [(''ns'', 1), (''us'', 1000), (micro_sign @ ''s'', 1000), (greek_mu @ ''s'', 1000),
      (''ms'', 1000000), (''s'', 1000000000), (''m'', 60000000000), (''h'', 3600000000000)]"

fun leadingInt :: "nat \<Rightarrow> string \<Rightarrow> (nat \<times> string) option" where
  "leadingInt x [] = Some (x, [])"
| "leadingInt x (c # cs) =
     (if \<not> is_digit_char c then Some (x, c # cs)
      else if x > 2 ^ 63 div 10 then None
      else if x * 10 + digit_val c > 2 ^ 63 then None
      else leadingInt (x * 10 + digit_val c) cs)"

text \<open>The digits that fit, how many of them, and the rest after every digit.\<close>

fun leadingFraction :: "nat \<Rightarrow> nat \<Rightarrow> bool \<Rightarrow> string \<Rightarrow> nat \<times> nat \<times> string" where
  "leadingFraction x k overflow [] = (x, k, [])"
| "leadingFraction x k overflow (c # cs) =
     (if \<not> is_digit_char c then (x, k, c # cs)
      else if overflow then leadingFraction x k True cs
      else if x > (2 ^ 63 - 1) div 10 then leadingFraction x k True cs
      else if x * 10 + digit_val c > 2 ^ 63 then leadingFraction x k True cs
      else leadingFraction (x * 10 + digit_val c) (Suc k) False cs)"

text \<open>\<open>num / den\<close> of a rounded value, and the truncation of a rounded value to an integer.\<close>

definition f_num :: "nat \<times> int \<Rightarrow> nat" where
  "f_num f = (if 0 \<le> snd f then fst f * 2 ^ nat (snd f) else fst f)"

definition f_den :: "nat \<times> int \<Rightarrow> nat" where
  "f_den f = (if 0 \<le> snd f then 1 else 2 ^ nat (- snd f))"

definition f_trunc :: "nat \<times> int \<Rightarrow> nat" where
  "f_trunc f = f_num f div f_den f"

text \<open>\<open>uint64(float64(f) * (float64(unit) / scale))\<close>, where \<open>scale\<close> is \<open>10 ^ k\<close>.\<close>

definition fraction_ns :: "nat \<Rightarrow> nat \<Rightarrow> nat \<Rightarrow> nat" where
  "fraction_ns f unit k =
     (let ff = the (round_f64 f 1); q = the (round_f64 unit (10 ^ k))
      in f_trunc (the (round_f64 (f_num ff * f_num q) (f_den ff * f_den q))))"

definition unit_end :: "char \<Rightarrow> bool" where
  "unit_end c \<longleftrightarrow> c = CHR ''.'' \<or> is_digit_char c"

lemma leadingInt_length: "leadingInt x s = Some (v, s') \<Longrightarrow> length s' \<le> length s"
  by (induction x s rule: leadingInt.induct) (auto split: if_splits)

lemma leadingFraction_length: "leadingFraction x k b s = (f, k', s') \<Longrightarrow> length s' \<le> length s"
  by (induction x k b s rule: leadingFraction.induct) (auto split: if_splits)

lemma takeWhile_rest_less:
  "takeWhile P s \<noteq> [] \<Longrightarrow> length s \<le> n \<Longrightarrow> length (drop (length (takeWhile P s)) s) < n"
  by (cases s) (auto split: if_splits)

text \<open>
  One round of the loop of \<open>time.ParseDuration\<close>: the nanoseconds of the number and unit
  \<open>s\<close> opens with, and the text after them.
\<close>

definition duration_part :: "string \<Rightarrow> (nat \<times> string) option" where
  "duration_part s =
     (if \<not> unit_end (hd s) then None
      else case leadingInt 0 s of
        None \<Rightarrow> None
      | Some (v, s1) \<Rightarrow>
        let pre = (length s \<noteq> length s1);
            dot = HasPrefix s1 ''.'';
            (f, k, s2) = (if dot then leadingFraction 0 0 False (drop 1 s1) else (0, 0, s1));
            post = (dot \<and> length (drop 1 s1) \<noteq> length s2);
            u = takeWhile (\<lambda>c. \<not> unit_end c) s2
        in if \<not> pre \<and> \<not> post then None
           else if u = [] then None
           else case unitMap u of
             None \<Rightarrow> None
           | Some unit \<Rightarrow>
             if v > 2 ^ 63 div unit then None
             else let v1 = v * unit;
                      v2 = (if f > 0 then v1 + fraction_ns f unit k else v1)
                  in if v2 > 2 ^ 63 then None else Some (v2, drop (length u) s2))"

lemma duration_part_less:
  assumes "duration_part s = Some (v, rest)" shows "length rest < length s"
proof -
  obtain n s1 where s1: "leadingInt 0 s = Some (n, s1)"
    using assms by (auto simp: duration_part_def split: if_splits option.splits)
  obtain f k s2 where s2:
    "(if HasPrefix s1 ''.'' then leadingFraction 0 0 False (drop 1 s1) else (0, 0, s1)) = (f, k, s2)"
    by (metis prod.exhaust)
  have "length s1 \<le> length s" using s1 by (rule leadingInt_length)
  moreover have "length s2 \<le> length s1"
    using s2 leadingFraction_length [of 0 0 False "drop 1 s1" f k s2] by (auto split: if_splits)
  moreover have "takeWhile (\<lambda>c. \<not> unit_end c) s2 \<noteq> []"
    "rest = drop (length (takeWhile (\<lambda>c. \<not> unit_end c) s2)) s2"
    using assms s1 s2
    by (auto simp: duration_part_def Let_def split: if_splits option.splits)
  ultimately show ?thesis using takeWhile_rest_less by (metis le_trans)
qed

function duration_loop :: "nat \<Rightarrow> string \<Rightarrow> nat option" where
  "duration_loop d s =
     (if s = [] then Some d
      else case duration_part s of
        None \<Rightarrow> None
      | Some (v, rest) \<Rightarrow>
        let d' = (d + v) mod 2 ^ 64
        in if d' > 2 ^ 63 then None else duration_loop d' rest)"
  by pat_completeness auto
termination
  by (relation "measure (\<lambda>(d, s). length s)") (auto dest: duration_part_less)

declare duration_loop.simps [simp del]

text \<open>\<open>time.ParseDuration\<close>: nanoseconds, \<open>None\<close> when \<open>err\<close> is not nil.\<close>

definition time_ParseDuration :: "string \<Rightarrow> int option" where
  "time_ParseDuration s0 =
     (let neg = HasPrefix s0 ''-'';
          s = (if neg \<or> HasPrefix s0 ''+'' then drop 1 s0 else s0)
      in if s = ''0'' then Some 0
         else if s = [] then None
         else case duration_loop 0 s of
           None \<Rightarrow> None
         | Some d \<Rightarrow>
           if neg then Some (- int d)
           else if d > 2 ^ 63 - 1 then None
           else Some (int d))"

section \<open>units.go\<close>

record SizeUnit =
  Suffix :: string
  Bytes :: int

definition SizeUnits :: "SizeUnit list" where
  "SizeUnits =
     [\<lparr>Suffix = ''GB'', Bytes = 2 ^ 30\<rparr>, \<lparr>Suffix = ''MB'', Bytes = 2 ^ 20\<rparr>,
      \<lparr>Suffix = ''KB'', Bytes = 2 ^ 10\<rparr>, \<lparr>Suffix = ''B'', Bytes = 1\<rparr>]"

definition DurationUnits :: "string list" where
  "DurationUnits = [''ns'', ''us'', micro_sign @ ''s'', ''ms'', ''s'', ''m'', ''h'']"

definition SizeSuffixes :: "string list" where
  "SizeSuffixes = map Suffix SizeUnits"

definition IsDurationSuffix :: "string \<Rightarrow> bool" where
  "IsDurationSuffix s \<longleftrightarrow> s \<in> set DurationUnits \<or> s = greek_mu @ ''s''"

definition SizeMultiplier :: "string \<Rightarrow> int option" where
  "SizeMultiplier s = map_option Bytes (find (\<lambda>u. Suffix u = s) SizeUnits)"

text \<open>\<open>strings.TrimSpace\<close> on ASCII text.\<close>

definition is_space :: "char \<Rightarrow> bool" where
  "is_space c \<longleftrightarrow> c = CHR '' '' \<or> 9 \<le> (of_char c :: nat) \<and> (of_char c :: nat) \<le> 13"

definition TrimSpace :: "string \<Rightarrow> string" where
  "TrimSpace s = rev (dropWhile is_space (rev (dropWhile is_space s)))"

definition ParseDuration :: "string \<Rightarrow> int option" where
  "ParseDuration text' = time_ParseDuration (TrimSpace text')"

section \<open>Lemmas\<close>

lemma ParseInt_in_int64: "in_int64 (fst (ParseInt s))"
  by (auto simp: ParseInt_def in_int64_def max_int64_def min_int64_def Let_def)

lemma duration_loop_le: "d \<le> 2 ^ 63 \<Longrightarrow> duration_loop d s = Some d' \<Longrightarrow> d' \<le> 2 ^ 63"
proof (induction d s rule: duration_loop.induct)
  case (1 d s)
  then show ?case
    by (subst (asm) (2) duration_loop.simps)
       (auto simp: Let_def split: if_splits option.splits prod.splits)
qed

lemma ParseDuration_in_int64: "ParseDuration t = Some n \<Longrightarrow> in_int64 n"
  using duration_loop_le [of 0]
  by (fastforce simp: ParseDuration_def time_ParseDuration_def in_int64_def max_int64_def
      min_int64_def Let_def split: if_splits option.splits)

lemma IsDurationSuffix_unitMap: "IsDurationSuffix s \<longleftrightarrow> s \<in> dom unitMap"
  by (auto simp: IsDurationSuffix_def DurationUnits_def unitMap_def)

end
