(* ===== verification/Lexer.thy ===== *)
theory Lexer
  imports Strconv
begin

text \<open>
  The lexer of \<^verbatim>\<open>internal/lexer/lexer.go\<close>. The record \<open>Lexer\<close> has the fields of the Go
  struct; a method is a function from the record to its result and the record it leaves.
  The cursor offset is a byte offset. A scanning loop is a recursive function whose measure
  is the number of bytes left; \<open>advance_moves\<close>, the fact that \<open>advance\<close> consumes at least
  one byte while one remains, is what makes each of them total.
\<close>

section \<open>State\<close>

record Lexer =
  l_src :: string
  l_filename :: string
  l_offset :: nat
  l_line :: nat
  l_column :: nat
  l_diags :: "Diagnostic list"
  l_pendingDoc :: "string list"
  l_allComments :: "Comment list"
  l_routeEnd :: int
  l_checked :: nat

definition byteOrderMarkRune :: rune where
  "byteOrderMarkRune = 0xFEFF"

definition byteOrderMark :: string where
  "byteOrderMark = AppendRune byteOrderMarkRune"

definition New :: "string \<Rightarrow> string \<Rightarrow> Lexer" where
  "New filename src =
     \<lparr>l_src = src, l_filename = filename,
      l_offset = (if HasPrefix src byteOrderMark then length byteOrderMark else 0),
      l_line = 1, l_column = 1, l_diags = [], l_pendingDoc = [], l_allComments = [],
      l_routeEnd = -1, l_checked = 0\<rparr>"

text \<open>The text at the cursor, \<open>l.src[l.offset:]\<close>, and the text from \<open>a\<close> up to the cursor.\<close>

abbreviation rest_of :: "Lexer \<Rightarrow> string" where
  "rest_of l \<equiv> drop (l_offset l) (l_src l)"

definition slice :: "string \<Rightarrow> nat \<Rightarrow> nat \<Rightarrow> string" where
  "slice s a b = take (b - a) (drop a s)"

definition at_eof :: "Lexer \<Rightarrow> bool" where
  "at_eof l \<longleftrightarrow> length (l_src l) \<le> l_offset l"

definition Diagnostics :: "Lexer \<Rightarrow> Diagnostic list" where
  "Diagnostics l = l_diags l"

definition Comments :: "Lexer \<Rightarrow> Comment list" where
  "Comments l = l_allComments l"

section \<open>The cursor\<close>

definition lex_pos :: "Lexer \<Rightarrow> Position" where
  "lex_pos l =
     \<lparr>pos_Filename = l_filename l, pos_Offset = l_offset l, pos_Line = l_line l,
      pos_Column = l_column l\<rparr>"

definition errorf :: "Position \<Rightarrow> message \<Rightarrow> Lexer \<Rightarrow> Token \<times> Lexer" where
  "errorf pos msg l =
     (error_token msg pos, l\<lparr>l_diags := l_diags l @ [mk_diag pos CodeSyntaxToken msg]\<rparr>)"

text \<open>\<open>illegalRune\<close>, with \<open>None\<close> for the empty string.\<close>

definition illegalRune :: "rune \<Rightarrow> message option" where
  "illegalRune r =
     (if r = 9 \<or> r = 10 \<or> r = 13 then None
      else if r < 0x20 \<or> 0x7f \<le> r \<and> r \<le> 0x9f
      then Some (Msg ''the control character U+%04X'' [ARune r])
      else if r = byteOrderMarkRune then Some (Msg ''the byte order mark U+FEFF'' [])
      else if 0xfdd0 \<le> r \<and> r \<le> 0xfdef \<or> r mod 0x10000 div 2 = 0x7fff
      then Some (Msg ''the noncharacter U+%04X'' [ARune r])
      else None)"

definition line_end_text :: "string \<Rightarrow> bool" where
  "line_end_text rest \<longleftrightarrow>
     HasPrefix rest [CHR 0x0A]
     \<or> HasPrefix rest [CHR 0x0D] \<and> \<not> HasPrefix rest [CHR 0x0D, CHR 0x0A]"

definition atLineEnd :: "Lexer \<Rightarrow> bool" where
  "atLineEnd l = line_end_text (rest_of l)"

definition peek :: "Lexer \<Rightarrow> rune" where
  "peek l = (if at_eof l then 0 else fst (DecodeRuneInString (rest_of l)))"

definition advance :: "Lexer \<Rightarrow> bool \<times> Lexer" where
  "advance l =
     (let pos = lex_pos l;
          end' = atLineEnd l;
          (r, size) = DecodeRuneInString (rest_of l);
          l1 = l\<lparr>l_offset := l_offset l + size\<rparr>;
          l2 = (if end' then l1\<lparr>l_line := l_line l1 + 1, l_column := 1\<rparr>
                else l1\<lparr>l_column := l_column l1 + 1\<rparr>)
      in if pos_Offset pos < l_checked l2 then (False, l2)
         else let l3 = l2\<lparr>l_checked := l_offset l2\<rparr>
              in if r = RuneError \<and> size = 1
                 then (True, snd (errorf pos (Msg ''invalid UTF-8 encoding'' []) l3))
                 else if r = 0
                 then (True, snd (errorf pos (Msg ''illegal character NUL'' []) l3))
                 else if r = byteOrderMarkRune
                 then (True, snd (errorf pos
                   (Msg ''illegal byte order mark - one may only open the file'' []) l3))
                 else (case illegalRune r of
                   Some what \<Rightarrow>
                     (True, snd (errorf pos (Msg ''illegal character: %s'' [AErr what]) l3))
                 | None \<Rightarrow> (False, l3)))"

abbreviation adv :: "Lexer \<Rightarrow> Lexer" where
  "adv l \<equiv> snd (advance l)"

text \<open>The width in bytes of the rune at the cursor.\<close>

abbreviation rune_size :: "Lexer \<Rightarrow> nat" where
  "rune_size l \<equiv> snd (DecodeRuneInString (rest_of l))"

named_theorems adv_simps \<open>what advance and errorf do to each field\<close>

lemma errorf_sel [adv_simps]:
  "l_src (snd (errorf pos msg l)) = l_src l"
  "l_filename (snd (errorf pos msg l)) = l_filename l"
  "l_offset (snd (errorf pos msg l)) = l_offset l"
  "l_line (snd (errorf pos msg l)) = l_line l"
  "l_column (snd (errorf pos msg l)) = l_column l"
  "l_pendingDoc (snd (errorf pos msg l)) = l_pendingDoc l"
  "l_allComments (snd (errorf pos msg l)) = l_allComments l"
  "l_routeEnd (snd (errorf pos msg l)) = l_routeEnd l"
  "l_checked (snd (errorf pos msg l)) = l_checked l"
  "l_diags (snd (errorf pos msg l)) = l_diags l @ [mk_diag pos CodeSyntaxToken msg]"
  "fst (errorf pos msg l) = error_token msg pos"
  by (simp_all add: errorf_def)

lemma advance_sel [adv_simps]:
  "l_src (adv l) = l_src l"
  "l_filename (adv l) = l_filename l"
  "l_offset (adv l) = l_offset l + rune_size l"
  "l_line (adv l) = (if atLineEnd l then l_line l + 1 else l_line l)"
  "l_column (adv l) = (if atLineEnd l then 1 else l_column l + 1)"
  "l_pendingDoc (adv l) = l_pendingDoc l"
  "l_allComments (adv l) = l_allComments l"
  "l_routeEnd (adv l) = l_routeEnd l"
  by (simp_all add: advance_def Let_def errorf_sel split: prod.split option.split)

lemma advance_moves:
  assumes "\<not> at_eof l"
  shows "l_offset l < l_offset (adv l)" and "l_offset (adv l) \<le> length (l_src l)"
  using DecodeRune_size_pos [of "rest_of l"] DecodeRune_size_le [of "rest_of l"] assms
  by (simp_all add: advance_sel at_eof_def)

lemma advance_decreases [termination_simp]:
  "\<not> at_eof l \<Longrightarrow> length (l_src (adv l)) - l_offset (adv l) < length (l_src l) - l_offset l"
  using advance_moves [of l] by (simp add: advance_sel at_eof_def)

section \<open>Scanning loops\<close>

text \<open>
  \<open>for P(l.peek()) { l.advance() }\<close>. At the end of the source \<open>peek\<close> is 0, which none of
  the predicates the lexer loops on holds of, so the loop stops there.
\<close>

function advance_while :: "(rune \<Rightarrow> bool) \<Rightarrow> Lexer \<Rightarrow> Lexer" where
  "advance_while P l =
     (if \<not> at_eof l \<and> P (peek l) then advance_while P (adv l) else l)"
  by pat_completeness auto
termination
  by (relation "measure (\<lambda>(P, l). length (l_src l) - l_offset l)") (auto intro: advance_decreases)

declare advance_while.simps [simp del]

text \<open>The loop of \<open>lineComment\<close>, up to the end of the line.\<close>

function to_line_end :: "Lexer \<Rightarrow> Lexer" where
  "to_line_end l =
     (if \<not> at_eof l \<and> l_src l ! l_offset l \<noteq> CHR 0x0A \<and> l_src l ! l_offset l \<noteq> CHR 0x0D
      then to_line_end (adv l) else l)"
  by pat_completeness auto
termination
  by (relation "measure (\<lambda>l. length (l_src l) - l_offset l)") (auto intro: advance_decreases)

declare to_line_end.simps [simp del]

section \<open>Comments and white space\<close>

definition atLineComment :: "Lexer \<Rightarrow> bool" where
  "atLineComment l \<longleftrightarrow> HasPrefix (rest_of l) ''//'' \<and> int (l_offset l) \<noteq> l_routeEnd l"

definition lineComment :: "CommentKind \<Rightarrow> Lexer \<Rightarrow> string \<times> Lexer" where
  "lineComment kind l =
     (let pos = lex_pos l;
          start = l_offset l + length ''//'';
          l1 = to_line_end l;
          text' = TrimPrefix (slice (l_src l1) start (l_offset l1)) '' '';
          c = \<lparr>c_Pos = pos, c_Text = text', c_Kind = kind\<rparr>
      in (text', l1\<lparr>l_allComments := l_allComments l1 @ [c]\<rparr>))"

definition consumeTrailingComment :: "Lexer \<Rightarrow> Lexer" where
  "consumeTrailingComment l =
     (let l1 = advance_while (\<lambda>r. r = 32 \<or> r = 9) l
      in if \<not> atLineComment l1
         then l1\<lparr>l_offset := l_offset l, l_line := l_line l, l_column := l_column l\<rparr>
         else snd (lineComment CommentTrailing l1))"

named_theorems loop_simps \<open>fields the scanning loops leave alone\<close>

lemma advance_while_sel [loop_simps]:
  "l_src (advance_while P l) = l_src l"
  "l_filename (advance_while P l) = l_filename l"
  "l_pendingDoc (advance_while P l) = l_pendingDoc l"
  "l_allComments (advance_while P l) = l_allComments l"
  "l_routeEnd (advance_while P l) = l_routeEnd l"
  by (induction P l rule: advance_while.induct;
      simp add: advance_while.simps [of P l for P l] advance_sel)+

lemma to_line_end_sel [loop_simps]:
  "l_src (to_line_end l) = l_src l"
  "l_filename (to_line_end l) = l_filename l"
  "l_pendingDoc (to_line_end l) = l_pendingDoc l"
  "l_allComments (to_line_end l) = l_allComments l"
  "l_routeEnd (to_line_end l) = l_routeEnd l"
  by (induction l rule: to_line_end.induct;
      simp add: to_line_end.simps [of l for l] advance_sel)+


lemma loop_offset_le [loop_simps]:
  "l_offset l \<le> l_offset (advance_while P l)" "l_offset l \<le> l_offset (to_line_end l)"
proof -
  show "l_offset l \<le> l_offset (advance_while P l)"
  proof (induction P l rule: advance_while.induct)
    case (1 P l)
    then show ?case
      using advance_moves(1) [of l] by (subst advance_while.simps) force
  qed
  show "l_offset l \<le> l_offset (to_line_end l)"
  proof (induction l rule: to_line_end.induct)
    case (1 l)
    then show ?case
      using advance_moves(1) [of l] by (subst to_line_end.simps) force
  qed
qed

lemma atLineComment_not_eof: "atLineComment l \<Longrightarrow> \<not> at_eof l"
  by (auto simp: atLineComment_def at_eof_def)

lemma atLineComment_byte: "atLineComment l \<Longrightarrow> l_src l ! l_offset l = CHR ''/''"
  by (auto simp: atLineComment_def nth_via_drop)

lemma lineComment_moves:
  assumes "atLineComment l"
  shows "l_offset l < l_offset (snd (lineComment kind l))"
proof -
  have "to_line_end l = to_line_end (adv l)"
    using assms atLineComment_not_eof [OF assms] atLineComment_byte [OF assms]
    by (subst to_line_end.simps) simp
  then show ?thesis
    using advance_moves(1) [of l] atLineComment_not_eof [OF assms] loop_offset_le(2) [of "adv l"]
    by (simp add: lineComment_def Let_def)
qed

lemma lineComment_sel [loop_simps]:
  "l_src (snd (lineComment kind l)) = l_src l"
  "l_filename (snd (lineComment kind l)) = l_filename l"
  "l_routeEnd (snd (lineComment kind l)) = l_routeEnd l"
  "l_pendingDoc (snd (lineComment kind l)) = l_pendingDoc l"
  "l_offset (snd (lineComment kind l)) = l_offset (to_line_end l)"
  by (simp_all add: lineComment_def Let_def to_line_end_sel)

text \<open>
  The loop of \<open>skipWhitespaceAndComments\<close>; \<open>n\<close> is \<open>consecutiveNewlines\<close>.
\<close>

function skip_loop :: "nat \<Rightarrow> Lexer \<Rightarrow> Lexer" where
  "skip_loop n l =
     (if at_eof l then l
      else if atLineEnd l
      then skip_loop (Suc n) (adv (if Suc n \<ge> 2 then l\<lparr>l_pendingDoc := []\<rparr> else l))
      else if peek l = 32 \<or> peek l = 9 \<or> peek l = 13 then skip_loop n (adv l)
      else if atLineComment l
      then (let (text', l1) = lineComment CommentLeading l
            in skip_loop 0 (l1\<lparr>l_pendingDoc := l_pendingDoc l1 @ [text']\<rparr>))
      else l)"
  by pat_completeness auto
termination
proof (relation "measure (\<lambda>(n, l). length (l_src l) - l_offset l)", goal_cases)
  case (2 n l)
  let ?l = "if 2 \<le> Suc n then l\<lparr>l_pendingDoc := []\<rparr> else l"
  have "\<not> at_eof ?l" "l_src ?l = l_src l" "l_offset ?l = l_offset l"
    using 2 by (auto simp: at_eof_def)
  then show ?case using advance_decreases [of ?l] by simp
next
  case (4 n l p text' l1)
  then show ?case
    using lineComment_moves [of l CommentLeading] lineComment_sel [of CommentLeading l]
    by (cases "lineComment CommentLeading l") (auto simp: at_eof_def)
qed (auto intro: advance_decreases)

declare skip_loop.simps [simp del]

definition skipWhitespaceAndComments :: "Lexer \<Rightarrow> Lexer" where
  "skipWhitespaceAndComments l = skip_loop 0 l"

section \<open>Tokens\<close>

definition afterSlash :: "Lexer \<Rightarrow> bool" where
  "afterSlash l \<longleftrightarrow> l_offset l > 0 \<and> l_src l ! (l_offset l - 1) = CHR ''/''"

definition isUnitRune :: "rune \<Rightarrow> bool" where
  "isUnitRune r \<longleftrightarrow> isLetter r \<or> r = 0xB5 \<or> r = 0x3BC"

definition lexPathWord :: "Position \<Rightarrow> Lexer \<Rightarrow> Token \<times> Lexer" where
  "lexPathWord pos l =
     (let start = l_offset l;
          l1 = advance_while isPathChar l
      in (mk_token PathWord (slice (l_src l1) start (l_offset l1)) pos, l1))"

definition lexIdentOrKeyword :: "Position \<Rightarrow> Lexer \<Rightarrow> Token \<times> Lexer" where
  "lexIdentOrKeyword pos l =
     (let start = l_offset l;
          l1 = advance_while (\<lambda>r. isIdentStart r \<or> isDigit r) l;
          text' = slice (l_src l1) start (l_offset l1)
      in case keywords_tab text' of
           Some k \<Rightarrow> (mk_token k text' pos, l1)
         | None \<Rightarrow> (mk_token Ident text' pos, l1))"

definition digitFollowsDot :: "Lexer \<Rightarrow> bool" where
  "digitFollowsDot l \<longleftrightarrow>
     (if l_offset l + 1 \<ge> length (l_src l) then False
      else isDigit (of_char (l_src l ! (l_offset l + 1))))"

text \<open>The digits of a number and, for a \<open>Float\<close>, its dot and fraction.\<close>

definition scanDigits :: "Lexer \<Rightarrow> bool \<times> Lexer" where
  "scanDigits l =
     (let l1 = advance_while isDigit l;
          isFloat = (peek l1 = 46 \<and> digitFollowsDot l1)
      in (isFloat, if isFloat then advance_while isDigit (adv l1) else l1))"

definition lexNumber :: "Position \<Rightarrow> Lexer \<Rightarrow> Token \<times> Lexer" where
  "lexNumber pos l =
     (let start = l_offset l;
          (isFloat, l2) = scanDigits l;
          numText = slice (l_src l2) start (l_offset l2);
          suffStart = l_offset l2;
          l3 = advance_while isUnitRune l2;
          suffix = slice (l_src l3) suffStart (l_offset l3);
          text' = slice (l_src l3) start (l_offset l3)
      in if suffix = [] then
           (if isFloat then (mk_token Float numText pos, l3)
            else (mk_token IntTok numText pos, l3))
         else if IsDurationSuffix suffix then
           (if isDigit (peek l3) then
              (let l4 = advance_while (\<lambda>r. isDigit r \<or> r = 46 \<or> isUnitRune r) l3
               in errorf pos (Msg ''duration %s has more than one unit - write it with one, such as 90m for 1h30m''
                    [AStr (slice (l_src l4) start (l_offset l4))]) l4)
            else if ParseDuration text' = None then
              errorf pos (Msg ''duration %s is out of range - the longest is 2562047h (about 292 years)''
                [AStr text']) l3
            else (mk_token Duration text' pos, l3))
         else if SizeMultiplier suffix \<noteq> None then (mk_token Size text' pos, l3)
         else errorf pos (Msg ''invalid number suffix %q'' [AStr suffix]) l3)"


section \<open>String literals\<close>

definition simpleEscapes :: "char \<rightharpoonup> char" where
  "simpleEscapes =
     [CHR ''n'' \<mapsto> CHR 0x0A, CHR ''t'' \<mapsto> CHR 0x09, CHR ''r'' \<mapsto> CHR 0x0D,
      CHR 0x22 \<mapsto> CHR 0x22, CHR 0x5C \<mapsto> CHR 0x5C]"

lemma IndexByte_drop_less:
  "IndexByte s c = Some i \<Longrightarrow> length (drop (Suc i) s) < length s"
  using IndexByte_Some [of s c i] by auto

text \<open>
  The loop of \<open>Unquote\<close> over the text after the last escape; \<open>sb\<close> is the builder. An
  escape's \<open>}\<close> at index 8 at most leaves six hex digits, so the value fits a rune.
\<close>

function unquote_loop :: "string \<Rightarrow> string \<Rightarrow> message + string" where
  "unquote_loop sb s =
     (case IndexByte s (CHR 0x5C) of
        None \<Rightarrow> Inr (sb @ s)
      | Some i \<Rightarrow>
        let sb1 = sb @ take i s; s1 = drop (Suc i) s
        in if s1 = [] then Inl (Msg ''unterminated escape sequence'' [])
           else case simpleEscapes (hd s1) of
             Some b \<Rightarrow> unquote_loop (sb1 @ [b]) (drop 1 s1)
           | None \<Rightarrow>
             if hd s1 \<noteq> CHR ''u''
             then Inl (Msg (''invalid escape sequence '' @ [CHR 0x5C] @ ''%c'')
                        [ARune (fst (DecodeRuneInString s1))])
             else case IndexByte s1 (CHR ''}'') of
               None \<Rightarrow> Inl (Msg ''invalid unicode escape'' [])
             | Some end' \<Rightarrow>
               if length s1 < 2 \<or> s1 ! 1 \<noteq> CHR ''{'' \<or> end' < 3 \<or> end' > 8
               then Inl (Msg ''invalid unicode escape'' [])
               else case ParseUintHex32 (slice s1 2 end') of
                 None \<Rightarrow> Inl (Msg ''invalid unicode escape'' [])
               | Some v \<Rightarrow>
                 if \<not> ValidRune v
                 then Inl (Msg (''unicode escape '' @ [CHR 0x5C]
                        @ ''u{%s} is outside the valid code points (0-D7FF, E000-10FFFF)'')
                        [AStr (slice s1 2 end')])
                 else case illegalRune v of
                   Some what \<Rightarrow>
                     Inl (Msg (''unicode escape '' @ [CHR 0x5C]
                        @ ''u{%s} is %s, which no string may hold'')
                        [AStr (slice s1 2 end'), AErr what])
                 | None \<Rightarrow> unquote_loop (sb1 @ AppendRune v) (drop (Suc end') s1))"
  by pat_completeness auto
termination
  by (relation "measure (\<lambda>(sb, s). length s)") (auto dest!: IndexByte_drop_less)

declare unquote_loop.simps [simp del]

definition Unquote :: "string \<Rightarrow> message + string" where
  "Unquote text' =
     (let n = length text'
      in if n \<ge> 2 \<and> text' ! 0 = CHR ''`'' \<and> text' ! (n - 1) = CHR ''`''
         then Inr (ReplaceAll (ReplaceAll (slice text' 1 (n - 1)) [CHR 0x0D, CHR 0x0A] [CHR 0x0A])
                    [CHR 0x0D] [CHR 0x0A])
         else if n < 2 \<or> text' ! 0 \<noteq> CHR 0x22 \<or> text' ! (n - 1) \<noteq> CHR 0x22
         then Inl (Msg ''%q is not a string literal'' [AStr text'])
         else unquote_loop [] (slice text' 1 (n - 1)))"

lemma advance_decreases_via:
  assumes "\<not> at_eof l" and "l' = adv l \<or> (\<not> at_eof (adv l) \<and> l' = adv (adv l))"
  shows "length (l_src l') - l_offset l' < length (l_src l) - l_offset l"
  using assms advance_decreases [of l] advance_decreases [of "adv l"]
  by (auto intro: less_trans)

text \<open>The loop of \<open>lexString\<close>; \<open>start\<close> is the offset of the opening quote.\<close>

function string_loop :: "Position \<Rightarrow> nat \<Rightarrow> Lexer \<Rightarrow> Token \<times> Lexer" where
  "string_loop pos start l =
     (if at_eof l then errorf pos (Msg ''unterminated string literal'' []) l
      else if peek l = 10 \<or> peek l = 13 then errorf pos (Msg ''newline in string literal'' []) l
      else if peek l = 34
      then (let l1 = adv l; text' = slice (l_src l1) start (l_offset l1)
            in case Unquote text' of
                 Inl err \<Rightarrow> errorf pos (Msg ''%s'' [AErr err]) l1
               | Inr v \<Rightarrow> (mk_token String text' pos, l1))
      else if peek l = 92
      then string_loop pos start
             (if \<not> at_eof (adv l) \<and> peek (adv l) \<noteq> 10 \<and> peek (adv l) \<noteq> 13
              then adv (adv l) else adv l)
      else string_loop pos start (adv l))"
  by pat_completeness auto
termination
  by (relation "measure (\<lambda>(pos, start, l). length (l_src l) - l_offset l)")
     (auto intro: advance_decreases_via)

lemma string_loop_eqs:
  "at_eof l \<Longrightarrow> string_loop pos start l = errorf pos (Msg ''unterminated string literal'' []) l"
  "\<not> at_eof l \<Longrightarrow> peek l = 10 \<or> peek l = 13 \<Longrightarrow>
     string_loop pos start l = errorf pos (Msg ''newline in string literal'' []) l"
  "\<not> at_eof l \<Longrightarrow> peek l = 34 \<Longrightarrow>
     string_loop pos start l =
       (case Unquote (slice (l_src l) start (l_offset (adv l))) of
          Inl err \<Rightarrow> errorf pos (Msg ''%s'' [AErr err]) (adv l)
        | Inr v \<Rightarrow> (mk_token String (slice (l_src l) start (l_offset (adv l))) pos, adv l))"
  "\<not> at_eof l \<Longrightarrow> peek l = 92 \<Longrightarrow>
     string_loop pos start l = string_loop pos start
       (if \<not> at_eof (adv l) \<and> peek (adv l) \<noteq> 10 \<and> peek (adv l) \<noteq> 13 then adv (adv l) else adv l)"
  "\<not> at_eof l \<Longrightarrow> peek l \<notin> {10, 13, 34, 92} \<Longrightarrow>
     string_loop pos start l = string_loop pos start (adv l)"
  by (subst string_loop.simps, simp add: Let_def advance_sel split: sum.split)+

declare string_loop.simps [simp del]

definition lexString :: "Position \<Rightarrow> Lexer \<Rightarrow> Token \<times> Lexer" where
  "lexString pos l = string_loop pos (l_offset l) (adv l)"

function raw_loop :: "Position \<Rightarrow> nat \<Rightarrow> Lexer \<Rightarrow> Token \<times> Lexer" where
  "raw_loop pos start l =
     (if at_eof l then errorf pos (Msg ''unterminated raw string literal'' []) l
      else if peek l = 96
      then (mk_token RawString (slice (l_src (adv l)) start (l_offset (adv l))) pos, adv l)
      else raw_loop pos start (adv l))"
  by pat_completeness auto
termination
  by (relation "measure (\<lambda>(pos, start, l). length (l_src l) - l_offset l)")
     (auto intro: advance_decreases)

lemma raw_loop_eqs:
  "at_eof l \<Longrightarrow> raw_loop pos start l = errorf pos (Msg ''unterminated raw string literal'' []) l"
  "\<not> at_eof l \<Longrightarrow> peek l = 96 \<Longrightarrow>
     raw_loop pos start l =
       (mk_token RawString (slice (l_src l) start (l_offset (adv l))) pos, adv l)"
  "\<not> at_eof l \<Longrightarrow> peek l \<noteq> 96 \<Longrightarrow> raw_loop pos start l = raw_loop pos start (adv l)"
  by (subst raw_loop.simps, simp add: advance_sel)+

declare raw_loop.simps [simp del]

definition lexRawString :: "Position \<Rightarrow> Lexer \<Rightarrow> Token \<times> Lexer" where
  "lexRawString pos l = raw_loop pos (l_offset l) (adv l)"

section \<open>Punctuation and the next token\<close>

definition lexPunct :: "Position \<Rightarrow> rune \<Rightarrow> Lexer \<Rightarrow> Token \<times> Lexer" where
  "lexPunct pos r l =
     (let (bad, l1) = advance l
      in if bad then (error_token (d_Msg (last (l_diags l1))) pos, l1)
         else (case punctuation (AppendRune r) of
                 None \<Rightarrow> errorf pos (Msg ''unexpected character %q'' [ARune r]) l1
               | Some k \<Rightarrow> (mk_token k (AppendRune r) pos, l1)))"

text \<open>The index of the first byte of the run of identifier bytes that ends before \<open>i\<close>.\<close>

primrec word_start :: "string \<Rightarrow> nat \<Rightarrow> nat" where
  "word_start src 0 = 0"
| "word_start src (Suc i) =
     (if isIdentStart (byte_at src i) \<or> isDigit (byte_at src i) then word_start src i else Suc i)"

definition endsRoute :: "Token \<Rightarrow> Position \<Rightarrow> Lexer \<Rightarrow> bool" where
  "endsRoute tok pos l =
     (if tok_Kind tok = PathWord then True
      else if tok_Kind tok = Slash then int (pos_Offset pos) = l_routeEnd l
      else if tok_Kind tok = RBrace
      then (let i = word_start (l_src l) (pos_Offset pos)
            in i < pos_Offset pos \<and> i \<ge> 2 \<and> l_src l ! (i - 1) = CHR ''{''
               \<and> l_src l ! (i - 2) = CHR ''/'')
      else False)"

definition lexToken :: "Lexer \<Rightarrow> Token \<times> Lexer" where
  "lexToken l =
     (let pos = lex_pos l; r = peek l
      in if afterSlash l \<and> isPathChar r then lexPathWord pos l
         else if isIdentStart r then lexIdentOrKeyword pos l
         else if isDigit r then lexNumber pos l
         else if r = 34 then lexString pos l
         else if r = 96 then lexRawString pos l
         else lexPunct pos r l)"

definition Next :: "Lexer \<Rightarrow> Token \<times> Lexer" where
  "Next l0 =
     (let l = skipWhitespaceAndComments l0
      in if at_eof l then (mk_token EOF [] (lex_pos l), l)
         else
           let pos = lex_pos l;
               (tok, l1) = lexToken l;
               (tok, l2) = (if l_pendingDoc l1 \<noteq> []
                  then (tok\<lparr>tok_Doc := l_pendingDoc l1\<rparr>, l1\<lparr>l_pendingDoc := []\<rparr>)
                  else (tok, l1));
               l3 = (if endsRoute tok pos l2 then l2\<lparr>l_routeEnd := int (l_offset l2)\<rparr> else l2)
           in (tok, consumeTrailingComment l3))"

end
