(* ===== verification/Lexer_Inv.thy ===== *)
theory Lexer_Inv
  imports Lexer
begin

text \<open>
  The contract between the lexer's operations and the properties stated over it. The locale
  \<open>lexer_invariant\<close> has as its laws that a predicate survives each primitive change of the
  record (one \<open>advance\<close>, a diagnostic, a pending doc line, a recorded comment, a route mark,
  the rewind of \<open>consumeTrailingComment\<close>); its lemmas are that every operation up to \<open>Next\<close>
  and \<open>Tokenize\<close> keeps it. \<open>lex_ext l0\<close>, what any run from \<open>l0\<close> keeps, is the first
  instance, and it gives the termination of \<open>Tokenize\<close>.
\<close>

section \<open>What every run keeps\<close>

definition lex_ext :: "Lexer \<Rightarrow> Lexer \<Rightarrow> bool" where
  "lex_ext l0 l \<longleftrightarrow>
     l_src l = l_src l0 \<and> l_filename l = l_filename l0 \<and> l_offset l0 \<le> l_offset l
     \<and> (l_offset l0 \<le> length (l_src l0) \<longrightarrow> l_offset l \<le> length (l_src l0))
     \<and> prefix (l_diags l0) (l_diags l) \<and> prefix (l_allComments l0) (l_allComments l)"

lemma advance_diags_prefix: "prefix (l_diags l) (l_diags (adv l))"
  by (auto simp: advance_def Let_def errorf_sel split: prod.split option.split)

lemma lex_ext_refl [simp]: "lex_ext l l"
  by (simp add: lex_ext_def)

lemma lex_ext_trans: "lex_ext a b \<Longrightarrow> lex_ext b c \<Longrightarrow> lex_ext a c"
  by (auto simp: lex_ext_def intro: prefix_order.trans)

lemma lex_ext_offset: "lex_ext a b \<Longrightarrow> l_offset a \<le> l_offset b" "lex_ext a b \<Longrightarrow> l_src b = l_src a"
  by (simp_all add: lex_ext_def)

lemma lex_ext_adv: "\<not> at_eof l \<Longrightarrow> lex_ext l (adv l)"
  using advance_moves [of l] advance_diags_prefix [of l]
  by (auto simp: lex_ext_def advance_sel at_eof_def)

lemma lex_ext_advance_while: "lex_ext l (advance_while P l)"
proof (induction P l rule: advance_while.induct)
  case (1 P l)
  then show ?case
    by (subst advance_while.simps) (auto intro: lex_ext_trans lex_ext_adv)
qed

section \<open>The contract\<close>

locale lexer_invariant =
  fixes I :: "Lexer \<Rightarrow> bool"
  assumes inv_adv: "I l \<Longrightarrow> \<not> at_eof l \<Longrightarrow> I (adv l)"
    and inv_errorf: "I l \<Longrightarrow> I (snd (errorf pos msg l))"
    and inv_doc: "I l \<Longrightarrow> I (l\<lparr>l_pendingDoc := d\<rparr>)"
    and inv_comment: "I l \<Longrightarrow> I (l\<lparr>l_allComments := l_allComments l @ [c]\<rparr>)"
    and inv_route: "I l \<Longrightarrow> I (l\<lparr>l_routeEnd := int (l_offset l)\<rparr>)"
    and inv_rewind: "I l \<Longrightarrow> I l1 \<Longrightarrow> lex_ext l l1 \<Longrightarrow>
      I (l1\<lparr>l_offset := l_offset l, l_line := l_line l, l_column := l_column l\<rparr>)"
begin

lemma inv_advance_while: "I l \<Longrightarrow> I (advance_while P l)"
proof (induction P l rule: advance_while.induct)
  case (1 P l)
  then show ?case by (subst advance_while.simps) (simp add: inv_adv)
qed

lemma inv_to_line_end: "I l \<Longrightarrow> I (to_line_end l)"
proof (induction l rule: to_line_end.induct)
  case (1 l)
  then show ?case by (subst to_line_end.simps) (simp add: inv_adv)
qed

lemma inv_lineComment: "I l \<Longrightarrow> I (snd (lineComment kind l))"
  by (simp add: lineComment_def Let_def inv_comment inv_to_line_end)

lemma inv_consumeTrailingComment: "I l \<Longrightarrow> I (consumeTrailingComment l)"
  by (simp add: consumeTrailingComment_def Let_def inv_rewind inv_advance_while inv_lineComment
      lex_ext_advance_while)

lemma inv_skip_loop: "I l \<Longrightarrow> I (skip_loop n l)"
proof (induction n l rule: skip_loop.induct)
  case (1 n l)
  have line: "I (adv (if 2 \<le> Suc n then l\<lparr>l_pendingDoc := []\<rparr> else l))" if "\<not> at_eof l"
    using that "1.prems" by (auto simp: at_eof_def intro!: inv_adv inv_doc)
  have comment: "I (l1\<lparr>l_pendingDoc := l_pendingDoc l1 @ [t]\<rparr>)"
    if "lineComment CommentLeading l = (t, l1)" for t l1
    using inv_lineComment [OF "1.prems", of CommentLeading] that inv_doc by simp
  show ?case
    using 1 line comment by (subst skip_loop.simps) (auto simp: inv_adv split: prod.split)
qed

lemma inv_skipWhitespaceAndComments: "I l \<Longrightarrow> I (skipWhitespaceAndComments l)"
  by (simp add: skipWhitespaceAndComments_def inv_skip_loop)

lemma inv_string_loop: "I l \<Longrightarrow> I (snd (string_loop pos start l))"
proof (induction pos start l rule: string_loop.induct)
  case (1 pos start l)
  then show ?case
    by (subst string_loop.simps)
       (auto simp: Let_def inv_errorf inv_adv split: sum.split)
qed

lemma inv_raw_loop: "I l \<Longrightarrow> I (snd (raw_loop pos start l))"
proof (induction pos start l rule: raw_loop.induct)
  case (1 pos start l)
  then show ?case by (subst raw_loop.simps) (simp add: inv_errorf inv_adv)
qed

lemma inv_lexNumber: "I l \<Longrightarrow> I (snd (lexNumber pos l))"
proof -
  assume "I l"
  moreover have "I (adv l1)" if "I l1" "peek l1 = 46" for l1
    using that by (intro inv_adv) (auto simp: peek_def)
  ultimately show ?thesis
    by (simp add: lexNumber_def scanDigits_def Let_def inv_errorf inv_advance_while)
qed

lemma inv_lexPunct: "I l \<Longrightarrow> \<not> at_eof l \<Longrightarrow> I (snd (lexPunct pos r l))"
  using inv_adv [of l]
  by (auto simp: lexPunct_def inv_errorf split: prod.split option.split)

lemma inv_lexToken: "I l \<Longrightarrow> \<not> at_eof l \<Longrightarrow> I (snd (lexToken l))"
  by (simp add: lexToken_def Let_def lexPathWord_def lexIdentOrKeyword_def lexString_def
      lexRawString_def inv_advance_while inv_lexNumber inv_string_loop inv_raw_loop inv_lexPunct
      inv_adv split: option.split)

lemma inv_Next:
  assumes "I l" shows "I (snd (Next l))"
proof -
  have s: "I (skipWhitespaceAndComments l)" using assms by (rule inv_skipWhitespaceAndComments)
  show ?thesis
  proof (cases "at_eof (skipWhitespaceAndComments l)")
    case True
    then show ?thesis using s by (simp add: Next_def Let_def)
  next
    case False
    obtain tok l1 where t: "lexToken (skipWhitespaceAndComments l) = (tok, l1)" by fastforce
    then have "I l1" using inv_lexToken [OF s False] by simp
    then have "I (l1\<lparr>l_pendingDoc := d\<rparr>)" "I (l1\<lparr>l_routeEnd := int (l_offset l1)\<rparr>)"
      "I (l1\<lparr>l_pendingDoc := d, l_routeEnd := int (l_offset l1)\<rparr>)" for d
      using inv_doc inv_route inv_route [of "l1\<lparr>l_pendingDoc := d\<rparr>"] by simp_all
    then show ?thesis
      using False t \<open>I l1\<close> by (simp add: Next_def Let_def inv_consumeTrailingComment)
  qed
qed

end

interpretation ext: lexer_invariant "lex_ext l0" for l0
proof unfold_locales
  show "lex_ext l0 (adv l)" if "lex_ext l0 l" "\<not> at_eof l" for l
    using that lex_ext_adv lex_ext_trans by blast
qed (auto simp: lex_ext_def errorf_sel)

lemma peek_eof: "at_eof l \<Longrightarrow> peek l = 0"
  by (simp add: peek_def)

lemma advance_while_moves:
  assumes "\<not> at_eof l" and "P (peek l)"
  shows "l_offset l < l_offset (advance_while P l)"
proof -
  have "advance_while P l = advance_while P (adv l)"
    using assms by (subst advance_while.simps) simp
  then show ?thesis
    using advance_moves(1) [OF assms(1)] loop_offset_le(1) [of "adv l" P] by simp
qed

lemma lexNumber_ext_digits: "lex_ext (advance_while isDigit l) (snd (lexNumber pos l))"
proof -
  let ?l1 = "advance_while isDigit l"
  have "lex_ext ?l1 (adv ?l1)" if "peek ?l1 = 46"
    using that by (intro ext.inv_adv) (auto simp: peek_def)
  then show ?thesis
    by (simp add: lexNumber_def scanDigits_def Let_def ext.inv_errorf ext.inv_advance_while)
qed

text \<open>A token consumes at least one byte, and only the end of the source is an \<open>EOF\<close>.\<close>

lemma lexToken_moves:
  assumes "\<not> at_eof l"
  shows "l_offset l < l_offset (snd (lexToken l))"
proof -
  have adv: "l_offset l < l_offset l'" if "lex_ext (adv l) l'" for l'
    using that advance_moves(1) [OF assms] lex_ext_offset(1) [OF that] by simp
  have "lex_ext (adv l) (snd (lexPunct pos r l))" for pos r
    by (cases "advance l") (auto simp: lexPunct_def ext.inv_errorf split: option.split)
  moreover have "lex_ext (adv l) (snd (lexString pos l))" for pos
    unfolding lexString_def by (rule ext.inv_string_loop) simp
  moreover have "lex_ext (adv l) (snd (lexRawString pos l))" for pos
    unfolding lexRawString_def by (rule ext.inv_raw_loop) simp
  moreover have "l_offset l < l_offset (snd (lexNumber pos l))" if "isDigit (peek l)" for pos
    using advance_while_moves [of l isDigit] assms that lex_ext_offset(1) [OF lexNumber_ext_digits, of l pos]
    by simp
  ultimately show ?thesis
    using advance_while_moves [OF assms]
    by (auto simp: lexToken_def Let_def lexPathWord_def lexIdentOrKeyword_def intro: adv
        split: option.split)
qed

lemma keywords_not_EOF: "keywords_tab s = Some k \<Longrightarrow> k \<noteq> EOF"
  by (auto simp: keywords_tab_iff IsKeyword_def less_eq_kind_def)

lemma punctuation_not_EOF: "punctuation s = Some k \<Longrightarrow> k \<noteq> EOF"
  by (auto simp: punctuation_iff less_eq_kind_def)

lemma string_loop_not_EOF: "tok_Kind (fst (string_loop pos start l)) \<noteq> EOF"
proof (induction pos start l rule: string_loop.induct)
  case (1 pos start l)
  then show ?case
    by (subst string_loop.simps) (simp add: Let_def errorf_sel split: sum.split)
qed

lemma raw_loop_not_EOF: "tok_Kind (fst (raw_loop pos start l)) \<noteq> EOF"
proof (induction pos start l rule: raw_loop.induct)
  case (1 pos start l)
  then show ?case by (subst raw_loop.simps) (simp add: errorf_sel)
qed

lemma lexNumber_not_EOF: "tok_Kind (fst (lexNumber pos l)) \<noteq> EOF"
  by (simp add: lexNumber_def Let_def errorf_sel split: prod.split)

lemma lexPunct_not_EOF: "tok_Kind (fst (lexPunct pos r l)) \<noteq> EOF"
  using punctuation_not_EOF
  by (auto simp: lexPunct_def errorf_sel split: option.split prod.split)

lemma lexIdentOrKeyword_not_EOF: "tok_Kind (fst (lexIdentOrKeyword pos l)) \<noteq> EOF"
  using keywords_not_EOF by (auto simp: lexIdentOrKeyword_def Let_def split: option.split)

lemma lexToken_not_EOF: "tok_Kind (fst (lexToken l)) \<noteq> EOF"
  by (simp add: lexToken_def Let_def lexPathWord_def lexString_def lexRawString_def
      lexNumber_not_EOF lexPunct_not_EOF lexIdentOrKeyword_not_EOF string_loop_not_EOF
      raw_loop_not_EOF)

text \<open>
  \<open>Next\<close> on its two branches. The record \<open>l3\<close> that \<open>consumeTrailingComment\<close> starts from
  differs from the one \<open>lexToken\<close> leaves in the pending doc and the route mark alone.
\<close>

lemma Next_cases:
  obtains (eof) "at_eof (skipWhitespaceAndComments l)"
      "Next l = (mk_token EOF [] (lex_pos (skipWhitespaceAndComments l)),
        skipWhitespaceAndComments l)"
  | (token) tok l2 d l3 where "\<not> at_eof (skipWhitespaceAndComments l)"
      "lexToken (skipWhitespaceAndComments l) = (tok, l2)"
      "l3 = l2\<lparr>l_pendingDoc := l_pendingDoc l3, l_routeEnd := l_routeEnd l3\<rparr>"
      "Next l = (tok\<lparr>tok_Doc := d\<rparr>, consumeTrailingComment l3)"
proof (cases "at_eof (skipWhitespaceAndComments l)")
  case True
  then show ?thesis by (intro eof) (simp_all add: Next_def Let_def)
next
  case False
  obtain tok l2 where t: "lexToken (skipWhitespaceAndComments l) = (tok, l2)" by fastforce
  let ?pos = "lex_pos (skipWhitespaceAndComments l)"
  have same: "l2 = l2\<lparr>l_pendingDoc := l_pendingDoc l2, l_routeEnd := l_routeEnd l2\<rparr>"
    "tok = tok\<lparr>tok_Doc := tok_Doc tok\<rparr>" by (cases l2, simp) (cases tok, simp)
  show ?thesis
  proof (cases "l_pendingDoc l2 = []")
    case True
    define l3 where "l3 = (if endsRoute tok ?pos l2 then l2\<lparr>l_routeEnd := int (l_offset l2)\<rparr> else l2)"
    have "Next l = (tok, consumeTrailingComment l3)"
      using False t True by (simp add: Next_def Let_def l3_def)
    moreover have "l3 = l2\<lparr>l_pendingDoc := l_pendingDoc l3, l_routeEnd := l_routeEnd l3\<rparr>"
      using same(1) by (cases l2) (simp add: l3_def)
    ultimately show ?thesis using False t same(2) token [of tok l2 l3 "tok_Doc tok"] by simp
  next
    case pend: False
    define tok' where "tok' = tok\<lparr>tok_Doc := l_pendingDoc l2\<rparr>"
    define l2' where "l2' = l2\<lparr>l_pendingDoc := []\<rparr>"
    define l3 where
      "l3 = (if endsRoute tok' ?pos l2' then l2'\<lparr>l_routeEnd := int (l_offset l2')\<rparr> else l2')"
    have "Next l = (tok', consumeTrailingComment l3)"
      using False t pend by (simp add: Next_def Let_def l3_def tok'_def l2'_def)
    moreover have "l3 = l2\<lparr>l_pendingDoc := l_pendingDoc l3, l_routeEnd := l_routeEnd l3\<rparr>"
      by (cases l2) (simp add: l3_def l2'_def)
    ultimately show ?thesis using False t token [of tok l2 l3] tok'_def by simp
  qed
qed

lemma Next_moves:
  assumes "tok_Kind (fst (Next l)) \<noteq> EOF"
  shows "l_offset l < l_offset (snd (Next l))" and "l_src (snd (Next l)) = l_src l"
    and "l_offset l < length (l_src l)"
proof -
  let ?l1 = "skipWhitespaceAndComments l"
  have e1: "lex_ext l ?l1" by (rule ext.inv_skipWhitespaceAndComments) simp
  have "l_offset l < l_offset (snd (Next l)) \<and> l_offset l < length (l_src l)"
  proof (cases l rule: Next_cases)
    case eof
    then show ?thesis using assms by simp
  next
    case (token tok l2 d l3)
    have "l_offset ?l1 < l_offset l2" using lexToken_moves [OF token(1)] token(2) by simp
    moreover have "l_offset l3 = l_offset l2" by (subst token(3)) simp
    moreover have "l_offset l3 \<le> l_offset (consumeTrailingComment l3)"
      by (rule lex_ext_offset(1), rule ext.inv_consumeTrailingComment) simp
    ultimately show ?thesis
      using token(1,4) lex_ext_offset [OF e1] by (simp add: at_eof_def)
  qed
  then show "l_offset l < l_offset (snd (Next l))" "l_offset l < length (l_src l)" by simp_all
  show "l_src (snd (Next l)) = l_src l"
    by (rule lex_ext_offset(2), rule ext.inv_Next) simp
qed

section \<open>Tokenize\<close>

function Tokenize :: "Lexer \<Rightarrow> Token list \<times> Lexer" where
  "Tokenize l =
     (let (t, l1) = Next l
      in if tok_Kind t = EOF then ([t], l1)
         else (let (toks, l2) = Tokenize l1 in (t # toks, l2)))"
  by pat_completeness auto
termination
proof (relation "measure (\<lambda>l. length (l_src l) - l_offset l)", goal_cases)
  case (2 l p t l1)
  then show ?case using Next_moves [of l] by (cases "Next l") auto
qed simp

declare Tokenize.simps [simp del]

lemma Tokenize_unfold:
  "Tokenize l = (if tok_Kind (fst (Next l)) = EOF then ([fst (Next l)], snd (Next l))
     else (fst (Next l) # fst (Tokenize (snd (Next l))), snd (Tokenize (snd (Next l)))))"
  by (subst Tokenize.simps) (simp add: Let_def case_prod_beta)

lemma Tokenize_induct [case_names Tokenize]:
  assumes "\<And>l. (tok_Kind (fst (Next l)) \<noteq> EOF \<Longrightarrow> P (snd (Next l))) \<Longrightarrow> P l"
  shows "P l"
  by (induction l rule: Tokenize.induct) (metis assms prod.collapse)

lemma ext_Tokenize: "lex_ext l (snd (Tokenize l))"
proof (induction l rule: Tokenize_induct)
  case (Tokenize l)
  have "lex_ext l (snd (Next l))" by (rule ext.inv_Next) simp
  then show ?case
    using Tokenize by (subst Tokenize_unfold) (auto intro: lex_ext_trans)
qed

context lexer_invariant
begin

lemma inv_Tokenize: "I l \<Longrightarrow> I (snd (Tokenize l))"
proof (induction l rule: Tokenize_induct)
  case (Tokenize l)
  then show ?case using inv_Next by (subst Tokenize_unfold) simp
qed

text \<open>
  Every token of the stream was lexed at a state that satisfies the invariant: \<open>lexToken\<close>
  read it, or it is the \<open>EOF\<close> at the end of the source.
\<close>

lemma Tokenize_token:
  assumes "I l" and "t \<in> set (fst (Tokenize l))"
  obtains (eof) l1 where "I l1" "lex_ext l l1" "at_eof l1" "t = mk_token EOF [] (lex_pos l1)"
    | (token) l1 tok l2 d where "I l1" "I l2" "lex_ext l l1" "\<not> at_eof l1" "lexToken l1 = (tok, l2)"
      "t = tok\<lparr>tok_Doc := d\<rparr>" "lex_ext l2 (snd (Tokenize l))"
  using assms
proof (induction l arbitrary: thesis rule: Tokenize_induct)
  case (Tokenize l)
  let ?l1 = "skipWhitespaceAndComments l"
  have l1: "I ?l1" "lex_ext l ?l1"
    using Tokenize.prems(3) by (simp_all add: inv_skipWhitespaceAndComments ext.inv_skipWhitespaceAndComments)
  show ?case
  proof (cases l rule: Next_cases)
    case eof
    then have "t = mk_token EOF [] (lex_pos ?l1)"
      using Tokenize.prems(4) by (subst (asm) Tokenize_unfold) simp
    then show ?thesis using Tokenize.prems(1) l1 eof(1) by blast
  next
    case (token tok l2 d l3)
    have ne: "tok_Kind (fst (Next l)) \<noteq> EOF"
      using lexToken_not_EOF [of ?l1] token by simp
    have tail: "fst (Tokenize l) = fst (Next l) # fst (Tokenize (snd (Next l)))"
      "snd (Tokenize l) = snd (Tokenize (snd (Next l)))"
      by (subst Tokenize_unfold, simp add: ne)+
    have "lex_ext l2 l3" by (subst token(3)) (simp add: lex_ext_def)
    then have e: "lex_ext l2 (snd (Next l))"
      using token(4) ext.inv_consumeTrailingComment by simp
    have en: "lex_ext l (snd (Next l))" by (rule ext.inv_Next) simp
    show ?thesis
    proof (cases "t = fst (Next l)")
      case True
      have "lex_ext l2 (snd (Tokenize l))"
        using lex_ext_trans [OF e ext_Tokenize] tail(2) by simp
      moreover have "I l2" using inv_lexToken [OF l1(1) token(1)] token(2) by simp
      ultimately show ?thesis
        using Tokenize.prems(2) l1 token True by (metis fst_conv)
    next
      case False
      then have t: "t \<in> set (fst (Tokenize (snd (Next l))))"
        using Tokenize.prems(4) tail(1) by simp
      show ?thesis
        by (rule Tokenize.IH [OF ne _ _ inv_Next [OF Tokenize.prems(3)] t])
           (use Tokenize.prems(1,2) en lex_ext_trans tail(2) in \<open>metis+\<close>)
    qed
  qed
qed

end

text \<open>The shape of a token stream: it ends with an \<open>EOF\<close> and has no other.\<close>

definition eof_terminated :: "Token list \<Rightarrow> bool" where
  "eof_terminated toks \<longleftrightarrow> toks \<noteq> [] \<and> tok_Kind (last toks) = EOF
     \<and> (\<forall>t \<in> set (butlast toks). tok_Kind t \<noteq> EOF)"

lemma Tokenize_eof_terminated: "eof_terminated (fst (Tokenize l))"
proof (induction l rule: Tokenize_induct)
  case (Tokenize l)
  then show ?case by (subst Tokenize_unfold) (auto simp: eof_terminated_def)
qed

end
