(* ===== verification/Lexer_Legal.thy ===== *)
theory Lexer_Legal
  imports Lexer_Props
begin

text \<open>
  Two facts on whole sources: one that lexes without a diagnostic is well-formed UTF-8 made
  of legal runes only, and a word lexes back to the one token the tables of
  \<^verbatim>\<open>internal/lexer/token.go\<close> give it. The first is an instance of \<open>lexer_invariant\<close>.
\<close>

section \<open>Legal sources\<close>

text \<open>The rune at the front of \<open>s\<close> is well-formed and one no branch of \<open>advance\<close> refuses.\<close>

definition legal_front :: "string \<Rightarrow> bool" where
  "legal_front s \<longleftrightarrow> s \<noteq> [] \<and> DecodeRuneInString s \<noteq> (RuneError, 1)
     \<and> fst (DecodeRuneInString s) \<noteq> 0 \<and> illegalRune (fst (DecodeRuneInString s)) = None"

text \<open>Every rune from byte \<open>a\<close> up to byte \<open>b\<close> is legal.\<close>

inductive legal_run :: "string \<Rightarrow> nat \<Rightarrow> nat \<Rightarrow> bool" for src where
  legal_refl: "legal_run src a a"
| legal_step: "legal_front (drop a src) \<Longrightarrow>
    legal_run src (a + snd (DecodeRuneInString (drop a src))) b \<Longrightarrow> legal_run src a b"

inductive_cases legal_runE: "legal_run src a b"

lemma legal_run_le: "legal_run src a b \<Longrightarrow> a \<le> b"
  by (induction rule: legal_run.induct) auto

lemma legal_run_trans: "legal_run src a b \<Longrightarrow> legal_run src b c \<Longrightarrow> legal_run src a c"
  by (induction rule: legal_run.induct) (auto intro: legal_run.intros)

lemma legal_run_snoc:
  assumes "legal_run src a b" and "legal_front (drop b src)"
  shows "legal_run src a (b + snd (DecodeRuneInString (drop b src)))"
  using assms legal_run_trans legal_run.intros by blast

lemma legal_run_det:
  assumes "legal_run src a b" and "legal_run src a c" and "b \<le> c"
  shows "legal_run src b c"
  using assms
proof (induction rule: legal_run.induct)
  case (legal_step a b)
  show ?case
  proof (cases "a = c")
    case True
    have "0 < snd (DecodeRuneInString (drop a src))"
      using legal_step(1) DecodeRune_size_pos by (auto simp: legal_front_def)
    then have "a < b" using legal_run_le [OF legal_step(2)] by simp
    then show ?thesis using True legal_step(5) by simp
  next
    case False
    then show ?thesis
      using legal_step by (auto elim: legal_runE)
  qed
qed

definition legal_upto :: "nat \<Rightarrow> Lexer \<Rightarrow> bool" where
  "legal_upto a l \<longleftrightarrow> (l_diags l = [] \<longrightarrow>
     legal_run (l_src l) a (l_offset l)
     \<and> (\<exists>b. l_offset l \<le> b \<and> l_checked l \<le> b \<and> legal_run (l_src l) (l_offset l) b))"

lemma byteOrderMark_illegal: "illegalRune byteOrderMarkRune \<noteq> None"
  by (simp add: illegalRune_def byteOrderMarkRune_def)

text \<open>An unchecked rune is legal, or \<open>advance\<close> reports it.\<close>

lemma adv_checks:
  assumes "\<not> at_eof l" and "\<not> l_offset l < l_checked l" and "l_diags (adv l) = []"
  shows "legal_front (rest_of l)" and "l_checked (adv l) = l_offset (adv l)"
proof -
  obtain r n where d: "DecodeRuneInString (rest_of l) = (r, n)" by fastforce
  have ne: "rest_of l \<noteq> []" using assms(1) by (simp add: at_eof_def)
  show "legal_front (rest_of l)"
    using assms(2,3) d ne byteOrderMark_illegal
    by (auto simp: legal_front_def advance_def Let_def errorf_sel lex_pos_def split: if_splits option.splits)
  show "l_checked (adv l) = l_offset (adv l)"
    using assms(2,3) d
    by (auto simp: advance_def Let_def errorf_sel lex_pos_def split: if_splits option.splits)
qed

lemma adv_checked:
  assumes "l_offset l < l_checked l"
  shows "l_checked (adv l) = l_checked l"
  using assms by (simp add: advance_def Let_def lex_pos_def split: prod.split)

lemma legal_upto_adv:
  assumes "legal_upto a l" and "\<not> at_eof l" and nd: "l_diags (adv l) = []"
  shows "legal_run (l_src l) a (l_offset (adv l))
    \<and> (\<exists>b. l_offset (adv l) \<le> b \<and> l_checked (adv l) \<le> b \<and> legal_run (l_src l) (l_offset (adv l)) b)"
proof -
  have "l_diags l = []" using nd advance_diags_prefix [of l] by simp
  then obtain b where run: "legal_run (l_src l) a (l_offset l)"
    and b: "l_offset l \<le> b" "l_checked l \<le> b" "legal_run (l_src l) (l_offset l) b"
    using assms(1) by (auto simp: legal_upto_def)
  show ?thesis
  proof (cases "l_offset l < l_checked l")
    case True
    then have fr: "legal_front (rest_of l)" "legal_run (l_src l) (l_offset (adv l)) b"
      using b by (auto elim: legal_runE simp: advance_sel)
    then have "l_offset (adv l) \<le> b" by (simp add: legal_run_le)
    then show ?thesis
      using fr b(2) True legal_run_snoc [OF run fr(1)] adv_checked [OF True]
      by (auto simp: advance_sel(3))
  next
    case False
    then show ?thesis
      using adv_checks [OF assms(2) False nd] legal_run_snoc [OF run] legal_refl
      by (auto simp: advance_sel(3))
  qed
qed

interpretation legal: lexer_invariant "legal_upto a" for a
proof unfold_locales
  show "legal_upto a (adv l)" if "legal_upto a l" "\<not> at_eof l" for l
    using legal_upto_adv [OF that] unfolding legal_upto_def advance_sel(1) by blast
next
  fix l l1
  assume l: "legal_upto a l" and l1: "legal_upto a l1" and e: "lex_ext l l1"
  show "legal_upto a (l1\<lparr>l_offset := l_offset l, l_line := l_line l, l_column := l_column l\<rparr>)"
  proof (cases "l_diags l1 = []")
    case True
    then have "l_diags l = []" and src: "l_src l1 = l_src l" and le: "l_offset l \<le> l_offset l1"
      using e by (auto simp: lex_ext_def)
    then have r: "legal_run (l_src l) a (l_offset l)" "legal_run (l_src l) a (l_offset l1)"
      using l l1 True by (auto simp: legal_upto_def)
    obtain b where b: "l_offset l1 \<le> b" "l_checked l1 \<le> b" "legal_run (l_src l) (l_offset l1) b"
      using l1 True src by (auto simp: legal_upto_def)
    have "legal_run (l_src l) (l_offset l) b"
      using legal_run_det [OF r le] b(3) by (rule legal_run_trans)
    then have "\<exists>b. l_offset l \<le> b \<and> l_checked l1 \<le> b \<and> legal_run (l_src l) (l_offset l) b"
      using b le by (intro exI [of _ b]) simp
    then show ?thesis using r(1) src by (simp add: legal_upto_def)
  qed (simp add: legal_upto_def)
qed (auto simp: legal_upto_def errorf_sel)

text \<open>The whole of \<open>s\<close> is legal runes.\<close>

function legal_source :: "string \<Rightarrow> bool" where
  "legal_source s =
     (if s = [] then True
      else if legal_front s then legal_source (drop (snd (DecodeRuneInString s)) s) else False)"
  by pat_completeness auto
termination
  by (relation "measure length") (auto simp: legal_front_def DecodeRune_size_pos)

declare legal_source.simps [simp del]

lemma legal_run_source:
  "legal_run src a b \<Longrightarrow> b = length src \<Longrightarrow> legal_source (drop a src)"
proof (induction rule: legal_run.induct)
  case (legal_refl a)
  then show ?case by (subst legal_source.simps) simp
next
  case (legal_step a b)
  then show ?case by (subst legal_source.simps) (simp add: add.commute)
qed

lemma Tokenize_at_eof: "at_eof (snd (Tokenize l))"
proof (induction l rule: Tokenize_induct)
  case (Tokenize l)
  show ?case
  proof (cases l rule: Next_cases)
    case eof
    then show ?thesis by (subst Tokenize_unfold) simp
  next
    case (token tok l2 d l3)
    then have "tok_Kind (fst (Next l)) \<noteq> EOF"
      using lexToken_not_EOF [of "skipWhitespaceAndComments l"] by simp
    then show ?thesis using Tokenize by (subst Tokenize_unfold) simp
  qed
qed

lemma Tokenize_legal:
  assumes "Diagnostics (snd (Tokenize (New f s))) = []"
  shows "legal_source (TrimPrefix s byteOrderMark)"
proof -
  let ?l = "snd (Tokenize (New f s))" and ?a = "l_offset (New f s)"
  have "legal_upto ?a (New f s)"
    by (auto simp: legal_upto_def intro: legal_refl)
  then have "legal_upto ?a ?l" by (rule legal.inv_Tokenize)
  moreover have e: "lex_ext (New f s) ?l" by (rule ext_Tokenize)
  ultimately have "legal_run s ?a (l_offset ?l)"
    using assms by (simp add: legal_upto_def Diagnostics_def lex_ext_def)
  moreover have "l_offset ?l = length s"
    using e Tokenize_at_eof [of "New f s"] New_offset_le [of f s] by (simp add: lex_ext_def at_eof_def)
  ultimately have "legal_source (drop ?a s)" by (rule legal_run_source)
  moreover have "length byteOrderMark = 3" by (simp add: byteOrderMark_bytes)
  ultimately show ?thesis by (simp add: TrimPrefix_def split: if_splits)
qed

section \<open>Words\<close>

text \<open>Kind and text of each token.\<close>

abbreviation shape :: "Token list \<Rightarrow> (kind \<times> string) list" where
  "shape toks \<equiv> map (\<lambda>t. (tok_Kind t, tok_Text t)) toks"

definition word_byte :: "char \<Rightarrow> bool" where
  "word_byte c \<longleftrightarrow> isIdentStart (of_char c) \<or> isDigit (of_char c)"

lemma word_byte_lt_80: "word_byte c \<Longrightarrow> (of_char c :: nat) < 0x80"
  by (auto simp: word_byte_def ascii_class_lt_80)

lemma peek_byte:
  assumes "\<not> at_eof l" and "(of_char (l_src l ! l_offset l) :: nat) < 0x80"
  shows "peek l = of_char (l_src l ! l_offset l)"
  using assms by (simp add: peek_def rest_of_Cons DecodeRune_ascii)

text \<open>A loop over ASCII bytes that all satisfy its condition runs to the end of the source.\<close>

lemma advance_while_all:
  assumes "l_offset l \<le> length (l_src l)"
    and "\<And>c. c \<in> set (rest_of l) \<Longrightarrow> P (of_char c) \<and> (of_char c :: nat) < 0x80"
  shows "l_offset (advance_while P l) = length (l_src l)"
  using assms
proof (induction P l rule: advance_while.induct)
  case (1 P l)
  show ?case
  proof (cases "at_eof l")
    case True
    then show ?thesis using 1(2) by (subst advance_while.simps) (simp add: at_eof_def)
  next
    case False
    let ?c = "l_src l ! l_offset l"
    have c: "P (of_char ?c)" "(of_char ?c :: nat) < 0x80"
      using 1(3) [of ?c] rest_of_Cons [OF False] by simp_all
    then have p: "peek l = of_char ?c" using False peek_byte by blast
    have o: "l_offset (adv l) = Suc (l_offset l)" using adv_slice(1) [OF False] p c(2) by simp
    have sub: "set (rest_of (adv l)) \<subseteq> set (rest_of l)"
      using rest_of_Cons [OF False] by (auto simp: advance_sel(1) o)
    have "l_offset (advance_while P (adv l)) = length (l_src (adv l))"
      using False p c(1) advance_moves(2) [OF False] 1(3) sub
      by (intro 1(1)) (auto simp: advance_sel(1))
    then show ?thesis
      using False p c(1) by (subst advance_while.simps) (simp add: advance_sel(1))
  qed
qed

lemma consumeTrailingComment_eof:
  "at_eof l \<Longrightarrow> l_offset (consumeTrailingComment l) = l_offset l \<and> l_src (consumeTrailingComment l) = l_src l"
  using atLineComment_not_eof [of l]
  by (auto simp: consumeTrailingComment_def Let_def advance_while.simps [of _ l])

lemma Next_eof: "at_eof l \<Longrightarrow> tok_Kind (fst (Next l)) = EOF \<and> tok_Text (fst (Next l)) = []"
  by (simp add: Next_def Let_def skipWhitespaceAndComments_def skip_loop.simps [of 0 l])

text \<open>
  Where nothing is skipped and one token takes the whole source, the stream is that token
  and the \<open>EOF\<close>.
\<close>

lemma Tokenize_single:
  assumes "skipWhitespaceAndComments l = l" and "\<not> at_eof l" and "lexToken l = (tok, l2)"
    and "at_eof l2"
  shows "shape (fst (Tokenize l)) = [(tok_Kind tok, tok_Text tok), (EOF, [])]"
proof (cases l rule: Next_cases)
  case eof
  then show ?thesis using assms by simp
next
  case (token tok' l2' d l3)
  have same: "tok' = tok" "l2' = l2" using token(2) assms(1,3) by simp_all
  have "at_eof l3" using assms(4) same by (subst token(3)) (simp add: at_eof_def)
  then have "at_eof (snd (Next l))"
    using consumeTrailingComment_eof [of l3] token(4) by (simp add: at_eof_def)
  moreover have "tok_Kind tok \<noteq> EOF" using lexToken_not_EOF [of l] assms(3) by simp
  ultimately show ?thesis
    using token(4) same Next_eof [of "snd (Next l)"]
    by (subst Tokenize_unfold, simp) (subst Tokenize_unfold, simp)
qed

lemma New_ascii:
  assumes "s \<noteq> []" and "(of_char (hd s) :: nat) < 0x80"
  shows "l_offset (New f s) = 0" and "\<not> at_eof (New f s)" and "peek (New f s) = of_char (hd s)"
    and "\<not> afterSlash (New f s)"
proof -
  obtain c cs where s: "s = c # cs" using assms(1) by (cases s) auto
  show o: "l_offset (New f s) = 0"
    using assms by (auto simp: byteOrderMark_bytes)
  then show e: "\<not> at_eof (New f s)" using assms(1) by (simp add: at_eof_def)
  show "peek (New f s) = of_char (hd s)"
    using peek_byte [OF e] o assms s by simp
  show "\<not> afterSlash (New f s)" using o by (simp add: afterSlash_def)
qed

lemma skip_nothing:
  assumes "\<not> at_eof l" and "peek l = of_char c" and "(of_char c :: nat) < 0x80"
    and "c \<notin> {CHR 0x0A, CHR 0x0D, CHR '' '', CHR 0x09}" and "\<not> atLineComment l"
  shows "skipWhitespaceAndComments l = l"
proof -
  have "l_src l ! l_offset l = c" using assms(1-3) by (rule peek_char)
  then have "\<not> atLineEnd l"
    using assms(4) rest_of_Cons [OF assms(1)] by (simp add: atLineEnd_def line_end_text_def)
  moreover have "peek l \<noteq> 32 \<and> peek l \<noteq> 9 \<and> peek l \<noteq> 13"
    using assms(2,4) of_char_eq_iff [of c "CHR '' ''"] of_char_eq_iff [of c "CHR 0x09"]
      of_char_eq_iff [of c "CHR 0x0D"] by auto
  ultimately show ?thesis
    using assms(1,5) by (simp add: skipWhitespaceAndComments_def skip_loop.simps [of 0 l])
qed

lemma Tokenize_word:
  assumes "s \<noteq> []" and "isIdentStart (of_char (hd s))" and "\<forall>c \<in> set s. word_byte c"
  shows "shape (fst (Tokenize (New f s)))
    = [(case LookupKeyword s of Some k \<Rightarrow> k | None \<Rightarrow> Ident, s), (EOF, [])]"
proof -
  define l where "l = New f s"
  let ?P = "\<lambda>r. isIdentStart r \<or> isDigit r"
  let ?l1 = "advance_while ?P l"
  have ascii: "(of_char (hd s) :: nat) < 0x80" using assms(2) by (rule ascii_class_lt_80)
  have src: "l_src l = s" by (simp add: l_def)
  note new = New_ascii [OF assms(1) ascii, of f, folded l_def]
  have "l_offset ?l1 = length (l_src l)"
    using new(1) src assms(3) word_byte_lt_80 by (intro advance_while_all) (auto simp: word_byte_def)
  then have l1: "at_eof ?l1" "slice s 0 (l_offset ?l1) = s" "l_src ?l1 = s"
    using src by (simp_all add: at_eof_def loop_simps slice_def)
  have "\<not> atLineComment l"
    using atLineComment_byte [of l] new(1) src assms(1,2) by (cases s) (auto simp: ascii_class_defs)
  then have skip: "skipWhitespaceAndComments l = l"
    using assms(2) by (intro skip_nothing [OF new(2,3) ascii]) (auto simp: ascii_class_defs)
  have lex: "lexToken l = (mk_token (case LookupKeyword s of Some k \<Rightarrow> k | None \<Rightarrow> Ident) s (lex_pos l), ?l1)"
    using new assms(2) l1
    by (simp add: lexToken_def Let_def lexIdentOrKeyword_def LookupKeyword_def split: option.split)
  show ?thesis using Tokenize_single [OF skip new(2) lex l1(1)] by (simp add: l_def)
qed

end
