(* ===== verification/Lexer_Spec.thy ===== *)
theory Lexer_Spec
  imports Lexer_Legal
begin

text \<open>
  The properties of the lexer, with their witnesses: the shape of the token stream, the text
  and place of each token, the diagnostics of its errors, and what a source without
  diagnostics holds.
\<close>

lemma Tokenize_reported:
  assumes "t \<in> set (fst (Tokenize l))" and "tok_Kind t = Error"
  shows "\<exists>d \<in> set (Diagnostics (snd (Tokenize l))). d_Pos d = tok_Pos t \<and> tok_Err t = Some (d_Msg d)"
  using lex_ext_refl [of l] assms(1)
proof (cases rule: ext.Tokenize_token)
  case (eof l1)
  then show ?thesis using assms(2) by simp
next
  case (token l1 tok l2 d)
  have "lexed l1 tok l2" using token(4,5) by (rule lexToken_lexed)
  then obtain d where "d \<in> set (l_diags l2)" "d_Pos d = tok_Pos t" "tok_Err t = Some (d_Msg d)"
    using assms(2) token(6) by (auto simp: lexed_def reported_def)
  moreover have "set (l_diags l2) \<subseteq> set (l_diags (snd (Tokenize l)))"
    using token(7) by (auto simp: lex_ext_def dest: set_mono_prefix)
  ultimately show ?thesis by (auto simp: Diagnostics_def)
qed

lemma IsIdent_word:
  "IsIdent s \<Longrightarrow> s \<noteq> [] \<and> isIdentStart (of_char (hd s)) \<and> (\<forall>c \<in> set s. word_byte c) \<and> LookupKeyword s = None"
  by (simp add: IsIdent_bytes word_byte_def LookupKeyword_def)

section \<open>Properties\<close>

text \<open>
  C33. The lexer returns on every source: the stream it returns is not empty, it ends with
  an \<open>EOF\<close> token, no token before the last is an \<open>EOF\<close>, and the lexer it leaves has read
  the whole source.
\<close>

theorem tokenize_total:
  "fst (Tokenize (New f s)) \<noteq> [] \<and> tok_Kind (last (fst (Tokenize (New f s)))) = EOF
   \<and> list_all (\<lambda>t. tok_Kind t \<noteq> EOF) (butlast (fst (Tokenize (New f s))))
   \<and> l_offset (snd (Tokenize (New f s))) = length s"
proof -
  have "lex_ext (New f s) (snd (Tokenize (New f s)))" by (rule ext_Tokenize)
  then have "l_offset (snd (Tokenize (New f s))) = length s"
    using Tokenize_at_eof [of "New f s"] New_offset_le [of f s] by (simp add: lex_ext_def at_eof_def)
  then show ?thesis
    using Tokenize_eof_terminated [of "New f s"] by (simp add: eof_terminated_def list_all_iff)
qed

text \<open>
  A token that is not an error is spelled in its \<open>Text\<close> exactly as the source at its
  position, and the text is well-formed for its kind: an identifier is one by \<open>IsIdent\<close>, a
  keyword and a punctuation mark have the spelling of \<open>kindNames\<close>, an integer is digits, a
  string unquotes, a duration is in range.
\<close>

theorem token_spelling:
  assumes "t \<in> set (fst (Tokenize (New f s)))" and "tok_Kind t \<noteq> Error"
  shows "slice s (tok_off t) (tok_off t + length (tok_Text t)) = tok_Text t
    \<and> tok_off t + length (tok_Text t) \<le> length s \<and> token_ok t"
  using Tokenize_spelling [OF _ assms] New_offset_le [of f s] by (simp add: tok_end_def)

theorem token_spelling_witness:
  "slice ''x = 5'' 4 5 = ''5'' \<and> token_ok (mk_token IntTok ''5''
     \<lparr>pos_Filename = [], pos_Offset = 4, pos_Line = 1, pos_Column = 5\<rparr>)"
proof -
  let ?t = "mk_token IntTok ''5'' \<lparr>pos_Filename = [], pos_Offset = 4, pos_Line = 1, pos_Column = 5\<rparr>"
  have "?t \<in> set (fst (Tokenize (New [] ''x = 5'')))" by code_simp
  then show ?thesis using token_spelling [of ?t "[]" "''x = 5''"] by simp
qed

text \<open>
  The tokens stand in source order and do not overlap: each starts after the start of
  the one before it and not before its end.
\<close>

theorem tokens_in_order:
  "sorted_wrt (\<lambda>t u. tok_off t < tok_off u \<and> tok_off t + length (tok_Text t) \<le> tok_off u)
     (fst (Tokenize (New f s)))"
  using Tokenize_in_order [of "New f s"] New_offset_le [of f s]
  by (simp add: in_order_def [abs_def] tok_end_def)

text \<open>
  The line of a token counts the line ends, \<open>\n\<close>, \<open>\r\<close> or \<open>\r\n\<close> as one, before it.
\<close>

theorem token_line:
  assumes "t \<in> set (fst (Tokenize (New f s)))"
  shows "pos_Line (tok_Pos t) = line_of s (tok_off t)"
  using assms by (rule Tokenize_line)

theorem token_line_witness: "line_of [CHR 0x0D, CHR 0x0A, CHR 0x0A, CHR ''x''] 3 = 3"
proof -
  let ?t = "mk_token Ident ''x'' \<lparr>pos_Filename = [], pos_Offset = 3, pos_Line = 3, pos_Column = 1\<rparr>"
  have "?t \<in> set (fst (Tokenize (New [] [CHR 0x0D, CHR 0x0A, CHR 0x0A, CHR ''x''])))" by code_simp
  then show ?thesis
    using token_line [of ?t "[]" "[CHR 0x0D, CHR 0x0A, CHR 0x0A, CHR ''x'']"] by simp
qed

text \<open>
  An error token is never silent: the lexer has a diagnostic at its position with its
  message.
\<close>

theorem error_token_reported:
  assumes "t \<in> set (fst (Tokenize (New f s)))" and "tok_Kind t = Error"
  shows "\<exists>d \<in> set (Diagnostics (snd (Tokenize (New f s)))).
    d_Pos d = tok_Pos t \<and> tok_Err t = Some (d_Msg d)"
  using assms by (rule Tokenize_reported)

theorem error_token_reported_witness:
  "\<exists>d \<in> set (Diagnostics (snd (Tokenize (New [] ''$'')))).
     tok_Err (hd (fst (Tokenize (New [] ''$'')))) = Some (d_Msg d)"
proof -
  have "hd (fst (Tokenize (New [] ''$''))) \<in> set (fst (Tokenize (New [] ''$'')))"
    "tok_Kind (hd (fst (Tokenize (New [] ''$'')))) = Error" by code_simp+
  then show ?thesis using error_token_reported by blast
qed

text \<open>
  C4. A source the lexer reports nothing on is, after an optional byte order mark,
  well-formed UTF-8 with no NUL, no control character but tab and the line ends, no second
  byte order mark and no noncharacter; comments and string literals included.
\<close>

theorem clean_source_legal:
  assumes "Diagnostics (snd (Tokenize (New f s))) = []"
  shows "legal_source (TrimPrefix s byteOrderMark)"
  using assms by (rule Tokenize_legal)

theorem clean_source_legal_witness: "legal_source (TrimPrefix ''a // b'' byteOrderMark)"
proof -
  have "Diagnostics (snd (Tokenize (New [] ''a // b''))) = []" by code_simp
  then show ?thesis by (rule clean_source_legal)
qed

text \<open>
  \<open>IsIdent\<close> and the lexer agree: a string is an identifier exactly when it lexes, on
  its own, to one identifier token that spells it.
\<close>

theorem IsIdent_iff_lexes:
  "IsIdent s \<longleftrightarrow> shape (fst (Tokenize (New f s))) = [(Ident, s), (EOF, [])]"
proof
  assume "IsIdent s"
  then show "shape (fst (Tokenize (New f s))) = [(Ident, s), (EOF, [])]"
    using Tokenize_word [of s f] IsIdent_word [of s] by simp
next
  assume sh: "shape (fst (Tokenize (New f s))) = [(Ident, s), (EOF, [])]"
  then obtain t where t: "t \<in> set (fst (Tokenize (New f s)))" "tok_Kind t = Ident" "tok_Text t = s"
    by (cases "fst (Tokenize (New f s))") auto
  then have "token_ok t"
    using Tokenize_spelling [of "New f s" t] New_offset_le [of f s] by simp
  then show "IsIdent s" using t by (simp add: token_ok_def)
qed

text \<open>
  A keyword lexes back to itself: the spelling of each keyword, verbs included, is read
  as one token of its kind.
\<close>

theorem keyword_roundtrip:
  assumes "IsKeyword k"
  shows "shape (fst (Tokenize (New f (kindNames k)))) = [(k, kindNames k), (EOF, [])]"
proof -
  have "kindNames k \<noteq> [] \<and> isIdentStart (of_char (hd (kindNames k)))
      \<and> (\<forall>c \<in> set (kindNames k). word_byte c)"
    using assms by (cases k) (simp_all add: iota_kw word_byte_def ascii_class_defs)
  moreover have "LookupKeyword (kindNames k) = Some k"
    using assms by (simp add: LookupKeyword_def keywords_tab_iff)
  ultimately show ?thesis using Tokenize_word [of "kindNames k" f] by simp
qed

theorem keyword_roundtrip_witness:
  "shape (fst (Tokenize (New [] ''middleware''))) = [(KwMiddleware, ''middleware''), (EOF, [])]"
  using keyword_roundtrip [of KwMiddleware "[]"] by (simp add: iota_kw)

text \<open>
  A duration the lexer accepts is a count of nanoseconds that fits \<open>int64\<close>.
\<close>

theorem duration_in_range:
  assumes "t \<in> set (fst (Tokenize (New f s)))" and "tok_Kind t = Duration"
  shows "\<exists>d. ParseDuration (tok_Text t) = Some d \<and> - (2 ^ 63) \<le> d \<and> d < 2 ^ 63"
proof -
  have "token_ok t"
    using assms Tokenize_spelling [of "New f s" t] New_offset_le [of f s] by simp
  then obtain d where "ParseDuration (tok_Text t) = Some d"
    using assms(2) by (auto simp: token_ok_def)
  then show ?thesis
    using ParseDuration_in_int64 [of "tok_Text t" d]
    by (auto simp: in_int64_def min_int64_def max_int64_def)
qed

theorem duration_in_range_witness:
  "\<exists>d. ParseDuration ''5s'' = Some d \<and> - (2 ^ 63) \<le> d \<and> d < 2 ^ 63"
proof -
  let ?t = "mk_token Duration ''5s'' \<lparr>pos_Filename = [], pos_Offset = 0, pos_Line = 1, pos_Column = 1\<rparr>"
  have "?t \<in> set (fst (Tokenize (New [] ''5s'')))" by code_simp
  then show ?thesis using duration_in_range [of ?t "[]" "''5s''"] by simp
qed

end
