(* ===== verification/Ast.thy ===== *)
theory Ast
  imports Strconv
begin

text \<open>
  The syntax tree of \<^verbatim>\<open>internal/ast\<close>: its node types, the readers of
  \<^verbatim>\<open>decorators.go\<close> and \<^verbatim>\<open>walk.go\<close>, the renderers of \<^verbatim>\<open>ast_types.go\<close> and the \<open>Equal\<close>
  methods. A struct is a record, except the mutually recursive type references and the
  expressions, which are datatypes. A pointer is an \<open>option\<close> where the sources test it
  for nil or leave it nil, and the node itself where they do neither. An interface is a
  datatype with one constructor per implementing type.

  The lemmas at the end relate the \<open>Equal\<close> methods to equality of trees without positions.
\<close>

section \<open>Type references\<close>

record QualifiedIdent =
  qi_Pos :: Position
  qi_Parts :: "string list"

definition QualifiedIdent_String :: "QualifiedIdent \<Rightarrow> string" where
  "QualifiedIdent_String q = Join (qi_Parts q) ''.''"

datatype type_ref =
  TypeRef (tr_Pos: Position) (tr_Map: "map_type option") (tr_Named: "named_type_ref option")
    (tr_Array: bool) (tr_Optional: bool) (tr_ArrayDepth: nat)
and map_type =
  MapType (mt_Pos: Position) (mt_Key: "type_ref option") (mt_Value: "type_ref option")
and named_type_ref =
  NamedTypeRef (nt_Pos: Position) (nt_Name: "QualifiedIdent option") (nt_Args: "type_ref option list")

definition Repeat :: "string \<Rightarrow> nat \<Rightarrow> string" where
  "Repeat s n = concat (replicate n s)"

fun TypeRef_String :: "type_ref option \<Rightarrow> string"
and NamedTypeRef_String :: "named_type_ref option \<Rightarrow> string"
where
  "TypeRef_String None = ''?''"
| "TypeRef_String (Some (TypeRef p m n arr opt d)) =
     (case m of
        Some (MapType mp k v) \<Rightarrow> ''map<'' @ TypeRef_String k @ '', '' @ TypeRef_String v @ ''>''
      | None \<Rightarrow> NamedTypeRef_String n)
     @ Repeat ''[]'' (if d = 0 \<and> arr then 1 else d)
     @ (if opt then ''?'' else [])"
| "NamedTypeRef_String None = ''?''"
| "NamedTypeRef_String (Some (NamedTypeRef p None args)) = ''?''"
| "NamedTypeRef_String (Some (NamedTypeRef p (Some q) args)) =
     (if args = [] then QualifiedIdent_String q
      else QualifiedIdent_String q @ ''<'' @ Join (map TypeRef_String args) '', '' @ ''>'')"

definition ElemTypeRef :: "type_ref option \<Rightarrow> type_ref option" where
  "ElemTypeRef t =
     (case t of
        None \<Rightarrow> None
      | Some (TypeRef p m n arr opt d) \<Rightarrow>
          let d' = (if d > 0 then d - 1 else d)
          in Some (TypeRef p m n (d' > 0) False d'))"

section \<open>Decorators and expressions\<close>

datatype Expr =
    StringLit Position string string
  | IntLit Position int
  | FloatLit Position float64 string
  | BoolLit Position bool
  | NullLit Position
  | DurationLit Position string
  | SizeLit Position string
  | IdentExpr Position "QualifiedIdent option"
  | ArrayLit Position "Expr list"
  | BadExpr Position

primrec ExprPos :: "Expr \<Rightarrow> Position" where
  "ExprPos (StringLit p v t) = p"
| "ExprPos (IntLit p v) = p"
| "ExprPos (FloatLit p v t) = p"
| "ExprPos (BoolLit p v) = p"
| "ExprPos (NullLit p) = p"
| "ExprPos (DurationLit p t) = p"
| "ExprPos (SizeLit p t) = p"
| "ExprPos (IdentExpr p n) = p"
| "ExprPos (ArrayLit p es) = p"
| "ExprPos (BadExpr p) = p"

record ObjectField =
  of_Pos :: Position
  of_Name :: string
  of_Value :: Expr

text \<open>An object literal is a \<open>Some\<close> in \<open>da_Object\<close>, \<open>Some []\<close> for \<open>{}\<close>.\<close>

record DecoratorArg =
  da_Pos :: Position
  da_Name :: string
  da_Named :: bool
  da_Value :: "Expr option"
  da_Object :: "ObjectField list option"

record Decorator =
  dec_Pos :: Position
  dec_Name :: string
  dec_Args :: "DecoratorArg list"
  dec_HasParens :: bool

section \<open>Declarations\<close>

record FreeComment =
  fc_Pos :: Position
  fc_Text :: "string list"

record Field =
  fd_Pos :: Position
  fd_Doc :: "string list"
  fd_Name :: string
  fd_Type :: "type_ref option"
  fd_Decorators :: "Decorator list"

record Mixin =
  mx_Pos :: Position
  mx_Doc :: "string list"
  mx_Ref :: "named_type_ref option"

datatype TypeMember = TM_Field Field | TM_Mixin Mixin | TM_FreeComment FreeComment

primrec TypeMember_Pos :: "TypeMember \<Rightarrow> Position" where
  "TypeMember_Pos (TM_Field f) = fd_Pos f"
| "TypeMember_Pos (TM_Mixin m) = mx_Pos m"
| "TypeMember_Pos (TM_FreeComment c) = fc_Pos c"

record TypeDecl =
  td_Pos :: Position
  td_NamePos :: Position
  td_Decorators :: "Decorator list"
  td_Doc :: "string list"
  td_Name :: string
  td_TypeParams :: "string list"
  td_Body :: "TypeMember list"
  td_EndPos :: Position

datatype EnumValueKind = EnumBare | EnumInt | EnumString

record EnumValue =
  ev_Pos :: Position
  ev_Doc :: "string list"
  ev_Name :: string
  ev_Kind :: EnumValueKind
  ev_IntValue :: int
  ev_StrValue :: string
  ev_StrText :: string
  ev_Decorators :: "Decorator list"

datatype EnumMember = EM_Value EnumValue | EM_FreeComment FreeComment

primrec EnumMember_Pos :: "EnumMember \<Rightarrow> Position" where
  "EnumMember_Pos (EM_Value v) = ev_Pos v"
| "EnumMember_Pos (EM_FreeComment c) = fc_Pos c"

record EnumDecl =
  ed_Pos :: Position
  ed_NamePos :: Position
  ed_Decorators :: "Decorator list"
  ed_Doc :: "string list"
  ed_Name :: string
  ed_Members :: "EnumMember list"
  ed_EndPos :: Position

fun EnumValues :: "EnumDecl option \<Rightarrow> EnumValue list" where
  "EnumValues None = []"
| "EnumValues (Some d) = concat (map (\<lambda>m. case m of EM_Value v \<Rightarrow> [v] | _ \<Rightarrow> []) (ed_Members d))"

record ErrorDecl =
  er_Pos :: Position
  er_NamePos :: Position
  er_Decorators :: "Decorator list"
  er_Doc :: "string list"
  er_Category :: string
  er_Name :: string
  er_Body :: "TypeMember list"
  er_HasBody :: bool
  er_EndPos :: Position

record ScalarDecl =
  sc_Pos :: Position
  sc_NamePos :: Position
  sc_Decorators :: "Decorator list"
  sc_Doc :: "string list"
  sc_Name :: string
  sc_Primitive :: string

record MiddlewareDecl =
  mw_Pos :: Position
  mw_NamePos :: Position
  mw_Decorators :: "Decorator list"
  mw_Doc :: "string list"
  mw_Name :: string

record PathSegment =
  ps_Pos :: Position
  ps_Param :: bool
  ps_Literal :: string

record Path =
  pa_Pos :: Position
  pa_Segments :: "PathSegment list"

record MethodResponse =
  mr_Pos :: Position
  mr_Type :: named_type_ref

record Method =
  me_Pos :: Position
  me_NamePos :: Position
  me_Decorators :: "Decorator list"
  me_Doc :: "string list"
  me_Verb :: string
  me_Name :: string
  me_Path :: "Path option"
  me_Request :: "named_type_ref option"
  me_Response :: "MethodResponse option"
  me_BodyComments :: "FreeComment list"
  me_EndPos :: Position

datatype ServiceMember = SM_Method Method | SM_FreeComment FreeComment

primrec ServiceMember_Pos :: "ServiceMember \<Rightarrow> Position" where
  "ServiceMember_Pos (SM_Method m) = me_Pos m"
| "ServiceMember_Pos (SM_FreeComment c) = fc_Pos c"

record ServiceDecl =
  sv_Pos :: Position
  sv_NamePos :: Position
  sv_Decorators :: "Decorator list"
  sv_Doc :: "string list"
  sv_Name :: string
  sv_Members :: "ServiceMember list"
  sv_Extend :: bool
  sv_EndPos :: Position

fun Methods :: "ServiceDecl option \<Rightarrow> Method list" where
  "Methods None = []"
| "Methods (Some d) = concat (map (\<lambda>m. case m of SM_Method x \<Rightarrow> [x] | _ \<Rightarrow> []) (sv_Members d))"

record EventPayload =
  ep_Pos :: Position
  ep_Type :: named_type_ref
  ep_Array :: bool

record EventDecl =
  en_Pos :: Position
  en_NamePos :: Position
  en_Decorators :: "Decorator list"
  en_Doc :: "string list"
  en_Name :: string
  en_Payload :: "EventPayload option"
  en_BodyComments :: "FreeComment list"
  en_EndPos :: Position

datatype Decl =
    D_Type TypeDecl
  | D_Enum EnumDecl
  | D_Error ErrorDecl
  | D_Scalar ScalarDecl
  | D_Middleware MiddlewareDecl
  | D_Service ServiceDecl
  | D_Event EventDecl

primrec DeclName :: "Decl \<Rightarrow> string" where
  "DeclName (D_Type d) = td_Name d"
| "DeclName (D_Enum d) = ed_Name d"
| "DeclName (D_Error d) = er_Name d"
| "DeclName (D_Scalar d) = sc_Name d"
| "DeclName (D_Middleware d) = mw_Name d"
| "DeclName (D_Service d) = sv_Name d"
| "DeclName (D_Event d) = en_Name d"

primrec DeclPos :: "Decl \<Rightarrow> Position" where
  "DeclPos (D_Type d) = td_Pos d"
| "DeclPos (D_Enum d) = ed_Pos d"
| "DeclPos (D_Error d) = er_Pos d"
| "DeclPos (D_Scalar d) = sc_Pos d"
| "DeclPos (D_Middleware d) = mw_Pos d"
| "DeclPos (D_Service d) = sv_Pos d"
| "DeclPos (D_Event d) = en_Pos d"

primrec DeclNamePos :: "Decl \<Rightarrow> Position" where
  "DeclNamePos (D_Type d) = td_NamePos d"
| "DeclNamePos (D_Enum d) = ed_NamePos d"
| "DeclNamePos (D_Error d) = er_NamePos d"
| "DeclNamePos (D_Scalar d) = sc_NamePos d"
| "DeclNamePos (D_Middleware d) = mw_NamePos d"
| "DeclNamePos (D_Service d) = sv_NamePos d"
| "DeclNamePos (D_Event d) = en_NamePos d"

record PackageDecl =
  pd_Pos :: Position
  pd_Doc :: "string list"
  pd_Name :: string

record File =
  f_LeadingDoc :: "string list"
  f_Decorators :: "Decorator list"
  f_Package :: "PackageDecl option"
  f_Decls :: "Decl list"
  f_FreeComments :: "FreeComment list"
  f_ChainComments :: "nat \<rightharpoonup> string list"
  f_Comments :: "Comment list"

section \<open>Readers\<close>

fun FindDecorator :: "Decorator option list \<Rightarrow> string \<Rightarrow> Decorator option" where
  "FindDecorator [] name = None"
| "FindDecorator (Some d # ds) name = (if dec_Name d = name then Some d else FindDecorator ds name)"
| "FindDecorator (None # ds) name = FindDecorator ds name"

definition HasDecorator :: "Decorator option list \<Rightarrow> string \<Rightarrow> bool" where
  "HasDecorator decs name \<longleftrightarrow> FindDecorator decs name \<noteq> None"

fun isBad :: "Expr \<Rightarrow> bool" where
  "isBad (BadExpr p) = True"
| "isBad (ArrayLit p es) = list_ex isBad es"
| "isBad e = False"

definition arg_bad :: "DecoratorArg \<Rightarrow> bool" where
  "arg_bad a \<longleftrightarrow>
     (case da_Value a of Some e \<Rightarrow> isBad e | None \<Rightarrow> False)
     \<or> (case da_Object a of Some fs \<Rightarrow> list_ex (\<lambda>f. isBad (of_Value f)) fs | None \<Rightarrow> False)"

definition HoldsBadExpr :: "Decorator \<Rightarrow> bool" where
  "HoldsBadExpr d = list_ex arg_bad (dec_Args d)"

text \<open>A nil value, of an object argument, is a \<open>None\<close> among the values.\<close>

definition DecoratorArgValues :: "DecoratorArg \<Rightarrow> Expr option list" where
  "DecoratorArgValues a =
     (case da_Value a of Some (ArrayLit p es) \<Rightarrow> map Some es | v \<Rightarrow> [v])"

fun first_some :: "('a \<Rightarrow> 'b option) \<Rightarrow> 'a list \<Rightarrow> 'b option" where
  "first_some f [] = None"
| "first_some f (x # xs) = (case f x of Some y \<Rightarrow> Some y | None \<Rightarrow> first_some f xs)"

text \<open>\<open>Arg[T]\<close>, with the type assertion to \<open>T\<close> as the partial map \<open>asT\<close>.\<close>

definition Arg :: "(Expr \<Rightarrow> 'a option) \<Rightarrow> Decorator option list \<Rightarrow> string \<Rightarrow> 'a option" where
  "Arg asT decs name =
     first_some (\<lambda>d. case d of
         None \<Rightarrow> None
       | Some d \<Rightarrow>
           if dec_Name d \<noteq> name then None
           else first_some (\<lambda>a. if da_Named a then None
                  else first_some (\<lambda>v. case v of None \<Rightarrow> None | Some e \<Rightarrow> asT e)
                         (DecoratorArgValues a)) (dec_Args d)) decs"

definition StringArg :: "Decorator option list \<Rightarrow> string \<Rightarrow> string option" where
  "StringArg decs name = Arg (\<lambda>e. case e of StringLit p v t \<Rightarrow> Some v | _ \<Rightarrow> None) decs name"

fun TextValue :: "Expr \<Rightarrow> string option" where
  "TextValue (StringLit p v t) = Some v"
| "TextValue (IdentExpr p (Some q)) = Some (QualifiedIdent_String q)"
| "TextValue e = None"

record ArgName =
  an_Value :: string
  an_Pos :: Position

definition ArgNames :: "Decorator \<Rightarrow> ArgName list" where
  "ArgNames d =
     concat (map (\<lambda>a. if da_Named a then []
       else concat (map (\<lambda>v. case v of
            None \<Rightarrow> []
          | Some e \<Rightarrow> (case TextValue e of
                Some s \<Rightarrow> [\<lparr>an_Value = s, an_Pos = ExprPos e\<rparr>]
              | None \<Rightarrow> [])) (DecoratorArgValues a))) (dec_Args d))"

definition Fields :: "TypeMember list \<Rightarrow> Field list" where
  "Fields body = concat (map (\<lambda>m. case m of TM_Field f \<Rightarrow> [f] | _ \<Rightarrow> []) body)"

definition Members :: "TypeMember list \<Rightarrow> TypeMember list" where
  "Members body = filter (\<lambda>m. case m of TM_FreeComment c \<Rightarrow> False | _ \<Rightarrow> True) body"

text \<open>The refs \<open>WalkNamedRefs\<close> calls its function on, in the order of the calls.\<close>

fun TypeRef_WalkNamedRefs :: "type_ref option \<Rightarrow> named_type_ref list"
and NamedTypeRef_WalkNamedRefs :: "named_type_ref option \<Rightarrow> named_type_ref list"
where
  "TypeRef_WalkNamedRefs None = []"
| "TypeRef_WalkNamedRefs (Some (TypeRef p m n arr opt d)) =
     (case m of
        Some (MapType mp k v) \<Rightarrow> TypeRef_WalkNamedRefs k @ TypeRef_WalkNamedRefs v
      | None \<Rightarrow> NamedTypeRef_WalkNamedRefs n)"
| "NamedTypeRef_WalkNamedRefs None = []"
| "NamedTypeRef_WalkNamedRefs (Some (NamedTypeRef p q args)) =
     concat (map TypeRef_WalkNamedRefs args) @ [NamedTypeRef p q args]"

section \<open>Equality\<close>

definition QualifiedIdent_Equal :: "QualifiedIdent option \<Rightarrow> QualifiedIdent option \<Rightarrow> bool" where
  "QualifiedIdent_Equal q o' =
     (case (q, o') of
        (Some a, Some b) \<Rightarrow> length (qi_Parts a) = length (qi_Parts b)
          \<and> list_all (\<lambda>i. qi_Parts a ! i = qi_Parts b ! i) [0..<length (qi_Parts a)]
      | (None, None) \<Rightarrow> True
      | _ \<Rightarrow> False)"

fun TypeRef_Equal :: "type_ref option \<Rightarrow> type_ref option \<Rightarrow> bool"
and MapType_Equal :: "map_type option \<Rightarrow> map_type option \<Rightarrow> bool"
and NamedTypeRef_Equal :: "named_type_ref option \<Rightarrow> named_type_ref option \<Rightarrow> bool"
and args_Equal :: "type_ref option list \<Rightarrow> type_ref option list \<Rightarrow> bool"
where
  "TypeRef_Equal None o' = (o' = None)"
| "TypeRef_Equal (Some t) None = False"
| "TypeRef_Equal (Some (TypeRef p m n arr opt d)) (Some (TypeRef p' m' n' arr' opt' d')) =
     (if arr \<noteq> arr' \<or> opt \<noteq> opt' then False
      else if d \<noteq> d' then False
      else if \<not> MapType_Equal m m' then False
      else NamedTypeRef_Equal n n')"
| "MapType_Equal None o' = (o' = None)"
| "MapType_Equal (Some t) None = False"
| "MapType_Equal (Some (MapType p k v)) (Some (MapType p' k' v')) =
     (TypeRef_Equal k k' \<and> TypeRef_Equal v v')"
| "NamedTypeRef_Equal None o' = (o' = None)"
| "NamedTypeRef_Equal (Some t) None = False"
| "NamedTypeRef_Equal (Some (NamedTypeRef p q args)) (Some (NamedTypeRef p' q' args')) =
     (if \<not> QualifiedIdent_Equal q q' then False
      else if length args \<noteq> length args' then False
      else args_Equal args args')"
| "args_Equal (a # as) (b # bs) = (if TypeRef_Equal a b then args_Equal as bs else False)"
| "args_Equal as bs = True"

definition Field_Equal :: "Field option \<Rightarrow> Field option \<Rightarrow> bool" where
  "Field_Equal f o' =
     (case (f, o') of
        (Some a, Some b) \<Rightarrow> fd_Name a = fd_Name b \<and> TypeRef_Equal (fd_Type a) (fd_Type b)
      | (None, None) \<Rightarrow> True
      | _ \<Rightarrow> False)"

definition Mixin_Equal :: "Mixin option \<Rightarrow> Mixin option \<Rightarrow> bool" where
  "Mixin_Equal m o' =
     (case (m, o') of
        (Some a, Some b) \<Rightarrow> NamedTypeRef_Equal (mx_Ref a) (mx_Ref b)
      | (None, None) \<Rightarrow> True
      | _ \<Rightarrow> False)"

section \<open>Trees without positions\<close>

primrec erase_tr :: "type_ref \<Rightarrow> type_ref"
and erase_mt :: "map_type \<Rightarrow> map_type"
and erase_nt :: "named_type_ref \<Rightarrow> named_type_ref"
where
  "erase_tr (TypeRef p m n arr opt d) =
     TypeRef zero_Position (map_option erase_mt m) (map_option erase_nt n) arr opt d"
| "erase_mt (MapType p k v) =
     MapType zero_Position (map_option erase_tr k) (map_option erase_tr v)"
| "erase_nt (NamedTypeRef p q args) =
     NamedTypeRef zero_Position (map_option (\<lambda>q. q\<lparr>qi_Pos := zero_Position\<rparr>) q)
       (map (map_option erase_tr) args)"

lemma erase_qi_eq_iff:
  "(a :: QualifiedIdent)\<lparr>qi_Pos := p\<rparr> = b\<lparr>qi_Pos := p\<rparr> \<longleftrightarrow> qi_Parts a = qi_Parts b"
  by (cases a; cases b) simp

lemma QualifiedIdent_Equal_iff:
  "QualifiedIdent_Equal q o' \<longleftrightarrow> map_option qi_Parts q = map_option qi_Parts o'"
  using list_eq_iff_nth_eq [of "qi_Parts (the q)" "qi_Parts (the o')"]
  by (cases q; cases o') (simp_all add: QualifiedIdent_Equal_def list_all_iff Ball_def)

lemma map_option_erase_qi:
  "map_option (\<lambda>q. q\<lparr>qi_Pos := p\<rparr>) a = map_option (\<lambda>q. q\<lparr>qi_Pos := p\<rparr>) b
     \<longleftrightarrow> QualifiedIdent_Equal a b"
  by (cases a; cases b) (simp_all add: QualifiedIdent_Equal_iff erase_qi_eq_iff)

lemma Equal_erase:
  "TypeRef_Equal t o' \<longleftrightarrow> map_option erase_tr t = map_option erase_tr o'"
  "MapType_Equal m mo \<longleftrightarrow> map_option erase_mt m = map_option erase_mt mo"
  "NamedTypeRef_Equal n no \<longleftrightarrow> map_option erase_nt n = map_option erase_nt no"
  "length as = length bs \<Longrightarrow>
     args_Equal as bs \<longleftrightarrow> map (map_option erase_tr) as = map (map_option erase_tr) bs"
proof (induction t o' and m mo and n no and as bs
    rule: TypeRef_Equal_MapType_Equal_NamedTypeRef_Equal_args_Equal.induct)
  case (9 p q args p' q' args')
  have "map_option erase_nt (Some (NamedTypeRef p q args)) = map_option erase_nt (Some (NamedTypeRef p' q' args'))
      \<longleftrightarrow> QualifiedIdent_Equal q q'
        \<and> map (map_option erase_tr) args = map (map_option erase_tr) args'"
    by (simp add: map_option_erase_qi)
  moreover have "map (map_option erase_tr) args = map (map_option erase_tr) args' \<Longrightarrow> length args = length args'"
    by (rule map_eq_imp_length_eq)
  ultimately show ?case using 9 by (cases "length args = length args'") (simp_all, blast)
qed simp_all

text \<open>The rendering reads no position.\<close>

lemma String_erase:
  "TypeRef_String (map_option erase_tr t) = TypeRef_String t"
  "NamedTypeRef_String (map_option erase_nt n) = NamedTypeRef_String n"
proof (induction t and n rule: TypeRef_String_NamedTypeRef_String.induct)
  case (2 p m n arr opt d)
  then show ?case
    by (cases m) (auto split: map_type.split)
next
  case (5 p q args)
  have "map (TypeRef_String \<circ> map_option erase_tr) args = map TypeRef_String args"
    using 5 by (cases "args = []") simp_all
  then show ?case by (simp add: QualifiedIdent_String_def del: map_eq_conv)
qed simp_all

section \<open>Well-formed references\<close>

text \<open>
  What the comment on \<open>TypeRef\<close> says the parser keeps, at every reference within: \<open>Array\<close> is
  \<open>ArrayDepth > 0\<close>, exactly one of \<open>Map\<close> and \<open>Named\<close> is set, and no pointer is nil.
\<close>

fun tr_wf :: "type_ref option \<Rightarrow> bool" and nt_wf :: "named_type_ref option \<Rightarrow> bool" where
  "tr_wf None = False"
| "tr_wf (Some (TypeRef p m n arr opt d)) =
     ((arr \<longleftrightarrow> d > 0)
      \<and> (case m of
            Some (MapType mp k v) \<Rightarrow> n = None \<and> tr_wf k \<and> tr_wf v
          | None \<Rightarrow> nt_wf n))"
| "nt_wf None = False"
| "nt_wf (Some (NamedTypeRef p q args)) = (q \<noteq> None \<and> list_all tr_wf args)"

lemma ElemTypeRef_wf: "tr_wf t \<Longrightarrow> tr_wf (ElemTypeRef t)"
  by (cases t) (auto simp: ElemTypeRef_def Let_def split: type_ref.split)

section \<open>Well-formed declarations\<close>

text \<open>
  What a parsed declaration satisfies whatever the source: its references are well-formed,
  its name an identifier or, where none could be read, empty; integers are in range, verbs
  are the lexer's, and a route has no empty segment unless it is the root.
\<close>

definition name_ok :: "string \<Rightarrow> bool" where
  "name_ok n \<longleftrightarrow> n = [] \<or> IsIdent n"

fun member_wf :: "TypeMember \<Rightarrow> bool" where
  "member_wf (TM_Field f) = (fd_Name f \<noteq> [] \<and> tr_wf (fd_Type f))"
| "member_wf (TM_Mixin m) = nt_wf (mx_Ref m)"
| "member_wf (TM_FreeComment c) = True"

definition enum_value_wf :: "EnumValue \<Rightarrow> bool" where
  "enum_value_wf v \<longleftrightarrow> ev_Name v \<noteq> [] \<and> in_int64 (ev_IntValue v)
     \<and> (ev_Kind v \<noteq> EnumInt \<longrightarrow> ev_IntValue v = 0)
     \<and> (ev_Kind v \<noteq> EnumString \<longrightarrow> ev_StrValue v = [] \<and> ev_StrText v = [])"

fun enum_member_wf :: "EnumMember \<Rightarrow> bool" where
  "enum_member_wf (EM_Value v) = enum_value_wf v"
| "enum_member_wf (EM_FreeComment c) = True"

text \<open>A word is spelled as an identifier or a keyword is; a literal segment holds path characters.\<close>

definition word_ok :: "string \<Rightarrow> bool" where
  "word_ok s \<longleftrightarrow> s \<noteq> [] \<and> isIdentStart (of_char (hd s))
     \<and> list_all (\<lambda>c. isIdentStart (of_char c) \<or> isDigit (of_char c)) s"

definition segment_wf :: "PathSegment \<Rightarrow> bool" where
  "segment_wf g \<longleftrightarrow>
     (if ps_Param g then word_ok (ps_Literal g)
      else ps_Literal g \<noteq> [] \<and> list_all (\<lambda>c. isPathChar (of_char c)) (ps_Literal g))"

definition path_wf :: "Path \<Rightarrow> bool" where
  "path_wf p \<longleftrightarrow> pa_Segments p \<noteq> []
     \<and> (list_all segment_wf (pa_Segments p)
        \<or> (\<exists>g. pa_Segments p = [g] \<and> \<not> ps_Param g \<and> ps_Literal g = []))"

definition method_wf :: "Method \<Rightarrow> bool" where
  "method_wf m \<longleftrightarrow> name_ok (me_Name m)
     \<and> (\<exists>k. IsVerb k \<and> me_Verb m = kindNames k)
     \<and> (case me_Path m of None \<Rightarrow> True | Some p \<Rightarrow> path_wf p)
     \<and> (case me_Request m of None \<Rightarrow> True | Some r \<Rightarrow> nt_wf (Some r))
     \<and> (case me_Response m of None \<Rightarrow> True | Some r \<Rightarrow> nt_wf (Some (mr_Type r)))"

fun service_member_wf :: "ServiceMember \<Rightarrow> bool" where
  "service_member_wf (SM_Method m) = method_wf m"
| "service_member_wf (SM_FreeComment c) = True"

fun decl_wf :: "Decl \<Rightarrow> bool" where
  "decl_wf (D_Type d) = (name_ok (td_Name d) \<and> distinct (td_TypeParams d)
     \<and> list_all IsIdent (td_TypeParams d) \<and> list_all member_wf (td_Body d))"
| "decl_wf (D_Enum d) = (name_ok (ed_Name d) \<and> list_all enum_member_wf (ed_Members d))"
| "decl_wf (D_Error d) = (name_ok (er_Name d) \<and> name_ok (er_Category d)
     \<and> list_all member_wf (er_Body d) \<and> (er_Body d \<noteq> [] \<longrightarrow> er_HasBody d))"
| "decl_wf (D_Scalar d) = (name_ok (sc_Name d) \<and> name_ok (sc_Primitive d))"
| "decl_wf (D_Middleware d) = name_ok (mw_Name d)"
| "decl_wf (D_Service d) = (name_ok (sv_Name d) \<and> list_all service_member_wf (sv_Members d))"
| "decl_wf (D_Event d) = (name_ok (en_Name d)
     \<and> (case en_Payload d of None \<Rightarrow> True | Some p \<Rightarrow> nt_wf (Some (ep_Type p))))"

end
