(* ===== verification/Prims.thy ===== *)
theory Prims
  imports Prelude
begin

text \<open>
  The catalogue of built-in types of \<^verbatim>\<open>internal/prims/prims.go\<close>. A map read of a name that is
  not a built-in gives Go's zero \<open>Spec\<close>, whose kind is none of the constants; here the read
  is \<open>None\<close> and so is its kind.
\<close>

datatype prim_kind =
  PString | PBool | PInt | PUint | PFloat | PBytes | PAny | PFile | PDateTime | PCookie

record Spec =
  sp_Name :: string
  sp_Kind :: prim_kind
  sp_Bits :: nat
  sp_Go :: string
  sp_GoImport :: string
  sp_OASType :: string
  sp_OASFormat :: string
  sp_Doc :: string

definition specs :: "Spec list" where
  "specs =
    [\<lparr>sp_Name = ''string'', sp_Kind = PString, sp_Bits = 0, sp_Go = ''string'',
      sp_GoImport = [], sp_OASType = ''string'', sp_OASFormat = [],
      sp_Doc = ''**`string`** - UTF-8 text primitive.''\<rparr>,
     \<lparr>sp_Name = ''bool'', sp_Kind = PBool, sp_Bits = 0, sp_Go = ''bool'',
      sp_GoImport = [], sp_OASType = ''boolean'', sp_OASFormat = [],
      sp_Doc = ''**`bool`** - boolean primitive (`true` / `false`).''\<rparr>,
     \<lparr>sp_Name = ''int'', sp_Kind = PInt, sp_Bits = 0, sp_Go = ''int'',
      sp_GoImport = [], sp_OASType = ''integer'', sp_OASFormat = [],
      sp_Doc = ''**`int`** - platform-sized signed integer.''\<rparr>,
     \<lparr>sp_Name = ''int8'', sp_Kind = PInt, sp_Bits = 8, sp_Go = ''int8'',
      sp_GoImport = [], sp_OASType = ''integer'', sp_OASFormat = [],
      sp_Doc = ''**`int8`** - 8-bit signed integer.''\<rparr>,
     \<lparr>sp_Name = ''int16'', sp_Kind = PInt, sp_Bits = 16, sp_Go = ''int16'',
      sp_GoImport = [], sp_OASType = ''integer'', sp_OASFormat = [],
      sp_Doc = ''**`int16`** - 16-bit signed integer.''\<rparr>,
     \<lparr>sp_Name = ''int32'', sp_Kind = PInt, sp_Bits = 32, sp_Go = ''int32'',
      sp_GoImport = [], sp_OASType = ''integer'', sp_OASFormat = ''int32'',
      sp_Doc = ''**`int32`** - 32-bit signed integer.''\<rparr>,
     \<lparr>sp_Name = ''int64'', sp_Kind = PInt, sp_Bits = 64, sp_Go = ''int64'',
      sp_GoImport = [], sp_OASType = ''integer'', sp_OASFormat = ''int64'',
      sp_Doc = ''**`int64`** - 64-bit signed integer.''\<rparr>,
     \<lparr>sp_Name = ''uint'', sp_Kind = PUint, sp_Bits = 0, sp_Go = ''uint'',
      sp_GoImport = [], sp_OASType = ''integer'', sp_OASFormat = [],
      sp_Doc = ''**`uint`** - platform-sized unsigned integer.''\<rparr>,
     \<lparr>sp_Name = ''uint8'', sp_Kind = PUint, sp_Bits = 8, sp_Go = ''uint8'',
      sp_GoImport = [], sp_OASType = ''integer'', sp_OASFormat = [],
      sp_Doc = ''**`uint8`** - 8-bit unsigned integer.''\<rparr>,
     \<lparr>sp_Name = ''uint16'', sp_Kind = PUint, sp_Bits = 16, sp_Go = ''uint16'',
      sp_GoImport = [], sp_OASType = ''integer'', sp_OASFormat = [],
      sp_Doc = ''**`uint16`** - 16-bit unsigned integer.''\<rparr>,
     \<lparr>sp_Name = ''uint32'', sp_Kind = PUint, sp_Bits = 32, sp_Go = ''uint32'',
      sp_GoImport = [], sp_OASType = ''integer'', sp_OASFormat = [],
      sp_Doc = ''**`uint32`** - 32-bit unsigned integer.''\<rparr>,
     \<lparr>sp_Name = ''uint64'', sp_Kind = PUint, sp_Bits = 64, sp_Go = ''uint64'',
      sp_GoImport = [], sp_OASType = ''integer'', sp_OASFormat = [],
      sp_Doc = ''**`uint64`** - 64-bit unsigned integer.''\<rparr>,
     \<lparr>sp_Name = ''float32'', sp_Kind = PFloat, sp_Bits = 32, sp_Go = ''float32'',
      sp_GoImport = [], sp_OASType = ''number'', sp_OASFormat = ''float'',
      sp_Doc = ''**`float32`** - 32-bit IEEE-754 float.''\<rparr>,
     \<lparr>sp_Name = ''float64'', sp_Kind = PFloat, sp_Bits = 64, sp_Go = ''float64'',
      sp_GoImport = [], sp_OASType = ''number'', sp_OASFormat = ''double'',
      sp_Doc = ''**`float64`** - 64-bit IEEE-754 float.''\<rparr>,
     \<lparr>sp_Name = ''bytes'', sp_Kind = PBytes, sp_Bits = 0, sp_Go = ''[]byte'',
      sp_GoImport = [], sp_OASType = ''string'', sp_OASFormat = [],
      sp_Doc = ''**`bytes`** - raw byte buffer.'' @ [CHR 0x0A] @ [CHR 0x0A] @ ''Generates `[]byte` in Go, base64 on the wire. Add `@format(raw)` when the bytes already ARE the value in the message's own encoding and the codec must embed them untouched.''\<rparr>,
     \<lparr>sp_Name = ''any'', sp_Kind = PAny, sp_Bits = 0, sp_Go = ''any'',
      sp_GoImport = [], sp_OASType = [], sp_OASFormat = [],
      sp_Doc = ''**`any`** - opaque JSON value.'' @ [CHR 0x0A] @ [CHR 0x0A] @ ''Generates `any` in Go.''\<rparr>,
     \<lparr>sp_Name = ''datetime'', sp_Kind = PDateTime, sp_Bits = 0, sp_Go = ''time.Time'',
      sp_GoImport = ''time'', sp_OASType = ''string'', sp_OASFormat = ''date-time'',
      sp_Doc = ''**`datetime`** - an RFC 3339 timestamp.'' @ [CHR 0x0A] @ [CHR 0x0A] @ ''Generates `time.Time` in Go and travels as an RFC 3339 string in JSON. A body field only: it cannot be bound from a query, header, cookie or form value.''\<rparr>,
     \<lparr>sp_Name = ''file'', sp_Kind = PFile, sp_Bits = 0, sp_Go = ''*multipart.FileHeader'',
      sp_GoImport = ''mime/multipart'', sp_OASType = ''string'', sp_OASFormat = ''binary'',
      sp_Doc = ''**`file`** - multipart file upload (request only, must be paired with `@form`).'' @ [CHR 0x0A] @ [CHR 0x0A] @ ''Generates `*multipart.FileHeader`.''\<rparr>,
     \<lparr>sp_Name = ''cookie'', sp_Kind = PCookie, sp_Bits = 0, sp_Go = ''*http.Cookie'',
      sp_GoImport = ''net/http'', sp_OASType = ''string'', sp_OASFormat = [],
      sp_Doc = ''**`cookie`** - a cookie the logic sets in full (a response or error field only, paired with `@cookie`).'' @ [CHR 0x0A] @ [CHR 0x0A] @ ''Generates `*http.Cookie`: the logic picks its value and may change any attribute the design declares, as its lifetime, or delete it with `MaxAge: -1`. nil sets no cookie.''\<rparr>]"

definition byName :: "string \<rightharpoonup> Spec" where
  "byName = index_by sp_Name specs"

definition All :: "Spec list" where
  "All = specs"

definition Lookup :: "string \<Rightarrow> Spec option" where
  "Lookup name = byName name"

definition Is :: "string \<Rightarrow> bool" where
  "Is name \<longleftrightarrow> byName name \<noteq> None"

definition kind_of :: "string \<Rightarrow> prim_kind option" where
  "kind_of name = map_option sp_Kind (byName name)"

definition IsWireParseable :: "string \<Rightarrow> bool" where
  "IsWireParseable name \<longleftrightarrow> kind_of name \<in> Some ` {PString, PBool, PInt, PUint, PFloat}"

definition IsNumeric :: "string \<Rightarrow> bool" where
  "IsNumeric name \<longleftrightarrow> kind_of name \<in> Some ` {PInt, PUint, PFloat}"

definition IsInteger :: "string \<Rightarrow> bool" where
  "IsInteger name \<longleftrightarrow> kind_of name \<in> Some ` {PInt, PUint}"

definition IsUnsigned :: "string \<Rightarrow> bool" where
  "IsUnsigned name \<longleftrightarrow> kind_of name = Some PUint"

definition Capacity :: "string \<Rightarrow> (int \<times> int) option" where
  "Capacity name =
     (let bits0 = (case byName name of Some s \<Rightarrow> sp_Bits s | None \<Rightarrow> 0);
          bits = (if bits0 = 0 then 64 else bits0)
      in case kind_of name of
           Some PInt \<Rightarrow> (let hi = 2 ^ (bits - 1) in Some (- hi, hi - 1))
         | Some PUint \<Rightarrow> Some (0, 2 ^ bits - 1)
         | _ \<Rightarrow> None)"

lemma specs_distinct: "distinct (map sp_Name specs)"
  by (simp add: specs_def)

lemma byName_iff: "byName n = Some s \<longleftrightarrow> s \<in> set specs \<and> sp_Name s = n"
  unfolding byName_def using specs_distinct by (rule index_by_iff)

lemma specs_bits:
  "s \<in> set specs \<Longrightarrow> sp_Kind s = PInt \<or> sp_Kind s = PUint \<Longrightarrow> sp_Bits s \<in> {0, 8, 16, 32, 64}"
  by (auto simp: specs_def)

text \<open>
  The width a built-in integer is stored at, 64 bits where the catalogue gives none.
\<close>

definition width_of :: "Spec \<Rightarrow> nat" where
  "width_of s = (if sp_Bits s = 0 then 64 else sp_Bits s)"

lemma Capacity_width:
  "byName n = Some s \<Longrightarrow> Capacity n =
     (case sp_Kind s of
        PInt \<Rightarrow> Some (- (2 ^ (width_of s - 1)), 2 ^ (width_of s - 1) - 1)
      | PUint \<Rightarrow> Some (0, 2 ^ width_of s - 1)
      | _ \<Rightarrow> None)"
  by (simp add: Capacity_def kind_of_def width_of_def Let_def split: prim_kind.split)

lemma Capacity_None: "byName n = None \<Longrightarrow> Capacity n = None"
  by (simp add: Capacity_def kind_of_def Let_def)

end
