(* ===== verification/Errcat.thy ===== *)
theory Errcat
  imports Prelude
begin

text \<open>The reserved HTTP error categories of \<^verbatim>\<open>internal/errcat/errcat.go\<close>.\<close>

record Category =
  cat_Name :: string
  cat_Status :: nat
  cat_Message :: string

definition Categories :: "Category list" where
  "Categories = map (\<lambda>(n, s, m). \<lparr>cat_Name = n, cat_Status = s, cat_Message = m\<rparr>)
    [(''BadRequest'', 400, ''Bad request''),
     (''Unauthorized'', 401, ''Unauthorized''),
     (''PaymentRequired'', 402, ''Payment required''),
     (''Forbidden'', 403, ''Forbidden''),
     (''NotFound'', 404, ''Not found''),
     (''MethodNotAllowed'', 405, ''Method not allowed''),
     (''NotAcceptable'', 406, ''Not acceptable''),
     (''Conflict'', 409, ''Conflict''),
     (''Gone'', 410, ''Resource gone''),
     (''LengthRequired'', 411, ''Length required''),
     (''PreconditionFailed'', 412, ''Precondition failed''),
     (''PayloadTooLarge'', 413, ''Payload too large''),
     (''UnsupportedMediaType'', 415, ''Unsupported media type''),
     (''UnprocessableEntity'', 422, ''Unprocessable entity''),
     (''Locked'', 423, ''Resource locked''),
     (''TooManyRequests'', 429, ''Too many requests''),
     (''Internal'', 500, ''Internal server error''),
     (''NotImplemented'', 501, ''Not implemented''),
     (''BadGateway'', 502, ''Bad gateway''),
     (''ServiceUnavailable'', 503, ''Service unavailable''),
     (''GatewayTimeout'', 504, ''Gateway timeout'')]"

definition category :: "string \<rightharpoonup> Category" where
  "category = index_by cat_Name Categories"

definition IsCategory :: "string \<Rightarrow> bool" where
  "IsCategory name \<longleftrightarrow> category name \<noteq> None"

definition Status :: "string \<Rightarrow> nat" where
  "Status name = (case category name of Some c \<Rightarrow> cat_Status c | None \<Rightarrow> 0)"

definition Message :: "string \<Rightarrow> string" where
  "Message name = (case category name of Some c \<Rightarrow> cat_Message c | None \<Rightarrow> [])"

lemma Categories_names: "distinct (map cat_Name Categories)"
  by (simp add: Categories_def)

lemma Categories_sorted: "sorted_wrt (<) (map cat_Status Categories)"
  by (simp add: Categories_def)

lemma Categories_range: "c \<in> set Categories \<Longrightarrow> 400 \<le> cat_Status c \<and> cat_Status c < 600"
  by (auto simp: Categories_def)

lemma category_iff: "category n = Some c \<longleftrightarrow> c \<in> set Categories \<and> cat_Name c = n"
  unfolding category_def using Categories_names by (rule index_by_iff)

lemma Status_iff: "IsCategory n \<longleftrightarrow> 400 \<le> Status n \<and> Status n < 600"
proof (cases "category n")
  case (Some c)
  then have "c \<in> set Categories" by (simp add: category_iff)
  then show ?thesis using Some Categories_range by (simp add: IsCategory_def Status_def)
qed (simp add: IsCategory_def Status_def)

text \<open>No two categories share a status.\<close>

lemma Status_inj:
  assumes "IsCategory a" and "Status a = Status b" shows "a = b"
proof -
  have "IsCategory b" using assms by (simp add: Status_iff)
  then obtain ca cb where c: "category a = Some ca" "category b = Some cb"
    using assms(1) by (auto simp: IsCategory_def)
  have "inj_on cat_Status (set Categories)"
    using Categories_sorted strict_sorted_iff distinct_map by blast
  then have "ca = cb"
    using assms(2) c category_iff by (simp add: Status_def inj_on_def)
  then show ?thesis using c category_iff by auto
qed

end
