(* ===== verification/Parser_State.thy ===== *)
theory Parser_State
  imports Ast Prims Errcat Lexer_Inv "HOL-Library.State_Monad"
begin

text \<open>
  The parser's state and its cursor, loop, recovery and comment operations:
  \<^verbatim>\<open>parser.go\<close> from \<open>peek\<close> on, \<^verbatim>\<open>parser_recover.go\<close> and \<^verbatim>\<open>parser_comments.go\<close> of
  \<^verbatim>\<open>internal/parser\<close>.

  A method of \<open>*Parser\<close> is a value of the state monad over the record \<open>Parser\<close>, whose fields
  are those of the Go struct and one more: \<open>P_panic\<close> is raised where the Go code would panic
  on an index out of range, and where a loop or a recursion of the model runs out of fuel.
  The fuel is the number of tokens plus one. \<^verbatim>\<open>Parser_Total\<close> shows that \<open>P_panic\<close> stays
  down on every source, so that neither happens.

  A loop is \<open>loop\<close> over a body that returns whether to go on; the variables the Go loop or
  closure assigns are the value it carries.
\<close>

section \<open>State\<close>

record Parser =
  P_tokens :: "Token list"
  P_pos :: nat
  P_diags :: "Diagnostic list"
  P_reported :: "Position set"
  P_allComments :: "Comment list"
  P_claimed :: "int set"
  P_chainComments :: "nat \<rightharpoonup> string list"
  P_closed :: "bool list option"
  P_panic :: bool

type_synonym 'a M = "(Parser, 'a) state"

abbreviation ret :: "'a \<Rightarrow> 'a M" where
  "ret \<equiv> State_Monad.return"

abbreviation modify :: "(Parser \<Rightarrow> Parser) \<Rightarrow> unit M" where
  "modify \<equiv> State_Monad.update"

definition gets :: "(Parser \<Rightarrow> 'a) \<Rightarrow> 'a M" where
  "gets f = do { s \<leftarrow> State_Monad.get; ret (f s) }"

definition panic :: "'a \<Rightarrow> 'a M" where
  "panic x = do { modify (P_panic_update (\<lambda>_. True)); ret x }"

definition whenM :: "bool \<Rightarrow> unit M \<Rightarrow> unit M" where
  "whenM b m = (if b then m else ret ())"

text \<open>The number of rounds a loop, and the depth a recursion, is given.\<close>

definition fuel :: "nat M" where
  "fuel = gets (\<lambda>s. Suc (length (P_tokens s)))"

primrec loop_fuel :: "nat \<Rightarrow> ('a \<Rightarrow> (bool \<times> 'a) M) \<Rightarrow> 'a \<Rightarrow> 'a M" where
  "loop_fuel 0 body x = panic x"
| "loop_fuel (Suc n) body x =
     do { (go, x') \<leftarrow> body x; if go then loop_fuel n body x' else ret x' }"

definition loop :: "('a \<Rightarrow> (bool \<times> 'a) M) \<Rightarrow> 'a \<Rightarrow> 'a M" where
  "loop body x = do { n \<leftarrow> fuel; loop_fuel n body x }"

definition whileM :: "bool M \<Rightarrow> ('a \<Rightarrow> 'a M) \<Rightarrow> 'a \<Rightarrow> 'a M" where
  "whileM c b x =
     loop (\<lambda>x. do { go \<leftarrow> c; if go then do { x' \<leftarrow> b x; ret (True, x') } else ret (False, x) }) x"

section \<open>The cursor\<close>

definition tokenAt :: "int \<Rightarrow> Token M" where
  "tokenAt i = do {
     toks \<leftarrow> gets P_tokens;
     if 0 \<le> i \<and> nat i < length toks then ret (toks ! nat i)
     else panic (empty_token zero_Position) }"

definition peekP :: "Token M" where
  "peekP = do { i \<leftarrow> gets P_pos; tokenAt (int i) }"

text \<open>\<open>p.tokens[p.pos-1]\<close>\<close>

definition prevToken :: "Token M" where
  "prevToken = do { i \<leftarrow> gets P_pos; tokenAt (int i - 1) }"

definition peekAt :: "nat \<Rightarrow> Token M" where
  "peekAt n = do {
     i \<leftarrow> gets P_pos;
     len \<leftarrow> gets (\<lambda>s. length (P_tokens s));
     if i + n \<ge> len then tokenAt (int len - 1) else tokenAt (int (i + n)) }"

definition advanceP :: "Token M" where
  "advanceP = do {
     t \<leftarrow> peekP;
     modify (\<lambda>s. if P_pos s < length (P_tokens s) - 1 then s\<lparr>P_pos := P_pos s + 1\<rparr> else s);
     ret t }"

definition CodeSyntaxParse :: string where
  "CodeSyntaxParse = ''syntax/parse''"

definition errorfP :: "Position \<Rightarrow> message \<Rightarrow> unit M" where
  "errorfP pos msg =
     modify (\<lambda>s. if pos \<in> P_reported s then s
        else s\<lparr>P_reported := insert pos (P_reported s),
               P_diags := P_diags s @ [mk_diag pos CodeSyntaxParse msg]\<rparr>)"

definition expect :: "kind \<Rightarrow> (Token \<times> bool) M" where
  "expect k = do {
     t \<leftarrow> peekP;
     if tok_Kind t = k then do { t' \<leftarrow> advanceP; ret (t', True) }
     else do {
       errorfP (tok_Pos t) (Msg ''expected %s, got %s'' [AKind k, AKind (tok_Kind t)]);
       ret (empty_token (tok_Pos t), False) } }"

definition peekIs :: "kind \<Rightarrow> bool M" where
  "peekIs k = do { t \<leftarrow> peekP; ret (tok_Kind t = k) }"

text \<open>The rest of an iteration of \<open>each\<close> and \<open>braced\<close>: run \<open>member\<close>, skip a token if it consumed none.\<close>

definition forward :: "'a M \<Rightarrow> 'a M" where
  "forward member = do {
     start \<leftarrow> gets P_pos;
     x \<leftarrow> member;
     now \<leftarrow> gets P_pos;
     whenM (now = start) (do { _ \<leftarrow> advanceP; ret () });
     ret x }"

definition each :: "kind \<Rightarrow> ('a \<Rightarrow> 'a M) \<Rightarrow> 'a \<Rightarrow> 'a M" where
  "each closer member x =
     whileM (do { t \<leftarrow> peekP; ret (tok_Kind t \<noteq> closer \<and> tok_Kind t \<noteq> EOF) })
       (\<lambda>x. forward (member x)) x"

section \<open>Brackets\<close>

text \<open>A kind that opens no bracket reads as Go's zero kind, \<open>EOF\<close>.\<close>

fun closerOf :: "kind \<Rightarrow> kind" where
  "closerOf LParen = RParen"
| "closerOf LBracket = RBracket"
| "closerOf LBrace = RBrace"
| "closerOf LAngle = RAngle"
| "closerOf _ = EOF"

definition unclosed :: "Token \<Rightarrow> unit M" where
  "unclosed open' = errorfP (tok_Pos open')
     (Msg ''unclosed `%s` - add the `%s` that closes it''
        [AKind (tok_Kind open'), AKind (closerOf (tok_Kind open'))])"

text \<open>
  One round of the loop of \<open>closedBrackets\<close>, at token \<open>i\<close>. The two stacks have their top
  first; \<open>pop_to\<close> drops the brackets above the innermost one that \<open>k\<close> closes.
\<close>

fun pop_to :: "(nat \<Rightarrow> kind) \<Rightarrow> kind \<Rightarrow> nat list \<Rightarrow> nat list" where
  "pop_to kind_at k [] = []"
| "pop_to kind_at k (j # js) = (if closerOf (kind_at j) \<noteq> k then pop_to kind_at k js else j # js)"

definition angle_step :: "kind \<Rightarrow> nat \<Rightarrow> bool list \<times> nat list \<Rightarrow> bool list \<times> nat list" where
  "angle_step k i st =
     (case st of (closed, angles) \<Rightarrow>
        if k = LAngle then (closed, i # angles)
        else if k = RAngle
        then (case angles of [] \<Rightarrow> (closed, []) | a # as \<Rightarrow> (closed[a := True], as))
        else if k \<in> {Ident, KwMap, Dot, Comma, Question, LBracket, RBracket} then (closed, angles)
        else (closed, []))"

definition bracket_step :: "(nat \<Rightarrow> kind) \<Rightarrow> kind \<Rightarrow> nat \<Rightarrow> bool list \<times> nat list \<Rightarrow> bool list \<times> nat list" where
  "bracket_step kind_at k i st =
     (case st of (closed, brackets) \<Rightarrow>
        if k \<in> {LParen, LBracket, LBrace} then (closed, i # brackets)
        else if k \<in> {RParen, RBracket, RBrace}
        then (case pop_to kind_at k brackets of
                [] \<Rightarrow> (closed, brackets)
              | j # js \<Rightarrow> (closed[j := True], js))
        else (closed, brackets))"

definition bracket_round ::
    "(nat \<Rightarrow> kind) \<Rightarrow> bool list \<times> nat list \<times> nat list \<Rightarrow> nat \<Rightarrow> bool list \<times> nat list \<times> nat list" where
  "bracket_round kind_at st i =
     (case st of (closed, brackets, angles) \<Rightarrow>
        let (closed1, angles1) = angle_step (kind_at i) i (closed, angles);
            (closed2, brackets1) = bracket_step kind_at (kind_at i) i (closed1, brackets)
        in (closed2, brackets1, angles1))"

definition closedBrackets :: "Token list \<Rightarrow> bool list" where
  "closedBrackets toks =
     fst (foldl (bracket_round (\<lambda>i. tok_Kind (toks ! i)))
       (replicate (length toks) False, [], []) [0..<length toks])"

definition closes :: "nat \<Rightarrow> bool M" where
  "closes open' = do {
     c \<leftarrow> gets P_closed;
     whenM (c = None) (modify (\<lambda>s. s\<lparr>P_closed := Some (closedBrackets (P_tokens s))\<rparr>));
     c' \<leftarrow> gets (\<lambda>s. the (P_closed s));
     if open' < length c' then ret (c' ! open') else panic False }"

record plist =
  pl_open :: nat
  pl_closed :: bool

definition openList :: "plist M" where
  "openList = do {
     i \<leftarrow> gets P_pos;
     c \<leftarrow> closes i;
     _ \<leftarrow> advanceP;
     ret \<lparr>pl_open = i, pl_closed = c\<rparr> }"

definition opener :: "plist \<Rightarrow> Token M" where
  "opener l = tokenAt (int (pl_open l))"

definition closer :: "plist \<Rightarrow> kind M" where
  "closer l = do { t \<leftarrow> opener l; ret (closerOf (tok_Kind t)) }"

definition moreP :: "plist \<Rightarrow> bool M" where
  "moreP l = do {
     t \<leftarrow> peekP;
     k \<leftarrow> closer l;
     op \<leftarrow> opener l;
     ret (tok_Kind t \<noteq> k \<and> tok_Kind t \<noteq> EOF
          \<and> (pl_closed l \<or> pos_Line (tok_Pos t) = pos_Line (tok_Pos op))) }"

definition listSep :: "plist \<Rightarrow> string \<Rightarrow> bool M" where
  "listSep l element = do {
     t \<leftarrow> peekP;
     k \<leftarrow> closer l;
     if tok_Kind t = Comma then do { _ \<leftarrow> advanceP; ret True }
     else if tok_Kind t = k \<or> tok_Kind t = EOF then ret True
     else if \<not> pl_closed l then ret False
     else do {
       errorfP (tok_Pos t) (Msg (''expected '' @ [CHR 0x27] @ '','' @ [CHR 0x27] @ '' or '' @ [CHR 0x27]
          @ ''%s'' @ [CHR 0x27] @ '' after %s, got %s'')
          [AKind k, AStr element, AKind (tok_Kind t)]);
       ret True } }"

definition closeList :: "plist \<Rightarrow> Token M" where
  "closeList l = do {
     k \<leftarrow> closer l;
     here \<leftarrow> peekIs k;
     if here then advanceP
     else do {
       (if pl_closed l then do { _ \<leftarrow> expect k; ret () }
        else do { op \<leftarrow> opener l; unclosed op });
       t \<leftarrow> peekP;
       ret (empty_token (tok_Pos t)) } }"

section \<open>Lines and declarations\<close>

definition endLine :: "Token \<Rightarrow> nat" where
  "endLine t =
     (if tok_Kind t \<noteq> RawString then pos_Line (tok_Pos t)
      else pos_Line (tok_Pos t) + Count (tok_Text t) [CHR 0x0A] + Count (tok_Text t) [CHR 0x0D]
           - Count (tok_Text t) [CHR 0x0D, CHR 0x0A])"

definition startsLine :: "bool M" where
  "startsLine = do {
     i \<leftarrow> gets P_pos;
     if i = 0 then ret True
     else do {
       t \<leftarrow> peekP;
       prev \<leftarrow> prevToken;
       ret (pos_Line (tok_Pos t) > endLine prev) } }"

definition opensDeclaration :: "bool M" where
  "opensDeclaration = do {
     sl \<leftarrow> startsLine;
     if \<not> sl then ret False
     else do {
       t \<leftarrow> peekP;
       if tok_Kind t \<in> {KwType, KwEnum, KwService, KwEvent} then do {
         next2 \<leftarrow> peekAt 2;
         next1 \<leftarrow> peekAt 1;
         ret (tok_Kind next1 = Ident \<and> (tok_Kind next2 = LBrace \<or> tok_Kind next2 = LAngle)) }
       else if tok_Kind t = KwExtend then do {
         next1 \<leftarrow> peekAt 1;
         ret (tok_Kind next1 = KwService) }
       else ret False } }"

definition startsDecl :: "kind \<Rightarrow> bool" where
  "startsDecl k \<longleftrightarrow>
     k \<in> {KwType, KwEnum, KwError, KwScalar, KwMiddleware, KwEvent, KwService, KwExtend}"

definition startsDeclaration :: "bool M" where
  "startsDeclaration = do {
     t \<leftarrow> peekP;
     if tok_Kind t = KwPackage \<or> startsDecl (tok_Kind t) then ret True
     else if tok_Kind t = At then startsLine
     else ret False }"

definition upperVerb :: "Token \<Rightarrow> string \<times> bool" where
  "upperVerb t =
     (if tok_Kind t \<noteq> Ident then ([], False)
      else let lower = ToLower (tok_Text t)
           in (lower, case LookupKeyword lower of Some k \<Rightarrow> IsVerb k | None \<Rightarrow> False))"

definition startsMethod :: "bool M" where
  "startsMethod = do {
     t \<leftarrow> peekP;
     sl \<leftarrow> startsLine;
     ret (sl \<and> (IsVerb (tok_Kind t) \<or> snd (upperVerb t) \<or> tok_Kind t = At)) }"

text \<open>
  \<open>stop\<close> is \<open>None\<close> for a nil function. The result pairs the closing token with what the
  members built.
\<close>

definition body_ends :: "bool M option \<Rightarrow> bool \<Rightarrow> nat \<Rightarrow> bool M" where
  "body_ends stop opened open' = do {
     eof \<leftarrow> peekIs EOF;
     if eof then ret True
     else do {
       st \<leftarrow> (case stop of None \<Rightarrow> ret False | Some c \<Rightarrow> c);
       if st then ret True
       else do {
         od \<leftarrow> opensDeclaration;
         if \<not> od then ret False
         else if \<not> opened then ret True
         else do { c \<leftarrow> closes open'; ret (\<not> c) } } } }"

definition braced_round ::
    "bool M option \<Rightarrow> ('a \<Rightarrow> 'a M) \<Rightarrow> nat \<Rightarrow> Token \<Rightarrow> bool \<Rightarrow> 'a \<times> Token option \<Rightarrow>
     (bool \<times> 'a \<times> Token option) M" where
  "braced_round stop member open' lbrace opened = (\<lambda>(x, early). do {
     rb \<leftarrow> peekIs RBrace;
     if rb then ret (False, x, early)
     else do {
       done \<leftarrow> body_ends stop opened open';
       if done then do {
         whenM opened (unclosed lbrace);
         t \<leftarrow> peekP;
         ret (False, x, Some (empty_token (tok_Pos t))) }
       else do { x' \<leftarrow> forward (member x); ret (True, x', early) } } })"

definition braced :: "bool M option \<Rightarrow> ('a \<Rightarrow> 'a M) \<Rightarrow> 'a \<Rightarrow> (Token \<times> 'a) M" where
  "braced stop member x = do {
     open' \<leftarrow> gets P_pos;
     (lbrace, opened) \<leftarrow> expect LBrace;
     (x', early) \<leftarrow> loop (braced_round stop member open' lbrace opened) (x, None);
     case early of
       Some t \<Rightarrow> ret (t, x')
     | None \<Rightarrow> do { t \<leftarrow> advanceP; ret (t, x') } }"

section \<open>Skipping\<close>

definition skipLine :: "unit M" where
  "skipLine = do {
     t \<leftarrow> peekP;
     whileM (do { u \<leftarrow> peekP;
               ret (tok_Kind u \<noteq> EOF \<and> pos_Line (tok_Pos u) = pos_Line (tok_Pos t)) })
       (\<lambda>_. do { _ \<leftarrow> advanceP; ret () }) () }"

text \<open>The loop of \<open>skipParens\<close> carries \<open>parens\<close>, \<open>braces\<close> and the result.\<close>

definition skip_parens_body :: "int \<times> int \<times> bool \<Rightarrow> (bool \<times> int \<times> int \<times> bool) M" where
  "skip_parens_body = (\<lambda>(parens, braces, res). do {
     t \<leftarrow> peekP;
     if tok_Kind t = EOF then ret (False, parens, braces, False)
     else if tok_Kind t = LParen then do { _ \<leftarrow> advanceP; ret (True, parens + 1, braces, res) }
     else if tok_Kind t = RParen then do {
       _ \<leftarrow> advanceP;
       if parens - 1 = 0 then ret (False, parens - 1, braces, True)
       else ret (True, parens - 1, braces, res) }
     else if tok_Kind t = LBrace then do { _ \<leftarrow> advanceP; ret (True, parens, braces + 1, res) }
     else if tok_Kind t = RBrace then
       (if braces = 0 then ret (False, parens, braces, False)
        else do { _ \<leftarrow> advanceP; ret (True, parens, braces - 1, res) })
     else do { _ \<leftarrow> advanceP; ret (True, parens, braces, res) } })"

definition skipParens :: "bool M" where
  "skipParens = do {
     i \<leftarrow> gets P_pos;
     c \<leftarrow> closes i;
     if \<not> c then do { skipLine; ret False }
     else do {
       (_, _, res) \<leftarrow> loop skip_parens_body (0, 0, False);
       ret res } }"

definition skipBalanced :: "unit M" where
  "skipBalanced = do {
     _ \<leftarrow> loop (\<lambda>depth. do {
       eof \<leftarrow> peekIs EOF;
       if eof then ret (False, depth)
       else do {
         t \<leftarrow> advanceP;
         let depth' = (if tok_Kind t \<in> {LParen, LBracket, LBrace} then depth + 1
                       else if tok_Kind t \<in> {RParen, RBracket, RBrace} then depth - 1
                       else depth);
         ret (\<not> depth' \<le> 0, depth') } }) (0 :: int);
     ret () }"

definition skipUntil :: "bool \<Rightarrow> bool M \<Rightarrow> unit M" where
  "skipUntil inBody stop = do {
     skipBalanced;
     whileM (do {
         t \<leftarrow> peekP;
         if tok_Kind t = EOF \<or> inBody \<and> tok_Kind t = RBrace then ret False
         else do { st \<leftarrow> stop; ret (\<not> st) } })
       (\<lambda>_. skipBalanced) () }"

section \<open>Unknown keywords\<close>

definition edit_row :: "string \<Rightarrow> string \<Rightarrow> nat list \<Rightarrow> nat \<Rightarrow> nat list" where
  "edit_row a b prev i =
     foldl (\<lambda>cur j.
         let cost = (if a ! (i - 1) = b ! (j - 1) then 0 else 1)
         in cur[j := min (min (prev ! j + 1) (cur ! (j - 1) + 1)) (prev ! (j - 1) + cost)])
       ((replicate (length b + 1) 0)[0 := i]) [1..<length b + 1]"

definition editDistance :: "string \<Rightarrow> string \<Rightarrow> nat" where
  "editDistance a b = foldl (edit_row a b) [0..<length b + 1] [1..<length a + 1] ! length b"

definition declarationKeywords :: "string list" where
  "declarationKeywords = [''package'', ''type'', ''enum'', ''error'', ''scalar'', ''service'',
     ''extend'', ''middleware'', ''event'']"

definition best_keyword :: "string \<Rightarrow> string \<times> nat" where
  "best_keyword word =
     foldl (\<lambda>(best, bestDist) kw.
         let d = editDistance (ToLower word) kw
         in if d < bestDist then (kw, d) else (best, bestDist))
       ([], 3) declarationKeywords"

definition unknownKeyword :: "string \<Rightarrow> message" where
  "unknownKeyword word =
     (let best = fst (best_keyword word)
      in if best \<noteq> [] \<and> length word > 2
         then Msg ''unknown keyword `%s` - did you mean `%s`?'' [AStr word, AStr best]
         else Msg ''unknown keyword `%s` - a declaration starts with %s''
                [AStr word, AStr (Join (drop 1 declarationKeywords) '', '')])"

section \<open>Comments\<close>

definition claim :: "int \<Rightarrow> unit M" where
  "claim line = modify (\<lambda>s. s\<lparr>P_claimed := insert line (P_claimed s)\<rparr>)"

definition claimDoc :: "Token \<Rightarrow> unit M" where
  "claimDoc tok =
     foldr (\<lambda>i m. do { claim (int (pos_Line (tok_Pos tok)) - int (length (tok_Doc tok)) + int i); m })
       [0..<length (tok_Doc tok)] (ret ())"

definition docAbove :: "string list M" where
  "docAbove = do { t \<leftarrow> peekP; claimDoc t; ret (tok_Doc t) }"

definition decoratorLines :: "Decorator list \<Rightarrow> nat list" where
  "decoratorLines decs = map (\<lambda>d. pos_Line (dec_Pos d)) decs"

fun drop_lines :: "nat \<Rightarrow> nat \<Rightarrow> nat list \<Rightarrow> nat \<times> nat list" where
  "drop_lines line prev [] = (prev, [])"
| "drop_lines line prev (x # xs) = (if line \<ge> x then drop_lines line x xs else (prev, x # xs))"

primrec claim_between_loop :: "nat \<Rightarrow> nat list \<Rightarrow> Comment list \<Rightarrow> unit M" where
  "claim_between_loop prev lines [] = ret ()"
| "claim_between_loop prev lines (c # cs) = do {
     claimed \<leftarrow> gets P_claimed;
     let line = pos_Line (c_Pos c);
     if c_Kind c \<noteq> CommentLeading \<or> line \<le> prev \<or> int line \<in> claimed
     then claim_between_loop prev lines cs
     else (case drop_lines line prev lines of
       (prev', []) \<Rightarrow> ret ()
     | (prev', l # ls) \<Rightarrow> do {
         claim (int line);
         modify (\<lambda>s. s\<lparr>P_chainComments := (P_chainComments s)(l \<mapsto>
           (case P_chainComments s l of Some ts \<Rightarrow> ts | None \<Rightarrow> []) @ [c_Text c])\<rparr>);
         claim_between_loop prev' (l # ls) cs }) }"

definition claimBetween :: "nat \<Rightarrow> nat list \<Rightarrow> unit M" where
  "claimBetween start lines = do {
     cs \<leftarrow> gets P_allComments;
     claim_between_loop start lines cs }"

definition claimChain :: "Decorator list \<Rightarrow> nat \<Rightarrow> unit M" where
  "claimChain decs last' =
     (if decs = [] then ret ()
      else claimBetween (pos_Line (dec_Pos (hd decs))) (decoratorLines (tl decs) @ [last']))"

definition claimInside :: "nat \<Rightarrow> nat \<Rightarrow> unit M" where
  "claimInside open' close = do {
     cs \<leftarrow> gets P_allComments;
     foldr (\<lambda>c m. do {
         whenM (c_Kind c = CommentLeading \<and> pos_Line (c_Pos c) > open' \<and> pos_Line (c_Pos c) < close)
           (claim (int (pos_Line (c_Pos c))));
         m }) cs (ret ()) }"

text \<open>
  The loop of \<open>harvestFreeComments\<close>; \<open>cur\<close>, when it is not nil, is the last block of
  \<open>out\<close>, which the source extends through the pointer.
\<close>

primrec harvest_loop :: "int \<Rightarrow> int \<Rightarrow> FreeComment list \<Rightarrow> nat \<Rightarrow> Comment list \<Rightarrow> FreeComment list M" where
  "harvest_loop lo hi out lastLine [] = ret out"
| "harvest_loop lo hi out lastLine (c # cs) = do {
     claimed \<leftarrow> gets P_claimed;
     let line = pos_Line (c_Pos c);
     if c_Kind c \<noteq> CommentLeading \<or> int line \<le> lo \<or> int line \<ge> hi \<or> int line \<in> claimed
     then harvest_loop lo hi out lastLine cs
     else do {
       claim (int line);
       harvest_loop lo hi
         (if out \<noteq> [] \<and> line = lastLine + 1
          then butlast out @ [(last out)\<lparr>fc_Text := fc_Text (last out) @ [c_Text c]\<rparr>]
          else out @ [\<lparr>fc_Pos = c_Pos c, fc_Text = [c_Text c]\<rparr>])
         line cs } }"

definition harvestFreeComments :: "int \<Rightarrow> int \<Rightarrow> FreeComment list M" where
  "harvestFreeComments lo hi = do {
     cs \<leftarrow> gets P_allComments;
     harvest_loop lo hi [] 0 cs }"

fun merge_loop :: "('m \<Rightarrow> Position) \<Rightarrow> (FreeComment \<Rightarrow> 'm) \<Rightarrow> 'm list \<Rightarrow> FreeComment list \<Rightarrow> 'm list" where
  "merge_loop pos as [] [] = []"
| "merge_loop pos as [] (f # fs) = as f # merge_loop pos as [] fs"
| "merge_loop pos as (m # ms) [] = m # merge_loop pos as ms []"
| "merge_loop pos as (m # ms) (f # fs) =
     (if pos_Line (fc_Pos f) < pos_Line (pos m)
      then as f # merge_loop pos as (m # ms) fs
      else m # merge_loop pos as ms (f # fs))"

definition mergeFreeComments ::
    "('m \<Rightarrow> Position) \<Rightarrow> 'm list \<Rightarrow> FreeComment list \<Rightarrow> (FreeComment \<Rightarrow> 'm) \<Rightarrow> 'm list" where
  "mergeFreeComments pos members fcs asMember =
     (if fcs = [] then members else merge_loop pos asMember members fcs)"

end
