(* ===== verification/Parser_Syntax.thy ===== *)
theory Parser_Syntax
  imports Parser_State
begin

text \<open>
  The grammar: \<^verbatim>\<open>parser_types.go\<close>, \<^verbatim>\<open>parser_decorators.go\<close>, \<^verbatim>\<open>parser_decls.go\<close>,
  \<^verbatim>\<open>parser_service.go\<close> and \<open>New\<close> and \<open>Parse\<close> of \<^verbatim>\<open>parser.go\<close>. The methods that call each
  other recursively are written over the method they recurse through, and that one has the
  depth left as its fuel. A node the Go code returns as nil is \<open>None\<close>.
\<close>

section \<open>Type references\<close>

definition parseQualifiedIdent :: "QualifiedIdent M" where
  "parseQualifiedIdent = do {
     t \<leftarrow> peekP;
     (first, ok) \<leftarrow> expect Ident;
     if \<not> ok then ret \<lparr>qi_Pos = tok_Pos t, qi_Parts = []\<rparr>
     else do {
       parts \<leftarrow> loop (\<lambda>parts. do {
           dot \<leftarrow> peekIs Dot;
           if \<not> dot then ret (False, parts)
           else do {
             _ \<leftarrow> advanceP;
             (nxt, ok') \<leftarrow> expect Ident;
             if \<not> ok' then ret (False, parts) else ret (True, parts @ [tok_Text nxt]) } })
         [tok_Text first];
       ret \<lparr>qi_Pos = tok_Pos t, qi_Parts = parts\<rparr> } }"

definition parseMapType_with :: "type_ref M \<Rightarrow> map_type M" where
  "parseMapType_with parseTypeRef = do {
     t \<leftarrow> advanceP;
     angle \<leftarrow> peekIs LAngle;
     if \<not> angle then do {
       _ \<leftarrow> expect LAngle;
       key \<leftarrow> parseTypeRef;
       _ \<leftarrow> expect Comma;
       val \<leftarrow> parseTypeRef;
       ret (MapType (tok_Pos t) (Some key) (Some val)) }
     else do {
       l \<leftarrow> openList;
       key \<leftarrow> parseTypeRef;
       _ \<leftarrow> expect Comma;
       val \<leftarrow> parseTypeRef;
       op \<leftarrow> opener l;
       cl \<leftarrow> closeList l;
       claimInside (pos_Line (tok_Pos op)) (pos_Line (tok_Pos cl));
       ret (MapType (tok_Pos t) (Some key) (Some val)) } }"

definition parseNamedTypeRef_with :: "type_ref M \<Rightarrow> named_type_ref M" where
  "parseNamedTypeRef_with parseTypeRef = do {
     qi \<leftarrow> parseQualifiedIdent;
     angle \<leftarrow> peekIs LAngle;
     if \<not> angle then ret (NamedTypeRef (qi_Pos qi) (Some qi) [])
     else do {
       l \<leftarrow> openList;
       op \<leftarrow> opener l;
       empty \<leftarrow> peekIs RAngle;
       whenM empty (errorfP (tok_Pos op) (Msg ''type argument list cannot be empty'' []));
       args \<leftarrow> loop (\<lambda>args. do {
           m \<leftarrow> moreP l;
           if \<not> m then ret (False, args)
           else do {
             start \<leftarrow> gets P_pos;
             a \<leftarrow> parseTypeRef;
             sep \<leftarrow> listSep l ''type argument'';
             now \<leftarrow> gets P_pos;
             ret (sep \<and> now \<noteq> start, args @ [Some a]) } }) [];
       cl \<leftarrow> closeList l;
       claimInside (pos_Line (tok_Pos op)) (pos_Line (tok_Pos cl));
       ret (NamedTypeRef (qi_Pos qi) (Some qi) args) } }"

primrec parseTypeRef_fuel :: "nat \<Rightarrow> type_ref M" where
  "parseTypeRef_fuel 0 = panic (TypeRef zero_Position None None False False 0)"
| "parseTypeRef_fuel (Suc n) = do {
     t \<leftarrow> peekP;
     (mp, named) \<leftarrow>
       (if tok_Kind t = KwMap
        then do { m \<leftarrow> parseMapType_with (parseTypeRef_fuel n); ret (Some m, None) }
        else do { r \<leftarrow> parseNamedTypeRef_with (parseTypeRef_fuel n); ret (None, Some r) });
     depth \<leftarrow> whileM (peekIs LBracket)
       (\<lambda>d. do { _ \<leftarrow> advanceP; _ \<leftarrow> expect RBracket; ret (d + 1) }) 0;
     opt \<leftarrow> peekIs Question;
     whenM opt (do { _ \<leftarrow> advanceP; ret () });
     ret (TypeRef (tok_Pos t) mp named (depth > 0) opt depth) }"

definition parseTypeRef :: "type_ref M" where
  "parseTypeRef = do { n \<leftarrow> fuel; parseTypeRef_fuel n }"

definition parseMapType :: "map_type M" where
  "parseMapType = parseMapType_with parseTypeRef"

definition parseNamedTypeRef :: "named_type_ref M" where
  "parseNamedTypeRef = parseNamedTypeRef_with parseTypeRef"

section \<open>Decorator arguments\<close>

definition unquote :: "Token \<Rightarrow> string" where
  "unquote t = (case Unquote (tok_Text t) of Inl _ \<Rightarrow> [] | Inr v \<Rightarrow> v)"

definition signedInt :: "Position \<Rightarrow> Token \<Rightarrow> bool \<Rightarrow> int M" where
  "signedInt pos tok neg = do {
     let text' = (if neg then ''-'' @ tok_Text tok else tok_Text tok);
     let bound = (if neg then ''min -9223372036854775808'' else ''max 9223372036854775807'');
     let (n, ok) = ParseInt text';
     whenM (\<not> ok) (errorfP pos
       (Msg ''integer literal %s is outside the signed 64-bit range (%s)'' [AStr text', AStr bound]));
     ret n }"

definition floatP :: "Position \<Rightarrow> string \<Rightarrow> float64 M" where
  "floatP pos text' = do {
     let (f, ok) = ParseFloat text';
     whenM (\<not> ok) (errorfP pos
       (Msg ''float literal out of range: a float64 holds at most about 1.8e308'' []));
     ret f }"

definition skipDecorator :: "bool \<Rightarrow> unit M" where
  "skipDecorator mayClose = do {
     _ \<leftarrow> advanceP;
     t \<leftarrow> peekP;
     if tok_Kind t \<noteq> Ident \<and> \<not> IsKeyword (tok_Kind t) then ret ()
     else do {
       _ \<leftarrow> advanceP;
       paren \<leftarrow> peekIs LParen;
       if \<not> paren then ret ()
       else do {
         closed \<leftarrow> skipParens;
         if \<not> closed \<or> \<not> mayClose then ret ()
         else do {
           nxt \<leftarrow> peekP;
           prev \<leftarrow> prevToken;
           whenM (pos_Line (tok_Pos nxt) > pos_Line (tok_Pos prev)
                  \<and> tok_Kind nxt \<noteq> Comma \<and> tok_Kind nxt \<noteq> RParen)
             (modify (\<lambda>s. s\<lparr>P_pos := P_pos s - 1\<rparr>)) } } } }"

definition parseValue :: "string \<Rightarrow> kind \<Rightarrow> Expr M" where
  "parseValue dec closer' = do {
     t \<leftarrow> peekP;
     let pos = tok_Pos t;
     if tok_Kind t = At then do {
       errorfP pos (Msg ''a decorator cannot be an argument of @%s'' [AStr dec]);
       skipDecorator (closer' = RParen);
       ret (BadExpr pos) }
     else if tok_Kind t = String \<or> tok_Kind t = RawString then do {
       _ \<leftarrow> advanceP;
       ret (StringLit pos (unquote t) (tok_Text t)) }
     else if tok_Kind t = IntTok then do {
       _ \<leftarrow> advanceP;
       n \<leftarrow> signedInt pos t False;
       ret (IntLit pos n) }
     else if tok_Kind t = Float then do {
       _ \<leftarrow> advanceP;
       f \<leftarrow> floatP pos (tok_Text t);
       ret (FloatLit pos f (tok_Text t)) }
     else if tok_Kind t = KwTrue then do { _ \<leftarrow> advanceP; ret (BoolLit pos True) }
     else if tok_Kind t = KwFalse then do { _ \<leftarrow> advanceP; ret (BoolLit pos False) }
     else if tok_Kind t = KwNull then do { _ \<leftarrow> advanceP; ret (NullLit pos) }
     else if tok_Kind t = Duration then do { _ \<leftarrow> advanceP; ret (DurationLit pos (tok_Text t)) }
     else if tok_Kind t = Size then do { _ \<leftarrow> advanceP; ret (SizeLit pos (tok_Text t)) }
     else if tok_Kind t = Dash then do {
       _ \<leftarrow> advanceP;
       nxt \<leftarrow> peekP;
       if tok_Kind nxt = IntTok then do {
         _ \<leftarrow> advanceP;
         n \<leftarrow> signedInt pos nxt True;
         ret (IntLit pos n) }
       else if tok_Kind nxt = Float then do {
         _ \<leftarrow> advanceP;
         f \<leftarrow> floatP pos (''-'' @ tok_Text nxt);
         ret (FloatLit pos f (''-'' @ tok_Text nxt)) }
       else do {
         errorfP pos (Msg (''expected number after '' @ [CHR 0x27] @ ''-'' @ [CHR 0x27]) []);
         ret (BadExpr pos) } }
     else if tok_Kind t = Ident then do {
       qi \<leftarrow> parseQualifiedIdent;
       ret (IdentExpr (qi_Pos qi) (Some qi)) }
     else if IsKeyword (tok_Kind t) then do {
       _ \<leftarrow> advanceP;
       ret (IdentExpr pos (Some \<lparr>qi_Pos = pos, qi_Parts = [tok_Text t]\<rparr>)) }
     else do {
       errorfP pos (Msg ''expected literal, got %s'' [AKind (tok_Kind t)]);
       _ \<leftarrow> advanceP;
       ret (BadExpr pos) } }"

definition parseArray_with :: "(kind \<Rightarrow> Expr M) \<Rightarrow> Expr M" where
  "parseArray_with parseValueOrArray = do {
     t \<leftarrow> peekP;
     l \<leftarrow> openList;
     es \<leftarrow> loop (\<lambda>es. do {
         m \<leftarrow> moreP l;
         if \<not> m then ret (False, es)
         else do {
           e \<leftarrow> parseValueOrArray RBracket;
           sep \<leftarrow> listSep l ''array element'';
           ret (sep, es @ [e]) } }) [];
     _ \<leftarrow> closeList l;
     ret (ArrayLit (tok_Pos t) es) }"

primrec parseValueOrArray_fuel :: "nat \<Rightarrow> string \<Rightarrow> kind \<Rightarrow> Expr M" where
  "parseValueOrArray_fuel 0 dec closer' = panic (BadExpr zero_Position)"
| "parseValueOrArray_fuel (Suc n) dec closer' = do {
     arr \<leftarrow> peekIs LBracket;
     if arr then parseArray_with (parseValueOrArray_fuel n dec)
     else parseValue dec closer' }"

definition parseValueOrArray :: "string \<Rightarrow> kind \<Rightarrow> Expr M" where
  "parseValueOrArray dec closer' = do { n \<leftarrow> fuel; parseValueOrArray_fuel n dec closer' }"

definition expectFieldKey :: "string M" where
  "expectFieldKey = do {
     t \<leftarrow> peekP;
     if tok_Kind t = Ident \<or> IsKeyword (tok_Kind t) then do { _ \<leftarrow> advanceP; ret (tok_Text t) }
     else do {
       errorfP (tok_Pos t) (Msg ''expected object field name, got %s'' [AKind (tok_Kind t)]);
       ret [] } }"

definition parseObjectLiteral :: "string \<Rightarrow> ObjectField list M" where
  "parseObjectLiteral dec = do {
     l \<leftarrow> openList;
     fields \<leftarrow> loop (\<lambda>fields. do {
         m \<leftarrow> moreP l;
         if \<not> m then ret (False, fields)
         else do {
           t \<leftarrow> peekP;
           name \<leftarrow> expectFieldKey;
           _ \<leftarrow> expect Colon;
           val \<leftarrow> parseValueOrArray dec RBrace;
           sep \<leftarrow> listSep l ''object field'';
           ret (sep, fields @ [\<lparr>of_Pos = tok_Pos t, of_Name = name, of_Value = val\<rparr>]) } }) [];
     _ \<leftarrow> closeList l;
     ret fields }"

definition parseDecoratorArg :: "string \<Rightarrow> DecoratorArg M" where
  "parseDecoratorArg dec = do {
     t \<leftarrow> peekP;
     nxt \<leftarrow> peekAt 1;
     if tok_Kind t = LBrace then do {
       fs \<leftarrow> parseObjectLiteral dec;
       ret \<lparr>da_Pos = tok_Pos t, da_Name = [], da_Named = False, da_Value = None, da_Object = Some fs\<rparr> }
     else if tok_Kind t = Ident \<and> tok_Kind nxt = Colon then do {
       name \<leftarrow> advanceP;
       _ \<leftarrow> advanceP;
       v \<leftarrow> parseValueOrArray dec RParen;
       ret \<lparr>da_Pos = tok_Pos t, da_Name = tok_Text name, da_Named = True, da_Value = Some v,
            da_Object = None\<rparr> }
     else do {
       v \<leftarrow> parseValueOrArray dec RParen;
       ret \<lparr>da_Pos = tok_Pos t, da_Name = [], da_Named = False, da_Value = Some v,
            da_Object = None\<rparr> } }"

section \<open>Decorators\<close>

definition bad_arg :: "Position \<Rightarrow> DecoratorArg" where
  "bad_arg pos = \<lparr>da_Pos = pos, da_Name = [], da_Named = False, da_Value = Some (BadExpr pos),
     da_Object = None\<rparr>"

definition parseDecorator_args :: "Token \<Rightarrow> string \<Rightarrow> Decorator M" where
  "parseDecorator_args at name = do {
     l \<leftarrow> openList;
     errs \<leftarrow> gets (\<lambda>s. length (P_diags s));
     args \<leftarrow> loop (\<lambda>args. do {
         m \<leftarrow> moreP l;
         rb \<leftarrow> peekIs RBrace;
         if \<not> (m \<and> \<not> rb) then ret (False, args)
         else do {
           a \<leftarrow> parseDecoratorArg name;
           sep \<leftarrow> listSep l ''decorator argument'';
           ret (sep, args @ [a]) } }) [];
     rparen \<leftarrow> closeList l;
     now \<leftarrow> gets (\<lambda>s. length (P_diags s));
     let d = \<lparr>dec_Pos = tok_Pos at, dec_Name = name, dec_Args = args, dec_HasParens = True\<rparr>;
     let d' = (if (tok_Kind rparen \<noteq> RParen \<or> now > errs) \<and> \<not> HoldsBadExpr d
               then d\<lparr>dec_Args := args @ [bad_arg (tok_Pos rparen)]\<rparr> else d);
     claimInside (pos_Line (tok_Pos at)) (pos_Line (tok_Pos rparen));
     ret d' }"

definition parseDecorator :: "Decorator M" where
  "parseDecorator = do {
     at \<leftarrow> advanceP;
     nameTok \<leftarrow> peekP;
     let none = \<lparr>dec_Pos = tok_Pos at, dec_Name = [], dec_Args = [], dec_HasParens = False\<rparr>;
     if pos_Line (tok_Pos nameTok) \<noteq> pos_Line (tok_Pos at) then do {
       errorfP (tok_Pos at) (Msg ''expected decorator name after @ on its line'' []);
       ret none }
     else if tok_Kind nameTok \<noteq> Ident \<and> \<not> IsKeyword (tok_Kind nameTok) then do {
       errorfP (tok_Pos nameTok) (Msg ''expected decorator name, got %s'' [AKind (tok_Kind nameTok)]);
       ret none }
     else do {
       _ \<leftarrow> advanceP;
       paren \<leftarrow> peekIs LParen;
       if paren then parseDecorator_args at (tok_Text nameTok)
       else ret (none\<lparr>dec_Name := tok_Text nameTok\<rparr>) } }"

definition parseDecorators :: "Decorator list M" where
  "parseDecorators = whileM (peekIs At) (\<lambda>decs. do { d \<leftarrow> parseDecorator; ret (decs @ [d]) }) []"

definition decoratorsOnLine :: "nat \<Rightarrow> Decorator list M" where
  "decoratorsOnLine line = do {
     (_, decs) \<leftarrow> loop (\<lambda>(line, decs). do {
         t \<leftarrow> peekP;
         if \<not> (tok_Kind t = At \<and> pos_Line (tok_Pos t) = line) then ret (False, line, decs)
         else do {
           d \<leftarrow> parseDecorator;
           prev \<leftarrow> prevToken;
           ret (True, pos_Line (tok_Pos prev), decs @ [d]) } }) (line, []);
     ret decs }"

definition rejectDecoratorsAfter :: "string \<Rightarrow> (kind \<Rightarrow> bool) \<Rightarrow> unit M" where
  "rejectDecoratorsAfter what starts = do {
     pos \<leftarrow> gets P_pos;
     prev \<leftarrow> prevToken;
     decs \<leftarrow> decoratorsOnLine (pos_Line (tok_Pos prev));
     nxt \<leftarrow> peekP;
     last' \<leftarrow> prevToken;
     if decs \<noteq> [] \<and> pos_Line (tok_Pos nxt) = pos_Line (tok_Pos last') \<and> starts (tok_Kind nxt)
     then modify (\<lambda>s. s\<lparr>P_pos := pos\<rparr>)
     else foldr (\<lambda>d m. do {
         errorfP (dec_Pos d) (Msg ''decorator @%s follows a %s on its line; a decorator goes before what it decorates''
           [AStr (dec_Name d), AStr what]);
         m }) decs (ret ()) }"

definition rejectMixinDecorators :: "Position \<Rightarrow> Decorator list \<Rightarrow> unit M" where
  "rejectMixinDecorators mixinPos decs =
     foldr (\<lambda>d m. do {
         errorfP (dec_Pos d) (Msg ''decorators are not supported on mixin references (@%s near %s); attach the decorator to the target type or to a field that uses it''
           [AStr (dec_Name d), APos mixinPos]);
         m }) decs (ret ())"

definition memberHead :: "(string list \<times> Decorator list \<times> Token) M" where
  "memberHead = do {
     doc \<leftarrow> docAbove;
     decs \<leftarrow> parseDecorators;
     t \<leftarrow> peekP;
     claimChain decs (pos_Line (tok_Pos t));
     ret (if decs \<noteq> [] then doc @ tok_Doc t else doc, decs, t) }"

definition danglingDecorators :: "Decorator list \<Rightarrow> string \<Rightarrow> unit M" where
  "danglingDecorators decs what =
     (if list_ex HoldsBadExpr decs then ret ()
      else errorfP (dec_Pos (hd decs)) (Msg ''decorator @%s has no %s below it: a decorator on a line of its own decorates the %s below it - move it onto the line of the %s it belongs to''
        [AStr (dec_Name (hd decs)), AStr what, AStr what, AStr what]))"

section \<open>Type declarations\<close>

definition parseTypeParams :: "string list M" where
  "parseTypeParams = do {
     l \<leftarrow> openList;
     t \<leftarrow> peekP;
     if tok_Kind t = RAngle then do {
       errorfP (tok_Pos t) (Msg ''type params list cannot be empty'' []);
       _ \<leftarrow> advanceP;
       ret [] }
     else do {
       params \<leftarrow> loop (\<lambda>params. do {
           m \<leftarrow> moreP l;
           if \<not> m then ret (False, params)
           else do {
             (t, ok) \<leftarrow> expect Ident;
             if \<not> ok then ret (False, params)
             else do {
               let dup = tok_Text t \<in> set params;
               whenM dup (errorfP (tok_Pos t) (Msg ''duplicate type parameter %q'' [AStr (tok_Text t)]));
               let params' = (if dup then params else params @ [tok_Text t]);
               sep \<leftarrow> listSep l ''type parameter'';
               ret (sep, params') } } }) [];
       op \<leftarrow> opener l;
       cl \<leftarrow> closeList l;
       claimInside (pos_Line (tok_Pos op)) (pos_Line (tok_Pos cl));
       ret params } }"

definition isFieldFollower :: "Token \<Rightarrow> nat \<Rightarrow> bool" where
  "isFieldFollower nxt sameLine =
     (if pos_Line (tok_Pos nxt) \<noteq> sameLine then False
      else if tok_Kind nxt = KwMap then True
      else if tok_Kind nxt \<noteq> Ident then False
      else Prims.Is (tok_Text nxt))"

text \<open>
  \<open>isUpperFirst\<close>, on the text of an identifier, which is ASCII.
\<close>

definition isUpperFirst :: "string \<Rightarrow> bool" where
  "isUpperFirst s =
     (if s = [] then False
      else let r = fst (DecodeRuneInString s) in 65 \<le> r \<and> r \<le> 90)"

definition parseField :: "string list \<Rightarrow> Decorator list \<Rightarrow> Field M" where
  "parseField doc decs = do {
     name \<leftarrow> advanceP;
     tref \<leftarrow> parseTypeRef;
     prev \<leftarrow> prevToken;
     trailing \<leftarrow> decoratorsOnLine (pos_Line (tok_Pos prev));
     ret \<lparr>fd_Pos = tok_Pos name, fd_Doc = doc, fd_Name = tok_Text name, fd_Type = Some tref,
          fd_Decorators = decs @ trailing\<rparr> }"

definition rejectMixinTrailingDecorators :: "Position \<Rightarrow> unit M" where
  "rejectMixinTrailingDecorators pos = do {
     prev \<leftarrow> prevToken;
     decs \<leftarrow> decoratorsOnLine (pos_Line (tok_Pos prev));
     rejectMixinDecorators pos decs }"

definition parseTypeMember :: "TypeMember option M" where
  "parseTypeMember = do {
     (doc, decs, t) \<leftarrow> memberHead;
     if decs \<noteq> [] \<and> (tok_Kind t = RBrace \<or> tok_Kind t = EOF) then do {
       danglingDecorators decs ''field'';
       ret None }
     else if IsKeyword (tok_Kind t) then do { f \<leftarrow> parseField doc decs; ret (Some (TM_Field f)) }
     else if tok_Kind t \<noteq> Ident then do {
       errorfP (tok_Pos t) (Msg ''expected field or mixin, got %s'' [AKind (tok_Kind t)]);
       skipUntil True startsLine;
       ret None }
     else do {
       nxt \<leftarrow> peekAt 1;
       if tok_Kind nxt \<noteq> Dot \<and> tok_Kind nxt \<noteq> LAngle
          \<and> (isFieldFollower nxt (pos_Line (tok_Pos t)) \<or> \<not> isUpperFirst (tok_Text t))
       then do { f \<leftarrow> parseField doc decs; ret (Some (TM_Field f)) }
       else do {
         ref \<leftarrow> parseNamedTypeRef;
         rejectMixinDecorators (tok_Pos t) decs;
         rejectMixinTrailingDecorators (tok_Pos t);
         ret (Some (TM_Mixin \<lparr>mx_Pos = tok_Pos t, mx_Doc = doc, mx_Ref = Some ref\<rparr>)) } } }"

text \<open>A member closure: parse one, and append it when it is not nil.\<close>

definition append_some :: "'b option M \<Rightarrow> ('b \<Rightarrow> 'a) \<Rightarrow> 'a list \<Rightarrow> 'a list M" where
  "append_some p wrap xs = do {
     m \<leftarrow> p;
     ret (case m of Some y \<Rightarrow> xs @ [wrap y] | None \<Rightarrow> xs) }"

definition parseTypeBody :: "nat \<Rightarrow> (TypeMember list \<times> Token) M" where
  "parseTypeBody header = do {
     (rbrace, members) \<leftarrow> braced None (append_some parseTypeMember id) [];
     fcs \<leftarrow> harvestFreeComments (int header) (int (pos_Line (tok_Pos rbrace)));
     ret (mergeFreeComments TypeMember_Pos members fcs TM_FreeComment, rbrace) }"

definition parseTypeDecl :: "Decorator list \<Rightarrow> string list \<Rightarrow> TypeDecl M" where
  "parseTypeDecl decs doc = do {
     kw \<leftarrow> advanceP;
     (name, _) \<leftarrow> expect Ident;
     angle \<leftarrow> peekIs LAngle;
     params \<leftarrow> (if angle then parseTypeParams else ret []);
     let td = \<lparr>td_Pos = tok_Pos kw, td_NamePos = tok_Pos name, td_Decorators = decs, td_Doc = doc,
        td_Name = tok_Text name, td_TypeParams = params, td_Body = [], td_EndPos = zero_Position\<rparr>;
     brace \<leftarrow> peekIs LBrace;
     if \<not> brace then do { _ \<leftarrow> expect LBrace; ret td }
     else do {
       (body, rbrace) \<leftarrow> parseTypeBody (pos_Line (tok_Pos kw));
       ret (td\<lparr>td_Body := body, td_EndPos := tok_Pos rbrace\<rparr>) } }"

section \<open>Enums, errors, scalars and middleware\<close>

definition parseEnumLiteral :: "EnumValue \<Rightarrow> EnumValue M" where
  "parseEnumLiteral v = do {
     t \<leftarrow> peekP;
     if tok_Kind t = IntTok then do {
       tok \<leftarrow> advanceP;
       n \<leftarrow> signedInt (tok_Pos tok) tok False;
       ret (v\<lparr>ev_IntValue := n, ev_Kind := EnumInt\<rparr>) }
     else if tok_Kind t = String then do {
       tok \<leftarrow> advanceP;
       ret (v\<lparr>ev_StrValue := unquote tok, ev_StrText := tok_Text tok, ev_Kind := EnumString\<rparr>) }
     else if tok_Kind t = Dash then do {
       dash \<leftarrow> advanceP;
       t' \<leftarrow> peekP;
       if tok_Kind t' \<noteq> IntTok then do {
         errorfP (tok_Pos t') (Msg (''expected integer after '' @ [CHR 0x27] @ ''-'' @ [CHR 0x27] @ '' in enum value'') []);
         ret v }
       else do {
         tok \<leftarrow> advanceP;
         n \<leftarrow> signedInt (tok_Pos dash) tok True;
         ret (v\<lparr>ev_IntValue := n, ev_Kind := EnumInt\<rparr>) } }
     else do {
       errorfP (tok_Pos t) (Msg ''expected int or string for enum value'' []);
       ret v } }"

definition parseEnumValue :: "EnumValue option M" where
  "parseEnumValue = do {
     at \<leftarrow> peekP;
     eq \<leftarrow> peekAt 2;
     whenM (tok_Kind at = At \<and> tok_Kind eq = Equal) (do {
       errorfP (tok_Pos at) (Msg ''expected enum value name, got %s'' [AKind At]);
       _ \<leftarrow> advanceP;
       ret () });
     (doc, decs, t) \<leftarrow> memberHead;
     if decs \<noteq> [] \<and> (tok_Kind t = RBrace \<or> tok_Kind t = EOF) then do {
       danglingDecorators decs ''enum value'';
       ret None }
     else if tok_Kind t = RBrace then ret None
     else if tok_Kind t \<noteq> Ident \<and> \<not> IsKeyword (tok_Kind t) then do {
       errorfP (tok_Pos t) (Msg ''expected enum value name, got %s'' [AKind (tok_Kind t)]);
       whenM (tok_Kind t \<noteq> EOF) (skipUntil True startsLine);
       ret None }
     else do {
       _ \<leftarrow> advanceP;
       let v = \<lparr>ev_Pos = tok_Pos t, ev_Doc = doc, ev_Name = tok_Text t, ev_Kind = EnumBare,
          ev_IntValue = 0, ev_StrValue = [], ev_StrText = [], ev_Decorators = decs\<rparr>;
       eq' \<leftarrow> peekIs Equal;
       v' \<leftarrow> (if eq' then do { _ \<leftarrow> advanceP; parseEnumLiteral v } else ret v);
       prev \<leftarrow> prevToken;
       trailing \<leftarrow> decoratorsOnLine (pos_Line (tok_Pos prev));
       ret (Some (v'\<lparr>ev_Decorators := ev_Decorators v' @ trailing\<rparr>)) } }"

definition parseEnumDecl :: "Decorator list \<Rightarrow> string list \<Rightarrow> EnumDecl M" where
  "parseEnumDecl decs doc = do {
     kw \<leftarrow> advanceP;
     (name, _) \<leftarrow> expect Ident;
     (rbrace, members) \<leftarrow> braced None (append_some parseEnumValue EM_Value) [];
     fcs \<leftarrow> harvestFreeComments (int (pos_Line (tok_Pos kw))) (int (pos_Line (tok_Pos rbrace)));
     ret \<lparr>ed_Pos = tok_Pos kw, ed_NamePos = tok_Pos name, ed_Decorators = decs, ed_Doc = doc,
          ed_Name = tok_Text name,
          ed_Members = mergeFreeComments EnumMember_Pos members fcs EM_FreeComment,
          ed_EndPos = tok_Pos rbrace\<rparr> }"

definition parseErrorDecl :: "Decorator list \<Rightarrow> string list \<Rightarrow> ErrorDecl M" where
  "parseErrorDecl decs doc = do {
     kw \<leftarrow> advanceP;
     (cat, _) \<leftarrow> expect Ident;
     whenM (tok_Text cat \<noteq> [] \<and> \<not> IsCategory (tok_Text cat))
       (errorfP (tok_Pos cat) (Msg ''unknown error category %q'' [AStr (tok_Text cat)]));
     (name, _) \<leftarrow> expect Ident;
     let ed = \<lparr>er_Pos = tok_Pos kw, er_NamePos = tok_Pos name, er_Decorators = decs, er_Doc = doc,
        er_Category = tok_Text cat, er_Name = tok_Text name, er_Body = [], er_HasBody = False,
        er_EndPos = zero_Position\<rparr>;
     brace \<leftarrow> peekIs LBrace;
     if brace then do {
       (body, rbrace) \<leftarrow> parseTypeBody (pos_Line (tok_Pos kw));
       ret (ed\<lparr>er_HasBody := True, er_Body := body, er_EndPos := tok_Pos rbrace\<rparr>) }
     else ret ed }"

definition parseScalarDecl :: "Decorator list \<Rightarrow> string list \<Rightarrow> ScalarDecl M" where
  "parseScalarDecl decs doc = do {
     kw \<leftarrow> advanceP;
     (name, _) \<leftarrow> expect Ident;
     (prim, _) \<leftarrow> expect Ident;
     trailing \<leftarrow> decoratorsOnLine (pos_Line (tok_Pos prim));
     ret \<lparr>sc_Pos = tok_Pos kw, sc_NamePos = tok_Pos name, sc_Decorators = decs @ trailing,
          sc_Doc = doc, sc_Name = tok_Text name, sc_Primitive = tok_Text prim\<rparr> }"

definition parseMiddlewareDecl :: "Decorator list \<Rightarrow> string list \<Rightarrow> MiddlewareDecl M" where
  "parseMiddlewareDecl decs doc = do {
     kw \<leftarrow> advanceP;
     (name, _) \<leftarrow> expect Ident;
     t \<leftarrow> peekP;
     whenM (tok_Kind t = LParen) (do {
       errorfP (tok_Pos t) (Msg ''middleware declaration takes no parameters - configuration lives in the generated impl file, not the DSL'' []);
       _ \<leftarrow> skipParens;
       ret () });
     ret \<lparr>mw_Pos = tok_Pos kw, mw_NamePos = tok_Pos name, mw_Decorators = decs, mw_Doc = doc,
          mw_Name = tok_Text name\<rparr> }"

section \<open>Services and events\<close>

record memberBody =
  mb_Comments :: "FreeComment list"
  mb_EndPos :: Position

definition parseMemberBody ::
    "nat \<Rightarrow> bool M option \<Rightarrow> (Token \<Rightarrow> 'a \<Rightarrow> (bool \<times> 'a) M) \<Rightarrow> string \<Rightarrow> 'a \<Rightarrow> (memberBody \<times> 'a) M" where
  "parseMemberBody header stop fn expected x = do {
     (rbrace, x') \<leftarrow> braced stop (\<lambda>x. do {
         t \<leftarrow> peekP;
         (known, x') \<leftarrow> fn t x;
         if known then ret x'
         else do {
           t' \<leftarrow> peekP;
           errorfP (tok_Pos t') (Msg ''expected %s, got %s'' [AStr expected, AKind (tok_Kind t')]);
           skipUntil True startsLine;
           ret x' } }) x;
     fcs \<leftarrow> harvestFreeComments (int header) (int (pos_Line (tok_Pos rbrace)));
     ret (\<lparr>mb_Comments = fcs, mb_EndPos = tok_Pos rbrace\<rparr>, x') }"

definition rejectOptionalSuffix :: "string \<Rightarrow> unit M" where
  "rejectOptionalSuffix slot = do {
     t \<leftarrow> peekP;
     if tok_Kind t \<noteq> Question then ret ()
     else do {
       errorfP (tok_Pos t) (Msg ''%s type cannot be optional - omit the `?` (use a struct field with `?` if a nullable payload is needed)''
         [AStr slot]);
       _ \<leftarrow> advanceP;
       ret () } }"

definition rejectMethodTypeSuffix :: "string \<Rightarrow> unit M" where
  "rejectMethodTypeSuffix slot = do {
     t \<leftarrow> peekP;
     if tok_Kind t \<noteq> LBracket then rejectOptionalSuffix slot
     else do {
       errorfP (tok_Pos t) (Msg ''%s type cannot be a bare array - wrap it in a type (e.g. `type Items { items Order[] }`) and reference that type instead''
         [AStr slot]);
       _ \<leftarrow> advanceP;
       close \<leftarrow> peekIs RBracket;
       whenM close (do { _ \<leftarrow> advanceP; ret () }) } }"

definition parseEventPayloadSuffix :: "EventPayload \<Rightarrow> EventPayload M" where
  "parseEventPayloadSuffix pl = do {
     pl' \<leftarrow> whileM (peekIs LBracket) (\<lambda>pl. do {
         t \<leftarrow> advanceP;
         _ \<leftarrow> expect RBracket;
         if ep_Array pl then do {
           errorfP (tok_Pos t) (Msg ''payload type cannot be a nested array - a payload is a type or an array of one; wrap the inner array in a type instead'' []);
           ret pl }
         else ret (pl\<lparr>ep_Array := True\<rparr>) }) pl;
     rejectOptionalSuffix ''payload'';
     ret pl' }"

definition isPathWordToken :: "kind \<Rightarrow> bool" where
  "isPathWordToken k \<longleftrightarrow> k = Ident \<or> IsKeyword k"

text \<open>A round of the loop of \<open>parsePath\<close>: the segment after \<open>slash\<close>, and the round from the slash.\<close>

definition path_segment :: "Token \<Rightarrow> PathSegment list \<Rightarrow> (bool \<times> PathSegment list) M" where
  "path_segment slash segs = do {
     seg \<leftarrow> peekP;
     n1 \<leftarrow> peekAt 1;
     n2 \<leftarrow> peekAt 2;
     if tok_Kind seg = LBrace \<and> isPathWordToken (tok_Kind n1) \<and> tok_Kind n2 = RBrace then do {
       _ \<leftarrow> advanceP;
       nameTok \<leftarrow> advanceP;
       _ \<leftarrow> expect RBrace;
       ret (True, segs @ [\<lparr>ps_Pos = tok_Pos seg, ps_Param = True, ps_Literal = tok_Text nameTok\<rparr>]) }
     else if tok_Kind seg = PathWord then do {
       w \<leftarrow> advanceP;
       ret (True, segs @ [\<lparr>ps_Pos = tok_Pos seg, ps_Param = False, ps_Literal = tok_Text w\<rparr>]) }
     else if tok_Kind seg = Slash then do {
       errorfP (tok_Pos slash) (Msg (''empty path segment ('' @ [CHR 0x27] @ ''//'' @ [CHR 0x27] @ '')'') []);
       ret (True, segs) }
     else if segs \<noteq> [] then do {
       errorfP (tok_Pos seg) (Msg (''path ends with '' @ [CHR 0x27] @ ''/'' @ [CHR 0x27]) []);
       ret (False, segs) }
     else ret (False, segs @ [\<lparr>ps_Pos = tok_Pos seg, ps_Param = False, ps_Literal = []\<rparr>]) }"

definition path_round :: "PathSegment list \<Rightarrow> (bool \<times> PathSegment list) M" where
  "path_round segs = do {
     isSlash \<leftarrow> peekIs Slash;
     if \<not> isSlash then ret (False, segs)
     else do { slash \<leftarrow> advanceP; path_segment slash segs } }"

definition parsePath :: "Path M" where
  "parsePath = do {
     t \<leftarrow> peekP;
     segs \<leftarrow> loop path_round [];
     ret \<lparr>pa_Pos = tok_Pos t, pa_Segments = segs\<rparr> }"

text \<open>The clause closure of \<open>parseMethod\<close>, over the \<open>Request\<close> and \<open>Response\<close> it assigns.\<close>

definition method_clause ::
    "string \<Rightarrow> Token \<Rightarrow> named_type_ref option \<times> MethodResponse option \<Rightarrow>
     (bool \<times> named_type_ref option \<times> MethodResponse option) M" where
  "method_clause name tok rr =
     (case rr of (req, resp) \<Rightarrow>
        if tok_Kind tok = KwRequest then do {
          kw \<leftarrow> advanceP;
          whenM (req \<noteq> None) (errorfP (tok_Pos kw) (Msg ''duplicate request clause in method %q'' [AStr name]));
          r \<leftarrow> parseNamedTypeRef;
          rejectMethodTypeSuffix ''request'';
          ret (True, Some r, resp) }
        else if tok_Kind tok = KwResponse then do {
          kw \<leftarrow> advanceP;
          whenM (resp \<noteq> None) (errorfP (tok_Pos kw) (Msg ''duplicate response clause in method %q'' [AStr name]));
          t \<leftarrow> peekP;
          r \<leftarrow> parseNamedTypeRef;
          rejectMethodTypeSuffix ''response'';
          ret (True, req, Some \<lparr>mr_Pos = tok_Pos t, mr_Type = r\<rparr>) }
        else ret (False, req, resp))"

definition parseMethod :: "Decorator list \<Rightarrow> string list \<Rightarrow> string \<Rightarrow> Method M" where
  "parseMethod decs doc verb = do {
     verbTok \<leftarrow> advanceP;
     (name, _) \<leftarrow> expect Ident;
     slash \<leftarrow> peekIs Slash;
     path \<leftarrow> (if slash then do { p \<leftarrow> parsePath; ret (Some p) } else ret None);
     (body, req, resp) \<leftarrow> parseMemberBody (pos_Line (tok_Pos verbTok)) (Some startsMethod)
       (method_clause (tok_Text name)) ''request or response in method body'' (None, None);
     ret \<lparr>me_Pos = tok_Pos verbTok, me_NamePos = tok_Pos name, me_Decorators = decs, me_Doc = doc,
          me_Verb = verb, me_Name = tok_Text name, me_Path = path, me_Request = req,
          me_Response = resp, me_BodyComments = mb_Comments body, me_EndPos = mb_EndPos body\<rparr> }"

definition event_clause ::
    "string \<Rightarrow> Token \<Rightarrow> EventPayload option \<Rightarrow> (bool \<times> EventPayload option) M" where
  "event_clause name tok payload =
     (if tok_Kind tok \<noteq> KwPayload then ret (False, payload)
      else do {
        kw \<leftarrow> advanceP;
        whenM (payload \<noteq> None) (errorfP (tok_Pos kw) (Msg ''duplicate payload clause in event %q'' [AStr name]));
        t \<leftarrow> peekP;
        r \<leftarrow> parseNamedTypeRef;
        pl \<leftarrow> parseEventPayloadSuffix \<lparr>ep_Pos = tok_Pos t, ep_Type = r, ep_Array = False\<rparr>;
        ret (True, Some pl) })"

definition parseEventDecl :: "Decorator list \<Rightarrow> string list \<Rightarrow> EventDecl M" where
  "parseEventDecl decs doc = do {
     t \<leftarrow> advanceP;
     (name, _) \<leftarrow> expect Ident;
     (body, payload) \<leftarrow> parseMemberBody (pos_Line (tok_Pos t)) None
       (event_clause (tok_Text name)) ''payload in event body'' None;
     ret \<lparr>en_Pos = tok_Pos t, en_NamePos = tok_Pos name, en_Decorators = decs, en_Doc = doc,
          en_Name = tok_Text name, en_Payload = payload, en_BodyComments = mb_Comments body,
          en_EndPos = mb_EndPos body\<rparr> }"

definition serviceMemberError :: "Token \<Rightarrow> message" where
  "serviceMemberError t =
     (if tok_Kind t = KwEvent
      then Msg ''`event` is a file-level declaration - move `event ... { payload ... }` out of the service body; a service holds HTTP methods only'' []
      else if tok_Kind t = Ident \<and> tok_Text t = ''consume''
      then Msg ''a service has no `consume` member - which events a deployable listens to is Go code, written where its bus is built'' []
      else Msg ''expected an HTTP verb, got %s'' [AKind (tok_Kind t)])"

definition parseServiceMember :: "Method option M" where
  "parseServiceMember = do {
     doc \<leftarrow> docAbove;
     decs \<leftarrow> parseDecorators;
     t \<leftarrow> peekP;
     let (low, upper) = upperVerb t;
     if IsVerb (tok_Kind t) \<or> upper then do {
       whenM (\<not> IsVerb (tok_Kind t))
         (errorfP (tok_Pos t) (Msg ''HTTP verbs are lower case - write `%s`'' [AStr low]));
       claimChain decs (pos_Line (tok_Pos t));
       m \<leftarrow> parseMethod decs doc (if IsVerb (tok_Kind t) then tok_Text t else low);
       rejectDecoratorsAfter ''method'' IsVerb;
       ret (Some m) }
     else do {
       errorfP (tok_Pos t) (Msg ''%s'' [AErr (serviceMemberError t)]);
       whenM (tok_Kind t \<noteq> RBrace \<and> tok_Kind t \<noteq> EOF)
         (skipUntil True (do {
            a \<leftarrow> startsMethod;
            if a then ret True else opensDeclaration }));
       ret None } }"

definition parseServiceDecl :: "Decorator list \<Rightarrow> string list \<Rightarrow> nat \<Rightarrow> bool \<Rightarrow> ServiceDecl M" where
  "parseServiceDecl decs doc header ext = do {
     kw \<leftarrow> advanceP;
     (name, _) \<leftarrow> expect Ident;
     (rbrace, members) \<leftarrow> braced None (append_some parseServiceMember SM_Method) [];
     fcs \<leftarrow> harvestFreeComments (int header) (int (pos_Line (tok_Pos rbrace)));
     ret \<lparr>sv_Pos = tok_Pos kw, sv_NamePos = tok_Pos name, sv_Decorators = decs, sv_Doc = doc,
          sv_Name = tok_Text name,
          sv_Members = mergeFreeComments ServiceMember_Pos members fcs SM_FreeComment,
          sv_Extend = ext, sv_EndPos = tok_Pos rbrace\<rparr> }"

definition parseExtendService :: "Decorator list \<Rightarrow> string list \<Rightarrow> Decl option M" where
  "parseExtendService decs doc = do {
     ext \<leftarrow> advanceP;
     t \<leftarrow> peekP;
     if tok_Kind t \<noteq> KwService then do {
       errorfP (tok_Pos t) (Msg (''expected '' @ [CHR 0x27] @ ''service'' @ [CHR 0x27] @ '' after ''
          @ [CHR 0x27] @ ''extend'' @ [CHR 0x27]) []);
       (if tok_Kind t = EOF then ret ()
        else do {
          st \<leftarrow> startsDeclaration;
          whenM (\<not> st) (skipUntil False startsDeclaration) });
       ret None }
     else do {
       d \<leftarrow> parseServiceDecl decs doc (pos_Line (tok_Pos ext)) True;
       ret (Some (D_Service d)) } }"

section \<open>Files\<close>

definition parsePackage :: "PackageDecl M" where
  "parsePackage = do {
     pkgTok \<leftarrow> advanceP;
     claimDoc pkgTok;
     (name, _) \<leftarrow> expect Ident;
     ret \<lparr>pd_Pos = tok_Pos name, pd_Doc = tok_Doc pkgTok, pd_Name = tok_Text name\<rparr> }"

definition no_declaration :: "Token \<Rightarrow> Decl option M" where
  "no_declaration t =
     (if tok_Kind t = Ident \<and> tok_Text t = ''import'' then do {
        errorfP (tok_Pos t) (Msg (''`import` was removed - reference another package'' @ [CHR 0x27]
          @ ''s declaration as `pkg.Type`; delete this line'') []);
        skipLine;
        ret None }
      else do {
        (if tok_Kind t = Ident \<and> tok_Text t = ''consume''
         then errorfP (tok_Pos t) (Msg ''there is no `consume` declaration - which events a deployable listens to is Go code, written where its bus is built'' [])
         else if tok_Kind t = Ident
         then errorfP (tok_Pos t) (Msg ''%s'' [AErr (unknownKeyword (tok_Text t))])
         else errorfP (tok_Pos t) (Msg ''expected declaration, got %s'' [AKind (tok_Kind t)]));
        skipUntil False startsDeclaration;
        ret None })"

definition parseTopLevelWith :: "Decorator list \<Rightarrow> Decl option M" where
  "parseTopLevelWith extra = do {
     doc0 \<leftarrow> (if extra = [] then docAbove else ret []);
     more' \<leftarrow> parseDecorators;
     let decs = extra @ more';
     t \<leftarrow> peekP;
     claimChain decs (pos_Line (tok_Pos t));
     let doc = (if decs \<noteq> [] then doc0 @ tok_Doc t else doc0);
     if tok_Kind t = KwType then do { d \<leftarrow> parseTypeDecl decs doc; ret (Some (D_Type d)) }
     else if tok_Kind t = KwEnum then do { d \<leftarrow> parseEnumDecl decs doc; ret (Some (D_Enum d)) }
     else if tok_Kind t = KwError then do { d \<leftarrow> parseErrorDecl decs doc; ret (Some (D_Error d)) }
     else if tok_Kind t = KwScalar then do { d \<leftarrow> parseScalarDecl decs doc; ret (Some (D_Scalar d)) }
     else if tok_Kind t = KwMiddleware then do { d \<leftarrow> parseMiddlewareDecl decs doc; ret (Some (D_Middleware d)) }
     else if tok_Kind t = KwEvent then do { d \<leftarrow> parseEventDecl decs doc; ret (Some (D_Event d)) }
     else if tok_Kind t = KwService
     then do { d \<leftarrow> parseServiceDecl decs doc (pos_Line (tok_Pos t)) False; ret (Some (D_Service d)) }
     else if tok_Kind t = KwExtend then parseExtendService decs doc
     else if tok_Kind t = EOF then do {
       (if decs \<noteq> [] then errorfP (dec_Pos (hd decs)) (Msg ''decorators without a declaration to attach to'' []) else ret ());
       ret None }
     else no_declaration t }"

definition parse_decls :: "Decorator list \<Rightarrow> (Decorator list \<times> Decl list) M" where
  "parse_decls leading =
     each EOF (\<lambda>(leading, decls). do {
       d \<leftarrow> parseTopLevelWith leading;
       case d of
         None \<Rightarrow> ret ([], decls)
       | Some d \<Rightarrow> do {
           rejectDecoratorsAfter ''declaration'' startsDecl;
           ret ([], decls @ [d]) } }) (leading, [])"

definition parse_header :: "(string list \<times> Decorator list \<times> Decorator list \<times> PackageDecl option) M" where
  "parse_header = do {
     at \<leftarrow> peekIs At;
     leadingDoc \<leftarrow> (if at then docAbove else ret []);
     leading \<leftarrow> parseDecorators;
     pkg \<leftarrow> peekIs KwPackage;
     if pkg then do {
       (if leading \<noteq> [] then claimChain leading (pos_Line (dec_Pos (last leading))) else ret ());
       p \<leftarrow> parsePackage;
       rejectDecoratorsAfter ''declaration'' startsDecl;
       ret (leadingDoc, leading, [], Some p) }
     else ret (leadingDoc, [], leading, None) }"

text \<open>\<open>Parse\<close>; the last argument of \<open>harvestFreeComments\<close> is the largest \<open>int\<close>.\<close>

definition Parse :: "File M" where
  "Parse = do {
     (leadingDoc, decorators, leading, pkg) \<leftarrow> parse_header;
     (leading', decls) \<leftarrow> parse_decls leading;
     (if leading' \<noteq> [] then errorfP (dec_Pos (hd leading')) (Msg ''decorators without a declaration to attach to'' []) else ret ());
     comments \<leftarrow> gets P_allComments;
     chain \<leftarrow> gets P_chainComments;
     free \<leftarrow> harvestFreeComments 0 max_int64;
     ret \<lparr>f_LeadingDoc = leadingDoc, f_Decorators = decorators, f_Package = pkg, f_Decls = decls,
          f_FreeComments = free, f_ChainComments = chain, f_Comments = comments\<rparr> }"

definition NewP :: "string \<Rightarrow> string \<Rightarrow> Parser" where
  "NewP filename src =
     (let (toks, l) = Tokenize (New filename src)
      in \<lparr>P_tokens = toks, P_pos = 0, P_diags = Diagnostics l,
          P_reported = set (map d_Pos (Diagnostics l)), P_allComments = Comments l,
          P_claimed = {}, P_chainComments = Map.empty, P_closed = None, P_panic = False\<rparr>)"

text \<open>A run of \<open>Parse\<close> on a source: the file and the parser it leaves.\<close>

definition parse_source :: "string \<Rightarrow> string \<Rightarrow> File \<times> Parser" where
  "parse_source filename src = run_state Parse (NewP filename src)"

end
