(* ===== verification/Parser_Logic.thy ===== *)
theory Parser_Logic
  imports Parser_Syntax Lexer_Props
begin

text \<open>
  A weakest-precondition calculus for the parser. \<open>okP\<close> is the state every operation expects:
  the cursor is on a token of a stream that ends with its only \<open>EOF\<close>, nothing has panicked,
  and the bracket cache is empty or right. The locale \<open>parser_invariant\<close> adds a predicate \<open>J\<close>
  of the user's choice, with the primitive changes of the state as its laws; its rules say of
  each operation that it keeps \<open>okP\<close> and \<open>J\<close>, leaves the tokens alone and does not move the
  cursor back, and what it returns. A rule is an introduction rule for \<open>wp\<close>, so a
  proof runs the rules of the operations a method calls.
\<close>

section \<open>Weakest preconditions\<close>

definition wp :: "'a M \<Rightarrow> ('a \<Rightarrow> Parser \<Rightarrow> bool) \<Rightarrow> Parser \<Rightarrow> bool" where
  "wp m Q s \<longleftrightarrow> (case run_state m s of (r, s') \<Rightarrow> Q r s')"

named_theorems wp_simps \<open>equations for wp of the monad's constants\<close>
named_theorems wp_rules \<open>introduction rules for wp of the parser's operations\<close>

lemma wp_ret [wp_simps]: "wp (ret x) Q s = Q x s"
  by (simp add: wp_def)

lemma wp_bind [wp_simps]: "wp (State_Monad.bind m f) Q s = wp m (\<lambda>x. wp (f x) Q) s"
  by (simp add: wp_def split: prod.split)

lemma wp_update [wp_simps]: "wp (modify f) Q s = Q () (f s)"
  by (simp add: wp_def State_Monad.update_def)

lemma wp_gets [wp_simps]: "wp (gets f) Q s = Q (f s) s"
  by (simp add: wp_def gets_def)

lemma wp_if [wp_simps]: "wp (if b then m else n) Q s = ((b \<longrightarrow> wp m Q s) \<and> (\<not> b \<longrightarrow> wp n Q s))"
  by simp

lemma wp_when [wp_simps]: "wp (whenM b m) Q s = ((b \<longrightarrow> wp m Q s) \<and> (\<not> b \<longrightarrow> Q () s))"
  by (simp add: whenM_def wp_ret)

lemma wp_option [wp_simps]:
  "wp (case x of None \<Rightarrow> m | Some y \<Rightarrow> n y) Q s =
     ((x = None \<longrightarrow> wp m Q s) \<and> (\<forall>y. x = Some y \<longrightarrow> wp (n y) Q s))"
  by (cases x) simp_all

lemma wp_prod [wp_simps]: "wp (case x of (a, b) \<Rightarrow> m a b) Q s = wp (m (fst x) (snd x)) Q s"
  by (cases x) simp

lemma wp_fuel [wp_simps]: "wp fuel Q s = Q (Suc (length (P_tokens s))) s"
  by (simp add: fuel_def wp_gets)

declare loop_fuel.simps [simp del]

lemma wp_mono: "wp m P s \<Longrightarrow> (\<And>r s'. P r s' \<Longrightarrow> Q r s') \<Longrightarrow> wp m Q s"
  by (auto simp: wp_def split: prod.splits)

section \<open>The states of a run\<close>

text \<open>The contract of the token stream beyond its shape: each token is well-formed for its kind.\<close>

definition well_spelled :: "Token list \<Rightarrow> bool" where
  "well_spelled toks \<longleftrightarrow> (\<forall>t \<in> set toks. tok_Kind t \<noteq> Error \<longrightarrow> token_ok t)"

definition okP :: "Parser \<Rightarrow> bool" where
  "okP s \<longleftrightarrow> eof_terminated (P_tokens s) \<and> well_spelled (P_tokens s) \<and> P_pos s < length (P_tokens s) \<and> \<not> P_panic s
     \<and> (P_closed s = None \<or> P_closed s = Some (closedBrackets (P_tokens s)))"

lemma eof_terminated_iff:
  assumes "eof_terminated toks" and "i < length toks"
  shows "tok_Kind (toks ! i) = EOF \<longleftrightarrow> Suc i = length toks"
proof
  show "Suc i = length toks" if "tok_Kind (toks ! i) = EOF"
  proof (rule ccontr)
    assume "Suc i \<noteq> length toks"
    then have "i < length (butlast toks)" using assms(2) by simp
    then have "toks ! i \<in> set (butlast toks)" by (metis nth_butlast nth_mem)
    then show False using assms(1) that by (simp add: eof_terminated_def)
  qed
  show "tok_Kind (toks ! i) = EOF" if "Suc i = length toks"
  proof -
    have "toks ! i = last toks"
      using assms that last_conv_nth [of toks] by (metis diff_Suc_1 eof_terminated_def)
    then show ?thesis using assms(1) by (simp add: eof_terminated_def)
  qed
qed

lemma bracket_round_length:
  "length (fst (bracket_round ka st i)) = length (fst st)"
  by (auto simp: bracket_round_def angle_step_def bracket_step_def Let_def
      split: prod.split list.split)

lemma foldl_bracket_length:
  "length (fst (foldl (bracket_round ka) st is)) = length (fst st)"
  by (induction "is" arbitrary: st) (simp_all add: bracket_round_length)

lemma length_closedBrackets [simp]: "length (closedBrackets toks) = length toks"
  by (simp add: closedBrackets_def foldl_bracket_length)

locale parser_invariant =
  fixes J :: "Parser \<Rightarrow> bool" and toks :: "Token list"
  assumes J_pos: "J s \<Longrightarrow> J (s\<lparr>P_pos := n\<rparr>)"
    and J_closed: "J s \<Longrightarrow> J (s\<lparr>P_closed := c\<rparr>)"
    and J_error: "J s \<Longrightarrow> pos \<notin> P_reported s \<Longrightarrow>
      J (s\<lparr>P_reported := insert pos (P_reported s),
           P_diags := P_diags s @ [mk_diag pos CodeSyntaxParse msg]\<rparr>)"
    and J_claim: "J s \<Longrightarrow> J (s\<lparr>P_claimed := insert line (P_claimed s)\<rparr>)"
    and J_chain: "J s \<Longrightarrow> J (s\<lparr>P_chainComments := ch\<rparr>)"
begin

definition I :: "Parser \<Rightarrow> bool" where
  "I s \<longleftrightarrow> okP s \<and> J s \<and> P_tokens s = toks"

lemma I_tokens: "I s \<Longrightarrow> P_tokens s = toks"
  by (simp add: I_def)

lemma I_pos: "I s \<Longrightarrow> P_pos s < length toks"
  by (auto simp: I_def okP_def)

lemma I_eof: "I s \<Longrightarrow> tok_Kind (toks ! P_pos s) = EOF \<longleftrightarrow> Suc (P_pos s) = length toks"
  using eof_terminated_iff [of toks "P_pos s"] by (auto simp: I_def okP_def)

lemma I_token_ok: "I s \<Longrightarrow> tok_Kind (toks ! P_pos s) \<noteq> Error \<Longrightarrow> token_ok (toks ! P_pos s)"
  using I_pos [of s] by (auto simp: I_def okP_def well_spelled_def)

lemma I_ident: "I s \<Longrightarrow> tok_Kind (toks ! P_pos s) = Ident \<Longrightarrow> IsIdent (tok_Text (toks ! P_pos s))"
  using I_token_ok [of s] by (simp add: token_ok_def)

lemma I_keyword:
  "I s \<Longrightarrow> IsKeyword (tok_Kind (toks ! P_pos s)) \<Longrightarrow>
     tok_Text (toks ! P_pos s) = kindNames (tok_Kind (toks ! P_pos s))"
  using I_token_ok [of s] by (cases "tok_Kind (toks ! P_pos s) = Error") (simp_all add: token_ok_def kind_ranges)

lemma I_path_word: "I s \<Longrightarrow> tok_Kind (toks ! P_pos s) = PathWord \<Longrightarrow> tok_Text (toks ! P_pos s) \<noteq> []
    \<and> list_all (\<lambda>c. isPathChar (of_char c)) (tok_Text (toks ! P_pos s))"
  using I_token_ok [of s] by (simp add: token_ok_def list_all_iff)

lemma I_word:
  assumes "I s" and "tok_Kind (toks ! P_pos s) = Ident \<or> IsKeyword (tok_Kind (toks ! P_pos s))"
  shows "tok_Text (toks ! P_pos s) \<noteq> []"
proof -
  have "kindNames (tok_Kind (toks ! P_pos s)) \<noteq> []" by (cases "tok_Kind (toks ! P_pos s)") simp_all
  then show ?thesis using I_ident [OF assms(1)] I_keyword [OF assms(1)] assms(2) by (auto simp: IsIdent_def)
qed

lemma kindNames_word: "IsKeyword k \<Longrightarrow> word_ok (kindNames k)"
  by (cases k) (simp_all add: kind_ranges word_ok_def ascii_class_defs)

lemma I_word_ok:
  assumes "I s" and "tok_Kind (toks ! P_pos s) = Ident \<or> IsKeyword (tok_Kind (toks ! P_pos s))"
  shows "word_ok (tok_Text (toks ! P_pos s))"
proof (cases "tok_Kind (toks ! P_pos s) = Ident")
  case True
  then show ?thesis using I_ident [OF assms(1)] by (auto simp: IsIdent_bytes word_ok_def list_all_iff)
next
  case False
  with assms(2) have k: "IsKeyword (tok_Kind (toks ! P_pos s))" by simp
  show ?thesis using I_keyword [OF assms(1) k] kindNames_word [OF k] by simp
qed

lemma moved:
  "P_pos s \<le> P_pos s' \<Longrightarrow> tok_Kind (toks ! P_pos s) \<noteq> EOF \<Longrightarrow> tok_Kind (toks ! P_pos s') = EOF \<Longrightarrow>
     P_pos s < P_pos s'"
  by (cases "P_pos s = P_pos s'") auto

subsection \<open>Rules of the cursor\<close>

lemma wp_tokenAt:
  "I s \<Longrightarrow> 0 \<le> i \<Longrightarrow> nat i < length toks \<Longrightarrow> Q (toks ! nat i) s \<Longrightarrow> wp (tokenAt i) Q s"
  by (simp add: tokenAt_def wp_simps I_tokens)

lemma wp_peekP [wp_rules]: "I s \<Longrightarrow> Q (toks ! P_pos s) s \<Longrightarrow> wp peekP Q s"
  using I_pos by (simp add: peekP_def wp_simps wp_tokenAt)

lemma wp_prevToken [wp_rules]:
  "I s \<Longrightarrow> 0 < P_pos s \<Longrightarrow> Q (toks ! (P_pos s - 1)) s \<Longrightarrow> wp prevToken Q s"
  using I_pos [of s]
  by (simp add: prevToken_def wp_simps) (rule wp_tokenAt; simp add: nat_diff_distrib')

lemma wp_peekAt_at:
  assumes "I s"
    and "\<And>t. t \<in> set toks \<Longrightarrow> (P_pos s + n < length toks \<Longrightarrow> t = toks ! (P_pos s + n)) \<Longrightarrow> Q t s"
  shows "wp (peekAt n) Q s"
  using assms(1) I_pos [OF assms(1)]
  by (auto simp: peekAt_def wp_simps I_tokens nat_diff_distrib' nat_add_distrib intro!: wp_tokenAt assms(2))

lemma wp_peekAt [wp_rules]: "I s \<Longrightarrow> (\<And>t. t \<in> set toks \<Longrightarrow> Q t s) \<Longrightarrow> wp (peekAt n) Q s"
  by (rule wp_peekAt_at)

lemma wp_advanceP [wp_rules]:
  assumes "I s"
    and "\<And>s'. I s' \<Longrightarrow> P_pos s \<le> P_pos s' \<Longrightarrow>
      tok_Kind (toks ! P_pos s) \<noteq> EOF \<Longrightarrow> P_pos s' = Suc (P_pos s) \<Longrightarrow> Q (toks ! P_pos s) s'"
    and "\<And>s'. I s' \<Longrightarrow> tok_Kind (toks ! P_pos s) = EOF \<Longrightarrow> P_pos s' = P_pos s \<Longrightarrow>
      Q (toks ! P_pos s) s'"
  shows "wp advanceP Q s"
proof (cases "tok_Kind (toks ! P_pos s) = EOF")
  case True
  then have "\<not> P_pos s < length (P_tokens s) - 1"
    using I_eof [OF assms(1)] by (simp add: I_tokens [OF assms(1)] flip: One_nat_def)
  then show ?thesis
    using assms(1) True
    by (auto simp: advanceP_def wp_simps intro!: wp_peekP [OF assms(1)] assms(3))
next
  case False
  then have lt: "Suc (P_pos s) < length toks"
    using I_eof [OF assms(1)] I_pos [OF assms(1)] by simp
  then have "I (s\<lparr>P_pos := P_pos s + 1\<rparr>)"
    using assms(1) J_pos by (auto simp: I_def okP_def)
  then show ?thesis
    using False lt I_tokens [OF assms(1)] assms(2) [of "s\<lparr>P_pos := P_pos s + 1\<rparr>"]
    by (auto simp: advanceP_def wp_simps intro!: wp_peekP [OF assms(1)])
qed

lemma wp_errorfP [wp_rules]:
  assumes "I s" and "\<And>s'. I s' \<Longrightarrow> P_pos s' = P_pos s \<Longrightarrow> Q () s'"
  shows "wp (errorfP pos msg) Q s"
  using assms J_error [of s pos msg] by (auto simp: errorfP_def wp_simps I_def okP_def)

text \<open>\<open>expect\<close> consumes the token it asks for, and nothing else.\<close>

lemma wp_expect [wp_rules]:
  assumes "I s" and "k \<noteq> EOF"
    and "\<And>s'. I s' \<Longrightarrow> P_pos s' = Suc (P_pos s) \<Longrightarrow> P_pos s \<le> P_pos s' \<Longrightarrow>
      tok_Kind (toks ! P_pos s) = k \<Longrightarrow> Q (toks ! P_pos s, True) s'"
    and "\<And>s'. I s' \<Longrightarrow> P_pos s' = P_pos s \<Longrightarrow> tok_Kind (toks ! P_pos s) \<noteq> k \<Longrightarrow>
      Q (empty_token (tok_Pos (toks ! P_pos s)), False) s'"
  shows "wp (expect k) Q s"
  unfolding expect_def
  using assms by (auto simp: wp_simps intro!: wp_peekP [OF assms(1)] wp_advanceP wp_errorfP)

lemma wp_peekIs [wp_rules]:
  "I s \<Longrightarrow> Q (tok_Kind (toks ! P_pos s) = k) s \<Longrightarrow> wp (peekIs k) Q s"
  by (auto simp: peekIs_def wp_simps intro!: wp_peekP)

text \<open>
  A loop each of whose rounds that go on moves the cursor ends within its fuel. \<open>K\<close> is the
  invariant of what it carries.
\<close>

lemma wp_loop_fuel:
  assumes "I s" and "length toks < n + P_pos s" and "K x s"
    and body: "\<And>x s1. I s1 \<Longrightarrow> P_pos s \<le> P_pos s1 \<Longrightarrow> K x s1 \<Longrightarrow>
      wp (body x) (\<lambda>r s2. if fst r then I s2 \<and> P_pos s1 < P_pos s2 \<and> K (snd r) s2
        else Q (snd r) s2) s1"
  shows "wp (loop_fuel n body x) Q s"
  using assms
proof (induction n arbitrary: s x)
  case 0
  then show ?case using I_pos by force
next
  case (Suc n)
  show ?case
    unfolding loop_fuel.simps wp_bind wp_prod wp_if
  proof (rule wp_mono [OF Suc.prems(4) [OF Suc.prems(1) order.refl Suc.prems(3)]], intro conjI impI)
    fix r s'
    assume h: "if fst r then I s' \<and> P_pos s < P_pos s' \<and> K (snd r) s' else Q (snd r) s'"
    show "wp (loop_fuel n body (snd r)) Q s'" if "fst r"
      using h that Suc.prems by (intro Suc.IH) auto
    show "wp (ret (snd r)) Q s'" if "\<not> fst r"
      using h that by (simp add: wp_ret)
  qed
qed

lemma wp_loop_exit:
  assumes "I s" and "K x s"
    and "\<And>x s1. I s1 \<Longrightarrow> P_pos s \<le> P_pos s1 \<Longrightarrow> K x s1 \<Longrightarrow>
      wp (body x) (\<lambda>r s2. if fst r then I s2 \<and> P_pos s1 < P_pos s2 \<and> K (snd r) s2
        else Q (snd r) s2) s1"
  shows "wp (loop body x) Q s"
  unfolding loop_def using assms
  by (auto simp: wp_simps I_tokens intro!: wp_loop_fuel [where K = K])

lemma wp_loop:
  assumes "I s" and "K x s"
    and body: "\<And>x s1. I s1 \<Longrightarrow> P_pos s \<le> P_pos s1 \<Longrightarrow> K x s1 \<Longrightarrow>
      wp (body x) (\<lambda>r s2. I s2 \<and> P_pos s1 \<le> P_pos s2 \<and> K (snd r) s2
        \<and> (fst r \<longrightarrow> P_pos s1 < P_pos s2)) s1"
    and post: "\<And>x s'. I s' \<Longrightarrow> P_pos s \<le> P_pos s' \<Longrightarrow> K x s' \<Longrightarrow> Q x s'"
  shows "wp (loop body x) Q s"
proof (rule wp_loop_exit [where K = K, OF assms(1,2)], goal_cases)
  case (1 x s1)
  then show ?case by (intro wp_mono [OF body [OF 1]]) (auto intro: post)
qed

lemma wp_whileM:
  assumes "I s" and "K x s"
    and "\<And>x s1. I s1 \<Longrightarrow> P_pos s \<le> P_pos s1 \<Longrightarrow> K x s1 \<Longrightarrow>
      wp c (\<lambda>go s2. I s2 \<and> P_pos s2 = P_pos s1 \<and> K x s2 \<and> (go \<longrightarrow>
        wp (b x) (\<lambda>x' s3. I s3 \<and> P_pos s1 < P_pos s3 \<and> K x' s3) s2)) s1"
    and "\<And>x s'. I s' \<Longrightarrow> P_pos s \<le> P_pos s' \<Longrightarrow> K x s' \<Longrightarrow> Q x s'"
  shows "wp (whileM c b x) Q s"
  unfolding whileM_def
proof (rule wp_loop [where K = K, OF assms(1,2) _ assms(4)], goal_cases)
  case (1 x s1)
  show ?case
    unfolding wp_bind
    by (rule wp_mono [OF assms(3) [OF 1]]) (auto simp: wp_simps elim!: wp_mono)
qed

text \<open>A test of the cursor: it changes nothing.\<close>

definition test :: "bool M \<Rightarrow> bool" where
  "test c \<longleftrightarrow> (\<forall>s Q. I s \<longrightarrow> (\<forall>b. Q b s) \<longrightarrow> wp c Q s)"

lemma wp_test: "test c \<Longrightarrow> I s \<Longrightarrow> (\<And>b. Q b s) \<Longrightarrow> wp c Q s"
  by (simp add: test_def)

lemma wp_forward [wp_rules]:
  assumes "I s"
    and "wp member (\<lambda>x s'. I s' \<and> P_pos s \<le> P_pos s' \<and> K x) s"
    and "\<And>x s'. I s' \<Longrightarrow> P_pos s \<le> P_pos s' \<Longrightarrow>
      (tok_Kind (toks ! P_pos s) \<noteq> EOF \<Longrightarrow> P_pos s < P_pos s') \<Longrightarrow> K x \<Longrightarrow> Q x s'"
  shows "wp (forward member) Q s"
  unfolding forward_def wp_bind wp_gets
  by (rule wp_mono [OF assms(2)])
     (use assms(3) in \<open>auto simp: wp_simps intro!: wp_advanceP\<close>)

lemma wp_each:
  assumes "I s" and "K x"
    and "\<And>x s1. I s1 \<Longrightarrow> P_pos s \<le> P_pos s1 \<Longrightarrow> K x \<Longrightarrow>
      tok_Kind (toks ! P_pos s1) \<noteq> closer' \<Longrightarrow> tok_Kind (toks ! P_pos s1) \<noteq> EOF \<Longrightarrow>
      wp (member x) (\<lambda>x' s2. I s2 \<and> P_pos s1 \<le> P_pos s2 \<and> K x') s1"
    and "\<And>x s'. I s' \<Longrightarrow> P_pos s \<le> P_pos s' \<Longrightarrow> K x \<Longrightarrow>
      tok_Kind (toks ! P_pos s') = closer' \<or> tok_Kind (toks ! P_pos s') = EOF \<Longrightarrow> Q x s'"
  shows "wp (each closer' member x) Q s"
  unfolding each_def whileM_def
  by (rule wp_loop_exit [where K = "\<lambda>x s. K x", OF assms(1,2)])
     (use assms(3) in \<open>auto simp: wp_simps intro!: wp_peekP wp_forward [where K = K] assms(4)\<close>)

end

end
