(* ===== verification/Parser_Rules.thy ===== *)
theory Parser_Rules
  imports Parser_Logic
begin

text \<open>
  The rules of the recovery and comment operations, the type references and the decorators,
  within \<open>parser_invariant\<close>. What a rule adds to the invariant is what the callers rely on:
  that a skip moves past a token that is not \<open>EOF\<close>, that a parsed reference is well-formed,
  that a value consumes a token.
\<close>

context parser_invariant
begin

section \<open>Lists\<close>

lemma wp_closes [wp_rules]:
  assumes "I s" and "i < length toks"
    and "\<And>s'. I s' \<Longrightarrow> P_pos s' = P_pos s \<Longrightarrow> Q (closedBrackets toks ! i) s'"
  shows "wp (closes i) Q s"
proof -
  have "I (s\<lparr>P_closed := Some (closedBrackets toks)\<rparr>)"
    using assms(1) J_closed by (auto simp: I_def okP_def)
  moreover have "P_closed s = None \<or> P_closed s = Some (closedBrackets toks)"
    using assms(1) by (auto simp: I_def okP_def)
  ultimately show ?thesis
    using assms I_tokens [OF assms(1)] by (auto simp: closes_def wp_simps)
qed

lemma wp_openList [wp_rules]:
  assumes "I s"
    and "\<And>l s'. I s' \<Longrightarrow> P_pos s \<le> P_pos s' \<Longrightarrow> pl_open l = P_pos s \<Longrightarrow>
      pl_open l < length toks \<Longrightarrow>
      (tok_Kind (toks ! P_pos s) \<noteq> EOF \<Longrightarrow> P_pos s < P_pos s') \<Longrightarrow> Q l s'"
  shows "wp openList Q s"
  using assms(1) I_pos [OF assms(1)]
  by (auto simp: openList_def wp_simps intro!: wp_closes wp_advanceP assms(2))

lemma wp_opener [wp_rules]:
  "I s \<Longrightarrow> pl_open l < length toks \<Longrightarrow> Q (toks ! pl_open l) s \<Longrightarrow> wp (opener l) Q s"
  by (simp add: opener_def wp_tokenAt)

lemma wp_closer [wp_rules]:
  "I s \<Longrightarrow> pl_open l < length toks \<Longrightarrow> Q (closerOf (tok_Kind (toks ! pl_open l))) s \<Longrightarrow>
     wp (closer l) Q s"
  by (auto simp: closer_def wp_simps intro!: wp_opener)

lemma wp_moreP [wp_rules]:
  assumes "I s" and "pl_open l < length toks"
    and "\<And>b. (b \<Longrightarrow> tok_Kind (toks ! P_pos s) \<noteq> EOF) \<Longrightarrow> Q b s"
  shows "wp (moreP l) Q s"
  using assms(1,2)
  by (auto simp: moreP_def wp_simps intro!: wp_peekP wp_closer wp_opener assms(3))

lemma wp_listSep [wp_rules]:
  assumes "I s" and "pl_open l < length toks"
    and "\<And>b s'. I s' \<Longrightarrow> P_pos s \<le> P_pos s' \<Longrightarrow> Q b s'"
  shows "wp (listSep l element) Q s"
  unfolding listSep_def using assms(1,2)
  by (auto simp: wp_simps intro!: wp_peekP wp_closer wp_advanceP wp_errorfP assms(3))

lemma closerOf_EOF: "closerOf k \<noteq> EOF \<longleftrightarrow> k \<in> {LParen, LBracket, LBrace, LAngle}"
  by (cases k) simp_all

lemma wp_unclosed [wp_rules]:
  assumes "I s" and "\<And>s'. I s' \<Longrightarrow> P_pos s' = P_pos s \<Longrightarrow> Q () s'"
  shows "wp (unclosed t) Q s"
  using assms(1) by (auto simp: unclosed_def intro!: wp_errorfP assms(2))

lemma wp_expect_any:
  assumes "I s" and "\<And>r s'. I s' \<Longrightarrow> P_pos s \<le> P_pos s' \<Longrightarrow> Q r s'"
  shows "wp (expect k) Q s"
  unfolding expect_def using assms(1)
  by (auto simp: wp_simps intro!: wp_peekP wp_advanceP wp_errorfP assms(2))

lemma wp_closeList [wp_rules]:
  assumes "I s" and "pl_open l < length toks"
    and "\<And>t s'. I s' \<Longrightarrow> P_pos s \<le> P_pos s' \<Longrightarrow> Q t s'"
  shows "wp (closeList l) Q s"
  unfolding closeList_def using assms(1,2)
  by (auto simp: wp_simps intro!: wp_closer wp_peekIs wp_advanceP wp_expect_any wp_opener wp_unclosed wp_peekP assms(3))

section \<open>Tests and skips\<close>

lemma test_startsLine: "test startsLine"
  by (auto simp: test_def startsLine_def wp_simps intro!: wp_peekP wp_prevToken)

lemma test_opensDeclaration: "test opensDeclaration"
  unfolding test_def opensDeclaration_def
  by (auto simp: wp_simps intro!: wp_test [OF test_startsLine] wp_peekP wp_peekAt)

lemma test_startsDeclaration: "test startsDeclaration"
  unfolding test_def startsDeclaration_def
  by (auto simp: wp_simps intro!: wp_test [OF test_startsLine] wp_peekP)

lemma test_startsMethod: "test startsMethod"
  unfolding test_def startsMethod_def
  by (auto simp: wp_simps intro!: wp_test [OF test_startsLine] wp_peekP)

lemma test_or: "test a \<Longrightarrow> test b \<Longrightarrow> test (do { x \<leftarrow> a; if x then ret True else b })"
  unfolding test_def by (auto simp: wp_simps)

lemmas tests = test_startsLine test_opensDeclaration test_startsDeclaration test_startsMethod test_or

lemma wp_skipLine [wp_rules]:
  assumes "I s" and "\<And>s'. I s' \<Longrightarrow> P_pos s \<le> P_pos s' \<Longrightarrow> Q () s'"
  shows "wp skipLine Q s"
  unfolding skipLine_def using assms(1)
  by (auto simp: wp_simps intro!: wp_peekP wp_whileM [where K = "\<lambda>_ _. True"] wp_advanceP assms(2))

lemma wp_skipParens [wp_rules]:
  assumes "I s"
    and "\<And>b s'. I s' \<Longrightarrow> P_pos s \<le> P_pos s' \<Longrightarrow> (b \<Longrightarrow> P_pos s < P_pos s') \<Longrightarrow> Q b s'"
  shows "wp skipParens Q s"
proof -
  have body: "wp (skip_parens_body x) (\<lambda>r s2. I s2 \<and> P_pos s1 \<le> P_pos s2
      \<and> (snd (snd (snd r)) \<longrightarrow> P_pos s < P_pos s2) \<and> (fst r \<longrightarrow> P_pos s1 < P_pos s2)) s1"
    if "I s1" "P_pos s \<le> P_pos s1" "snd (snd x) \<longrightarrow> P_pos s < P_pos s1" for x s1
    using that unfolding skip_parens_body_def
    by (cases x) (auto simp: wp_simps intro!: wp_peekP wp_advanceP)
  have loop: "wp (loop skip_parens_body (0, 0, False)) (\<lambda>x. wp (case x of (_, _, r) \<Rightarrow> ret r) Q) s1"
    if "I s1" "P_pos s1 = P_pos s" for s1
    using that body
    by (intro wp_loop [where K = "\<lambda>x s'. snd (snd x) \<longrightarrow> P_pos s < P_pos s'"])
       (auto simp: wp_simps intro!: assms(2))
  show ?thesis
    unfolding skipParens_def using assms(1) I_pos [OF assms(1)]
    by (auto simp: wp_simps intro!: wp_closes wp_skipLine loop assms(2) simp del: wp_prod)
qed

lemma wp_skipBalanced [wp_rules]:
  assumes "I s"
    and "\<And>s'. I s' \<Longrightarrow> P_pos s \<le> P_pos s' \<Longrightarrow>
      (tok_Kind (toks ! P_pos s) \<noteq> EOF \<Longrightarrow> P_pos s < P_pos s') \<Longrightarrow> Q () s'"
  shows "wp skipBalanced Q s"
  unfolding skipBalanced_def wp_bind wp_ret
  by (rule wp_loop_exit [where K = "\<lambda>_ _. True", OF assms(1) TrueI])
     (auto simp: wp_simps Let_def intro!: wp_peekIs wp_advanceP assms(2); rule moved; assumption)

lemma wp_skipUntil [wp_rules]:
  assumes "I s" and "test stop"
    and "\<And>s'. I s' \<Longrightarrow> P_pos s \<le> P_pos s' \<Longrightarrow>
      (tok_Kind (toks ! P_pos s) \<noteq> EOF \<Longrightarrow> P_pos s < P_pos s') \<Longrightarrow> Q () s'"
  shows "wp (skipUntil inBody stop) Q s"
  unfolding skipUntil_def wp_bind
proof (rule wp_skipBalanced [OF assms(1)])
  fix s1
  assume "I s1" "P_pos s \<le> P_pos s1"
    and "tok_Kind (toks ! P_pos s) \<noteq> EOF \<Longrightarrow> P_pos s < P_pos s1"
  then show "wp (whileM (do { t \<leftarrow> peekP;
        if tok_Kind t = EOF \<or> inBody \<and> tok_Kind t = RBrace then ret False
        else do { st \<leftarrow> stop; ret (\<not> st) } }) (\<lambda>_. skipBalanced) ()) Q s1"
    by (intro wp_whileM [where K = "\<lambda>_ _. True"])
       (auto simp: wp_simps intro!: wp_peekP wp_test [OF assms(2)] wp_skipBalanced assms(3))
qed

section \<open>Comments\<close>

lemma wp_claim [wp_rules]:
  assumes "I s" and "\<And>s'. I s' \<Longrightarrow> P_pos s' = P_pos s \<Longrightarrow> Q () s'"
  shows "wp (claim line) Q s"
  using assms(1) J_claim assms(2) [of "s\<lparr>P_claimed := insert line (P_claimed s)\<rparr>"]
  by (auto simp: claim_def wp_simps I_def okP_def)

text \<open>A fold of steps that keep the invariant and the cursor keeps both.\<close>

lemma wp_foldr:
  assumes "I s"
    and "\<And>x s1 Q. I s1 \<Longrightarrow> (\<And>s'. I s' \<Longrightarrow> P_pos s' = P_pos s1 \<Longrightarrow> Q () s') \<Longrightarrow> wp (f x) Q s1"
    and "\<And>s'. I s' \<Longrightarrow> P_pos s' = P_pos s \<Longrightarrow> Q () s'"
  shows "wp (foldr (\<lambda>x m. do { f x; m }) xs (ret ())) Q s"
  using assms(1,3)
proof (induction xs arbitrary: s)
  case (Cons x xs)
  show ?case
    using Cons.prems(1) by (auto simp: wp_simps intro!: assms(2) Cons.IH Cons.prems(2))
qed (simp add: wp_simps)

lemma wp_claimDoc [wp_rules]:
  assumes "I s" and "\<And>s'. I s' \<Longrightarrow> P_pos s' = P_pos s \<Longrightarrow> Q () s'"
  shows "wp (claimDoc t) Q s"
  unfolding claimDoc_def by (rule wp_foldr [OF assms(1)]) (auto intro!: wp_claim assms(2))

lemma wp_docAbove [wp_rules]:
  assumes "I s" and "\<And>doc s'. I s' \<Longrightarrow> P_pos s' = P_pos s \<Longrightarrow> Q doc s'"
  shows "wp docAbove Q s"
  unfolding docAbove_def using assms(1) by (auto simp: wp_simps intro!: wp_peekP wp_claimDoc assms(2))

lemma wp_claim_between_loop:
  assumes "I s" and "\<And>s'. I s' \<Longrightarrow> P_pos s' = P_pos s \<Longrightarrow> Q () s'"
  shows "wp (claim_between_loop prev lines cs) Q s"
  using assms
proof (induction cs arbitrary: prev lines s)
  case (Cons c cs)
  have chain: "I (s'\<lparr>P_chainComments := ch\<rparr>)" if "I s'" for s' ch
    using that J_chain by (auto simp: I_def okP_def)
  have step: "wp (do { claim l; modify (\<lambda>s. s\<lparr>P_chainComments := f s\<rparr>);
      claim_between_loop prev' lines' cs }) Q s" for l f prev' lines'
    using Cons.prems(1) by (auto simp: wp_simps intro!: wp_claim Cons.IH chain Cons.prems(2))
  show ?case
    using Cons.prems(1) step
    by (auto simp: wp_simps Let_def intro!: Cons.IH Cons.prems(2) split: prod.split list.split)
qed (simp add: wp_simps)

lemma wp_claimChain [wp_rules]:
  assumes "I s" and "\<And>s'. I s' \<Longrightarrow> P_pos s' = P_pos s \<Longrightarrow> Q () s'"
  shows "wp (claimChain decs line) Q s"
  using assms(1)
  by (auto simp: claimChain_def claimBetween_def wp_simps intro!: wp_claim_between_loop assms(2))

lemma wp_claimInside [wp_rules]:
  assumes "I s" and "\<And>s'. I s' \<Longrightarrow> P_pos s' = P_pos s \<Longrightarrow> Q () s'"
  shows "wp (claimInside a b) Q s"
  unfolding claimInside_def wp_bind wp_gets
  by (rule wp_foldr [OF assms(1)]) (auto simp: wp_simps intro!: wp_claim assms(2))

lemma wp_harvest_loop:
  assumes "I s" and "\<And>r s'. I s' \<Longrightarrow> P_pos s' = P_pos s \<Longrightarrow> Q r s'"
  shows "wp (harvest_loop lo hi out n cs) Q s"
  using assms
proof (induction cs arbitrary: out n s)
  case (Cons c cs)
  show ?case
    using Cons.prems(1) by (auto simp: wp_simps Let_def intro!: wp_claim Cons.IH Cons.prems(2))
qed (simp add: wp_simps)

lemma wp_harvestFreeComments [wp_rules]:
  assumes "I s" and "\<And>r s'. I s' \<Longrightarrow> P_pos s' = P_pos s \<Longrightarrow> Q r s'"
  shows "wp (harvestFreeComments lo hi) Q s"
  unfolding harvestFreeComments_def using assms(1) by (auto simp: wp_simps intro!: wp_harvest_loop assms(2))

section \<open>Bodies\<close>

lemma wp_body_ends:
  assumes "I s" and "case stop of None \<Rightarrow> True | Some c \<Rightarrow> test c" and "opened \<Longrightarrow> i < length toks"
    and "\<And>b s'. I s' \<Longrightarrow> P_pos s' = P_pos s \<Longrightarrow> (tok_Kind (toks ! P_pos s) = EOF \<Longrightarrow> b) \<Longrightarrow> Q b s'"
  shows "wp (body_ends stop opened i) Q s"
proof (cases stop)
  case None
  then show ?thesis
    unfolding body_ends_def using assms(1,3)
    by (auto simp: wp_simps intro!: wp_peekIs wp_test [OF test_opensDeclaration] wp_closes assms(4))
next
  case (Some c)
  then have "test c" using assms(2) by simp
  then show ?thesis
    unfolding body_ends_def using assms(1,3) Some
    by (auto simp: wp_simps intro!: wp_peekIs wp_test [OF \<open>test c\<close>] wp_test [OF test_opensDeclaration]
        wp_closes assms(4))
qed

lemma wp_braced:
  assumes "I s" and "case stop of None \<Rightarrow> True | Some c \<Rightarrow> test c" and "K x"
    and member: "\<And>x s1. I s1 \<Longrightarrow> P_pos s \<le> P_pos s1 \<Longrightarrow> K x \<Longrightarrow>
      tok_Kind (toks ! P_pos s1) \<noteq> EOF \<Longrightarrow>
      wp (member x) (\<lambda>x' s2. I s2 \<and> P_pos s1 \<le> P_pos s2 \<and> K x') s1"
    and post: "\<And>t x s'. I s' \<Longrightarrow> P_pos s \<le> P_pos s' \<Longrightarrow> K x \<Longrightarrow> Q (t, x) s'"
  shows "wp (braced stop member x) Q s"
proof -
  have round: "wp (braced_round stop member (P_pos s) lbrace opened xe)
      (\<lambda>r s2. I s2 \<and> P_pos s1 \<le> P_pos s2 \<and> K (fst (snd r)) \<and> (fst r \<longrightarrow> P_pos s1 < P_pos s2)) s1"
    if "I s1" "P_pos s \<le> P_pos s1" "K (fst xe)" for opened lbrace xe s1
    using that assms(2) I_pos [OF assms(1)]
    by (cases xe) (auto simp: braced_round_def wp_simps intro!: wp_peekIs wp_body_ends wp_unclosed
        wp_peekP wp_forward [where K = K] wp_mono [OF member])
  show ?thesis
    unfolding braced_def wp_bind wp_gets
  proof (rule wp_expect_any [OF assms(1)])
    fix r s1
    assume "I s1" "P_pos s \<le> P_pos s1"
    then show "wp (case r of (lbrace, opened) \<Rightarrow>
        State_Monad.bind (loop (braced_round stop member (P_pos s) lbrace opened) (x, None))
          (\<lambda>(x', early). case early of None \<Rightarrow> do { t \<leftarrow> advanceP; ret (t, x') } | Some t \<Rightarrow> ret (t, x'))) Q s1"
      unfolding wp_prod wp_bind
      using assms(3) round
      by (intro wp_loop [where K = "\<lambda>xe _. K (fst xe)"])
         (auto simp: wp_simps intro!: wp_advanceP post)
  qed
qed

end

end
