(* ===== verification/Parser_Total.thy ===== *)
theory Parser_Total
  imports Parser_Rules Lexer_Legal
begin

text \<open>
  The rules of the grammar's methods, up to \<open>Parse\<close>, and what follows from them: on every
  source \<open>Parse\<close> ends within its fuel and without a panic, on the last token.
\<close>

context parser_invariant
begin

section \<open>Type references\<close>

lemma wp_parseQualifiedIdent [wp_rules]:
  assumes "I s" and "\<And>q s'. I s' \<Longrightarrow> P_pos s \<le> P_pos s' \<Longrightarrow>
      (tok_Kind (toks ! P_pos s) = Ident \<Longrightarrow> P_pos s < P_pos s') \<Longrightarrow> Q q s'"
  shows "wp parseQualifiedIdent Q s"
  unfolding parseQualifiedIdent_def using assms(1)
  by (auto simp: wp_simps intro!: wp_peekP wp_expect wp_loop [where K = "\<lambda>_ _. True"] wp_peekIs
      wp_advanceP assms(2))

lemma wp_parseMapType_with:
  assumes "I s" and "tok_Kind (toks ! P_pos s) \<noteq> EOF"
    and rec: "\<And>s1 Q. I s1 \<Longrightarrow> P_pos s < P_pos s1 \<Longrightarrow>
      (\<And>t s'. I s' \<Longrightarrow> P_pos s1 \<le> P_pos s' \<Longrightarrow> tr_wf (Some t) \<Longrightarrow> Q t s') \<Longrightarrow> wp pt Q s1"
    and post: "\<And>m s'. I s' \<Longrightarrow> P_pos s < P_pos s' \<Longrightarrow> tr_wf (mt_Key m) \<Longrightarrow> tr_wf (mt_Value m) \<Longrightarrow> Q m s'"
  shows "wp (parseMapType_with pt) Q s"
  unfolding parseMapType_with_def using assms(1,2)
  by (auto simp: wp_simps intro!: wp_advanceP wp_peekIs wp_expect_any wp_openList wp_opener
      wp_closeList wp_claimInside rec post)

lemma wp_parseNamedTypeRef_with:
  assumes "I s"
    and rec: "\<And>s1 Q. I s1 \<Longrightarrow> P_pos s < P_pos s1 \<Longrightarrow>
      (\<And>t s'. I s' \<Longrightarrow> P_pos s1 \<le> P_pos s' \<Longrightarrow> tr_wf (Some t) \<Longrightarrow> Q t s') \<Longrightarrow> wp pt Q s1"
    and post: "\<And>n s'. I s' \<Longrightarrow> P_pos s \<le> P_pos s' \<Longrightarrow> nt_wf (Some n) \<Longrightarrow>
      (tok_Kind (toks ! P_pos s) = Ident \<Longrightarrow> P_pos s < P_pos s') \<Longrightarrow> Q n s'"
  shows "wp (parseNamedTypeRef_with pt) Q s"
  unfolding parseNamedTypeRef_with_def using assms(1)
  by (auto simp: wp_simps intro!: wp_parseQualifiedIdent wp_peekIs wp_openList wp_opener wp_errorfP
      wp_loop [where K = "\<lambda>args _. list_all tr_wf args"] wp_moreP wp_listSep wp_closeList
      wp_claimInside rec post)

lemma wp_parseTypeRef_fuel:
  assumes "I s" and "length toks \<le> n + P_pos s"
    and "\<And>t s'. I s' \<Longrightarrow> P_pos s \<le> P_pos s' \<Longrightarrow> tr_wf (Some t) \<Longrightarrow> Q t s'"
  shows "wp (parseTypeRef_fuel n) Q s"
  using assms
proof (induction n arbitrary: s Q)
  case 0
  then show ?case using I_pos by force
next
  case (Suc n)
  have rec: "wp (parseTypeRef_fuel n) Q s1" if "I s1" "P_pos s < P_pos s1"
    "\<And>t s'. I s' \<Longrightarrow> P_pos s1 \<le> P_pos s' \<Longrightarrow> tr_wf (Some t) \<Longrightarrow> Q t s'" for s1 Q
    using that Suc.prems(2) by (intro Suc.IH) auto
  show ?case
    unfolding parseTypeRef_fuel.simps using Suc.prems(1)
    by (auto simp: wp_simps split: map_type.split
        intro!: wp_peekP wp_parseMapType_with rec wp_parseNamedTypeRef_with
        wp_whileM [where K = "\<lambda>_ _. True"] wp_peekIs wp_advanceP wp_expect_any Suc.prems(3))
qed

lemma wp_parseTypeRef [wp_rules]:
  assumes "I s" and "\<And>t s'. I s' \<Longrightarrow> P_pos s \<le> P_pos s' \<Longrightarrow> tr_wf (Some t) \<Longrightarrow> Q t s'"
  shows "wp parseTypeRef Q s"
  unfolding parseTypeRef_def using assms(1)
  by (auto simp: wp_simps I_tokens simp del: parseTypeRef_fuel.simps intro!: wp_parseTypeRef_fuel assms(2))

lemma wp_parseNamedTypeRef [wp_rules]:
  assumes "I s" and "\<And>n s'. I s' \<Longrightarrow> P_pos s \<le> P_pos s' \<Longrightarrow> nt_wf (Some n) \<Longrightarrow>
      (tok_Kind (toks ! P_pos s) = Ident \<Longrightarrow> P_pos s < P_pos s') \<Longrightarrow> Q n s'"
  shows "wp parseNamedTypeRef Q s"
  unfolding parseNamedTypeRef_def
  by (rule wp_parseNamedTypeRef_with [OF assms(1)]) (auto intro!: wp_parseTypeRef assms(2))

section \<open>Decorators\<close>

lemma wp_signedInt [wp_rules]:
  assumes "I s" and "\<And>n s'. I s' \<Longrightarrow> P_pos s' = P_pos s \<Longrightarrow> in_int64 n \<Longrightarrow> Q n s'"
  shows "wp (signedInt pos t neg) Q s"
  unfolding signedInt_def Let_def using assms(1) ParseInt_in_int64
  by (auto simp: wp_simps intro!: wp_errorfP assms(2) split: prod.split)

lemma wp_floatP [wp_rules]:
  assumes "I s" and "\<And>f s'. I s' \<Longrightarrow> P_pos s' = P_pos s \<Longrightarrow> Q f s'"
  shows "wp (floatP pos t) Q s"
  unfolding floatP_def Let_def using assms(1)
  by (auto simp: wp_simps intro!: wp_errorfP assms(2) split: prod.split)

lemma I_rewind: "I s \<Longrightarrow> n < length toks \<Longrightarrow> I (s\<lparr>P_pos := n\<rparr>)"
  using J_pos by (auto simp: I_def okP_def)

lemma I_back: "I s \<Longrightarrow> I (s\<lparr>P_pos := P_pos s - Suc 0\<rparr>)"
  using I_pos [of s] by (auto intro!: I_rewind)

lemma wp_skipDecorator [wp_rules]:
  assumes "I s" and "tok_Kind (toks ! P_pos s) \<noteq> EOF"
    and "\<And>s'. I s' \<Longrightarrow> P_pos s < P_pos s' \<Longrightarrow> Q () s'"
  shows "wp (skipDecorator mayClose) Q s"
  unfolding skipDecorator_def using assms(1,2)
  by (auto simp: wp_simps less_diff_conv intro!: wp_advanceP wp_peekP wp_peekIs wp_skipParens wp_prevToken
      assms(3) I_back)

lemma wp_parseValue [wp_rules]:
  assumes "I s" and "\<And>e s'. I s' \<Longrightarrow> P_pos s \<le> P_pos s' \<Longrightarrow>
      (tok_Kind (toks ! P_pos s) \<noteq> EOF \<Longrightarrow> P_pos s < P_pos s') \<Longrightarrow> Q e s'"
  shows "wp (parseValue dec k) Q s"
  unfolding parseValue_def Let_def using assms(1)
  by (auto simp: wp_simps intro!: wp_peekP wp_errorfP wp_skipDecorator wp_advanceP wp_signedInt
      wp_floatP wp_parseQualifiedIdent assms(2))

lemma wp_parseArray_with:
  assumes "I s" and "tok_Kind (toks ! P_pos s) \<noteq> EOF"
    and rec: "\<And>s1 Q. I s1 \<Longrightarrow> P_pos s < P_pos s1 \<Longrightarrow>
      (\<And>e s'. I s' \<Longrightarrow> P_pos s1 \<le> P_pos s' \<Longrightarrow>
        (tok_Kind (toks ! P_pos s1) \<noteq> EOF \<Longrightarrow> P_pos s1 < P_pos s') \<Longrightarrow> Q e s') \<Longrightarrow> wp (pv RBracket) Q s1"
    and post: "\<And>e s'. I s' \<Longrightarrow> P_pos s < P_pos s' \<Longrightarrow> Q e s'"
  shows "wp (parseArray_with pv) Q s"
  unfolding parseArray_with_def using assms(1,2)
  by (auto simp: wp_simps intro!: wp_peekP wp_openList wp_loop [where K = "\<lambda>_ _. True"] wp_moreP
      wp_listSep wp_closeList rec post)

lemma wp_parseValueOrArray_fuel:
  assumes "I s" and "length toks \<le> n + P_pos s"
    and "\<And>e s'. I s' \<Longrightarrow> P_pos s \<le> P_pos s' \<Longrightarrow>
      (tok_Kind (toks ! P_pos s) \<noteq> EOF \<Longrightarrow> P_pos s < P_pos s') \<Longrightarrow> Q e s'"
  shows "wp (parseValueOrArray_fuel n dec k) Q s"
  using assms
proof (induction n arbitrary: s Q k)
  case 0
  then show ?case using I_pos by force
next
  case (Suc n)
  have rec: "wp (parseValueOrArray_fuel n dec RBracket) Q s1" if "I s1" "P_pos s < P_pos s1"
    "\<And>e s'. I s' \<Longrightarrow> P_pos s1 \<le> P_pos s' \<Longrightarrow>
       (tok_Kind (toks ! P_pos s1) \<noteq> EOF \<Longrightarrow> P_pos s1 < P_pos s') \<Longrightarrow> Q e s'" for s1 Q
    using that Suc.prems(2) by (intro Suc.IH) auto
  show ?case
    unfolding parseValueOrArray_fuel.simps using Suc.prems(1)
    by (auto simp: wp_simps intro!: wp_peekIs wp_parseArray_with rec wp_parseValue Suc.prems(3))
qed

lemma wp_parseValueOrArray [wp_rules]:
  assumes "I s" and "\<And>e s'. I s' \<Longrightarrow> P_pos s \<le> P_pos s' \<Longrightarrow>
      (tok_Kind (toks ! P_pos s) \<noteq> EOF \<Longrightarrow> P_pos s < P_pos s') \<Longrightarrow> Q e s'"
  shows "wp (parseValueOrArray dec k) Q s"
  unfolding parseValueOrArray_def using assms(1)
  by (auto simp: wp_simps I_tokens simp del: parseValueOrArray_fuel.simps
      intro!: wp_parseValueOrArray_fuel assms(2))

lemma wp_expectFieldKey [wp_rules]:
  assumes "I s" and "\<And>k s'. I s' \<Longrightarrow> P_pos s \<le> P_pos s' \<Longrightarrow> Q k s'"
  shows "wp expectFieldKey Q s"
  unfolding expectFieldKey_def using assms(1)
  by (auto simp: wp_simps intro!: wp_peekP wp_advanceP wp_errorfP assms(2))

lemma moved_by_next:
  "tok_Kind (toks ! P_pos a) \<noteq> EOF \<Longrightarrow> P_pos a \<le> P_pos b \<Longrightarrow> P_pos b \<le> P_pos c \<Longrightarrow>
     (tok_Kind (toks ! P_pos b) \<noteq> EOF \<Longrightarrow> P_pos b < P_pos c) \<Longrightarrow> P_pos a < P_pos c"
  by (cases "P_pos a = P_pos b") auto

lemma wp_object_field:
  assumes "I s" and "tok_Kind (toks ! P_pos s) \<noteq> EOF" and "pl_open l < length toks"
    and "\<And>r s'. I s' \<Longrightarrow> P_pos s < P_pos s' \<Longrightarrow> Q r s'"
  shows "wp (do { name \<leftarrow> expectFieldKey; _ \<leftarrow> expect Colon; val \<leftarrow> parseValueOrArray dec RBrace;
     sep \<leftarrow> listSep l what; ret (f name val sep) }) Q s"
  unfolding wp_bind wp_ret
proof (rule wp_expectFieldKey [OF assms(1)], rule wp_expect_any, assumption, rule wp_parseValueOrArray,
    assumption, rule wp_listSep, assumption, rule assms(3))
  fix k s1 r s2 e s3 b s4
  assume "P_pos s \<le> P_pos s1" "P_pos s1 \<le> P_pos s2" "P_pos s2 \<le> P_pos s3" "P_pos s3 \<le> P_pos s4" "I s4"
    and "tok_Kind (toks ! P_pos s2) \<noteq> EOF \<Longrightarrow> P_pos s2 < P_pos s3"
  then show "Q (f k e b) s4"
    using moved_by_next [OF assms(2), of s2 s3] by (intro assms(4)) auto
qed

lemma wp_parseObjectLiteral [wp_rules]:
  assumes "I s" and "tok_Kind (toks ! P_pos s) \<noteq> EOF"
    and "\<And>fs s'. I s' \<Longrightarrow> P_pos s < P_pos s' \<Longrightarrow> Q fs s'"
  shows "wp (parseObjectLiteral dec) Q s"
proof -
  have round: "wp (do { m \<leftarrow> moreP l;
         if \<not> m then ret (False, fs)
         else do {
           t \<leftarrow> peekP;
           name \<leftarrow> expectFieldKey;
           _ \<leftarrow> expect Colon;
           val \<leftarrow> parseValueOrArray dec RBrace;
           sep \<leftarrow> listSep l ''object field'';
           ret (sep, fs @ [\<lparr>of_Pos = tok_Pos t, of_Name = name, of_Value = val\<rparr>]) } })
      (\<lambda>r s2. I s2 \<and> P_pos s1 \<le> P_pos s2 \<and> True \<and> (fst r \<longrightarrow> P_pos s1 < P_pos s2)) s1"
    if "I s1" "pl_open l < length toks" for l fs s1
    using that
    by (subst wp_bind) (auto simp: wp_ret wp_if wp_bind [of peekP] intro!: wp_moreP wp_peekP wp_object_field)
  show ?thesis
    unfolding parseObjectLiteral_def wp_bind [of openList]
    using assms(1,2) round
    by (auto simp: wp_bind wp_ret intro!: wp_openList wp_loop [where K = "\<lambda>_ _. True"]
        wp_closeList assms(3))
qed

lemma wp_parseDecoratorArg [wp_rules]:
  assumes "I s" and "\<And>e s'. I s' \<Longrightarrow> P_pos s \<le> P_pos s' \<Longrightarrow>
      (tok_Kind (toks ! P_pos s) \<noteq> EOF \<Longrightarrow> P_pos s < P_pos s') \<Longrightarrow> Q e s'"
  shows "wp (parseDecoratorArg dec) Q s"
  unfolding parseDecoratorArg_def using assms(1)
  by (auto simp: wp_simps intro!: wp_peekP wp_peekAt wp_parseObjectLiteral wp_advanceP
      wp_parseValueOrArray assms(2))

lemma wp_parseDecorator_args [wp_rules]:
  assumes "I s" and "\<And>d s'. I s' \<Longrightarrow> P_pos s \<le> P_pos s' \<Longrightarrow> Q d s'"
  shows "wp (parseDecorator_args at name) Q s"
  unfolding parseDecorator_args_def Let_def using assms(1)
  by (auto simp: wp_simps intro!: wp_openList wp_loop [where K = "\<lambda>_ _. True"] wp_moreP wp_peekIs
      wp_parseDecoratorArg wp_listSep wp_closeList wp_claimInside assms(2))

lemma wp_parseDecorator [wp_rules]:
  assumes "I s" and "\<And>d s'. I s' \<Longrightarrow> P_pos s \<le> P_pos s' \<Longrightarrow>
      (tok_Kind (toks ! P_pos s) \<noteq> EOF \<Longrightarrow> P_pos s < P_pos s') \<Longrightarrow> Q d s'"
  shows "wp parseDecorator Q s"
  unfolding parseDecorator_def Let_def using assms(1)
  by (auto simp: wp_simps intro!: wp_advanceP wp_peekP wp_errorfP wp_peekIs wp_parseDecorator_args
      assms(2))

lemma wp_parseDecorators [wp_rules]:
  assumes "I s" and "\<And>ds s'. I s' \<Longrightarrow> P_pos s \<le> P_pos s' \<Longrightarrow> Q ds s'"
  shows "wp parseDecorators Q s"
  unfolding parseDecorators_def using assms(1)
  by (auto simp: wp_simps intro!: wp_whileM [where K = "\<lambda>_ _. True"] wp_peekIs wp_parseDecorator
      assms(2))

lemma wp_decoratorsOnLine [wp_rules]:
  assumes "I s" and "\<And>ds s'. I s' \<Longrightarrow> P_pos s \<le> P_pos s' \<Longrightarrow> Q ds s'"
  shows "wp (decoratorsOnLine line) Q s"
  unfolding decoratorsOnLine_def using assms(1)
  by (auto simp: wp_simps intro!: wp_loop [where K = "\<lambda>_ _. True"] wp_peekP wp_parseDecorator
      wp_prevToken assms(2))

lemma wp_rejectDecoratorsAfter [wp_rules]:
  assumes "I s" and "0 < P_pos s" and "\<And>s'. I s' \<Longrightarrow> P_pos s \<le> P_pos s' \<Longrightarrow> Q () s'"
  shows "wp (rejectDecoratorsAfter what starts) Q s"
proof -
  have rew: "I (s'\<lparr>P_pos := P_pos s\<rparr>)" if "I s'" for s'
    using that I_pos [OF assms(1)] by (rule I_rewind)
  show ?thesis
    unfolding rejectDecoratorsAfter_def using assms(1,2)
    by (auto simp: wp_simps intro!: wp_prevToken wp_decoratorsOnLine wp_peekP wp_foldr wp_errorfP
        rew assms(3))
qed

lemma wp_rejectMixinDecorators [wp_rules]:
  assumes "I s" and "\<And>s'. I s' \<Longrightarrow> P_pos s' = P_pos s \<Longrightarrow> Q () s'"
  shows "wp (rejectMixinDecorators pos decs) Q s"
  unfolding rejectMixinDecorators_def
  by (rule wp_foldr [OF assms(1)]) (auto intro!: wp_errorfP assms(2))

lemma wp_memberHead [wp_rules]:
  assumes "I s" and "\<And>doc decs s'. I s' \<Longrightarrow> P_pos s \<le> P_pos s' \<Longrightarrow>
      Q (doc, decs, toks ! P_pos s') s'"
  shows "wp memberHead Q s"
proof -
  have "Q (doc, decs, toks ! P_pos s1) s2"
    if "I s2" "P_pos s \<le> P_pos s1" "P_pos s2 = P_pos s1" for doc decs s1 s2
    using that assms(2) [of s2 doc decs] by simp
  then show ?thesis
    unfolding memberHead_def using assms(1)
    by (auto simp: wp_simps intro!: wp_docAbove wp_parseDecorators wp_peekP wp_claimChain)
qed

lemma wp_danglingDecorators [wp_rules]:
  assumes "I s" and "\<And>s'. I s' \<Longrightarrow> P_pos s' = P_pos s \<Longrightarrow> Q () s'"
  shows "wp (danglingDecorators decs what) Q s"
  unfolding danglingDecorators_def using assms(1)
  by (auto simp: wp_simps intro!: wp_errorfP assms(2))

section \<open>Types\<close>

lemma empty_token_sel [simp]: "tok_Text (empty_token p) = []" "tok_Pos (empty_token p) = p"
  "tok_Kind (empty_token p) = EOF"
  by (simp_all add: empty_token_def)

lemma wp_expect_name [wp_rules]:
  assumes "I s" and "\<And>t ok s'. I s' \<Longrightarrow> P_pos s \<le> P_pos s' \<Longrightarrow> name_ok (tok_Text t) \<Longrightarrow> Q (t, ok) s'"
  shows "wp (expect Ident) Q s"
  using assms(1) I_ident [OF assms(1)]
  by (auto simp: name_ok_def intro!: wp_expect assms(2))

lemma wp_append_some [wp_rules]:
  assumes "wp p (\<lambda>m s'. Q (case m of None \<Rightarrow> xs | Some y \<Rightarrow> xs @ [wrap y]) s') s"
  shows "wp (append_some p wrap xs) Q s"
  unfolding append_some_def wp_bind by (rule wp_mono [OF assms]) (simp add: wp_ret)

lemma wp_parseTypeParams [wp_rules]:
  assumes "I s" and "\<And>ps s'. I s' \<Longrightarrow> P_pos s \<le> P_pos s' \<Longrightarrow> distinct ps \<Longrightarrow> list_all IsIdent ps \<Longrightarrow> Q ps s'"
  shows "wp parseTypeParams Q s"
  unfolding parseTypeParams_def Let_def using assms(1)
  by (auto simp: wp_simps I_ident intro!: wp_openList wp_peekP wp_errorfP wp_advanceP wp_expect wp_listSep wp_opener
      wp_loop [where K = "\<lambda>ps _. distinct ps \<and> list_all IsIdent ps"] wp_moreP wp_closeList
      wp_claimInside assms(2))

lemma wp_parseField [wp_rules]:
  assumes "I s" and "tok_Kind (toks ! P_pos s) = Ident \<or> IsKeyword (tok_Kind (toks ! P_pos s))"
    and "\<And>f s'. I s' \<Longrightarrow> P_pos s \<le> P_pos s' \<Longrightarrow> member_wf (TM_Field f) \<Longrightarrow> Q f s'"
  shows "wp (parseField doc decs) Q s"
proof -
  have "tok_Kind (toks ! P_pos s) \<noteq> EOF" using assms(2) by (auto simp: kind_ranges)
  then show ?thesis
    unfolding parseField_def using assms(1) I_word [OF assms(1,2)]
    by (auto simp: wp_simps intro!: wp_advanceP wp_parseTypeRef wp_prevToken wp_decoratorsOnLine
        assms(3))
qed

lemma wp_rejectMixinTrailingDecorators [wp_rules]:
  assumes "I s" and "0 < P_pos s" and "\<And>s'. I s' \<Longrightarrow> P_pos s \<le> P_pos s' \<Longrightarrow> Q () s'"
  shows "wp (rejectMixinTrailingDecorators pos) Q s"
  unfolding rejectMixinTrailingDecorators_def using assms(1,2)
  by (auto simp: wp_simps intro!: wp_prevToken wp_decoratorsOnLine wp_rejectMixinDecorators assms(3))

lemma wp_parseTypeMember [wp_rules]:
  assumes "I s" and "\<And>m s'. I s' \<Longrightarrow> P_pos s \<le> P_pos s' \<Longrightarrow>
      (case m of None \<Rightarrow> True | Some x \<Rightarrow> member_wf x) \<Longrightarrow> Q m s'"
  shows "wp parseTypeMember Q s"
  unfolding parseTypeMember_def using assms(1)
  by (auto simp: wp_simps intro!: wp_memberHead wp_danglingDecorators wp_parseField wp_errorfP
      wp_skipUntil tests wp_peekAt wp_parseNamedTypeRef wp_rejectMixinDecorators
      wp_rejectMixinTrailingDecorators assms(2))

lemma list_all_merge:
  "list_all P ms \<Longrightarrow> (\<And>f. P (as f)) \<Longrightarrow> list_all P (mergeFreeComments pos ms fcs as)"
proof -
  assume as: "\<And>f. P (as f)" and "list_all P ms"
  then have "list_all P (merge_loop pos as ms fcs)"
    by (induction pos as ms fcs rule: merge_loop.induct) auto
  then show ?thesis using \<open>list_all P ms\<close> by (simp add: mergeFreeComments_def)
qed

lemma wp_parseTypeBody [wp_rules]:
  assumes "I s" and "\<And>ms t s'. I s' \<Longrightarrow> P_pos s \<le> P_pos s' \<Longrightarrow> list_all member_wf ms \<Longrightarrow> Q (ms, t) s'"
  shows "wp (parseTypeBody header) Q s"
  unfolding parseTypeBody_def using assms(1)
  by (auto simp: wp_simps intro!: wp_braced [where K = "list_all member_wf"] wp_append_some
      wp_parseTypeMember wp_harvestFreeComments list_all_merge assms(2) split: option.splits)

lemma wp_parseTypeDecl [wp_rules]:
  assumes "I s" and "\<And>d s'. I s' \<Longrightarrow> P_pos s \<le> P_pos s' \<Longrightarrow>
      (tok_Kind (toks ! P_pos s) \<noteq> EOF \<Longrightarrow> P_pos s < P_pos s') \<Longrightarrow> decl_wf (D_Type d) \<Longrightarrow> Q d s'"
  shows "wp (parseTypeDecl decs doc) Q s"
  unfolding parseTypeDecl_def Let_def using assms(1)
  by (auto simp: wp_simps intro!: wp_advanceP wp_expect_name wp_peekIs wp_parseTypeParams
      wp_expect_any [of _ _ LBrace] wp_parseTypeBody assms(2))

section \<open>Other declarations\<close>

lemma wp_parseEnumLiteral [wp_rules]:
  assumes "I s" and "enum_value_wf v" and "ev_Kind v = EnumBare"
    and "\<And>v' s'. I s' \<Longrightarrow> P_pos s \<le> P_pos s' \<Longrightarrow> enum_value_wf v' \<Longrightarrow> Q v' s'"
  shows "wp (parseEnumLiteral v) Q s"
  unfolding parseEnumLiteral_def using assms(1-3)
  by (auto simp: wp_simps enum_value_wf_def intro!: wp_peekP wp_advanceP wp_signedInt wp_errorfP assms(4))

lemma enum_value_wf_decorators [simp]: "enum_value_wf (v\<lparr>ev_Decorators := ds\<rparr>) = enum_value_wf v"
  by (simp add: enum_value_wf_def)

lemma in_int64_zero: "in_int64 0"
  by (simp add: in_int64_def min_int64_def max_int64_def)

lemma wp_enum_value_tail:
  assumes "I s" and "0 < P_pos s" and "enum_value_wf v" and "ev_Kind v = EnumBare"
    and "\<And>v' s'. I s' \<Longrightarrow> P_pos s \<le> P_pos s' \<Longrightarrow> enum_value_wf v' \<Longrightarrow> Q (Some v') s'"
  shows "wp (do { eq' \<leftarrow> peekIs Equal;
       v' \<leftarrow> (if eq' then do { _ \<leftarrow> advanceP; parseEnumLiteral v } else ret v);
       prev \<leftarrow> prevToken;
       trailing \<leftarrow> decoratorsOnLine (pos_Line (tok_Pos prev));
       ret (Some (v'\<lparr>ev_Decorators := ev_Decorators v' @ trailing\<rparr>)) }) Q s"
  using assms(1-4)
  by (auto simp: wp_simps intro!: wp_peekIs wp_advanceP wp_parseEnumLiteral wp_prevToken
      wp_decoratorsOnLine assms(5))

lemma wp_parseEnumValue [wp_rules]:
  assumes "I s" and "\<And>v s'. I s' \<Longrightarrow> P_pos s \<le> P_pos s' \<Longrightarrow>
      (case v of None \<Rightarrow> True | Some x \<Rightarrow> enum_value_wf x) \<Longrightarrow> Q v s'"
  shows "wp parseEnumValue Q s"
proof -
  let ?rest = "\<lambda>(doc, decs, t). (if decs \<noteq> [] \<and> (tok_Kind t = RBrace \<or> tok_Kind t = EOF) then do {
       danglingDecorators decs ''enum value'';
       ret None }
     else if tok_Kind t = RBrace then ret None
     else if tok_Kind t \<noteq> Ident \<and> \<not> IsKeyword (tok_Kind t) then do {
       errorfP (tok_Pos t) (Msg ''expected enum value name, got %s'' [AKind (tok_Kind t)]);
       whenM (tok_Kind t \<noteq> EOF) (skipUntil True startsLine);
       ret None }
     else do {
       _ \<leftarrow> advanceP;
       let v = \<lparr>ev_Pos = tok_Pos t, ev_Doc = doc, ev_Name = tok_Text t, ev_Kind = EnumBare,
          ev_IntValue = 0, ev_StrValue = [], ev_StrText = [], ev_Decorators = decs\<rparr>;
       eq' \<leftarrow> peekIs Equal;
       v' \<leftarrow> (if eq' then do { _ \<leftarrow> advanceP; parseEnumLiteral v } else ret v);
       prev \<leftarrow> prevToken;
       trailing \<leftarrow> decoratorsOnLine (pos_Line (tok_Pos prev));
       ret (Some (v'\<lparr>ev_Decorators := ev_Decorators v' @ trailing\<rparr>)) })"
  have rest: "wp (?rest (doc, decs, toks ! P_pos s1)) Q s1"
    if "I s1" "P_pos s \<le> P_pos s1" for doc decs s1
  proof -
    have word: "tok_Kind (toks ! P_pos s1) \<noteq> EOF \<and> tok_Text (toks ! P_pos s1) \<noteq> []"
      if "tok_Kind (toks ! P_pos s1) = Ident \<or> IsKeyword (tok_Kind (toks ! P_pos s1))"
      using I_word [OF \<open>I s1\<close> that] that by (auto simp: kind_ranges)
    show ?thesis
      using that word
      by (auto simp: wp_bind [of advanceP] wp_bind [of "danglingDecorators _ _"] wp_bind [of "errorfP _ _"]
          wp_bind [of "whenM _ _"] wp_if wp_ret wp_when Let_def enum_value_wf_def in_int64_zero
          intro!: wp_danglingDecorators wp_errorfP wp_skipUntil tests wp_advanceP
          wp_enum_value_tail assms(2))
  qed
  show ?thesis
    unfolding parseEnumValue_def using assms(1)
    by (auto simp: wp_bind [of peekP] wp_bind [of "peekAt _"] wp_bind [of "whenM _ _"] wp_when
        wp_bind [of memberHead] wp_bind [of advanceP] wp_bind [of "errorfP _ _"] wp_ret
        intro!: wp_peekP wp_peekAt wp_errorfP wp_advanceP wp_memberHead rest [unfolded prod.case])
qed

lemma wp_parseEnumDecl [wp_rules]:
  assumes "I s" and "\<And>d s'. I s' \<Longrightarrow> P_pos s \<le> P_pos s' \<Longrightarrow>
      (tok_Kind (toks ! P_pos s) \<noteq> EOF \<Longrightarrow> P_pos s < P_pos s') \<Longrightarrow> decl_wf (D_Enum d) \<Longrightarrow> Q d s'"
  shows "wp (parseEnumDecl decs doc) Q s"
  unfolding parseEnumDecl_def using assms(1)
  by (auto simp: wp_simps intro!: wp_advanceP wp_expect_name wp_braced [where K = "list_all enum_member_wf"]
      wp_append_some wp_parseEnumValue wp_harvestFreeComments list_all_merge assms(2) split: option.splits)

lemma wp_parseErrorDecl [wp_rules]:
  assumes "I s" and "\<And>d s'. I s' \<Longrightarrow> P_pos s \<le> P_pos s' \<Longrightarrow>
      (tok_Kind (toks ! P_pos s) \<noteq> EOF \<Longrightarrow> P_pos s < P_pos s') \<Longrightarrow> decl_wf (D_Error d) \<Longrightarrow> Q d s'"
  shows "wp (parseErrorDecl decs doc) Q s"
  unfolding parseErrorDecl_def Let_def using assms(1)
  by (auto simp: wp_simps intro!: wp_advanceP wp_expect_name wp_errorfP wp_peekIs wp_parseTypeBody assms(2))

lemma wp_parseScalarDecl [wp_rules]:
  assumes "I s" and "\<And>d s'. I s' \<Longrightarrow> P_pos s \<le> P_pos s' \<Longrightarrow>
      (tok_Kind (toks ! P_pos s) \<noteq> EOF \<Longrightarrow> P_pos s < P_pos s') \<Longrightarrow> decl_wf (D_Scalar d) \<Longrightarrow> Q d s'"
  shows "wp (parseScalarDecl decs doc) Q s"
  unfolding parseScalarDecl_def using assms(1)
  by (auto simp: wp_simps intro!: wp_advanceP wp_expect_name wp_decoratorsOnLine assms(2))

lemma wp_parseMiddlewareDecl [wp_rules]:
  assumes "I s" and "\<And>d s'. I s' \<Longrightarrow> P_pos s \<le> P_pos s' \<Longrightarrow>
      (tok_Kind (toks ! P_pos s) \<noteq> EOF \<Longrightarrow> P_pos s < P_pos s') \<Longrightarrow> decl_wf (D_Middleware d) \<Longrightarrow> Q d s'"
  shows "wp (parseMiddlewareDecl decs doc) Q s"
  unfolding parseMiddlewareDecl_def using assms(1)
  by (auto simp: wp_simps intro!: wp_advanceP wp_expect_name wp_peekP wp_errorfP wp_skipParens assms(2))

section \<open>Services and events\<close>

lemma wp_parseMemberBody:
  assumes "I s" and "case stop of None \<Rightarrow> True | Some c \<Rightarrow> test c" and "K x"
    and clause: "\<And>x s1 Q. I s1 \<Longrightarrow> K x \<Longrightarrow> (\<And>b x' s'. I s' \<Longrightarrow> P_pos s1 \<le> P_pos s' \<Longrightarrow> K x' \<Longrightarrow> Q (b, x') s') \<Longrightarrow>
      wp (fn (toks ! P_pos s1) x) Q s1"
    and post: "\<And>b x s'. I s' \<Longrightarrow> P_pos s \<le> P_pos s' \<Longrightarrow> K x \<Longrightarrow> Q (b, x) s'"
  shows "wp (parseMemberBody header stop fn expected x) Q s"
  unfolding parseMemberBody_def using assms(1-3)
  by (auto simp: wp_simps intro!: wp_braced [where K = K] wp_peekP clause wp_errorfP wp_skipUntil tests
      wp_harvestFreeComments post)

lemma wp_rejectOptionalSuffix [wp_rules]:
  assumes "I s" and "\<And>s'. I s' \<Longrightarrow> P_pos s \<le> P_pos s' \<Longrightarrow> Q () s'"
  shows "wp (rejectOptionalSuffix slot) Q s"
  unfolding rejectOptionalSuffix_def using assms(1)
  by (auto simp: wp_simps intro!: wp_peekP wp_errorfP wp_advanceP assms(2))

lemma wp_rejectMethodTypeSuffix [wp_rules]:
  assumes "I s" and "\<And>s'. I s' \<Longrightarrow> P_pos s \<le> P_pos s' \<Longrightarrow> Q () s'"
  shows "wp (rejectMethodTypeSuffix slot) Q s"
  unfolding rejectMethodTypeSuffix_def using assms(1)
  by (auto simp: wp_simps intro!: wp_peekP wp_errorfP wp_advanceP wp_peekIs wp_rejectOptionalSuffix assms(2))

lemma wp_parseEventPayloadSuffix [wp_rules]:
  assumes "I s" and "nt_wf (Some (ep_Type pl))"
    and "\<And>pl s'. I s' \<Longrightarrow> P_pos s \<le> P_pos s' \<Longrightarrow> nt_wf (Some (ep_Type pl)) \<Longrightarrow> Q pl s'"
  shows "wp (parseEventPayloadSuffix pl) Q s"
  unfolding parseEventPayloadSuffix_def using assms(1,2)
  by (auto simp: wp_simps intro!: wp_whileM [where K = "\<lambda>pl _. nt_wf (Some (ep_Type pl))"] wp_peekIs
      wp_advanceP wp_expect_any wp_errorfP wp_rejectOptionalSuffix assms(3))

text \<open>One segment of a route: it is never empty, but for the root.\<close>

lemma isPathWordToken_EOF [simp]: "\<not> isPathWordToken EOF"
  by (simp add: isPathWordToken_def kind_ranges)

lemma wp_path_segment:
  assumes "I s" and K: "list_all segment_wf segs"
    and go: "\<And>segs' s'. I s' \<Longrightarrow> P_pos s \<le> P_pos s' \<Longrightarrow> list_all segment_wf segs' \<Longrightarrow>
      segs' = [] \<longrightarrow> tok_Kind (toks ! P_pos s') = Slash \<Longrightarrow> Q (True, segs') s'"
    and exit: "\<And>segs' s'. I s' \<Longrightarrow> P_pos s \<le> P_pos s' \<Longrightarrow> path_wf \<lparr>pa_Pos = p, pa_Segments = segs'\<rparr> \<Longrightarrow>
      Q (False, segs') s'"
  shows "wp (path_segment slash segs) Q s"
proof -
  have name: "word_ok (tok_Text (toks ! P_pos s2))"
    if "I s2" "P_pos s2 = Suc (P_pos s)" "isPathWordToken (tok_Kind t)"
      "P_pos s + 1 < length toks \<Longrightarrow> t = toks ! (P_pos s + 1)" for s2 t
    using that I_pos [OF that(1)] I_word_ok [OF that(1)] by (simp add: isPathWordToken_def)
  show ?thesis
    unfolding path_segment_def using assms(1) K(1) I_path_word [OF assms(1)] name
    by (auto simp: wp_simps path_wf_def segment_wf_def intro!: wp_peekP wp_peekAt_at wp_advanceP wp_expect_any
        wp_errorfP go exit)
qed

lemma wp_parsePath [wp_rules]:
  assumes "I s" and "tok_Kind (toks ! P_pos s) = Slash"
    and "\<And>p s'. I s' \<Longrightarrow> P_pos s \<le> P_pos s' \<Longrightarrow> path_wf p \<Longrightarrow> Q p s'"
  shows "wp parsePath Q s"
proof -
  let ?p = "tok_Pos (toks ! P_pos s)"
  let ?K = "\<lambda>segs s'. list_all segment_wf segs
    \<and> (segs = [] \<longrightarrow> tok_Kind (toks ! P_pos s') = Slash)"
  have "wp (path_round segs) (\<lambda>r s2. if fst r then I s2 \<and> P_pos s1 < P_pos s2 \<and> ?K (snd r) s2
      else I s2 \<and> P_pos s \<le> P_pos s2 \<and> path_wf \<lparr>pa_Pos = ?p, pa_Segments = snd r\<rparr>) s1"
    if "I s1" "P_pos s \<le> P_pos s1" "?K segs s1" for segs s1
    using that unfolding path_round_def
    by (auto simp: wp_simps path_wf_def intro!: wp_peekIs wp_advanceP wp_path_segment [where p = ?p])
  then have "wp (loop path_round []) (\<lambda>segs s'. I s' \<and> P_pos s \<le> P_pos s'
      \<and> path_wf \<lparr>pa_Pos = ?p, pa_Segments = segs\<rparr>) s"
    using assms(1,2) by (intro wp_loop_exit [where K = ?K]) auto
  then show ?thesis
    unfolding parsePath_def wp_bind
    by (intro wp_peekP [OF assms(1)]) (auto elim!: wp_mono simp: wp_ret intro!: assms(3))
qed

lemma wp_method_clause:
  assumes "I s" and "(case req of None \<Rightarrow> True | Some r \<Rightarrow> nt_wf (Some r))"
      "(case resp of None \<Rightarrow> True | Some r \<Rightarrow> nt_wf (Some (mr_Type r)))"
    and "\<And>b req resp s'. I s' \<Longrightarrow> P_pos s \<le> P_pos s' \<Longrightarrow>
      (case req of None \<Rightarrow> True | Some r \<Rightarrow> nt_wf (Some r)) \<Longrightarrow>
      (case resp of None \<Rightarrow> True | Some r \<Rightarrow> nt_wf (Some (mr_Type r))) \<Longrightarrow> Q (b, req, resp) s'"
  shows "wp (method_clause name t (req, resp)) Q s"
  unfolding method_clause_def using assms(1-3)
  by (auto simp: wp_simps intro!: wp_advanceP wp_errorfP wp_parseNamedTypeRef wp_peekP
      wp_rejectMethodTypeSuffix assms(4))

lemma wp_parseMethod [wp_rules]:
  assumes "I s" and "tok_Kind (toks ! P_pos s) \<noteq> EOF" and "\<exists>k. IsVerb k \<and> verb = kindNames k"
    and "\<And>m s'. I s' \<Longrightarrow> P_pos s < P_pos s' \<Longrightarrow> method_wf m \<Longrightarrow> Q m s'"
  shows "wp (parseMethod decs doc verb) Q s"
  unfolding parseMethod_def using assms(1-3)
  by (auto simp: wp_simps method_wf_def intro!: wp_advanceP wp_expect_name wp_peekIs wp_parsePath
      wp_parseMemberBody [where K = "\<lambda>(req, resp). (case req of None \<Rightarrow> True | Some r \<Rightarrow> nt_wf (Some r))
        \<and> (case resp of None \<Rightarrow> True | Some r \<Rightarrow> nt_wf (Some (mr_Type r)))"]
      wp_method_clause tests assms(4))

lemma wp_event_clause:
  assumes "I s" and "(case pl of None \<Rightarrow> True | Some p \<Rightarrow> nt_wf (Some (ep_Type p)))"
    and "\<And>b pl s'. I s' \<Longrightarrow> P_pos s \<le> P_pos s' \<Longrightarrow>
      (case pl of None \<Rightarrow> True | Some p \<Rightarrow> nt_wf (Some (ep_Type p))) \<Longrightarrow> Q (b, pl) s'"
  shows "wp (event_clause name t pl) Q s"
  unfolding event_clause_def using assms(1,2)
  by (auto simp: wp_simps intro!: wp_advanceP wp_errorfP wp_parseNamedTypeRef wp_peekP
      wp_parseEventPayloadSuffix assms(3))

lemma wp_parseEventDecl [wp_rules]:
  assumes "I s" and "\<And>d s'. I s' \<Longrightarrow> P_pos s \<le> P_pos s' \<Longrightarrow>
      (tok_Kind (toks ! P_pos s) \<noteq> EOF \<Longrightarrow> P_pos s < P_pos s') \<Longrightarrow> decl_wf (D_Event d) \<Longrightarrow> Q d s'"
  shows "wp (parseEventDecl decs doc) Q s"
  unfolding parseEventDecl_def using assms(1)
  by (auto simp: wp_simps intro!: wp_advanceP wp_expect_name wp_event_clause
      wp_parseMemberBody [where K = "\<lambda>pl. case pl of None \<Rightarrow> True | Some p \<Rightarrow> nt_wf (Some (ep_Type p))"]
      assms(2))

lemma upperVerb_verb:
  assumes "snd (upperVerb t)" shows "\<exists>k. IsVerb k \<and> fst (upperVerb t) = kindNames k"
  using assms keywords_tab_iff
  by (auto simp: upperVerb_def Let_def LookupKeyword_def split: if_splits option.splits)

lemma verb_spelling:
  assumes "I s" and "IsVerb (tok_Kind (toks ! P_pos s))"
  shows "\<exists>k. IsVerb k \<and> tok_Text (toks ! P_pos s) = kindNames k"
proof -
  have "IsKeyword (tok_Kind (toks ! P_pos s))"
    using assms(2) by (simp add: IsVerb_def IsKeyword_def less_eq_kind_def)
  then show ?thesis using I_keyword [OF assms(1)] assms(2) by auto
qed

lemma verb_not_EOF: "IsVerb k \<Longrightarrow> k \<noteq> EOF" "snd (upperVerb t) \<Longrightarrow> tok_Kind t \<noteq> EOF"
  by (auto simp: IsVerb_def less_eq_kind_def upperVerb_def)

lemma wp_parseServiceMember [wp_rules]:
  assumes "I s" and "\<And>m s'. I s' \<Longrightarrow> P_pos s \<le> P_pos s' \<Longrightarrow>
      (case m of None \<Rightarrow> True | Some x \<Rightarrow> method_wf x) \<Longrightarrow> Q m s'"
  shows "wp parseServiceMember Q s"
proof -
  have mth: "wp (do { m \<leftarrow> parseMethod decs doc verb; rejectDecoratorsAfter ''method'' IsVerb; ret (Some m) }) Q s1"
    if "I s1" "P_pos s \<le> P_pos s1" "tok_Kind (toks ! P_pos s1) \<noteq> EOF" "\<exists>k. IsVerb k \<and> verb = kindNames k"
    for decs doc verb s1
    using that by (auto simp: wp_simps intro!: wp_parseMethod wp_rejectDecoratorsAfter assms(2))
  note binds = wp_bind [of docAbove] wp_bind [of parseDecorators] wp_bind [of peekP]
    wp_bind [of "whenM _ _"] wp_bind [of "claimChain _ _"] wp_bind [of "errorfP _ _"]
  show ?thesis
    unfolding parseServiceMember_def Let_def wp_prod using assms(1) upperVerb_verb verb_spelling
    by (auto simp: binds wp_prod wp_if wp_when wp_ret verb_not_EOF
        intro!: wp_docAbove wp_parseDecorators wp_peekP wp_errorfP wp_claimChain mth wp_skipUntil
        tests assms(2))
qed

lemma wp_parseServiceDecl [wp_rules]:
  assumes "I s" and "\<And>d s'. I s' \<Longrightarrow> P_pos s \<le> P_pos s' \<Longrightarrow>
      (tok_Kind (toks ! P_pos s) \<noteq> EOF \<Longrightarrow> P_pos s < P_pos s') \<Longrightarrow> decl_wf (D_Service d) \<Longrightarrow> Q d s'"
  shows "wp (parseServiceDecl decs doc header ext) Q s"
  unfolding parseServiceDecl_def using assms(1)
  by (auto simp: wp_simps intro!: wp_advanceP wp_expect_name
      wp_braced [where K = "list_all service_member_wf"] wp_append_some wp_parseServiceMember
      wp_harvestFreeComments list_all_merge assms(2) split: option.splits)

section \<open>Files\<close>

abbreviation decl_result :: "Parser \<Rightarrow> Decl option \<Rightarrow> Parser \<Rightarrow> bool" where
  "decl_result s d s' \<equiv> (case d of None \<Rightarrow> True | Some x \<Rightarrow> decl_wf x \<and> P_pos s < P_pos s')"

lemma wp_parseExtendService [wp_rules]:
  assumes "I s" and "\<And>d s'. I s' \<Longrightarrow> P_pos s \<le> P_pos s' \<Longrightarrow> decl_result s d s' \<Longrightarrow> Q d s'"
  shows "wp (parseExtendService decs doc) Q s"
  unfolding parseExtendService_def using assms(1)
  by (auto simp: wp_simps intro!: wp_advanceP wp_peekP wp_errorfP wp_test [OF test_startsDeclaration]
      wp_skipUntil tests wp_parseServiceDecl assms(2))

lemma wp_parsePackage [wp_rules]:
  assumes "I s" and "tok_Kind (toks ! P_pos s) \<noteq> EOF"
    and "\<And>p s'. I s' \<Longrightarrow> P_pos s < P_pos s' \<Longrightarrow> name_ok (pd_Name p) \<Longrightarrow> Q p s'"
  shows "wp parsePackage Q s"
  unfolding parsePackage_def using assms(1,2)
  by (auto simp: wp_simps intro!: wp_advanceP wp_claimDoc wp_expect_name assms(3))

lemma wp_no_declaration [wp_rules]:
  assumes "I s" and "\<And>s'. I s' \<Longrightarrow> P_pos s \<le> P_pos s' \<Longrightarrow> Q None s'"
  shows "wp (no_declaration t) Q s"
  unfolding no_declaration_def using assms(1)
  by (auto simp: wp_simps intro!: wp_errorfP wp_skipLine wp_skipUntil tests assms(2))

lemma wp_parseTopLevelWith [wp_rules]:
  assumes "I s" and "\<And>d s'. I s' \<Longrightarrow> P_pos s \<le> P_pos s' \<Longrightarrow> decl_result s d s' \<Longrightarrow> Q d s'"
  shows "wp (parseTopLevelWith extra) Q s"
  unfolding parseTopLevelWith_def Let_def using assms(1)
  by (auto simp: wp_simps simp del: decl_wf.simps split: option.splits
      intro!: wp_docAbove wp_parseDecorators wp_peekP wp_claimChain wp_parseTypeDecl wp_parseEnumDecl
      wp_parseErrorDecl wp_parseScalarDecl wp_parseMiddlewareDecl wp_parseEventDecl wp_parseServiceDecl
      wp_parseExtendService wp_errorfP wp_no_declaration assms(2))

lemma wp_parse_decls [wp_rules]:
  assumes "I s" and "\<And>l ds s'. I s' \<Longrightarrow> P_pos s \<le> P_pos s' \<Longrightarrow> list_all decl_wf ds \<Longrightarrow>
      tok_Kind (toks ! P_pos s') = EOF \<Longrightarrow> Q (l, ds) s'"
  shows "wp (parse_decls leading) Q s"
  unfolding parse_decls_def using assms(1)
  by (auto simp: wp_simps simp del: decl_wf.simps intro!: wp_each [where K = "\<lambda>(l, ds). list_all decl_wf ds"] wp_parseTopLevelWith
      wp_rejectDecoratorsAfter assms(2))

lemma wp_parse_header [wp_rules]:
  assumes "I s" and "\<And>r s'. I s' \<Longrightarrow> P_pos s \<le> P_pos s' \<Longrightarrow>
      (case snd (snd (snd r)) of None \<Rightarrow> True | Some p \<Rightarrow> name_ok (pd_Name p)) \<Longrightarrow> Q r s'"
  shows "wp parse_header Q s"
  unfolding parse_header_def using assms(1)
  by (auto simp: wp_simps intro!: wp_peekIs wp_docAbove wp_parseDecorators wp_claimChain wp_parsePackage
      wp_rejectDecoratorsAfter assms(2))

lemma wp_Parse:
  assumes "I s" and "\<And>f s'. I s' \<Longrightarrow> list_all decl_wf (f_Decls f) \<Longrightarrow>
      (case f_Package f of None \<Rightarrow> True | Some p \<Rightarrow> name_ok (pd_Name p)) \<Longrightarrow>
      tok_Kind (toks ! P_pos s') = EOF \<Longrightarrow> Q f s'"
  shows "wp Parse Q s"
  unfolding Parse_def using assms(1)
  by (auto simp: wp_simps simp del: decl_wf.simps intro!: wp_parse_header wp_parse_decls wp_errorfP wp_harvestFreeComments assms(2))

end

section \<open>Runs\<close>

lemma well_spelled_Tokenize:
  "l_offset l \<le> length (l_src l) \<Longrightarrow> well_spelled (fst (Tokenize l))"
  using Tokenize_spelling by (auto simp: well_spelled_def)

lemma NewP_ok: "okP (NewP f src)"
proof -
  have "well_spelled (fst (Tokenize (New f src)))"
    using New_offset_le [of f src] by (intro well_spelled_Tokenize) simp
  moreover have "eof_terminated (fst (Tokenize (New f src)))" by (rule Tokenize_eof_terminated)
  ultimately show ?thesis
    by (auto simp: NewP_def okP_def Let_def eof_terminated_def split: prod.split)
qed

lemma NewP_sel:
  "P_tokens (NewP f src) = fst (Tokenize (New f src))"
  "P_diags (NewP f src) = Diagnostics (snd (Tokenize (New f src)))"
  "P_allComments (NewP f src) = Comments (snd (Tokenize (New f src)))"
  "P_reported (NewP f src) = d_Pos ` set (P_diags (NewP f src))"
  "P_claimed (NewP f src) = {}" "P_chainComments (NewP f src) = Map.empty" "P_pos (NewP f src) = 0"
  by (simp_all add: NewP_def Let_def split: prod.split)

text \<open>
  Any instance of \<open>parser_invariant\<close> that holds of a new parser holds of the parser \<open>Parse\<close>
  leaves, with what the rules say of every run.
\<close>

context parser_invariant
begin

lemma parse_source_run:
  assumes "toks = P_tokens (NewP f src)" and "J (NewP f src)"
  shows "J (snd (parse_source f src))" and "okP (snd (parse_source f src))"
    and "P_tokens (snd (parse_source f src)) = toks"
    and "list_all decl_wf (f_Decls (fst (parse_source f src)))"
    and "Suc (P_pos (snd (parse_source f src))) = length toks"
    and "case f_Package (fst (parse_source f src)) of None \<Rightarrow> True | Some p \<Rightarrow> name_ok (pd_Name p)"
proof -
  have "I (NewP f src)" unfolding I_def using assms NewP_ok by simp
  then have "wp Parse (\<lambda>f' s'. I s' \<and> list_all decl_wf (f_Decls f')
      \<and> (case f_Package f' of None \<Rightarrow> True | Some p \<Rightarrow> name_ok (pd_Name p))
      \<and> Suc (P_pos s') = length toks) (NewP f src)"
    by (rule wp_Parse) (auto simp: I_eof)
  then show "J (snd (parse_source f src))" "okP (snd (parse_source f src))"
    "P_tokens (snd (parse_source f src)) = toks"
    "list_all decl_wf (f_Decls (fst (parse_source f src)))"
    "Suc (P_pos (snd (parse_source f src))) = length toks"
    "case f_Package (fst (parse_source f src)) of None \<Rightarrow> True | Some p \<Rightarrow> name_ok (pd_Name p)"
    by (auto simp: wp_def parse_source_def I_def split: prod.splits)
qed

end

text \<open>The diagnostics of a run extend the lexer's, and no two of the parser's share a position.\<close>

definition diags_from :: "Diagnostic list \<Rightarrow> Parser \<Rightarrow> bool" where
  "diags_from ds s \<longleftrightarrow> P_reported s = d_Pos ` set (P_diags s)
     \<and> (\<exists>own. P_diags s = ds @ own \<and> distinct (map d_Pos own)
          \<and> (\<forall>d \<in> set own. d_Pos d \<notin> d_Pos ` set ds \<and> d_Code d = CodeSyntaxParse \<and> IsError d))"

interpretation diags: parser_invariant "diags_from ds" toks for ds toks
proof unfold_locales
  fix s pos msg
  assume "diags_from ds s" and new: "pos \<notin> P_reported s"
  then obtain own where o: "P_reported s = d_Pos ` set (P_diags s)" "P_diags s = ds @ own"
    "distinct (map d_Pos own)"
    "\<forall>d \<in> set own. d_Pos d \<notin> d_Pos ` set ds \<and> d_Code d = CodeSyntaxParse \<and> IsError d"
    by (auto simp: diags_from_def)
  then show "diags_from ds (s\<lparr>P_reported := insert pos (P_reported s),
      P_diags := P_diags s @ [mk_diag pos CodeSyntaxParse msg]\<rparr>)"
    using new unfolding diags_from_def
    by (auto intro!: exI [of _ "own @ [mk_diag pos CodeSyntaxParse msg]"])
qed (auto simp: diags_from_def)

lemma diags_from_NewP: "diags_from (P_diags (NewP f src)) (NewP f src)"
  by (simp add: diags_from_def NewP_sel)

end
