(* ===== verification/Parser_Spec.thy ===== *)
theory Parser_Spec
  imports Parser_Total
begin

text \<open>
  The properties of the parser, the syntax tree and the catalogues it reads, with their
  witnesses.
\<close>

section \<open>Runs of the parser\<close>

text \<open>
  C1. The parser returns a file on every source: no index goes out of range, no loop or
  recursion runs for more rounds than there are tokens, and it ends on the \<open>EOF\<close> token with
  the token stream as the lexer made it.
\<close>

theorem parse_total:
  "\<not> P_panic (snd (parse_source f src))
   \<and> P_tokens (snd (parse_source f src)) = fst (Tokenize (New f src))
   \<and> Suc (P_pos (snd (parse_source f src))) = length (fst (Tokenize (New f src)))"
  using diags.parse_source_run(2,3,5) [OF refl diags_from_NewP, of f src]
  by (simp add: okP_def NewP_sel)

text \<open>
  C2. Every declaration of the file is well-formed, diagnostics or not. In each type
  reference \<open>Array\<close> is \<open>ArrayDepth > 0\<close>, exactly one of \<open>Map\<close> and \<open>Named\<close> is set and no type
  argument is nil; type parameters are distinct identifiers; an enum value fits \<open>int64\<close> and
  has only the literal of its kind; a method's verb is one of the lexer's; a route has no
  empty segment unless it is the root.
\<close>

theorem parse_wf: "list_all decl_wf (f_Decls (fst (parse_source f src)))"
  using diags.parse_source_run(4) [OF refl diags_from_NewP] .

text \<open>
  C3. The parser's diagnostics follow the lexer's, are errors, and stand at positions
  different from each other and from the lexer's: one problem is reported once.
\<close>

theorem parse_diagnostics:
  "\<exists>own. P_diags (snd (parse_source f src)) = Diagnostics (snd (Tokenize (New f src))) @ own
     \<and> distinct (map d_Pos own)
     \<and> set (map d_Pos own) \<inter> set (map d_Pos (Diagnostics (snd (Tokenize (New f src))))) = {}
     \<and> list_all (\<lambda>d. d_Code d = CodeSyntaxParse \<and> IsError d) own"
proof -
  have "diags_from (P_diags (NewP f src)) (snd (parse_source f src))"
    by (rule diags.parse_source_run(1) [OF refl diags_from_NewP])
  then obtain own where "P_diags (snd (parse_source f src)) = P_diags (NewP f src) @ own"
    "distinct (map d_Pos own)"
    "\<forall>d \<in> set own. d_Pos d \<notin> d_Pos ` set (P_diags (NewP f src)) \<and> d_Code d = CodeSyntaxParse \<and> IsError d"
    by (auto simp: diags_from_def)
  then show ?thesis by (intro exI [of _ own]) (auto simp: NewP_sel list_all_iff)
qed

section \<open>The syntax tree and the catalogues\<close>

text \<open>
  \<open>Equal\<close> on type references is equality of the trees without their positions; so it is
  an equivalence, nil equals only nil, and equal references render the same.
\<close>

theorem TypeRef_Equal_iff:
  "(TypeRef_Equal t u \<longleftrightarrow> map_option erase_tr t = map_option erase_tr u)
   \<and> (TypeRef_Equal t u \<longrightarrow> TypeRef_String t = TypeRef_String u)"
  using Equal_erase(1) [of t u] String_erase(1) [of t] String_erase(1) [of u] by metis

theorem TypeRef_Equal_iff_witness:
  "TypeRef_String (Some (TypeRef zero_Position None None True False 2))
   = TypeRef_String (Some (TypeRef (zero_Position\<lparr>pos_Line := 3\<rparr>) None None True False 2))"
  using TypeRef_Equal_iff [of "Some (TypeRef zero_Position None None True False 2)"
      "Some (TypeRef (zero_Position\<lparr>pos_Line := 3\<rparr>) None None True False 2)"] by simp

text \<open>
  \<open>Capacity\<close> is the exact range of a built-in integer: of its two's complement or
  unsigned form at the width its row gives, 64 bits where it gives none; and it is defined
  on the integer kinds alone.
\<close>

theorem Capacity_range:
  "Capacity n = (if \<not> IsInteger n then None
     else let w = (case byName n of Some s \<Rightarrow> (if sp_Bits s = 0 then 64 else sp_Bits s) | None \<Rightarrow> 0)
       in if IsUnsigned n then Some (0, 2 ^ w - 1) else Some (- (2 ^ (w - 1)), 2 ^ (w - 1) - 1))
   \<and> (case Capacity n of None \<Rightarrow> True | Some (lo, hi) \<Rightarrow> lo \<le> 0 \<and> 0 < hi \<and> min_int64 \<le> lo \<and> hi < 2 ^ 64)"
proof (cases "byName n")
  case None
  then show ?thesis by (simp add: Capacity_None IsInteger_def kind_of_def)
next
  case (Some s)
  have "sp_Kind s = PInt \<or> sp_Kind s = PUint \<Longrightarrow> sp_Bits s \<in> {0, 8, 16, 32, 64}"
    using Some specs_bits by (simp add: byName_iff)
  then show ?thesis
    using Some
    by (cases "sp_Kind s")
       (auto simp: Capacity_width width_of_def IsInteger_def IsUnsigned_def kind_of_def min_int64_def)
qed

text \<open>
  An error category is a 4xx or 5xx status and back: the names with a category are those
  with a status in that range, and no two categories share one.
\<close>

theorem Status_faithful:
  "(IsCategory a \<longleftrightarrow> 400 \<le> Status a \<and> Status a < 600)
   \<and> (IsCategory a \<and> Status a = Status b \<longrightarrow> a = b)"
  using Status_iff Status_inj by blast

theorem Status_faithful_witness: "IsCategory ''Gone'' \<and> Status ''Gone'' = 410"
proof -
  have "Status ''Gone'' = 410" by code_simp
  then show ?thesis using Status_faithful [of "''Gone''"] by simp
qed

end
