(* ===== verification/Idents.thy ===== *)
theory Idents
  imports Token
begin

text \<open>
  The names of generated Go code: \<^verbatim>\<open>internal/idents/idents.go\<close>. \<open>SplitFieldName\<close> works on the
  runes of its argument as the source does; the case functions are those of the prelude. The
  lemmas show that splitting loses nothing but the separators and that the Go field names of
  one struct are distinct.
\<close>

section \<open>Words\<close>

definition commonInitialisms :: "string list" where
  "commonInitialisms =
    [''id'', ''url'', ''uri'', ''api'', ''http'', ''https'', ''json'', ''xml'', ''tcp'', ''udp'',
     ''dns'', ''db'', ''sql'', ''csv'', ''tls'', ''ssl'', ''sha'', ''md5'', ''cdn'', ''dom'',
     ''pdf'', ''gif'', ''jpeg'', ''png'', ''xss'', ''csrf'', ''cpu'', ''gpu'', ''ram'', ''os'',
     ''io'', ''eof'', ''ip'', ''mac'', ''utf8'', ''ascii'']"

definition isUpper :: "rune \<Rightarrow> bool" where
  "isUpper r \<longleftrightarrow> 65 \<le> r \<and> r \<le> 90"

definition isLower :: "rune \<Rightarrow> bool" where
  "isLower r \<longleftrightarrow> 97 \<le> r \<and> r \<le> 122"

definition runes :: "string \<Rightarrow> rune list" where
  "runes s = map snd (range_string 0 s)"

definition flush :: "string list \<times> string \<Rightarrow> string list \<times> string" where
  "flush st = (case st of (parts, current) \<Rightarrow>
     if length current > 0 then (parts @ [current], []) else (parts, current))"

definition split_step :: "rune list \<Rightarrow> string list \<times> string \<Rightarrow> nat \<Rightarrow> string list \<times> string" where
  "split_step rs st i =
     (let r = rs ! i
      in if r = 95 \<or> r = 45 then flush st
         else
           let st' = (if i > 0 then
                 (let prev = rs ! (i - 1)
                  in if isUpper r \<and> isLower prev then flush st
                     else if isUpper r \<and> isUpper prev \<and> i + 1 < length rs \<and> isLower (rs ! (i + 1))
                     then flush st
                     else st)
               else st)
           in (fst st', snd st' @ AppendRune r))"

definition SplitFieldName :: "string \<Rightarrow> string list" where
  "SplitFieldName s =
     (if s = [] then []
      else fst (flush (foldl (split_step (runes s)) ([], []) [0..<length (runes s)])))"

definition go_word :: "string \<Rightarrow> string" where
  "go_word p =
     (if p = [] then []
      else if ToLower p \<in> set commonInitialisms then ToUpper p
      else ToUpper (take 1 p) @ ToLower (drop 1 p))"

definition GoFieldName :: "string \<Rightarrow> string" where
  "GoFieldName name = concat (map go_word (SplitFieldName name))"

section \<open>File names\<close>

definition FileCaseKebab :: string where "FileCaseKebab = ''kebab''"

definition FileCaseSnake :: string where "FileCaseSnake = ''snake''"

definition FileCaseCamel :: string where "FileCaseCamel = ''camel''"

definition DefaultFileCase :: string where "DefaultFileCase = FileCaseSnake"

definition FileNameWords :: "string \<Rightarrow> string list \<Rightarrow> string" where
  "FileNameWords style words =
     (let lowered = map ToLower words;
          style' = (if style = [] then DefaultFileCase else style)
      in if style' = FileCaseSnake then Join lowered ''_''
         else if style' = FileCaseCamel
         then concat (map (\<lambda>(i, w). if i > 0 \<and> w \<noteq> [] then ToUpper (take 1 w) @ drop 1 w else w)
                (enumerate 0 lowered))
         else Join lowered ''-'')"

definition FileName :: "string \<Rightarrow> string \<Rightarrow> string" where
  "FileName name style = FileNameWords style (SplitFieldName name)"

definition KebabCase :: "string \<Rightarrow> string" where
  "KebabCase s = FileName s FileCaseKebab"

definition MiddlewareFileName :: "string \<Rightarrow> string \<Rightarrow> string" where
  "MiddlewareFileName name style = FileNameWords style (SplitFieldName name @ [''middleware''])"

definition knownOS :: "string list" where
  "knownOS = [''aix'', ''android'', ''darwin'', ''dragonfly'', ''freebsd'', ''hurd'', ''illumos'',
     ''ios'', ''js'', ''linux'', ''nacl'', ''netbsd'', ''openbsd'', ''plan9'', ''solaris'',
     ''wasip1'', ''windows'', ''zos'']"

definition knownArch :: "string list" where
  "knownArch = [''386'', ''amd64'', ''amd64p32'', ''arm'', ''armbe'', ''arm64'', ''arm64be'',
     ''loong64'', ''mips'', ''mipsle'', ''mips64'', ''mips64le'', ''mips64p32'', ''mips64p32le'',
     ''ppc'', ''ppc64'', ''ppc64le'', ''riscv'', ''riscv64'', ''s390'', ''s390x'', ''sparc'',
     ''sparc64'', ''wasm'']"

definition GoFileProblem :: "string \<Rightarrow> message option" where
  "GoFileProblem base =
     (if HasPrefix base ''_'' \<or> HasPrefix base ''.''
      then Some (Msg ''the go command ignores a file whose name opens with `_` or `.`'' [])
      else if HasSuffix base ''_test''
      then Some (Msg ''the go command builds a `_test.go` file only for tests'' [])
      else case IndexByte base (CHR ''_'') of
        None \<Rightarrow> None
      | Some i \<Rightarrow>
          let last' = last (SplitByte (drop (i + 1) base) (CHR ''_''))
          in if last' \<in> set knownOS \<or> last' \<in> set knownArch
             then Some (Msg ''the go command builds a file whose name ends in `_%s` only for that system''
                    [AStr last'])
             else None)"

section \<open>Collisions\<close>

record Collision =
  col_DSLNames :: "string list"
  col_CanonicalGoName :: string
  col_ResolvedGoNames :: "string list"

text \<open>The first loop of \<open>DedupGoFieldNames\<close>: the indices of each Go name, and the names in order.\<close>

definition group_step ::
    "string list \<Rightarrow> (string \<rightharpoonup> nat list) \<times> string list \<Rightarrow> nat \<Rightarrow> (string \<rightharpoonup> nat list) \<times> string list" where
  "group_step dslNames st i =
     (case st of (groups, order) \<Rightarrow>
        let gon = GoFieldName (dslNames ! i)
        in (groups(gon \<mapsto> (case groups gon of Some is \<Rightarrow> is | None \<Rightarrow> []) @ [i]),
            if groups gon = None then order @ [gon] else order))"

definition rank_name :: "string \<Rightarrow> nat \<Rightarrow> string" where
  "rank_name canonical rank =
     (if rank = 0 then canonical else canonical @ ''_'' @ Itoa (rank + 1))"

text \<open>The second loop: a group of one keeps its name, and each of a larger group gets its rank's.\<close>

definition resolve_step ::
    "string list \<Rightarrow> (string \<rightharpoonup> nat list) \<Rightarrow> string list \<times> Collision list \<Rightarrow> string \<Rightarrow> string list \<times> Collision list" where
  "resolve_step dslNames groups st canonical =
     (case st of (resolved, collisions) \<Rightarrow>
        let indices = the (groups canonical)
        in if length indices = 1 then (resolved[hd indices := canonical], collisions)
           else
             let named = map (\<lambda>(rank, idx). (idx, rank_name canonical rank)) (enumerate 0 indices)
             in (foldl (\<lambda>res (idx, n). res[idx := n]) resolved named,
                 collisions @ [\<lparr>col_DSLNames = map (\<lambda>idx. dslNames ! idx) indices,
                    col_CanonicalGoName = canonical, col_ResolvedGoNames = map snd named\<rparr>]))"

definition DedupGoFieldNames :: "string list \<Rightarrow> string list \<times> Collision list" where
  "DedupGoFieldNames dslNames =
     (let (groups, order) = foldl (group_step dslNames) (Map.empty, []) [0..<length dslNames]
      in foldl (resolve_step dslNames groups) (replicate (length dslNames) [], []) order)"

definition EnumConstNames :: "string \<Rightarrow> string list \<Rightarrow> string list" where
  "EnumConstNames enum values = map (\<lambda>n. enum @ n) (fst (DedupGoFieldNames values))"

section \<open>Other names\<close>

definition pascal_step :: "string \<times> bool \<Rightarrow> char \<Rightarrow> string \<times> bool" where
  "pascal_step st c = (case st of (b, upNext) \<Rightarrow>
     if c = CHR ''-'' \<or> c = CHR ''_'' \<or> c = CHR ''/'' then (b, True)
     else if upNext then (b @ [upper_char c], False)
     else (b @ [c], False))"

definition PascalCase :: "string \<Rightarrow> string" where
  "PascalCase s = fst (foldl pascal_step ([], True) s)"

definition ErrorTypeName :: "string \<Rightarrow> string" where
  "ErrorTypeName name =
     (if HasSuffix name ''Err'' \<or> HasSuffix name ''Error'' then name else name @ ''Err'')"

definition ErrorBodyName :: "string \<Rightarrow> string" where
  "ErrorBodyName name = name @ ''Body''"

definition ErrorCodeName :: "string \<Rightarrow> string" where
  "ErrorCodeName name = ''ErrCode'' @ name"

definition ErrorConstructorName :: "string \<Rightarrow> string" where
  "ErrorConstructorName name = ''New'' @ ErrorTypeName name"

definition CookieConstructorName :: "string \<Rightarrow> string \<Rightarrow> string" where
  "CookieConstructorName owner field = ''New'' @ owner @ field @ ''Cookie''"

definition LogicTypeName :: "string \<Rightarrow> string" where
  "LogicTypeName method' = method' @ ''Service''"

definition LogicConstructorName :: "string \<Rightarrow> string" where
  "LogicConstructorName method' = ''New'' @ LogicTypeName method'"

definition LogicRival :: "string \<Rightarrow> string" where
  "LogicRival method' = ''New'' @ method'"

definition LogicEmbed :: string where "LogicEmbed = ''Logger''"

definition ServiceContextFields :: "string list" where
  "ServiceContextFields = [''Config'', ''Middlewares'']"

definition EventContractName :: "string \<Rightarrow> string" where
  "EventContractName event = event @ ''Contract''"

section \<open>Splitting loses only separators\<close>

lemma flush_concat: "concat (fst (flush st)) @ snd (flush st) = concat (fst st) @ snd st"
  by (cases st) (auto simp: flush_def)

lemma flush_current: "snd (flush st) = []"
  by (cases st) (simp add: flush_def)

lemma split_step_concat:
  "concat (fst (split_step rs st i)) @ snd (split_step rs st i)
     = (concat (fst st) @ snd st) @ (if rs ! i = 95 \<or> rs ! i = 45 then [] else AppendRune (rs ! i))"
  using flush_concat [of st] by (simp add: split_step_def Let_def flip: append_assoc)

lemma split_fold_concat:
  "n \<le> length rs \<Longrightarrow>
     concat (fst (foldl (split_step rs) ([], []) [0..<n])) @ snd (foldl (split_step rs) ([], []) [0..<n])
     = concat (map AppendRune (filter (\<lambda>r. r \<noteq> 95 \<and> r \<noteq> 45) (take n rs)))"
proof (induction n)
  case (Suc n)
  then show ?case by (simp add: split_step_concat take_Suc_conv_app_nth)
qed simp

lemma concat_SplitFieldName:
  "concat (SplitFieldName s) = concat (map AppendRune (filter (\<lambda>r. r \<noteq> 95 \<and> r \<noteq> 45) (runes s)))"
proof (cases "s = []")
  case False
  let ?st = "foldl (split_step (runes s)) ([], []) [0..<length (runes s)]"
  have "concat (fst (flush ?st)) = concat (fst ?st) @ snd ?st"
    using flush_concat [of ?st] flush_current [of ?st] by simp
  then show ?thesis
    using False split_fold_concat [of "length (runes s)" "runes s"] by (simp add: SplitFieldName_def)
qed (simp add: SplitFieldName_def runes_def)

text \<open>The byte of an underscore comes from no other rune, and changing case makes none.\<close>

lemma of_char_char_of: "(of_char (char_of n :: char) :: nat) = n mod 256"
  by simp

lemma AppendRune_no_underscore:
  assumes "r \<noteq> 95" shows "CHR ''_'' \<notin> set (AppendRune r)"
proof
  assume "CHR ''_'' \<in> set (AppendRune r)"
  then obtain b where b: "b \<in> set (encode_bytes (if ValidRune r then r else RuneError))"
    "CHR ''_'' = char_of b" by (auto simp: AppendRune_def)
  moreover have "(if ValidRune r then r else RuneError) \<le> 0x10FFFF"
    by (auto simp: ValidRune_def RuneError_def)
  ultimately have "b < 256" using encode_bytes_lt_256 by blast
  moreover have "(of_char (CHR ''_'') :: nat) = 95" by simp
  ultimately have "b = 95" using b(2) of_char_char_of [of b] by simp
  then show False
    using b(1) assms by (auto simp: encode_bytes_def RuneError_def split: if_splits)
qed

lemma upper_char_underscore: "upper_char c = CHR ''_'' \<Longrightarrow> c = CHR ''_''"
proof (rule ccontr)
  assume u: "upper_char c = CHR ''_''" and "c \<noteq> CHR ''_''"
  then have r: "97 \<le> (of_char c :: nat)" "(of_char c :: nat) \<le> 122"
    by (auto simp: upper_char_def split: if_splits)
  then have "(of_char (upper_char c) :: nat) = of_char c - 32"
    by (simp add: upper_char_def)
  with u have "(of_char c :: nat) - 32 = 95" by simp
  with r show False by simp
qed

lemma lower_char_underscore: "lower_char c = CHR ''_'' \<Longrightarrow> c = CHR ''_''"
proof (rule ccontr)
  assume u: "lower_char c = CHR ''_''" and "c \<noteq> CHR ''_''"
  then have r: "65 \<le> (of_char c :: nat)" "(of_char c :: nat) \<le> 90"
    by (auto simp: lower_char_def split: if_splits)
  then have "(of_char (lower_char c) :: nat) = of_char c + 32"
    by (simp add: lower_char_def)
  with u have "(of_char c :: nat) + 32 = 95" by simp
  with r show False by simp
qed

lemma go_word_no_underscore: "CHR ''_'' \<notin> set p \<Longrightarrow> CHR ''_'' \<notin> set (go_word p)"
  by (auto simp: go_word_def ToUpper_def ToLower_def
      dest!: upper_char_underscore lower_char_underscore sym [of "CHR ''_''"]
      dest: in_set_takeD in_set_dropD)

lemma GoFieldName_no_underscore: "CHR ''_'' \<notin> set (GoFieldName name)"
proof -
  have "CHR ''_'' \<notin> set (concat (SplitFieldName name))"
    unfolding concat_SplitFieldName using AppendRune_no_underscore by auto
  then show ?thesis using go_word_no_underscore by (auto simp: GoFieldName_def)
qed

section \<open>The Go names of a struct's fields are distinct\<close>

lemma Itoa_not_Nil [simp]: "Itoa n \<noteq> []" "[] \<noteq> Itoa n"
  by (subst Itoa.simps, simp)+

lemma Itoa_digit: "c \<in> set (Itoa n) \<Longrightarrow> 48 \<le> (of_char c :: nat) \<and> (of_char c :: nat) \<le> 57"
proof (induction n rule: Itoa.induct)
  case (1 n)
  have m: "n mod 10 < 10" by simp
  show ?case using 1 m by (subst (asm) (2) Itoa.simps) (auto split: if_splits)
qed

lemma digit_char_inj:
  "a < 10 \<Longrightarrow> b < 10 \<Longrightarrow> (char_of (48 + a :: nat) :: char) = char_of (48 + b) \<Longrightarrow> a = b"
  by (drule arg_cong [where f = "of_char :: char \<Rightarrow> nat"]) simp

lemma Itoa_inj: "Itoa m = Itoa n \<Longrightarrow> m = n"
proof (induction m arbitrary: n rule: Itoa.induct)
  case (1 m)
  have lt: "m mod 10 < 10" "n mod 10 < 10" by simp_all
  show ?case
  proof (cases "m < 10 \<or> n < 10")
    case True
    then show ?thesis
      using "1.prems" digit_char_inj [of m n]
      by (auto simp: Itoa.simps [of m] Itoa.simps [of n] split: if_splits)
  next
    case False
    then have "Itoa (m div 10) = Itoa (n div 10)" "m mod 10 = n mod 10"
      using "1.prems" lt digit_char_inj [of "m mod 10" "n mod 10"]
      by (simp_all add: Itoa.simps [of m] Itoa.simps [of n])
    then have "m div 10 = n div 10" "m mod 10 = n mod 10" using "1.IH" False by auto
    then show ?thesis by (metis div_mult_mod_eq)
  qed
qed

lemma takeWhile_upto_underscore:
  assumes "CHR ''_'' \<notin> set a"
  shows "takeWhile (\<lambda>c. c \<noteq> CHR ''_'') (a @ CHR ''_'' # w) = a"
    and "takeWhile (\<lambda>c. c \<noteq> CHR ''_'') a = a"
  using assms by (induction a) auto

lemma rank_name_inj:
  assumes eq: "rank_name a i = rank_name b j" and a: "CHR ''_'' \<notin> set a" and b: "CHR ''_'' \<notin> set b"
  shows "a = b \<and> i = j"
proof -
  have "takeWhile (\<lambda>c. c \<noteq> CHR ''_'') (rank_name a i) = a"
    unfolding rank_name_def by (simp add: takeWhile_upto_underscore [OF a] del: takeWhile_eq_all_conv)
  moreover have "takeWhile (\<lambda>c. c \<noteq> CHR ''_'') (rank_name b j) = b"
    unfolding rank_name_def by (simp add: takeWhile_upto_underscore [OF b] del: takeWhile_eq_all_conv)
  ultimately have ab: "a = b" using eq by metis
  with eq Itoa_inj [of "i + 1" "j + 1"] show ?thesis
    by (auto simp: rank_name_def split: if_splits)
qed

text \<open>The groups hold the indices of each name, in order.\<close>

abbreviation occurrences :: "string list \<Rightarrow> string \<Rightarrow> nat \<Rightarrow> nat list" where
  "occurrences names g n \<equiv> filter (\<lambda>i. GoFieldName (names ! i) = g) [0..<n]"

lemma group_fold:
  "foldl (group_step names) (Map.empty, []) [0..<n] = (groups, order) \<Longrightarrow>
     groups = (\<lambda>g. if occurrences names g n = [] then None else Some (occurrences names g n))
     \<and> set order = (\<lambda>i. GoFieldName (names ! i)) ` {..<n} \<and> distinct order"
proof (induction n arbitrary: groups order)
  case (Suc n)
  obtain gs os where st: "foldl (group_step names) (Map.empty, []) [0..<n] = (gs, os)" by fastforce
  note ih = Suc.IH [OF st]
  have mem: "GoFieldName (names ! n) \<in> set os \<longleftrightarrow> gs (GoFieldName (names ! n)) \<noteq> None"
    using ih by (auto simp: filter_empty_conv image_iff) (metis lessThan_iff)
  from Suc.prems st have step: "group_step names (gs, os) n = (groups, order)" by simp
  then have
    g: "groups = gs(GoFieldName (names ! n) \<mapsto> (case gs (GoFieldName (names ! n)) of Some is \<Rightarrow> is | None \<Rightarrow> []) @ [n])"
    and o: "order = (if gs (GoFieldName (names ! n)) = None then os @ [GoFieldName (names ! n)] else os)"
    by (simp_all add: group_step_def Let_def)
  have "set order = insert (GoFieldName (names ! n)) (set os)" "distinct order"
    using o mem ih by auto
  moreover have "groups = (\<lambda>g. if occurrences names g (Suc n) = [] then None
      else Some (occurrences names g (Suc n)))"
    unfolding g using ih by (auto simp: fun_eq_iff)
  ultimately show ?case using ih by (simp add: lessThan_Suc)
qed simp

lemma foldl_update_nth:
  assumes "distinct (map fst ps)" "\<forall>p \<in> set ps. fst p < length xs"
  shows "length (foldl (\<lambda>res (i, v). res[i := v]) xs ps) = length xs"
    and "(k, v) \<in> set ps \<Longrightarrow> foldl (\<lambda>res (i, v). res[i := v]) xs ps ! k = v"
    and "k \<notin> fst ` set ps \<Longrightarrow> foldl (\<lambda>res (i, v). res[i := v]) xs ps ! k = xs ! k"
  using assms by (induction ps arbitrary: xs) (auto simp: rev_image_eqI)

lemma resolve_step_resolved:
  assumes "groups canonical = Some is" "is \<noteq> []"
  shows "fst (resolve_step names groups (resolved, cs) canonical)
    = foldl (\<lambda>res (i, v). res[i := v]) resolved
        (map (\<lambda>(rank, idx). (idx, rank_name canonical rank)) (enumerate 0 is))"
proof (cases "length is = 1")
  case True
  then obtain i where "is = [i]" by (auto simp: length_Suc_conv)
  with assms show ?thesis by (simp add: resolve_step_def rank_name_def)
next
  case False
  with assms show ?thesis by (simp add: resolve_step_def Let_def)
qed

text \<open>The resolved name of field \<open>i\<close>: its Go name and how many earlier fields share it.\<close>

definition dedup_spec :: "string list \<Rightarrow> nat \<Rightarrow> string" where
  "dedup_spec names i =
     rank_name (GoFieldName (names ! i)) (length (occurrences names (GoFieldName (names ! i)) i))"

lemma occurrences_nth:
  "k < length (occurrences names g n) \<Longrightarrow>
     length (occurrences names g (occurrences names g n ! k)) = k
     \<and> GoFieldName (names ! (occurrences names g n ! k)) = g \<and> occurrences names g n ! k < n"
proof (induction n)
  case (Suc n)
  then show ?case
    by (cases "k < length (occurrences names g n)") (auto simp: nth_append split: if_splits)
qed simp

lemma occurrences_mem:
  "i < n \<Longrightarrow> GoFieldName (names ! i) = g \<Longrightarrow>
     (length (occurrences names g i), i) \<in> set (enumerate 0 (occurrences names g n))"
proof -
  assume i: "i < n" "GoFieldName (names ! i) = g"
  then have "i \<in> set (occurrences names g n)" by simp
  then obtain k where k: "k < length (occurrences names g n)" "occurrences names g n ! k = i"
    unfolding in_set_conv_nth by blast
  with occurrences_nth [OF k(1)] show ?thesis by (auto simp: in_set_enumerate_eq)
qed

text \<open>One step settles the fields of its group and leaves the others.\<close>

lemma resolve_step_nth:
  assumes "groups canonical = Some (occurrences names canonical n)"
    and "occurrences names canonical n \<noteq> []" and "length resolved = n"
  shows "length (fst (resolve_step names groups (resolved, cs) canonical)) = n"
    and "i < n \<Longrightarrow> fst (resolve_step names groups (resolved, cs) canonical) ! i
      = (if GoFieldName (names ! i) = canonical then dedup_spec names i else resolved ! i)"
proof -
  let ?ps = "map (\<lambda>(rank, idx). (idx, rank_name canonical rank))
      (enumerate 0 (occurrences names canonical n))"
  have fsts: "map fst ?ps = occurrences names canonical n"
    by (simp add: comp_def case_prod_unfold flip: snd_def)
  then have d: "distinct (map fst ?ps)" by simp
  have "set (map fst ?ps) \<subseteq> {..<length resolved}" unfolding fsts using assms(3) by auto
  then have b: "\<forall>p \<in> set ?ps. fst p < length resolved" by force
  note upd = foldl_update_nth [OF d b]
  note res = resolve_step_resolved [where groups = groups and canonical = canonical, OF assms(1,2)]
  show "length (fst (resolve_step names groups (resolved, cs) canonical)) = n"
    using upd(1) assms(3) by (simp add: res)
  show "fst (resolve_step names groups (resolved, cs) canonical) ! i
      = (if GoFieldName (names ! i) = canonical then dedup_spec names i else resolved ! i)" if "i < n"
  proof (cases "GoFieldName (names ! i) = canonical")
    case True
    then have "(i, dedup_spec names i) \<in> set ?ps"
      using occurrences_mem [OF that True] by (force simp: dedup_spec_def)
    then show ?thesis using upd(2) True by (simp add: res)
  next
    case False
    then have "i \<notin> set (map fst ?ps)" by (simp only: fsts) simp
    then have "i \<notin> fst ` set ?ps" by (simp only: set_map) simp
    from upd(3) [OF this] False show ?thesis by (simp add: res)
  qed
qed

lemma resolve_fold:
  assumes "\<forall>g \<in> set order. groups g = Some (occurrences names g n) \<and> occurrences names g n \<noteq> []"
    and "length (fst st) = n"
  shows "length (fst (foldl (resolve_step names groups) st order)) = n"
    and "i < n \<Longrightarrow> fst (foldl (resolve_step names groups) st order) ! i
      = (if GoFieldName (names ! i) \<in> set order then dedup_spec names i else fst st ! i)"
proof -
  have "length (fst (foldl (resolve_step names groups) st order)) = n \<and>
      (\<forall>i < n. fst (foldl (resolve_step names groups) st order) ! i
        = (if GoFieldName (names ! i) \<in> set order then dedup_spec names i else fst st ! i))"
    using assms
  proof (induction order arbitrary: st)
    case (Cons g order)
    obtain resolved cs where st: "st = (resolved, cs)" by fastforce
    have g: "groups g = Some (occurrences names g n)" "occurrences names g n \<noteq> []"
      "length resolved = n"
      using Cons.prems st by simp_all
    note step = resolve_step_nth [where groups = groups and canonical = g and cs = cs, OF g]
    show ?case using Cons.IH [of "resolve_step names groups st g"] Cons.prems step st by simp
  qed simp
  then show "length (fst (foldl (resolve_step names groups) st order)) = n"
    and "i < n \<Longrightarrow> fst (foldl (resolve_step names groups) st order) ! i
      = (if GoFieldName (names ! i) \<in> set order then dedup_spec names i else fst st ! i)"
    by blast+
qed

lemma DedupGoFieldNames_resolved:
  "fst (DedupGoFieldNames names) = map (dedup_spec names) [0..<length names]"
proof -
  obtain groups order where
    g: "foldl (group_step names) (Map.empty, []) [0..<length names] = (groups, order)" by fastforce
  note gf = group_fold [OF g]
  have pre: "\<forall>g \<in> set order. groups g = Some (occurrences names g (length names))
      \<and> occurrences names g (length names) \<noteq> []"
    using gf by (auto simp: filter_empty_conv)
  note rf = resolve_fold [OF pre, of "(replicate (length names) [], [])"]
  show ?thesis
    by (rule nth_equalityI) (use gf rf in \<open>auto simp: DedupGoFieldNames_def g\<close>)
qed

lemma dedup_spec_inj:
  assumes "dedup_spec names i = dedup_spec names j" shows "i = j"
proof -
  have g: "GoFieldName (names ! i) = GoFieldName (names ! j)"
    and r: "length (occurrences names (GoFieldName (names ! i)) i)
      = length (occurrences names (GoFieldName (names ! j)) j)"
    using rank_name_inj [OF assms [unfolded dedup_spec_def]] GoFieldName_no_underscore by auto
  have lt: "length (occurrences names g i) < length (occurrences names g j)"
    if "i < j" "GoFieldName (names ! i) = g" for i j g
  proof -
    have "[0..<j] = [0..<i] @ i # [Suc i..<j]"
      using that(1) by (metis le0 less_imp_le upt_add_eq_append le_add_diff_inverse upt_conv_Cons)
    then show ?thesis using that(2) by simp
  qed
  show ?thesis
    using lt [of i j] lt [of j i] g r by (cases i j rule: linorder_cases) auto
qed

text \<open>
  \<open>DedupGoFieldNames\<close> gives every field of a struct a Go name of its own: there are as many
  names as fields, and no two of them are equal, whatever the field names are.
\<close>

theorem field_names_distinct:
  "distinct (fst (DedupGoFieldNames names)) \<and> length (fst (DedupGoFieldNames names)) = length names"
  by (auto simp: DedupGoFieldNames_resolved distinct_map intro!: inj_onI dest: dedup_spec_inj)

text \<open>
  The constants of an enum have distinct Go names, one for each value and each with the
  enum's name in front.
\<close>

theorem enum_constants_distinct:
  "distinct (EnumConstNames enum values) \<and> length (EnumConstNames enum values) = length values
   \<and> list_all (\<lambda>c. HasPrefix c enum) (EnumConstNames enum values)"
  by (auto simp: EnumConstNames_def list_all_iff HasPrefix_def DedupGoFieldNames_resolved distinct_map inj_on_def
      dest: dedup_spec_inj)

lemma flush_words: "[] \<notin> set (fst st) \<Longrightarrow> [] \<notin> set (fst (flush st))"
  by (cases st) (auto simp: flush_def)

lemma split_step_words: "[] \<notin> set (fst st) \<Longrightarrow> [] \<notin> set (fst (split_step rs st i))"
  by (simp add: split_step_def Let_def flush_words)

lemma split_fold_words:
  "[] \<notin> set (fst st) \<Longrightarrow> [] \<notin> set (fst (foldl (split_step rs) st is))"
  by (induction "is" arbitrary: st) (simp_all add: split_step_words)

text \<open>
  Splitting a name into words loses nothing but its separators: no word is empty, and the
  words in order are the name's runes without \<open>_\<close> and \<open>-\<close>.
\<close>

theorem split_keeps_runes:
  "[] \<notin> set (SplitFieldName s) \<and>
   concat (SplitFieldName s) = concat (map AppendRune (filter (\<lambda>r. r \<noteq> 95 \<and> r \<noteq> 45) (runes s)))"
  using concat_SplitFieldName [of s]
  by (simp add: SplitFieldName_def flush_words split_fold_words)

end
