(* ===== verification/Route.thy ===== *)
theory Route
  imports Ast Idents
begin

text \<open>
  The routes of HTTP methods: \<^verbatim>\<open>internal/route/route.go\<close>. A nil declaration or path is
  \<open>None\<close>; a problem is its message, \<open>None\<close> for the empty one. \<open>unicode.IsLetter\<close> and
  \<open>unicode.IsDigit\<close>, tables of the Go library, are arguments of the functions that consult
  them.

  The lemmas give \<open>Resolve\<close> and the functions on segments by what they do to the list of a
  route's segments, and \<open>PatternsConflict\<close> by the sets of request paths two patterns match.
\<close>

section \<open>Segments\<close>

definition Segments :: "string \<Rightarrow> string list" where
  "Segments pattern = filter (\<lambda>s. s \<noteq> []) (SplitByte pattern (CHR ''/''))"

definition isVarSegment :: "string \<Rightarrow> bool" where
  "isVarSegment seg \<longleftrightarrow> length seg > 2 \<and> seg ! 0 = CHR ''{'' \<and> seg ! (length seg - 1) = CHR ''}''"

definition EndsRoute :: "string \<Rightarrow> bool" where
  "EndsRoute seg \<longleftrightarrow> length seg > 2 \<and> seg ! 0 = CHR ''{'' \<and> (seg = ''{$}'' \<or> HasSuffix seg ''...}'')"

definition WildcardName :: "string \<Rightarrow> string \<times> bool" where
  "WildcardName seg =
     (if length seg < 3 \<or> seg ! 0 \<noteq> CHR ''{'' \<or> seg ! (length seg - 1) \<noteq> CHR ''}'' \<or> seg = ''{$}''
      then ([], False)
      else let name = TrimSuffix (drop 1 (take (length seg - 1) seg)) ''...'' in (name, name \<noteq> []))"

definition isGoIdent :: "(rune \<Rightarrow> bool) \<Rightarrow> (rune \<Rightarrow> bool) \<Rightarrow> string \<Rightarrow> bool" where
  "isGoIdent IsLetter IsDigit s \<longleftrightarrow>
     list_all (\<lambda>(i, r). IsLetter r \<or> r = 95 \<or> i \<noteq> 0 \<and> IsDigit r) (range_string 0 s) \<and> s \<noteq> []"

definition SegmentProblem :: "(rune \<Rightarrow> bool) \<Rightarrow> (rune \<Rightarrow> bool) \<Rightarrow> string \<Rightarrow> string option" where
  "SegmentProblem IsLetter IsDigit seg =
     (if seg = ''.'' \<or> seg = ''..''
      then Some ''net/http cleans `.` and `..` out of a request path before matching, so no request would match''
      else if \<not> Contains seg ''{'' then None
      else if seg ! 0 \<noteq> CHR ''{'' \<or> seg ! (length seg - 1) \<noteq> CHR ''}''
      then Some ''a path variable is a whole segment, `{name}`''
      else
        let inner = drop 1 (take (length seg - 1) seg)
        in if inner = ''$'' then None
           else
             let name = TrimSuffix inner ''...''
             in if name = [] then Some ''a path variable needs a name''
                else if \<not> isGoIdent IsLetter IsDigit name
                then Some ''a path variable's name is a Go identifier''
                else None)"

section \<open>Routes\<close>

fun PathString :: "Path option \<Rightarrow> string" where
  "PathString None = []"
| "PathString (Some p) =
     concat (map (\<lambda>s. ''/'' @ (if ps_Param s then ''{'' @ ps_Literal s @ ''}'' else ps_Literal s))
       (pa_Segments p))"

definition Shape :: "string \<Rightarrow> string" where
  "Shape route =
     ''/'' @ Join (map (\<lambda>seg.
        if seg = ''{$}'' then seg
        else if isVarSegment seg \<and> HasSuffix seg ''...}'' then ''{...}''
        else if isVarSegment seg then ''{}''
        else seg) (Segments route)) ''/''"

definition Vars :: "string \<Rightarrow> string list" where
  "Vars route = map (\<lambda>seg. fst (WildcardName seg)) (filter (\<lambda>seg. snd (WildcardName seg)) (Segments route))"

definition OpenAPIPath :: "string \<Rightarrow> string" where
  "OpenAPIPath route =
     ''/'' @ Join (map (\<lambda>seg.
        if seg = ''{$}'' then []
        else case WildcardName seg of (name, ok) \<Rightarrow> if ok then ''{'' @ name @ ''}'' else seg)
        (Segments route)) ''/''"

fun ServicePrefix :: "ServiceDecl option \<Rightarrow> string" where
  "ServicePrefix None = []"
| "ServicePrefix (Some svc) =
     (case StringArg (map Some (sv_Decorators svc)) ''prefix'' of Some p \<Rightarrow> p | None \<Rightarrow> [])"

definition CleanGroupPath :: "string \<Rightarrow> string" where
  "CleanGroupPath raw =
     Join (filter (\<lambda>s. \<not> (s = [] \<or> s = ''.'' \<or> s = ''..'')) (SplitByte raw (CHR ''/''))) ''/''"

fun ServiceGroup :: "ServiceDecl option \<Rightarrow> string" where
  "ServiceGroup None = []"
| "ServiceGroup (Some svc) =
     CleanGroupPath (case StringArg (map Some (sv_Decorators svc)) ''group'' of Some g \<Rightarrow> g | None \<Rightarrow> [])"

definition EffectiveGroup :: "ServiceDecl option \<Rightarrow> string \<Rightarrow> string" where
  "EffectiveGroup block primaryGroup =
     (let g = ServiceGroup block in if g \<noteq> [] then g else primaryGroup)"

definition OutputSegment :: "string \<Rightarrow> string \<Rightarrow> string \<Rightarrow> string" where
  "OutputSegment svcName group' fileCase = (if group' \<noteq> [] then group' else FileName svcName fileCase)"

text \<open>
  The loop of \<open>Resolve\<close> that replaces \<open>//\<close> by \<open>/\<close> until none is left. It ends because each
  round shortens the string.
\<close>

lemma ReplaceAll_slashes:
  "ReplaceAll (CHR ''/'' # CHR ''/'' # s) ''//'' ''/'' = CHR ''/'' # ReplaceAll s ''//'' ''/''"
  "ReplaceAll [] ''//'' ''/'' = []"
  "\<not> (c = CHR ''/'' \<and> (\<exists>t. s = CHR ''/'' # t)) \<Longrightarrow>
     ReplaceAll (c # s) ''//'' ''/'' = c # ReplaceAll s ''//'' ''/''"
  by (auto simp: ReplaceAll.simps [of "_ # _"] ReplaceAll.simps [of "[]"])

text \<open>Induction over a string as \<open>ReplaceAll\<close> walks it: two slashes, or one byte.\<close>

lemma slashes_induct [case_names Nil Slashes Byte]:
  assumes "P []" and "\<And>s. P s \<Longrightarrow> P (CHR ''/'' # CHR ''/'' # s)"
    and "\<And>c s. \<not> (c = CHR ''/'' \<and> (\<exists>t. s = CHR ''/'' # t)) \<Longrightarrow> P s \<Longrightarrow> P (c # s)"
  shows "P s"
proof (induction s rule: measure_induct_rule [of length])
  case (less s)
  show ?case
  proof (cases s)
    case (Cons c s')
    show ?thesis
    proof (cases "c = CHR ''/'' \<and> (\<exists>t. s' = CHR ''/'' # t)")
      case True
      then obtain t where "s = CHR ''/'' # CHR ''/'' # t" using Cons by auto
      then show ?thesis using assms(2) less by simp
    next
      case False
      then show ?thesis using assms(3) less Cons by simp
    qed
  qed (simp add: assms(1))
qed

lemma Contains_Cons:
  "Contains (c # s) sub \<longleftrightarrow> HasPrefix (c # s) sub \<or> Contains s sub"
  unfolding Contains_iff HasPrefix_iff_prefix prefix_def by (auto simp: Cons_eq_append_conv)

lemma ReplaceAll_shorter:
  "length (ReplaceAll s ''//'' ''/'') \<le> length s \<and>
   (Contains s ''//'' \<longrightarrow> length (ReplaceAll s ''//'' ''/'') < length s)"
proof (induction s rule: slashes_induct)
  case Nil
  show ?case by (simp add: ReplaceAll_slashes Contains_iff)
next
  case (Slashes s)
  then show ?case by (simp add: ReplaceAll_slashes)
next
  case (Byte c s)
  then show ?case by (auto simp: ReplaceAll_slashes Contains_Cons)
qed

function collapse_slashes :: "string \<Rightarrow> string" where
  "collapse_slashes joined =
     (if Contains joined ''//'' then collapse_slashes (ReplaceAll joined ''//'' ''/'') else joined)"
  by pat_completeness auto
termination
  by (relation "measure length") (auto simp: ReplaceAll_shorter)

declare collapse_slashes.simps [simp del]

definition Resolve :: "string \<Rightarrow> ServiceDecl option \<Rightarrow> Method \<Rightarrow> string" where
  "Resolve basePath svc m =
     (let parts = (if basePath \<noteq> [] then [basePath] else [])
            @ (let p = ServicePrefix svc in if p \<noteq> [] then [p] else [])
            @ (case me_Path m of
                Some p \<Rightarrow> [PathString (Some p)]
              | None \<Rightarrow> [''/'' @ KebabCase (me_Name m)]);
          joined = collapse_slashes (Join parts ''/'');
          joined' = (if joined = [] \<or> joined ! 0 \<noteq> CHR ''/'' then ''/'' @ joined else joined)
      in if length joined' > 1 then TrimRight joined' (CHR ''/'') else joined')"

definition ServePath :: "string \<Rightarrow> ServiceDecl option \<Rightarrow> Method \<Rightarrow> string" where
  "ServePath basePath svc m =
     (let full = Resolve basePath svc m
      in if Resolve [] svc m \<noteq> ''/'' then full
         else TrimSuffix full ''/'' @ ''/{$}'')"

section \<open>Patterns that conflict\<close>

datatype relation = equivalent | moreGeneral | moreSpecific | disjoint | overlaps

definition combine :: "relation \<Rightarrow> relation \<Rightarrow> relation" where
  "combine r s =
     (if r = equivalent then s
      else if r = disjoint \<or> s = disjoint then disjoint
      else if r = overlaps \<or> s = overlaps then overlaps
      else if s = equivalent \<or> s = r then r
      else overlaps)"

definition compareSegments :: "string \<Rightarrow> string \<Rightarrow> relation" where
  "compareSegments a b =
     (let aMulti = EndsRoute a \<and> a \<noteq> ''{$}''; bMulti = EndsRoute b \<and> b \<noteq> ''{$}'';
          aWild = isVarSegment a \<and> \<not> EndsRoute a; bWild = isVarSegment b \<and> \<not> EndsRoute b
      in if aMulti \<and> bMulti then equivalent
         else if aMulti then moreGeneral
         else if bMulti then moreSpecific
         else if aWild \<and> bWild then equivalent
         else if aWild then (if b = ''{$}'' then disjoint else moreGeneral)
         else if bWild then (if a = ''{$}'' then disjoint else moreSpecific)
         else if a = b then equivalent
         else disjoint)"

text \<open>The loop over the segments; it returns early on disjoint parts.\<close>

fun conflict_loop :: "relation \<Rightarrow> (string \<times> string) list \<Rightarrow> bool" where
  "conflict_loop rel [] \<longleftrightarrow> rel = equivalent \<or> rel = overlaps"
| "conflict_loop rel ((a, b) # rest) \<longleftrightarrow>
     (let rel' = combine rel (compareSegments a b)
      in if rel' = disjoint then False else conflict_loop rel' rest)"

definition PatternsConflict :: "string \<Rightarrow> string \<Rightarrow> bool" where
  "PatternsConflict a b \<longleftrightarrow>
     (let as = Segments a; bs = Segments b
      in if length as \<noteq> length bs then False else conflict_loop equivalent (zip as bs))"

section \<open>The segments of a route\<close>

lemma SplitByte_append_sep: "SplitByte (a @ sep # b) sep = SplitByte a sep @ SplitByte b sep"
  by (induction a) (auto split: list.splits)

lemma Segments_append: "Segments (a @ CHR ''/'' # b) = Segments a @ Segments b"
  by (simp add: Segments_def SplitByte_append_sep)

lemma Segments_Nil [simp]: "Segments [] = []"
  by (simp add: Segments_def)

lemma Segments_slash [simp]: "Segments (CHR ''/'' # s) = Segments s"
  using Segments_append [of "[]" s] by simp

lemma Segments_mem: "w \<in> set (Segments s) \<Longrightarrow> w \<noteq> [] \<and> CHR ''/'' \<notin> set w"
  by (auto simp: Segments_def SplitByte_no_sep)

lemma Segments_word: "CHR ''/'' \<notin> set w \<Longrightarrow> w \<noteq> [] \<Longrightarrow> Segments w = [w]"
  by (simp add: Segments_def SplitByte_id)

lemma Segments_Join: "Segments (Join parts ''/'') = concat (map Segments parts)"
  by (induction parts "''/''" rule: Join.induct) (simp_all add: Segments_append)

lemma Segments_Join_words:
  "\<forall>w \<in> set ws. w \<noteq> [] \<and> CHR ''/'' \<notin> set w \<Longrightarrow> Segments (Join ws ''/'') = ws"
  by (simp add: Segments_Join Segments_word cong: map_cong)

lemma Segments_slashes: "Segments (s @ replicate k (CHR ''/'')) = Segments s"
proof (induction k)
  case (Suc k)
  then show ?case using Segments_append [of "s @ replicate k (CHR ''/'')" "[]"]
    by (simp add: replicate_append_same [symmetric] del: replicate_append_same)
qed simp

lemma ReplaceAll_words:
  "hd (SplitByte (ReplaceAll s ''//'' ''/'') (CHR ''/'')) = hd (SplitByte s (CHR ''/''))
   \<and> filter (\<lambda>w. w \<noteq> []) (tl (SplitByte (ReplaceAll s ''//'' ''/'') (CHR ''/'')))
     = filter (\<lambda>w. w \<noteq> []) (tl (SplitByte s (CHR ''/'')))"
proof (induction s rule: slashes_induct)
  case (Slashes s)
  obtain w ws where "SplitByte s (CHR ''/'') = w # ws" by (cases "SplitByte s (CHR ''/'')") auto
  moreover obtain v vs where "SplitByte (ReplaceAll s ''//'' ''/'') (CHR ''/'') = v # vs"
    by (cases "SplitByte (ReplaceAll s ''//'' ''/'') (CHR ''/'')") auto
  ultimately show ?case using Slashes by (simp add: ReplaceAll_slashes)
next
  case (Byte c s)
  obtain w ws where "SplitByte s (CHR ''/'') = w # ws" by (cases "SplitByte s (CHR ''/'')") auto
  moreover obtain v vs where "SplitByte (ReplaceAll s ''//'' ''/'') (CHR ''/'') = v # vs"
    by (cases "SplitByte (ReplaceAll s ''//'' ''/'') (CHR ''/'')") auto
  ultimately show ?case using Byte by (simp add: ReplaceAll_slashes)
qed (simp add: ReplaceAll_slashes)

lemma Segments_ReplaceAll: "Segments (ReplaceAll s ''//'' ''/'') = Segments s"
proof -
  have "filter P xs = filter P [hd xs] @ filter P (tl xs)" if "xs \<noteq> []" for P and xs :: "string list"
    using that by (cases xs) auto
  then show ?thesis using ReplaceAll_words [of s] by (simp add: Segments_def)
qed

lemma collapse_slashes_spec:
  "\<not> Contains (collapse_slashes s) ''//'' \<and> Segments (collapse_slashes s) = Segments s"
proof (induction s rule: collapse_slashes.induct)
  case (1 s)
  then show ?case by (subst (1 2) collapse_slashes.simps) (simp add: Segments_ReplaceAll)
qed

section \<open>Resolved routes\<close>

lemma empty_word:
  "[] \<in> set (tl (SplitByte t c)) \<Longrightarrow> t \<noteq> [] \<and> last t = c \<or> Contains t [c, c]"
proof (induction t)
  case (Cons x t)
  obtain w ws where w: "SplitByte t c = w # ws" by (cases "SplitByte t c") auto
  show ?case
  proof (cases "x = c \<and> w = []")
    case True
    then have "t = [] \<or> (\<exists>t'. t = c # t')"
      using w by (cases t) (auto split: if_splits list.splits)
    then show ?thesis using True by (auto simp: Contains_Cons)
  next
    case False
    then have "[] \<in> set (tl (SplitByte t c))" using Cons.prems w by (auto split: if_splits)
    then show ?thesis using Cons.IH by (auto simp: Contains_Cons)
  qed
qed simp

lemma clean_route:
  assumes "\<not> Contains (CHR ''/'' # t) ''//''" "t = [] \<or> last t \<noteq> CHR ''/''"
  shows "CHR ''/'' # t = CHR ''/'' # Join (Segments t) ''/''"
proof (cases "t = []")
  case False
  have "[] \<notin> set (tl (SplitByte t (CHR ''/'')))"
    using empty_word [of t "CHR ''/''"] assms False by (auto simp: Contains_Cons)
  moreover have "hd (SplitByte t (CHR ''/'')) \<noteq> []"
    using assms(1) False by (cases t) (auto simp: Contains_Cons split: list.splits)
  ultimately have "Segments t = SplitByte t (CHR ''/'')"
    unfolding Segments_def by (cases "SplitByte t (CHR ''/'')") (auto simp: filter_id_conv)
  then show ?thesis by simp
qed simp

lemma TrimRight_decomp:
  obtains k where "s = TrimRight s c @ replicate k c"
    and "TrimRight s c = [] \<or> last (TrimRight s c) \<noteq> c"
proof -
  let ?k = "length (takeWhile (\<lambda>x. x = c) (rev s))"
  have "takeWhile (\<lambda>x. x = c) (rev s) = replicate ?k c"
    by (metis (mono_tags, lifting) replicate_eqI set_takeWhileD)
  moreover have "rev s = takeWhile (\<lambda>x. x = c) (rev s) @ dropWhile (\<lambda>x. x = c) (rev s)" by simp
  ultimately have "s = rev (dropWhile (\<lambda>x. x = c) (rev s)) @ replicate ?k c"
    by (metis rev_append rev_replicate rev_swap)
  moreover have "TrimRight s c = [] \<or> last (TrimRight s c) \<noteq> c"
    using hd_dropWhile [of "\<lambda>x. x = c" "rev s"] by (auto simp: TrimRight_def last_rev)
  ultimately show thesis using that by (simp add: TrimRight_def)
qed

lemma Contains_prefix: "Contains a sub \<Longrightarrow> Contains (a @ b) sub"
  unfolding Contains_iff by (metis append.assoc)

lemma trimmed_route:
  assumes "\<not> Contains (CHR ''/'' # t) ''//''"
  shows "(if length (CHR ''/'' # t) > 1 then TrimRight (CHR ''/'' # t) (CHR ''/'') else CHR ''/'' # t)
    = CHR ''/'' # Join (Segments t) ''/''"
proof (cases "t = []")
  case False
  obtain k where k: "CHR ''/'' # t = TrimRight (CHR ''/'' # t) (CHR ''/'') @ replicate k (CHR ''/'')"
    "TrimRight (CHR ''/'' # t) (CHR ''/'') = [] \<or> last (TrimRight (CHR ''/'' # t) (CHR ''/'')) \<noteq> CHR ''/''"
    by (rule TrimRight_decomp)
  have "TrimRight (CHR ''/'' # t) (CHR ''/'') \<noteq> []"
  proof
    assume "TrimRight (CHR ''/'' # t) (CHR ''/'') = []"
    then have eq: "CHR ''/'' # t = replicate k (CHR ''/'')" using k(1) by simp
    then obtain j where "k = Suc (Suc j)" using False
      by (metis length_Cons length_replicate length_0_conv not0_implies_Suc nat.inject)
    then have "Contains (CHR ''/'' # t) ''//''"
      using eq by (simp add: Contains_Cons)
    then show False using assms by simp
  qed
  then obtain u where u: "TrimRight (CHR ''/'' # t) (CHR ''/'') = CHR ''/'' # u"
    using k(1) by (metis append_eq_Cons_conv)
  then have t: "t = u @ replicate k (CHR ''/'')" using k(1) by simp
  then have "\<not> Contains (CHR ''/'' # u) ''//''"
    using assms Contains_prefix [of "CHR ''/'' # u" "''//''" "replicate k (CHR ''/'')"] by auto
  moreover have "u = [] \<or> last u \<noteq> CHR ''/''" using k(2) u by (auto split: if_splits)
  ultimately show ?thesis using clean_route [of u] u False t by (simp add: Segments_slashes)
qed simp

definition method_path :: "Method \<Rightarrow> string" where
  "method_path m = (case me_Path m of Some p \<Rightarrow> PathString (Some p) | None \<Rightarrow> ''/'' @ KebabCase (me_Name m))"

lemma Resolve_segments:
  "Resolve basePath svc m
   = ''/'' @ Join (Segments basePath @ Segments (ServicePrefix svc) @ Segments (method_path m)) ''/''"
proof -
  define parts where "parts = (if basePath \<noteq> [] then [basePath] else [])
    @ (let p = ServicePrefix svc in if p \<noteq> [] then [p] else []) @ [method_path m]"
  have segs: "concat (map Segments parts)
      = Segments basePath @ Segments (ServicePrefix svc) @ Segments (method_path m)"
    by (simp add: parts_def Let_def)
  define j where "j = collapse_slashes (Join parts ''/'')"
  have j: "\<not> Contains j ''//''" "Segments j = concat (map Segments parts)"
    using collapse_slashes_spec [of "Join parts ''/''"] by (simp_all add: j_def Segments_Join)
  obtain t where t: "(if j = [] \<or> j ! 0 \<noteq> CHR ''/'' then ''/'' @ j else j) = CHR ''/'' # t"
    "\<not> Contains (CHR ''/'' # t) ''//''" "Segments t = Segments j"
  proof (cases "j = [] \<or> j ! 0 \<noteq> CHR ''/''")
    case True
    then have "\<not> Contains (CHR ''/'' # j) ''//''" using j(1) by (auto simp: Contains_Cons)
    then show thesis using that [of j] True by simp
  next
    case False
    then obtain t where "j = CHR ''/'' # t" by (cases j) auto
    then show thesis using that [of t] j(1) by simp
  qed
  have "Resolve basePath svc m
      = (let j' = (if j = [] \<or> j ! 0 \<noteq> CHR ''/'' then ''/'' @ j else j)
         in if length j' > 1 then TrimRight j' (CHR ''/'') else j')"
    by (simp add: Resolve_def Let_def parts_def method_path_def j_def split: option.split)
  then show ?thesis
    unfolding Let_def t(1) trimmed_route [OF t(2)] t(3) j(2) segs by simp
qed

section \<open>Conflicts as sets of request paths\<close>

text \<open>
  A request path, cut at its slashes after the first; a trailing slash leaves an empty last
  segment. A pattern matches as ServeMux documents it: a literal itself, \<open>{name}\<close> one
  non-empty segment, \<open>{name...}\<close> all of the rest, and \<open>{$}\<close> the end after a slash.
\<close>

fun pattern_matches :: "string list \<Rightarrow> string list \<Rightarrow> bool" where
  "pattern_matches [] p \<longleftrightarrow> p = []"
| "pattern_matches (s # ss) p \<longleftrightarrow>
     (if EndsRoute s then (if s = ''{$}'' then p = [[]] else p \<noteq> [])
      else case p of
        [] \<Rightarrow> False
      | x # xs \<Rightarrow> (if isVarSegment s then x \<noteq> [] else x = s) \<and> pattern_matches ss xs)"

abbreviation paths :: "string list \<Rightarrow> string list set" where
  "paths ss \<equiv> Collect (pattern_matches ss)"

text \<open>A relation names how two sets compare.\<close>

definition relates :: "relation \<Rightarrow> 'a set \<Rightarrow> 'a set \<Rightarrow> bool" where
  "relates r A B \<longleftrightarrow>
     (r = disjoint \<longleftrightarrow> A \<inter> B = {}) \<and>
     (r = equivalent \<or> r = moreSpecific \<longleftrightarrow> A \<subseteq> B) \<and>
     (r = equivalent \<or> r = moreGeneral \<longleftrightarrow> B \<subseteq> A)"

abbreviation cons_set :: "'a set \<Rightarrow> 'a list set \<Rightarrow> 'a list set" where
  "cons_set A X \<equiv> {x # p | x p. x \<in> A \<and> p \<in> X}"

lemma relates_combine:
  assumes r: "relates r A B" and s: "relates s X Y"
    and ne: "A \<noteq> {}" "B \<noteq> {}" "X \<noteq> {}" "Y \<noteq> {}"
  shows "relates (combine r s) (cons_set A X) (cons_set B Y)"
proof -
  have "cons_set A X \<inter> cons_set B Y = {} \<longleftrightarrow> A \<inter> B = {} \<or> X \<inter> Y = {}" by blast
  moreover have "cons_set A X \<subseteq> cons_set B Y \<longleftrightarrow> A \<subseteq> B \<and> X \<subseteq> Y" using ne by auto
  moreover have "cons_set B Y \<subseteq> cons_set A X \<longleftrightarrow> B \<subseteq> A \<and> Y \<subseteq> X" using ne by auto
  ultimately show ?thesis
    using r s ne unfolding relates_def combine_def by (cases r; cases s) auto
qed

text \<open>The segments of one place, where a pattern does not end the route there.\<close>

abbreviation segment_set :: "string \<Rightarrow> string set" where
  "segment_set s \<equiv> (if isVarSegment s then {x. x \<noteq> []} else {s})"

lemma paths_Cons: "\<not> EndsRoute s \<Longrightarrow> paths (s # ss) = cons_set (segment_set s) (paths ss)"
  by (auto split: list.splits)

lemma EndsRoute_dollar [simp]: "EndsRoute ''{$}''" "isVarSegment ''{$}''"
  by (simp_all add: EndsRoute_def isVarSegment_def)

lemma other_segment: "\<exists>x :: string. x \<noteq> [] \<and> x \<noteq> a"
  by (rule exI [of _ "CHR ''x'' # a"]) simp

lemma relates_segment:
  assumes "\<not> EndsRoute a" "\<not> EndsRoute b" "a \<noteq> []" "b \<noteq> []"
  shows "relates (compareSegments a b) (segment_set a) (segment_set b)"
  using assms other_segment [of a] other_segment [of b]
  by (auto simp: compareSegments_def relates_def Let_def)

lemma paths_last:
  "EndsRoute s \<Longrightarrow> s \<noteq> ''{$}'' \<Longrightarrow> paths [s] = {p. p \<noteq> []}"
  "paths [''{$}''] = {[[]]}"
  "\<not> EndsRoute s \<Longrightarrow> paths [s] = {[x] | x. x \<in> segment_set s}"
  by (auto split: list.splits)

lemma multi_supset:
  "{[x] | x. x \<in> S} \<subset> {p. p \<noteq> []}" "{[[]]} \<subset> {p :: string list. p \<noteq> []}"
proof -
  have "[undefined, undefined] \<in> {p. p \<noteq> []} - {[x] | x. x \<in> S}" by simp
  then show "{[x] | x. x \<in> S} \<subset> {p. p \<noteq> []}" by blast
  have "[[], []] \<in> {p :: string list. p \<noteq> []} - {[[]]}" by simp
  then show "{[[]]} \<subset> {p :: string list. p \<noteq> []}" by blast
qed

lemma relates_intros:
  "A \<noteq> {} \<Longrightarrow> relates equivalent A A"
  "A \<noteq> {} \<Longrightarrow> A \<subset> B \<Longrightarrow> relates moreGeneral B A"
  "A \<noteq> {} \<Longrightarrow> A \<subset> B \<Longrightarrow> relates moreSpecific A B"
  "A \<noteq> {} \<Longrightarrow> B \<noteq> {} \<Longrightarrow> A \<inter> B = {} \<Longrightarrow> relates disjoint A B"
  by (auto simp: relates_def)

lemma compare_last:
  assumes "EndsRoute a \<or> EndsRoute b" "a \<noteq> []" "b \<noteq> []"
  shows "relates (compareSegments a b) (paths [a]) (paths [b])"
proof -
  have ne: "{[x] | x. x \<in> segment_set s} \<noteq> {}" "{p :: string list. p \<noteq> []} \<noteq> {}" for s
    using other_segment by auto
  have dj: "{[x] | x. x \<in> segment_set s} \<inter> {[[]]} = {}" "{[[]]} \<inter> {[x] | x. x \<in> segment_set s} = {}"
    if "s \<noteq> []" for s using that by auto
  consider (multi) "EndsRoute a" "a \<noteq> ''{$}''" | (multi2) "\<not> (EndsRoute a \<and> a \<noteq> ''{$}'')" "EndsRoute b" "b \<noteq> ''{$}''"
    | (both) "a = ''{$}''" "b = ''{$}''" | (left) "a = ''{$}''" "\<not> EndsRoute b"
    | (right) "b = ''{$}''" "\<not> EndsRoute a" using assms(1) by blast
  then show ?thesis
  proof cases
    case multi
    consider "EndsRoute b" "b \<noteq> ''{$}''" | "b = ''{$}''" | "\<not> EndsRoute b" by blast
    then show ?thesis
      by cases (use multi ne in \<open>simp_all only: paths_last compareSegments_def Let_def simp_thms if_True if_False
        EndsRoute_dollar relates_intros multi_supset not_False_eq_True insert_not_empty\<close>)
  next
    case multi2
    consider "a = ''{$}''" | "\<not> EndsRoute a" using multi2 by blast
    then show ?thesis
      by cases (use multi2 ne in \<open>simp_all only: paths_last compareSegments_def Let_def simp_thms if_True if_False
        EndsRoute_dollar relates_intros multi_supset not_False_eq_True insert_not_empty\<close>)
  next
    case both
    then show ?thesis by (simp only: paths_last compareSegments_def) (simp add: relates_intros)
  next
    case left
    then have "compareSegments a b = disjoint" by (auto simp: compareSegments_def)
    then show ?thesis using left dj [OF assms(3)] ne by (simp only: paths_last relates_intros insert_not_empty not_False_eq_True)
  next
    case right
    then have "compareSegments a b = disjoint" by (auto simp: compareSegments_def)
    then show ?thesis using right dj [OF assms(2)] ne by (simp only: paths_last relates_intros insert_not_empty not_False_eq_True)
  qed
qed

text \<open>The relation of two routes, from the left as the loop builds it or from the right.\<close>

lemma combine_assoc: "combine (combine r s) t = combine r (combine s t)"
  by (cases r; cases s; cases t) (simp_all add: combine_def)

lemma combine_simps [simp]:
  "combine equivalent r = r" "combine r equivalent = r" "combine disjoint r = disjoint"
  by (cases r; simp add: combine_def)+

fun route_relation :: "(string \<times> string) list \<Rightarrow> relation" where
  "route_relation [] = equivalent"
| "route_relation ((a, b) # rest) = combine (compareSegments a b) (route_relation rest)"

lemma conflict_loop_iff:
  "conflict_loop rel ps \<longleftrightarrow> combine rel (route_relation ps) \<in> {equivalent, overlaps}"
  by (induction rel ps rule: conflict_loop.induct)
    (auto simp: Let_def combine_assoc [symmetric])

text \<open>A pattern ServeMux takes: its segments are not empty, and only the last may end the route.\<close>

fun mux_pattern :: "string list \<Rightarrow> bool" where
  "mux_pattern [] \<longleftrightarrow> True"
| "mux_pattern (s # ss) \<longleftrightarrow> s \<noteq> [] \<and> (EndsRoute s \<longrightarrow> ss = []) \<and> mux_pattern ss"

lemma paths_not_empty: "paths ss \<noteq> {}"
proof (induction ss)
  case (Cons s ss)
  show ?case
  proof (cases "EndsRoute s")
    case True
    then have "pattern_matches (s # ss) [[]]" by simp
    then show ?thesis by blast
  next
    case False
    then show ?thesis using Cons other_segment by (auto simp: paths_Cons simp del: pattern_matches.simps)
  qed
qed simp

lemma route_relation_sound:
  "mux_pattern as \<Longrightarrow> mux_pattern bs \<Longrightarrow> length as = length bs \<Longrightarrow>
     relates (route_relation (zip as bs)) (paths as) (paths bs)"
proof (induction as bs rule: list_induct2')
  case 1
  show ?case by (simp add: relates_intros)
next
  case (4 a as b bs)
  show ?case
  proof (cases "EndsRoute a \<or> EndsRoute b")
    case True
    then have "as = []" "bs = []" using 4 by auto
    then show ?thesis using 4 compare_last [of a b] True by (simp del: pattern_matches.simps)
  next
    case False
    then have "relates (compareSegments a b) (segment_set a) (segment_set b)"
      using relates_segment 4 by simp
    moreover have "relates (route_relation (zip as bs)) (paths as) (paths bs)"
      using 4 by simp
    moreover have "segment_set a \<noteq> {}" "segment_set b \<noteq> {}" using other_segment by auto
    ultimately have "relates (combine (compareSegments a b) (route_relation (zip as bs)))
        (cons_set (segment_set a) (paths as)) (cons_set (segment_set b) (paths bs))"
      by (rule relates_combine) (rule paths_not_empty)+
    moreover have "paths (a # as) = cons_set (segment_set a) (paths as)"
      "paths (b # bs) = cons_set (segment_set b) (paths bs)"
      using False paths_Cons by blast+
    ultimately show ?thesis by (simp only: zip_Cons_Cons route_relation.simps)
  qed
qed simp_all

lemma relates_conflict:
  "relates r A B \<Longrightarrow> r \<in> {equivalent, overlaps} \<longleftrightarrow> A \<inter> B \<noteq> {} \<and> \<not> A \<subset> B \<and> \<not> B \<subset> A"
  by (cases r) (auto simp: relates_def)

text \<open>Two patterns net/http refuses to register together.\<close>

definition mux_conflict :: "string list \<Rightarrow> string list \<Rightarrow> bool" where
  "mux_conflict ss ts \<longleftrightarrow> paths ss \<inter> paths ts \<noteq> {} \<and> \<not> paths ss \<subset> paths ts \<and> \<not> paths ts \<subset> paths ss"

lemma PatternsConflict_sets:
  assumes "mux_pattern (Segments a)" and "mux_pattern (Segments b)" and "length (Segments a) = length (Segments b)"
  shows "PatternsConflict a b \<longleftrightarrow> mux_conflict (Segments a) (Segments b)"
  using relates_conflict [OF route_relation_sound [OF assms]] assms(3)
  unfolding PatternsConflict_def Let_def conflict_loop_iff mux_conflict_def by simp

section \<open>Shapes and groups\<close>

definition shape_segment :: "string \<Rightarrow> string" where
  "shape_segment seg =
     (if seg = ''{$}'' then seg
      else if isVarSegment seg \<and> HasSuffix seg ''...}'' then ''{...}''
      else if isVarSegment seg then ''{}''
      else seg)"

lemma Shape_segments: "Shape route = ''/'' @ Join (map shape_segment (Segments route)) ''/''"
  by (simp add: Shape_def shape_segment_def [abs_def])

lemma shape_segment_idem: "shape_segment (shape_segment seg) = shape_segment seg"
proof -
  have "isVarSegment ''{...}''" "HasSuffix ''{...}'' ''...}''" "\<not> isVarSegment ''{}''" by code_simp+
  then show ?thesis by (auto simp: shape_segment_def)
qed

lemma Segments_Shape: "Segments (Shape route) = map shape_segment (Segments route)"
proof -
  have "\<forall>w \<in> set (map shape_segment (Segments route)). w \<noteq> [] \<and> CHR ''/'' \<notin> set w"
    by (auto simp: shape_segment_def dest: Segments_mem)
  then show ?thesis by (simp only: Shape_segments append_Cons append_Nil Segments_slash Segments_Join_words)
qed

lemma CleanGroupPath_segments:
  "CleanGroupPath raw = Join (filter (\<lambda>s. s \<notin> {''.'', ''..''}) (Segments raw)) ''/''"
  by (simp add: CleanGroupPath_def Segments_def conj_commute)

lemma Segments_CleanGroupPath:
  "Segments (CleanGroupPath raw) = filter (\<lambda>s. s \<notin> {''.'', ''..''}) (Segments raw)"
  unfolding CleanGroupPath_segments
  by (rule Segments_Join_words) (auto dest: Segments_mem)

lemma Segments_Resolve:
  "Segments (Resolve basePath svc m)
   = Segments basePath @ Segments (ServicePrefix svc) @ Segments (method_path m)"
proof -
  have "\<forall>w \<in> set (Segments basePath @ Segments (ServicePrefix svc) @ Segments (method_path m)).
      w \<noteq> [] \<and> CHR ''/'' \<notin> set w" by (auto dest: Segments_mem)
  then show ?thesis
    by (simp only: Resolve_segments append_Cons append_Nil Segments_slash Segments_Join_words)
qed

section \<open>Properties\<close>

text \<open>
  The route of a method is a slash, then the segments of the base path, of the service's
  prefix and of the method's own path (its kebab-cased name where it has none), in that order
  and joined by single slashes: no empty segment and no trailing slash, whatever slashes the
  parts are written with. The loop that collapses slashes ends on every input.
\<close>

theorem resolve_route:
  "Resolve basePath svc m
   = ''/'' @ Join (Segments basePath @ Segments (ServicePrefix svc) @ Segments (method_path m)) ''/''"
  by (rule Resolve_segments)

text \<open>
  C34. Two patterns with as many segments conflict exactly when some request path matches both
  and neither pattern's paths lie strictly within the other's: the ambiguity net/http refuses
  to register. The patterns are ones ServeMux takes, \<open>{name...}\<close> and \<open>{$}\<close> only at their end.
\<close>

theorem patterns_conflict_iff:
  assumes "mux_pattern (Segments a)" and "mux_pattern (Segments b)"
    and "length (Segments a) = length (Segments b)"
  shows "PatternsConflict a b \<longleftrightarrow>
    paths (Segments a) \<inter> paths (Segments b) \<noteq> {}
    \<and> \<not> paths (Segments a) \<subset> paths (Segments b) \<and> \<not> paths (Segments b) \<subset> paths (Segments a)"
  using PatternsConflict_sets [OF assms] unfolding mux_conflict_def .

theorem patterns_conflict_iff_witness:
  "PatternsConflict ''/a/{x}'' ''/{y}/b'' \<and> mux_pattern (Segments ''/a/{x}'')
   \<and> \<not> paths (Segments ''/a/{x}'') \<subset> paths (Segments ''/{y}/b'')"
proof -
  have "mux_pattern (Segments ''/a/{x}'')" "mux_pattern (Segments ''/{y}/b'')"
    "length (Segments ''/a/{x}'') = length (Segments ''/{y}/b'')"
    "PatternsConflict ''/a/{x}'' ''/{y}/b''" by code_simp+
  then show ?thesis using patterns_conflict_iff [of "''/a/{x}''" "''/{y}/b''"] by blast
qed

text \<open>
  A cleaned group keeps the segments of the written one in order, less the empty ones,
  \<open>.\<close> and \<open>..\<close>, so no group leaves the output tree; cleaning it again changes nothing.
\<close>

theorem clean_group_path:
  "Segments (CleanGroupPath raw) = filter (\<lambda>s. s \<notin> {''.'', ''..''}) (Segments raw)
   \<and> CleanGroupPath (CleanGroupPath raw) = CleanGroupPath raw"
  by (simp only: Segments_CleanGroupPath CleanGroupPath_segments [of "CleanGroupPath raw"])
    (simp add: CleanGroupPath_segments)

text \<open>
  The shape of a route is a normal form: it has as many segments as the route, taking it
  again changes nothing, and two routes have one shape exactly when their segments agree place
  by place up to the names of variables.
\<close>

theorem shape_normal_form:
  "Shape (Shape r) = Shape r \<and> length (Segments (Shape r)) = length (Segments r)
   \<and> (Shape r = Shape r' \<longleftrightarrow> map shape_segment (Segments r) = map shape_segment (Segments r'))"
proof -
  have "Shape (Shape r) = Shape r"
    by (simp add: Shape_segments [of "Shape r"] Segments_Shape shape_segment_idem cong: map_cong)
      (simp add: Shape_segments comp_def shape_segment_idem)
  moreover have "Shape r = Shape r' \<longleftrightarrow> map shape_segment (Segments r) = map shape_segment (Segments r')"
    unfolding Segments_Shape [symmetric] by (metis Segments_Shape Shape_segments)
  ultimately show ?thesis by (simp add: Segments_Shape)
qed

text \<open>
  The path variables of a method's route are those of the base path, the prefix and the
  method's path, in that order.
\<close>

theorem resolve_vars:
  "Vars (Resolve basePath svc m) = Vars basePath @ Vars (ServicePrefix svc) @ Vars (method_path m)"
  by (simp add: Vars_def Segments_Resolve)

end
