(* ===== verification/Design.thy ===== *)
theory Design
  imports Ast Prims Idents "HOL-Library.AList" "HOL-Library.List_Lexorder" "HOL-Library.Char_ord"
begin

text \<open>
  The symbol tables of \<^verbatim>\<open>internal/semantic\<close> and the lookups on them: \<^verbatim>\<open>semantic.go\<close>,
  \<^verbatim>\<open>decls.go\<close>, \<^verbatim>\<open>lookup.go\<close>, the walks and the reference check of \<^verbatim>\<open>typerefs.go\<close>, and from
  \<^verbatim>\<open>project.go\<close> the grouping of files and the order of diagnostics.

  A Go map is an association list with distinct keys: a write is \<open>AList.update\<close>, a read
  \<open>map_of\<close>, and \<open>slices.Sorted(maps.Keys(m))\<close> the sorted list of its keys. A loop over a map,
  whose order Go leaves open, takes the order of the list; no statement depends on it.
  A bit set of declaration kinds is the set of its constants.

  The analyser appends to one slice of diagnostics. A check that only reports is the list of
  the diagnostics it appends; a step that also fills tables returns them with its state.

  \<open>Project.typeParams\<close> is keyed by the address of an identifier. Here it holds the identifier
  itself, its position included: two identifiers of the design's files never share one.
\<close>

section \<open>Maps\<close>

type_synonym 'a table = "(string \<times> 'a) list"

definition sorted_keys :: "('k::linorder \<times> 'a) list \<Rightarrow> 'k list" where
  "sorted_keys m = sort (map fst m)"

lemma set_sorted_keys [simp]: "set (sorted_keys m) = fst ` set m"
  by (simp add: sorted_keys_def)

lemma sorted_keys_dom: "k \<in> set (sorted_keys m) \<longleftrightarrow> map_of m k \<noteq> None"
  by (simp add: map_of_eq_None_iff)

lemma distinct_sorted_keys [simp]: "distinct (sorted_keys m) = distinct (map fst m)"
  by (simp add: sorted_keys_def)

lemma map_of_update [simp]: "map_of (AList.update k v m) = (map_of m)(k \<mapsto> v)"
  by (rule AList.update_conv')

lemma distinct_keys_update [simp]:
  "distinct (map fst m) \<Longrightarrow> distinct (map fst (AList.update k v m))"
  by (rule AList.distinct_update)

section \<open>Diagnostics\<close>

definition sem_diag :: "Position \<Rightarrow> Position \<Rightarrow> Severity \<Rightarrow> string \<Rightarrow> message \<Rightarrow> Related list \<Rightarrow> Diagnostic" where
  "sem_diag pos end' sev code msg rel =
     \<lparr>d_Pos = pos, d_End = end', d_Severity = sev, d_Code = code, d_Msg = msg, d_Related = rel\<rparr>"

abbreviation error_at :: "Position \<Rightarrow> string \<Rightarrow> message \<Rightarrow> Diagnostic" where
  "error_at pos code msg \<equiv> sem_diag pos pos SeverityError code msg []"

definition related :: "Position \<Rightarrow> string \<Rightarrow> Related list" where
  "related pos msg = [\<lparr>rel_Pos = pos, rel_Msg = Msg msg []\<rparr>]"

definition CodeDuplicateDecl :: string where "CodeDuplicateDecl = ''decl/duplicate''"
definition CodeDeclBuiltinName :: string where "CodeDeclBuiltinName = ''decl/builtin-name''"
definition CodeServiceDuplicate :: string where "CodeServiceDuplicate = ''service/duplicate''"
definition CodeServiceExtendOrphan :: string where "CodeServiceExtendOrphan = ''service/extend-orphan''"
definition CodeEventDuplicate :: string where "CodeEventDuplicate = ''event/duplicate-name''"
definition CodePackageMissing :: string where "CodePackageMissing = ''package/missing''"
definition CodePackageName :: string where "CodePackageName = ''package/name''"
definition CodeGenericOptionalArg :: string where "CodeGenericOptionalArg = ''generic/optional-arg''"
definition CodeGenericNonGeneric :: string where "CodeGenericNonGeneric = ''generic/non-generic''"
definition CodeGenericArity :: string where "CodeGenericArity = ''generic/arity''"
definition CodeQualifiedRef :: string where "CodeQualifiedRef = ''ref/qualified''"
definition CodeRefUnknownPackage :: string where "CodeRefUnknownPackage = ''ref/unknown-package''"
definition CodeRefUnknownSymbol :: string where "CodeRefUnknownSymbol = ''ref/unknown-symbol''"

section \<open>Packages\<close>

record ServiceInfo =
  si_Primary :: "ServiceDecl option"
  si_Extends :: "ServiceDecl list"
  si_Methods :: "Method list"
  si_basePath :: string

record Package =
  p_Name :: string
  p_Types :: "TypeDecl table"
  p_Enums :: "EnumDecl table"
  p_Errors :: "ErrorDecl table"
  p_Scalars :: "ScalarDecl table"
  p_Middlewares :: "MiddlewareDecl table"
  p_Services :: "ServiceInfo table"
  p_Events :: "EventDecl table"

definition newPackage :: "string \<Rightarrow> Package" where
  "newPackage name =
     \<lparr>p_Name = name, p_Types = [], p_Enums = [], p_Errors = [], p_Scalars = [],
      p_Middlewares = [], p_Services = [], p_Events = []\<rparr>"

text \<open>\<open>typeParamSlot\<close> and \<open>paramFlow\<close> of \<^verbatim>\<open>instantiation_cycles.go\<close>, which the project keeps.\<close>

record typeParamSlot =
  slot_pkg :: string
  slot_typ :: string
  slot_index :: nat

record paramFlow =
  pf_host :: TypeDecl
  pf_site :: named_type_ref
  pf_param :: string
  pf_from :: typeParamSlot
  pf_to :: typeParamSlot
  pf_grows :: bool

record Project =
  pr_Packages :: "Package table"
  pr_typeParams :: "QualifiedIdent set"
  pr_endlessFlows :: "paramFlow list"

abbreviation Packages :: "Project \<Rightarrow> string \<Rightarrow> Package option" where
  "Packages p \<equiv> map_of (pr_Packages p)"

abbreviation Types :: "Package \<Rightarrow> string \<Rightarrow> TypeDecl option" where
  "Types p \<equiv> map_of (p_Types p)"

definition ServiceNames :: "Package \<Rightarrow> string list" where
  "ServiceNames p = sorted_keys (p_Services p)"

definition PackageNames :: "Project \<Rightarrow> string list" where
  "PackageNames p = sorted_keys (pr_Packages p)"

section \<open>Declaration tables\<close>

text \<open>
  The tables \<open>collectDecls\<close> fills. \<open>seen\<close> is the namespace of types, enums, scalars and errors;
  middlewares and events have their own.
\<close>

record collect =
  c_pkg :: Package
  c_seen :: "Position table"
  c_seenMW :: "Position table"
  c_seenEv :: "Position table"
  c_diags :: "Diagnostic list"

definition registerIn :: "Position table \<Rightarrow> string \<Rightarrow> Position \<Rightarrow> bool
    \<Rightarrow> bool \<times> Position table \<times> Diagnostic list" where
  "registerIn table name pos rejectBuiltin =
     (if rejectBuiltin \<and> Is name
      then (False, table, [error_at pos CodeDeclBuiltinName
             (Msg ''declaration name %q collides with a built-in type - it would shadow the built-in in the generated Go; choose a different name'' [AStr name])])
      else case map_of table name of
        Some prev \<Rightarrow> (False, table, [sem_diag pos pos SeverityError CodeDuplicateDecl
             (Msg ''duplicate top-level declaration %q'' [AStr name]) (related prev ''first declared here'')])
      | None \<Rightarrow> (True, AList.update name pos table, []))"

text \<open>\<open>strings.LastIndexByte\<close>: what lies before the last dot, and what follows it.\<close>

definition split_last_dot :: "string \<Rightarrow> (string \<times> string) option" where
  "split_last_dot key =
     (if CHR ''.'' \<in> set key
      then Some (rev (tl (dropWhile (\<lambda>c. c \<noteq> CHR ''.'') (rev key))),
                 rev (takeWhile (\<lambda>c. c \<noteq> CHR ''.'') (rev key)))
      else None)"

definition registerMember :: "string \<Rightarrow> Position table \<Rightarrow> string \<Rightarrow> Position \<Rightarrow> string \<Rightarrow> string
    \<Rightarrow> bool \<times> Position table \<times> Diagnostic list" where
  "registerMember pkgName table key pos code format =
     (case map_of table key of
        Some prev \<Rightarrow>
          let (name, scope) = (case split_last_dot key of
                 Some (before, after) \<Rightarrow> (after, before) | None \<Rightarrow> (key, pkgName))
          in (False, table, [sem_diag pos pos SeverityError code
                (Msg format [AStr name, AStr scope]) (related prev ''first declared here'')])
      | None \<Rightarrow> (True, AList.update key pos table, []))"

definition duplicate_event :: string where
  "duplicate_event = ''duplicate event %q in package %q - a listener names an event by this identifier, so it must be unique across the package''"

definition register_decl :: "string \<Rightarrow> Position \<Rightarrow> (Package \<Rightarrow> Package) \<Rightarrow> collect \<Rightarrow> collect" where
  "register_decl name pos put c =
     (let (ok, seen, ds) = registerIn (c_seen c) name pos True
      in c\<lparr>c_pkg := (if ok then put (c_pkg c) else c_pkg c), c_seen := seen, c_diags := c_diags c @ ds\<rparr>)"

definition collect_service :: "string \<Rightarrow> ServiceDecl \<Rightarrow> collect \<Rightarrow> collect" where
  "collect_service basePath dd c =
     (let name = sv_Name dd;
          si = (case map_of (p_Services (c_pkg c)) name of
                  Some si \<Rightarrow> si
                | None \<Rightarrow> \<lparr>si_Primary = None, si_Extends = [], si_Methods = [], si_basePath = basePath\<rparr>);
          set_si = (\<lambda>si. (c_pkg c)\<lparr>p_Services := AList.update name si (p_Services (c_pkg c))\<rparr>)
      in if sv_Extend dd then c\<lparr>c_pkg := set_si (si\<lparr>si_Extends := si_Extends si @ [dd]\<rparr>)\<rparr>
         else case si_Primary si of
           Some first \<Rightarrow> c\<lparr>c_pkg := set_si si, c_diags := c_diags c @
             [sem_diag (sv_Pos dd) (sv_Pos dd) SeverityError CodeServiceDuplicate
               (Msg ''duplicate primary service %q'' [AStr name]) (related (sv_Pos first) ''first declared here'')]\<rparr>
         | None \<Rightarrow> c\<lparr>c_pkg := set_si (si\<lparr>si_Primary := Some dd\<rparr>)\<rparr>)"

definition collect_decl :: "string \<Rightarrow> Decl \<Rightarrow> collect \<Rightarrow> collect" where
  "collect_decl basePath d c =
     (if DeclName d = [] then c
      else case d of
        D_Type dd \<Rightarrow> register_decl (td_Name dd) (td_Pos dd)
          (\<lambda>p. p\<lparr>p_Types := AList.update (td_Name dd) dd (p_Types p)\<rparr>) c
      | D_Enum dd \<Rightarrow> register_decl (ed_Name dd) (ed_Pos dd)
          (\<lambda>p. p\<lparr>p_Enums := AList.update (ed_Name dd) dd (p_Enums p)\<rparr>) c
      | D_Error dd \<Rightarrow> register_decl (er_Name dd) (er_Pos dd)
          (\<lambda>p. p\<lparr>p_Errors := AList.update (er_Name dd) dd (p_Errors p)\<rparr>) c
      | D_Scalar dd \<Rightarrow> register_decl (sc_Name dd) (sc_Pos dd)
          (\<lambda>p. p\<lparr>p_Scalars := AList.update (sc_Name dd) dd (p_Scalars p)\<rparr>) c
      | D_Middleware dd \<Rightarrow>
          (let (ok, seen, ds) = registerIn (c_seenMW c) (mw_Name dd) (mw_Pos dd) False; p = c_pkg c
           in c\<lparr>c_pkg := (if ok then p\<lparr>p_Middlewares := AList.update (mw_Name dd) dd (p_Middlewares p)\<rparr> else p),
                c_seenMW := seen, c_diags := c_diags c @ ds\<rparr>)
      | D_Event dd \<Rightarrow>
          (let (ok, seen, ds) = registerMember (p_Name (c_pkg c)) (c_seenEv c) (en_Name dd) (en_Pos dd) CodeEventDuplicate duplicate_event;
               p = c_pkg c
           in c\<lparr>c_pkg := (if ok then p\<lparr>p_Events := AList.update (en_Name dd) dd (p_Events p)\<rparr> else p),
                c_seenEv := seen, c_diags := c_diags c @ ds\<rparr>)
      | D_Service dd \<Rightarrow> collect_service basePath dd c)"

definition files_decls :: "File list \<Rightarrow> Decl list" where
  "files_decls files = concat (map f_Decls files)"

definition collectDecls :: "string \<Rightarrow> string \<Rightarrow> File list \<Rightarrow> collect" where
  "collectDecls basePath name files =
     fold (collect_decl basePath) (files_decls files)
       \<lparr>c_pkg = newPackage name, c_seen = [], c_seenMW = [], c_seenEv = [], c_diags = []\<rparr>"

definition merge_service :: "ServiceInfo \<Rightarrow> ServiceInfo" where
  "merge_service si =
     (case si_Primary si of
        None \<Rightarrow> si
      | Some primary \<Rightarrow> si\<lparr>si_Methods := si_Methods si @ Methods (Some primary)
            @ concat (map (\<lambda>e. Methods (Some e)) (si_Extends si))\<rparr>)"

definition mergeServices :: "Package \<Rightarrow> Package" where
  "mergeServices p = p\<lparr>p_Services := map (\<lambda>(name, si). (name, merge_service si)) (p_Services p)\<rparr>"

definition runDeclPhase :: "string \<Rightarrow> string \<Rightarrow> File list \<Rightarrow> Package \<times> Diagnostic list" where
  "runDeclPhase basePath name files =
     (let c = collectDecls basePath name files in (mergeServices (c_pkg c), c_diags c))"

section \<open>Lookups\<close>

datatype DeclKind = TypeDecls | EnumDecls | ScalarDecls | ErrorDecls | MiddlewareDecls | ServiceDecls | EventDecls

definition AnyDecl :: "DeclKind set" where
  "AnyDecl = {TypeDecls, EnumDecls, ScalarDecls, ErrorDecls, MiddlewareDecls, ServiceDecls, EventDecls}"

definition TypeRefDecls :: "DeclKind set" where
  "TypeRefDecls = {TypeDecls, EnumDecls, ScalarDecls}"

definition mixinNamedKinds :: "DeclKind set" where
  "mixinNamedKinds = {TypeDecls, EnumDecls, ErrorDecls, ScalarDecls, MiddlewareDecls}"

definition projectWideDecls :: "DeclKind set" where
  "projectWideDecls = {MiddlewareDecls, ErrorDecls}"

definition service_primary :: "Package \<Rightarrow> string \<Rightarrow> ServiceDecl option" where
  "service_primary p name = Option.bind (map_of (p_Services p) name) si_Primary"

definition kind_decl :: "Package \<Rightarrow> string \<Rightarrow> DeclKind \<Rightarrow> Decl option" where
  "kind_decl p name k =
     (case k of
        TypeDecls \<Rightarrow> map_option D_Type (map_of (p_Types p) name)
      | EnumDecls \<Rightarrow> map_option D_Enum (map_of (p_Enums p) name)
      | ScalarDecls \<Rightarrow> map_option D_Scalar (map_of (p_Scalars p) name)
      | ErrorDecls \<Rightarrow> map_option D_Error (map_of (p_Errors p) name)
      | MiddlewareDecls \<Rightarrow> map_option D_Middleware (map_of (p_Middlewares p) name)
      | EventDecls \<Rightarrow> map_option D_Event (map_of (p_Events p) name)
      | ServiceDecls \<Rightarrow> map_option D_Service (service_primary p name))"

text \<open>The order in which \<open>Decl\<close> and \<open>Decls\<close> search the kinds.\<close>

definition kind_order :: "DeclKind list" where
  "kind_order = [TypeDecls, EnumDecls, ScalarDecls, ErrorDecls, MiddlewareDecls, EventDecls, ServiceDecls]"

definition Package_Decl :: "Package \<Rightarrow> string \<Rightarrow> DeclKind set \<Rightarrow> Decl option" where
  "Package_Decl p name kinds =
     first_some (\<lambda>k. if k \<in> kinds then kind_decl p name k else None) kind_order"

definition appendDecls :: "('a \<Rightarrow> Decl) \<Rightarrow> 'a table \<Rightarrow> Decl list" where
  "appendDecls mk table = List.map_filter (\<lambda>name. map_option mk (map_of table name)) (sorted_keys table)"

definition kind_decls :: "Package \<Rightarrow> DeclKind \<Rightarrow> Decl list" where
  "kind_decls p k =
     (case k of
        TypeDecls \<Rightarrow> appendDecls D_Type (p_Types p)
      | EnumDecls \<Rightarrow> appendDecls D_Enum (p_Enums p)
      | ScalarDecls \<Rightarrow> appendDecls D_Scalar (p_Scalars p)
      | ErrorDecls \<Rightarrow> appendDecls D_Error (p_Errors p)
      | MiddlewareDecls \<Rightarrow> appendDecls D_Middleware (p_Middlewares p)
      | EventDecls \<Rightarrow> appendDecls D_Event (p_Events p)
      | ServiceDecls \<Rightarrow> List.map_filter (\<lambda>name. map_option D_Service (service_primary p name)) (ServiceNames p))"

definition Package_Decls :: "Package \<Rightarrow> DeclKind set \<Rightarrow> Decl list" where
  "Package_Decls p kinds = concat (map (kind_decls p) (filter (\<lambda>k. k \<in> kinds) kind_order))"

definition namesTypeParam :: "Project option \<Rightarrow> QualifiedIdent \<Rightarrow> bool" where
  "namesTypeParam p q \<longleftrightarrow> (case p of None \<Rightarrow> False | Some p \<Rightarrow> q \<in> pr_typeParams p)"

definition resolve :: "Project option \<Rightarrow> string \<Rightarrow> QualifiedIdent option \<Rightarrow> Package option \<times> string" where
  "resolve p home q =
     (case (p, q) of
        (Some p, Some q) \<Rightarrow>
          if namesTypeParam (Some p) q then (None, [])
          else (case qi_Parts q of
              [name] \<Rightarrow> (Packages p home, name)
            | [pkg, name] \<Rightarrow> (Packages p pkg, name)
            | _ \<Rightarrow> (None, []))
      | _ \<Rightarrow> (None, []))"

text \<open>The identifier \<open>resolveName\<close> builds is no identifier of a file: it has no position.\<close>

definition resolveName :: "Project option \<Rightarrow> string \<Rightarrow> string \<Rightarrow> Package option \<times> string" where
  "resolveName p home ref =
     resolve p home (Some \<lparr>qi_Pos = zero_Position, qi_Parts = SplitByte ref CHR ''.''\<rparr>)"

definition Project_Lookup :: "Project \<Rightarrow> string \<Rightarrow> string \<Rightarrow> DeclKind set \<Rightarrow> Decl option" where
  "Project_Lookup p homePkg name kinds =
     (let own = (case resolveName (Some p) homePkg name of
                   (Some pkg, symb) \<Rightarrow> Package_Decl pkg symb kinds
                 | (None, _) \<Rightarrow> None)
      in case own of
        Some d \<Rightarrow> Some d
      | None \<Rightarrow>
          if kinds \<inter> projectWideDecls = {} \<or> CHR ''.'' \<in> set name then None
          else first_some (\<lambda>pkgName.
                 if pkgName = homePkg then None
                 else Option.bind (Packages p pkgName) (\<lambda>pkg. Package_Decl pkg name (kinds \<inter> projectWideDecls)))
               (PackageNames p))"

definition middlewareDeclared :: "Project \<Rightarrow> Package \<Rightarrow> string \<Rightarrow> bool" where
  "middlewareDeclared p pkg name \<longleftrightarrow> Project_Lookup p (p_Name pkg) name {MiddlewareDecls} \<noteq> None"

definition errorDeclared :: "Project \<Rightarrow> Package \<Rightarrow> string \<Rightarrow> bool" where
  "errorDeclared p pkg name \<longleftrightarrow> Project_Lookup p (p_Name pkg) name {ErrorDecls} \<noteq> None"

text \<open>\<open>pkg == a.pkg\<close> is the test of the package's name: the project's table is keyed by it.\<close>

definition primaryServiceElsewhere :: "Project \<Rightarrow> Package \<Rightarrow> string \<Rightarrow> (string \<times> ServiceDecl) option" where
  "primaryServiceElsewhere p own name =
     first_some (\<lambda>pkgName. case Packages p pkgName of
         None \<Rightarrow> None
       | Some pkg \<Rightarrow>
           if pkgName = p_Name own then None
           else map_option (\<lambda>d. (pkgName, d)) (service_primary pkg name))
       (sorted_keys (pr_Packages p))"

definition refDisplay :: "Package \<Rightarrow> string \<Rightarrow> string \<Rightarrow> string" where
  "refDisplay own pkgName name =
     (if pkgName = p_Name own then name else pkgName @ ''.'' @ name)"

definition lookupScalarIn :: "Project \<Rightarrow> string \<Rightarrow> named_type_ref option \<Rightarrow> ScalarDecl option" where
  "lookupScalarIn p homePkg n =
     (case n of
        None \<Rightarrow> None
      | Some n \<Rightarrow> (case resolve (Some p) homePkg (nt_Name n) of
            (None, _) \<Rightarrow> None
          | (Some pkg, symb) \<Rightarrow> map_of (p_Scalars pkg) symb))"

definition lookupScalar :: "Project \<Rightarrow> Package \<Rightarrow> named_type_ref option \<Rightarrow> ScalarDecl option" where
  "lookupScalar p own n = lookupScalarIn p (p_Name own) n"

definition lookupEnumIn :: "Project \<Rightarrow> string \<Rightarrow> named_type_ref option \<Rightarrow> EnumDecl option" where
  "lookupEnumIn p homePkg n =
     (case n of
        None \<Rightarrow> None
      | Some n \<Rightarrow> (case resolve (Some p) homePkg (nt_Name n) of
            (None, _) \<Rightarrow> None
          | (Some pkg, symb) \<Rightarrow> map_of (p_Enums pkg) symb))"

definition lookupEnum :: "Project \<Rightarrow> Package \<Rightarrow> named_type_ref option \<Rightarrow> EnumDecl option" where
  "lookupEnum p own n = lookupEnumIn p (p_Name own) n"

definition primOf :: "Project \<Rightarrow> Package \<Rightarrow> type_ref option \<Rightarrow> string" where
  "primOf p own t =
     (case t of
        None \<Rightarrow> []
      | Some t \<Rightarrow> (case tr_Named t of
            None \<Rightarrow> []
          | Some n \<Rightarrow> (case nt_Name n of
                None \<Rightarrow> []
              | Some q \<Rightarrow> (case lookupScalar p own (Some n) of
                    Some sd \<Rightarrow> sc_Primitive sd
                  | None \<Rightarrow> QualifiedIdent_String q))))"

section \<open>Walks over the types of a declaration\<close>

type_synonym type_root = "type_ref option \<times> string list \<times> Mixin option"

text \<open>The calls \<open>walkTypeRoots\<close> and \<open>walkTypeRefs\<close> make of \<open>visit\<close>, in their order.\<close>

definition named_root :: "named_type_ref option \<Rightarrow> string list \<Rightarrow> Mixin option \<Rightarrow> type_root list" where
  "named_root n typeParams mx =
     (case n of
        None \<Rightarrow> []
      | Some r \<Rightarrow> [(Some (TypeRef (nt_Pos r) None (Some r) False False 0), typeParams, mx)])"

definition walkBody :: "TypeMember list \<Rightarrow> string list \<Rightarrow> type_root list" where
  "walkBody body typeParams =
     concat (map (\<lambda>m. case m of
         TM_Field v \<Rightarrow> [(fd_Type v, typeParams, None)]
       | TM_Mixin v \<Rightarrow> named_root (mx_Ref v) typeParams (Some v)
       | TM_FreeComment _ \<Rightarrow> []) body)"

definition walkTypeRoots :: "Decl \<Rightarrow> type_root list" where
  "walkTypeRoots d =
     (case d of
        D_Type v \<Rightarrow> walkBody (td_Body v) (td_TypeParams v)
      | D_Error v \<Rightarrow> walkBody (er_Body v) []
      | D_Event v \<Rightarrow> (case en_Payload v of None \<Rightarrow> [] | Some pl \<Rightarrow> named_root (Some (ep_Type pl)) [] None)
      | D_Service v \<Rightarrow>
          concat (map (\<lambda>m. named_root (me_Request m) [] None
            @ (case me_Response m of None \<Rightarrow> [] | Some r \<Rightarrow> named_root (Some (mr_Type r)) [] None))
            (Methods (Some v)))
      | _ \<Rightarrow> [])"

definition walkTypeRefs :: "Decl \<Rightarrow> (named_type_ref \<times> string list \<times> bool) list" where
  "walkTypeRefs d =
     concat (map (\<lambda>(t, typeParams, mx).
       map (\<lambda>n. (n, typeParams, (case mx of None \<Rightarrow> False | Some v \<Rightarrow> Some n = mx_Ref v)))
         (TypeRef_WalkNamedRefs t)) (walkTypeRoots d))"

text \<open>The references to type parameters that \<open>resolve\<close> must find no declaration for.\<close>

definition typeParamRefs :: "Package table \<Rightarrow> QualifiedIdent set" where
  "typeParamRefs pkgs =
     set (concat (map (\<lambda>(_, pkg). concat (map (\<lambda>(_, td).
       List.map_filter (\<lambda>(n, typeParams, _). case nt_Name n of
           Some q \<Rightarrow> (case qi_Parts q of
               [name] \<Rightarrow> if name \<in> set typeParams then Some q else None
             | _ \<Rightarrow> None)
         | None \<Rightarrow> None) (walkTypeRefs (D_Type td))) (p_Types pkg))) pkgs))"

section \<open>Type references\<close>

definition checkArity :: "named_type_ref \<Rightarrow> string \<Rightarrow> Decl option \<Rightarrow> Diagnostic list" where
  "checkArity n name target =
     (let want = (case target of Some (D_Type td) \<Rightarrow> length (td_TypeParams td) | _ \<Rightarrow> 0);
          got = length (nt_Args n)
      in if want = 0 \<and> got > 0 then [error_at (nt_Pos n) CodeGenericNonGeneric
             (Msg ''%s is not a generic type but received %d argument(s)'' [AStr name, AInt (int got)])]
         else if want > 0 \<and> got \<noteq> want then [error_at (nt_Pos n) CodeGenericArity
             (Msg ''%s expects %d generic argument(s), got %d'' [AStr name, AInt (int want), AInt (int got)])]
         else [])"

definition errorAsTypeMsg :: "string \<Rightarrow> message" where
  "errorAsTypeMsg name = Msg ''%q is an error declaration, not a type - errors are only valid inside `@errors(...)`; declare a separate `type` if you need this shape as a field value'' [AStr name]"

definition optional_args :: "named_type_ref \<Rightarrow> Diagnostic list" where
  "optional_args n =
     concat (map (\<lambda>arg. case arg of
         Some t \<Rightarrow> if tr_Optional t then [error_at (tr_Pos t) CodeGenericOptionalArg
             (Msg ''a generic type argument cannot be optional (`?`) - the optionality has no well-defined position after substitution, so the Go type and the OpenAPI schema would disagree. Declare the nullability on a field inside the generic (e.g. `type Box<T> { item T? }`) instead.'' [])]
           else []
       | None \<Rightarrow> []) (nt_Args n))"

text \<open>What follows the switch of \<open>checkTypeRef\<close>: the name is looked up among the declarations.\<close>

definition check_resolved_ref :: "Project \<Rightarrow> Package \<Rightarrow> named_type_ref \<Rightarrow> QualifiedIdent \<Rightarrow> bool \<Rightarrow> Diagnostic list" where
  "check_resolved_ref p own n q mixin =
     (case resolve (Some p) (p_Name own) (Some q) of
        (None, _) \<Rightarrow> [error_at (nt_Pos n) CodeRefUnknownPackage
          (Msg ''package %q is not declared anywhere in the project'' [AStr (hd (qi_Parts q))])]
      | (Some pkg, symb) \<Rightarrow>
          (case Package_Decl pkg symb (if mixin then mixinNamedKinds else TypeRefDecls) of
             Some target \<Rightarrow> if mixin then [] else checkArity n (QualifiedIdent_String q) (Some target)
           | None \<Rightarrow>
               if map_of (p_Errors pkg) symb \<noteq> None
               then [error_at (nt_Pos n) CodeRefUnknownSymbol (errorAsTypeMsg (QualifiedIdent_String q))]
               else if length (qi_Parts q) = 2
               then [error_at (nt_Pos n) CodeRefUnknownSymbol
                  (Msg ''package %q has no symbol %q'' [AStr (hd (qi_Parts q)), AStr symb])]
               else [error_at (nt_Pos n) CodeRefUnknownSymbol
                  (Msg ''unknown type %q (no built-in primitive, no declaration in package %q)'' [AStr symb, AStr (p_Name own)])]))"

definition checkTypeRef :: "Project \<Rightarrow> Package \<Rightarrow> named_type_ref \<Rightarrow> string list \<Rightarrow> bool \<Rightarrow> Diagnostic list" where
  "checkTypeRef p own n typeParams mixin =
     (case nt_Name n of
        None \<Rightarrow> []
      | Some q \<Rightarrow>
        if qi_Parts q = [] then []
        else optional_args n @
          (let parts = qi_Parts q; bare = (length parts = 1); at = (\<lambda>code msg. [error_at (nt_Pos n) code msg])
           in if length parts > 2
              then at CodeQualifiedRef (Msg ''qualified reference %q has too many segments (max 1 package prefix)'' [AStr (QualifiedIdent_String q)])
              else if length parts = 2 \<and> parts ! 0 = p_Name own
              then at CodeQualifiedRef (Msg ''redundant self-qualification %q - a type in its own package is referenced by its bare name; write %q''
                     [AStr (QualifiedIdent_String q), AStr (parts ! 1)])
              else if bare \<and> parts ! 0 = ''object''
              then at CodeRefUnknownSymbol (Msg ''`object` is not a usable field type - use `any` for an arbitrary JSON value, or `map<string, V>` / a declared `type` for a structured object'' [])
              else if bare \<and> Is (parts ! 0)
              then (if mixin then [] else checkArity n (QualifiedIdent_String q) None)
              else if bare \<and> parts ! 0 \<in> set typeParams
              then (if nt_Args n \<noteq> []
                    then at CodeGenericNonGeneric (Msg ''type parameter %q does not take generic arguments'' [AStr (parts ! 0)])
                    else [])
              else check_resolved_ref p own n q mixin))"

definition checkTypeRefs :: "Project \<Rightarrow> Package \<Rightarrow> File list \<Rightarrow> Diagnostic list" where
  "checkTypeRefs p own files =
     concat (map (\<lambda>d. concat (map (\<lambda>(n, typeParams, mixin). checkTypeRef p own n typeParams mixin) (walkTypeRefs d)))
       (files_decls files))"

fun walkMaps :: "type_ref option \<Rightarrow> map_type list" where
  "walkMaps None = []"
| "walkMaps (Some (TypeRef p (Some (MapType mp k v)) n arr opt d)) =
     MapType mp k v # walkMaps k @ walkMaps v"
| "walkMaps (Some (TypeRef p None (Some (NamedTypeRef np q args)) arr opt d)) = concat (map walkMaps args)"
| "walkMaps (Some (TypeRef p None None arr opt d)) = []"

definition isQualifiedTypeRef :: "type_ref option \<Rightarrow> bool" where
  "isQualifiedTypeRef t \<longleftrightarrow>
     (case Option.bind (Option.bind t tr_Named) nt_Name of
        None \<Rightarrow> False | Some q \<Rightarrow> length (qi_Parts q) \<ge> 2)"

section \<open>Extend blocks\<close>

definition checkExtendOrphans :: "Project \<Rightarrow> Package \<Rightarrow> Diagnostic list" where
  "checkExtendOrphans p own =
     concat (map (\<lambda>name. case map_of (p_Services own) name of
         None \<Rightarrow> []
       | Some si \<Rightarrow>
           if si_Primary si \<noteq> None then []
           else map (\<lambda>e. case primaryServiceElsewhere p own name of
               None \<Rightarrow> error_at (sv_Pos e) CodeServiceExtendOrphan
                 (Msg ''extend service %q has no primary declaration'' [AStr name])
             | Some (otherPkg, primary) \<Rightarrow> sem_diag (sv_Pos e) (sv_Pos e) SeverityError CodeServiceExtendOrphan
                 (Msg ''extend service %q: primary lives in package %q - extend declarations are per-package, move this block into that package or rename the service''
                   [AStr name, AStr otherPkg]) (related (sv_Pos primary) ''primary service declared here''))
             (si_Extends si)) (ServiceNames own))"

section \<open>Grouping files and ordering diagnostics\<close>

text \<open>\<open>token.IsKeyword\<close> and \<open>types.Universe\<close>: the keywords and the predeclared names of Go.\<close>

definition go_keywords :: "string list" where
  "go_keywords =
     [''break'', ''case'', ''chan'', ''const'', ''continue'', ''default'', ''defer'', ''else'', ''fallthrough'',
      ''for'', ''func'', ''go'', ''goto'', ''if'', ''import'', ''interface'', ''map'', ''package'', ''range'',
      ''return'', ''select'', ''struct'', ''switch'', ''type'', ''var'']"

definition go_universe :: "string list" where
  "go_universe =
     [''any'', ''bool'', ''byte'', ''comparable'', ''complex64'', ''complex128'', ''error'', ''float32'', ''float64'',
      ''int'', ''int8'', ''int16'', ''int32'', ''int64'', ''rune'', ''string'', ''uint'', ''uint8'', ''uint16'',
      ''uint32'', ''uint64'', ''uintptr'', ''true'', ''false'', ''iota'', ''nil'', ''append'', ''cap'', ''clear'',
      ''close'', ''complex'', ''copy'', ''delete'', ''imag'', ''len'', ''make'', ''max'', ''min'', ''new'', ''panic'',
      ''print'', ''println'', ''real'', ''recover'']"

definition goPackageNameProblem :: "string \<Rightarrow> string" where
  "goPackageNameProblem name =
     (if name \<in> set go_keywords then ''is a Go keyword, which a Go package clause cannot hold''
      else if name = ''_'' then ''is Go's blank identifier, which names no package''
      else if name = ''main'' then ''makes a Go program, which the other generated packages cannot import''
      else if name = ''init'' then ''is reserved for Go's init functions, so no Go file can import a package of that name''
      else if name \<in> set go_universe
      then ''is predeclared in Go, so a generated file importing the package would lose the built-in '' @ name
      else [])"

definition firstDeclarationPos :: "File \<Rightarrow> Position option" where
  "firstDeclarationPos f = (case f_Decls f of [] \<Rightarrow> None | d # _ \<Rightarrow> Some (DeclPos d))"

definition group_file :: "File \<Rightarrow> File list table \<times> Diagnostic list \<Rightarrow> File list table \<times> Diagnostic list" where
  "group_file f st =
     (let (groups, diags) = st
      in case f_Package f of
        None \<Rightarrow> (groups, diags @ (case firstDeclarationPos f of
            None \<Rightarrow> []
          | Some pos \<Rightarrow> [error_at pos CodePackageMissing
              (Msg ''this file has no `package` clause - every design file starts with `package <name>`'' [])]))
      | Some pk \<Rightarrow>
          if pd_Name pk = [] then (groups, diags)
          else
            let why = goPackageNameProblem (pd_Name pk);
                ds = (if why = [] then [] else [error_at (pd_Pos pk) CodePackageName
                       (Msg ''package name %q %s - rename the package'' [AStr (pd_Name pk), AStr why])]);
                old = (case map_of groups (pd_Name pk) of None \<Rightarrow> [] | Some fs \<Rightarrow> fs)
            in (AList.update (pd_Name pk) (old @ [f]) groups, diags @ ds))"

definition groupFilesByPackage :: "File list \<Rightarrow> File list table \<times> Diagnostic list" where
  "groupFilesByPackage files = fold group_file files ([], [])"

text \<open>\<open>comparePos\<close>: the order of positions it gives, by file and offset.\<close>

definition pos_key :: "Position \<Rightarrow> string \<times> nat" where
  "pos_key p = (pos_Filename p, pos_Offset p)"

definition comparePos :: "Position \<Rightarrow> Position \<Rightarrow> int" where
  "comparePos a b =
     (if pos_Filename a < pos_Filename b then -1 else if pos_Filename b < pos_Filename a then 1
      else if pos_Offset a < pos_Offset b then -1 else if pos_Offset b < pos_Offset a then 1 else 0)"

end
