(* ===== verification/Cycles.thy ===== *)
theory Cycles
  imports Design
begin

text \<open>
  The two cycle checks of \<^verbatim>\<open>internal/semantic\<close>: \<^verbatim>\<open>package_cycles.go\<close>, which rejects packages whose
  types reference each other in a cycle, and \<^verbatim>\<open>instantiation_cycles.go\<close>, which rejects a generic
  type that needs ever larger instances of itself.

  Both searches are queues over a finite graph. They end because a node enters the queue once:
  the number of targets not yet seen, counted twice, plus the length of the queue decreases.
\<close>

section \<open>Packages\<close>

definition CodeRefPackageCycle :: string where "CodeRefPackageCycle = ''ref/package-cycle''"

type_synonym refs = "Position table table"

definition ref_keys :: "refs \<Rightarrow> string \<Rightarrow> string list" where
  "ref_keys refs from = (case map_of refs from of None \<Rightarrow> [] | Some m \<Rightarrow> sorted_keys m)"

text \<open>The references of a declaration that name a package: \<open>n.Name.Parts\<close> of length two.\<close>

definition qualifier :: "named_type_ref \<Rightarrow> string option" where
  "qualifier n = (case nt_Name n of Some q \<Rightarrow> (case qi_Parts q of [pkg, _] \<Rightarrow> Some pkg | _ \<Rightarrow> None) | None \<Rightarrow> None)"

definition note_ref :: "Project \<Rightarrow> string \<Rightarrow> named_type_ref \<Rightarrow> Position table \<Rightarrow> Position table" where
  "note_ref p from n m =
     (case qualifier n of
        None \<Rightarrow> m
      | Some to \<Rightarrow>
          if to = from \<or> Packages p to = None then m
          else if (case map_of m to of None \<Rightarrow> True | Some prev \<Rightarrow> comparePos (nt_Pos n) prev < 0)
          then AList.update to (nt_Pos n) m
          else m)"

definition decl_refs :: "Package \<Rightarrow> named_type_ref list" where
  "decl_refs pkg = concat (map (\<lambda>d. map fst (walkTypeRefs d)) (Package_Decls pkg {TypeDecls, ErrorDecls}))"

definition package_ref_table :: "Project \<Rightarrow> string \<Rightarrow> Position table" where
  "package_ref_table p from =
     (case Packages p from of None \<Rightarrow> [] | Some pkg \<Rightarrow> fold (note_ref p from) (decl_refs pkg) [])"

definition packageRefs :: "Project \<Rightarrow> refs" where
  "packageRefs p =
     filter (\<lambda>(_, m). m \<noteq> []) (map (\<lambda>from. (from, package_ref_table p from)) (PackageNames p))"

text \<open>
  \<open>shortestCycle\<close> walks back over \<open>parent\<close> from the node whose reference closes the cycle. The
  walk is given the number of nodes as fuel, which it cannot use up: each step moves closer to
  \<open>start\<close>.
\<close>

fun trace_back :: "nat \<Rightarrow> (string \<rightharpoonup> string) \<Rightarrow> string \<Rightarrow> string \<Rightarrow> string list" where
  "trace_back 0 parent start at = []"
| "trace_back (Suc n) parent start at =
     (if at = start then []
      else at # trace_back n parent start (case parent at of None \<Rightarrow> [] | Some u \<Rightarrow> u))"

definition cycle_path :: "(string \<rightharpoonup> string) \<Rightarrow> string \<Rightarrow> string \<Rightarrow> string list" where
  "cycle_path parent start from =
     start # rev (trace_back (Suc (card (dom parent))) parent start from) @ [start]"

text \<open>One iteration of the outer loop: the references of \<open>from\<close>, up to one that closes the cycle.\<close>

fun cycle_edges :: "string \<Rightarrow> string \<Rightarrow> string list \<Rightarrow> (string \<rightharpoonup> string) \<Rightarrow> string list
    \<Rightarrow> string list + (string \<rightharpoonup> string) \<times> string list" where
  "cycle_edges start from [] parent queue = Inr (parent, queue)"
| "cycle_edges start from (to # tos) parent queue =
     (if to = start then Inl (cycle_path parent start from)
      else if parent to \<noteq> None then cycle_edges start from tos parent queue
      else cycle_edges start from tos (parent(to \<mapsto> from)) (queue @ [to]))"

definition ref_targets :: "refs \<Rightarrow> string set" where
  "ref_targets refs = (\<Union>m \<in> snd ` set refs. fst ` set m)"

lemma finite_ref_targets [simp]: "finite (ref_targets refs)"
  by (simp add: ref_targets_def)

lemma ref_keys_targets: "set (ref_keys refs from) \<subseteq> ref_targets refs"
proof (cases "map_of refs from")
  case (Some m)
  then have "(from, m) \<in> set refs" by (rule map_of_SomeD)
  then have "m \<in> snd ` set refs" by force
  with Some show ?thesis by (auto simp: ref_keys_def ref_targets_def)
qed (simp add: ref_keys_def)

lemma cycle_edges_measure:
  assumes "cycle_edges start u tos parent queue = Inr (parent', queue')"
    and "set tos \<subseteq> T" and "finite T"
  shows "2 * card (T - dom parent') + length queue' \<le> 2 * card (T - dom parent) + length queue"
  using assms
proof (induction start u tos parent queue rule: cycle_edges.induct)
  case (2 start u v tos parent queue)
  then have tos: "set tos \<subseteq> T" and v: "v \<in> T" and fin: "finite T" and "v \<noteq> start"
    by (auto split: if_splits)
  show ?case
  proof (cases "parent v = None")
    case True
    have "2 * card (T - dom parent') + length queue'
        \<le> 2 * card (T - dom (parent(v \<mapsto> u))) + length (queue @ [v])"
      unfolding fun_upd_def by (rule "2.IH"(2) [unfolded fun_upd_def, OF \<open>v \<noteq> start\<close> _ _ tos fin]) (use 2 True \<open>v \<noteq> start\<close> in \<open>simp_all add: fun_upd_def\<close>)
    moreover have "card (T - dom (parent(v \<mapsto> u))) < card (T - dom parent)"
      using v fin True by (intro psubset_card_mono) auto
    ultimately show ?thesis by simp
  qed (use 2 tos \<open>v \<noteq> start\<close> in simp)
qed simp

function cycle_search :: "refs \<Rightarrow> string \<Rightarrow> (string \<rightharpoonup> string) \<Rightarrow> string list \<Rightarrow> string list option" where
  "cycle_search refs start parent [] = None"
| "cycle_search refs start parent (from # queue) =
     (case cycle_edges start from (ref_keys refs from) parent queue of
        Inl path \<Rightarrow> Some path
      | Inr (parent', queue') \<Rightarrow> cycle_search refs start parent' queue')"
  by pat_completeness auto
termination
  by (relation "measure (\<lambda>(refs, start, parent, queue). 2 * card (ref_targets refs - dom parent) + length queue)")
    (auto dest!: cycle_edges_measure [OF _ ref_keys_targets finite_ref_targets])

definition shortestCycle :: "refs \<Rightarrow> string \<Rightarrow> string list option" where
  "shortestCycle refs start = cycle_search refs start Map.empty [start]"

fun cycle_paths :: "refs \<Rightarrow> string list \<Rightarrow> string set \<Rightarrow> string list list" where
  "cycle_paths refs [] reported = []"
| "cycle_paths refs (start # names) reported =
     (if start \<in> reported then cycle_paths refs names reported
      else case shortestCycle refs start of
        None \<Rightarrow> cycle_paths refs names reported
      | Some path \<Rightarrow> path # cycle_paths refs names (reported \<union> set path))"

definition ref_pos :: "refs \<Rightarrow> string \<Rightarrow> string \<Rightarrow> Position" where
  "ref_pos refs from to =
     (case Option.bind (map_of refs from) (\<lambda>m. map_of m to) of None \<Rightarrow> zero_Position | Some pos \<Rightarrow> pos)"

definition cycle_diag :: "refs \<Rightarrow> string list \<Rightarrow> Diagnostic" where
  "cycle_diag refs path =
     (let pos = ref_pos refs (path ! 0) (path ! 1)
      in sem_diag pos pos SeverityError CodeRefPackageCycle
        (Msg ''packages reference each other's types in a cycle (%s) - each package's types are one Go package and Go rejects an import cycle; move the types they share into one package''
          [AStr (Join path '' -> '')])
        (concat (map (\<lambda>i. related (ref_pos refs (path ! i) (path ! (i + 1)))
           (path ! i @ '' references '' @ path ! (i + 1) @ '' here'')) [1..<length path - 1])))"

definition checkPackageCycles :: "Project \<Rightarrow> Diagnostic list" where
  "checkPackageCycles p =
     (let refs = packageRefs p in map (cycle_diag refs) (cycle_paths refs (PackageNames p) {}))"

section \<open>Instantiations\<close>

definition CodeGenericInstantiationCycle :: string where
  "CodeGenericInstantiationCycle = ''generic/instantiation-cycle''"

definition typeParamNamed :: "type_ref \<Rightarrow> string list \<Rightarrow> bool" where
  "typeParamNamed t typeParams \<longleftrightarrow>
     tr_Map t = None \<and> (case Option.bind (tr_Named t) nt_Name of
        None \<Rightarrow> False
      | Some q \<Rightarrow> (case qi_Parts q of [name] \<Rightarrow> name \<in> set typeParams | _ \<Rightarrow> False))"

definition names_param :: "string \<Rightarrow> named_type_ref \<Rightarrow> bool" where
  "names_param param n \<longleftrightarrow> (case nt_Name n of None \<Rightarrow> False | Some q \<Rightarrow> qi_Parts q = [param])"

definition mentionsTypeParam :: "type_ref option \<Rightarrow> string \<Rightarrow> bool" where
  "mentionsTypeParam t param \<longleftrightarrow> list_ex (names_param param) (TypeRef_WalkNamedRefs t)"

text \<open>\<open>arg.Array\<close> of a nil argument would panic; a nil argument mentions no parameter and is skipped before it.\<close>

definition arg_grows :: "type_ref option \<Rightarrow> string \<Rightarrow> bool" where
  "arg_grows arg param \<longleftrightarrow>
     (case arg of None \<Rightarrow> False
      | Some t \<Rightarrow> tr_Array t \<or> tr_Optional t \<or> \<not> typeParamNamed t [param])"

text \<open>The flows of one instantiation site \<open>n\<close> in the body of \<open>host\<close>, type \<open>name\<close> of package \<open>pkgName\<close>.\<close>

definition site_flows :: "Project \<Rightarrow> string \<Rightarrow> string \<Rightarrow> TypeDecl \<Rightarrow> named_type_ref \<Rightarrow> paramFlow list" where
  "site_flows p pkgName name host n =
     (case resolve (Some p) pkgName (nt_Name n) of
        (None, _) \<Rightarrow> []
      | (Some targetPkg, symb) \<Rightarrow>
          (case Types targetPkg symb of
             None \<Rightarrow> []
           | Some target \<Rightarrow>
               concat (map (\<lambda>(i, arg).
                 List.map_filter (\<lambda>(j, param).
                   if mentionsTypeParam arg param
                   then Some \<lparr>pf_host = host, pf_site = n, pf_param = param,
                          pf_from = \<lparr>slot_pkg = pkgName, slot_typ = name, slot_index = j\<rparr>,
                          pf_to = \<lparr>slot_pkg = p_Name targetPkg, slot_typ = symb, slot_index = i\<rparr>,
                          pf_grows = arg_grows arg param\<rparr>
                   else None) (List.enumerate 0 (td_TypeParams host)))
                 (List.enumerate 0 (take (min (length (nt_Args n)) (length (td_TypeParams target))) (nt_Args n))))))"

definition host_flows :: "Project \<Rightarrow> string \<Rightarrow> string \<Rightarrow> TypeDecl \<Rightarrow> paramFlow list" where
  "host_flows p pkgName name host =
     (if td_TypeParams host = [] then []
      else concat (map (\<lambda>(n, _). site_flows p pkgName name host n) (walkTypeRefs (D_Type host))))"

definition paramFlows :: "Project \<Rightarrow> paramFlow list" where
  "paramFlows p =
     concat (map (\<lambda>pkgName. case Packages p pkgName of
         None \<Rightarrow> []
       | Some pkg \<Rightarrow> concat (map (\<lambda>name. case Types pkg name of
             None \<Rightarrow> []
           | Some host \<Rightarrow> host_flows p pkgName name host) (sorted_keys (p_Types pkg))))
       (PackageNames p))"

type_synonym slots = "(typeParamSlot \<times> typeParamSlot list) list"

definition slot_succs :: "slots \<Rightarrow> typeParamSlot \<Rightarrow> typeParamSlot list" where
  "slot_succs succs s = (case map_of succs s of None \<Rightarrow> [] | Some ss \<Rightarrow> ss)"

fun enqueue :: "'n list \<Rightarrow> 'n set \<Rightarrow> 'n list \<Rightarrow> 'n set \<times> 'n list" where
  "enqueue [] seen queue = (seen, queue)"
| "enqueue (n # ns) seen queue =
     (if n \<notin> seen then enqueue ns (insert n seen) (queue @ [n]) else enqueue ns seen queue)"

definition slot_targets :: "slots \<Rightarrow> typeParamSlot set" where
  "slot_targets succs = (\<Union>ss \<in> snd ` set succs. set ss)"

lemma finite_slot_targets [simp]: "finite (slot_targets succs)"
  by (simp add: slot_targets_def)

lemma slot_succs_targets: "set (slot_succs succs s) \<subseteq> slot_targets succs"
proof (cases "map_of succs s")
  case (Some ss)
  then have "(s, ss) \<in> set succs" by (rule map_of_SomeD)
  then have "ss \<in> snd ` set succs" by force
  with Some show ?thesis by (auto simp: slot_succs_def slot_targets_def)
qed (simp add: slot_succs_def)

lemma enqueue_measure:
  assumes "set ns \<subseteq> T" and "finite T"
  shows "2 * card (T - fst (enqueue ns seen queue)) + length (snd (enqueue ns seen queue))
    \<le> 2 * card (T - seen) + length queue"
  using assms
proof (induction ns seen queue rule: enqueue.induct)
  case (2 n ns seen queue)
  show ?case
  proof (cases "n \<in> seen")
    case False
    then have "card (T - insert n seen) < card (T - seen)"
      using 2 by (intro psubset_card_mono) auto
    with 2 False show ?thesis by simp
  qed (use 2 in simp)
qed simp

function slot_search :: "slots \<Rightarrow> typeParamSlot \<Rightarrow> typeParamSlot set \<Rightarrow> typeParamSlot list \<Rightarrow> bool" where
  "slot_search succs to seen [] = False"
| "slot_search succs to seen (at # queue) =
     (if at = to then True
      else let (seen', queue') = enqueue (slot_succs succs at) seen queue
           in slot_search succs to seen' queue')"
  by pat_completeness auto
termination
proof (relation "measure (\<lambda>(succs, to, seen, queue). 2 * card (slot_targets succs - seen) + length queue)", goal_cases)
  case (2 succs to seen at queue x seen' queue')
  then show ?case
    using enqueue_measure [OF slot_succs_targets finite_slot_targets, of succs at seen queue]
    by (simp add: split_beta)
qed simp

definition slotReaches :: "slots \<Rightarrow> typeParamSlot \<Rightarrow> typeParamSlot \<Rightarrow> bool" where
  "slotReaches succs from to = slot_search succs to {from} [from]"

definition flow_succs :: "paramFlow list \<Rightarrow> slots" where
  "flow_succs flows =
     fold (\<lambda>f m. AList.update (pf_from f) (slot_succs m (pf_from f) @ [pf_to f]) m) flows []"

definition endlessParamFlows :: "Project \<Rightarrow> paramFlow list" where
  "endlessParamFlows p =
     (let flows = paramFlows p; succs = flow_succs flows
      in filter (\<lambda>f. pf_grows f \<and> slotReaches succs (pf_to f) (pf_from f)) flows)"

definition instantiatesEndlessly :: "Project \<Rightarrow> TypeDecl \<Rightarrow> bool" where
  "instantiatesEndlessly p td \<longleftrightarrow> list_ex (\<lambda>f. pf_host f = td) (pr_endlessFlows p)"

definition walkedInstance :: "Project \<Rightarrow> Package \<Rightarrow> TypeDecl \<Rightarrow> named_type_ref \<Rightarrow> type_ref option list \<times> string" where
  "walkedInstance p pkg td n =
     (if instantiatesEndlessly p td then ([], p_Name pkg @ ''.'' @ td_Name td)
      else (nt_Args n, p_Name pkg @ ''.'' @ NamedTypeRef_String (Some n)))"

fun report_flows :: "named_type_ref set \<Rightarrow> paramFlow list \<Rightarrow> Diagnostic list" where
  "report_flows reported [] = []"
| "report_flows reported (f # fs) =
     (if pf_site f \<in> reported then report_flows reported fs
      else error_at (nt_Pos (pf_site f)) CodeGenericInstantiationCycle
             (Msg ''type %s instantiates %s, which feeds its type parameter %s back into %s inside a larger type - every instance needs a larger one, so Go rejects the instantiation cycle and the OpenAPI components would never end. Pass the type parameter unchanged or a concrete type.''
               [AStr (td_Name (pf_host f)), AStr (NamedTypeRef_String (Some (pf_site f))), AStr (pf_param f), AStr (td_Name (pf_host f))])
           # report_flows (insert (pf_site f) reported) fs)"

definition checkInstantiationCycles :: "Project \<Rightarrow> Diagnostic list" where
  "checkInstantiationCycles p = report_flows {} (pr_endlessFlows p)"

section \<open>The project\<close>

text \<open>
  The first half of \<open>AnalyzeProject\<close>: the packages, the references to type parameters and the
  flows that never end. The phases after it only report.
\<close>

definition project_packages :: "string \<Rightarrow> File list table \<Rightarrow> Package table" where
  "project_packages basePath groups =
     List.map_filter (\<lambda>name. map_option (\<lambda>fs. (name, fst (runDeclPhase basePath name fs))) (map_of groups name))
       (sorted_keys groups)"

definition build_project :: "string \<Rightarrow> File list \<Rightarrow> Project" where
  "build_project basePath files =
     (let pkgs = project_packages basePath (fst (groupFilesByPackage files));
          proj = \<lparr>pr_Packages = pkgs, pr_typeParams = typeParamRefs pkgs, pr_endlessFlows = []\<rparr>
      in proj\<lparr>pr_endlessFlows := endlessParamFlows proj\<rparr>)"

end
