(* ===== verification/Flatten.thy ===== *)
theory Flatten
  imports Cycles
begin

text \<open>
  The fields of a type with its mixins expanded: \<^verbatim>\<open>flatten.go\<close> of \<^verbatim>\<open>internal/semantic\<close>, and the
  \<open>Resolver\<close> of \<^verbatim>\<open>lookup.go\<close> its callers reach it through.

  The walk keeps the set of mixin types it has expanded, so that each is expanded once and a
  mixin cycle ends. Its recursion is given the number of declared types plus one as fuel: every
  nested level has expanded one type more. \<open>Flatten_Spec\<close> shows that the fuel is never used up.

  Trees are values here, so the sharing of unchanged nodes, which the sources test by address,
  is not visible. A nil type argument would make \<open>SubstituteTypeRef\<close> panic where it replaces a
  parameter, and so would a reference without a name; the parser makes neither, and the model
  gives a nil type and the empty name there.
\<close>

section \<open>Substitution\<close>

type_synonym subst = "type_ref option table"

definition SubstMap :: "string list \<Rightarrow> type_ref option list \<Rightarrow> subst" where
  "SubstMap typeParams args = fold (\<lambda>(p, a) m. AList.update p a m) (zip typeParams args) []"

text \<open>The argument \<open>rep\<close> with the suffixes of the reference it replaces added.\<close>

definition add_suffixes :: "bool \<Rightarrow> bool \<Rightarrow> nat \<Rightarrow> type_ref \<Rightarrow> type_ref" where
  "add_suffixes arr opt d rep =
     (case rep of TypeRef p m n arr' opt' d' \<Rightarrow>
        TypeRef p m n (arr' \<or> arr) (opt' \<or> opt)
          (if arr then (if d > 0 then d' + d else if d' = 0 then 1 else d') else d'))"

definition ident_text :: "QualifiedIdent option \<Rightarrow> string" where
  "ident_text q = (case q of None \<Rightarrow> [] | Some q \<Rightarrow> QualifiedIdent_String q)"

fun SubstituteTypeRef :: "subst \<Rightarrow> type_ref option \<Rightarrow> type_ref option" where
  "SubstituteTypeRef s None = None"
| "SubstituteTypeRef s (Some (TypeRef p (Some (MapType mp k v)) n arr opt d)) =
     Some (TypeRef p (Some (MapType mp (SubstituteTypeRef s k) (SubstituteTypeRef s v))) None arr opt d)"
| "SubstituteTypeRef s (Some (TypeRef p None (Some (NamedTypeRef np q args)) arr opt d)) =
     (case map_of s (ident_text q) of
        Some rep \<Rightarrow> map_option (add_suffixes arr opt d) rep
      | None \<Rightarrow> Some (TypeRef p None (Some (NamedTypeRef np q (map (SubstituteTypeRef s) args))) arr opt d))"
| "SubstituteTypeRef s (Some (TypeRef p None None arr opt d)) = Some (TypeRef p None None arr opt d)"

section \<open>Requalification\<close>

definition qualifies :: "Package \<Rightarrow> string list \<Rightarrow> QualifiedIdent \<Rightarrow> bool" where
  "qualifies pkg typeParams q \<longleftrightarrow>
     (case qi_Parts q of
        [name] \<Rightarrow> name \<notin> set typeParams \<and> Package_Decl pkg name TypeRefDecls \<noteq> None
      | _ \<Rightarrow> False)"

definition requalify_name :: "Package \<Rightarrow> string \<Rightarrow> string list \<Rightarrow> QualifiedIdent \<Rightarrow> QualifiedIdent" where
  "requalify_name pkg home typeParams q =
     (if qualifies pkg typeParams q then q\<lparr>qi_Parts := [home, hd (qi_Parts q)]\<rparr> else q)"

text \<open>\<open>requalify\<close> past its first test: \<open>pkg\<close> is the package \<open>home\<close>.\<close>

fun requalify_in :: "Package \<Rightarrow> string \<Rightarrow> string list \<Rightarrow> type_ref option \<Rightarrow> type_ref option" where
  "requalify_in pkg home tps None = None"
| "requalify_in pkg home tps (Some (TypeRef p (Some (MapType mp k v)) n arr opt d)) =
     Some (TypeRef p (Some (MapType mp (requalify_in pkg home tps k) (requalify_in pkg home tps v))) n arr opt d)"
| "requalify_in pkg home tps (Some (TypeRef p None (Some (NamedTypeRef np (Some q) args)) arr opt d)) =
     Some (TypeRef p None (Some (NamedTypeRef np (Some (requalify_name pkg home tps q))
       (map (requalify_in pkg home tps) args))) arr opt d)"
| "requalify_in pkg home tps (Some (TypeRef p None (Some (NamedTypeRef np None args)) arr opt d)) =
     Some (TypeRef p None (Some (NamedTypeRef np None args)) arr opt d)"
| "requalify_in pkg home tps (Some (TypeRef p None None arr opt d)) = Some (TypeRef p None None arr opt d)"

definition requalify :: "Project option \<Rightarrow> type_ref option \<Rightarrow> string \<Rightarrow> string \<Rightarrow> string list \<Rightarrow> type_ref option" where
  "requalify proj t home view typeParams =
     (if t = None \<or> home = view then t
      else case proj of
        None \<Rightarrow> t
      | Some p \<Rightarrow> (case Packages p home of None \<Rightarrow> t | Some pkg \<Rightarrow> requalify_in pkg home typeParams t))"

section \<open>Flattened fields\<close>

record mixinSite =
  ms_mixin :: Mixin
  ms_home :: string

record FlatField =
  ff_Field :: Field
  ff_Name :: string
  ff_Home :: string
  ff_embedPath :: "string list"
  ff_optionalParam :: bool
  ff_paramTyped :: bool
  ff_origin :: "mixinSite option"

definition sliceBehindPointer :: "FlatField \<Rightarrow> bool" where
  "sliceBehindPointer ff \<longleftrightarrow>
     ff_optionalParam ff \<and> (case fd_Type (ff_Field ff) of None \<Rightarrow> False | Some t \<Rightarrow> tr_Array t)"

record fieldWalk =
  w_proj :: "Project option"
  w_view :: string
  w_names :: "(TypeMember list \<Rightarrow> string list) option"
  w_expanded :: "string set"
  w_incomplete :: bool
  w_embedDepths :: "nat list table"

definition levelName :: "FlatField \<Rightarrow> string" where
  "levelName ff = (case split_last_dot (ff_Name ff) of None \<Rightarrow> ff_Name ff | Some (_, after) \<Rightarrow> after)"

definition add_depth :: "string \<Rightarrow> nat \<Rightarrow> nat list table \<Rightarrow> nat list table" where
  "add_depth name d m = AList.update name ((case map_of m name of None \<Rightarrow> [] | Some ds \<Rightarrow> ds) @ [d]) m"

definition nameShadowedByPath :: "fieldWalk \<Rightarrow> FlatField list \<Rightarrow> FlatField list" where
  "nameShadowedByPath w flds =
     (case w_names w of
        None \<Rightarrow> flds
      | Some _ \<Rightarrow>
          let depths = fold (\<lambda>ff. add_depth (ff_Name ff) (length (ff_embedPath ff))) flds (w_embedDepths w)
          in map (\<lambda>ff.
               let depth = length (ff_embedPath ff);
                   above = length (filter (\<lambda>d. d \<le> depth) (case map_of depths (ff_Name ff) of None \<Rightarrow> [] | Some ds \<Rightarrow> ds))
               in if depth = 0 then ff
                  else if above > 1 then ff\<lparr>ff_Name := Join (ff_embedPath ff @ [ff_Name ff]) ''.''\<rparr>
                  else ff) flds)"

definition goEmbedName :: "QualifiedIdent option \<Rightarrow> string" where
  "goEmbedName n = (case n of None \<Rightarrow> [] | Some q \<Rightarrow> if qi_Parts q = [] then [] else last (qi_Parts q))"

definition boundParam :: "type_ref option \<Rightarrow> subst \<Rightarrow> type_ref option" where
  "boundParam t subst =
     (case Option.bind (Option.bind t tr_Named) nt_Name of
        None \<Rightarrow> None
      | Some q \<Rightarrow> (case qi_Parts q of [name] \<Rightarrow> Option.bind (map_of subst name) id | _ \<Rightarrow> None))"

definition optionalParam :: "type_ref option \<Rightarrow> subst \<Rightarrow> bool" where
  "optionalParam t subst \<longleftrightarrow>
     (case t of None \<Rightarrow> False | Some r \<Rightarrow> tr_Optional r \<and> \<not> tr_Array r \<and> boundParam t subst \<noteq> None)"

type_synonym origins = "mixinSite option table"

definition origin_of :: "origins \<Rightarrow> string \<Rightarrow> mixinSite option" where
  "origin_of origins name = Option.bind (map_of origins name) id"

definition argOrigin :: "type_ref option \<Rightarrow> string list \<Rightarrow> origins \<Rightarrow> mixinSite \<Rightarrow> mixinSite option" where
  "argOrigin arg typeParams origins site =
     (let named = filter (mentionsTypeParam arg) typeParams
      in if named = [] then Some site
         else if list_ex (\<lambda>p. origin_of origins p = None) named then None
         else origin_of origins (hd named))"

definition spell :: "fieldWalk \<Rightarrow> type_ref option \<Rightarrow> string \<Rightarrow> string list \<Rightarrow> subst \<Rightarrow> type_ref option" where
  "spell w t home typeParams subst =
     (let t = requalify (w_proj w) t home (w_view w) typeParams
      in if subst = [] then t else SubstituteTypeRef subst t)"

definition flat_field :: "fieldWalk \<Rightarrow> string \<Rightarrow> string list \<Rightarrow> subst \<Rightarrow> origins \<Rightarrow> string list \<Rightarrow> string list \<Rightarrow> nat \<Rightarrow> Field \<Rightarrow> FlatField" where
  "flat_field w home typeParams subst origins embedPath names i v =
     (let paramTyped = boundParam (fd_Type v) subst \<noteq> None
      in \<lparr>ff_Field = v\<lparr>fd_Type := spell w (fd_Type v) home typeParams subst\<rparr>,
          ff_Name = (if i < length names then names ! i else []),
          ff_Home = home, ff_embedPath = embedPath,
          ff_optionalParam = optionalParam (fd_Type v) subst, ff_paramTyped = paramTyped,
          ff_origin = (if paramTyped
            then (case Option.bind (Option.bind (fd_Type v) tr_Named) nt_Name of
                    Some q \<Rightarrow> origin_of origins (hd (qi_Parts q)) | None \<Rightarrow> None)
            else None)\<rparr>)"

text \<open>
  The loop of \<open>level\<close> over a body, \<open>mixin\<close> being the treatment of a mixin, and \<open>mixin\<close> with
  \<open>level\<close> the treatment of the body it embeds.
\<close>

fun level_loop :: "(Mixin \<Rightarrow> fieldWalk \<Rightarrow> FlatField list \<times> fieldWalk)
    \<Rightarrow> (fieldWalk \<Rightarrow> nat \<Rightarrow> Field \<Rightarrow> FlatField) \<Rightarrow> nat \<Rightarrow> TypeMember list \<Rightarrow> fieldWalk \<Rightarrow> FlatField list \<times> fieldWalk" where
  "level_loop mixin field i [] w = ([], w)"
| "level_loop mixin field i (TM_Field v # body) w =
     (let (out, w') = level_loop mixin field (i + 1) body w in (field w i v # out, w'))"
| "level_loop mixin field i (TM_Mixin mx # body) w =
     (let (fs, w1) = mixin mx w; (out, w2) = level_loop mixin field i body w1 in (fs @ out, w2))"
| "level_loop mixin field i (TM_FreeComment c # body) w = level_loop mixin field i body w"

type_synonym level_fun = "string \<Rightarrow> TypeMember list \<Rightarrow> string list \<Rightarrow> subst \<Rightarrow> origins \<Rightarrow> string list
    \<Rightarrow> fieldWalk \<Rightarrow> FlatField list \<times> fieldWalk"

definition walk_mixin :: "level_fun \<Rightarrow> string \<Rightarrow> string list \<Rightarrow> subst \<Rightarrow> origins \<Rightarrow> string list
    \<Rightarrow> Mixin \<Rightarrow> fieldWalk \<Rightarrow> FlatField list \<times> fieldWalk" where
  "walk_mixin level home typeParams subst origins embedPath mx w =
     (case mx_Ref mx of
        None \<Rightarrow> ([], w)
      | Some ref \<Rightarrow>
          (case resolve (w_proj w) home (nt_Name ref) of
             (None, _) \<Rightarrow> ([], w\<lparr>w_incomplete := True\<rparr>)
           | (Some pkg, symb) \<Rightarrow>
               (case Types pkg symb of
                  None \<Rightarrow> ([], w\<lparr>w_incomplete := True\<rparr>)
                | Some td \<Rightarrow>
                    let embed = goEmbedName (nt_Name ref);
                        w1 = w\<lparr>w_embedDepths := add_depth embed (length embedPath) (w_embedDepths w)\<rparr>;
                        key = p_Name pkg @ ''.'' @ symb
                    in if key \<in> w_expanded w1 then ([], w1)
                       else
                         let w2 = w1\<lparr>w_expanded := insert key (w_expanded w1)\<rparr>;
                             args = map (\<lambda>a. spell w2 a home typeParams subst) (nt_Args ref);
                             site = \<lparr>ms_mixin = mx, ms_home = home\<rparr>;
                             argOrigins = fold (\<lambda>(p, a) m. AList.update p (argOrigin a typeParams origins site) m)
                               (zip (td_TypeParams td) (nt_Args ref)) []
                         in level (p_Name pkg) (td_Body td) (td_TypeParams td) (SubstMap (td_TypeParams td) args)
                              argOrigins (embedPath @ [embed]) w2)))"

primrec level :: "nat \<Rightarrow> level_fun" where
  "level 0 home body typeParams subst origins embedPath w = ([], w)"
| "level (Suc n) home body typeParams subst origins embedPath w =
     (let names = (case w_names w of None \<Rightarrow> [] | Some f \<Rightarrow> f body)
      in level_loop (walk_mixin (level n) home typeParams subst origins embedPath)
           (\<lambda>w. flat_field w home typeParams subst origins embedPath names) 0 body w)"

definition type_keys :: "Project option \<Rightarrow> string list" where
  "type_keys proj =
     (case proj of
        None \<Rightarrow> []
      | Some p \<Rightarrow> concat (map (\<lambda>(_, pkg). map (\<lambda>(symb, _). p_Name pkg @ ''.'' @ symb) (p_Types pkg)) (pr_Packages p)))"

definition flattenFields :: "Project option \<Rightarrow> string \<Rightarrow> string \<Rightarrow> TypeMember list \<Rightarrow> string list \<Rightarrow> type_ref option list
    \<Rightarrow> (TypeMember list \<Rightarrow> string list) option \<Rightarrow> FlatField list \<times> bool" where
  "flattenFields p view home body typeParams args names =
     (let w = \<lparr>w_proj = p, w_view = view, w_names = names, w_expanded = {}, w_incomplete = False, w_embedDepths = []\<rparr>;
          (flds, w') = level (Suc (length (type_keys p))) home body typeParams (SubstMap typeParams args) [] [] w
      in (nameShadowedByPath w' flds, w_incomplete w'))"

section \<open>Resolvers\<close>

record Resolver =
  r_proj :: "Project option"
  r_current :: string

definition NewResolver :: "Project option \<Rightarrow> string \<Rightarrow> Resolver" where
  "NewResolver proj current = \<lparr>r_proj = proj, r_current = current\<rparr>"

definition PackageResolver :: "Package \<Rightarrow> Resolver" where
  "PackageResolver pkg =
     (let pkgs = [(p_Name pkg, pkg)]
      in NewResolver (Some \<lparr>pr_Packages = pkgs, pr_typeParams = typeParamRefs pkgs, pr_endlessFlows = []\<rparr>) (p_Name pkg))"

definition Resolver_Project :: "Resolver option \<Rightarrow> Project option" where
  "Resolver_Project r = Option.bind r r_proj"

definition Resolver_lookup :: "Resolver option \<Rightarrow> string \<Rightarrow> DeclKind set \<Rightarrow> Decl option" where
  "Resolver_lookup r name kinds =
     (case r of
        None \<Rightarrow> None
      | Some r \<Rightarrow> (case resolveName (r_proj r) (r_current r) name of
            (None, _) \<Rightarrow> None
          | (Some pkg, symb) \<Rightarrow> Package_Decl pkg symb kinds))"

definition LookupType :: "Resolver option \<Rightarrow> string \<Rightarrow> TypeDecl option" where
  "LookupType r name = (case Resolver_lookup r name {TypeDecls} of Some (D_Type d) \<Rightarrow> Some d | _ \<Rightarrow> None)"

definition LookupEnum :: "Resolver option \<Rightarrow> string \<Rightarrow> EnumDecl option" where
  "LookupEnum r name = (case Resolver_lookup r name {EnumDecls} of Some (D_Enum d) \<Rightarrow> Some d | _ \<Rightarrow> None)"

definition LookupScalar :: "Resolver option \<Rightarrow> string \<Rightarrow> ScalarDecl option" where
  "LookupScalar r name = (case Resolver_lookup r name {ScalarDecls} of Some (D_Scalar d) \<Rightarrow> Some d | _ \<Rightarrow> None)"

definition flattenInstance :: "TypeDecl option \<Rightarrow> string \<Rightarrow> type_ref option list \<Rightarrow> Resolver option
    \<Rightarrow> (TypeMember list \<Rightarrow> string list) option \<Rightarrow> FlatField list" where
  "flattenInstance td pre args r names =
     (case td of
        None \<Rightarrow> []
      | Some td \<Rightarrow>
          let proj = Resolver_Project r; view = (case r of None \<Rightarrow> [] | Some r \<Rightarrow> r_current r);
              home = (if pre = [] then view else pre)
          in fst (flattenFields proj view home (td_Body td) (td_TypeParams td) args names))"

definition FlattenFields :: "TypeDecl option \<Rightarrow> string \<Rightarrow> Resolver option
    \<Rightarrow> (TypeMember list \<Rightarrow> string list) option \<Rightarrow> FlatField list" where
  "FlattenFields td pre r names = flattenInstance td pre [] r names"

definition instanceFields :: "Project \<Rightarrow> string \<Rightarrow> named_type_ref option \<Rightarrow> (string \<times> FlatField list) option" where
  "instanceFields p home ref =
     (case ref of
        None \<Rightarrow> None
      | Some ref \<Rightarrow>
          (case resolve (Some p) home (nt_Name ref) of
             (None, _) \<Rightarrow> None
           | (Some pkg, symb) \<Rightarrow>
               (case Types pkg symb of
                  None \<Rightarrow> None
                | Some td \<Rightarrow>
                    let args = map (\<lambda>arg. requalify (Some p) arg home (p_Name pkg) []) (nt_Args ref)
                    in Some (p_Name pkg, fst (flattenFields (Some p) (p_Name pkg) (p_Name pkg) (td_Body td)
                         (td_TypeParams td) args None)))))"

end
