(* ===== verification/Mixins.thy ===== *)
theory Mixins
  imports Flatten "HOL-Library.Product_Lexorder"
begin

text \<open>
  The checks of \<^verbatim>\<open>mixin.go\<close> of \<^verbatim>\<open>internal/semantic\<close>, and \<open>checkFieldUniqueness\<close>'s duplicate rule of
  \<^verbatim>\<open>collision_checks.go\<close> they leave the fields of one body to: a field name must not be reachable
  twice through embedding.

  \<open>collectMixinFields\<close> walks the types a mixin embeds with the expansion stack in \<open>visited\<close>; it
  ends because the stack only ever holds names of the design's types and each nested call adds
  one. The model bounds the nesting by their number plus one, and a deeper call reports a cycle
  before it could be cut off.
\<close>

definition CodeMixinConflict :: string where "CodeMixinConflict = ''mixin/conflict''"
definition CodeMixinArity :: string where "CodeMixinArity = ''mixin/arity''"
definition CodeMixinNonType :: string where "CodeMixinNonType = ''mixin/non-type''"
definition CodeMixinCycle :: string where "CodeMixinCycle = ''mixin/cycle''"
definition CodeDuplicateField :: string where "CodeDuplicateField = ''field/duplicate''"

record mixinEmbed =
  me_full :: string
  me_pos :: Position

definition duplicateEmbedMsg :: "string \<Rightarrow> string \<Rightarrow> string \<Rightarrow> message" where
  "duplicateEmbedMsg first second leaf =
     (if first = second
      then Msg ''mixin %q is embedded more than once - the generated Go struct would declare it twice and fail to compile (%q redeclared)''
             [AStr first, AStr leaf]
      else Msg ''mixins %q and %q both embed as the Go field %q - the generated struct would redeclare it and fail to compile''
             [AStr first, AStr second, AStr leaf])"

record fieldEmbedClash =
  fe_pos :: Position
  fe_field :: string
  fe_goName :: string

definition embed_names :: "TypeMember list \<Rightarrow> string list" where
  "embed_names body =
     List.map_filter (\<lambda>m. case m of
         TM_Mixin mx \<Rightarrow> (case Option.bind (mx_Ref mx) nt_Name of
             Some q \<Rightarrow> if qi_Parts q = [] then None else Some (last (qi_Parts q))
           | None \<Rightarrow> None)
       | _ \<Rightarrow> None) body"

definition fieldEmbedClashes :: "TypeMember list \<Rightarrow> fieldEmbedClash list" where
  "fieldEmbedClashes body =
     List.map_filter (\<lambda>f. let gn = GoFieldName (fd_Name f)
       in if gn \<in> set (embed_names body) then Some \<lparr>fe_pos = fd_Pos f, fe_field = fd_Name f, fe_goName = gn\<rparr> else None)
       (Fields body)"

record typeParamMixin =
  tpm_pos :: Position
  tpm_param :: string

definition findTypeParamMixins :: "string list \<Rightarrow> TypeMember list \<Rightarrow> typeParamMixin list" where
  "findTypeParamMixins typeParams body =
     (if typeParams = [] then []
      else List.map_filter (\<lambda>m. case m of
          TM_Mixin mx \<Rightarrow> (case Option.bind (mx_Ref mx) nt_Name of
              Some q \<Rightarrow> (case qi_Parts q of
                  [name] \<Rightarrow> if name \<in> set typeParams then Some \<lparr>tpm_pos = mx_Pos mx, tpm_param = name\<rparr> else None
                | _ \<Rightarrow> None)
            | None \<Rightarrow> None)
        | _ \<Rightarrow> None) body)"

definition typeParamMixinMsg :: "string \<Rightarrow> string \<Rightarrow> message" where
  "typeParamMixinMsg host param =
     Msg ''type %s cannot embed its type parameter %q as a mixin: Go forbids embedding a type parameter, so the generated struct would not compile. Use a named field instead (e.g. `value %s`).''
       [AStr host, AStr param, AStr param]"

definition checkTypeParamMixin :: "string \<Rightarrow> string list \<Rightarrow> TypeMember list \<Rightarrow> Diagnostic list" where
  "checkTypeParamMixin host typeParams body =
     map (\<lambda>t. error_at (tpm_pos t) CodeMixinConflict (typeParamMixinMsg host (tpm_param t)))
       (findTypeParamMixins typeParams body)"

record fieldOrigin =
  fo_pos :: Position
  fo_from :: string

type_synonym seen_fields = "fieldOrigin table"

record go_entry =
  ge_dsl :: string
  ge_from :: string
  ge_pos :: Position

definition go_groups :: "seen_fields \<Rightarrow> go_entry list table" where
  "go_groups seen =
     fold (\<lambda>(dsl, o') m. let gn = GoFieldName dsl
       in AList.update gn ((case map_of m gn of None \<Rightarrow> [] | Some es \<Rightarrow> es)
            @ [\<lparr>ge_dsl = dsl, ge_from = fo_from o', ge_pos = fo_pos o'\<rparr>]) m) seen []"

definition report_group :: "string \<Rightarrow> go_entry list \<Rightarrow> Diagnostic list" where
  "report_group gn ents =
     (if length ents < 2 then []
      else case sort_key (\<lambda>e. (ge_from e, ge_dsl e)) ents of
        [] \<Rightarrow> []
      | first # rest \<Rightarrow>
          map (\<lambda>e. error_at (ge_pos e) CodeMixinConflict
            (Msg ''field %q (from %s) and field %q (from %s) both lower to the Go field %q across mixin embedding - Go field promotion can't tell them apart, so the generated binder / validator / writers would target one field for both. Rename one.''
              [AStr (ge_dsl e), AStr (ge_from e), AStr (ge_dsl first), AStr (ge_from first), AStr gn]))
            (filter (\<lambda>e. ge_from e \<noteq> ge_from first) rest))"

definition reportGoNameCollisions :: "seen_fields \<Rightarrow> Diagnostic list" where
  "reportGoNameCollisions seen =
     (let groups = go_groups seen
      in concat (map (\<lambda>gn. report_group gn (case map_of groups gn of None \<Rightarrow> [] | Some es \<Rightarrow> es)) (sorted_keys groups)))"

section \<open>Expanding a mixin\<close>

definition cycle_at :: "Package \<Rightarrow> Position \<Rightarrow> string \<Rightarrow> string \<Rightarrow> Diagnostic" where
  "cycle_at own pos pkgName name =
     error_at pos CodeMixinCycle (Msg ''mixin %s forms a cycle'' [AStr (refDisplay own pkgName name)])"

definition conflict_at :: "Position \<Rightarrow> string \<Rightarrow> string \<Rightarrow> fieldOrigin \<Rightarrow> Diagnostic" where
  "conflict_at pos label name prev =
     sem_diag pos pos SeverityError CodeMixinConflict
       (Msg ''mixin %s adds field %q, which conflicts with %s'' [AStr label, AStr name, AStr (fo_from prev)])
       (related (fo_pos prev) ''first field declared here'')"

definition add_field :: "string \<Rightarrow> Position \<Rightarrow> Field \<Rightarrow> seen_fields \<Rightarrow> Diagnostic list \<times> seen_fields" where
  "add_field label pos v seen =
     (case map_of seen (fd_Name v) of
        Some prev \<Rightarrow> if fo_from prev = label then ([], seen) else ([conflict_at pos label (fd_Name v) prev], seen)
      | None \<Rightarrow> ([], AList.update (fd_Name v) \<lparr>fo_pos = fd_Pos v, fo_from = label\<rparr> seen))"

text \<open>The loop over the body of an embedded type, \<open>nested\<close> being the treatment of a mixin in it.\<close>

fun collect_body :: "(Mixin \<Rightarrow> seen_fields \<Rightarrow> Diagnostic list \<times> seen_fields) \<Rightarrow> string \<Rightarrow> Position
    \<Rightarrow> TypeMember list \<Rightarrow> seen_fields \<Rightarrow> Diagnostic list \<times> seen_fields" where
  "collect_body nested label pos [] seen = ([], seen)"
| "collect_body nested label pos (TM_Field v # body) seen =
     (let (ds, seen1) = add_field label pos v seen; (ds', seen2) = collect_body nested label pos body seen1
      in (ds @ ds', seen2))"
| "collect_body nested label pos (TM_Mixin mx # body) seen =
     (let (ds, seen1) = nested mx seen; (ds', seen2) = collect_body nested label pos body seen1
      in (ds @ ds', seen2))"
| "collect_body nested label pos (TM_FreeComment c # body) seen = collect_body nested label pos body seen"

primrec collectMixinFields :: "nat \<Rightarrow> Project \<Rightarrow> Package \<Rightarrow> Package \<Rightarrow> string \<Rightarrow> string \<Rightarrow> Position
    \<Rightarrow> seen_fields \<Rightarrow> string set \<Rightarrow> Diagnostic list \<times> seen_fields" where
  "collectMixinFields 0 p own pkg name label pos seen visited = ([cycle_at own pos (p_Name pkg) name], seen)"
| "collectMixinFields (Suc n) p own pkg name label pos seen visited =
     (let key = p_Name pkg @ ''.'' @ name
      in if key \<in> visited then ([cycle_at own pos (p_Name pkg) name], seen)
         else case Types pkg name of
           None \<Rightarrow> ([], seen)
         | Some td \<Rightarrow>
             collect_body (\<lambda>mx seen. case mx_Ref mx of
                 None \<Rightarrow> ([], seen)
               | Some ref \<Rightarrow> (case resolve (Some p) (p_Name pkg) (nt_Name ref) of
                     (None, _) \<Rightarrow> ([], seen)
                   | (Some nxt, symb) \<Rightarrow>
                       collectMixinFields n p own nxt symb label pos seen (insert key visited)))
               label pos (td_Body td) seen)"

definition resolveMixinTarget :: "Package \<Rightarrow> Mixin \<Rightarrow> Package \<Rightarrow> string \<Rightarrow> Diagnostic list \<times> TypeDecl option" where
  "resolveMixinTarget own mx pkg name =
     (let non_type = (\<lambda>kind. ([error_at (mx_Pos mx) CodeMixinNonType
            (Msg ''mixin %s is %s, not a type'' [AStr (refDisplay own (p_Name pkg) name), AStr kind])], None))
      in case Package_Decl pkg name mixinNamedKinds of
        Some (D_Type d) \<Rightarrow> ([], Some d)
      | Some (D_Enum d) \<Rightarrow> non_type ''an enum''
      | Some (D_Error d) \<Rightarrow> non_type ''an error''
      | Some (D_Scalar d) \<Rightarrow> non_type ''a scalar''
      | Some (D_Middleware d) \<Rightarrow> non_type ''a middleware''
      | _ \<Rightarrow> ([], None))"

definition processMixin :: "Project \<Rightarrow> Package \<Rightarrow> string \<Rightarrow> Mixin \<Rightarrow> seen_fields \<Rightarrow> Diagnostic list \<times> seen_fields" where
  "processMixin p own host mx seen =
     (case mx_Ref mx of
        None \<Rightarrow> ([], seen)
      | Some ref \<Rightarrow>
          (case nt_Name ref of
             None \<Rightarrow> ([], seen)
           | Some q \<Rightarrow>
               (case resolve (Some p) (p_Name own) (Some q) of
                  (None, _) \<Rightarrow> ([], seen)
                | (Some pkg, name) \<Rightarrow>
                    (case resolveMixinTarget own mx pkg name of
                       (ds, None) \<Rightarrow> (ds, seen)
                     | (ds, Some td) \<Rightarrow>
                         if length (nt_Args ref) \<noteq> length (td_TypeParams td)
                         then (ds @ [error_at (mx_Pos mx) CodeMixinArity
                                (Msg ''mixin %s expects %d generic argument(s), got %d''
                                  [AStr (QualifiedIdent_String q), AInt (int (length (td_TypeParams td))), AInt (int (length (nt_Args ref)))])], seen)
                         else
                           let (ds', seen') = collectMixinFields (Suc (Suc (length (type_keys (Some p))))) p own pkg name
                                 (QualifiedIdent_String q) (mx_Pos mx) seen {p_Name own @ ''.'' @ host}
                           in (ds @ ds', seen')))))"

section \<open>The check of a body\<close>

definition host_fields :: "string \<Rightarrow> TypeMember list \<Rightarrow> seen_fields" where
  "host_fields host body =
     fold (\<lambda>f seen. if map_of seen (fd_Name f) \<noteq> None then seen
       else AList.update (fd_Name f) \<lparr>fo_pos = fd_Pos f, fo_from = host\<rparr> seen) (Fields body) []"

fun check_mixins :: "Project \<Rightarrow> Package \<Rightarrow> string \<Rightarrow> TypeMember list \<Rightarrow> mixinEmbed table \<Rightarrow> seen_fields
    \<Rightarrow> Diagnostic list \<times> seen_fields" where
  "check_mixins p own host [] seenMixin seen = ([], seen)"
| "check_mixins p own host (TM_Mixin mx # body) seenMixin seen =
     (case Option.bind (mx_Ref mx) nt_Name of
        Some q \<Rightarrow>
          (let leaf = goEmbedName (Some q); full = QualifiedIdent_String q
           in case map_of seenMixin leaf of
             Some prev \<Rightarrow>
               (let (ds', seen') = check_mixins p own host body seenMixin seen
                in (sem_diag (mx_Pos mx) (mx_Pos mx) SeverityError CodeMixinConflict
                      (duplicateEmbedMsg (me_full prev) full leaf) (related (me_pos prev) ''first embedded here'') # ds', seen'))
           | None \<Rightarrow>
               (let (ds, seen1) = processMixin p own host mx seen;
                    (ds', seen2) = check_mixins p own host body
                      (AList.update leaf \<lparr>me_full = full, me_pos = mx_Pos mx\<rparr> seenMixin) seen1
                in (ds @ ds', seen2)))
      | None \<Rightarrow>
          (let (ds, seen1) = processMixin p own host mx seen; (ds', seen2) = check_mixins p own host body seenMixin seen1
           in (ds @ ds', seen2)))"
| "check_mixins p own host (m # body) seenMixin seen = check_mixins p own host body seenMixin seen"

definition checkOneTypeMixins :: "Project \<Rightarrow> Package \<Rightarrow> string \<Rightarrow> TypeMember list \<Rightarrow> Diagnostic list" where
  "checkOneTypeMixins p own host body =
     (let (ds, seen) = check_mixins p own host body [] (host_fields host body)
      in ds
         @ map (\<lambda>c. error_at (fe_pos c) CodeMixinConflict
             (Msg ''field %q collides with the embedded mixin %q: both become the Go field %q in the generated struct. Rename the field.''
               [AStr (fe_field c), AStr (fe_goName c), AStr (fe_goName c)])) (fieldEmbedClashes body)
         @ reportGoNameCollisions seen)"

definition checkMixins :: "Project \<Rightarrow> Package \<Rightarrow> Diagnostic list" where
  "checkMixins p own =
     concat (map (\<lambda>(_, td). checkOneTypeMixins p own (td_Name td) (td_Body td)
       @ checkTypeParamMixin (td_Name td) (td_TypeParams td) (td_Body td)) (p_Types own))
     @ concat (map (\<lambda>(_, ed). checkOneTypeMixins p own (er_Name ed) (er_Body ed)) (p_Errors own))"

text \<open>The duplicate rule of \<open>checkFieldUniqueness\<close>.\<close>

fun duplicate_fields :: "string \<Rightarrow> Field list \<Rightarrow> Position table \<Rightarrow> Diagnostic list" where
  "duplicate_fields name [] seen = []"
| "duplicate_fields name (f # fs) seen =
     (case map_of seen (fd_Name f) of
        Some prev \<Rightarrow> sem_diag (fd_Pos f) (fd_Pos f) SeverityError CodeDuplicateField
            (Msg ''duplicate field %q in %q'' [AStr (fd_Name f), AStr name]) (related prev ''first declared here'')
          # duplicate_fields name fs seen
      | None \<Rightarrow> duplicate_fields name fs (AList.update (fd_Name f) (fd_Pos f) seen))"

end
