(* ===== verification/Design_Spec.thy ===== *)
theory Design_Spec
  imports Cycles
begin

text \<open>
  What the symbol tables hold. A declaration is in the table of its kind under its own name;
  types, enums, scalars and errors share a namespace; and a package whose declarations are
  collected without a diagnostic has every one of them in its tables. From there the lemmas
  follow the tables through \<open>mergeServices\<close> into the packages of the project.
\<close>

section \<open>Collecting declarations\<close>

primrec decl_kind :: "Decl \<Rightarrow> DeclKind" where
  "decl_kind (D_Type d) = TypeDecls"
| "decl_kind (D_Enum d) = EnumDecls"
| "decl_kind (D_Error d) = ErrorDecls"
| "decl_kind (D_Scalar d) = ScalarDecls"
| "decl_kind (D_Middleware d) = MiddlewareDecls"
| "decl_kind (D_Service d) = ServiceDecls"
| "decl_kind (D_Event d) = EventDecls"

definition type_space :: "DeclKind set" where
  "type_space = {TypeDecls, EnumDecls, ScalarDecls, ErrorDecls}"

primrec put_decl :: "Decl \<Rightarrow> Package \<Rightarrow> Package" where
  "put_decl (D_Type d) p = p\<lparr>p_Types := AList.update (td_Name d) d (p_Types p)\<rparr>"
| "put_decl (D_Enum d) p = p\<lparr>p_Enums := AList.update (ed_Name d) d (p_Enums p)\<rparr>"
| "put_decl (D_Error d) p = p\<lparr>p_Errors := AList.update (er_Name d) d (p_Errors p)\<rparr>"
| "put_decl (D_Scalar d) p = p\<lparr>p_Scalars := AList.update (sc_Name d) d (p_Scalars p)\<rparr>"
| "put_decl (D_Middleware d) p = p\<lparr>p_Middlewares := AList.update (mw_Name d) d (p_Middlewares p)\<rparr>"
| "put_decl (D_Event d) p = p\<lparr>p_Events := AList.update (en_Name d) d (p_Events p)\<rparr>"
| "put_decl (D_Service d) p = p"

lemma kind_decl_put:
  assumes "decl_kind d \<noteq> ServiceDecls"
  shows "kind_decl (put_decl d p) n k =
    (if n = DeclName d \<and> k = decl_kind d then Some d else kind_decl p n k)"
  using assms by (cases d; cases k) (simp_all add: kind_decl_def service_primary_def)

text \<open>The names taken in the namespace of a kind.\<close>

definition claimed :: "collect \<Rightarrow> DeclKind \<Rightarrow> string set" where
  "claimed c k =
     (if k \<in> type_space then dom (map_of (c_seen c))
      else if k = MiddlewareDecls then dom (map_of (c_seenMW c))
      else if k = EventDecls then dom (map_of (c_seenEv c)) else {})"

definition same_space :: "DeclKind \<Rightarrow> DeclKind \<Rightarrow> bool" where
  "same_space k k' \<longleftrightarrow> k = k' \<or> k \<in> type_space \<and> k' \<in> type_space"

lemma sem_diag_sel [simp]:
  "d_Pos (sem_diag pos e sev code msg rel) = pos" "d_Code (sem_diag pos e sev code msg rel) = code"
  "d_Severity (sem_diag pos e sev code msg rel) = sev" "IsError (sem_diag pos e SeverityError code msg rel)"
  by (simp_all add: sem_diag_def IsError_def)

lemma registerIn_cases:
  obtains (stored) "registerIn table name pos rb = (True, AList.update name pos table, [])"
      and "name \<notin> dom (map_of table)" and "rb \<longrightarrow> \<not> Is name"
  | (refused) g where "registerIn table name pos rb = (False, table, [g])" and "d_Pos g = pos" and "IsError g"
  by (cases "rb \<and> Is name"; cases "map_of table name")
    (auto simp: registerIn_def intro: that)

lemma registerMember_cases:
  obtains (stored) "registerMember pkgName table name pos code fmt = (True, AList.update name pos table, [])"
      and "name \<notin> dom (map_of table)"
  | (refused) g where "registerMember pkgName table name pos code fmt = (False, table, [g])" and "d_Pos g = pos" and "IsError g"
proof (cases "map_of table name")
  case (Some prev)
  then show thesis
    by (cases "split_last_dot name") (auto simp: registerMember_def intro!: refused)
qed (auto simp: registerMember_def intro!: stored)

definition stored :: "string \<Rightarrow> Decl \<Rightarrow> collect \<Rightarrow> bool" where
  "stored base d c \<longleftrightarrow>
     c_pkg (collect_decl base d c) = put_decl d (c_pkg c) \<and> c_diags (collect_decl base d c) = c_diags c
     \<and> DeclName d \<notin> claimed c (decl_kind d)
     \<and> claimed (collect_decl base d c) = (\<lambda>k. if same_space k (decl_kind d) then insert (DeclName d) (claimed c k) else claimed c k)
     \<and> (decl_kind d \<in> type_space \<longrightarrow> \<not> Is (DeclName d))"

definition refused :: "string \<Rightarrow> Decl \<Rightarrow> collect \<Rightarrow> bool" where
  "refused base d c \<longleftrightarrow>
     c_pkg (collect_decl base d c) = c_pkg c \<and> claimed (collect_decl base d c) = claimed c
     \<and> (\<exists>g. c_diags (collect_decl base d c) = c_diags c @ [g] \<and> d_Pos g = DeclPos d \<and> IsError g)"

lemmas collect_steps = Let_def collect_decl_def register_decl_def stored_def refused_def claimed_def same_space_def type_space_def

lemma collect_decl_cases:
  assumes "decl_kind d \<noteq> ServiceDecls" and "DeclName d \<noteq> []"
  shows "stored base d c \<or> refused base d c"
proof (cases d)
  case (D_Type dd)
  with assms show ?thesis
    by (rule_tac table = "c_seen c" and name = "td_Name dd" and pos = "td_Pos dd" and rb = True in registerIn_cases)
      (auto simp: collect_steps fun_eq_iff)
next
  case (D_Enum dd)
  with assms show ?thesis
    by (rule_tac table = "c_seen c" and name = "ed_Name dd" and pos = "ed_Pos dd" and rb = True in registerIn_cases)
      (auto simp: collect_steps fun_eq_iff)
next
  case (D_Error dd)
  with assms show ?thesis
    by (rule_tac table = "c_seen c" and name = "er_Name dd" and pos = "er_Pos dd" and rb = True in registerIn_cases)
      (auto simp: collect_steps fun_eq_iff)
next
  case (D_Scalar dd)
  with assms show ?thesis
    by (rule_tac table = "c_seen c" and name = "sc_Name dd" and pos = "sc_Pos dd" and rb = True in registerIn_cases)
      (auto simp: collect_steps fun_eq_iff)
next
  case (D_Middleware dd)
  with assms show ?thesis
    by (rule_tac table = "c_seenMW c" and name = "mw_Name dd" and pos = "mw_Pos dd" and rb = False in registerIn_cases)
      (auto simp: collect_steps fun_eq_iff)
next
  case (D_Event dd)
  with assms show ?thesis
    by (rule_tac pkgName = "p_Name (c_pkg c)" and table = "c_seenEv c" and name = "en_Name dd" and pos = "en_Pos dd"
        and code = CodeEventDuplicate and fmt = duplicate_event in registerMember_cases)
      (auto simp: collect_steps fun_eq_iff)
qed (use assms in simp)

text \<open>A service block: only its own primary may change.\<close>

definition is_extend :: "Decl \<Rightarrow> bool" where
  "is_extend d \<longleftrightarrow> (case d of D_Service dd \<Rightarrow> sv_Extend dd | _ \<Rightarrow> False)"

lemma collect_service_tables:
  "claimed (collect_service base dd c) = claimed c"
  "k \<noteq> ServiceDecls \<Longrightarrow> kind_decl (c_pkg (collect_service base dd c)) n k = kind_decl (c_pkg c) n k"
  "p_Name (c_pkg (collect_service base dd c)) = p_Name (c_pkg c)"
  by (auto simp: collect_service_def claimed_def kind_decl_def fun_eq_iff Let_def split: option.splits DeclKind.splits)

lemma collect_service_primary:
  "kind_decl (c_pkg (collect_service base dd c)) n ServiceDecls =
     (if n = sv_Name dd \<and> \<not> sv_Extend dd \<and> kind_decl (c_pkg c) n ServiceDecls = None
      then Some (D_Service dd) else kind_decl (c_pkg c) n ServiceDecls)"
  by (auto simp: collect_service_def kind_decl_def service_primary_def Let_def split: option.splits)

lemma collect_service_diags:
  "c_diags (collect_service base dd c) =
     c_diags c @ (if \<not> sv_Extend dd \<and> kind_decl (c_pkg c) (sv_Name dd) ServiceDecls \<noteq> None
       then [sem_diag (sv_Pos dd) (sv_Pos dd) SeverityError CodeServiceDuplicate
         (Msg ''duplicate primary service %q'' [AStr (sv_Name dd)])
         (related (sv_Pos (the (service_primary (c_pkg c) (sv_Name dd)))) ''first declared here'')]
       else [])"
  by (auto simp: collect_service_def kind_decl_def service_primary_def Let_def split: option.splits)

lemma same_space_claimed: "same_space k k' \<Longrightarrow> claimed c k = claimed c k'"
  by (auto simp: same_space_def claimed_def)

lemma same_space_service [simp]: "same_space ServiceDecls k \<longleftrightarrow> k = ServiceDecls" "same_space k ServiceDecls \<longleftrightarrow> k = ServiceDecls"
  by (auto simp: same_space_def type_space_def)

lemma same_space_sym: "same_space k k' \<Longrightarrow> same_space k' k"
  by (auto simp: same_space_def)

lemma same_space_refl [simp]: "same_space k k"
  by (simp add: same_space_def)

text \<open>The invariant on the lookup \<open>f\<close> of a table state: by name and kind, the declaration held.\<close>

type_synonym lookup = "string \<Rightarrow> DeclKind \<Rightarrow> Decl option"

definition names_claimed :: "lookup \<Rightarrow> (DeclKind \<Rightarrow> string set) \<Rightarrow> bool" where
  "names_claimed f cl \<longleftrightarrow> (\<forall>n k. f n k \<noteq> None \<longrightarrow> k = ServiceDecls \<or> n \<in> cl k)"

definition one_per_name :: "lookup \<Rightarrow> bool" where
  "one_per_name f \<longleftrightarrow> (\<forall>n k k'. same_space k k' \<longrightarrow> k = k' \<or> f n k = None \<or> f n k' = None)"

definition own_name :: "string \<Rightarrow> DeclKind \<Rightarrow> Decl \<Rightarrow> bool" where
  "own_name n k d \<longleftrightarrow>
     DeclName d = n \<and> decl_kind d = k \<and> n \<noteq> [] \<and> (k \<in> type_space \<longrightarrow> \<not> Is n) \<and> \<not> is_extend d"

definition holds_own :: "Decl set \<Rightarrow> lookup \<Rightarrow> bool" where
  "holds_own D f \<longleftrightarrow> (\<forall>n k d. f n k = Some d \<longrightarrow> d \<in> D \<and> own_name n k d)"

definition holds_all :: "Decl set \<Rightarrow> lookup \<Rightarrow> bool" where
  "holds_all D f \<longleftrightarrow> (\<forall>d \<in> D. DeclName d \<noteq> [] \<longrightarrow> is_extend d \<or> f (DeclName d) (decl_kind d) = Some d)"

lemmas lookup_inv_defs = names_claimed_def one_per_name_def holds_own_def holds_all_def

definition enter :: "string \<Rightarrow> DeclKind \<Rightarrow> Decl \<Rightarrow> lookup \<Rightarrow> lookup" where
  "enter n k d f = (\<lambda>m j. if m = n \<and> j = k then Some d else f m j)"

lemma enter_one_per_name:
  assumes "one_per_name f" and "\<And>j. same_space j k \<Longrightarrow> f n j = None"
  shows "one_per_name (enter n k d f)"
  using assms by (auto simp: one_per_name_def enter_def dest: same_space_sym)

lemma enter_holds_own:
  "holds_own D f \<Longrightarrow> own_name n k d \<Longrightarrow> holds_own (insert d D) (enter n k d f)"
  by (auto simp: holds_own_def enter_def)

lemma enter_holds_all:
  assumes "holds_all D f" and "f n k = None" and "DeclName d = n" "decl_kind d = k"
  shows "holds_all (insert d D) (enter n k d f)"
  using assms by (auto simp: holds_all_def enter_def)

lemma enter_service_claimed: "names_claimed f cl \<Longrightarrow> names_claimed (enter n ServiceDecls d f) cl"
  by (auto simp: names_claimed_def enter_def)

definition tables_inv :: "Decl set \<Rightarrow> collect \<Rightarrow> bool" where
  "tables_inv D c \<longleftrightarrow>
     names_claimed (kind_decl (c_pkg c)) (claimed c) \<and> one_per_name (kind_decl (c_pkg c))
     \<and> holds_own D (kind_decl (c_pkg c)) \<and> (c_diags c = [] \<longrightarrow> holds_all D (kind_decl (c_pkg c)))"

lemma tables_inv_stored:
  assumes inv: "tables_inv D c" and st: "stored base d c" and k: "decl_kind d \<noteq> ServiceDecls" and n: "DeclName d \<noteq> []"
  shows "tables_inv (insert d D) (collect_decl base d c)"
proof -
  let ?f = "kind_decl (c_pkg c)"
  have f: "kind_decl (c_pkg (collect_decl base d c)) = enter (DeclName d) (decl_kind d) d ?f"
    using st kind_decl_put [OF k] by (simp add: stored_def enter_def fun_eq_iff)
  have free: "?f (DeclName d) j = None" if "same_space j (decl_kind d)" for j
  proof (rule ccontr)
    assume "?f (DeclName d) j \<noteq> None"
    with inv have "j = ServiceDecls \<or> DeclName d \<in> claimed c j" by (auto simp: tables_inv_def names_claimed_def)
    with that k same_space_claimed [OF that, of c] st show False by (auto simp: stored_def)
  qed
  have own: "own_name (DeclName d) (decl_kind d) d"
    using st n k by (cases d) (auto simp: own_name_def stored_def is_extend_def)
  have "names_claimed (enter (DeclName d) (decl_kind d) d ?f) (claimed (collect_decl base d c))"
    using inv st by (auto simp: tables_inv_def names_claimed_def stored_def enter_def)
  then show ?thesis
    using inv st unfolding tables_inv_def f
    by (auto simp: stored_def intro: enter_one_per_name enter_holds_own enter_holds_all own free [OF same_space_refl] free)
qed

lemma tables_inv_service:
  assumes inv: "tables_inv D c" and n: "sv_Name dd \<noteq> []"
  shows "tables_inv (insert (D_Service dd) D) (collect_service base dd c)"
proof -
  let ?f = "kind_decl (c_pkg c)"
  consider (new) "\<not> sv_Extend dd" "?f (sv_Name dd) ServiceDecls = None"
    | (dup) "\<not> sv_Extend dd" "?f (sv_Name dd) ServiceDecls \<noteq> None" | (ext) "sv_Extend dd" by blast
  then show ?thesis
  proof cases
    case new
    then have f: "kind_decl (c_pkg (collect_service base dd c)) = enter (sv_Name dd) ServiceDecls (D_Service dd) ?f"
      unfolding enter_def fun_eq_iff by (metis collect_service_primary collect_service_tables(2))
    have "own_name (sv_Name dd) ServiceDecls (D_Service dd)"
      using n new by (simp add: own_name_def is_extend_def type_space_def)
    then show ?thesis
      using inv new unfolding tables_inv_def f collect_service_tables collect_service_diags
      by (auto intro!: enter_one_per_name enter_holds_own enter_holds_all enter_service_claimed)
  next
    case dup
    then have "kind_decl (c_pkg (collect_service base dd c)) = ?f"
      unfolding fun_eq_iff by (metis collect_service_primary collect_service_tables(2))
    with inv dup show ?thesis
      by (simp add: tables_inv_def collect_service_tables collect_service_diags holds_own_def)
  next
    case ext
    then have "kind_decl (c_pkg (collect_service base dd c)) = ?f"
      unfolding fun_eq_iff by (metis collect_service_primary collect_service_tables(2))
    with inv ext show ?thesis
      by (auto simp: tables_inv_def collect_service_tables collect_service_diags holds_own_def holds_all_def is_extend_def)
  qed
qed

lemma tables_inv_collect:
  assumes "tables_inv D c"
  shows "tables_inv (insert d D) (collect_decl base d c)"
proof (cases "DeclName d = []")
  case True
  with assms show ?thesis by (auto simp: tables_inv_def collect_decl_def holds_own_def holds_all_def)
next
  case False
  show ?thesis
  proof (cases "decl_kind d = ServiceDecls")
    case True
    then obtain dd where "d = D_Service dd" by (cases d) auto
    with False tables_inv_service [OF assms, of dd base] show ?thesis by (simp add: collect_decl_def)
  next
    case k: False
    from collect_decl_cases [OF k False, of base c] show ?thesis
    proof
      assume "stored base d c"
      then show ?thesis by (rule tables_inv_stored [OF assms _ k False])
    next
      assume "refused base d c"
      with assms show ?thesis by (auto simp: tables_inv_def refused_def holds_own_def)
    qed
  qed
qed

lemma tables_inv_fold: "tables_inv D c \<Longrightarrow> tables_inv (D \<union> set ds) (fold (collect_decl base) ds c)"
proof (induction ds arbitrary: D c)
  case (Cons d ds)
  from Cons.IH [OF tables_inv_collect [OF Cons.prems, of d base]] show ?case by simp
qed simp

lemma collectDecls_inv: "tables_inv (set (files_decls files)) (collectDecls base name files)"
proof -
  have "tables_inv {} \<lparr>c_pkg = newPackage name, c_seen = [], c_seenMW = [], c_seenEv = [], c_diags = []\<rparr>"
    by (auto simp: tables_inv_def lookup_inv_defs kind_decl_def service_primary_def newPackage_def split: DeclKind.split)
  from tables_inv_fold [OF this, of "files_decls files" base] show ?thesis by (simp add: collectDecls_def)
qed

section \<open>Packages\<close>

lemma service_primary_merge [simp]: "service_primary (mergeServices p) n = service_primary p n"
proof -
  have "map_of (map (\<lambda>(name, si). (name, merge_service si)) t) n = map_option merge_service (map_of t n)"
    for t :: "ServiceInfo table" by (induction t) auto
  moreover have "si_Primary (merge_service si) = si_Primary si" for si
    by (simp add: merge_service_def split: option.split)
  ultimately show ?thesis by (simp add: service_primary_def mergeServices_def map_option_case split: option.split)
qed

lemma mergeServices_sel [simp]:
  "p_Types (mergeServices p) = p_Types p" "p_Enums (mergeServices p) = p_Enums p"
  "p_Errors (mergeServices p) = p_Errors p" "p_Scalars (mergeServices p) = p_Scalars p"
  "p_Middlewares (mergeServices p) = p_Middlewares p" "p_Events (mergeServices p) = p_Events p"
  "p_Name (mergeServices p) = p_Name p"
  by (simp_all add: mergeServices_def)

lemma kind_decl_merge [simp]: "kind_decl (mergeServices p) n k = kind_decl p n k"
  by (cases k) (simp_all add: kind_decl_def)

lemma Package_Decl_single [simp]: "Package_Decl p n {k} = kind_decl p n k"
  by (cases k) (simp_all add: Package_Decl_def kind_order_def split: option.split)

lemma put_decl_name [simp]: "p_Name (put_decl d p) = p_Name p"
  by (cases d) simp_all

lemma collect_decl_name [simp]: "p_Name (c_pkg (collect_decl base d c)) = p_Name (c_pkg c)"
proof (cases "DeclName d = [] \<or> decl_kind d = ServiceDecls")
  case True
  then show ?thesis by (cases d) (auto simp: collect_decl_def collect_service_tables)
next
  case False
  then show ?thesis
    using collect_decl_cases [of d base c] by (auto simp: stored_def refused_def)
qed

lemma collectDecls_name [simp]: "p_Name (c_pkg (collectDecls base name files)) = name"
proof -
  have "p_Name (c_pkg (fold (collect_decl base) ds c)) = p_Name (c_pkg c)" for ds c
    by (induction ds arbitrary: c) simp_all
  then show ?thesis by (simp add: collectDecls_def newPackage_def)
qed

lemma runDeclPhase_name: "p_Name (fst (runDeclPhase base name files)) = name"
  by (simp add: runDeclPhase_def Let_def)

lemma runDeclPhase_own:
  "kind_decl (fst (runDeclPhase base name files)) n k = Some d \<Longrightarrow> d \<in> set (files_decls files) \<and> own_name n k d"
  using collectDecls_inv [of files base name]
  by (auto simp: runDeclPhase_def Let_def tables_inv_def holds_own_def)

text \<open>
  C11. Where the declarations of a package are collected without a diagnostic, each of them,
  \<open>extend\<close> blocks and those without a name apart, is what its name and kind look up; and a
  name is held by at most one type, enum, scalar or error, none of them named like a built-in.
\<close>

theorem declarations_collected:
  assumes "runDeclPhase base name files = (pkg, [])"
  shows "list_all (\<lambda>d. DeclName d = [] \<or> is_extend d \<or> Package_Decl pkg (DeclName d) {decl_kind d} = Some d)
      (files_decls files)
    \<and> one_per_name (kind_decl pkg) \<and> holds_own (set (files_decls files)) (kind_decl pkg)"
proof -
  let ?c = "collectDecls base name files"
  have pkg: "pkg = mergeServices (c_pkg ?c)" and clean: "c_diags ?c = []"
    using assms by (auto simp: runDeclPhase_def Let_def)
  have "kind_decl pkg = kind_decl (c_pkg ?c)" by (simp add: pkg fun_eq_iff)
  moreover have "tables_inv (set (files_decls files)) ?c" by (rule collectDecls_inv)
  ultimately show ?thesis
    using clean by (auto simp: tables_inv_def holds_all_def list_all_iff)
qed

definition demo_type :: "string \<Rightarrow> TypeMember list \<Rightarrow> TypeDecl" where
  "demo_type name body =
     \<lparr>td_Pos = zero_Position, td_NamePos = zero_Position, td_Decorators = [], td_Doc = [], td_Name = name,
      td_TypeParams = [], td_Body = body, td_EndPos = zero_Position\<rparr>"

definition demo_file :: "string \<Rightarrow> Decl list \<Rightarrow> File" where
  "demo_file pkg decls =
     \<lparr>f_LeadingDoc = [], f_Decorators = [],
      f_Package = Some \<lparr>pd_Pos = zero_Position, pd_Doc = [], pd_Name = pkg\<rparr>,
      f_Decls = decls, f_FreeComments = [], f_ChainComments = Map.empty, f_Comments = []\<rparr>"

theorem declarations_collected_witness:
  "Package_Decl (fst (runDeclPhase [] ''shop'' [demo_file ''shop'' [D_Type (demo_type ''Item'' [])]])) ''Item'' {TypeDecls}
     = Some (D_Type (demo_type ''Item'' []))"
proof -
  let ?fs = "[demo_file ''shop'' [D_Type (demo_type ''Item'' [])]]"
  have "runDeclPhase [] ''shop'' ?fs = (fst (runDeclPhase [] ''shop'' ?fs), [])"
    by (simp add: runDeclPhase_def collectDecls_def files_decls_def demo_file_def demo_type_def collect_decl_def
        register_decl_def registerIn_def Is_def Lookup_def byName_def specs_def index_by_def prod_eq_iff)
  from declarations_collected [OF this] show ?thesis
    by (simp add: files_decls_def demo_file_def demo_type_def is_extend_def)
qed

section \<open>Projects\<close>

definition project_wf :: "Project \<Rightarrow> bool" where
  "project_wf p \<longleftrightarrow>
     (\<forall>name pkg. Packages p name = Some pkg \<longrightarrow> p_Name pkg = name
        \<and> (\<forall>n td. Types pkg n = Some td \<longrightarrow> td_Name td = n \<and> n \<noteq> [] \<and> decl_wf (D_Type td)))"

lemma project_wfD:
  assumes "project_wf p" and "Packages p name = Some pkg"
  shows "p_Name pkg = name"
    and "Types pkg n = Some td \<Longrightarrow> td_Name td = n \<and> n \<noteq> [] \<and> decl_wf (D_Type td)"
  using assms by (auto simp: project_wf_def)

lemma group_file_files:
  "map_of (fst (group_file f st)) name = Some fs \<Longrightarrow>
     map_of (fst st) name = Some fs \<or> (\<exists>fs0. fs = fs0 @ [f] \<and> (fs0 = [] \<or> map_of (fst st) name = Some fs0))"
  by (cases st; cases "f_Package f") (auto simp: group_file_def Let_def split: if_splits option.splits)

lemma groupFilesByPackage_files:
  assumes "map_of (fst (groupFilesByPackage files)) name = Some fs"
  shows "set fs \<subseteq> set files"
proof -
  have "set fs \<subseteq> set files \<union> F"
    if "map_of (fst (fold group_file files st)) name = Some fs"
      and "\<And>name fs. map_of (fst st) name = Some fs \<Longrightarrow> set fs \<subseteq> F" for st F
    using that
  proof (induction files arbitrary: st F)
    case (Cons f files)
    have "set gs \<subseteq> insert f F" if "map_of (fst (group_file f st)) m = Some gs" for m gs
      using group_file_files [OF that] Cons.prems(2) by fastforce
    with Cons.IH [of "group_file f st" "insert f F"] Cons.prems(1) show ?case by auto
  qed auto
  from this [of "([], [])" "{}"] assms show ?thesis by (simp add: groupFilesByPackage_def)
qed

lemma map_of_map_filter:
  "map_of (List.map_filter (\<lambda>k. map_option (\<lambda>v. (k, g k v)) (m k)) ks) a =
     (if a \<in> set ks then map_option (g a) (m a) else None)"
  by (induction ks) (auto simp: List.map_filter_def split: option.splits)

lemma build_project_package:
  assumes "Packages (build_project base files) name = Some pkg"
  obtains fs where "set fs \<subseteq> set files" and "pkg = fst (runDeclPhase base name fs)"
  using assms groupFilesByPackage_files [of files name] that
  by (auto simp: build_project_def Let_def project_packages_def map_of_map_filter split: if_splits)

lemma build_project_wf:
  assumes "list_all (\<lambda>f. list_all decl_wf (f_Decls f)) files"
  shows "project_wf (build_project base files)"
  unfolding project_wf_def
proof (intro allI impI conjI)
  fix name pkg assume "Packages (build_project base files) name = Some pkg"
  then obtain fs where fs: "set fs \<subseteq> set files" and pkg: "pkg = fst (runDeclPhase base name fs)"
    by (rule build_project_package)
  then show "p_Name pkg = name" by (simp add: runDeclPhase_name)
  fix n td assume "Types pkg n = Some td"
  then have "kind_decl pkg n TypeDecls = Some (D_Type td)" by (simp add: kind_decl_def)
  with pkg have own: "D_Type td \<in> set (files_decls fs)" "own_name n TypeDecls (D_Type td)"
    using runDeclPhase_own by blast+
  then show "td_Name td = n" "n \<noteq> []" by (auto simp: own_name_def)
  show "decl_wf (D_Type td)"
    using own(1) fs assms unfolding files_decls_def list_all_iff set_concat set_map by blast
qed

end
