(* ===== verification/Flatten_Spec.thy ===== *)
theory Flatten_Spec
  imports Flatten Design_Spec "HOL-Library.Multiset"
begin

text \<open>
  What flattening a type gives. Types stay well-formed through requalification and substitution;
  the walk visits every type the mixins reach, each once, and its fuel is enough.
\<close>

section \<open>Well-formed types\<close>

definition subst_wf :: "subst \<Rightarrow> bool" where
  "subst_wf s \<longleftrightarrow> (\<forall>n r. map_of s n = Some r \<longrightarrow> tr_wf r)"

lemma add_suffixes_wf:
  "tr_wf (Some t) \<Longrightarrow> (arr \<longleftrightarrow> d > 0) \<Longrightarrow> tr_wf (Some (add_suffixes arr opt d t))"
  by (cases t) (auto simp: add_suffixes_def split: option.splits)

lemma SubstituteTypeRef_wf:
  assumes "subst_wf s"
  shows "tr_wf t \<Longrightarrow> tr_wf (SubstituteTypeRef s t)"
  using assms
proof (induction s t rule: SubstituteTypeRef.induct)
  case (3 s p np q args arr opt d)
  show ?case
  proof (cases "map_of s (ident_text q)")
    case None
    with 3 show ?thesis by (auto simp: list_all_iff)
  next
    case (Some rep)
    with 3 have "tr_wf rep" by (auto simp: subst_wf_def)
    then obtain r where "rep = Some r" "tr_wf (Some r)" by (cases rep) auto
    with Some 3 show ?thesis by (simp add: add_suffixes_wf)
  qed
qed simp_all

lemma requalify_in_wf: "tr_wf t \<Longrightarrow> tr_wf (requalify_in pkg home tps t)"
  by (induction pkg home tps t rule: requalify_in.induct) (auto simp: list_all_iff)

lemma requalify_wf: "tr_wf t \<Longrightarrow> tr_wf (requalify proj t home view tps)"
  by (simp add: requalify_def requalify_in_wf split: option.split)

lemma fold_update_wf:
  "\<forall>(p, a) \<in> set ps. tr_wf a \<Longrightarrow> subst_wf m \<Longrightarrow> subst_wf (fold (\<lambda>(p, a) m. AList.update p a m) ps m)"
proof (induction ps arbitrary: m)
  case (Cons x ps)
  moreover have "subst_wf (AList.update (fst x) (snd x) m)" using Cons.prems by (auto simp: subst_wf_def)
  ultimately show ?case by (auto simp: split_beta)
qed simp

lemma SubstMap_wf:
  assumes "list_all tr_wf args"
  shows "subst_wf (SubstMap tps args)"
  unfolding SubstMap_def
proof (rule fold_update_wf)
  show "\<forall>(p, a) \<in> set (zip tps args). tr_wf a"
    using assms by (auto simp: list_all_iff dest: set_zip_rightD)
qed (simp add: subst_wf_def)

lemma spell_wf: "tr_wf t \<Longrightarrow> subst_wf s \<Longrightarrow> tr_wf (spell w t home tps s)"
  by (simp add: spell_def Let_def requalify_wf SubstituteTypeRef_wf)

definition flat_wf :: "FlatField list \<Rightarrow> bool" where
  "flat_wf = list_all (\<lambda>ff. fd_Name (ff_Field ff) \<noteq> [] \<and> tr_wf (fd_Type (ff_Field ff)))"

lemma flat_wf_simps [simp]:
  "flat_wf []" "flat_wf (ff # fs) \<longleftrightarrow> fd_Name (ff_Field ff) \<noteq> [] \<and> tr_wf (fd_Type (ff_Field ff)) \<and> flat_wf fs"
  "flat_wf (fs @ gs) \<longleftrightarrow> flat_wf fs \<and> flat_wf gs"
  by (auto simp: flat_wf_def)

text \<open>Induction over the loop of a level: what holds of a body, the walk before and after it and its fields.\<close>

lemma level_loop_rule:
  assumes nil: "\<And>w. P [] w [] w"
    and field: "\<And>v body w i out w'. P body w out w' \<Longrightarrow> P (TM_Field v # body) w (field w i v # out) w'"
    and mixin: "\<And>mx body w fs w1 out w2. mixin mx w = (fs, w1) \<Longrightarrow> P body w1 out w2 \<Longrightarrow> P (TM_Mixin mx # body) w (fs @ out) w2"
    and free: "\<And>c body w out w'. P body w out w' \<Longrightarrow> P (TM_FreeComment c # body) w out w'"
    and run: "level_loop mixin field i body w = (out, w')"
  shows "P body w out w'"
  using run
proof (induction body arbitrary: i w out w')
  case Nil
  then show ?case by (simp add: nil)
next
  case (Cons m body)
  show ?case
  proof (cases m)
    case (TM_Field v)
    with Cons.prems obtain out2 where "level_loop mixin field (i + 1) body w = (out2, w')" "out = field w i v # out2"
      by (auto split: prod.splits)
    with Cons.IH TM_Field field show ?thesis by blast
  next
    case (TM_Mixin mx)
    with Cons.prems obtain fs w1 out2 where "mixin mx w = (fs, w1)" "level_loop mixin field i body w1 = (out2, w')" "out = fs @ out2"
      by (auto split: prod.splits)
    with Cons.IH TM_Mixin mixin show ?thesis by blast
  next
    case (TM_FreeComment c)
    with Cons free show ?thesis by simp
  qed
qed

definition level_wf :: "Project \<Rightarrow> TypeMember list \<Rightarrow> fieldWalk \<Rightarrow> FlatField list \<Rightarrow> fieldWalk \<Rightarrow> bool" where
  "level_wf p body w out w' \<longleftrightarrow>
     (list_all member_wf body \<longrightarrow> w_proj w = Some p \<longrightarrow> flat_wf out \<and> w_proj w' = Some p)"

section \<open>The type a mixin embeds\<close>

definition mixin_type :: "Project \<Rightarrow> string \<Rightarrow> Mixin \<Rightarrow> (string \<times> string \<times> TypeDecl) option" where
  "mixin_type p home mx =
     (case mx_Ref mx of
        None \<Rightarrow> None
      | Some ref \<Rightarrow>
          (case resolve (Some p) home (nt_Name ref) of
             (None, _) \<Rightarrow> None
           | (Some pkg, symb) \<Rightarrow> map_option (\<lambda>td. (p_Name pkg, symb, td)) (Types pkg symb)))"

definition type_at :: "Project \<Rightarrow> string \<times> string \<Rightarrow> TypeDecl option" where
  "type_at p t = Option.bind (Packages p (fst t)) (\<lambda>pkg. Types pkg (snd t))"

lemma mixin_type_at:
  assumes "project_wf p" and "mixin_type p home mx = Some (a, symb, td)"
  shows "type_at p (a, symb) = Some td" and "decl_wf (D_Type td)" and "symb = td_Name td" and "symb \<noteq> []"
proof -
  from assms(2) obtain ref pkg where "mx_Ref mx = Some ref"
    and r: "resolve (Some p) home (nt_Name ref) = (Some pkg, symb)" and td: "Types pkg symb = Some td" and a: "a = p_Name pkg"
    by (auto simp: mixin_type_def split: option.splits prod.splits)
  from r obtain b where b: "Packages p b = Some pkg"
    by (auto simp: resolve_def split: option.splits list.splits if_splits)
  with project_wfD [OF assms(1) b] td a
  show "type_at p (a, symb) = Some td" "decl_wf (D_Type td)" "symb = td_Name td" "symb \<noteq> []"
    by (auto simp: type_at_def)
qed

text \<open>The three outcomes of a mixin: it names no type, one already expanded, or one to expand.\<close>

lemma walk_mixin_cases:
  assumes run: "walk_mixin lev home tps s origins path mx w = (out, w')" and w: "w_proj w = Some p"
  obtains (none) "mixin_type p home mx = None" and "out = []"
      and "w_expanded w' = w_expanded w" and "w_proj w' = Some p"
  | (seen) a symb td where "mixin_type p home mx = Some (a, symb, td)" and "a @ ''.'' @ symb \<in> w_expanded w"
      and "out = []" and "w_expanded w' = w_expanded w" and "w_proj w' = Some p"
  | (new) a symb td s' origins' path' w2 where "mixin_type p home mx = Some (a, symb, td)"
      and "a @ ''.'' @ symb \<notin> w_expanded w" and "w_expanded w2 = insert (a @ ''.'' @ symb) (w_expanded w)"
      and "w_proj w2 = Some p"
      and "lev a (td_Body td) (td_TypeParams td) s' origins' path' w2 = (out, w')"
      and "member_wf (TM_Mixin mx) \<Longrightarrow> subst_wf s \<Longrightarrow> subst_wf s'"
proof (cases "mx_Ref mx")
  case None
  with run w show thesis by (intro none) (auto simp: walk_mixin_def mixin_type_def)
next
  case (Some ref)
  obtain pkg symb where r: "resolve (Some p) home (nt_Name ref) = (pkg, symb)" by fastforce
  show thesis
  proof (cases "Option.bind pkg (\<lambda>pkg. Types pkg symb)")
    case None
    with run w Some r show thesis
      by (cases pkg; intro none) (auto simp: walk_mixin_def mixin_type_def)
  next
    case td: (Some td)
    then obtain pk where pk: "pkg = Some pk" "Types pk symb = Some td" by (cases pkg) auto
    have mt: "mixin_type p home mx = Some (p_Name pk, symb, td)"
      using Some r pk by (simp add: mixin_type_def)
    show thesis
    proof (cases "p_Name pk @ ''.'' @ symb \<in> w_expanded w")
      case True
      with mt run w Some r pk show thesis by (intro seen) (auto simp: walk_mixin_def Let_def)
    next
      case False
      let ?w2 = "w\<lparr>w_embedDepths := add_depth (goEmbedName (nt_Name ref)) (length path) (w_embedDepths w),
        w_expanded := insert (p_Name pk @ ''.'' @ symb) (w_expanded w)\<rparr>"
      have "subst_wf (SubstMap (td_TypeParams td) (map (\<lambda>a. spell ?w2 a home tps s) (nt_Args ref)))"
        if "member_wf (TM_Mixin mx)" "subst_wf s"
        using that Some by (intro SubstMap_wf, cases ref) (auto simp: list_all_iff spell_wf)
      moreover from run w Some r pk False
      have "lev (p_Name pk) (td_Body td) (td_TypeParams td)
          (SubstMap (td_TypeParams td) (map (\<lambda>a. spell ?w2 a home tps s) (nt_Args ref)))
          (fold (\<lambda>(p, a) m. AList.update p (argOrigin a tps origins \<lparr>ms_mixin = mx, ms_home = home\<rparr>) m)
             (zip (td_TypeParams td) (nt_Args ref)) [])
          (path @ [goEmbedName (nt_Name ref)]) ?w2 = (out, w')"
        by (simp add: walk_mixin_def Let_def)
      ultimately show thesis by (intro new [OF mt False, of ?w2]) (simp_all add: w)
    qed
  qed
qed

lemma walk_mixin_wf:
  assumes p: "project_wf p"
    and level: "\<And>home body tps s origins path w out w'. subst_wf s \<Longrightarrow>
      lev home body tps s origins path w = (out, w') \<Longrightarrow> level_wf p body w out w'"
    and s: "subst_wf s" and mx: "member_wf (TM_Mixin mx)" and w: "w_proj w = Some p"
    and run: "walk_mixin lev home tps s origins path mx w = (out, w')"
  shows "flat_wf out \<and> w_proj w' = Some p"
  using run w
proof (cases rule: walk_mixin_cases)
  case (new a symb td s' origins' path' w2)
  from level [OF new(6) [OF mx s] new(5)] mixin_type_at(2) [OF p new(1)] new(4)
  show ?thesis by (simp add: level_wf_def)
qed simp_all

lemma level_wf:
  assumes "project_wf p" and "subst_wf s" and "level n home body tps s origins path w = (out, w')"
  shows "level_wf p body w out w'"
  using assms(2,3)
proof (induction n arbitrary: home body tps s origins path w out w')
  case 0
  then show ?case by (simp add: level_wf_def)
next
  case (Suc n)
  have mx: "flat_wf fs \<and> w_proj w1 = Some p"
    if "walk_mixin (level n) home tps s origins path mx w = (fs, w1)" "member_wf (TM_Mixin mx)" "w_proj w = Some p" for mx w fs w1
    using Suc.IH by (rule walk_mixin_wf [OF assms(1) _ Suc.prems(1) that(2,3,1)])
  have field: "flat_wf [flat_field w home tps s origins path names i v]" if "member_wf (TM_Field v)" for w names i v
    using that Suc.prems(1) by (simp add: flat_field_def Let_def spell_wf)
  from Suc.prems(2) show ?case unfolding level.simps Let_def
  proof (rule level_loop_rule [rotated 4])
    fix v body w i out w' names
    assume "level_wf p body w out w'"
    then show "level_wf p (TM_Field v # body) w (flat_field w home tps s origins path names i v # out) w'"
      using field by (simp add: level_wf_def)
  next
    fix mx' body w fs w1 out w2
    assume run: "walk_mixin (level n) home tps s origins path mx' w = (fs, w1)" and "level_wf p body w1 out w2"
    then show "level_wf p (TM_Mixin mx' # body) w (fs @ out) w2"
      using mx [OF run] by (simp add: level_wf_def)
  qed (simp_all add: level_wf_def)
qed

lemma map_nameShadowedByPath:
  assumes "\<And>ff n. g (ff\<lparr>ff_Name := n\<rparr>) = g ff"
  shows "map g (nameShadowedByPath w out) = map g out"
  by (simp add: nameShadowedByPath_def Let_def assms split: option.split)

lemma flat_wf_named [simp]: "flat_wf (nameShadowedByPath w out) = flat_wf out"
proof -
  have "flat_wf fs \<longleftrightarrow> list_all (\<lambda>b. b) (map (\<lambda>ff. fd_Name (ff_Field ff) \<noteq> [] \<and> tr_wf (fd_Type (ff_Field ff))) fs)" for fs
    by (simp add: flat_wf_def list.pred_map comp_def)
  then show ?thesis by (simp add: map_nameShadowedByPath)
qed

lemma flattenFields_wf:
  assumes "project_wf p" and "list_all member_wf body" and "list_all tr_wf args"
  shows "flat_wf (fst (flattenFields (Some p) view home body tps args names))"
proof -
  let ?w = "\<lparr>w_proj = Some p, w_view = view, w_names = names, w_expanded = {}, w_incomplete = False, w_embedDepths = []\<rparr>"
  obtain out w' where run: "level (Suc (length (type_keys (Some p)))) home body tps (SubstMap tps args) [] [] ?w = (out, w')"
    by fastforce
  from level_wf [OF assms(1) SubstMap_wf [OF assms(3)] run] assms(2) have "flat_wf out"
    by (simp add: level_wf_def)
  with run show ?thesis by (simp add: flattenFields_def)
qed

section \<open>The types the mixins reach\<close>

definition declared :: "Project \<Rightarrow> (string \<times> string) set" where
  "declared p = {t. type_at p t \<noteq> None}"

definition body_mixins :: "Project \<Rightarrow> string \<Rightarrow> TypeMember list \<Rightarrow> (string \<times> string) set" where
  "body_mixins p home body =
     {(a, symb) | a symb td mx. TM_Mixin mx \<in> set body \<and> mixin_type p home mx = Some (a, symb, td)}"

definition type_body :: "Project \<Rightarrow> string \<times> string \<Rightarrow> TypeMember list" where
  "type_body p t = (case type_at p t of None \<Rightarrow> [] | Some td \<Rightarrow> td_Body td)"

definition mixin_edges :: "Project \<Rightarrow> ((string \<times> string) \<times> string \<times> string) set" where
  "mixin_edges p = {(t, u). u \<in> body_mixins p (fst t) (type_body p t)}"

definition embedded :: "Project \<Rightarrow> string \<Rightarrow> TypeMember list \<Rightarrow> (string \<times> string) set" where
  "embedded p home body = (mixin_edges p)\<^sup>* `` body_mixins p home body"

text \<open>A field as declared, its type aside, with the package that declares it.\<close>

definition own_fields :: "string \<Rightarrow> TypeMember list \<Rightarrow> (string \<times> Field) multiset" where
  "own_fields home body = mset (map (\<lambda>f. (home, f\<lparr>fd_Type := None\<rparr>)) (Fields body))"

definition flat_keys :: "FlatField list \<Rightarrow> (string \<times> Field) multiset" where
  "flat_keys out = mset (map (\<lambda>ff. (ff_Home ff, (ff_Field ff)\<lparr>fd_Type := None\<rparr>)) out)"

lemma body_mixins_simps [simp]:
  "body_mixins p home [] = {}"
  "body_mixins p home (TM_Field v # body) = body_mixins p home body"
  "body_mixins p home (TM_FreeComment c # body) = body_mixins p home body"
  "body_mixins p home (TM_Mixin mx # body) =
     (case mixin_type p home mx of None \<Rightarrow> {} | Some (a, symb, td) \<Rightarrow> {(a, symb)}) \<union> body_mixins p home body"
  by (auto simp: body_mixins_def split: option.splits)

lemma own_fields_simps [simp]:
  "own_fields home [] = {#}"
  "own_fields home (TM_Field v # body) = add_mset (home, v\<lparr>fd_Type := None\<rparr>) (own_fields home body)"
  "own_fields home (TM_Mixin mx # body) = own_fields home body"
  "own_fields home (TM_FreeComment c # body) = own_fields home body"
  by (simp_all add: own_fields_def Fields_def)

lemma flat_keys_simps [simp]:
  "flat_keys [] = {#}" "flat_keys (out @ out') = flat_keys out + flat_keys out'"
  "flat_keys (ff # out) = add_mset (ff_Home ff, (ff_Field ff)\<lparr>fd_Type := None\<rparr>) (flat_keys out)"
  by (simp_all add: flat_keys_def)

definition declared_pairs :: "Project \<Rightarrow> (string \<times> string) list" where
  "declared_pairs p = concat (map (\<lambda>(a, pkg). map (\<lambda>(symb, _). (a, symb)) (p_Types pkg)) (pr_Packages p))"

lemma declared_subset: "declared p \<subseteq> set (declared_pairs p)"
  by (force simp: declared_def type_at_def declared_pairs_def bind_eq_Some_conv dest!: map_of_SomeD)

lemma finite_declared [simp]: "finite (declared p)"
  using declared_subset by (rule finite_subset) simp

lemma card_declared: "card (declared p) \<le> length (type_keys (Some p))"
proof -
  have "card (declared p) \<le> card (set (declared_pairs p))" by (rule card_mono) (simp_all add: declared_subset)
  also have "\<dots> \<le> length (declared_pairs p)" by (rule card_length)
  also have "\<dots> = length (type_keys (Some p))"
    by (simp add: declared_pairs_def type_keys_def length_concat comp_def split_beta)
  finally show ?thesis .
qed

section \<open>Each type once\<close>

definition type_key :: "string \<times> string \<Rightarrow> string" where
  "type_key t = fst t @ ''.'' @ snd t"

text \<open>
  What a part of the walk does: \<open>X\<close> and \<open>X'\<close> are the types expanded before and after it, \<open>ts\<close> the
  types it is asked for and \<open>own\<close> the fields of its own it adds.
\<close>

definition walked :: "Project \<Rightarrow> (string \<times> string) set \<Rightarrow> (string \<times> Field) multiset \<Rightarrow> (string \<times> string) set
    \<Rightarrow> FlatField list \<Rightarrow> (string \<times> string) set \<Rightarrow> bool" where
  "walked p ts own X out X' \<longleftrightarrow>
     X \<subseteq> X' \<and> X' \<subseteq> declared p \<and> ts \<subseteq> X'
     \<and> (\<forall>t \<in> X' - X. mixin_edges p `` {t} \<subseteq> X') \<and> X' - X \<subseteq> (mixin_edges p)\<^sup>* `` ts
     \<and> flat_keys out = own + (\<Sum>t \<in> X' - X. own_fields (fst t) (type_body p t))"

lemma walked_nil: "X \<subseteq> declared p \<Longrightarrow> ts \<subseteq> X \<Longrightarrow> walked p ts {#} X [] X"
  by (simp add: walked_def)

lemma walked_seq:
  assumes 1: "walked p ts own X out X1" and 2: "walked p ts' own' X1 out' X2"
  shows "walked p (ts \<union> ts') (own + own') X (out @ out') X2"
proof -
  have sub: "X \<subseteq> X1" "X1 \<subseteq> X2" "X2 \<subseteq> declared p" using 1 2 by (auto simp: walked_def)
  then have eq: "X2 - X = (X1 - X) \<union> (X2 - X1)" and fin: "finite X2"
    by (auto intro: finite_subset [OF _ finite_declared])
  have "(\<Sum>t \<in> X2 - X. own_fields (fst t) (type_body p t))
      = (\<Sum>t \<in> X1 - X. own_fields (fst t) (type_body p t)) + (\<Sum>t \<in> X2 - X1. own_fields (fst t) (type_body p t))"
    unfolding eq using sub fin by (intro sum.union_disjoint) (auto intro: finite_subset)
  moreover have "\<forall>t \<in> (X1 - X) \<union> (X2 - X1). mixin_edges p `` {t} \<subseteq> X2"
    using 1 2 unfolding walked_def by blast
  ultimately show ?thesis using 1 2 sub unfolding walked_def eq by auto
qed

lemma walked_expand:
  assumes t: "t \<in> declared p" "t \<notin> X" and X: "X \<subseteq> declared p"
    and body: "walked p (mixin_edges p `` {t}) (own_fields (fst t) (type_body p t)) (insert t X) out X'"
  shows "walked p {t} {#} X out X'"
proof -
  have sub: "insert t X \<subseteq> X'" "X' \<subseteq> declared p" using body by (auto simp: walked_def)
  have eq: "X' - X = insert t (X' - insert t X)" using sub t by auto
  have fin: "finite (X' - insert t X)" using sub(2) by (meson finite_Diff finite_declared finite_subset)
  have "X' - insert t X \<subseteq> (mixin_edges p)\<^sup>* `` {t}"
    using body unfolding walked_def by (blast intro: converse_rtrancl_into_rtrancl)
  moreover have "flat_keys out = (\<Sum>u \<in> X' - X. own_fields (fst u) (type_body p u))"
    using body fin unfolding walked_def eq by simp
  ultimately show ?thesis using body sub unfolding walked_def by auto
qed

definition plain_key :: "string \<times> string \<Rightarrow> bool" where
  "plain_key t \<longleftrightarrow> CHR ''.'' \<notin> set (snd t)"

lemma last_dot_inj:
  fixes a b c d :: string
  assumes "a @ CHR ''.'' # b = c @ CHR ''.'' # d" and "CHR ''.'' \<notin> set b" and "CHR ''.'' \<notin> set d"
  shows "a = c \<and> b = d"
proof -
  have *: "takeWhile (\<lambda>x. x \<noteq> CHR ''.'') (rev (a @ CHR ''.'' # b)) = rev b" if "CHR ''.'' \<notin> set b" for a b :: string
    using that by (auto simp: takeWhile_append2 takeWhile_tail)
  from assms * [of b a] * [of d c] have "rev b = rev d" by simp
  with assms(1) show ?thesis by simp
qed

lemma type_key_inj:
  assumes "plain_key t" and "plain_key u" and "type_key t = type_key u"
  shows "t = u"
  using last_dot_inj [of "fst t" "snd t" "fst u" "snd u"] assms
  by (simp add: plain_key_def type_key_def prod_eq_iff)

lemma IsIdent_plain: "IsIdent s \<Longrightarrow> CHR ''.'' \<notin> set s"
  by (auto simp: IsIdent_bytes ascii_class_defs)

lemma declared_plain:
  assumes "project_wf p" and "t \<in> declared p"
  shows "plain_key t"
proof -
  from assms(2) obtain td where "type_at p t = Some td" by (auto simp: declared_def)
  then obtain pkg where "Packages p (fst t) = Some pkg" "Types pkg (snd t) = Some td"
    by (auto simp: type_at_def bind_eq_Some_conv)
  then have "td_Name td = snd t" "snd t \<noteq> []" "decl_wf (D_Type td)" using project_wfD(2) [OF assms(1)] by blast+
  then show ?thesis by (simp add: plain_key_def name_ok_def IsIdent_plain)
qed

definition walk_state :: "Project \<Rightarrow> (string \<times> string) set \<Rightarrow> fieldWalk \<Rightarrow> bool" where
  "walk_state p X w \<longleftrightarrow> w_proj w = Some p \<and> X \<subseteq> declared p \<and> w_expanded w = type_key ` X"

definition level_walks :: "Project \<Rightarrow> nat \<Rightarrow> level_fun \<Rightarrow> bool" where
  "level_walks p n lev \<longleftrightarrow>
     (\<forall>home body tps s origins path w out w' X. walk_state p X w \<longrightarrow> card (declared p - X) < n
        \<longrightarrow> lev home body tps s origins path w = (out, w')
        \<longrightarrow> (\<exists>X'. walk_state p X' w' \<and> walked p (body_mixins p home body) (own_fields home body) X out X'))"

lemma walk_mixin_walks:
  assumes p: "project_wf p" and lev: "level_walks p n lev" and w: "walk_state p X w" and fuel: "card (declared p - X) < Suc n"
    and run: "walk_mixin lev home tps s origins path mx w = (out, w')"
  shows "\<exists>X'. walk_state p X' w'
    \<and> walked p (case mixin_type p home mx of None \<Rightarrow> {} | Some (a, symb, td) \<Rightarrow> {(a, symb)}) {#} X out X'"
proof -
  have wp: "w_proj w = Some p" and X: "X \<subseteq> declared p" and ex: "w_expanded w = type_key ` X"
    using w by (auto simp: walk_state_def)
  from run wp show ?thesis
  proof (cases rule: walk_mixin_cases)
    case none
    with X ex show ?thesis by (intro exI [of _ X]) (simp add: walk_state_def walked_nil)
  next
    case (seen a symb td)
    have t: "(a, symb) \<in> declared p" using mixin_type_at(1) [OF p seen(1)] by (simp add: declared_def)
    from seen(2) ex obtain u where u: "u \<in> X" "type_key u = type_key (a, symb)" by (auto simp: type_key_def)
    then have "(a, symb) \<in> X"
      using type_key_inj [OF declared_plain [OF p subsetD [OF X u(1)]] declared_plain [OF p t] u(2)] by simp
    with seen X ex show ?thesis by (intro exI [of _ X]) (simp add: walk_state_def walked_nil)
  next
    case (new a symb td s' origins' path' w2)
    let ?t = "(a, symb)"
    have t: "?t \<in> declared p" and td: "type_at p ?t = Some td"
      using mixin_type_at(1) [OF p new(1)] by (simp_all add: declared_def)
    have "?t \<notin> X" using new(2) ex by (force simp: type_key_def)
    then have "card (declared p - insert ?t X) < card (declared p - X)"
      using t by (intro psubset_card_mono) auto
    moreover have "walk_state p (insert ?t X) w2" using new X t ex by (simp add: walk_state_def type_key_def)
    ultimately obtain X' where X': "walk_state p X' w'"
      "walked p (body_mixins p a (td_Body td)) (own_fields a (td_Body td)) (insert ?t X) out X'"
      using lev new(5) fuel unfolding level_walks_def by fastforce
    have "walked p {?t} {#} X out X'"
    proof (rule walked_expand [OF t \<open>?t \<notin> X\<close> X])
      show "walked p (mixin_edges p `` {?t}) (own_fields (fst ?t) (type_body p ?t)) (insert ?t X) out X'"
        using X'(2) td by (simp add: mixin_edges_def type_body_def)
    qed
    with X' new(1) show ?thesis by auto
  qed
qed

lemma level_walks: "project_wf p \<Longrightarrow> level_walks p n (level n)"
proof (induction n)
  case 0
  then show ?case by (simp add: level_walks_def)
next
  case (Suc n)
  show ?case unfolding level_walks_def
  proof (intro allI impI)
    fix home body tps s origins path w out w' X
    assume w: "walk_state p X w" and fuel: "card (declared p - X) < Suc n"
      and run: "level (Suc n) home body tps s origins path w = (out, w')"
    define P where "P body w out w' \<longleftrightarrow> (\<forall>X. walk_state p X w \<longrightarrow> card (declared p - X) < Suc n \<longrightarrow>
      (\<exists>X'. walk_state p X' w' \<and> walked p (body_mixins p home body) (own_fields home body) X out X'))"
      for body w out w'
    from run have "P body w out w'" unfolding level.simps Let_def
    proof (rule level_loop_rule [rotated 4])
      show "P [] w [] w" for w by (auto simp: P_def walk_state_def intro: walked_nil)
    next
      fix v body w i out w' names
      assume "P body w out w'"
      then show "P (TM_Field v # body) w (flat_field w home tps s origins path names i v # out) w'"
        unfolding P_def by (auto simp: walked_def flat_field_def Let_def)
    next
      fix mx body w fs w1 out w2
      assume m: "walk_mixin (level n) home tps s origins path mx w = (fs, w1)" and rest: "P body w1 out w2"
      show "P (TM_Mixin mx # body) w (fs @ out) w2" unfolding P_def
      proof (intro allI impI)
        fix X assume "walk_state p X w" and fuel: "card (declared p - X) < Suc n"
        from walk_mixin_walks [OF Suc.prems Suc.IH [OF Suc.prems] this m] obtain X1 where X1: "walk_state p X1 w1"
          and 1: "walked p (case mixin_type p home mx of None \<Rightarrow> {} | Some (a, symb, td) \<Rightarrow> {(a, symb)}) {#} X fs X1" by blast
        from 1 have "card (declared p - X1) \<le> card (declared p - X)" by (intro card_mono) (auto simp: walked_def)
        with fuel X1 rest obtain X2 where "walk_state p X2 w2"
          and "walked p (body_mixins p home body) (own_fields home body) X1 out X2"
          unfolding P_def by (meson le_less_trans)
        with walked_seq [OF 1] show "\<exists>X'. walk_state p X' w2
          \<and> walked p (body_mixins p home (TM_Mixin mx # body)) (own_fields home (TM_Mixin mx # body)) X (fs @ out) X'"
          by fastforce
      qed
    next
      show "P body w out w' \<Longrightarrow> P (TM_FreeComment c # body) w out w'" for c body w out w' by (simp add: P_def)
    qed
    with w fuel show "\<exists>X'. walk_state p X' w' \<and> walked p (body_mixins p home body) (own_fields home body) X out X'"
      unfolding P_def by blast
  qed
qed

lemma flattenFields_walks:
  assumes "project_wf p"
  shows "flat_keys (fst (flattenFields (Some p) view home body tps args names)) =
    own_fields home body + (\<Sum>t \<in> embedded p home body. own_fields (fst t) (type_body p t))"
proof -
  let ?w = "\<lparr>w_proj = Some p, w_view = view, w_names = names, w_expanded = {}, w_incomplete = False, w_embedDepths = []\<rparr>"
  obtain out w' where run: "level (Suc (length (type_keys (Some p)))) home body tps (SubstMap tps args) [] [] ?w = (out, w')"
    by fastforce
  have "walk_state p {} ?w" by (simp add: walk_state_def)
  moreover have "card (declared p - {}) < Suc (length (type_keys (Some p)))" using card_declared [of p] by simp
  ultimately obtain X where X: "walked p (body_mixins p home body) (own_fields home body) {} out X"
    using level_walks [OF assms] run unfolding level_walks_def by meson
  have "X = embedded p home body"
  proof
    show "X \<subseteq> embedded p home body" using X by (auto simp: walked_def embedded_def)
    have "u \<in> X" if "(t, u) \<in> (mixin_edges p)\<^sup>*" "t \<in> X" for t u
      using that by induction (use X in \<open>auto simp: walked_def\<close>)
    then show "embedded p home body \<subseteq> X" using X by (auto simp: walked_def embedded_def)
  qed
  moreover have "flat_keys (nameShadowedByPath w' out) = flat_keys out"
    unfolding flat_keys_def by (subst map_nameShadowedByPath) simp_all
  ultimately show ?thesis using X run by (simp add: flattenFields_def walked_def)
qed

end
