(* ===== verification/Mixins_Spec.thy ===== *)
theory Mixins_Spec
  imports Mixins Flatten_Spec
begin

text \<open>
  The mixin checks and flattening meet here. A run of \<open>collectMixinFields\<close> without a diagnostic
  has found no cycle and no name twice; from the silence of the checks on every type follows
  that no flattened body has two fields of one name, although the checks walk the mixins of a
  body one by one and flattening walks them together.
\<close>

section \<open>Field names below a type\<close>

definition names_at :: "Project \<Rightarrow> string \<times> string \<Rightarrow> string set" where
  "names_at p t = fd_Name ` set (Fields (type_body p t))"

definition names_below :: "Project \<Rightarrow> string \<times> string \<Rightarrow> string set" where
  "names_below p t = (\<Union>u \<in> (mixin_edges p)\<^sup>* `` {t}. names_at p u)"

lemma names_below_step: "names_below p t = names_at p t \<union> (\<Union>u \<in> mixin_edges p `` {t}. names_below p u)"
proof -
  have "(mixin_edges p)\<^sup>* `` {t} = insert t (\<Union>u \<in> mixin_edges p `` {t}. (mixin_edges p)\<^sup>* `` {u})"
    by (auto elim: converse_rtranclE intro: converse_rtrancl_into_rtrancl)
  then show ?thesis unfolding names_below_def by auto
qed

text \<open>The types from which no chain of mixins is endless.\<close>

abbreviation grounded :: "Project \<Rightarrow> (string \<times> string) set" where
  "grounded p \<equiv> Wellfounded.acc ((mixin_edges p)\<inverse>)"

lemma groundedI: "(\<And>u. (t, u) \<in> mixin_edges p \<Longrightarrow> u \<in> grounded p) \<Longrightarrow> t \<in> grounded p"
  by (rule accI) simp

lemma grounded_acyclic: "t \<in> grounded p \<Longrightarrow> (t, t) \<notin> (mixin_edges p)\<^sup>+"
proof (induction rule: acc_induct_rule)
  case (1 t)
  show ?case
  proof
    assume "(t, t) \<in> (mixin_edges p)\<^sup>+"
    then obtain u where "(t, u) \<in> mixin_edges p" "(u, t) \<in> (mixin_edges p)\<^sup>*" by (auto dest: tranclD)
    then have "(u, u) \<in> (mixin_edges p)\<^sup>+" by (simp add: rtrancl_into_trancl1)
    with 1 \<open>(t, u) \<in> mixin_edges p\<close> show False by auto
  qed
qed

section \<open>Collecting without a diagnostic\<close>

text \<open>Names \<open>X\<close> are entered under \<open>label\<close>; none was held under another.\<close>

definition adds :: "string \<Rightarrow> string set \<Rightarrow> seen_fields \<Rightarrow> seen_fields \<Rightarrow> bool" where
  "adds label X seen seen' \<longleftrightarrow>
     (\<forall>x \<in> X. case map_of seen x of None \<Rightarrow> True | Some o' \<Rightarrow> fo_from o' = label)
     \<and> (\<forall>x \<in> X. \<exists>o'. map_of seen' x = Some o' \<and> fo_from o' = label)
     \<and> (\<forall>x. x \<notin> X \<longrightarrow> map_of seen' x = map_of seen x)"

lemma adds_nil: "adds label {} seen seen"
  by (simp add: adds_def)

lemma adds_seq: "adds label X s s1 \<Longrightarrow> adds label Y s1 s2 \<Longrightarrow> adds label (X \<union> Y) s s2"
  unfolding adds_def by (auto split: option.splits)

lemma add_field_clean:
  "add_field label pos v seen = ([], seen') \<Longrightarrow> adds label {fd_Name v} seen seen'"
  by (auto simp: add_field_def adds_def split: option.splits if_splits)

definition member_names :: "(Mixin \<Rightarrow> string set) \<Rightarrow> TypeMember list \<Rightarrow> string set" where
  "member_names N body = fd_Name ` set (Fields body) \<union> (\<Union>mx \<in> {mx. TM_Mixin mx \<in> set body}. N mx)"

lemma member_names_simps [simp]:
  "member_names N [] = {}"
  "member_names N (TM_Field v # body) = {fd_Name v} \<union> member_names N body"
  "member_names N (TM_Mixin mx # body) = N mx \<union> member_names N body"
  "member_names N (TM_FreeComment c # body) = member_names N body"
  by (auto simp: member_names_def Fields_def)

lemma collect_body_clean:
  assumes "\<And>mx seen seen'. TM_Mixin mx \<in> set body \<Longrightarrow> nested mx seen = ([], seen') \<Longrightarrow> adds label (N mx) seen seen'"
    and "collect_body nested label pos body seen = ([], seen')"
  shows "adds label (member_names N body) seen seen'"
  using assms
proof (induction nested label pos body seen arbitrary: seen' rule: collect_body.induct)
  case (2 nested label pos v body seen)
  then obtain s1 where s1: "add_field label pos v seen = ([], s1)" "collect_body nested label pos body s1 = ([], seen')"
    by (auto split: prod.splits)
  from adds_seq [OF add_field_clean [OF s1(1)] "2.IH" [OF s1(1) [symmetric] refl _ s1(2)]] "2.prems"(1)
  show ?case by simp
next
  case (3 nested label pos mx body seen)
  then obtain s1 where s1: "nested mx seen = ([], s1)" "collect_body nested label pos body s1 = ([], seen')"
    by (auto split: prod.splits)
  from adds_seq [OF "3.prems"(1) [OF _ s1(1)] "3.IH" [OF s1(1) [symmetric] refl _ s1(2)]] "3.prems"(1)
  show ?case by simp
qed (simp_all add: adds_nil)

lemma collect_body_nested:
  assumes "collect_body nested label pos body seen = ([], seen')" and "TM_Mixin mx \<in> set body"
  shows "\<exists>s s'. nested mx s = ([], s')"
  using assms
  by (induction nested label pos body seen arbitrary: seen' rule: collect_body.induct) (auto split: prod.splits)

lemma resolve_package:
  assumes "project_wf p" and "resolve (Some p) home q = (Some pkg, symb)"
  shows "Packages p (p_Name pkg) = Some pkg"
proof -
  from assms(2) obtain b where "Packages p b = Some pkg"
    by (auto simp: resolve_def split: option.splits list.splits if_splits)
  with project_wfD(1) [OF assms(1)] show ?thesis by auto
qed

definition mixin_names :: "Project \<Rightarrow> string \<Rightarrow> Mixin \<Rightarrow> string set" where
  "mixin_names p home mx = (case mixin_type p home mx of None \<Rightarrow> {} | Some (a, symb, td) \<Rightarrow> names_below p (a, symb))"

lemma names_below_body:
  assumes "type_at p t = Some td"
  shows "names_below p t = member_names (mixin_names p (fst t)) (td_Body td)"
proof -
  have "(\<Union>u \<in> mixin_edges p `` {t}. names_below p u) = (\<Union>mx \<in> {mx. TM_Mixin mx \<in> set (td_Body td)}. mixin_names p (fst t) mx)"
    using assms by (auto simp: mixin_edges_def type_body_def body_mixins_def mixin_names_def split: option.splits) force
  with assms show ?thesis
    unfolding names_below_step [of p t] member_names_def by (simp add: names_at_def type_body_def)
qed

lemma undeclared_below:
  assumes "type_at p t = None"
  shows "names_below p t = {}" and "t \<in> grounded p"
proof -
  have "mixin_edges p `` {t} = {}" using assms by (simp add: mixin_edges_def type_body_def)
  then show "names_below p t = {}" "t \<in> grounded p"
    using assms by (auto simp: names_below_step [of p t] names_at_def type_body_def Fields_def intro: groundedI)
qed

lemma collectMixinFields_clean:
  assumes p: "project_wf p" and "Packages p (p_Name pkg) = Some pkg"
    and "collectMixinFields n p own pkg name label pos seen visited = ([], seen')"
  shows "type_key (p_Name pkg, name) \<notin> visited \<and> (p_Name pkg, name) \<in> grounded p
    \<and> adds label (names_below p (p_Name pkg, name)) seen seen'"
  using assms(2,3)
proof (induction n arbitrary: pkg name seen visited seen')
  case 0
  then show ?case by simp
next
  case (Suc n)
  let ?t = "(p_Name pkg, name)"
  let ?nested = "\<lambda>mx seen. case mx_Ref mx of None \<Rightarrow> ([], seen)
      | Some ref \<Rightarrow> (case resolve (Some p) (p_Name pkg) (nt_Name ref) of (None, _) \<Rightarrow> ([], seen)
          | (Some nxt, symb) \<Rightarrow> collectMixinFields n p own nxt symb label pos seen (insert (p_Name pkg @ CHR ''.'' # name) visited))"
  have key: "type_key ?t \<notin> visited" using Suc.prems(2) by (auto simp: type_key_def Let_def split: if_splits)
  have nested: "adds label (mixin_names p (p_Name pkg) mx) s s' \<and>
      (\<forall>a symb td. mixin_type p (p_Name pkg) mx = Some (a, symb, td) \<longrightarrow> (a, symb) \<in> grounded p)"
    if run: "?nested mx s = ([], s')" for mx s s'
  proof (cases "mx_Ref mx")
    case None
    with run show ?thesis by (simp add: mixin_names_def mixin_type_def adds_nil)
  next
    case (Some ref)
    obtain nxt symb where r: "resolve (Some p) (p_Name pkg) (nt_Name ref) = (nxt, symb)" by fastforce
    show ?thesis
    proof (cases nxt)
      case None
      with Some r run show ?thesis by (simp add: mixin_names_def mixin_type_def adds_nil)
    next
      case nx: (Some nx)
      from r nx have pk: "Packages p (p_Name nx) = Some nx" using resolve_package [OF p] by blast
      from Suc.IH [OF pk] run Some r nx
      have "(p_Name nx, symb) \<in> grounded p" "adds label (names_below p (p_Name nx, symb)) s s'" by auto
      moreover have "mixin_names p (p_Name pkg) mx = names_below p (p_Name nx, symb)"
        using Some r nx pk undeclared_below(1) [of p "(p_Name nx, symb)"]
        by (auto simp: mixin_names_def mixin_type_def type_at_def split: option.splits)
      ultimately show ?thesis using Some r nx by (auto simp: mixin_type_def)
    qed
  qed
  show ?case
  proof (cases "Types pkg name")
    case None
    then have "type_at p ?t = None" using Suc.prems(1) by (simp add: type_at_def)
    with None Suc.prems(2) key show ?thesis
      by (auto simp: undeclared_below adds_nil Let_def split: if_splits)
  next
    case (Some td)
    then have td: "type_at p ?t = Some td" using Suc.prems(1) by (simp add: type_at_def)
    have run: "collect_body ?nested label pos (td_Body td) seen = ([], seen')"
      using Suc.prems(2) Some by (auto simp: Let_def split: if_splits)
    have "adds label (names_below p ?t) seen seen'"
      using collect_body_clean [OF _ run, of "mixin_names p (p_Name pkg)"] nested names_below_body [OF td] by simp
    moreover have "?t \<in> grounded p"
    proof (rule groundedI)
      fix u assume "(?t, u) \<in> mixin_edges p"
      then obtain mx ud where "TM_Mixin mx \<in> set (td_Body td)" "mixin_type p (p_Name pkg) mx = Some (fst u, snd u, ud)"
        using td by (auto simp: mixin_edges_def type_body_def body_mixins_def)
      with nested collect_body_nested [OF run] show "u \<in> grounded p" by (metis prod.collapse)
    qed
    ultimately show ?thesis using key by simp
  qed
qed

section \<open>The mixins of one body\<close>

definition mixin_label :: "Mixin \<Rightarrow> string" where
  "mixin_label mx = ident_text (Option.bind (mx_Ref mx) nt_Name)"

lemma mixin_type_parts:
  assumes p: "project_wf p" and t: "mixin_type p home mx = Some (a, symb, td)"
  obtains q where "Option.bind (mx_Ref mx) nt_Name = Some q" and "goEmbedName (Some q) = symb" and "CHR ''.'' \<notin> set symb"
    and "mixin_label mx = symb \<and> a = home \<or> (\<exists>pk. mixin_label mx = pk @ CHR ''.'' # symb)"
proof -
  from t obtain ref pkg where ref: "mx_Ref mx = Some ref" and r: "resolve (Some p) home (nt_Name ref) = (Some pkg, symb)"
    and a: "a = p_Name pkg" by (auto simp: mixin_type_def split: option.splits prod.splits)
  from r obtain q where q: "nt_Name ref = Some q"
    and parts: "qi_Parts q = [symb] \<and> Packages p home = Some pkg \<or> (\<exists>pk. qi_Parts q = [pk, symb])"
    by (auto simp: resolve_def split: option.splits list.splits if_splits)
  have "CHR ''.'' \<notin> set symb"
    using declared_plain [OF p, of "(a, symb)"] mixin_type_at(1) [OF p t] by (simp add: declared_def plain_key_def)
  moreover have "goEmbedName (Some q) = symb" using parts by (auto simp: goEmbedName_def)
  moreover have "mixin_label mx = symb \<and> a = home \<or> (\<exists>pk. mixin_label mx = pk @ CHR ''.'' # symb)"
    using parts ref q a project_wfD(1) [OF p]
    by (auto simp: mixin_label_def ident_text_def QualifiedIdent_String_def)
  ultimately show thesis using that ref q by simp
qed

lemma mixin_label_leaf:
  assumes p: "project_wf p" and 1: "mixin_type p home mx = Some (a, symb, td)" and 2: "mixin_type p home mx' = Some (a', symb', td')"
    and eq: "mixin_label mx = mixin_label mx'"
  shows "symb = symb'"
proof -
  from mixin_type_parts [OF p 1] have l: "CHR ''.'' \<notin> set symb"
    "mixin_label mx = symb \<and> a = home \<or> (\<exists>pk. mixin_label mx = pk @ CHR ''.'' # symb)" by blast+
  from mixin_type_parts [OF p 2] have l': "CHR ''.'' \<notin> set symb'"
    "mixin_label mx' = symb' \<and> a' = home \<or> (\<exists>pk. mixin_label mx' = pk @ CHR ''.'' # symb')" by blast+
  from l l' eq last_dot_inj show ?thesis by (metis in_set_conv_decomp)
qed

lemma mixin_label_host:
  assumes p: "project_wf p" and t: "mixin_type p home mx = Some (a, symb, td)"
    and eq: "mixin_label mx = host" and plain: "CHR ''.'' \<notin> set host"
  shows "(a, symb) = (home, host)"
proof -
  from mixin_type_parts [OF p t]
  have "mixin_label mx = symb \<and> a = home \<or> (\<exists>pk. mixin_label mx = pk @ CHR ''.'' # symb)" by blast
  with eq plain show ?thesis by auto
qed

lemma Package_Decl_mixin:
  "Package_Decl pkg name mixinNamedKinds = Some (D_Type td) \<longleftrightarrow> Types pkg name = Some td"
  by (auto simp: Package_Decl_def kind_order_def mixinNamedKinds_def kind_decl_def split: option.splits)

lemma processMixin_clean:
  assumes p: "project_wf p" and run: "processMixin p own host mx seen = ([], seen')"
  shows "case mixin_type p (p_Name own) mx of
      None \<Rightarrow> seen' = seen
    | Some (a, symb, td) \<Rightarrow> (a, symb) \<in> grounded p \<and> (a, symb) \<noteq> (p_Name own, host)
        \<and> adds (mixin_label mx) (names_below p (a, symb)) seen seen'"
proof (cases "Option.bind (mx_Ref mx) nt_Name")
  case None
  with run show ?thesis
    by (cases "mx_Ref mx") (auto simp: processMixin_def mixin_type_def resolve_def)
next
  case (Some q)
  then obtain ref where ref: "mx_Ref mx = Some ref" "nt_Name ref = Some q" by (cases "mx_Ref mx") auto
  obtain pkg name where r: "resolve (Some p) (p_Name own) (Some q) = (pkg, name)" by fastforce
  show ?thesis
  proof (cases pkg)
    case None
    with run ref r show ?thesis by (auto simp: processMixin_def mixin_type_def)
  next
    case pk: (Some pk)
    show ?thesis
    proof (cases "Types pk name")
      case None
      then have "\<And>td. Package_Decl pk name mixinNamedKinds \<noteq> Some (D_Type td)" by (simp add: Package_Decl_mixin)
      then have "snd (resolveMixinTarget own mx pk name) = None"
        by (auto simp: resolveMixinTarget_def Let_def split: option.splits Decl.splits)
      with run ref r pk have "seen' = seen" by (auto simp: processMixin_def split: prod.splits option.splits)
      with None ref r pk show ?thesis by (simp add: mixin_type_def)
    next
      case (Some td)
      then have "resolveMixinTarget own mx pk name = ([], Some td)"
        using Package_Decl_mixin [of pk name td] by (simp add: resolveMixinTarget_def)
      with run ref r pk have "collectMixinFields (Suc (Suc (length (type_keys (Some p))))) p own pk name
          (QualifiedIdent_String q) (mx_Pos mx) seen {p_Name own @ ''.'' @ host} = ([], seen')"
        by (auto simp: processMixin_def Let_def split: prod.splits if_splits simp del: collectMixinFields.simps)
      from collectMixinFields_clean [OF p resolve_package [OF p r [unfolded pk]] this]
      show ?thesis using Some ref r pk by (auto simp: mixin_type_def mixin_label_def ident_text_def type_key_def)
    qed
  qed
qed

text \<open>One mixin after another brings only names that \<open>D\<close>, those seen so far, does not hold.\<close>

fun spread :: "Project \<Rightarrow> string \<Rightarrow> TypeMember list \<Rightarrow> string set \<Rightarrow> bool" where
  "spread p home [] D = True"
| "spread p home (TM_Mixin mx # body) D =
     (case mixin_type p home mx of
        None \<Rightarrow> spread p home body D
      | Some (a, symb, td) \<Rightarrow> (a, symb) \<in> grounded p \<and> names_below p (a, symb) \<inter> D = {}
          \<and> spread p home body (D \<union> names_below p (a, symb)))"
| "spread p home (m # body) D = spread p home body D"

definition origins_known :: "Project \<Rightarrow> string \<Rightarrow> string \<Rightarrow> mixinEmbed table \<Rightarrow> seen_fields \<Rightarrow> bool" where
  "origins_known p home host sm seen \<longleftrightarrow>
     (\<forall>x o'. map_of seen x = Some o' \<longrightarrow> fo_from o' = host
        \<or> (\<exists>mx a symb td. mixin_type p home mx = Some (a, symb, td) \<and> fo_from o' = mixin_label mx \<and> map_of sm symb \<noteq> None))"

lemma adds_fresh:
  assumes "adds label X seen seen'" and "\<And>x o'. map_of seen x = Some o' \<Longrightarrow> fo_from o' \<noteq> label"
  shows "X \<inter> dom (map_of seen) = {}" and "dom (map_of seen') = dom (map_of seen) \<union> X"
proof -
  show "X \<inter> dom (map_of seen) = {}" using assms by (fastforce simp: adds_def)
  show "dom (map_of seen') = dom (map_of seen) \<union> X"
    using assms(1) unfolding adds_def by (auto simp: domIff)
qed

lemma origins_known_mono:
  "origins_known p home host sm seen \<Longrightarrow> origins_known p home host (AList.update leaf e sm) seen"
  unfolding origins_known_def by (auto simp: fun_upd_def) (metis option.distinct(1))

lemma origins_known_adds:
  assumes "origins_known p home host sm seen" and "mixin_type p home mx = Some (a, symb, td)"
    and "adds (mixin_label mx) X seen seen'"
  shows "origins_known p home host (AList.update symb e sm) seen'"
  unfolding origins_known_def
proof (intro allI impI)
  fix x o' assume x: "map_of seen' x = Some o'"
  show "fo_from o' = host \<or> (\<exists>mx a s td. mixin_type p home mx = Some (a, s, td) \<and> fo_from o' = mixin_label mx
      \<and> map_of (AList.update symb e sm) s \<noteq> None)"
  proof (cases "x \<in> X")
    case True
    with assms(3) x have "fo_from o' = mixin_label mx" by (auto simp: adds_def)
    with assms(2) show ?thesis by auto
  next
    case False
    with assms(3) x have "map_of seen x = Some o'" by (simp add: adds_def)
    with origins_known_mono [OF assms(1), of symb e] show ?thesis unfolding origins_known_def by blast
  qed
qed

lemma label_fresh:
  assumes p: "project_wf p" and plain: "CHR ''.'' \<notin> set host"
    and known: "origins_known p home host sm seen"
    and t: "mixin_type p home mx = Some (a, symb, td)" "(a, symb) \<noteq> (home, host)" "map_of sm symb = None"
    and x: "map_of seen x = Some o'"
  shows "fo_from o' \<noteq> mixin_label mx"
proof
  assume from': "fo_from o' = mixin_label mx"
  then have "fo_from o' \<noteq> host" using mixin_label_host [OF p t(1) _ plain] t(2) by auto
  with known x obtain mx' a' symb' td' where m: "mixin_type p home mx' = Some (a', symb', td')"
    "mixin_label mx' = mixin_label mx" "map_of sm symb' \<noteq> None"
    unfolding origins_known_def using from' by metis
  from mixin_label_leaf [OF p m(1) t(1) m(2)] m(3) t(3) show False by simp
qed

lemma check_mixins_clean:
  assumes p: "project_wf p" and plain: "CHR ''.'' \<notin> set host"
    and "origins_known p (p_Name own) host sm seen" and "check_mixins p own host body sm seen = ([], seen')"
  shows "spread p (p_Name own) body (dom (map_of seen))"
  using assms(3,4)
proof (induction body arbitrary: sm seen seen')
  case (Cons m body)
  show ?case
  proof (cases m)
    case (TM_Mixin mx)
    show ?thesis
    proof (cases "mixin_type p (p_Name own) mx")
      case None
      obtain sm' s1 where "processMixin p own host mx seen = ([], s1)" "check_mixins p own host body sm' s1 = ([], seen')"
        and known: "origins_known p (p_Name own) host sm' seen"
        using Cons.prems TM_Mixin origins_known_mono
        by (fastforce simp: Let_def split: option.splits prod.splits)
      with processMixin_clean [OF p] None have "check_mixins p own host body sm' seen = ([], seen')" by fastforce
      from Cons.IH [OF known this] show ?thesis using None TM_Mixin by simp
    next
      case (Some t)
      obtain a symb td where t: "t = (a, symb, td)" by (cases t)
      obtain q where q: "Option.bind (mx_Ref mx) nt_Name = Some q" "goEmbedName (Some q) = symb"
        using mixin_type_parts [OF p Some [unfolded t]] by blast
      from Cons.prems(2) TM_Mixin q obtain s1 e where sm: "map_of sm symb = None"
        and run: "processMixin p own host mx seen = ([], s1)"
        and rest: "check_mixins p own host body (AList.update symb e sm) s1 = ([], seen')"
        by (auto simp: Let_def split: option.splits prod.splits)
      from processMixin_clean [OF p run] Some t have ground: "(a, symb) \<in> grounded p"
        and ne: "(a, symb) \<noteq> (p_Name own, host)" and adds: "adds (mixin_label mx) (names_below p (a, symb)) seen s1" by auto
      note fresh = adds_fresh [OF adds label_fresh [OF p plain Cons.prems(1) Some [unfolded t] ne sm]]
      have "spread p (p_Name own) body (dom (map_of s1))"
        by (rule Cons.IH [OF origins_known_adds [OF Cons.prems(1) Some [unfolded t] adds] rest])
      with fresh ground Some t TM_Mixin show ?thesis by simp
    qed
  qed (use Cons in auto)
qed simp

section \<open>A clean design\<close>

definition mixins_clean :: "Project \<Rightarrow> bool" where
  "mixins_clean p \<longleftrightarrow>
     list_all (\<lambda>(_, own). checkMixins p own = []
       \<and> list_all (\<lambda>(n, td). duplicate_fields n (Fields (td_Body td)) [] = []) (p_Types own)) (pr_Packages p)"

lemma mixins_cleanD:
  assumes "mixins_clean p" and "Packages p a = Some own"
  shows "checkMixins p own = []" and "Types own n = Some td \<Longrightarrow> duplicate_fields n (Fields (td_Body td)) [] = []"
proof -
  have all: "checkMixins p own = []" "\<forall>(n, td) \<in> set (p_Types own). duplicate_fields n (Fields (td_Body td)) [] = []"
    using assms(1) map_of_SomeD [OF assms(2)] by (auto simp: mixins_clean_def list_all_iff)
  then show "checkMixins p own = []" by simp
  show "Types own n = Some td \<Longrightarrow> duplicate_fields n (Fields (td_Body td)) [] = []"
    using all(2) by (auto dest: map_of_SomeD)
qed

lemma host_fields_spec:
  "dom (map_of (host_fields host body)) = fd_Name ` set (Fields body)"
  "map_of (host_fields host body) x = Some o' \<Longrightarrow> fo_from o' = host"
proof -
  let ?f = "\<lambda>f seen. if map_of seen (fd_Name f) \<noteq> None then seen
    else AList.update (fd_Name f) \<lparr>fo_pos = fd_Pos f, fo_from = host\<rparr> seen"
  have "dom (map_of (fold ?f fs seen)) = dom (map_of seen) \<union> fd_Name ` set fs" for fs seen
    by (induction fs arbitrary: seen) auto
  from this [of "Fields body" "[]"] show "dom (map_of (host_fields host body)) = fd_Name ` set (Fields body)"
    by (simp add: host_fields_def)
  have "(\<forall>x o'. map_of seen x = Some o' \<longrightarrow> fo_from o' = host) \<Longrightarrow>
      map_of (fold ?f fs seen) x = Some o' \<Longrightarrow> fo_from o' = host" for fs seen x o'
  proof (induction fs arbitrary: seen)
    case (Cons f fs)
    have "\<forall>x o'. map_of (?f f seen) x = Some o' \<longrightarrow> fo_from o' = host" using Cons.prems(1) by auto
    with Cons show ?case by (simp only: fold_Cons comp_apply)
  qed simp
  from this [of "[]" "Fields body"] show "map_of (host_fields host body) x = Some o' \<Longrightarrow> fo_from o' = host"
    by (simp add: host_fields_def)
qed

lemma duplicate_fields_distinct:
  "duplicate_fields name fs seen = [] \<Longrightarrow> distinct (map fd_Name fs) \<and> fd_Name ` set fs \<inter> dom (map_of seen) = {}"
  by (induction name fs seen rule: duplicate_fields.induct) (auto split: option.splits)

lemma clean_spread:
  assumes p: "project_wf p" and clean: "mixins_clean p" and t: "type_at p t = Some td"
  shows "spread p (fst t) (td_Body td) (names_at p t)" and "distinct (map fd_Name (Fields (td_Body td)))"
proof -
  from t obtain own where own: "Packages p (fst t) = Some own" and td: "Types own (snd t) = Some td"
    by (auto simp: type_at_def bind_eq_Some_conv)
  then have name: "p_Name own = fst t" "td_Name td = snd t" using project_wfD [OF p own] by auto
  have plain: "CHR ''.'' \<notin> set (td_Name td)"
    using declared_plain [OF p, of t] t name by (simp add: declared_def plain_key_def)
  have "checkOneTypeMixins p own (td_Name td) (td_Body td) = []"
    using mixins_cleanD(1) [OF clean own] map_of_SomeD [OF td] by (fastforce simp: checkMixins_def)
  then obtain seen' where "check_mixins p own (td_Name td) (td_Body td) [] (host_fields (td_Name td) (td_Body td)) = ([], seen')"
    by (auto simp: checkOneTypeMixins_def split: prod.splits)
  from check_mixins_clean [OF p plain _ this] have "spread p (fst t) (td_Body td) (fd_Name ` set (Fields (td_Body td)))"
    using host_fields_spec by (auto simp: origins_known_def name)
  then show "spread p (fst t) (td_Body td) (names_at p t)" using t by (simp add: names_at_def type_body_def)
  show "distinct (map fd_Name (Fields (td_Body td)))"
    using mixins_cleanD(2) [OF clean own td] duplicate_fields_distinct by blast
qed

lemma spread_disjoint:
  assumes "spread p home body D"
  shows "u \<in> body_mixins p home body \<Longrightarrow> u \<in> grounded p \<and> names_below p u \<inter> D = {}"
    and "u \<in> body_mixins p home body \<Longrightarrow> v \<in> body_mixins p home body \<Longrightarrow> u \<noteq> v \<Longrightarrow> names_below p u \<inter> names_below p v = {}"
proof -
  have "(\<forall>u \<in> body_mixins p home body. u \<in> grounded p \<and> names_below p u \<inter> D = {})
      \<and> (\<forall>u \<in> body_mixins p home body. \<forall>v \<in> body_mixins p home body. u \<noteq> v \<longrightarrow> names_below p u \<inter> names_below p v = {})"
    using assms
  proof (induction p home body D rule: spread.induct)
    case (2 p home mx body D)
    show ?case
    proof (cases "mixin_type p home mx")
      case None
      with 2 show ?thesis by simp
    next
      case (Some t)
      then obtain a symb td where "mixin_type p home mx = Some (a, symb, td)" by (cases t) simp
      with 2 show ?thesis by (simp add: Int_Un_distrib) blast
    qed
  qed simp_all
  then show "u \<in> body_mixins p home body \<Longrightarrow> u \<in> grounded p \<and> names_below p u \<inter> D = {}"
    "u \<in> body_mixins p home body \<Longrightarrow> v \<in> body_mixins p home body \<Longrightarrow> u \<noteq> v \<Longrightarrow> names_below p u \<inter> names_below p v = {}"
    by blast+
qed

lemma clean_edges:
  assumes "project_wf p" and "mixins_clean p" and "(t, u) \<in> mixin_edges p"
  shows "u \<in> grounded p \<and> names_below p u \<inter> names_at p t = {}"
    and "(t, v) \<in> mixin_edges p \<Longrightarrow> u \<noteq> v \<Longrightarrow> names_below p u \<inter> names_below p v = {}"
proof -
  from assms(3) obtain td where td: "type_at p t = Some td"
    by (cases "type_at p t") (auto simp: mixin_edges_def type_body_def)
  then have e: "(t, x) \<in> mixin_edges p \<longleftrightarrow> x \<in> body_mixins p (fst t) (td_Body td)" for x
    by (simp add: mixin_edges_def type_body_def)
  note s = spread_disjoint [OF clean_spread(1) [OF assms(1,2) td]]
  show "u \<in> grounded p \<and> names_below p u \<inter> names_at p t = {}" using s(1) assms(3) e by blast
  show "(t, v) \<in> mixin_edges p \<Longrightarrow> u \<noteq> v \<Longrightarrow> names_below p u \<inter> names_below p v = {}"
    using s(2) assms(3) e by blast
qed

lemma clean_grounded: "project_wf p \<Longrightarrow> mixins_clean p \<Longrightarrow> t \<in> grounded p"
  by (rule groundedI) (use clean_edges(1) in blast)

lemma clean_disjoint:
  assumes p: "project_wf p" and clean: "mixins_clean p"
    and "(t, u) \<in> (mixin_edges p)\<^sup>*" and "(t, v) \<in> (mixin_edges p)\<^sup>*" and "u \<noteq> v"
  shows "names_at p u \<inter> names_at p v = {}"
  using clean_grounded [OF p clean, of t] assms(3-)
proof (induction arbitrary: u v rule: acc_induct_rule)
  case (1 t)
  have below: "\<exists>m. (t, m) \<in> mixin_edges p \<and> (m, x) \<in> (mixin_edges p)\<^sup>*"
    if "(t, x) \<in> (mixin_edges p)\<^sup>*" "x \<noteq> t" for x
    using that by (metis converse_rtranclE)
  have sub: "names_at p x \<subseteq> names_below p m" if "(m, x) \<in> (mixin_edges p)\<^sup>*" for m x
    using that by (auto simp: names_below_def)
  have own: "names_at p t \<inter> names_at p x = {}" if x: "(t, x) \<in> (mixin_edges p)\<^sup>*" "x \<noteq> t" for x
    using below [OF x] clean_edges(1) [OF p clean] sub by blast
  show ?case
  proof (cases "u = t \<or> v = t")
    case True
    with own 1 show ?thesis by blast
  next
    case False
    with below 1 obtain m n where m: "(t, m) \<in> mixin_edges p" "(m, u) \<in> (mixin_edges p)\<^sup>*"
      and n: "(t, n) \<in> mixin_edges p" "(n, v) \<in> (mixin_edges p)\<^sup>*" by metis
    show ?thesis
    proof (cases "m = n")
      case True
      have "(m, t) \<in> (mixin_edges p)\<inverse>" using m(1) by simp
      from "1.IH" [OF this m(2)] n(2) True \<open>u \<noteq> v\<close> show ?thesis by blast
    next
      case False
      from clean_edges(2) [OF p clean m(1) n(1) False] sub [OF m(2)] sub [OF n(2)] show ?thesis by blast
    qed
  qed
qed

lemma distinct_names_sum:
  assumes "finite T" and "\<And>t. t \<in> T \<Longrightarrow> distinct (map fd_Name (Fields (type_body p t)))"
    and "\<And>t u. t \<in> T \<Longrightarrow> u \<in> T \<Longrightarrow> t \<noteq> u \<Longrightarrow> names_at p t \<inter> names_at p u = {}"
  shows "count (image_mset (\<lambda>(_, f). fd_Name f) (\<Sum>t \<in> T. own_fields (fst t) (type_body p t))) x \<le> 1"
  using assms
proof (induction T)
  case (insert t T)
  let ?N = "\<lambda>S. image_mset (\<lambda>(_, f). fd_Name f) S"
  have own: "?N (own_fields (fst t) (type_body p t)) = mset (map fd_Name (Fields (type_body p t)))"
    by (simp add: own_fields_def multiset.map_comp comp_def flip: mset_map)
  have sum: "set_mset (?N (\<Sum>t \<in> T. own_fields (fst t) (type_body p t))) = (\<Union>u \<in> T. names_at p u)"
    using insert.hyps(1) by (induction T) (auto simp: own_fields_def names_at_def image_image)
  have "count (mset (map fd_Name (Fields (type_body p t)))) x \<le> 1"
    using insert.prems(1) [of t] by (simp add: distinct_count_atmost_1)
  moreover have "count (mset (map fd_Name (Fields (type_body p t)))) x = 0"
    if "count (?N (\<Sum>t \<in> T. own_fields (fst t) (type_body p t))) x \<noteq> 0"
  proof -
    from that have "x \<in># ?N (\<Sum>t \<in> T. own_fields (fst t) (type_body p t))" by (meson not_in_iff)
    then have "x \<in> (\<Union>u \<in> T. names_at p u)" by (simp only: sum)
    then obtain u where "u \<in> T" "x \<in> names_at p u" by blast
    with insert.prems(2) [of t u] insert.hyps(2) have "x \<notin> names_at p t" by auto
    then show ?thesis by (simp add: names_at_def count_eq_zero_iff)
  qed
  moreover have "count (?N (\<Sum>t \<in> T. own_fields (fst t) (type_body p t))) x \<le> 1"
    using insert by simp
  ultimately have "count (mset (map fd_Name (Fields (type_body p t)))) x
      + count (?N (\<Sum>t \<in> T. own_fields (fst t) (type_body p t))) x \<le> 1" by linarith
  then show ?case by (simp only: sum.insert [OF insert.hyps] image_mset_union count_union own)
qed simp

lemma distinct_count_le:
  assumes "\<And>x. count (mset xs) x \<le> 1"
  shows "distinct xs"
  unfolding distinct_count_atmost_1
proof
  fix x
  have "count (mset xs) x = 0 \<longleftrightarrow> x \<notin> set xs" by (simp add: count_eq_zero_iff)
  with assms [of x] show "count (mset xs) x = (if x \<in> set xs then 1 else 0)" by (auto simp: le_Suc_eq)
qed

lemma flatten_names_distinct:
  assumes p: "project_wf p" and clean: "mixins_clean p" and t: "type_at p t = Some td"
  shows "distinct (map (\<lambda>ff. fd_Name (ff_Field ff)) (fst (flattenFields (Some p) view (fst t) (td_Body td) tps args names)))"
proof -
  let ?out = "fst (flattenFields (Some p) view (fst t) (td_Body td) tps args names)"
  let ?N = "\<lambda>S. image_mset (\<lambda>(_, f). fd_Name f) S"
  let ?R = "(mixin_edges p)\<^sup>* `` {t}"
  have body: "type_body p t = td_Body td" using t by (simp add: type_body_def)
  have emb: "embedded p (fst t) (td_Body td) = (mixin_edges p)\<^sup>+ `` {t}"
  proof -
    have "body_mixins p (fst t) (td_Body td) = mixin_edges p `` {t}" by (simp add: mixin_edges_def body)
    then show ?thesis unfolding embedded_def by (auto dest: tranclD intro: rtrancl_into_trancl2)
  qed
  have R: "?R = insert t (embedded p (fst t) (td_Body td))" unfolding emb by (auto simp: rtrancl_eq_or_trancl)
  have "t \<notin> embedded p (fst t) (td_Body td)"
    using grounded_acyclic [OF clean_grounded [OF p clean]] unfolding emb by auto
  moreover have "?R \<subseteq> declared p"
  proof
    fix u assume "u \<in> ?R"
    then have "(t, u) \<in> (mixin_edges p)\<^sup>*" by simp
    then show "u \<in> declared p"
      by induction (use t mixin_type_at(1) [OF p] in \<open>fastforce simp: declared_def mixin_edges_def body_mixins_def\<close>)+
  qed
  then have fin: "finite ?R" by (rule finite_subset) simp
  ultimately have "flat_keys ?out = (\<Sum>u \<in> ?R. own_fields (fst u) (type_body p u))"
    using flattenFields_walks [OF p] R by (simp add: body)
  moreover have "?N (flat_keys ?out) = mset (map (\<lambda>ff. fd_Name (ff_Field ff)) ?out)"
    by (simp add: flat_keys_def multiset.map_comp comp_def flip: mset_map)
  moreover have "count (?N (\<Sum>u \<in> ?R. own_fields (fst u) (type_body p u))) x \<le> 1" for x
  proof (rule distinct_names_sum [OF fin])
    show "distinct (map fd_Name (Fields (type_body p u)))" if "u \<in> ?R" for u
      using clean_spread(2) [OF p clean, of u] by (cases "type_at p u") (simp_all add: type_body_def Fields_def)
    show "names_at p u \<inter> names_at p v = {}" if "u \<in> ?R" "v \<in> ?R" "u \<noteq> v" for u v
      using clean_disjoint [OF p clean] that by blast
  qed
  ultimately have "count (mset (map (\<lambda>ff. fd_Name (ff_Field ff)) ?out)) x \<le> 1" for x by metis
  then show ?thesis by (rule distinct_count_le)
qed

text \<open>
  C7. Where the mixin and field checks report nothing on any type of the design, no type has
  two fields of one name once its mixins are expanded: neither two of its own, nor one of its
  own and an embedded one, nor two that different mixins embed at any depth.
\<close>

theorem clean_mixins_distinct:
  assumes "list_all (\<lambda>f. list_all decl_wf (f_Decls f)) files"
    and "mixins_clean (build_project base files)"
    and "type_at (build_project base files) t = Some td"
  shows "distinct (map (\<lambda>ff. fd_Name (ff_Field ff))
    (fst (flattenFields (Some (build_project base files)) view (fst t) (td_Body td) tps args names)))"
  by (rule flatten_names_distinct [OF build_project_wf [OF assms(1)] assms(2,3)])

definition demo_ref :: "string \<Rightarrow> named_type_ref" where
  "demo_ref name = NamedTypeRef zero_Position (Some \<lparr>qi_Pos = zero_Position, qi_Parts = [name]\<rparr>) []"

definition demo_field :: "string \<Rightarrow> TypeMember" where
  "demo_field name = TM_Field \<lparr>fd_Pos = zero_Position, fd_Doc = [], fd_Name = name,
     fd_Type = Some (TypeRef zero_Position None (Some (demo_ref ''int'')) False False 0), fd_Decorators = []\<rparr>"

definition demo_mixin :: "string \<Rightarrow> TypeMember" where
  "demo_mixin name = TM_Mixin \<lparr>mx_Pos = zero_Position, mx_Doc = [], mx_Ref = Some (demo_ref name)\<rparr>"

definition demo_files :: "File list" where
  "demo_files = [demo_file ''shop''
     [D_Type (demo_type ''Page'' [demo_field ''size'']),
      D_Type (demo_type ''Items'' [demo_mixin ''Page'', demo_field ''count''])]]"

lemma demo_files_wf: "list_all (\<lambda>f. list_all decl_wf (f_Decls f)) demo_files"
proof -
  have "IsIdent ''Page''" "IsIdent ''Items''" by code_simp+
  then show ?thesis by (simp add: demo_files_def demo_file_def demo_type_def demo_field_def demo_mixin_def demo_ref_def name_ok_def)
qed

theorem clean_mixins_distinct_witness:
  "distinct (map (\<lambda>ff. fd_Name (ff_Field ff)) (fst (flattenFields (Some (build_project [] demo_files)) ''shop'' ''shop''
     [demo_mixin ''Page'', demo_field ''count''] [] [] None)))"
proof -
  have clean: "mixins_clean (build_project [] demo_files)" by code_simp
  have "type_at (build_project [] demo_files) (''shop'', ''Items'')
      = Some (demo_type ''Items'' [demo_mixin ''Page'', demo_field ''count''])" by code_simp
  from clean_mixins_distinct [OF demo_files_wf clean this] show ?thesis by (simp add: demo_type_def)
qed

end
