(* ===== verification/Search.thy ===== *)
theory Search
  imports Main
begin

text \<open>
  Breadth-first search over a successor function, as the cycle checks use it: a queue of nodes
  to expand and the set of nodes seen. The locale's invariant says that the queue is ordered by
  distance from the root and spans at most two distances, that what is seen and not queued is
  expanded, and that everything at the distance of the queue's head or below is seen. Its
  lemmas give one step of the search and what an empty queue and the queue's head mean.
\<close>

locale breadth_first =
  fixes succs :: "'n \<Rightarrow> 'n list" and root :: 'n
begin

definition edges :: "('n \<times> 'n) set" where
  "edges = {(u, v). v \<in> set (succs u)}"

definition reached :: "'n set" where
  "reached = edges\<^sup>* `` {root}"

definition dist :: "'n \<Rightarrow> nat" where
  "dist v = (LEAST n. (root, v) \<in> edges ^^ n)"

definition search_inv :: "'n set \<Rightarrow> 'n list \<Rightarrow> bool" where
  "search_inv seen queue \<longleftrightarrow>
     root \<in> seen \<and> set queue \<subseteq> seen \<and> seen \<subseteq> reached \<and> edges `` (seen - set queue) \<subseteq> seen
     \<and> sorted (map dist queue) \<and> (\<forall>v \<in> set queue. dist v \<le> Suc (dist (hd queue)))
     \<and> (queue \<noteq> [] \<longrightarrow> (\<forall>w \<in> reached. dist w \<le> dist (hd queue) \<longrightarrow> w \<in> seen))"

lemma root_reached: "root \<in> reached"
  by (simp add: reached_def)

lemma succ_reached: "u \<in> reached \<Longrightarrow> (u, v) \<in> edges \<Longrightarrow> v \<in> reached"
  unfolding reached_def by (auto intro: rtrancl_into_rtrancl)

lemma dist_root: "dist root = 0"
  unfolding dist_def by (rule Least_equality) auto

lemma reached_dist: "v \<in> reached \<Longrightarrow> (root, v) \<in> edges ^^ dist v"
  unfolding reached_def dist_def by (auto dest!: rtrancl_imp_relpow intro: LeastI)

lemma dist_le: "(root, v) \<in> edges ^^ n \<Longrightarrow> dist v \<le> n"
  unfolding dist_def by (rule Least_le)

lemma dist_succ:
  assumes "u \<in> reached" and "(u, v) \<in> edges"
  shows "dist v \<le> Suc (dist u)"
  using reached_dist [OF assms(1)] assms(2) by (intro dist_le) auto

lemma dist_0_root: "v \<in> reached \<Longrightarrow> dist v = 0 \<Longrightarrow> v = root"
  using reached_dist by force

lemma dist_pred:
  assumes "v \<in> reached" and "dist v = Suc d"
  obtains u where "u \<in> reached" and "(u, v) \<in> edges" and "dist u \<le> d"
proof -
  have "(root, v) \<in> edges ^^ Suc d" using reached_dist [OF assms(1)] assms(2) by simp
  then obtain u where u: "(root, u) \<in> edges ^^ d" "(u, v) \<in> edges" by auto
  then have "u \<in> reached" unfolding reached_def by (auto intro: relpow_imp_rtrancl)
  with u that show thesis by (blast intro: dist_le)
qed

lemma search_inv_start: "search_inv {root} [root]"
  by (auto simp: search_inv_def root_reached dist_root dist_0_root)

lemma search_inv_empty:
  assumes "search_inv seen []"
  shows "seen = reached"
proof
  show "seen \<subseteq> reached" using assms by (simp add: search_inv_def)
  have "v \<in> seen" if "(root, v) \<in> edges\<^sup>*" for v
    using that by induction (use assms in \<open>auto simp: search_inv_def\<close>)
  then show "reached \<subseteq> seen" by (auto simp: reached_def)
qed

lemma search_inv_head:
  assumes "search_inv seen (u # queue)" and "w \<in> reached" and "w \<notin> seen - set (u # queue)"
  shows "dist u \<le> dist w"
proof (cases "w \<in> seen")
  case True
  with assms show ?thesis by (auto simp: search_inv_def)
next
  case False
  with assms show ?thesis unfolding search_inv_def by (auto simp: not_le)
qed

lemma search_inv_new:
  assumes "search_inv seen (u # queue)" and "(u, v) \<in> edges" and "v \<notin> seen"
  shows "dist v = Suc (dist u)"
proof -
  from assms(1) have u: "u \<in> reached" and le: "\<And>w. w \<in> reached \<Longrightarrow> dist w \<le> dist u \<Longrightarrow> w \<in> seen"
    by (auto simp: search_inv_def)
  then have "\<not> dist v \<le> dist u" using assms(2,3) succ_reached by blast
  moreover have "dist v \<le> Suc (dist u)" using u assms(2) by (rule dist_succ)
  ultimately show ?thesis by simp
qed

lemma search_inv_closed:
  assumes inv: "search_inv seen (u # queue)"
    and new: "set new = set (succs u) - seen" and seen': "seen' = seen \<union> set (succs u)"
  shows "edges `` (seen' - set (queue @ new)) \<subseteq> seen'"
proof -
  have "edges `` (seen - set (u # queue)) \<subseteq> seen" using inv by (simp add: search_inv_def)
  moreover have "edges `` {u} \<subseteq> seen'" by (auto simp: edges_def seen')
  moreover have "seen' - set (queue @ new) \<subseteq> insert u (seen - set (u # queue))"
    using new by (auto simp: seen')
  ultimately show ?thesis unfolding seen' by blast
qed

lemma search_inv_frontier:
  assumes inv: "search_inv seen (u # queue)"
    and closed: "edges `` (seen' - set (queue @ new)) \<subseteq> seen'" and sub: "seen \<subseteq> seen'"
    and far: "\<And>v. v \<in> set (queue @ new) \<Longrightarrow> dist v \<ge> Suc (dist u)"
    and w: "w \<in> reached" "dist w \<le> Suc (dist u)"
  shows "w \<in> seen'"
proof (cases "dist w \<le> dist u")
  case True
  with inv w sub show ?thesis by (auto simp: search_inv_def)
next
  case False
  with w have "dist w = Suc (dist u)" by simp
  with w(1) obtain x where x: "x \<in> reached" "(x, w) \<in> edges" "dist x \<le> dist u" by (rule dist_pred)
  with inv sub have "x \<in> seen'" by (auto simp: search_inv_def)
  moreover have "x \<notin> set (queue @ new)" using far x(3) by fastforce
  ultimately show ?thesis using closed x(2) by blast
qed

lemma search_inv_step:
  assumes inv: "search_inv seen (u # queue)"
    and new: "set new = set (succs u) - seen" and seen': "seen' = seen \<union> set (succs u)"
  shows "search_inv seen' (queue @ new)"
proof -
  have dnew: "dist v = Suc (dist u)" if "v \<in> set new" for v
    using search_inv_new [OF inv] that new by (auto simp: edges_def)
  have dq: "dist u \<le> dist v" "dist v \<le> Suc (dist u)" if "v \<in> set queue" for v
    using inv that by (auto simp: search_inv_def)
  have sq: "sorted (map dist queue)" and u: "u \<in> reached" "seen \<subseteq> reached" "root \<in> seen" "set queue \<subseteq> seen"
    using inv by (auto simp: search_inv_def)
  note closed = search_inv_closed [OF inv new seen']
  have range: "dist u \<le> dist v \<and> dist v \<le> Suc (dist u)" if "v \<in> set (queue @ new)" for v
    using that dnew dq by auto
  have "map dist new = replicate (length new) (Suc (dist u))"
    using dnew by (induction new) simp_all
  then have sorted: "sorted (map dist (queue @ new))"
    using sq dq by (auto simp: sorted_append)
  have "\<forall>v \<in> set (queue @ new). dist v \<le> Suc (dist (hd (queue @ new)))"
  proof
    fix v assume v: "v \<in> set (queue @ new)"
    then have "hd (queue @ new) \<in> set (queue @ new)" by (metis empty_iff empty_set hd_in_set)
    with range v show "dist v \<le> Suc (dist (hd (queue @ new)))" by (meson Suc_le_mono order_trans)
  qed
  moreover have "w \<in> seen'" if "queue @ new \<noteq> []" "w \<in> reached" "dist w \<le> dist (hd (queue @ new))" for w
  proof (cases "dist (hd (queue @ new)) = dist u")
    case True
    with that inv seen' show ?thesis by (auto simp: search_inv_def)
  next
    case False
    have hd: "hd (queue @ new) \<in> set (queue @ new)" using that(1) by (rule hd_in_set)
    with False range have "dist (hd (queue @ new)) = Suc (dist u)" by (meson le_SucE le_antisym)
    moreover have "dist (hd (queue @ new)) \<le> dist v" if "v \<in> set (queue @ new)" for v
      using sorted that by (cases "queue @ new") auto
    ultimately show ?thesis
      using that by (intro search_inv_frontier [OF inv closed]) (auto simp: seen')
  qed
  moreover have "set (succs u) \<subseteq> reached" using succ_reached [OF u(1)] by (auto simp: edges_def)
  ultimately show ?thesis
    using sorted closed u new unfolding search_inv_def seen' by auto
qed

end

end
