(* ===== verification/Cycles_Spec.thy ===== *)
theory Cycles_Spec
  imports Cycles Search
begin

text \<open>
  What the cycle checks decide. \<open>slotReaches\<close> is reachability along flows; \<open>shortestCycle\<close>
  finds a cycle when there is one, and no cycle through its start is shorter; and
  \<open>checkPackageCycles\<close> is silent exactly on designs whose packages can be ordered so that
  each references only earlier ones.
\<close>

section \<open>Flows between type parameters\<close>

interpretation flows: breadth_first "slot_succs succs" start for succs start .

lemma enqueue_seen: "fst (enqueue ns seen queue) = seen \<union> set ns"
  by (induction ns seen queue rule: enqueue.induct) auto

lemma enqueue_queue: "\<exists>new. snd (enqueue ns seen queue) = queue @ new \<and> set new = set ns - seen"
proof (induction ns seen queue rule: enqueue.induct)
  case (2 n ns seen queue)
  show ?case
  proof (cases "n \<in> seen")
    case False
    with 2 obtain new where "snd (enqueue ns (insert n seen) (queue @ [n])) = (queue @ [n]) @ new"
      and "set new = set ns - insert n seen" by blast
    with False show ?thesis by (intro exI [of _ "n # new"]) auto
  qed (use 2 in auto)
qed simp

lemma slot_search_iff:
  assumes "flows.search_inv succs start seen queue" and "to \<notin> seen - set queue"
  shows "slot_search succs to seen queue \<longleftrightarrow> to \<in> flows.reached succs start"
  using assms
proof (induction succs to seen queue rule: slot_search.induct)
  case (1 succs to seen)
  then show ?case using flows.search_inv_empty by fastforce
next
  case (2 succs to seen at queue)
  show ?case
  proof (cases "at = to")
    case True
    with 2 show ?thesis by (auto simp: flows.search_inv_def)
  next
    case False
    obtain seen' queue' where eq: "enqueue (slot_succs succs at) seen queue = (seen', queue')"
      by (cases "enqueue (slot_succs succs at) seen queue")
    then have seen': "seen' = seen \<union> set (slot_succs succs at)"
      using enqueue_seen [of "slot_succs succs at" seen queue] by simp
    obtain new where new: "queue' = queue @ new" "set new = set (slot_succs succs at) - seen"
      using enqueue_queue [of "slot_succs succs at" seen queue] eq by auto
    have "flows.search_inv succs start seen' queue'"
      unfolding new(1) by (rule flows.search_inv_step [OF "2.prems"(1) new(2) seen'])
    moreover have "to \<notin> seen' - set queue'" using 2(3) False new seen' by auto
    ultimately show ?thesis using 2(1) False eq by simp
  qed
qed

lemma slotReaches_iff: "slotReaches succs a b \<longleftrightarrow> (a, b) \<in> {(u, v). v \<in> set (slot_succs succs u)}\<^sup>*"
  using slot_search_iff [OF flows.search_inv_start]
  by (simp add: slotReaches_def flows.reached_def flows.edges_def)

lemma set_slot_succs_fold:
  "set (slot_succs (fold (\<lambda>f m. AList.update (pf_from f) (slot_succs m (pf_from f) @ [pf_to f]) m) flows m) s)
     = set (slot_succs m s) \<union> {pf_to f | f. f \<in> set flows \<and> pf_from f = s}"
  by (induction flows arbitrary: m) (auto simp: slot_succs_def)

lemma set_flow_succs: "set (slot_succs (flow_succs flows) s) = {pf_to f | f. f \<in> set flows \<and> pf_from f = s}"
  unfolding flow_succs_def by (subst set_slot_succs_fold) (simp add: slot_succs_def)

definition flow_edges :: "Project \<Rightarrow> (typeParamSlot \<times> typeParamSlot) set" where
  "flow_edges p = (\<lambda>f. (pf_from f, pf_to f)) ` set (paramFlows p)"

lemma endless_iff:
  "f \<in> set (endlessParamFlows p) \<longleftrightarrow>
     f \<in> set (paramFlows p) \<and> pf_grows f \<and> (pf_to f, pf_from f) \<in> (flow_edges p)\<^sup>*"
proof -
  have "{(u, v). v \<in> set (slot_succs (flow_succs (paramFlows p)) u)} = flow_edges p"
    by (auto simp: set_flow_succs flow_edges_def)
  then show ?thesis by (auto simp: endlessParamFlows_def Let_def slotReaches_iff)
qed

section \<open>The shortest cycle\<close>

interpretation refs: breadth_first "ref_keys refs" start for refs start .

definition is_cycle :: "refs \<Rightarrow> string \<Rightarrow> string list \<Rightarrow> bool" where
  "is_cycle refs start path \<longleftrightarrow>
     length path \<ge> 2 \<and> hd path = start \<and> last path = start
     \<and> successively (\<lambda>a b. b \<in> set (ref_keys refs a)) path"

definition parent_ok :: "refs \<Rightarrow> string \<Rightarrow> (string \<rightharpoonup> string) \<Rightarrow> bool" where
  "parent_ok refs start parent \<longleftrightarrow>
     finite (dom parent) \<and> start \<notin> dom parent
     \<and> (\<forall>v u. parent v = Some u \<longrightarrow> u \<in> insert start (dom parent) \<and> v \<in> set (ref_keys refs u)
          \<and> refs.dist refs start v = Suc (refs.dist refs start u))"

lemma parent_chain:
  assumes ok: "parent_ok refs start parent" and "v \<in> insert start (dom parent)"
  shows "{1..refs.dist refs start v} \<subseteq> refs.dist refs start ` dom parent"
  using assms(2)
proof (induction "refs.dist refs start v" arbitrary: v)
  case (Suc d)
  then have "v \<noteq> start" using refs.dist_root by force
  with Suc obtain u where u: "parent v = Some u" by auto
  with ok have "u \<in> insert start (dom parent)" "refs.dist refs start v = Suc (refs.dist refs start u)"
    unfolding parent_ok_def by blast+
  with Suc have "{1..refs.dist refs start u} \<subseteq> refs.dist refs start ` dom parent" by simp
  moreover have "refs.dist refs start v \<in> refs.dist refs start ` dom parent" using u by blast
  moreover have "{1..refs.dist refs start v} = insert (refs.dist refs start v) {1..refs.dist refs start u}"
    using \<open>refs.dist refs start v = Suc (refs.dist refs start u)\<close> by auto
  ultimately show ?case by simp
qed simp

lemma parent_dist_le:
  assumes ok: "parent_ok refs start parent" and v: "v \<in> insert start (dom parent)"
  shows "refs.dist refs start v \<le> card (dom parent)"
proof -
  have fin: "finite (dom parent)" using ok by (simp add: parent_ok_def)
  have "card {1..refs.dist refs start v} \<le> card (refs.dist refs start ` dom parent)"
    using parent_chain [OF ok v] fin by (intro card_mono) auto
  also have "\<dots> \<le> card (dom parent)" using fin by (rule card_image_le)
  finally show ?thesis by simp
qed

lemma trace_back_ok:
  assumes ok: "parent_ok refs start parent"
    and "v \<in> insert start (dom parent)" and "refs.dist refs start v \<le> n"
  shows "length (trace_back (Suc n) parent start v) = refs.dist refs start v
    \<and> successively (\<lambda>a b. b \<in> set (ref_keys refs a)) (start # rev (trace_back (Suc n) parent start v))
    \<and> last (start # rev (trace_back (Suc n) parent start v)) = v"
  using assms(2,3)
proof (induction n arbitrary: v)
  case 0
  then have "v = start" using ok by (auto simp: parent_ok_def)
  then show ?case by (simp add: refs.dist_root)
next
  case (Suc n)
  show ?case
  proof (cases "v = start")
    case True
    then show ?thesis by (simp add: refs.dist_root)
  next
    case False
    with Suc.prems obtain u where u: "parent v = Some u" by auto
    with ok have E: "v \<in> set (ref_keys refs u)" and d: "refs.dist refs start v = Suc (refs.dist refs start u)"
      and "u \<in> insert start (dom parent)" unfolding parent_ok_def by blast+
    with Suc have "length (trace_back (Suc n) parent start u) = refs.dist refs start u
      \<and> successively (\<lambda>a b. b \<in> set (ref_keys refs a)) (start # rev (trace_back (Suc n) parent start u))
      \<and> last (start # rev (trace_back (Suc n) parent start u)) = u" by simp
    moreover have "trace_back (Suc (Suc n)) parent start v = v # trace_back (Suc n) parent start u"
      using False u by simp
    ultimately show ?thesis
      using d E by (simp del: trace_back.simps add: successively_append_iff flip: append_Cons)
  qed
qed

lemma cycle_path_ok:
  assumes ok: "parent_ok refs start parent" and v: "v \<in> insert start (dom parent)"
    and close: "start \<in> set (ref_keys refs v)"
  shows "is_cycle refs start (cycle_path parent start v)"
    and "length (cycle_path parent start v) = refs.dist refs start v + 2"
  using trace_back_ok [OF ok v parent_dist_le [OF ok v]] close
  by (simp_all del: trace_back.simps add: is_cycle_def cycle_path_def successively_append_iff flip: append_Cons)

lemma cycle_edges_open:
  assumes "start \<notin> set tos" and "distinct tos"
  shows "cycle_edges start u tos parent queue =
    Inr (\<lambda>v. if v \<in> set tos - dom parent then Some u else parent v,
         queue @ filter (\<lambda>v. parent v = None) tos)"
  using assms
proof (induction start u tos parent queue rule: cycle_edges.induct)
  case (2 start u v tos parent queue)
  have v: "v \<noteq> start" "v \<notin> set tos" "start \<notin> set tos" "distinct tos" using "2.prems" by auto
  show ?case
  proof (cases "parent v = None")
    case True
    have "filter (\<lambda>x. (parent(v \<mapsto> u)) x = None) tos = filter (\<lambda>x. parent x = None) tos"
      using v by (intro filter_cong) auto
    moreover have "(\<lambda>x. if x \<in> set tos - dom (parent(v \<mapsto> u)) then Some u else (parent(v \<mapsto> u)) x)
        = (\<lambda>x. if x \<in> set (v # tos) - dom parent then Some u else parent x)"
      using v True by (auto simp: fun_eq_iff)
    ultimately show ?thesis
      using "2.IH"(2) v True by (simp del: fun_upd_apply)
  next
    case False
    then have "(\<lambda>x. if x \<in> set tos - dom parent then Some u else parent x)
        = (\<lambda>x. if x \<in> set (v # tos) - dom parent then Some u else parent x)"
      by (auto simp: fun_eq_iff)
    with "2.IH"(1) v False show ?thesis by simp
  qed
qed (simp add: fun_eq_iff)

lemma cycle_edges_close:
  assumes "start \<in> set tos"
  shows "\<exists>ext. set ext \<subseteq> set tos - dom parent \<and> start \<notin> set ext
    \<and> cycle_edges start u tos parent queue
        = Inl (cycle_path (\<lambda>v. if v \<in> set ext then Some u else parent v) start u)"
  using assms
proof (induction start u tos parent queue rule: cycle_edges.induct)
  case (2 start u v tos parent queue)
  consider "v = start" | "v \<noteq> start" "parent v \<noteq> None" | "v \<noteq> start" "parent v = None" by blast
  then show ?case
  proof cases
    case 1
    then show ?thesis by (intro exI [of _ "[]"]) simp
  next
    case 2
    with "2.IH"(1) "2.prems" obtain ext where "set ext \<subseteq> set tos - dom parent" "start \<notin> set ext"
      "cycle_edges start u tos parent queue
        = Inl (cycle_path (\<lambda>x. if x \<in> set ext then Some u else parent x) start u)" by auto
    with 2 show ?thesis by (intro exI [of _ ext]) auto
  next
    case 3
    with "2.IH"(2) "2.prems" obtain ext where ext: "set ext \<subseteq> set tos - dom (parent(v \<mapsto> u))" "start \<notin> set ext"
      "cycle_edges start u tos (parent(v \<mapsto> u)) (queue @ [v])
        = Inl (cycle_path (\<lambda>x. if x \<in> set ext then Some u else (parent(v \<mapsto> u)) x) start u)"
      by (auto simp del: fun_upd_apply)
    moreover have "(\<lambda>x. if x \<in> set ext then Some u else (parent(v \<mapsto> u)) x)
        = (\<lambda>x. if x \<in> set (v # ext) then Some u else parent x)" by auto
    ultimately show ?thesis using 3 by (intro exI [of _ "v # ext"]) auto
  qed
qed simp

definition cycle_inv :: "refs \<Rightarrow> string \<Rightarrow> (string \<rightharpoonup> string) \<Rightarrow> string list \<Rightarrow> bool" where
  "cycle_inv refs start parent queue \<longleftrightarrow>
     parent_ok refs start parent
     \<and> refs.search_inv refs start (insert start (dom parent)) queue
     \<and> (\<forall>u \<in> insert start (dom parent) - set queue. start \<notin> set (ref_keys refs u))"

lemma parent_ok_extend:
  assumes inv: "cycle_inv refs start parent (u # queue)"
    and ext: "ext \<subseteq> set (ref_keys refs u) - dom parent" "start \<notin> ext"
  shows "parent_ok refs start (\<lambda>v. if v \<in> ext then Some u else parent v)"
proof -
  have u: "u \<in> insert start (dom parent)" and s: "refs.search_inv refs start (insert start (dom parent)) (u # queue)"
    and ok: "parent_ok refs start parent"
    using inv by (auto simp: cycle_inv_def refs.search_inv_def)
  have new: "refs.dist refs start v = Suc (refs.dist refs start u)" if "v \<in> ext" for v
    using refs.search_inv_new [OF s] that ext by (auto simp: refs.edges_def)
  have dom: "dom (\<lambda>v. if v \<in> ext then Some u else parent v) = dom parent \<union> ext"
    by (auto split: if_splits)
  have "finite ext" using ext(1) by (auto intro: finite_subset)
  then show ?thesis
    using ok u new ext unfolding parent_ok_def dom by (auto simp: subset_iff)
qed

lemma cycle_inv_step:
  assumes inv: "cycle_inv refs start parent (u # queue)"
    and open': "start \<notin> set (ref_keys refs u)"
  shows "cycle_inv refs start (\<lambda>v. if v \<in> set (ref_keys refs u) - dom parent then Some u else parent v)
    (queue @ filter (\<lambda>v. parent v = None) (ref_keys refs u))"
proof -
  let ?new = "filter (\<lambda>v. parent v = None) (ref_keys refs u)"
  let ?parent = "\<lambda>v. if v \<in> set (ref_keys refs u) - dom parent then Some u else parent v"
  have dom: "insert start (dom ?parent) = insert start (dom parent) \<union> set (ref_keys refs u)" by auto
  have "parent_ok refs start ?parent" by (rule parent_ok_extend [OF inv]) (use open' in auto)
  moreover have "set ?new = set (ref_keys refs u) - insert start (dom parent)" using open' by auto
  then have "refs.search_inv refs start (insert start (dom ?parent)) (queue @ ?new)"
    using inv by (intro refs.search_inv_step [OF _ _ dom]) (simp_all add: cycle_inv_def)
  moreover have "\<forall>x \<in> insert start (dom ?parent) - set (queue @ ?new). start \<notin> set (ref_keys refs x)"
    using inv open' unfolding cycle_inv_def dom by auto
  ultimately show ?thesis by (simp add: cycle_inv_def)
qed

lemma cycle_inv_start: "cycle_inv refs start Map.empty [start]"
  using refs.search_inv_start by (simp add: cycle_inv_def parent_ok_def)

definition maps_distinct :: "refs \<Rightarrow> bool" where
  "maps_distinct refs \<longleftrightarrow> list_all (\<lambda>(_, m). distinct (map fst m)) refs"

lemma distinct_ref_keys: "maps_distinct refs \<Longrightarrow> distinct (ref_keys refs u)"
  by (auto simp: maps_distinct_def ref_keys_def list_all_iff split: option.split dest: map_of_SomeD)

lemma successively_relpow:
  "successively (\<lambda>a b. b \<in> set (ref_keys refs a)) (x # xs)
     \<Longrightarrow> (x, last (x # xs)) \<in> refs.edges refs ^^ length xs"
proof (induction xs rule: rev_induct)
  case (snoc y ys)
  then have "(x, last (x # ys)) \<in> refs.edges refs ^^ length ys" "(last (x # ys), y) \<in> refs.edges refs"
    by (auto simp: successively_append_iff refs.edges_def simp flip: append_Cons)
  then show ?case by auto
qed simp

lemma cycle_last:
  assumes "is_cycle refs start path"
  obtains w where "start \<in> set (ref_keys refs w)" and "w \<in> refs.reached refs start"
    and "refs.dist refs start w + 2 \<le> length path"
proof -
  from assms obtain xs where path: "path = (start # xs) @ [start]"
    unfolding is_cycle_def by (cases path; cases "tl path" rule: rev_cases) (auto simp: Suc_le_eq split: if_splits)
  let ?w = "last (start # xs)"
  from assms path have s: "successively (\<lambda>a b. b \<in> set (ref_keys refs a)) (start # xs)"
    and close: "start \<in> set (ref_keys refs ?w)"
    by (auto simp: is_cycle_def successively_append_iff simp flip: append_Cons)
  from successively_relpow [OF s] have "(start, ?w) \<in> refs.edges refs ^^ length xs" .
  then have "?w \<in> refs.reached refs start" "refs.dist refs start ?w \<le> length xs"
    by (auto simp: refs.reached_def refs.dist_root intro: relpow_imp_rtrancl refs.dist_le)
  with close that path show thesis by auto
qed

lemma cycle_inv_found:
  assumes inv: "cycle_inv refs start parent (u # queue)" and close: "start \<in> set (ref_keys refs u)"
    and ext: "set ext \<subseteq> set (ref_keys refs u) - dom parent" "start \<notin> set ext"
    and path: "path = cycle_path (\<lambda>v. if v \<in> set ext then Some u else parent v) start u"
  shows "is_cycle refs start path \<and> (\<forall>other. is_cycle refs start other \<longrightarrow> length path \<le> length other)"
proof -
  have ok: "parent_ok refs start (\<lambda>v. if v \<in> set ext then Some u else parent v)"
    by (rule parent_ok_extend [OF inv ext])
  have "u \<in> insert start (dom parent)" using inv by (auto simp: cycle_inv_def refs.search_inv_def)
  then have u: "u \<in> insert start (dom (\<lambda>v. if v \<in> set ext then Some u else parent v))"
    by (auto split: if_splits)
  have "length path \<le> length other" if other: "is_cycle refs start other" for other
  proof -
    from other obtain w where w: "start \<in> set (ref_keys refs w)" "w \<in> refs.reached refs start"
      "refs.dist refs start w + 2 \<le> length other" by (rule cycle_last)
    from inv w(1) have "w \<notin> insert start (dom parent) - set (u # queue)" by (auto simp: cycle_inv_def)
    with inv w(2) have "refs.dist refs start u \<le> refs.dist refs start w"
      by (intro refs.search_inv_head) (auto simp: cycle_inv_def)
    with w(3) cycle_path_ok(2) [OF ok u close] show ?thesis by (simp add: path)
  qed
  with cycle_path_ok(1) [OF ok u close] show ?thesis by (simp add: path)
qed

lemma cycle_search_correct:
  assumes "cycle_inv refs start parent queue" and "maps_distinct refs"
  shows "case cycle_search refs start parent queue of
      None \<Rightarrow> (start, start) \<notin> (refs.edges refs)\<^sup>+
    | Some path \<Rightarrow> is_cycle refs start path \<and> (\<forall>other. is_cycle refs start other \<longrightarrow> length path \<le> length other)"
  using assms
proof (induction refs start parent queue rule: cycle_search.induct)
  case (1 refs start parent)
  then have reached: "insert start (dom parent) = refs.reached refs start"
    by (auto simp: cycle_inv_def dest!: refs.search_inv_empty)
  have "(start, start) \<notin> (refs.edges refs)\<^sup>+"
  proof
    assume "(start, start) \<in> (refs.edges refs)\<^sup>+"
    then obtain w where "(start, w) \<in> (refs.edges refs)\<^sup>*" and close: "(w, start) \<in> refs.edges refs"
      by (auto dest: tranclD2)
    then have "w \<in> insert start (dom parent)" unfolding reached by (simp add: refs.reached_def)
    with 1 close show False by (auto simp: cycle_inv_def refs.edges_def)
  qed
  then show ?case by simp
next
  case (2 refs start parent u queue)
  show ?case
  proof (cases "start \<in> set (ref_keys refs u)")
    case True
    then obtain ext where ext: "set ext \<subseteq> set (ref_keys refs u) - dom parent" "start \<notin> set ext"
      and eq: "cycle_edges start u (ref_keys refs u) parent queue
        = Inl (cycle_path (\<lambda>v. if v \<in> set ext then Some u else parent v) start u)"
      using cycle_edges_close by blast
    from cycle_inv_found [OF "2.prems"(1) True ext refl] eq show ?thesis by simp
  next
    case False
    from "2.IH" [OF cycle_edges_open [OF False distinct_ref_keys [OF "2.prems"(2)]] refl
        cycle_inv_step [OF "2.prems"(1) False] "2.prems"(2)]
    show ?thesis by (simp add: cycle_edges_open [OF False distinct_ref_keys [OF "2.prems"(2)]])
  qed
qed

lemma shortestCycle_correct:
  assumes "maps_distinct refs"
  shows "shortestCycle refs start = None \<Longrightarrow> (start, start) \<notin> (refs.edges refs)\<^sup>+"
    and "shortestCycle refs start = Some path \<Longrightarrow>
      is_cycle refs start path \<and> (\<forall>other. is_cycle refs start other \<longrightarrow> length path \<le> length other)"
  using cycle_search_correct [OF cycle_inv_start assms, of start] by (simp_all add: shortestCycle_def)

section \<open>The references between packages\<close>

definition names_package :: "Project \<Rightarrow> string \<Rightarrow> string \<Rightarrow> bool" where
  "names_package p a b \<longleftrightarrow>
     a \<noteq> b \<and> Packages p b \<noteq> None
     \<and> (\<exists>pkg. Packages p a = Some pkg \<and> (\<exists>n \<in> set (decl_refs pkg). qualifier n = Some b))"

lemma dom_note_refs:
  "fst ` set (fold (note_ref p a) ns m) =
     fst ` set m \<union> {b. a \<noteq> b \<and> Packages p b \<noteq> None \<and> (\<exists>n \<in> set ns. qualifier n = Some b)}"
  by (induction ns arbitrary: m)
    (auto simp: note_ref_def dom_map_of_conv_image_fst [symmetric] domIff split: option.splits)

lemma distinct_note_refs:
  "distinct (map fst m) \<Longrightarrow> distinct (map fst (fold (note_ref p a) ns m))"
  by (induction ns arbitrary: m) (simp_all add: note_ref_def split: option.split)

lemma distinct_package_ref_table: "distinct (map fst (package_ref_table p a))"
  by (simp add: package_ref_table_def distinct_note_refs split: option.split)

lemma maps_distinct_packageRefs: "maps_distinct (packageRefs p)"
  by (auto simp: maps_distinct_def packageRefs_def list_all_iff distinct_package_ref_table)

lemma map_of_filter_map:
  "map_of (filter (\<lambda>(_, v). P v) (map (\<lambda>k. (k, f k)) ks)) a = (if a \<in> set ks \<and> P (f a) then Some (f a) else None)"
  by (induction ks) auto

lemma set_ref_keys: "set (ref_keys (packageRefs p) a) = {b. names_package p a b}"
proof -
  have "set (ref_keys (packageRefs p) a) =
      (if a \<in> set (PackageNames p) then fst ` set (package_ref_table p a) else {})"
    by (auto simp: ref_keys_def packageRefs_def map_of_filter_map)
  also have "\<dots> = {b. names_package p a b}"
  proof (cases "Packages p a")
    case None
    then have "a \<notin> set (PackageNames p)" by (simp add: PackageNames_def flip: map_of_eq_None_iff)
    with None show ?thesis by (simp add: names_package_def)
  next
    case (Some pkg)
    then have "a \<in> set (PackageNames p)"
      by (metis PackageNames_def option.distinct(1) sorted_keys_dom)
    with Some show ?thesis
      by (simp add: names_package_def package_ref_table_def dom_note_refs)
  qed
  finally show ?thesis .
qed

lemma package_edges: "refs.edges (packageRefs p) = {(a, b). names_package p a b}"
  by (simp add: refs.edges_def set_ref_keys)

section \<open>The packages check\<close>

lemma is_cycle_trancl:
  assumes "is_cycle refs start path" and "x \<in> set path"
  shows "(x, x) \<in> (refs.edges refs)\<^sup>+"
proof -
  let ?E = "refs.edges refs"
  obtain xs where path: "path = start # xs" and "xs \<noteq> []" and last: "last xs = start"
    using assms(1) by (cases path) (auto simp: is_cycle_def Suc_le_eq split: if_splits)
  have s: "successively (\<lambda>a b. b \<in> set (ref_keys refs a)) (start # xs)"
    using assms(1) path by (simp add: is_cycle_def)
  have loop: "(start, start) \<in> ?E\<^sup>+"
    using successively_relpow [OF s] \<open>xs \<noteq> []\<close> last relpow_imp_rtrancl
    by (metis last_ConsR length_greater_0_conv trancl_power)
  obtain as bs where split: "start # xs = as @ x # bs"
    using assms(2) path by (metis split_list)
  have "(start, x) \<in> ?E\<^sup>*"
  proof (cases as)
    case (Cons a as')
    with split s have "successively (\<lambda>a b. b \<in> set (ref_keys refs a)) (start # as' @ [x])"
      by (metis append.assoc append_Cons append_Nil list.inject successively_append_iff)
    from successively_relpow [OF this] have "(start, last (start # as' @ [x])) \<in> ?E\<^sup>*"
      by (rule relpow_imp_rtrancl)
    then show ?thesis by simp
  qed (use split in simp)
  moreover have "(x, start) \<in> ?E\<^sup>*"
  proof -
    have "successively (\<lambda>a b. b \<in> set (ref_keys refs a)) (x # bs)"
      using s unfolding split by (simp add: successively_append_iff)
    from successively_relpow [OF this] have "(x, last (x # bs)) \<in> ?E\<^sup>*" by (rule relpow_imp_rtrancl)
    moreover have "last (x # bs) = start" using split last \<open>xs \<noteq> []\<close> by (metis last_ConsR last_appendR list.distinct(1))
    ultimately show ?thesis by simp
  qed
  ultimately show ?thesis using loop by (meson rtrancl_trancl_trancl trancl_rtrancl_trancl)
qed

lemma cycle_paths_shortest:
  assumes "maps_distinct refs"
  shows "list_all (\<lambda>path. is_arg_min length (is_cycle refs (hd path)) path) (cycle_paths refs names reported)"
  using assms
proof (induction refs names reported rule: cycle_paths.induct)
  case (2 refs start names reported)
  then show ?case
    using shortestCycle_correct(2) [OF "2.prems", of start]
    by (auto simp: is_arg_min_def is_cycle_def not_less split: option.split)
qed simp

lemma cycle_paths_cover:
  assumes "maps_distinct refs" and "x \<in> set names" and "(x, x) \<in> (refs.edges refs)\<^sup>+"
  shows "x \<in> reported \<or> (\<exists>path \<in> set (cycle_paths refs names reported). x \<in> set path)"
  using assms
proof (induction refs names reported rule: cycle_paths.induct)
  case (2 refs start names reported)
  show ?case
  proof (cases "start \<in> reported")
    case True
    with 2 show ?thesis by auto
  next
    case False
    show ?thesis
    proof (cases "shortestCycle refs start")
      case None
      with shortestCycle_correct(1) [OF "2.prems"(1)] "2.prems"(3) have "x \<noteq> start" by blast
      with 2 False None show ?thesis by auto
    next
      case (Some path)
      then have "start \<in> set path"
        using shortestCycle_correct(2) [OF "2.prems"(1), of start path] by (cases path) (auto simp: is_cycle_def)
      with 2 False Some show ?thesis by auto
    qed
  qed
qed simp

lemma names_package_packages: "(x, y) \<in> {(a, b). names_package p a b}\<^sup>+ \<Longrightarrow> x \<in> set (PackageNames p)"
  unfolding PackageNames_def sorted_keys_dom by (auto simp: names_package_def dest!: tranclD)

lemma cycle_paths_union:
  "(\<Union>path \<in> set (cycle_paths (packageRefs p) (PackageNames p) {}). set path)
     = {x. (x, x) \<in> {(a, b). names_package p a b}\<^sup>+}"
proof -
  let ?paths = "cycle_paths (packageRefs p) (PackageNames p) {}"
  have "list_all (\<lambda>path. is_arg_min length (is_cycle (packageRefs p) (hd path)) path) ?paths"
    by (rule cycle_paths_shortest [OF maps_distinct_packageRefs])
  then have "(x, x) \<in> {(a, b). names_package p a b}\<^sup>+" if "path \<in> set ?paths" "x \<in> set path" for x path
    using is_cycle_trancl [of "packageRefs p" "hd path" path x] that
    by (auto simp: list_all_iff is_arg_min_def package_edges)
  moreover have "\<exists>path \<in> set ?paths. x \<in> set path" if "(x, x) \<in> {(a, b). names_package p a b}\<^sup>+" for x
    using cycle_paths_cover [OF maps_distinct_packageRefs names_package_packages [OF that]] that
    by (auto simp: package_edges)
  ultimately show ?thesis by blast
qed

lemma package_cycles_silent: "checkPackageCycles p = [] \<longleftrightarrow> acyclic {(a, b). names_package p a b}"
proof -
  let ?paths = "cycle_paths (packageRefs p) (PackageNames p) {}"
  have nonempty: "set path \<noteq> {}" if "path \<in> set ?paths" for path
    using cycle_paths_shortest [OF maps_distinct_packageRefs, of p "PackageNames p" "{}"] that
    by (fastforce simp: list_all_iff is_arg_min_def is_cycle_def)
  have "checkPackageCycles p = [] \<longleftrightarrow> ?paths = []" by (simp add: checkPackageCycles_def Let_def)
  also have "\<dots> \<longleftrightarrow> (\<Union>path \<in> set ?paths. set path) = {}" using nonempty by auto
  also have "\<dots> \<longleftrightarrow> acyclic {(a, b). names_package p a b}"
    by (auto simp: cycle_paths_union acyclic_def)
  finally show ?thesis .
qed

text \<open>
  C9. The package-cycle check reports nothing exactly when the packages' type and error
  declarations reference each other without a cycle: then, and only then, the generated Go
  packages can import each other.
\<close>

theorem package_cycles_iff: "checkPackageCycles p = [] \<longleftrightarrow> acyclic {(a, b). names_package p a b}"
  by (rule package_cycles_silent)

text \<open>
  C10. The cycles the check reports hold exactly the packages that lie on a cycle, and each is
  as short as any cycle through the package it starts at: the breadth-first search finds a
  shortest one.
\<close>

theorem reported_cycles_shortest:
  "(\<Union>path \<in> set (cycle_paths (packageRefs p) (PackageNames p) {}). set path)
      = {x. (x, x) \<in> {(a, b). names_package p a b}\<^sup>+}
   \<and> list_all (\<lambda>path. is_arg_min length (is_cycle (packageRefs p) (hd path)) path)
       (cycle_paths (packageRefs p) (PackageNames p) {})"
  by (intro conjI cycle_paths_union cycle_paths_shortest maps_distinct_packageRefs)

end
