(* ===== verification/Instances.thy ===== *)
theory Instances
  imports Cycles_Spec Flatten_Spec
begin

text \<open>
  Why the instantiation-cycle check is enough. An instance of a generic type needs the instances
  its body names, with the type's parameters replaced; \<open>instance_step\<close> is that relation, over the
  substitution and requalification of \<^verbatim>\<open>flatten.go\<close>. Where no flow of a type parameter grows on a
  cycle, an instance needs only finitely many others: every walk through them that marks what
  it has seen ends, as do the generated Go types and OpenAPI components.

  The proof ranks a parameter slot by the number of growing flows that lead to it. A flow never
  lowers the rank and a growing one raises it, so the arguments a slot can receive are built in
  as many rounds of substitution as its rank.
\<close>

section \<open>Substitution reads the parameters a type mentions\<close>

definition plain_subst :: "subst \<Rightarrow> bool" where
  "plain_subst s \<longleftrightarrow> (\<forall>k \<in> dom (map_of s). k \<noteq> [] \<and> CHR ''.'' \<notin> set k)"

lemma ident_text_plain:
  assumes "ident_text q = k" and "k \<noteq> []" and "CHR ''.'' \<notin> set k"
  shows "\<exists>q'. q = Some q' \<and> qi_Parts q' = [k]"
proof -
  from assms obtain q' where q': "q = Some q'" "Join (qi_Parts q') ''.'' = k"
    by (cases q) (auto simp: ident_text_def QualifiedIdent_String_def)
  have "CHR ''.'' \<in> set (Join (a # b # xs) ''.'')" for a b xs by simp
  with q' assms show ?thesis by (cases "qi_Parts q'"; cases "tl (qi_Parts q')") auto
qed

lemma mentions_named:
  "mentionsTypeParam (Some (TypeRef p None (Some (NamedTypeRef np q args)) arr opt d)) k \<longleftrightarrow>
     (\<exists>a \<in> set args. mentionsTypeParam a k) \<or> (\<exists>q'. q = Some q' \<and> qi_Parts q' = [k])"
  by (auto simp: mentionsTypeParam_def list_ex_iff names_param_def split: option.splits)

lemma mentions_map:
  "mentionsTypeParam (Some (TypeRef p (Some (MapType mp a b)) n arr opt d)) k \<longleftrightarrow>
     mentionsTypeParam a k \<or> mentionsTypeParam b k"
  by (simp add: mentionsTypeParam_def)

lemma SubstituteTypeRef_cong:
  assumes "plain_subst s" and "plain_subst s'"
    and "\<And>k. mentionsTypeParam t k \<Longrightarrow> map_of s k = map_of s' k"
  shows "SubstituteTypeRef s t = SubstituteTypeRef s' t"
  using assms
proof (induction s t rule: SubstituteTypeRef.induct)
  case (2 s p mp a b n arr opt d)
  then show ?case by (simp add: mentions_map)
next
  case (3 s p np q args arr opt d)
  let ?k = "ident_text q"
  have "map_of s ?k = map_of s' ?k"
  proof (cases "map_of s ?k = None \<and> map_of s' ?k = None")
    case False
    with 3 have "?k \<noteq> []" "CHR ''.'' \<notin> set ?k" by (auto simp: plain_subst_def)
    then have "\<exists>q'. q = Some q' \<and> qi_Parts q' = [?k]" by (rule ident_text_plain [OF refl])
    with 3 show ?thesis by (simp add: mentions_named)
  qed simp
  moreover have "SubstituteTypeRef s a = SubstituteTypeRef s' a" if "map_of s ?k = None" "a \<in> set args" for a
    using 3 that by (auto simp: mentions_named)
  ultimately show ?case by (auto split: option.split)
qed simp_all

lemma SubstituteTypeRef_filter:
  assumes "plain_subst s"
  shows "SubstituteTypeRef s t = SubstituteTypeRef (filter (\<lambda>(k, _). mentionsTypeParam t k) s) t"
proof (rule SubstituteTypeRef_cong [OF assms])
  have f: "map_of (filter (\<lambda>(k, _). P k) m) k = (if P k then map_of m k else None)" for P k and m :: subst
    by (induction m) auto
  show "plain_subst (filter (\<lambda>(k, _). mentionsTypeParam t k) s)"
    using assms by (auto simp: plain_subst_def f split: if_splits)
  show "mentionsTypeParam t k \<Longrightarrow> map_of s k = map_of (filter (\<lambda>(k, _). mentionsTypeParam t k) s) k" for k
    by (simp add: f)
qed

lemma requalify_mentions:
  assumes "k \<in> set tps"
  shows "mentionsTypeParam (requalify p t home view tps) k = mentionsTypeParam t k"
proof -
  have "mentionsTypeParam (requalify_in pkg home tps t) k = mentionsTypeParam t k" for pkg
    using assms
  proof (induction pkg home tps t rule: requalify_in.induct)
    case (3 pkg home tps p np q args arr opt d)
    then show ?case by (auto simp: mentions_named requalify_name_def qualifies_def)
  qed (auto simp: mentions_map)
  then show ?thesis by (simp add: requalify_def split: option.split)
qed

lemma SubstMap_entries:
  assumes "distinct ps"
  shows "SubstMap ps args = zip ps args"
proof -
  have "fold (\<lambda>(p, a) m. AList.update p a m) (zip ps args) m = m @ zip ps args"
    if "distinct ps" "set ps \<inter> fst ` set m = {}" for ps m and args :: "type_ref option list"
    using that
  proof (induction ps args arbitrary: m rule: list_induct2')
    case (4 p ps a args)
    then have "p \<notin> fst ` set m" by auto
    then have "AList.update p a m = m @ [(p, a)]" by (induction m) auto
    moreover have "set ps \<inter> fst ` set (m @ [(p, a)]) = {}" using 4 by auto
    ultimately show ?case using 4 by simp
  qed simp_all
  from this [OF assms, of "[]" args] show ?thesis by (simp add: SubstMap_def)
qed

section \<open>Instances\<close>

type_synonym type_instance = "(string \<times> string) \<times> type_ref option list"

definition ref_target :: "Project \<Rightarrow> string \<Rightarrow> named_type_ref \<Rightarrow> (string \<times> string) option" where
  "ref_target p home n =
     (case resolve (Some p) home (nt_Name n) of
        (None, _) \<Rightarrow> None
      | (Some pkg, symb) \<Rightarrow> if Types pkg symb = None then None else Some (p_Name pkg, symb))"

definition instance_arg :: "Project \<Rightarrow> string \<Rightarrow> string \<Rightarrow> string list \<Rightarrow> type_ref option list \<Rightarrow> type_ref option \<Rightarrow> type_ref option" where
  "instance_arg p view home tps args a = SubstituteTypeRef (SubstMap tps args) (requalify (Some p) a home view tps)"

inductive instance_step :: "Project \<Rightarrow> string \<Rightarrow> type_instance \<Rightarrow> type_instance \<Rightarrow> bool" for p view where
  step: "type_at p t = Some td \<Longrightarrow> (n, tps, mx) \<in> set (walkTypeRefs (D_Type td)) \<Longrightarrow> ref_target p (fst t) n = Some u \<Longrightarrow>
     instance_step p view (t, args) (u, map (instance_arg p view (fst t) (td_TypeParams td) args) (nt_Args n))"

inductive_cases instance_stepE: "instance_step p view (t, args) (u, args')"

definition type_params :: "Project \<Rightarrow> string \<times> string \<Rightarrow> string list" where
  "type_params p t = (case type_at p t of None \<Rightarrow> [] | Some td \<Rightarrow> td_TypeParams td)"

definition sites :: "Project \<Rightarrow> string \<times> string \<Rightarrow> named_type_ref set" where
  "sites p t = (case type_at p t of None \<Rightarrow> {} | Some td \<Rightarrow> fst ` set (walkTypeRefs (D_Type td)))"

lemma finite_sites [simp]: "finite (sites p t)"
  by (simp add: sites_def split: option.split)

lemma ref_target_declared:
  assumes "project_wf p" and "ref_target p home n = Some u"
  shows "u \<in> declared p"
proof -
  from assms(2) obtain pkg symb where r: "resolve (Some p) home (nt_Name n) = (Some pkg, symb)"
    and u: "u = (p_Name pkg, symb)" and t: "Types pkg symb \<noteq> None"
    by (auto simp: ref_target_def split: prod.splits option.splits if_splits)
  from r obtain b where "Packages p b = Some pkg"
    by (auto simp: resolve_def split: option.splits list.splits if_splits)
  with project_wfD(1) [OF assms(1)] u t show ?thesis by (auto simp: declared_def type_at_def)
qed

section \<open>Ranks\<close>

definition slot_of :: "string \<times> string \<Rightarrow> nat \<Rightarrow> typeParamSlot" where
  "slot_of t i = \<lparr>slot_pkg = fst t, slot_typ = snd t, slot_index = i\<rparr>"

definition rank :: "Project \<Rightarrow> typeParamSlot \<Rightarrow> nat" where
  "rank p s = card {f \<in> set (paramFlows p). pf_grows f \<and> (pf_to f, s) \<in> (flow_edges p)\<^sup>*}"

lemma rank_le: "rank p s \<le> card (set (paramFlows p))"
  unfolding rank_def by (rule card_mono) auto

lemma rank_flow:
  assumes "f \<in> set (paramFlows p)"
  shows "rank p (pf_from f) \<le> rank p (pf_to f)"
proof -
  have "(pf_from f, pf_to f) \<in> flow_edges p" using assms by (force simp: flow_edges_def)
  then show ?thesis unfolding rank_def by (intro card_mono) (auto intro: rtrancl_into_rtrancl)
qed

lemma rank_grow:
  assumes "f \<in> set (paramFlows p)" and "pf_grows f" and none: "endlessParamFlows p = []"
  shows "rank p (pf_from f) < rank p (pf_to f)"
proof -
  let ?R = "\<lambda>s. {g \<in> set (paramFlows p). pf_grows g \<and> (pf_to g, s) \<in> (flow_edges p)\<^sup>*}"
  have edge: "(pf_from f, pf_to f) \<in> flow_edges p" using assms by (force simp: flow_edges_def)
  have "(pf_to f, pf_from f) \<notin> (flow_edges p)\<^sup>*" using endless_iff [of f p] assms by auto
  then have "f \<in> ?R (pf_to f) - ?R (pf_from f)" using assms by simp
  moreover have "?R (pf_from f) \<subseteq> ?R (pf_to f)" using edge by (auto intro: rtrancl_into_rtrancl)
  ultimately show ?thesis unfolding rank_def by (intro psubset_card_mono) auto
qed

lemma paramFlows_intro:
  assumes "Packages p a = Some pkg" and "Types pkg name = Some host" and "f \<in> set (host_flows p a name host)"
  shows "f \<in> set (paramFlows p)"
proof -
  have "a \<in> set (PackageNames p)" "name \<in> set (sorted_keys (p_Types pkg))"
    using assms(1,2) unfolding PackageNames_def sorted_keys_dom by auto
  then have "f \<in> set (concat (map (\<lambda>name. case Types pkg name of None \<Rightarrow> [] | Some host \<Rightarrow> host_flows p a name host)
      (sorted_keys (p_Types pkg))))" (is "f \<in> set ?flows")
    using assms(2,3) by (force simp del: set_sorted_keys)
  then have "f \<in> set (case Packages p a of None \<Rightarrow> [] | Some pkg \<Rightarrow> concat (map (\<lambda>name. case Types pkg name of
      None \<Rightarrow> [] | Some host \<Rightarrow> host_flows p a name host) (sorted_keys (p_Types pkg))))"
    using assms(1) by simp
  with \<open>a \<in> set (PackageNames p)\<close> show ?thesis unfolding paramFlows_def by (simp only: set_concat set_map) blast
qed

lemma in_set_map_filter: "x \<in> set (List.map_filter f ys) \<longleftrightarrow> (\<exists>y \<in> set ys. f y = Some x)"
  by (induction ys) (auto simp: List.map_filter_def)

lemma site_flow:
  assumes p: "project_wf p" and t: "type_at p t = Some td" and n: "n \<in> sites p t" and u: "ref_target p (fst t) n = Some u"
    and i: "i < length (nt_Args n)" "i < length (type_params p u)"
    and j: "j < length (td_TypeParams td)" "mentionsTypeParam (nt_Args n ! i) (td_TypeParams td ! j)"
  shows "\<exists>f \<in> set (paramFlows p). pf_from f = slot_of t j \<and> pf_to f = slot_of u i
    \<and> pf_grows f = arg_grows (nt_Args n ! i) (td_TypeParams td ! j)"
proof -
  from t obtain pkg where pkg: "Packages p (fst t) = Some pkg" "Types pkg (snd t) = Some td"
    by (auto simp: type_at_def bind_eq_Some_conv)
  from u obtain tp symb where r: "resolve (Some p) (fst t) (nt_Name n) = (Some tp, symb)"
    and u': "u = (p_Name tp, symb)" and "Types tp symb \<noteq> None"
    by (auto simp: ref_target_def split: prod.splits option.splits if_splits)
  then obtain ud where ud: "Types tp symb = Some ud" by auto
  from r obtain b where "Packages p b = Some tp" by (auto simp: resolve_def split: option.splits list.splits if_splits)
  with project_wfD(1) [OF p] ud u' have "type_params p u = td_TypeParams ud" by (auto simp: type_params_def type_at_def)
  with i have i': "i < min (length (nt_Args n)) (length (td_TypeParams ud))" by simp
  let ?f = "\<lparr>pf_host = td, pf_site = n, pf_param = td_TypeParams td ! j,
    pf_from = \<lparr>slot_pkg = fst t, slot_typ = snd t, slot_index = j\<rparr>,
    pf_to = \<lparr>slot_pkg = p_Name tp, slot_typ = symb, slot_index = i\<rparr>,
    pf_grows = arg_grows (nt_Args n ! i) (td_TypeParams td ! j)\<rparr>"
  have "(i, nt_Args n ! i) \<in> set (List.enumerate 0 (take (min (length (nt_Args n)) (length (td_TypeParams ud))) (nt_Args n)))"
    using i' by (simp add: in_set_enumerate_eq)
  moreover have "(j, td_TypeParams td ! j) \<in> set (List.enumerate 0 (td_TypeParams td))"
    using j(1) by (simp add: in_set_enumerate_eq)
  ultimately have "?f \<in> set (site_flows p (fst t) (snd t) td n)"
    using j(2) unfolding site_flows_def r
    by (auto simp: ud in_set_map_filter intro!: bexI [of _ "(i, nt_Args n ! i)"] bexI [of _ "(j, td_TypeParams td ! j)"])
  moreover have "td_TypeParams td \<noteq> []" using j(1) by auto
  ultimately have "?f \<in> set (host_flows p (fst t) (snd t) td)"
    using n t by (force simp: host_flows_def sites_def)
  with pkg have "?f \<in> set (paramFlows p)" by (rule paramFlows_intro)
  then show ?thesis by (rule bexI [rotated]) (simp add: slot_of_def u')
qed

section \<open>Rounds of substitution\<close>

definition patterns :: "Project \<Rightarrow> string \<Rightarrow> type_ref option set" where
  "patterns p view =
     (\<Union>t \<in> declared p. \<Union>n \<in> sites p t. (\<lambda>a. requalify (Some p) a (fst t) view (type_params p t)) ` set (nt_Args n))"

definition substs :: "Project \<Rightarrow> type_ref option set \<Rightarrow> subst set" where
  "substs p X = (\<Union>t \<in> declared p. {s. set s \<subseteq> set (type_params p t) \<times> X \<and> length s \<le> length (type_params p t)})"

definition round :: "Project \<Rightarrow> string \<Rightarrow> type_ref option set \<Rightarrow> type_ref option set" where
  "round p view X = X \<union> (\<Union>t \<in> patterns p view. (\<lambda>s. SubstituteTypeRef s t) ` substs p X)"

definition rounds :: "Project \<Rightarrow> string \<Rightarrow> type_ref option set \<Rightarrow> nat \<Rightarrow> type_ref option set" where
  "rounds p view B k = (round p view ^^ k) (B \<union> SubstituteTypeRef [] ` patterns p view)"

lemma finite_patterns: "finite (patterns p view)"
  by (simp add: patterns_def)

lemma finite_substs: "finite X \<Longrightarrow> finite (substs p X)"
  by (simp add: substs_def finite_lists_length_le)

lemma finite_rounds: "finite B \<Longrightarrow> finite (rounds p view B k)"
  by (induction k) (simp_all add: rounds_def round_def finite_patterns finite_substs)

lemma rounds_mono: "k \<le> l \<Longrightarrow> rounds p view B k \<subseteq> rounds p view B l"
  by (induction l rule: nat_induct_at_least [consumes 1]) (auto simp: rounds_def round_def)

lemma rounds_base: "B \<subseteq> rounds p view B k" "SubstituteTypeRef [] ` patterns p view \<subseteq> rounds p view B k"
  using rounds_mono [of 0 k p view B] by (auto simp: rounds_def)

lemma rounds_Suc:
  "pat \<in> patterns p view \<Longrightarrow> s \<in> substs p (rounds p view B k) \<Longrightarrow> SubstituteTypeRef s pat \<in> rounds p view B (Suc k)"
  by (auto simp: rounds_def round_def)

lemma add_suffixes_none: "add_suffixes False False d = id"
  by (auto simp: add_suffixes_def fun_eq_iff split: type_ref.split)

text \<open>An argument that is the parameter itself receives the parameter's own argument.\<close>

lemma substitute_param:
  assumes "\<not> arg_grows a k" and "mentionsTypeParam a k" and "k \<in> set tps" and "map_of s k = Some v"
  shows "SubstituteTypeRef s (requalify p a home view tps) = v"
proof -
  from assms(1,2) obtain ps np q args d where a: "a = Some (TypeRef ps None (Some (NamedTypeRef np (Some q) args)) False False d)"
    and q: "qi_Parts q = [k]"
  proof (cases a)
    case (Some t)
    with assms that show thesis
      by (cases t; cases "tr_Named t"; cases "the (tr_Named t)")
        (auto simp: arg_grows_def typeParamNamed_def split: option.splits list.splits)
  qed (simp add: mentionsTypeParam_def)
  have "\<exists>args'. requalify p a home view tps = Some (TypeRef ps None (Some (NamedTypeRef np (Some q) args')) False False d)"
    using assms(3) q by (auto simp: requalify_def a requalify_name_def qualifies_def split: option.split)
  then show ?thesis
    using assms(4) q by (auto simp: ident_text_def QualifiedIdent_String_def add_suffixes_none option.map_id)
qed

section \<open>Finitely many instances\<close>

definition bounded_instance :: "Project \<Rightarrow> string \<Rightarrow> type_ref option set \<Rightarrow> type_instance \<Rightarrow> bool" where
  "bounded_instance p view B inst \<longleftrightarrow>
     (\<forall>i < length (snd inst). i < length (type_params p (fst inst)) \<longrightarrow>
        snd inst ! i \<in> rounds p view B (rank p (slot_of (fst inst) i)))"

lemma instance_arg_bounded:
  assumes p: "project_wf p" and none: "endlessParamFlows p = []" and inst: "bounded_instance p view B (t, args)"
    and t: "type_at p t = Some td" and n: "n \<in> sites p t" and u: "ref_target p (fst t) n = Some u" and i: "i < length (nt_Args n)"
  defines "v \<equiv> instance_arg p view (fst t) (td_TypeParams td) args (nt_Args n ! i)"
  shows "v \<in> rounds p view B (Suc (card (set (paramFlows p))))"
    and "i < length (type_params p u) \<Longrightarrow> v \<in> rounds p view B (rank p (slot_of u i))"
proof -
  let ?tps = "td_TypeParams td" and ?a = "nt_Args n ! i"
  let ?pat = "requalify (Some p) ?a (fst t) view ?tps"
  let ?s = "filter (\<lambda>(k, _). mentionsTypeParam ?pat k) (zip ?tps args)"
  have tp: "type_params p t = ?tps" and td: "t \<in> declared p" using t by (simp_all add: type_params_def declared_def)
  from t obtain pkg where "Packages p (fst t) = Some pkg" "Types pkg (snd t) = Some td"
    by (auto simp: type_at_def bind_eq_Some_conv)
  then have "distinct ?tps" and ident: "list_all IsIdent ?tps" using project_wfD(2) [OF p] by fastforce+
  then have map: "SubstMap ?tps args = zip ?tps args" by (simp add: SubstMap_entries)
  have "plain_subst (zip ?tps args)"
    unfolding plain_subst_def
    using ident by (auto simp: list_all_iff IsIdent_bytes IsIdent_plain dest!: map_of_SomeD set_zip_leftD)
  from SubstituteTypeRef_filter [OF this] have v: "v = SubstituteTypeRef ?s ?pat" by (simp add: v_def instance_arg_def map)
  have pat: "?pat \<in> patterns p view" using td n i tp unfolding patterns_def by force
  have entry: "\<exists>j < length ?tps. j < length args \<and> k = ?tps ! j \<and> r = args ! j \<and> mentionsTypeParam ?a k" if "(k, r) \<in> set ?s" for k r
    using that by (auto simp: in_set_zip requalify_mentions)
  have substs: "?s \<in> substs p X" if "\<And>j. j < length ?tps \<Longrightarrow> j < length args \<Longrightarrow> mentionsTypeParam ?a (?tps ! j) \<Longrightarrow> args ! j \<in> X" for X
    unfolding substs_def
  proof (intro UN_I [OF td] CollectI conjI)
    show "set ?s \<subseteq> set (type_params p t) \<times> X" using entry that tp by fastforce
    show "length ?s \<le> length (type_params p t)" using length_filter_le [of _ "zip ?tps args"] tp by (metis length_zip min.bounded_iff)
  qed
  have val: "args ! j \<in> rounds p view B (rank p (slot_of t j))" if "j < length ?tps" "j < length args" for j
    using inst that tp by (simp add: bounded_instance_def)
  show "v \<in> rounds p view B (Suc (card (set (paramFlows p))))"
    unfolding v using val rounds_mono [OF rank_le] by (intro rounds_Suc [OF pat] substs) blast
  assume iu: "i < length (type_params p u)"
  note flow = site_flow [OF p t n u i iu]
  show "v \<in> rounds p view B (rank p (slot_of u i))"
  proof (cases "\<exists>j < length ?tps. j < length args \<and> mentionsTypeParam ?a (?tps ! j) \<and> \<not> arg_grows ?a (?tps ! j)")
    case True
    then obtain j where j: "j < length ?tps" "j < length args" "mentionsTypeParam ?a (?tps ! j)" "\<not> arg_grows ?a (?tps ! j)" by blast
    have "map_of (zip ?tps args) (?tps ! j) = Some (args ! j)"
      using \<open>distinct ?tps\<close> j by (intro map_of_is_SomeI) (auto simp: in_set_zip map_fst_zip_take)
    then have "v = args ! j" unfolding v_def instance_arg_def map
      using j by (intro substitute_param [OF j(4,3)]) auto
    moreover have "rank p (slot_of t j) \<le> rank p (slot_of u i)" using flow [OF j(1,3)] rank_flow by fastforce
    ultimately show ?thesis using val [OF j(1,2)] rounds_mono by blast
  next
    case False
    then have less: "rank p (slot_of t j) < rank p (slot_of u i)"
      if "j < length ?tps" "j < length args" "mentionsTypeParam ?a (?tps ! j)" for j
      using flow [OF that(1,3)] rank_grow [OF _ _ none] that by fastforce
    show ?thesis
    proof (cases "rank p (slot_of u i)")
      case 0
      then have "?s = []" using less entry by (metis (no_types, lifting) last_in_set not_less0 surj_pair)
      then have "v = SubstituteTypeRef [] ?pat" unfolding v by simp
      then show ?thesis using pat rounds_base(2) by blast
    next
      case (Suc k)
      with less val rounds_mono have "args ! j \<in> rounds p view B k"
        if "j < length ?tps" "j < length args" "mentionsTypeParam ?a (?tps ! j)" for j
        using that by (metis less_Suc_eq_le subsetD)
      then show ?thesis unfolding v Suc by (intro rounds_Suc [OF pat] substs) blast
    qed
  qed
qed

definition within_rounds :: "Project \<Rightarrow> string \<Rightarrow> type_instance \<Rightarrow> type_instance set" where
  "within_rounds p view inst =
     insert inst (declared p \<times> (\<Union>t \<in> declared p. \<Union>n \<in> sites p t.
       {as. set as \<subseteq> rounds p view (set (snd inst)) (Suc (card (set (paramFlows p)))) \<and> length as = length (nt_Args n)}))"

lemma finite_within_rounds: "finite (within_rounds p view inst)"
  by (simp add: within_rounds_def finite_lists_length_eq finite_rounds)

lemma instance_step_bounded:
  assumes p: "project_wf p" and none: "endlessParamFlows p = []"
    and inst: "bounded_instance p view (set (snd i0)) i" and step: "instance_step p view i j"
  shows "bounded_instance p view (set (snd i0)) j \<and> j \<in> within_rounds p view i0"
proof -
  obtain t args u args' where ij: "i = (t, args)" "j = (u, args')" by (cases i; cases j)
  from step [unfolded ij] obtain td n tps mx where t: "type_at p t = Some td"
    and n: "(n, tps, mx) \<in> set (walkTypeRefs (D_Type td))" and u: "ref_target p (fst t) n = Some u"
    and args': "args' = map (instance_arg p view (fst t) (td_TypeParams td) args) (nt_Args n)"
    by (rule instance_stepE)
  have n': "n \<in> sites p t" using n t by (force simp: sites_def)
  note b = instance_arg_bounded [OF p none inst [unfolded ij] t n' u]
  have td: "t \<in> declared p" using t by (simp add: declared_def)
  have "set args' \<subseteq> rounds p view (set (snd i0)) (Suc (card (set (paramFlows p))))"
    using b(1) by (auto simp: args' in_set_conv_nth)
  then have "j \<in> within_rounds p view i0"
    using ref_target_declared [OF p u] td n' by (auto simp: within_rounds_def ij args')
  moreover have "bounded_instance p view (set (snd i0)) j" using b(2) by (simp add: bounded_instance_def ij args')
  ultimately show ?thesis by simp
qed

lemma instances_finite_wf:
  assumes p: "project_wf p" and none: "endlessParamFlows p = []"
  shows "finite {j. (instance_step p view)\<^sup>*\<^sup>* i j}"
proof (rule finite_subset [OF _ finite_within_rounds])
  have start: "bounded_instance p view (set (snd i)) i"
    using rounds_base(1) [of "set (snd i)" p view] unfolding bounded_instance_def by (meson nth_mem subsetD)
  have "bounded_instance p view (set (snd i)) j \<and> j \<in> within_rounds p view i" if "(instance_step p view)\<^sup>*\<^sup>* i j" for j
    using that
  proof induction
    case base
    with start show ?case by (simp add: within_rounds_def)
  next
    case (step j k)
    then show ?case using instance_step_bounded [OF p none] by blast
  qed
  then show "{j. (instance_step p view)\<^sup>*\<^sup>* i j} \<subseteq> within_rounds p view i" by blast
qed

lemma endless_packages:
  assumes "pr_Packages p = pr_Packages p'" and "pr_typeParams p = pr_typeParams p'"
  shows "endlessParamFlows p = endlessParamFlows p'"
proof -
  have resolves: "resolve (Some p) = resolve (Some p')"
    using assms by (simp add: resolve_def namesTypeParam_def fun_eq_iff split: option.split list.split)
  have "site_flows p = site_flows p'"
    by (simp add: site_flows_def resolves fun_eq_iff)
  then have "host_flows p = host_flows p'"
    by (simp add: host_flows_def fun_eq_iff)
  then have "paramFlows p = paramFlows p'"
    by (simp add: paramFlows_def PackageNames_def assms(1) cong: option.case_cong)
  then show ?thesis by (simp add: endlessParamFlows_def)
qed

lemma instances_bounded:
  assumes "list_all (\<lambda>f. list_all decl_wf (f_Decls f)) files"
    and "checkInstantiationCycles (build_project base files) = []"
  shows "finite {j. (instance_step (build_project base files) view)\<^sup>*\<^sup>* i j}"
proof (rule instances_finite_wf [OF build_project_wf [OF assms(1)]])
  have "pr_endlessFlows (build_project base files) = []"
    using assms(2) by (cases "pr_endlessFlows (build_project base files)") (auto simp: checkInstantiationCycles_def)
  moreover have "endlessParamFlows (build_project base files) = pr_endlessFlows (build_project base files)"
    by (simp add: build_project_def Let_def) (rule endless_packages; simp)
  ultimately show "endlessParamFlows (build_project base files) = []" by simp
qed

text \<open>
  C8. Where the instantiation-cycle check finds no flow that grows on a cycle, every instance of
  a generic type needs only finitely many instances, itself and those it reaches through the
  bodies of the types, whatever arguments it starts from.
\<close>

theorem instances_finite:
  assumes "list_all (\<lambda>f. list_all decl_wf (f_Decls f)) files"
    and "checkInstantiationCycles (build_project base files) = []"
  shows "finite {j. (instance_step (build_project base files) view)\<^sup>*\<^sup>* i j}"
  by (rule instances_bounded [OF assms])

text \<open>A generic tree, which passes its parameter on unchanged.\<close>

definition demo_tree :: "TypeDecl" where
  "demo_tree =
     (let ident = (\<lambda>name. Some \<lparr>qi_Pos = zero_Position, qi_Parts = [name]\<rparr>);
          param = Some (TypeRef zero_Position None (Some (NamedTypeRef zero_Position (ident ''T'') [])) False False 0);
          kids = Some (TypeRef zero_Position None (Some (NamedTypeRef zero_Position (ident ''Tree'') [param])) True False 1)
      in (demo_type ''Tree'' [TM_Field \<lparr>fd_Pos = zero_Position, fd_Doc = [], fd_Name = ''kids'', fd_Type = kids, fd_Decorators = []\<rparr>])
           \<lparr>td_TypeParams := [''T'']\<rparr>)"

theorem instances_finite_witness:
  "finite {j. (instance_step (build_project [] [demo_file ''shop'' [D_Type demo_tree]]) ''shop'')\<^sup>*\<^sup>* ((''shop'', ''Tree''), []) j}"
proof (rule instances_finite)
  have "IsIdent ''Tree''" "IsIdent ''T''" by code_simp+
  then show "list_all (\<lambda>f. list_all decl_wf (f_Decls f)) [demo_file ''shop'' [D_Type demo_tree]]"
    by (simp add: demo_file_def demo_tree_def demo_type_def name_ok_def Let_def)
  show "checkInstantiationCycles (build_project [] [demo_file ''shop'' [D_Type demo_tree]]) = []" by code_simp
qed

end
