(* ===== verification/Wire.thy ===== *)
theory Wire
  imports Ast Strconv
begin

text \<open>
  Where the value of a field rides and under which name: \<^verbatim>\<open>internal/wire/wire.go\<close> and
  \<^verbatim>\<open>cookie.go\<close>. A nil field is \<open>None\<close>; the second result of a Go function is the second
  component here. The verb of a method is a keyword of the lexer, so \<open>strings.EqualFold\<close> with
  \<open>post\<close> compares lower case.
\<close>

section \<open>Bindings\<close>

definition BindingPath :: string where "BindingPath = ''path''"
definition BindingQuery :: string where "BindingQuery = ''query''"
definition BindingHeader :: string where "BindingHeader = ''header''"
definition BindingCookie :: string where "BindingCookie = ''cookie''"
definition BindingForm :: string where "BindingForm = ''form''"
definition BindingBody :: string where "BindingBody = ''body''"
definition DecoratorJSON :: string where "DecoratorJSON = ''json''"

lemmas binding_names = BindingPath_def BindingQuery_def BindingHeader_def BindingCookie_def
  BindingForm_def BindingBody_def DecoratorJSON_def

datatype Binding = BindBody | BindPath | BindQuery | BindHeader | BindCookie | BindForm | BindSensitive

fun Binding_String :: "Binding \<Rightarrow> string" where
  "Binding_String BindPath = BindingPath"
| "Binding_String BindQuery = BindingQuery"
| "Binding_String BindHeader = BindingHeader"
| "Binding_String BindCookie = BindingCookie"
| "Binding_String BindForm = BindingForm"
| "Binding_String BindSensitive = ''sensitive''"
| "Binding_String BindBody = BindingBody"

definition IsParam :: "Binding \<Rightarrow> bool" where
  "IsParam b \<longleftrightarrow> b \<in> {BindPath, BindQuery, BindHeader, BindCookie, BindForm}"

definition bindingNamed :: "string \<Rightarrow> Binding \<times> bool" where
  "bindingNamed name =
     (case find (\<lambda>b. Binding_String b = name) [BindPath, BindQuery, BindHeader, BindCookie, BindBody, BindForm] of
        Some b \<Rightarrow> (b, True)
      | None \<Rightarrow> (BindBody, False))"

definition CanonicalWireName :: "Binding \<Rightarrow> string \<Rightarrow> string" where
  "CanonicalWireName b name = (if b = BindHeader then ToLower name else name)"

definition IsBodyVerb :: "string \<Rightarrow> bool" where
  "IsBodyVerb verb \<longleftrightarrow> ToUpper verb \<in> {''POST'', ''PUT'', ''PATCH''}"

section \<open>Names and placement of fields\<close>

abbreviation decs :: "Decorator list \<Rightarrow> Decorator option list" where
  "decs ds \<equiv> map Some ds"

definition nameArg :: "Field option \<Rightarrow> string \<Rightarrow> string" where
  "nameArg f decorator =
     (case f of
        None \<Rightarrow> []
      | Some f \<Rightarrow>
          (case StringArg (decs (fd_Decorators f)) decorator of
             Some s \<Rightarrow> if s \<noteq> [] then s else fd_Name f
           | None \<Rightarrow> fd_Name f))"

definition WireName :: "Field option \<Rightarrow> Binding \<Rightarrow> string" where
  "WireName f b = nameArg f (Binding_String b)"

fun BindingKind :: "Decorator option list \<Rightarrow> Binding \<times> bool" where
  "BindingKind [] = (BindBody, False)"
| "BindingKind (None # ds) = BindingKind ds"
| "BindingKind (Some d # ds) =
     (case bindingNamed (dec_Name d) of (b, ok) \<Rightarrow> if ok then (b, True) else BindingKind ds)"

definition IsBindingName :: "string \<Rightarrow> bool" where
  "IsBindingName name = snd (bindingNamed name)"

definition HasSensitive :: "Decorator option list \<Rightarrow> bool" where
  "HasSensitive ds = HasDecorator ds ''sensitive''"

definition RequestFieldBinding :: "Field \<Rightarrow> string set \<Rightarrow> bool \<Rightarrow> Binding \<times> bool" where
  "RequestFieldBinding f pathNames bodyVerb =
     (if HasSensitive (decs (fd_Decorators f)) then (BindSensitive, False)
      else case BindingKind (decs (fd_Decorators f)) of (b, ok) \<Rightarrow>
        if ok then (b, False)
        else if fd_Name f \<in> pathNames then (BindPath, True)
        else if \<not> bodyVerb then (BindQuery, True)
        else (BindBody, False))"

definition DecoratorPassthrough :: string where "DecoratorPassthrough = ''passthrough''"
definition DecoratorRawRequest :: string where "DecoratorRawRequest = ''rawRequest''"
definition DecoratorRawResponse :: string where "DecoratorRawResponse = ''rawResponse''"

definition RawSides :: "Decorator option list \<Rightarrow> bool \<times> bool" where
  "RawSides ds =
     (if HasDecorator ds DecoratorPassthrough then (True, True)
      else (HasDecorator ds DecoratorRawRequest, HasDecorator ds DecoratorRawResponse))"

datatype JSONPresence = JSONAbsent | JSONRequired | JSONOptional | JSONNullable

definition JSONName :: "Field option \<Rightarrow> string" where
  "JSONName f = nameArg f DecoratorJSON"

definition NonBodyBindingKind :: "Field option \<Rightarrow> Binding \<times> bool" where
  "NonBodyBindingKind f =
     (case f of
        None \<Rightarrow> (BindBody, False)
      | Some f \<Rightarrow>
          let b = fst (BindingKind (decs (fd_Decorators f)))
          in if b \<in> {BindPath, BindQuery, BindHeader, BindCookie} then (b, True) else (BindBody, False))"

definition JSONShape :: "Field option \<Rightarrow> string \<times> JSONPresence" where
  "JSONShape f =
     (case f of
        None \<Rightarrow> ([], JSONAbsent)
      | Some fd \<Rightarrow>
          let name = JSONName f
          in if snd (NonBodyBindingKind f) \<or> HasSensitive (decs (fd_Decorators fd)) then (name, JSONAbsent)
             else if (case fd_Type fd of Some t \<Rightarrow> tr_Optional t | None \<Rightarrow> False) then (name, JSONOptional)
             else if HasDecorator (decs (fd_Decorators fd)) ''nullable'' then (name, JSONNullable)
             else (name, JSONRequired))"

definition ExplicitBinding :: "Field \<Rightarrow> Binding" where
  "ExplicitBinding f =
     (if HasSensitive (decs (fd_Decorators f)) then BindSensitive
      else fst (BindingKind (decs (fd_Decorators f))))"

section \<open>Status codes\<close>

definition StatusOverride :: "Decorator option list \<Rightarrow> int \<times> bool" where
  "StatusOverride ds =
     (case Arg (\<lambda>e. case e of IntLit p v \<Rightarrow> Some v | _ \<Rightarrow> None) ds ''status'' of
        Some code \<Rightarrow> (code, True)
      | None \<Rightarrow> (0, False))"

definition SuccessStatus :: "Method \<Rightarrow> Decorator option list \<Rightarrow> int" where
  "SuccessStatus m ds =
     (case StatusOverride ds of (code, ok) \<Rightarrow>
        if ok then code
        else if me_Response m = None then 204
        else if ToLower (me_Verb m) = ''post'' then 201
        else 200)"

section \<open>Cookies\<close>

definition CookiePath :: string where "CookiePath = ''path''"
definition CookieDomain :: string where "CookieDomain = ''domain''"
definition CookieMaxAge :: string where "CookieMaxAge = ''maxAge''"
definition CookieHTTPOnly :: string where "CookieHTTPOnly = ''httpOnly''"
definition CookieSecure :: string where "CookieSecure = ''secure''"
definition CookieSameSite :: string where "CookieSameSite = ''sameSite''"
definition SameSiteLax :: string where "SameSiteLax = ''lax''"
definition SameSiteStrict :: string where "SameSiteStrict = ''strict''"
definition SameSiteNone :: string where "SameSiteNone = ''none''"

record CookieAttrs =
  ck_Path :: string
  ck_Domain :: string
  ck_MaxAge :: int
  ck_HTTPOnly :: bool
  ck_Secure :: bool
  ck_SameSite :: string

definition DefaultCookieAttrs :: CookieAttrs where
  "DefaultCookieAttrs =
     \<lparr>ck_Path = ''/'', ck_Domain = [], ck_MaxAge = 0, ck_HTTPOnly = True, ck_Secure = True, ck_SameSite = SameSiteLax\<rparr>"

text \<open>
  \<open>int64(d.Seconds())\<close> of a duration in nanoseconds. \<open>Seconds\<close> adds the whole seconds and the
  rounded quotient of the rest as floats, so the sum is rounded once more.
\<close>

definition duration_seconds :: "int \<Rightarrow> int" where
  "duration_seconds d =
     (let n = nat \<bar>d\<bar>; q = the (round_f64 (n mod 10 ^ 9) (10 ^ 9));
          s = the (round_f64 (n div 10 ^ 9 * f_den q + f_num q) (f_den q))
      in sgn d * int (f_trunc s))"

definition cookie_arg :: "CookieAttrs \<Rightarrow> DecoratorArg \<Rightarrow> CookieAttrs" where
  "cookie_arg attrs a =
     (if \<not> da_Named a then attrs
      else case da_Value a of
        Some (StringLit _ v _) \<Rightarrow>
          (if da_Name a = CookiePath then attrs\<lparr>ck_Path := v\<rparr>
           else if da_Name a = CookieDomain then attrs\<lparr>ck_Domain := v\<rparr>
           else attrs)
      | Some (BoolLit _ v) \<Rightarrow>
          (if da_Name a = CookieHTTPOnly then attrs\<lparr>ck_HTTPOnly := v\<rparr>
           else if da_Name a = CookieSecure then attrs\<lparr>ck_Secure := v\<rparr>
           else attrs)
      | Some (DurationLit _ t) \<Rightarrow>
          (case ParseDuration t of
             Some d \<Rightarrow> if da_Name a = CookieMaxAge then attrs\<lparr>ck_MaxAge := duration_seconds d\<rparr> else attrs
           | None \<Rightarrow> attrs)
      | Some (IntLit _ v) \<Rightarrow> if da_Name a = CookieMaxAge then attrs\<lparr>ck_MaxAge := v\<rparr> else attrs
      | Some (IdentExpr _ (Some q)) \<Rightarrow>
          if da_Name a = CookieSameSite then attrs\<lparr>ck_SameSite := QualifiedIdent_String q\<rparr> else attrs
      | _ \<Rightarrow> attrs)"

definition CookieAttrsOf :: "Field \<Rightarrow> CookieAttrs" where
  "CookieAttrsOf f =
     (case FindDecorator (decs (fd_Decorators f)) BindingCookie of
        None \<Rightarrow> DefaultCookieAttrs
      | Some d \<Rightarrow> foldl cookie_arg DefaultCookieAttrs (dec_Args d))"

section \<open>Lemmas\<close>

lemma bindingNamed_String: "b \<noteq> BindSensitive \<Longrightarrow> bindingNamed (Binding_String b) = (b, True)"
  by (cases b) (simp_all add: bindingNamed_def binding_names)

lemma bindingNamed_name: "bindingNamed name = (b, True) \<Longrightarrow> Binding_String b = name"
  unfolding bindingNamed_def by (auto simp: find_Some_iff simp del: find.simps split: option.splits)

lemma BindingKind_name:
  "BindingKind ds = (b, True) \<Longrightarrow> HasDecorator ds (Binding_String b)"
proof (induction ds rule: BindingKind.induct)
  case (3 d ds)
  then show ?case
    by (auto simp: HasDecorator_def dest: bindingNamed_name split: prod.splits if_splits)
qed (simp_all add: HasDecorator_def)

end
