(* ===== verification/Decorators.thy ===== *)
theory Decorators
  imports Wire Design
begin

text \<open>
  The decorators of the language: the registry of \<^verbatim>\<open>internal/semantic/decorators.go\<close>, the sites of
  \<^verbatim>\<open>decorator_sites.go\<close> with the rules on placement, repetition, \<open>@sensitive\<close> and \<open>@json\<close>, and
  the names of \<^verbatim>\<open>internal/strfmt\<close>. A bit mask is the set of its bits. The registry, a Go map, is
  the list of its entries; the hover texts of the editor are left out. \<open>unicode.IsLetter\<close> and
  \<open>unicode.IsDigit\<close> are arguments of \<open>jsonTagName\<close>.
\<close>

section \<open>Levels, arguments and categories\<close>

datatype Level =
    LvlFile | LvlType | LvlField | LvlService | LvlMethod | LvlEnum | LvlEnumValue | LvlError
  | LvlScalar | LvlMiddleware | LvlEvent | LvlErrorField

definition levelNames :: "(Level \<times> string) list" where
  "levelNames =
     [(LvlFile, ''file''), (LvlType, ''type''), (LvlField, ''field''), (LvlService, ''service''),
      (LvlMethod, ''method''), (LvlEnum, ''enum''), (LvlEnumValue, ''enum value''), (LvlError, ''error''),
      (LvlScalar, ''scalar''), (LvlMiddleware, ''middleware''), (LvlEvent, ''event''),
      (LvlErrorField, ''error field'')]"

definition Level_Name :: "Level set \<Rightarrow> string" where
  "Level_Name l = (case find (\<lambda>(bit, _). l = {bit}) levelNames of Some (_, name) \<Rightarrow> name | None \<Rightarrow> ''unknown'')"

definition Level_String :: "Level set \<Rightarrow> string" where
  "Level_String l =
     (if l = {} then ''(none)'' else Join (map snd (filter (\<lambda>(bit, _). bit \<in> l) levelNames)) '', '')"

datatype ArgKind =
  ArgAny | ArgString | ArgInt | ArgNumber | ArgBool | ArgIdent | ArgDuration | ArgSize | ArgStringOrIdent

fun argKinds :: "ArgKind \<Rightarrow> (string \<times> string list) option" where
  "argKinds ArgString = Some (''string'', [''string''])"
| "argKinds ArgInt = Some (''int'', [''int''])"
| "argKinds ArgNumber = Some (''int or float'', [''int'', ''float''])"
| "argKinds ArgBool = Some (''bool'', [''bool''])"
| "argKinds ArgIdent = Some (''identifier'', [''identifier''])"
| "argKinds ArgDuration = Some (''duration'', [''duration'', ''int''])"
| "argKinds ArgSize = Some (''size'', [''size'', ''int''])"
| "argKinds ArgStringOrIdent = Some (''string or identifier'', [''string'', ''identifier''])"
| "argKinds ArgAny = None"

definition ArgKind_String :: "ArgKind \<Rightarrow> string" where
  "ArgKind_String k = (case argKinds k of Some (label, _) \<Rightarrow> label | None \<Rightarrow> ''any'')"

record ArgsRule =
  ar_Min :: nat
  ar_Max :: int
  ar_Kinds :: "ArgKind list"
  ar_Variadic :: ArgKind
  ar_Enum :: "string list"
  ar_AllowArrayShortcut :: bool
  ar_Named :: "(string \<times> ArgKind) list"
  ar_NamedValues :: "(string \<times> string list) list"

datatype Prims =
    PrimString | PrimBytes | PrimInteger | PrimFloat | PrimBool | PrimArray | PrimMap | PrimFile
  | PrimDateTime | PrimRawBytes | PrimStruct | PrimDynamic | PrimCookie

definition PrimAny :: "Prims set" where "PrimAny = {}"
definition PrimNumber :: "Prims set" where "PrimNumber = {PrimInteger, PrimFloat}"

definition primNames :: "(Prims set \<times> string) list" where
  "primNames =
     [({PrimString}, ''string''), ({PrimBytes}, ''bytes''), (PrimNumber, ''number''),
      ({PrimInteger}, ''integer''), ({PrimFloat}, ''float''), ({PrimBool}, ''bool''),
      ({PrimArray}, ''array''), ({PrimMap}, ''map''), ({PrimFile}, ''file''),
      ({PrimDateTime}, ''datetime''), ({PrimRawBytes}, ''bytes @format(raw)''),
      ({PrimStruct}, ''struct''), ({PrimDynamic}, ''any''), ({PrimCookie}, ''cookie'')]"

fun prim_parts :: "(Prims set \<times> string) list \<Rightarrow> Prims set \<Rightarrow> string list" where
  "prim_parts [] p = []"
| "prim_parts ((cats, name) # es) p =
     (if cats \<subseteq> p then name # prim_parts es (p - cats) else prim_parts es p)"

definition Prims_String :: "Prims set \<Rightarrow> string" where
  "Prims_String p = (if p = {} then ''any'' else Join (prim_parts primNames p) '', '')"

datatype ConstraintFamily = ConstraintNumeric | ConstraintLength | ConstraintText | ConstraintItems | ConstraintRuntime

definition ConstraintNarrowing :: "ConstraintFamily set" where
  "ConstraintNarrowing = {ConstraintNumeric, ConstraintLength, ConstraintText}"

definition ConstraintSchema :: "ConstraintFamily set" where
  "ConstraintSchema = {ConstraintNumeric, ConstraintLength, ConstraintText, ConstraintItems}"

record Spec =
  sp_Name :: string
  sp_Levels :: "Level set"
  sp_Args :: ArgsRule
  sp_AppliesTo :: "Prims set"
  sp_Constraint :: "ConstraintFamily set"
  sp_Repeatable :: bool
  sp_Metadata :: bool

section \<open>The registry\<close>

text \<open>The fields an entry leaves out have the zero value.\<close>

definition positional :: "nat \<Rightarrow> int \<Rightarrow> ArgKind list \<Rightarrow> ArgsRule" where
  "positional lo hi kinds =
     \<lparr>ar_Min = lo, ar_Max = hi, ar_Kinds = kinds, ar_Variadic = ArgAny, ar_Enum = [],
      ar_AllowArrayShortcut = False, ar_Named = [], ar_NamedValues = []\<rparr>"

definition no_args :: ArgsRule where "no_args = positional 0 0 []"

definition variadic :: "ArgKind \<Rightarrow> ArgsRule" where
  "variadic k = (positional 1 (- 1) [])\<lparr>ar_Variadic := k, ar_AllowArrayShortcut := True\<rparr>"

definition spec :: "string \<Rightarrow> Level set \<Rightarrow> ArgsRule \<Rightarrow> Spec" where
  "spec name levels args =
     \<lparr>sp_Name = name, sp_Levels = levels, sp_Args = args, sp_AppliesTo = PrimAny, sp_Constraint = {},
      sp_Repeatable = False, sp_Metadata = False\<rparr>"

definition fieldLevels :: "Level set" where "fieldLevels = {LvlField, LvlErrorField}"
definition valueLevels :: "Level set" where "valueLevels = {LvlField, LvlScalar, LvlErrorField}"

definition FormatRaw :: string where "FormatRaw = ''raw''"

definition strfmt_Names :: "string list" where
  "strfmt_Names =
     [''email'', ''url'', ''uri'', ''uuid'', ''datetime'', ''date'', ''time'', ''phone'', ''ipv4'', ''ipv6'',
      ''cidr'', ''mac'', ''creditcard'', ''base64'', ''base64url'', ''hexcolor'', ''json'']"

definition formatValues :: "string list" where "formatValues = strfmt_Names @ [FormatRaw]"

definition decoratorContract :: string where "decoratorContract = ''contract''"

definition cookie_named :: "(string \<times> ArgKind) list" where
  "cookie_named =
     [(CookiePath, ArgString), (CookieDomain, ArgString), (CookieMaxAge, ArgDuration),
      (CookieHTTPOnly, ArgBool), (CookieSecure, ArgBool), (CookieSameSite, ArgIdent)]"

definition doc_specs :: "Spec list" where
  "doc_specs =
    [(spec ''doc'' {LvlFile, LvlType, LvlField, LvlService, LvlMethod, LvlEnum, LvlEnumValue, LvlError, LvlScalar, LvlMiddleware, LvlEvent, LvlErrorField} (positional 1 1 [ArgString]))\<lparr>sp_Metadata := True\<rparr>,
     (spec ''deprecated'' {LvlFile, LvlType, LvlField, LvlService, LvlMethod, LvlEnumValue, LvlMiddleware, LvlEvent, LvlErrorField} (positional 0 1 [ArgString]))\<lparr>sp_Metadata := True\<rparr>,
     (spec ''example'' fieldLevels (positional 1 1 [ArgAny]))\<lparr>sp_Metadata := True\<rparr>]"

definition file_specs :: "Spec list" where
  "file_specs =
    [spec ''version'' {LvlFile} (positional 1 1 [ArgString])]"

definition type_specs :: "Spec list" where
  "type_specs =
    [spec ''requiresOneOf'' {LvlType} (variadic ArgStringOrIdent),
     spec ''mutuallyExclusive'' {LvlType} (variadic ArgStringOrIdent)]"

definition string_specs :: "Spec list" where
  "string_specs =
    [(spec ''length'' valueLevels (positional 1 2 [ArgInt, ArgInt]))\<lparr>sp_AppliesTo := {PrimString, PrimBytes}, sp_Constraint := {ConstraintLength}\<rparr>,
     (spec ''minLength'' valueLevels (positional 1 1 [ArgInt]))\<lparr>sp_AppliesTo := {PrimString, PrimBytes}, sp_Constraint := {ConstraintLength}\<rparr>,
     (spec ''maxLength'' valueLevels (positional 1 1 [ArgInt]))\<lparr>sp_AppliesTo := {PrimString, PrimBytes}, sp_Constraint := {ConstraintLength}\<rparr>,
     (spec ''pattern'' valueLevels (positional 1 1 [ArgString]))\<lparr>sp_AppliesTo := {PrimString}, sp_Constraint := {ConstraintText}\<rparr>,
     (spec ''format'' valueLevels ((positional 1 1 [ArgStringOrIdent])\<lparr>ar_Enum := formatValues\<rparr>))\<lparr>sp_AppliesTo := {PrimString, PrimBytes, PrimRawBytes}, sp_Constraint := {ConstraintText}\<rparr>]"

definition number_specs :: "Spec list" where
  "number_specs =
    [(spec ''gt'' valueLevels (positional 1 1 [ArgNumber]))\<lparr>sp_AppliesTo := PrimNumber, sp_Constraint := {ConstraintNumeric}\<rparr>,
     (spec ''gte'' valueLevels (positional 1 1 [ArgNumber]))\<lparr>sp_AppliesTo := PrimNumber, sp_Constraint := {ConstraintNumeric}\<rparr>,
     (spec ''lt'' valueLevels (positional 1 1 [ArgNumber]))\<lparr>sp_AppliesTo := PrimNumber, sp_Constraint := {ConstraintNumeric}\<rparr>,
     (spec ''lte'' valueLevels (positional 1 1 [ArgNumber]))\<lparr>sp_AppliesTo := PrimNumber, sp_Constraint := {ConstraintNumeric}\<rparr>,
     (spec ''range'' valueLevels (positional 2 2 [ArgNumber, ArgNumber]))\<lparr>sp_AppliesTo := PrimNumber, sp_Constraint := {ConstraintNumeric}\<rparr>,
     (spec ''positive'' valueLevels no_args)\<lparr>sp_AppliesTo := PrimNumber, sp_Constraint := {ConstraintNumeric}\<rparr>,
     (spec ''negative'' valueLevels no_args)\<lparr>sp_AppliesTo := PrimNumber, sp_Constraint := {ConstraintNumeric}\<rparr>,
     (spec ''multipleOf'' valueLevels (positional 1 1 [ArgNumber]))\<lparr>sp_AppliesTo := {PrimInteger}, sp_Constraint := {ConstraintNumeric}\<rparr>]"

definition collection_specs :: "Spec list" where
  "collection_specs =
    [(spec ''minItems'' fieldLevels (positional 1 1 [ArgInt]))\<lparr>sp_AppliesTo := {PrimArray, PrimMap}, sp_Constraint := {ConstraintItems}\<rparr>,
     (spec ''maxItems'' fieldLevels (positional 1 1 [ArgInt]))\<lparr>sp_AppliesTo := {PrimArray, PrimMap}, sp_Constraint := {ConstraintItems}\<rparr>,
     (spec ''uniqueItems'' fieldLevels no_args)\<lparr>sp_AppliesTo := {PrimArray}, sp_Constraint := {ConstraintItems}\<rparr>]"

definition file_field_specs :: "Spec list" where
  "file_field_specs =
    [(spec ''maxSize'' {LvlField} (positional 1 1 [ArgSize]))\<lparr>sp_AppliesTo := {PrimFile}, sp_Constraint := {ConstraintRuntime}\<rparr>,
     (spec ''mimeTypes'' {LvlField} (variadic ArgString))\<lparr>sp_AppliesTo := {PrimFile}, sp_Constraint := {ConstraintRuntime}\<rparr>]"

definition field_specs :: "Spec list" where
  "field_specs =
    [spec ''default'' fieldLevels (positional 1 1 [ArgAny]),
     spec ''nullable'' fieldLevels no_args,
     spec ''json'' fieldLevels (positional 1 1 [ArgString]),
     spec ''sensitive'' fieldLevels no_args]"

definition binding_specs :: "Spec list" where
  "binding_specs =
    [spec ''path'' {LvlField} (positional 0 1 [ArgString]),
     spec ''query'' {LvlField} (positional 0 1 [ArgString]),
     spec ''header'' fieldLevels (positional 0 1 [ArgString]),
     spec ''cookie'' fieldLevels ((positional 0 1 [ArgString])\<lparr>ar_Named := cookie_named, ar_NamedValues := [(CookieSameSite, [SameSiteLax, SameSiteStrict, SameSiteNone])]\<rparr>),
     spec ''body'' {LvlField} (positional 0 1 [ArgString]),
     spec ''form'' {LvlField} (positional 0 1 [ArgString])]"

definition service_specs :: "Spec list" where
  "service_specs =
    [spec ''prefix'' {LvlService} (positional 1 1 [ArgString]),
     spec decoratorContract {LvlEvent} (positional 1 1 [ArgString]),
     spec ''group'' {LvlService} (positional 1 1 [ArgString]),
     (spec ''middlewares'' {LvlService, LvlMethod} (variadic ArgIdent))\<lparr>sp_Repeatable := True\<rparr>,
     (spec ''tags'' {LvlService, LvlMethod} (variadic ArgStringOrIdent))\<lparr>sp_Repeatable := True\<rparr>,
     (spec ''security'' {LvlService, LvlMethod} (variadic ArgIdent))\<lparr>sp_Repeatable := True\<rparr>,
     spec ''hidden'' {LvlService, LvlMethod} no_args,
     spec ''ignoreMiddleware'' {LvlMethod} no_args,
     spec ''ignoreSecurity'' {LvlMethod} no_args,
     spec ''ignoreTags'' {LvlMethod} no_args]"

definition method_specs :: "Spec list" where
  "method_specs =
    [spec ''summary'' {LvlMethod} (positional 1 1 [ArgString]),
     spec ''operationId'' {LvlMethod} (positional 1 1 [ArgString]),
     (spec ''errors'' {LvlMethod} (variadic ArgIdent))\<lparr>sp_Repeatable := True\<rparr>,
     spec ''status'' {LvlMethod} (positional 1 1 [ArgInt])]"

definition behavior_specs :: "Spec list" where
  "behavior_specs =
    [spec ''passthrough'' {LvlMethod} no_args,
     spec ''rawRequest'' {LvlMethod} no_args,
     spec ''rawResponse'' {LvlMethod} no_args]"

definition limit_specs :: "Spec list" where
  "limit_specs =
    [spec ''timeout'' {LvlMethod} (positional 1 1 [ArgDuration]),
     spec ''maxBodySize'' {LvlMethod} (positional 1 1 [ArgSize])]"

definition registry :: "Spec list" where
  "registry = doc_specs @ file_specs @ type_specs @ string_specs @ number_specs
     @ collection_specs @ file_field_specs @ field_specs @ binding_specs
     @ service_specs @ method_specs @ behavior_specs @ limit_specs"

definition DecoratorSpec :: "string \<Rightarrow> Spec option" where
  "DecoratorSpec name = find (\<lambda>s. sp_Name s = name) registry"

definition Names :: "string list" where
  "Names = sort (map sp_Name registry)"

definition removed :: "(string \<times> string) list" where
  "removed =
     [(''key'', ''@key was removed: which entity a message belongs to is decided when it is published, not by the contract. Pass the key to the publish call instead - `orders.OrderPlaced.Publish(ctx, bus, payload, craftevents.WithKey(string(payload.OrderID)))`.''),
      (''consumerGroup'', ''@consumerGroup was removed: a group is where a consumer resumes on the broker, so it belongs to the deployable rather than to the shared design. Name it where the bus is built and pass it to the subscription - `orders.Placed.Subscribe(bus, ordersGroup, h.Placed)`.''),
      (''consumeMiddlewares'', ''@consumeMiddlewares was removed, along with the `consume middleware Name` declaration: a subscription's chain is ordinary Go, built where the bus is. Install one bus-wide with `bus.Use(retry, timeout)`, or set `Subscription.Chain` for a single registration.'')]"

definition RemovedDecorator :: "string \<Rightarrow> string option" where
  "RemovedDecorator name = map_of removed name"

definition ConstraintOf :: "string \<Rightarrow> ConstraintFamily set" where
  "ConstraintOf name = (case DecoratorSpec name of Some s \<Rightarrow> sp_Constraint s | None \<Rightarrow> {})"

definition isFormatRaw :: "Decorator option \<Rightarrow> bool" where
  "isFormatRaw d =
     (case d of
        None \<Rightarrow> False
      | Some d \<Rightarrow>
          (case dec_Args d of
             [] \<Rightarrow> False
           | a # _ \<Rightarrow> dec_Name d = ''format''
               \<and> (case da_Value a of Some e \<Rightarrow> TextValue e = Some FormatRaw | None \<Rightarrow> False)))"

definition HasRawFormat :: "Decorator option list \<Rightarrow> bool" where
  "HasRawFormat ds = isFormatRaw (FindDecorator ds ''format'')"

definition decoratorEnd :: "Decorator \<Rightarrow> Position" where
  "decoratorEnd d =
     (let w = 1 + length (dec_Name d)
      in (dec_Pos d)\<lparr>pos_Column := pos_Column (dec_Pos d) + w, pos_Offset := pos_Offset (dec_Pos d) + w\<rparr>)"

section \<open>What a block gives its methods\<close>

definition chainIgnores :: "(string \<times> string) list" where
  "chainIgnores =
     [(''middlewares'', ''ignoreMiddleware''), (''security'', ''ignoreSecurity''), (''tags'', ''ignoreTags'')]"

definition namesOneOperation :: "string \<Rightarrow> bool" where
  "namesOneOperation name \<longleftrightarrow> name = ''operationId''"

definition ExtendAllows :: "string \<Rightarrow> bool" where
  "ExtendAllows name =
     (case DecoratorSpec name of
        None \<Rightarrow> False
      | Some s \<Rightarrow> \<not> namesOneOperation name \<and> (name = ''group'' \<or> LvlMethod \<in> sp_Levels s))"

definition inheritedFrom :: "ServiceDecl \<Rightarrow> Decorator list" where
  "inheritedFrom e = filter (\<lambda>d. dec_Name d \<noteq> ''group'' \<and> ExtendAllows (dec_Name d)) (sv_Decorators e)"

definition blockInherited :: "ServiceDecl option \<Rightarrow> Decorator list" where
  "blockInherited b =
     (case b of None \<Rightarrow> [] | Some b \<Rightarrow> if \<not> sv_Extend b then [] else inheritedFrom b)"

definition blockMethodDecorators :: "ServiceDecl option \<Rightarrow> Method \<Rightarrow> Decorator list" where
  "blockMethodDecorators b m =
     (let inherited = blockInherited b
      in if inherited = [] then me_Decorators m else inherited @ me_Decorators m)"

definition decoratorsNamed :: "Decorator list \<Rightarrow> string \<Rightarrow> Decorator list" where
  "decoratorsNamed ds name = filter (\<lambda>d. dec_Name d = name) ds"

section \<open>Sites\<close>

definition CodeDecoratorRemoved :: string where "CodeDecoratorRemoved = ''decorator/removed''"
definition CodeDecoratorUnknown :: string where "CodeDecoratorUnknown = ''decorator/unknown''"
definition CodeExtendDecoratorNotMethod :: string where "CodeExtendDecoratorNotMethod = ''service/extend-decorator-not-method''"
definition CodeDecoratorPlacement :: string where "CodeDecoratorPlacement = ''decorator/placement''"
definition CodeDecoratorDuplicate :: string where "CodeDecoratorDuplicate = ''decorator/duplicate''"
definition CodeDecoratorConflict :: string where "CodeDecoratorConflict = ''decorator/conflict''"
definition CodeDecoratorArgValue :: string where "CodeDecoratorArgValue = ''decorator/argvalue''"

record decoratorSite =
  ds_level :: Level
  ds_label :: string
  ds_decs :: "Decorator list"
  ds_decl :: "Decl option"
  ds_field :: "Field option"
  ds_inherited :: "Decorator list"

definition extendBlock :: "decoratorSite \<Rightarrow> bool" where
  "extendBlock s =
     (case ds_decl s of Some (D_Service sd) \<Rightarrow> sv_Extend sd \<and> ds_level s = LvlService | _ \<Rightarrow> False)"

definition allows :: "decoratorSite \<Rightarrow> string \<Rightarrow> bool" where
  "allows s name =
     (if extendBlock s then ExtendAllows name
      else case DecoratorSpec name of None \<Rightarrow> False | Some sp \<Rightarrow> ds_level s \<in> sp_Levels sp)"

definition decl_site :: "Decl \<Rightarrow> Level \<Rightarrow> string \<Rightarrow> Decorator list \<Rightarrow> decoratorSite" where
  "decl_site d level subject ds =
     \<lparr>ds_level = level, ds_label = Level_Name {level} @ '' '' @ subject, ds_decs = ds, ds_decl = Some d,
      ds_field = None, ds_inherited = []\<rparr>"

definition field_sites :: "Decl \<Rightarrow> Level \<Rightarrow> string \<Rightarrow> TypeMember list \<Rightarrow> decoratorSite list" where
  "field_sites d level parent body =
     map (\<lambda>f. (decl_site d level (parent @ ''.'' @ fd_Name f) (fd_Decorators f))\<lparr>ds_field := Some f\<rparr>) (Fields body)"

definition service_sites :: "ServiceDecl \<Rightarrow> decoratorSite list" where
  "service_sites dd =
     (let d = D_Service dd;
          block = decl_site d LvlService (sv_Name dd) (sv_Decorators dd);
          block' = (if sv_Extend dd then block\<lparr>ds_label := ''extend '' @ ds_label block\<rparr> else block);
          inherited = blockInherited (Some dd)
      in block' # map (\<lambda>m. (decl_site d LvlMethod (sv_Name dd @ ''.'' @ me_Name m) (me_Decorators m))
                             \<lparr>ds_inherited := inherited\<rparr>) (Methods (Some dd)))"

definition decl_sites :: "Decl \<Rightarrow> decoratorSite list" where
  "decl_sites d =
     (case d of
        D_Type dd \<Rightarrow> decl_site d LvlType (td_Name dd) (td_Decorators dd)
          # field_sites d LvlField (td_Name dd) (td_Body dd)
      | D_Enum dd \<Rightarrow> decl_site d LvlEnum (ed_Name dd) (ed_Decorators dd)
          # map (\<lambda>v. decl_site d LvlEnumValue (ed_Name dd @ ''.'' @ ev_Name v) (ev_Decorators v)) (EnumValues (Some dd))
      | D_Error dd \<Rightarrow> decl_site d LvlError (er_Name dd) (er_Decorators dd)
          # field_sites d LvlErrorField (er_Name dd) (er_Body dd)
      | D_Scalar dd \<Rightarrow> [decl_site d LvlScalar (sc_Name dd) (sc_Decorators dd)]
      | D_Middleware dd \<Rightarrow> [decl_site d LvlMiddleware (mw_Name dd) (mw_Decorators dd)]
      | D_Event dd \<Rightarrow> [decl_site d LvlEvent (en_Name dd) (en_Decorators dd)]
      | D_Service dd \<Rightarrow> service_sites dd)"

definition decoratorSites :: "File list \<Rightarrow> decoratorSite list" where
  "decoratorSites files =
     concat (map (\<lambda>f.
       \<lparr>ds_level = LvlFile, ds_label = Level_Name {LvlFile}, ds_decs = f_Decorators f, ds_decl = None,
        ds_field = None, ds_inherited = []\<rparr> # concat (map decl_sites (f_Decls f))) files)"

section \<open>Rules at every site\<close>

definition at_decorator :: "Decorator \<Rightarrow> string \<Rightarrow> message \<Rightarrow> Related list \<Rightarrow> Diagnostic" where
  "at_decorator d code msg rel = sem_diag (dec_Pos d) (decoratorEnd d) SeverityError code msg rel"

definition site_service :: "decoratorSite \<Rightarrow> string" where
  "site_service s = (case ds_decl s of Some (D_Service sd) \<Rightarrow> sv_Name sd | _ \<Rightarrow> [])"

definition placement_of :: "decoratorSite \<Rightarrow> Decorator \<Rightarrow> Diagnostic list" where
  "placement_of s d =
     (case DecoratorSpec (dec_Name d) of
        None \<Rightarrow>
          (case RemovedDecorator (dec_Name d) of
             Some note \<Rightarrow> [at_decorator d CodeDecoratorRemoved
               (Msg ''@%s on %s is no longer a craftgo decorator. %s'' [AStr (dec_Name d), AStr (ds_label s), AStr note]) []]
           | None \<Rightarrow> [at_decorator d CodeDecoratorUnknown
               (Msg ''unknown decorator @%s on %s (not in the framework registry)'' [AStr (dec_Name d), AStr (ds_label s)]) []])
      | Some sp \<Rightarrow>
          if allows s (dec_Name d) then []
          else if extendBlock s \<and> namesOneOperation (dec_Name d)
          then [at_decorator d CodeExtendDecoratorNotMethod
                 (Msg ''@%s on extend service %q would give every method of the block the same one; put it on each method''
                   [AStr (dec_Name d), AStr (site_service s)]) []]
          else if extendBlock s
          then [at_decorator d CodeExtendDecoratorNotMethod
                 (Msg ''decorator @%s on extend service %q is not valid on a method; move it to the primary service''
                   [AStr (dec_Name d), AStr (site_service s)]) []]
          else [at_decorator d CodeDecoratorPlacement
                 (Msg ''@%s is not allowed on %s; valid sites: %s''
                   [AStr (dec_Name d), AStr (ds_label s), AStr (Level_String (sp_Levels sp))]) []])"

definition checkPlacement :: "decoratorSite \<Rightarrow> Diagnostic list" where
  "checkPlacement s = concat (map (placement_of s) (ds_decs s))"

definition Repeatable :: "string \<Rightarrow> bool" where
  "Repeatable name = (case DecoratorSpec name of Some sp \<Rightarrow> sp_Repeatable sp | None \<Rightarrow> False)"

fun inherited_seen :: "Decorator list \<Rightarrow> Position table \<Rightarrow> Position table" where
  "inherited_seen [] seen = seen"
| "inherited_seen (d # ds) seen =
     inherited_seen ds (case map_of seen (dec_Name d) of Some _ \<Rightarrow> seen | None \<Rightarrow> AList.update (dec_Name d) (dec_Pos d) seen)"

fun duplicate_decs :: "string \<Rightarrow> Position table \<Rightarrow> Decorator list \<Rightarrow> Diagnostic list" where
  "duplicate_decs label seen [] = []"
| "duplicate_decs label seen (d # ds) =
     (if Repeatable (dec_Name d) then duplicate_decs label seen ds
      else case map_of seen (dec_Name d) of
        Some prev \<Rightarrow> at_decorator d CodeDecoratorDuplicate
            (Msg ''duplicate decorator @%s on %s'' [AStr (dec_Name d), AStr label]) (related prev ''first decorator here'')
          # duplicate_decs label seen ds
      | None \<Rightarrow> duplicate_decs label (AList.update (dec_Name d) (dec_Pos d) seen) ds)"

definition checkDecoratorDuplicates :: "decoratorSite \<Rightarrow> Diagnostic list" where
  "checkDecoratorDuplicates s = duplicate_decs (ds_label s) (inherited_seen (ds_inherited s) []) (ds_decs s)"

definition checkSensitiveConflicts :: "Field \<Rightarrow> Diagnostic list" where
  "checkSensitiveConflicts f =
     (if \<not> HasDecorator (decs (fd_Decorators f)) ''sensitive'' then []
      else concat (map (\<lambda>d.
        if dec_Name d = ''sensitive'' then []
        else case DecoratorSpec (dec_Name d) of
          None \<Rightarrow> []
        | Some sp \<Rightarrow>
            if sp_Metadata sp \<or> sp_Levels sp \<inter> {LvlField, LvlErrorField} = {} then []
            else [at_decorator d CodeDecoratorConflict
                   (Msg ''@%s cannot be combined with @sensitive: sensitive fields never cross the wire'' [AStr (dec_Name d)]) []])
        (fd_Decorators f)))"

definition jsonTagPunctuation :: string where
  "jsonTagPunctuation = ''!#$%&()*+-./:;<=>?@[]^_{|}~''"

definition jsonTagName :: "(rune \<Rightarrow> bool) \<Rightarrow> (rune \<Rightarrow> bool) \<Rightarrow> string \<Rightarrow> bool" where
  "jsonTagName IsLetter IsDigit s \<longleftrightarrow>
     s \<noteq> [] \<and> list_all (\<lambda>(_, r). r \<in> of_char ` set (jsonTagPunctuation @ '' '') \<or> IsLetter r \<or> IsDigit r) (range_string 0 s)"

definition json_key :: "(rune \<Rightarrow> bool) \<Rightarrow> (rune \<Rightarrow> bool) \<Rightarrow> Field \<Rightarrow> Decorator \<Rightarrow> Diagnostic list" where
  "json_key IsLetter IsDigit f d =
     (case dec_Args d of
        [] \<Rightarrow> []
      | a # _ \<Rightarrow>
          (case da_Value a of
             Some (StringLit _ v _) \<Rightarrow>
               if \<not> jsonTagName IsLetter IsDigit v
               then [at_decorator d CodeDecoratorArgValue
                      (Msg ''@json on field %q must be a non-empty key of letters, digits, spaces and the punctuation %s - encoding/json ignores any other key and writes the field's Go name instead''
                        [AStr (fd_Name f), AStr jsonTagPunctuation]) []]
               else if v = ''-''
               then [at_decorator d CodeDecoratorArgValue
                      (Msg ''@json(\"-\") on field %q names no key: the Go tag `json:\"-\"` keeps the field off the JSON body, while the OpenAPI document would list a key \"-\" - mark a server-only field @sensitive instead''
                        [AStr (fd_Name f)]) []]
               else []
           | _ \<Rightarrow> []))"

definition checkJSONDecorator :: "(rune \<Rightarrow> bool) \<Rightarrow> (rune \<Rightarrow> bool) \<Rightarrow> Field \<Rightarrow> Diagnostic list" where
  "checkJSONDecorator IsLetter IsDigit f =
     concat (map (\<lambda>d.
       if dec_Name d \<noteq> DecoratorJSON then []
       else
         (case BindingKind (decs (fd_Decorators f)) of (b, ok) \<Rightarrow>
            if ok \<and> b \<noteq> BindBody
            then [at_decorator d CodeDecoratorConflict
                   (Msg ''@json cannot be combined with @%s: a field bound off the body has no JSON key - name the wire location in @%s(...) instead''
                     [AStr (Binding_String b), AStr (Binding_String b)]) []]
            else [])
         @ json_key IsLetter IsDigit f d) (fd_Decorators f))"

end
