(* ===== verification/Services.thy ===== *)
theory Services
  imports Decorators Route
begin

text \<open>
  The methods of a service with the decorators that apply to them, and their operation ids:
  \<^verbatim>\<open>inherited.go\<close>, \<^verbatim>\<open>groups.go\<close> and \<^verbatim>\<open>operations.go\<close> of \<^verbatim>\<open>internal/semantic\<close>. A nil block is
  \<open>None\<close>; the maps of counts and owners are association lists.
\<close>

section \<open>Blocks\<close>

definition blocks :: "ServiceInfo \<Rightarrow> ServiceDecl option list" where
  "blocks svc = si_Primary svc # map Some (si_Extends svc)"

definition blockOf :: "ServiceInfo \<Rightarrow> Method \<Rightarrow> ServiceDecl option" where
  "blockOf svc m =
     (case find (\<lambda>b. list_ex (\<lambda>bm. me_Name bm = me_Name m) (Methods b)) (blocks svc) of
        Some b \<Rightarrow> b
      | None \<Rightarrow> None)"

definition blockGroup :: "ServiceInfo \<Rightarrow> ServiceDecl option \<Rightarrow> string" where
  "blockGroup svc b = EffectiveGroup b (ServiceGroup (si_Primary svc))"

definition MethodGroupOf :: "ServiceInfo option \<Rightarrow> Method option \<Rightarrow> string" where
  "MethodGroupOf svc m =
     (case (svc, m) of
        (Some svc, Some m) \<Rightarrow>
          (case blockOf svc m of None \<Rightarrow> [] | Some block \<Rightarrow> blockGroup svc (Some block))
      | _ \<Rightarrow> [])"

section \<open>Decorators of a method\<close>

definition Service_Decorators :: "ServiceInfo \<Rightarrow> Method \<Rightarrow> Decorator list" where
  "Service_Decorators svc m = blockMethodDecorators (blockOf svc m) m"

definition Hidden :: "ServiceInfo \<Rightarrow> Method \<Rightarrow> bool" where
  "Hidden svc m \<longleftrightarrow>
     HasDecorator (decs (Service_Decorators svc m)) ''hidden''
     \<or> (case si_Primary svc of None \<Rightarrow> False | Some p \<Rightarrow> HasDecorator (decs (sv_Decorators p)) ''hidden'')"

definition ignore_name :: "string \<Rightarrow> string" where
  "ignore_name name = (case map_of chainIgnores name of Some i \<Rightarrow> i | None \<Rightarrow> [])"

definition InheritedDecorators :: "ServiceInfo \<Rightarrow> Method \<Rightarrow> string \<Rightarrow> Decorator list \<times> Decorator list \<times> bool" where
  "InheritedDecorators svc m name =
     (let inherited = blockInherited (blockOf svc m);
          ownIgnored = HasDecorator (decs (me_Decorators m)) (ignore_name name);
          ignored = ownIgnored \<or> HasDecorator (decs inherited) (ignore_name name);
          service = (if ignored then []
                     else case si_Primary svc of None \<Rightarrow> [] | Some p \<Rightarrow> decoratorsNamed (sv_Decorators p) name);
          member = (if ownIgnored then [] else decoratorsNamed inherited name)
      in (service, member @ decoratorsNamed (me_Decorators m) name, ignored))"

section \<open>Operation ids\<close>

definition CodeDuplicateOperation :: string where "CodeDuplicateOperation = ''operation/duplicate-id''"

definition MethodNameCounts :: "Package list \<Rightarrow> string \<Rightarrow> nat" where
  "MethodNameCounts pkgs name =
     length (filter (\<lambda>m. me_Name m = name)
       (concat (map (\<lambda>pkg. concat (map (\<lambda>(_, svc). si_Methods svc) (p_Services pkg))) pkgs)))"

definition OperationBaseName :: "string \<Rightarrow> Method \<Rightarrow> (string \<Rightarrow> nat) \<Rightarrow> string" where
  "OperationBaseName svcName m counts =
     (if counts (me_Name m) \<ge> 2 then svcName @ me_Name m else me_Name m)"

definition OperationID :: "Decorator list \<Rightarrow> string \<Rightarrow> string" where
  "OperationID ds base =
     (case StringArg (decs ds) ''operationId'' of Some i \<Rightarrow> if i \<noteq> [] then i else base | None \<Rightarrow> base)"

text \<open>The services of a project and their methods, in the order the project checks visit them.\<close>

definition project_services :: "Project \<Rightarrow> (string \<times> string \<times> ServiceInfo) list" where
  "project_services p =
     concat (map (\<lambda>pkgName. case Packages p pkgName of
         None \<Rightarrow> []
       | Some pkg \<Rightarrow> List.map_filter (\<lambda>svcName. map_option (\<lambda>si. (pkgName, svcName, si)) (map_of (p_Services pkg) svcName))
           (ServiceNames pkg)) (PackageNames p))"

definition project_methods :: "Project \<Rightarrow> (string \<times> string \<times> ServiceInfo \<times> Method) list" where
  "project_methods p = concat (map (\<lambda>(pkg, svc, si). map (\<lambda>m. (pkg, svc, si, m)) (si_Methods si)) (project_services p))"

record op_owner =
  ow_id :: string
  ow_ref :: string
  ow_pkg :: string
  ow_pos :: Position

definition operation_owners :: "Project \<Rightarrow> op_owner list" where
  "operation_owners p =
     (let counts = MethodNameCounts (map snd (pr_Packages p))
      in map (\<lambda>(pkgName, svcName, si, m).
             \<lparr>ow_id = OperationID (Service_Decorators si m) (OperationBaseName svcName m counts),
              ow_ref = svcName @ ''.'' @ me_Name m, ow_pkg = pkgName, ow_pos = me_Pos m\<rparr>)
           (filter (\<lambda>(_, _, si, m). \<not> Hidden si m) (project_methods p)))"

definition report_operation :: "string \<Rightarrow> op_owner list \<Rightarrow> Diagnostic list" where
  "report_operation oid who =
     (if length who < 2 then []
      else
        let many = length (remdups (map ow_pkg who)) > 1;
            refs = map (\<lambda>o'. if many then ow_pkg o' @ ''.'' @ ow_ref o' else ow_ref o') who;
            msg = (if many then ''operationId %q is shared across packages by %s - give each method a distinct @operationId(...)''
                   else ''operationId %q is shared by %s - give each method a distinct @operationId(...)'')
        in map (\<lambda>o'. error_at (ow_pos o') CodeDuplicateOperation (Msg msg [AStr oid, AStr (Join refs '', '')])) who)"

definition checkProjectOperationIDUniqueness :: "Project \<Rightarrow> Diagnostic list" where
  "checkProjectOperationIDUniqueness p =
     (let owners = operation_owners p
      in concat (map (\<lambda>oid. report_operation oid (filter (\<lambda>o'. ow_id o' = oid) owners))
           (sort (remdups (map ow_id owners)))))"

section \<open>Lemmas\<close>

lemma filter_eq_length: "length (filter (\<lambda>x. f x = k) xs) = count_list (map f xs) k"
  by (induction xs) auto

lemma distinct_count_list: "distinct xs \<longleftrightarrow> (\<forall>x. count_list xs x \<le> 1)"
proof (induction xs)
  case (Cons a xs)
  show ?case
  proof
    assume d: "distinct (a # xs)"
    then have "count_list xs a = 0" and "\<And>x. count_list xs x \<le> 1" using Cons by (simp_all add: count_list_0_iff)
    then show "\<forall>x. count_list (a # xs) x \<le> 1" by simp
  next
    assume le: "\<forall>x. count_list (a # xs) x \<le> 1"
    then have "count_list xs a = 0" using le [rule_format, of a] by simp
    moreover have "count_list xs x \<le> 1" for x using le [rule_format, of x] by (simp split: if_splits)
    ultimately show "distinct (a # xs)" using Cons by (simp add: count_list_0_iff)
  qed
qed simp

text \<open>Groups of one key with fewer than two members each: the keys are distinct.\<close>

lemma small_groups_distinct:
  "(\<forall>k \<in> f ` set xs. length (filter (\<lambda>x. f x = k) xs) < 2) \<longleftrightarrow> distinct (map f xs)"
proof -
  have "count_list (map f xs) k \<le> 1" if "k \<notin> f ` set xs" for k
    using that by (subst count_notin) auto
  then show ?thesis
    unfolding filter_eq_length distinct_count_list by (metis One_nat_def less_2_cases_iff less_one linorder_not_le nat_less_le)
qed

lemma report_operation_nil: "report_operation oid who = [] \<longleftrightarrow> length who < 2"
  by (auto simp: report_operation_def Let_def)

lemma operation_ids_silent: "checkProjectOperationIDUniqueness p = [] \<longleftrightarrow> distinct (map ow_id (operation_owners p))"
  using small_groups_distinct [of ow_id "operation_owners p"]
  by (simp add: checkProjectOperationIDUniqueness_def Let_def report_operation_nil)


end
