(* ===== verification/Paths.thy ===== *)
theory Paths
  imports Services Flatten
begin

text \<open>
  The checks on the routes of a design: \<^verbatim>\<open>paths.go\<close> of \<^verbatim>\<open>internal/semantic\<close> and
  \<open>checkServiceMethods\<close> of \<^verbatim>\<open>method_checks.go\<close>. As in \<open>Route\<close>, \<open>unicode.IsLetter\<close> and
  \<open>unicode.IsDigit\<close> are arguments. A loop that reports as it goes is a recursion over what is
  left of the list with the tables it has filled.
\<close>

section \<open>Routes of methods\<close>

definition CodePathHealthConflict :: string where "CodePathHealthConflict = ''path/health-conflict''"
definition CodeRoutePattern :: string where "CodeRoutePattern = ''route/pattern''"
definition CodeDuplicatePathVar :: string where "CodeDuplicatePathVar = ''route/duplicate-path-var''"
definition CodePathCollision :: string where "CodePathCollision = ''path/collision''"
definition CodePathBaseFormat :: string where "CodePathBaseFormat = ''path/base-format''"
definition CodePathParamMissing :: string where "CodePathParamMissing = ''path/param-missing''"
definition CodePathParamOrphan :: string where "CodePathParamOrphan = ''path/param-orphan''"
definition CodeServiceDuplicateMethod :: string where "CodeServiceDuplicateMethod = ''service/duplicate-method''"
definition CodeServiceDuplicateRoute :: string where "CodeServiceDuplicateRoute = ''service/duplicate-route''"

definition defaultHealthPaths :: "string list" where
  "defaultHealthPaths = [''/healthz'', ''/readyz'']"

definition registeredRoute :: "ServiceInfo \<Rightarrow> Method \<Rightarrow> string" where
  "registeredRoute si m = Resolve (si_basePath si) (si_Primary si) m"

definition wildcardOrigins :: "string \<Rightarrow> string \<Rightarrow> string table" where
  "wildcardOrigins path loc =
     fold (\<lambda>seg out. case WildcardName seg of (name, ok) \<Rightarrow> if ok then AList.update name loc out else out)
       (Segments path) []"

section \<open>Prefixes and ends\<close>

fun prefix_loop :: "(rune \<Rightarrow> bool) \<Rightarrow> (rune \<Rightarrow> bool) \<Rightarrow> Decorator \<Rightarrow> string \<Rightarrow> string table \<Rightarrow> string list \<Rightarrow> Diagnostic list" where
  "prefix_loop L D d pfx boundBy [] = []"
| "prefix_loop L D d pfx boundBy (seg # segs) =
     (case SegmentProblem L D seg of
        Some why \<Rightarrow> at_decorator d CodeRoutePattern
            (Msg ''@prefix %q: net/http's ServeMux refuses the segment %q - %s'' [AStr pfx, AStr seg, AStr why]) []
          # prefix_loop L D d pfx boundBy segs
      | None \<Rightarrow>
          (case WildcardName seg of (name, ok) \<Rightarrow>
             if \<not> ok then prefix_loop L D d pfx boundBy segs
             else case map_of boundBy name of
               Some loc \<Rightarrow> at_decorator d CodeDuplicatePathVar
                   (Msg ''@prefix %q repeats the path variable {%s}, already bound by %s: net/http's ServeMux panics on a duplicate wildcard at registration. Rename one.''
                     [AStr pfx, AStr name, AStr loc]) []
                 # prefix_loop L D d pfx boundBy segs
             | None \<Rightarrow> prefix_loop L D d pfx
                 (AList.update name ''an earlier segment of the @prefix'' boundBy) segs))"

definition checkPrefixPattern :: "(rune \<Rightarrow> bool) \<Rightarrow> (rune \<Rightarrow> bool) \<Rightarrow> ServiceInfo \<Rightarrow> Diagnostic list" where
  "checkPrefixPattern L D si =
     (case si_Primary si of
        None \<Rightarrow> []
      | Some primary \<Rightarrow>
          let pfx = ServicePrefix (Some primary)
          in case FindDecorator (decs (sv_Decorators primary)) ''prefix'' of
               None \<Rightarrow> []
             | Some d \<Rightarrow>
                 if pfx = [] then []
                 else prefix_loop L D d pfx (wildcardOrigins (si_basePath si) ''the basePath'') (Segments pfx))"

definition checkRouteEnd :: "(rune \<Rightarrow> bool) \<Rightarrow> (rune \<Rightarrow> bool) \<Rightarrow> string \<Rightarrow> Method \<Rightarrow> string \<Rightarrow> Diagnostic list" where
  "checkRouteEnd L D svcName m rt =
     map (\<lambda>seg. error_at (me_Pos m) CodeRoutePattern
           (Msg ''method %s.%s resolves to %s, where %s is not the last segment: net/http's ServeMux takes `{name...}` and `{$}` only at the end of a route, so registering it panics''
             [AStr svcName, AStr (me_Name m), AStr rt, AStr seg]))
       (filter (\<lambda>seg. EndsRoute seg \<and> SegmentProblem L D seg = None) (butlast (Segments rt)))"

definition checkMethodPathSegments :: "(rune \<Rightarrow> bool) \<Rightarrow> (rune \<Rightarrow> bool) \<Rightarrow> string \<Rightarrow> Method \<Rightarrow> Diagnostic list" where
  "checkMethodPathSegments L D svcName m =
     (case me_Path m of
        None \<Rightarrow> []
      | Some path \<Rightarrow>
          concat (map (\<lambda>seg.
            if ps_Param seg then []
            else case SegmentProblem L D (ps_Literal seg) of
              None \<Rightarrow> []
            | Some why \<Rightarrow> [error_at (ps_Pos seg) CodeRoutePattern
                (Msg ''method %s.%s: net/http's ServeMux refuses the segment %q - %s''
                  [AStr svcName, AStr (me_Name m), AStr (ps_Literal seg), AStr why])]) (pa_Segments path)))"

section \<open>Repeated variables\<close>

definition bound_before :: "ServiceInfo \<Rightarrow> string table" where
  "bound_before si =
     fold (\<lambda>(name, _) bound. case map_of bound name of
         Some _ \<Rightarrow> bound
       | None \<Rightarrow> AList.update name ''the service @prefix'' bound)
       (wildcardOrigins (ServicePrefix (si_Primary si)) ''the service @prefix'')
       (wildcardOrigins (si_basePath si) ''the basePath'')"

fun duplicate_var :: "string \<Rightarrow> Method \<Rightarrow> string table \<Rightarrow> string set \<Rightarrow> PathSegment list \<Rightarrow> Diagnostic list" where
  "duplicate_var svcName m boundBy seen [] = []"
| "duplicate_var svcName m boundBy seen (seg # segs) =
     (if \<not> ps_Param seg then duplicate_var svcName m boundBy seen segs
      else case map_of boundBy (ps_Literal seg) of
        Some loc \<Rightarrow> [error_at (ps_Pos seg) CodeDuplicatePathVar
          (Msg ''%s.%s route repeats the path variable {%s} already bound by %s: the registered route is basePath + @prefix + method path, so net/http's ServeMux panics on the duplicate wildcard at registration. Drop {%s} from the method path.''
            [AStr svcName, AStr (me_Name m), AStr (ps_Literal seg), AStr loc, AStr (ps_Literal seg)])]
      | None \<Rightarrow>
          if ps_Literal seg \<in> seen
          then [error_at (ps_Pos seg) CodeDuplicatePathVar
                 (Msg ''%s.%s route repeats the path variable {%s}: net/http's ServeMux panics on a duplicate wildcard at registration. Rename one segment.''
                   [AStr svcName, AStr (me_Name m), AStr (ps_Literal seg)])]
          else duplicate_var svcName m boundBy (insert (ps_Literal seg) seen) segs)"

definition checkDuplicatePathVars :: "ServiceInfo \<Rightarrow> string \<Rightarrow> Method \<Rightarrow> Diagnostic list" where
  "checkDuplicatePathVars si svcName m =
     (case me_Path m of
        None \<Rightarrow> []
      | Some path \<Rightarrow> duplicate_var svcName m (bound_before si) {} (pa_Segments path))"

definition methodRoutePathVars :: "Method option \<Rightarrow> ServiceInfo list \<Rightarrow> string set" where
  "methodRoutePathVars m services =
     (case m of
        None \<Rightarrow> {}
      | Some m \<Rightarrow>
          let owner = foldl (\<lambda>owner si. if m \<in> set (si_Methods si) then si else owner)
                \<lparr>si_Primary = None, si_Extends = [], si_Methods = [], si_basePath = []\<rparr> services
          in set (Vars (registeredRoute owner m)))"

section \<open>Request fields of a route\<close>

fun route_variables :: "string list \<Rightarrow> string list \<Rightarrow> string table \<Rightarrow> string list \<times> string table" where
  "route_variables [] names written = (names, written)"
| "route_variables (seg # segs) names written =
     (case WildcardName seg of (name, ok) \<Rightarrow>
        if ok \<and> (case map_of written name of Some w \<Rightarrow> w = [] | None \<Rightarrow> True)
        then route_variables segs (names @ [name]) (AList.update name seg written)
        else route_variables segs names written)"

definition routeVariables :: "string \<Rightarrow> string list \<times> string table" where
  "routeVariables rt = route_variables (Segments rt) [] []"

record pathParamSet =
  pps_all :: "string set"
  pps_explicit :: "string list"

definition bound_path :: "string list \<Rightarrow> bool \<Rightarrow> FlatField \<Rightarrow> (string \<times> bool) option" where
  "bound_path pathParams bodyVerb ff =
     (case RequestFieldBinding (ff_Field ff) (set pathParams) bodyVerb of (b, auto) \<Rightarrow>
        if b \<noteq> BindPath then None else Some (WireName (Some (ff_Field ff)) BindPath, auto))"

definition requestPathFields :: "Project \<Rightarrow> Package \<Rightarrow> Method \<Rightarrow> string list \<Rightarrow> pathParamSet option" where
  "requestPathFields p pkg m pathParams =
     (case instanceFields p (p_Name pkg) (me_Request m) of
        None \<Rightarrow> None
      | Some (_, flat) \<Rightarrow>
          let bound = List.map_filter (bound_path pathParams (IsBodyVerb (me_Verb m))) flat
          in Some \<lparr>pps_all = set (map fst bound), pps_explicit = map fst (filter (\<lambda>(_, auto). \<not> auto) bound)\<rparr>)"

definition written_as :: "string table \<Rightarrow> string \<Rightarrow> string" where
  "written_as written name = (case map_of written name of Some seg \<Rightarrow> seg | None \<Rightarrow> [])"

text \<open>A \<open>@path\<close> name with no segment, and the variable its \<open>...\<close> misses.\<close>

definition orphan_hint :: "string table \<Rightarrow> string \<Rightarrow> string option" where
  "orphan_hint written name =
     (let trimmed = TrimSuffix name ''...''
      in if trimmed \<noteq> name \<and> written_as written trimmed \<noteq> [] then Some trimmed else None)"

definition orphan_diag :: "string \<Rightarrow> Method \<Rightarrow> string \<Rightarrow> string table \<Rightarrow> string \<Rightarrow> Diagnostic" where
  "orphan_diag svcName m rt written name =
     error_at (me_Pos m) CodePathParamOrphan
       (Msg ''method %s.%s: field %q has @path binding but route %s has no {%s} segment%s''
         [AStr svcName, AStr (me_Name m), AStr name, AStr rt, AStr name,
          AErr (case orphan_hint written name of
              None \<Rightarrow> Msg [] []
            | Some trimmed \<Rightarrow> Msg '' - the variable %s is named %q'' [AStr (written_as written trimmed), AStr trimmed])])"

definition checkMethodPathParams :: "Project \<Rightarrow> Package \<Rightarrow> string \<Rightarrow> Method \<Rightarrow> Decorator list \<Rightarrow> string \<Rightarrow> Diagnostic list" where
  "checkMethodPathParams p pkg svcName m ds rt =
     (let (pathParams, written) = routeVariables rt
      in case me_Request m of
           None \<Rightarrow>
             if pathParams \<noteq> [] \<and> \<not> fst (RawSides (decs ds))
             then [error_at (me_Pos m) CodePathParamMissing
                    (Msg ''method %s.%s: path declares %s but no request struct - path values won't reach logic. Declare a request struct with a `<name> string @path` (or matching field name) to bind.''
                      [AStr svcName, AStr (me_Name m), AStr (Join (map (written_as written) pathParams) '', '')])]
             else []
         | Some req \<Rightarrow>
             if pathParams = [] \<and> nt_Name req = None then []
             else case requestPathFields p pkg m pathParams of
               None \<Rightarrow> []
             | Some reqFields \<Rightarrow>
                 let orphans = filter (\<lambda>name. name \<notin> set pathParams) (pps_explicit reqFields);
                     reported = set (List.map_filter (orphan_hint written) orphans)
                 in map (orphan_diag svcName m rt written) orphans
                    @ map (\<lambda>q. error_at (me_Pos m) CodePathParamMissing
                         (Msg ''method %s.%s: path segment %s has no matching field in request type''
                           [AStr svcName, AStr (me_Name m), AStr (written_as written q)]))
                       (filter (\<lambda>q. q \<notin> pps_all reqFields \<and> q \<notin> reported) pathParams))"

section \<open>One package\<close>

definition check_method_route :: "(rune \<Rightarrow> bool) \<Rightarrow> (rune \<Rightarrow> bool) \<Rightarrow> Project \<Rightarrow> Package \<Rightarrow> string set \<Rightarrow> string \<Rightarrow> ServiceInfo \<Rightarrow> Method
    \<Rightarrow> Diagnostic list" where
  "check_method_route L D p pkg healthSet svcName si m =
     (let rt = registeredRoute si m
      in (if rt \<in> healthSet
          then [error_at (me_Pos m) CodePathHealthConflict
                 (Msg ''method %s.%s resolves to %s, which is a reserved health path'' [AStr svcName, AStr (me_Name m), AStr rt])]
          else [])
         @ checkRouteEnd L D svcName m rt
         @ checkMethodPathSegments L D svcName m
         @ checkDuplicatePathVars si svcName m
         @ checkMethodPathParams p pkg svcName m (Service_Decorators si m) rt)"

definition checkPathResolution :: "(rune \<Rightarrow> bool) \<Rightarrow> (rune \<Rightarrow> bool) \<Rightarrow> string list \<Rightarrow> Project \<Rightarrow> Package \<Rightarrow> Diagnostic list" where
  "checkPathResolution L D healthPaths p pkg =
     (let healths = set (if healthPaths = [] then defaultHealthPaths else healthPaths)
      in concat (map (\<lambda>svcName. case map_of (p_Services pkg) svcName of
             None \<Rightarrow> []
           | Some si \<Rightarrow> checkPrefixPattern L D si
               @ concat (map (check_method_route L D p pkg healths svcName si) (si_Methods si)))
           (sorted_keys (p_Services pkg))))"

fun service_methods :: "ServiceInfo \<Rightarrow> Position table \<Rightarrow> Position table \<Rightarrow> Method list \<Rightarrow> Diagnostic list" where
  "service_methods si seenName seenRoute [] = []"
| "service_methods si seenName seenRoute (m # ms) =
     (let rt = registeredRoute si m;
          key = me_Verb m @ '' '' @ Shape rt;
          (d1, seenName') = (case map_of seenName (me_Name m) of
              Some prev \<Rightarrow> ([sem_diag (me_Pos m) (me_Pos m) SeverityError CodeServiceDuplicateMethod
                  (Msg ''duplicate method %q'' [AStr (me_Name m)]) (related prev ''first declared here'')], seenName)
            | None \<Rightarrow> ([], AList.update (me_Name m) (me_Pos m) seenName));
          (d2, seenRoute') = (case map_of seenRoute key of
              Some prev \<Rightarrow> ([sem_diag (me_Pos m) (me_Pos m) SeverityError CodeServiceDuplicateRoute
                  (Msg ''duplicate route %q'' [AStr (me_Verb m @ '' '' @ rt)]) (related prev ''first declared here'')], seenRoute)
            | None \<Rightarrow> ([], AList.update key (me_Pos m) seenRoute))
      in d1 @ d2 @ service_methods si seenName' seenRoute' ms)"

definition checkServiceMethods :: "Package \<Rightarrow> Diagnostic list" where
  "checkServiceMethods pkg = concat (map (\<lambda>(_, si). service_methods si [] [] (si_Methods si)) (p_Services pkg))"

section \<open>The whole project\<close>

record routeEntry =
  re_verb :: string
  re_route :: string
  re_shape :: string
  re_pos :: Position
  re_pkg :: string
  re_service :: string
  re_method :: string

definition route_entries :: "Project \<Rightarrow> routeEntry list" where
  "route_entries p =
     map (\<lambda>(pkgName, svcName, si, m).
        \<lparr>re_verb = ToUpper (me_Verb m), re_route = registeredRoute si m, re_shape = Shape (registeredRoute si m),
         re_pos = me_Pos m, re_pkg = pkgName, re_service = svcName, re_method = me_Name m\<rparr>) (project_methods p)"

definition packageNote :: "string \<Rightarrow> string \<Rightarrow> string" where
  "packageNote other own = (if other = own then [] else '' (package '' @ other @ '')'')"

fun same_shapes :: "((string \<times> string) \<times> routeEntry) list \<Rightarrow> routeEntry list \<Rightarrow> Diagnostic list" where
  "same_shapes fs [] = []"
| "same_shapes fs (e # es) =
     (case map_of fs (re_verb e, re_shape e) of
        None \<Rightarrow> same_shapes (AList.update (re_verb e, re_shape e) e fs) es
      | Some prev \<Rightarrow>
          if re_pkg prev = re_pkg e \<and> re_service prev = re_service e then same_shapes fs es
          else sem_diag (re_pos e) (re_pos e) SeverityError CodePathCollision
                 (Msg ''method %s.%s resolves to %s %s, which already binds %s.%s%s''
                   [AStr (re_service e), AStr (re_method e), AStr (re_verb e), AStr (re_route e),
                    AStr (re_service prev), AStr (re_method prev), AStr (packageNote (re_pkg prev) (re_pkg e))])
                 (related (re_pos prev) ''first declared here'')
               # same_shapes fs es)"

definition overlap_pair :: "routeEntry \<Rightarrow> routeEntry \<Rightarrow> Diagnostic list" where
  "overlap_pair a b =
     (if re_verb a \<noteq> re_verb b \<or> re_shape a = re_shape b \<or> \<not> PatternsConflict (re_route a) (re_route b) then []
      else [sem_diag (re_pos a) (re_pos a) SeverityError CodePathCollision
              (Msg ''method %s.%s resolves to %s %s, which overlaps %s %s of %s.%s%s: both match the same paths and neither is more specific, so net/http rejects the pair at startup; give one route a distinct literal segment or move the variable to @query''
                [AStr (re_service a), AStr (re_method a), AStr (re_verb a), AStr (re_route a), AStr (re_verb b),
                 AStr (re_route b), AStr (re_service b), AStr (re_method b), AStr (packageNote (re_pkg b) (re_pkg a))])
              (related (re_pos b) ''overlaps this route'')])"

definition checkProjectPathCollision :: "Project \<Rightarrow> Diagnostic list" where
  "checkProjectPathCollision p =
     (let es = route_entries p
      in same_shapes [] es
         @ concat (map (\<lambda>i. concat (map (\<lambda>j. overlap_pair (es ! i) (es ! j)) [0..<i])) [1..<length es]))"

fun base_loop :: "(rune \<Rightarrow> bool) \<Rightarrow> (rune \<Rightarrow> bool) \<Rightarrow> Position \<Rightarrow> string \<Rightarrow> string set \<Rightarrow> string set \<Rightarrow> string set \<Rightarrow> string list
    \<Rightarrow> Diagnostic list" where
  "base_loop L D manifest basePath refused repeated seen [] = []"
| "base_loop L D manifest basePath refused repeated seen (seg # segs) =
     (case SegmentProblem L D seg of
        Some why \<Rightarrow>
          (if seg \<in> refused then []
           else [error_at manifest CodeRoutePattern
                  (Msg ''openapi.basePath %q: net/http's ServeMux refuses the segment %q - %s'' [AStr basePath, AStr seg, AStr why])])
          @ base_loop L D manifest basePath (insert seg refused) repeated seen segs
      | None \<Rightarrow>
          (case WildcardName seg of (name, ok) \<Rightarrow>
             if \<not> ok then base_loop L D manifest basePath refused repeated seen segs
             else if name \<in> seen \<and> name \<notin> repeated
             then error_at manifest CodeDuplicatePathVar
                    (Msg ''openapi.basePath %q repeats the path variable {%s}: net/http's ServeMux panics on a duplicate wildcard at registration. Rename one.''
                      [AStr basePath, AStr name])
                  # base_loop L D manifest basePath refused (insert name repeated) (insert name seen) segs
             else base_loop L D manifest basePath refused repeated (insert name seen) segs))"

definition checkBasePathPattern :: "(rune \<Rightarrow> bool) \<Rightarrow> (rune \<Rightarrow> bool) \<Rightarrow> Position \<Rightarrow> string \<Rightarrow> Diagnostic list" where
  "checkBasePathPattern L D manifest basePath = base_loop L D manifest basePath {} {} {} (Segments basePath)"

definition checkBasePathFormat :: "Position \<Rightarrow> string \<Rightarrow> Diagnostic list" where
  "checkBasePathFormat manifest bp =
     (if bp = [] then []
      else
        let bad = (if \<not> HasPrefix bp ''/'' then ''must start with `/`''
                   else if length bp > 1 \<and> HasSuffix bp ''/'' then ''must not end with `/`''
                   else if Contains bp ''//'' then ''must not contain `//`''
                   else [])
        in if bad = [] then []
           else [sem_diag manifest manifest SeverityWarning CodePathBaseFormat
                  (Msg ''openapi.basePath %q is malformed: %s - codegen will normalise but please fix the manifest''
                    [AStr bp, AStr bad]) []])"

end
