(* ===== verification/Literals.thy ===== *)
theory Literals
  imports Complex_Main Decorators
begin

text \<open>
  The literals decorators take: \<^verbatim>\<open>decorator_values.go\<close> and \<^verbatim>\<open>enums.go\<close> of \<^verbatim>\<open>internal/semantic\<close>,
  \<open>ParseSize\<close> of the lexer, and the printers and kinds of literals the constraint checks share.

  A \<open>big.Rat\<close> is a \<open>rat\<close>. A float is its exact value, rounded to nearest even at a width given
  as the bits of the mantissa and the least and greatest exponents; \<open>FormatFloat(f, 'g', -1, 64)\<close>
  is given by the decimal it prints, the shortest that reads back as the same \<open>float64\<close>.
  \<open>strconv.IsPrint\<close>, a table of the Go library, is an argument of what quotes a string.
\<close>

section \<open>Floats by value\<close>

definition float_rat :: "float64 \<Rightarrow> rat option" where
  "float_rat f = (case f of
       Infinite _ \<Rightarrow> None
     | Finite neg m e \<Rightarrow> Some ((if neg then - 1 else 1) * of_nat m * (if 0 \<le> e then 2 ^ nat e else 1 / 2 ^ nat (- e))))"

record float_width =
  fw_bits :: nat
  fw_least :: int
  fw_most :: int

definition float_width :: "nat \<Rightarrow> float_width" where
  "float_width bits =
     (if bits = 32 then \<lparr>fw_bits = 24, fw_least = - 149, fw_most = 104\<rparr>
      else \<lparr>fw_bits = 53, fw_least = - 1074, fw_most = 971\<rparr>)"

definition pow2 :: "int \<Rightarrow> rat" where
  "pow2 e = (if 0 \<le> e then 2 ^ nat e else 1 / 2 ^ nat (- e))"

text \<open>The exponent of the last place of a float as large as \<open>x\<close>.\<close>

definition ulp_exp :: "float_width \<Rightarrow> rat \<Rightarrow> int" where
  "ulp_exp w x =
     (let (n, d) = quotient_of \<bar>x\<bar>;
          k = int (bitlen (nat n)) - int (bitlen (nat d));
          fl = (if pow2 k \<le> \<bar>x\<bar> then k else k - 1)
      in max (fw_least w) (fl - (int (fw_bits w) - 1)))"

definition max_float :: "float_width \<Rightarrow> rat" where
  "max_float w = (2 ^ fw_bits w - 1) * pow2 (fw_most w)"

definition round_even :: "rat \<Rightarrow> int" where
  "round_even x =
     (let f = \<lfloor>x\<rfloor>; r = x - of_int f
      in if r > 1 / 2 \<or> r = 1 / 2 \<and> odd f then f + 1 else f)"

text \<open>The float of a width nearest to \<open>x\<close>, ties to even; \<open>None\<close> past the largest finite one.\<close>

definition round_at :: "float_width \<Rightarrow> rat \<Rightarrow> rat option" where
  "round_at w x =
     (if x = 0 then Some 0
      else
        let e = ulp_exp w x; y = of_int (round_even (x / pow2 e)) * pow2 e
        in if \<bar>y\<bar> > max_float w then None else Some y)"

text \<open>The float next to \<open>x\<close> at a width, above it when \<open>up\<close>; \<open>None\<close> for an infinity.\<close>

definition next_at :: "float_width \<Rightarrow> rat \<Rightarrow> bool \<Rightarrow> rat option" where
  "next_at w x up =
     (let away = x = 0 \<or> (up \<longleftrightarrow> x > 0);
          e = (if x = 0 then fw_least w else ulp_exp w x);
          below = (\<not> away \<and> \<bar>x\<bar> = pow2 (e + int (fw_bits w) - 1) \<and> fw_least w < e);
          step = pow2 (if below then e - 1 else e);
          y = (if up then x + step else x - step)
      in if \<bar>y\<bar> > max_float w then None else Some y)"

text \<open>The decimal exponent of the first digit of \<open>x > 0\<close>: \<open>10 ^ k \<le> x < 10 ^ (k + 1)\<close>.\<close>

definition pow10 :: "int \<Rightarrow> rat" where
  "pow10 k = (if 0 \<le> k then 10 ^ nat k else 1 / 10 ^ nat (- k))"

definition first_digit :: "rat \<Rightarrow> int" where
  "first_digit x =
     (if x \<ge> 1 then int (length (Itoa (nat \<lfloor>x\<rfloor>))) - 1
      else - int (length (takeWhile (\<lambda>k. x * 10 ^ k < 1) [0..<1100])))"

text \<open>The nearest decimals of \<open>n\<close> digits on both sides of \<open>x\<close> that read back as \<open>x\<close>, the closer one first.\<close>

definition digits_back :: "rat \<Rightarrow> nat \<Rightarrow> rat option" where
  "digits_back x n =
     (let u = pow10 (first_digit x - int n + 1);
          lo = of_int \<lfloor>x / u\<rfloor> * u; hi = of_int \<lceil>x / u\<rceil> * u;
          both = (if x - lo < hi - x \<or> x - lo = hi - x \<and> even \<lfloor>x / u\<rfloor> then [lo, hi] else [hi, lo])
      in find (\<lambda>d. round_at (float_width 64) d = Some x) both)"

definition shortest :: "rat \<Rightarrow> rat" where
  "shortest x =
     (if x = 0 then 0
      else case first_some (digits_back \<bar>x\<bar>) [1..<18] of
        Some d \<Rightarrow> if x < 0 then - d else d
      | None \<Rightarrow> x)"

section \<open>Sizes\<close>

text \<open>The product of \<open>int64\<close> values, and Go's quotient, which truncates.\<close>

definition wrap64 :: "int \<Rightarrow> int" where
  "wrap64 n = (n + 2 ^ 63) mod 2 ^ 64 - 2 ^ 63"

definition quo :: "int \<Rightarrow> int \<Rightarrow> int" where
  "quo a b = (if (a < 0) = (b < 0) then \<bar>a\<bar> div \<bar>b\<bar> else - (\<bar>a\<bar> div \<bar>b\<bar>))"

definition trunc :: "rat \<Rightarrow> int" where
  "trunc x = (if x < 0 then - \<lfloor>- x\<rfloor> else \<lfloor>x\<rfloor>)"

definition scaleSize :: "string \<Rightarrow> int \<Rightarrow> int option" where
  "scaleSize num mult =
     (if num = [] then None
      else case ParseInt num of
        (n, True) \<Rightarrow>
          let p = wrap64 (n * mult)
          in if n \<noteq> 0 \<and> wrap64 (quo p n) \<noteq> mult then None else Some p
      | (_, False) \<Rightarrow>
          (case ParseFloat num of
             (f, True) \<Rightarrow>
               (case float_rat f of
                  None \<Rightarrow> None
                | Some x \<Rightarrow>
                    (case round_at (float_width 64) (x * of_int mult) of
                       None \<Rightarrow> None
                     | Some scaled \<Rightarrow> if - (2 ^ 63) < scaled \<and> scaled < 2 ^ 63 then Some (trunc scaled) else None))
           | (_, False) \<Rightarrow> None))"

definition ParseSize :: "string \<Rightarrow> int option" where
  "ParseSize text' =
     (let t = TrimSpace text'
      in if t = [] then None
         else case find (\<lambda>u. HasSuffix t (Suffix u)) SizeUnits of
           Some u \<Rightarrow> scaleSize (TrimSpace (TrimSuffix t (Suffix u))) (Bytes u)
         | None \<Rightarrow> scaleSize t 1)"

section \<open>Kinds of expressions\<close>

fun exprKind :: "Expr option \<Rightarrow> string" where
  "exprKind None = ''(no value)''"
| "exprKind (Some (StringLit p v t)) = ''string''"
| "exprKind (Some (IntLit p v)) = ''int''"
| "exprKind (Some (FloatLit p v t)) = ''float''"
| "exprKind (Some (BoolLit p v)) = ''bool''"
| "exprKind (Some (NullLit p)) = ''null''"
| "exprKind (Some (IdentExpr p q)) = ''identifier''"
| "exprKind (Some (DurationLit p t)) = ''duration''"
| "exprKind (Some (SizeLit p t)) = ''size''"
| "exprKind (Some (ArrayLit p es)) = ''array''"
| "exprKind (Some (BadExpr p)) = ''value''"

definition exprMatchesKind :: "Expr option \<Rightarrow> ArgKind \<Rightarrow> bool" where
  "exprMatchesKind e k \<longleftrightarrow>
     k = ArgAny \<or> (case argKinds k of Some (_, accepts) \<Rightarrow> exprKind e \<in> set accepts | None \<Rightarrow> False)"

definition positionalArgs :: "Decorator \<Rightarrow> DecoratorArg list" where
  "positionalArgs d = filter (\<lambda>a. \<not> da_Named a) (dec_Args d)"

definition firstPositional :: "Decorator \<Rightarrow> DecoratorArg option" where
  "firstPositional d = (case positionalArgs d of [] \<Rightarrow> None | a # _ \<Rightarrow> Some a)"

definition primitiveArgKind :: "string \<Rightarrow> ArgKind" where
  "primitiveArgKind prim =
     (case kind_of prim of
        None \<Rightarrow> ArgAny
      | Some k \<Rightarrow>
          if k \<in> {PString, PBytes, PDateTime} then ArgString
          else if k \<in> {PInt, PUint} then ArgInt
          else if k = PFloat then ArgNumber
          else if k = PBool then ArgBool
          else ArgAny)"

section \<open>Literals as written\<close>

definition hex :: "nat \<Rightarrow> nat \<Rightarrow> string" where
  "hex width n = map (\<lambda>i. ''0123456789abcdef'' ! ((n div 16 ^ i) mod 16)) (rev [0..<width])"

definition escaped_rune :: "(rune \<Rightarrow> bool) \<Rightarrow> rune \<Rightarrow> string" where
  "escaped_rune IsPrint r =
     (if r = 34 \<or> r = 92 then [CHR 0x5C, char_of r]
      else if IsPrint r then AppendRune r
      else if r = 7 then [CHR 0x5C, CHR ''a'']
      else if r = 8 then [CHR 0x5C, CHR ''b'']
      else if r = 12 then [CHR 0x5C, CHR ''f'']
      else if r = 10 then [CHR 0x5C, CHR ''n'']
      else if r = 13 then [CHR 0x5C, CHR ''r'']
      else if r = 9 then [CHR 0x5C, CHR ''t'']
      else if r = 11 then [CHR 0x5C, CHR ''v'']
      else if r < 32 \<or> r = 0x7F then [CHR 0x5C, CHR ''x''] @ hex 2 r
      else if r < 0x10000 then [CHR 0x5C, CHR ''u''] @ hex 4 r
      else [CHR 0x5C, CHR ''U''] @ hex 8 r)"

function quote_runes :: "(rune \<Rightarrow> bool) \<Rightarrow> string \<Rightarrow> string" where
  "quote_runes IsPrint s =
     (if s = [] then []
      else
        let (r, width) = DecodeRuneInString s
        in (if width = 1 \<and> r = RuneError then [CHR 0x5C, CHR ''x''] @ hex 2 (of_char (hd s)) else escaped_rune IsPrint r)
           @ quote_runes IsPrint (drop width s))"
  by pat_completeness auto
termination
  by (relation "measure (\<lambda>(_, s). length s)") (auto dest: DecodeRune_pair_size)

declare quote_runes.simps [simp del]

definition Quote :: "(rune \<Rightarrow> bool) \<Rightarrow> string \<Rightarrow> string" where
  "Quote IsPrint s = CHR 0x22 # quote_runes IsPrint s @ [CHR 0x22]"

definition FormatInt :: "int \<Rightarrow> string" where
  "FormatInt n = (if n < 0 then ''-'' @ Itoa (nat (- n)) else Itoa (nat n))"

fun literalText :: "(rune \<Rightarrow> bool) \<Rightarrow> Expr \<Rightarrow> string" where
  "literalText P (StringLit p v t) = (if t \<noteq> [] \<and> CHR 0x0D \<notin> set t \<and> CHR 0x0A \<notin> set t then t else Quote P v)"
| "literalText P (IntLit p v) = FormatInt v"
| "literalText P (FloatLit p v t) = t"
| "literalText P (BoolLit p v) = (if v then ''true'' else ''false'')"
| "literalText P (IdentExpr p (Some q)) = QualifiedIdent_String q"
| "literalText P (NullLit p) = ''null''"
| "literalText P (ArrayLit p es) = ''['' @ Join (map (literalText P) es) '', '' @ '']''"
| "literalText P e = exprKind (Some e)"

definition value_text :: "(rune \<Rightarrow> bool) \<Rightarrow> Expr option \<Rightarrow> string" where
  "value_text P e = (case e of None \<Rightarrow> exprKind None | Some e \<Rightarrow> literalText P e)"

definition decoratorCall :: "(rune \<Rightarrow> bool) \<Rightarrow> Decorator \<Rightarrow> string" where
  "decoratorCall P d =
     (case positionalArgs d of
        [] \<Rightarrow> ''@'' @ dec_Name d
      | args \<Rightarrow> ''@'' @ dec_Name d @ ''('' @ Join (map (\<lambda>a. value_text P (da_Value a)) args) '', '' @ '')'')"

section \<open>Numbers\<close>

record NumericLit =
  nl_IntVal :: int
  nl_FloatVal :: float64
  nl_IsInt :: bool
  nl_written :: string

definition int_float :: "int \<Rightarrow> float64" where
  "int_float n = (case round_f64 (nat \<bar>n\<bar>) 1 of Some (m, e) \<Rightarrow> Finite (n < 0) m e | None \<Rightarrow> Infinite (n < 0))"

definition zeroLit :: NumericLit where
  "zeroLit = \<lparr>nl_IntVal = 0, nl_FloatVal = Finite False 0 0, nl_IsInt = True, nl_written = []\<rparr>"

definition ParseNumeric :: "Expr option \<Rightarrow> NumericLit option" where
  "ParseNumeric e = (case e of
       Some (IntLit p v) \<Rightarrow> Some \<lparr>nl_IntVal = v, nl_FloatVal = int_float v, nl_IsInt = True, nl_written = []\<rparr>
     | Some (FloatLit p v t) \<Rightarrow> Some \<lparr>nl_IntVal = 0, nl_FloatVal = v, nl_IsInt = False, nl_written = t\<rparr>
     | _ \<Rightarrow> None)"

definition ParseNumericArg :: "DecoratorArg option \<Rightarrow> NumericLit option" where
  "ParseNumericArg a = (case a of None \<Rightarrow> None | Some a \<Rightarrow> ParseNumeric (da_Value a))"

text \<open>\<open>big.Rat.SetString\<close> of \<open>[-]digits[.digits]\<close>, the only text a float literal has.\<close>

definition decimal_rat :: "string \<Rightarrow> rat option" where
  "decimal_rat s =
     (let neg = HasPrefix s ''-''; t = TrimPrefix s ''-'';
          whole = takeWhile is_digit_char t; rest = drop (length whole) t; frac = TrimPrefix rest ''.''
      in if (rest = [] \<or> HasPrefix rest ''.'') \<and> list_all is_digit_char frac \<and> whole @ frac \<noteq> []
         then Some ((if neg then - 1 else 1) * of_nat (decimal_value (whole @ frac)) / 10 ^ length frac)
         else None)"

definition Rat :: "NumericLit \<Rightarrow> rat option" where
  "Rat l =
     (if nl_IsInt l then Some (of_int (nl_IntVal l))
      else case decimal_rat (nl_written l) of Some r \<Rightarrow> Some r | None \<Rightarrow> float_rat (nl_FloatVal l))"

text \<open>
  The exact value of a literal. A literal of a design has one; \<open>Cmp\<close> of an infinity without
  text, which is none, would panic in the source.
\<close>

definition rat_of :: "NumericLit \<Rightarrow> rat" where
  "rat_of l = (case Rat l of Some r \<Rightarrow> r | None \<Rightarrow> 0)"

definition compare_rat :: "rat \<Rightarrow> rat \<Rightarrow> int" where
  "compare_rat a b = (if a < b then - 1 else if a = b then 0 else 1)"

definition Cmp :: "NumericLit \<Rightarrow> NumericLit \<Rightarrow> int" where
  "Cmp l m = compare_rat (rat_of l) (rat_of m)"

definition wholeInt :: "NumericLit \<Rightarrow> int option" where
  "wholeInt l = (case Rat l of
       Some r \<Rightarrow> if snd (quotient_of r) = 1 then Some (fst (quotient_of r)) else None
     | None \<Rightarrow> None)"

definition IsWhole :: "NumericLit \<Rightarrow> bool" where
  "IsWhole l \<longleftrightarrow> wholeInt l \<noteq> None"

definition WholeText :: "NumericLit \<Rightarrow> string option" where
  "WholeText l = map_option FormatInt (wholeInt l)"

text \<open>\<open>Text\<close> as the value its text denotes, and as the argument of a message.\<close>

definition text_rat :: "NumericLit \<Rightarrow> rat option" where
  "text_rat l = (if nl_IsInt l then Some (of_int (nl_IntVal l)) else map_option shortest (float_rat (nl_FloatVal l)))"

definition float_arg :: "float64 \<Rightarrow> fmt_arg" where
  "float_arg f = (case f of Finite neg m e \<Rightarrow> AFloat neg m e | Infinite neg \<Rightarrow> AStr (if neg then ''-Inf'' else ''+Inf''))"

definition text_arg :: "NumericLit \<Rightarrow> fmt_arg" where
  "text_arg l = (if nl_IsInt l then AStr (FormatInt (nl_IntVal l)) else float_arg (nl_FloatVal l))"

definition countLit :: "nat \<Rightarrow> NumericLit" where
  "countLit n = \<lparr>nl_IntVal = int n, nl_FloatVal = int_float (int n), nl_IsInt = True, nl_written = []\<rparr>"

definition IntArg :: "DecoratorArg option \<Rightarrow> int option" where
  "IntArg a = (case ParseNumericArg a of Some l \<Rightarrow> if nl_IsInt l then Some (nl_IntVal l) else None | None \<Rightarrow> None)"

definition sizeBytes :: "Expr option \<Rightarrow> int option" where
  "sizeBytes e = (case e of
       Some (IntLit p v) \<Rightarrow> Some v
     | Some (SizeLit p t) \<Rightarrow> ParseSize t
     | _ \<Rightarrow> None)"

definition SizeArg :: "DecoratorArg option \<Rightarrow> int option" where
  "SizeArg a = (case a of None \<Rightarrow> None | Some a \<Rightarrow> sizeBytes (da_Value a))"

definition maxDurationSeconds :: int where
  "maxDurationSeconds = (2 ^ 63 - 1) div 1000000000"

definition DurationArg :: "DecoratorArg option \<Rightarrow> int option" where
  "DurationArg a = (case a of
       None \<Rightarrow> None
     | Some a \<Rightarrow> (case da_Value a of
           Some (IntLit p v) \<Rightarrow>
             if v > maxDurationSeconds \<or> v < - maxDurationSeconds then None else Some (wrap64 (v * 1000000000))
         | Some (DurationLit p t) \<Rightarrow> ParseDuration t
         | _ \<Rightarrow> None))"

section \<open>Enums\<close>

definition EnumPrimitive :: "EnumDecl option \<Rightarrow> string" where
  "EnumPrimitive ed = (case EnumValues ed of
       v # _ \<Rightarrow> if ev_Kind v = EnumInt then ''int'' else ''string''
     | [] \<Rightarrow> ''string'')"

datatype wire_value = WireInt int | WireString string

definition EnumMemberWire :: "EnumValue \<Rightarrow> wire_value" where
  "EnumMemberWire v = (case ev_Kind v of
       EnumInt \<Rightarrow> WireInt (ev_IntValue v)
     | EnumString \<Rightarrow> WireString (ev_StrValue v)
     | EnumBare \<Rightarrow> WireString (ev_Name v))"

definition enumMember :: "EnumDecl \<Rightarrow> string \<Rightarrow> EnumValue option" where
  "enumMember ed name = find (\<lambda>v. ev_Name v = name) (EnumValues (Some ed))"

definition enumMemberInt :: "EnumValue \<Rightarrow> int option" where
  "enumMemberInt v = (case EnumMemberWire v of WireInt n \<Rightarrow> Some n | WireString _ \<Rightarrow> None)"

definition EnumMemberWireString :: "EnumValue \<Rightarrow> string" where
  "EnumMemberWireString v = (case EnumMemberWire v of WireInt n \<Rightarrow> FormatInt n | WireString s \<Rightarrow> s)"

definition EnumKind :: "EnumDecl option \<Rightarrow> EnumValueKind" where
  "EnumKind ed = (if EnumPrimitive ed = ''int'' then EnumInt else EnumString)"

section \<open>Values of decorators\<close>

definition IsDeprecated :: "Decorator list \<Rightarrow> bool" where
  "IsDeprecated ds = HasDecorator (decs ds) ''deprecated''"

definition DeprecatedReason :: "Decorator list \<Rightarrow> string" where
  "DeprecatedReason ds = (case StringArg (decs ds) ''deprecated'' of Some s \<Rightarrow> s | None \<Rightarrow> [])"

definition CrossFieldNames :: "Decorator \<Rightarrow> string list" where
  "CrossFieldNames d = foldl (\<lambda>out n. if an_Value n \<in> set out then out else out @ [an_Value n]) [] (ArgNames d)"

definition Description :: "Decorator list \<Rightarrow> string list \<Rightarrow> string" where
  "Description ds doc =
     (case StringArg (decs ds) ''doc'' of Some s \<Rightarrow> if s \<noteq> [] then s else Join doc [CHR 0x0A] | None \<Rightarrow> Join doc [CHR 0x0A])"

definition DescriptionLines :: "Decorator list \<Rightarrow> string list \<Rightarrow> string list" where
  "DescriptionLines ds doc = (let desc = Description ds doc in if desc = [] then [] else SplitByte desc (CHR 0x0A))"

definition FieldIsRequired :: "Field option \<Rightarrow> bool" where
  "FieldIsRequired f = (case f of
       None \<Rightarrow> False
     | Some f \<Rightarrow> (case fd_Type f of
           None \<Rightarrow> False
         | Some t \<Rightarrow> \<not> tr_Optional t \<and> \<not> HasDecorator (decs (fd_Decorators f)) ''default''))"

datatype lit_value = LStr string | LInt int | LFloat float64 | LBool bool | LNull | LList "lit_value list"

fun literalValue :: "(string \<Rightarrow> lit_value) \<Rightarrow> Expr \<Rightarrow> lit_value option"
  and literalValues :: "(string \<Rightarrow> lit_value) \<Rightarrow> Expr list \<Rightarrow> lit_value list option" where
  "literalValue ident (StringLit p v t) = Some (LStr v)"
| "literalValue ident (IntLit p v) = Some (LInt v)"
| "literalValue ident (FloatLit p v t) = Some (LFloat v)"
| "literalValue ident (BoolLit p v) = Some (LBool v)"
| "literalValue ident (NullLit p) = Some LNull"
| "literalValue ident (IdentExpr p None) = None"
| "literalValue ident (IdentExpr p (Some q)) = Some (ident (QualifiedIdent_String q))"
| "literalValue ident (ArrayLit p es) = map_option LList (literalValues ident es)"
| "literalValue ident e = None"
| "literalValues ident [] = Some []"
| "literalValues ident (e # es) = (case literalValue ident e of
     None \<Rightarrow> None
   | Some x \<Rightarrow> map_option (\<lambda>xs. x # xs) (literalValues ident es))"

definition resolveEnumMember :: "Package option \<Rightarrow> string \<Rightarrow> string \<Rightarrow> wire_value option" where
  "resolveEnumMember pkg enumName member =
     (case pkg of
        None \<Rightarrow> None
      | Some pkg \<Rightarrow>
          if enumName = [] then None
          else case map_of (p_Enums pkg) enumName of
            None \<Rightarrow> None
          | Some ed \<Rightarrow> map_option EnumMemberWire (enumMember ed member))"

definition type_spelling :: "type_ref option \<Rightarrow> string" where
  "type_spelling t = (case t of
       None \<Rightarrow> []
     | Some t \<Rightarrow> (case tr_Named t of
           None \<Rightarrow> []
         | Some n \<Rightarrow> (case nt_Name n of None \<Rightarrow> [] | Some q \<Rightarrow> QualifiedIdent_String q)))"

definition resolveDecoratorLiteral :: "Field option \<Rightarrow> Package option \<Rightarrow> string \<Rightarrow> lit_value option" where
  "resolveDecoratorLiteral f pkg decName =
     (case f of
        None \<Rightarrow> None
      | Some f \<Rightarrow>
          (case find (\<lambda>d. dec_Name d = decName \<and> dec_Args d \<noteq> []) (fd_Decorators f) of
             None \<Rightarrow> None
           | Some d \<Rightarrow>
               Option.bind (da_Value (hd (dec_Args d)))
                 (literalValue (\<lambda>name. case resolveEnumMember pkg (type_spelling (fd_Type f)) name of
                      Some (WireInt n) \<Rightarrow> LInt n
                    | Some (WireString s) \<Rightarrow> LStr s
                    | None \<Rightarrow> LStr name))))"

definition ResolveDefaultValue :: "Field option \<Rightarrow> Package option \<Rightarrow> lit_value option" where
  "ResolveDefaultValue f pkg = resolveDecoratorLiteral f pkg ''default''"

definition ExampleValue :: "Field option \<Rightarrow> Package option \<Rightarrow> lit_value option" where
  "ExampleValue f pkg = resolveDecoratorLiteral f pkg ''example''"

end
