(* ===== verification/Collisions.thy ===== *)
theory Collisions
  imports Mixins Wire Literals
begin

text \<open>
  The names of generated Go code and of the wire, declaration by declaration:
  \<^verbatim>\<open>collision_checks.go\<close>, \<^verbatim>\<open>name_case.go\<close> and \<^verbatim>\<open>enum_checks.go\<close> of \<^verbatim>\<open>internal/semantic\<close>.

  \<open>L\<close> is \<open>unicode.IsLetter\<close>. The identity of a field is that of the field with its position.
  Identifiers of the language are ASCII, so the first letter of a name decides \<open>token.IsExported\<close>.
\<close>

definition CodeDeclNameCase :: string where "CodeDeclNameCase = ''decl/name-case''"
definition CodeFieldNameCollision :: string where "CodeFieldNameCollision = ''field/name-collision''"
definition CodeEnumValueCollision :: string where "CodeEnumValueCollision = ''enum/value-collision''"
definition CodeDeclGoNameCollision :: string where "CodeDeclGoNameCollision = ''decl/go-name-collision''"
definition CodeInvalidGoName :: string where "CodeInvalidGoName = ''field/invalid-go-name''"
definition CodeEnumDuplicateName :: string where "CodeEnumDuplicateName = ''enum/duplicate-name''"
definition CodeEnumMixedTypes :: string where "CodeEnumMixedTypes = ''enum/mixed-types''"
definition CodeEnumDuplicateLiteral :: string where "CodeEnumDuplicateLiteral = ''enum/duplicate-literal''"
definition CodeEnumEmpty :: string where "CodeEnumEmpty = ''enum/empty-values''"

text \<open>The names of a list in the order of their first occurrence.\<close>

definition first_order :: "'a list \<Rightarrow> 'a list" where
  "first_order xs = rev (remdups (rev xs))"

lemma set_first_order [simp]: "set (first_order xs) = set xs"
  by (simp add: first_order_def)

definition quoted :: "string \<Rightarrow> string" where
  "quoted s = [CHR 0x22] @ s @ [CHR 0x22]"

section \<open>Go identifiers of declarations\<close>

record goName =
  gn_name :: string
  gn_source :: string
  gn_role :: string
  gn_pos :: Position

definition mk_goName :: "string \<Rightarrow> string \<Rightarrow> string \<Rightarrow> Position \<Rightarrow> goName" where
  "mk_goName name source role pos = \<lparr>gn_name = name, gn_source = source, gn_role = role, gn_pos = pos\<rparr>"

definition isCookieTypeRef :: "type_ref option \<Rightarrow> bool" where
  "isCookieTypeRef t \<longleftrightarrow>
     (case Option.bind (Option.bind t tr_Named) nt_Name of None \<Rightarrow> False | Some q \<Rightarrow> QualifiedIdent_String q = ''cookie'')"

definition isFileTypeRef :: "type_ref option \<Rightarrow> bool" where
  "isFileTypeRef t \<longleftrightarrow>
     (case Option.bind (Option.bind t tr_Named) nt_Name of None \<Rightarrow> False | Some q \<Rightarrow> QualifiedIdent_String q = ''file'')"

definition cookieConstructorGoNames :: "string \<Rightarrow> string \<Rightarrow> TypeMember list \<Rightarrow> goName list" where
  "cookieConstructorGoNames name owner body =
     (let fs = Fields body; goNames = fst (DedupGoFieldNames (map fd_Name fs))
      in List.map_filter (\<lambda>(gn, f).
           if isCookieTypeRef (fd_Type f) \<and> \<not> (case fd_Type f of Some t \<Rightarrow> tr_Array t | None \<Rightarrow> False)
           then Some (mk_goName (CookieConstructorName owner gn) (''field '' @ quoted (name @ ''.'' @ fd_Name f)) ''its cookie constructor'' (fd_Pos f))
           else None) (zip goNames fs))"

definition enum_go_names :: "EnumDecl \<Rightarrow> goName list" where
  "enum_go_names dd =
     (let values = EnumValues (Some dd)
      in List.map_filter (\<lambda>(c, v).
           if ev_Name v \<noteq> []
           then Some (mk_goName c (''enum value '' @ quoted (ed_Name dd @ ''.'' @ ev_Name v)) ''its constant'' (ev_Pos v))
           else None) (zip (EnumConstNames (ed_Name dd) (map ev_Name values)) values))"

definition error_go_names :: "ErrorDecl \<Rightarrow> goName list" where
  "error_go_names dd =
     (let source = ''error '' @ quoted (er_Name dd)
      in [mk_goName (ErrorTypeName (er_Name dd)) source ''its type'' (er_Pos dd),
          mk_goName (ErrorCodeName (er_Name dd)) source ''its code constant'' (er_Pos dd),
          mk_goName (ErrorConstructorName (er_Name dd)) source ''its constructor'' (er_Pos dd)]
         @ (if Members (er_Body dd) \<noteq> [] then [mk_goName (ErrorBodyName (er_Name dd)) source ''its body struct'' (er_Pos dd)] else [])
         @ cookieConstructorGoNames (er_Name dd) (ErrorTypeName (er_Name dd)) (er_Body dd))"

definition typesGoNames :: "Decl \<Rightarrow> goName list" where
  "typesGoNames d =
     (case d of
        D_Type dd \<Rightarrow> mk_goName (td_Name dd) (''type '' @ quoted (td_Name dd)) ''its type'' (td_Pos dd)
          # cookieConstructorGoNames (td_Name dd) (td_Name dd) (td_Body dd)
      | D_Scalar dd \<Rightarrow> [mk_goName (sc_Name dd) (''scalar '' @ quoted (sc_Name dd)) ''its type'' (sc_Pos dd)]
      | D_Enum dd \<Rightarrow> mk_goName (ed_Name dd) (''enum '' @ quoted (ed_Name dd)) ''its type'' (ed_Pos dd) # enum_go_names dd
      | D_Error dd \<Rightarrow> error_go_names dd
      | _ \<Rightarrow> [])"

definition eventGoNames :: "EventDecl \<Rightarrow> goName list" where
  "eventGoNames ev =
     (let source = ''event '' @ quoted (en_Name ev)
      in [mk_goName (en_Name ev) source ''its descriptor'' (en_Pos ev),
          mk_goName (EventContractName (en_Name ev)) source ''its contract constant'' (en_Pos ev)])"

definition emitted_twice :: "goName list \<Rightarrow> string \<Rightarrow> Diagnostic list" where
  "emitted_twice names name =
     (case sort_key (\<lambda>n. pos_key (gn_pos n)) (filter (\<lambda>n. gn_name n = name) names) of
        [] \<Rightarrow> []
      | first # rest \<Rightarrow> map (\<lambda>dupe. sem_diag (gn_pos dupe) (gn_pos dupe) SeverityError CodeDeclGoNameCollision
          (Msg ''%s would emit Go identifier %q as %s, which %s already emits as %s - codegen cannot disambiguate decl names; rename one to fix''
            [AStr (gn_source dupe), AStr name, AStr (gn_role dupe), AStr (gn_source first), AStr (gn_role first)])
          (related (gn_pos first) ''first emitted here'')) rest)"

definition analyzer_reportGoNameCollisions :: "goName list \<Rightarrow> Diagnostic list" where
  "analyzer_reportGoNameCollisions names = concat (map (emitted_twice names) (first_order (map gn_name names)))"

definition types_names :: "File list \<Rightarrow> goName list" where
  "types_names files =
     concat (map (\<lambda>d. case d of D_Event _ \<Rightarrow> [] | _ \<Rightarrow> typesGoNames d) (filter (\<lambda>d. DeclName d \<noteq> []) (files_decls files)))"

definition events_names :: "File list \<Rightarrow> goName list" where
  "events_names files =
     concat (map (\<lambda>d. case d of D_Event ev \<Rightarrow> eventGoNames ev | _ \<Rightarrow> []) (filter (\<lambda>d. DeclName d \<noteq> []) (files_decls files)))"

definition checkDeclGoNameCollisions :: "File list \<Rightarrow> Diagnostic list" where
  "checkDeclGoNameCollisions files =
     analyzer_reportGoNameCollisions (types_names files) @ analyzer_reportGoNameCollisions (events_names files)"

section \<open>Go names of fields\<close>

definition collision_reports :: "string \<Rightarrow> Field list \<Rightarrow> Collision \<Rightarrow> Diagnostic list" where
  "collision_reports parent fs c =
     (let byName = (\<lambda>n. find (\<lambda>f. fd_Name f = n) (rev fs))
      in case col_DSLNames c of
           firstDSL # second # later \<Rightarrow>
             concat (map (\<lambda>(rank, dupeName). case byName dupeName of
                 None \<Rightarrow> []
               | Some anchor \<Rightarrow> [sem_diag (fd_Pos anchor) (fd_Pos anchor) SeverityWarning CodeFieldNameCollision
                   (Msg ''field name %q collides with %q in %s - both normalise to Go identifier %q; codegen will emit %q to keep the struct compilable, but the JSON wire shape carries BOTH DSL spellings (rename one if this duplication was unintended)''
                     [AStr dupeName, AStr firstDSL, AStr parent, AStr (col_CanonicalGoName c), AStr (col_ResolvedGoNames c ! (rank + 1))])
                   (case byName firstDSL of None \<Rightarrow> []
                    | Some first \<Rightarrow> related (fd_Pos first) ''first declared here (keeps the canonical Go name)'')])
               (enumerate 0 (second # later)))
         | _ \<Rightarrow> [])"

definition warnFieldCollisions :: "string \<Rightarrow> TypeMember list \<Rightarrow> Diagnostic list" where
  "warnFieldCollisions parent members =
     (let fs = filter (\<lambda>f. fd_Name f \<noteq> []) (Fields members)
      in if length fs < 2 then []
         else concat (map (collision_reports parent fs) (snd (DedupGoFieldNames (map fd_Name fs)))))"

definition checkOneDeclFieldCollisions :: "Decl \<Rightarrow> Diagnostic list" where
  "checkOneDeclFieldCollisions d =
     (case d of
        D_Type dd \<Rightarrow> warnFieldCollisions (''type '' @ td_Name dd) (td_Body dd)
      | D_Error dd \<Rightarrow> warnFieldCollisions (''error '' @ er_Name dd) (er_Body dd)
      | _ \<Rightarrow> [])"

definition checkFieldNameCollisions :: "File list \<Rightarrow> Diagnostic list" where
  "checkFieldNameCollisions files = concat (map checkOneDeclFieldCollisions (files_decls files))"

definition isLetterStart :: "(rune \<Rightarrow> bool) \<Rightarrow> string \<Rightarrow> bool" where
  "isLetterStart L s \<longleftrightarrow> s \<noteq> [] \<and> L (fst (DecodeRuneInString s))"

fun check_fields :: "(rune \<Rightarrow> bool) \<Rightarrow> string \<Rightarrow> Position table \<Rightarrow> Field list \<Rightarrow> Diagnostic list" where
  "check_fields L name seen [] = []"
| "check_fields L name seen (f # fs) =
     (let gn = GoFieldName (fd_Name f)
      in (if gn = [] \<or> \<not> isLetterStart L gn
          then [error_at (fd_Pos f) CodeInvalidGoName
                 (Msg ''field %q in %q maps to an invalid Go field name %q - a field name must contain a letter and not normalise to a digit-leading or empty identifier. Rename it (e.g. add a leading letter).''
                   [AStr (fd_Name f), AStr name, AStr gn])]
          else [])
         @ (case map_of seen (fd_Name f) of
              Some prev \<Rightarrow> sem_diag (fd_Pos f) (fd_Pos f) SeverityError CodeDuplicateField
                  (Msg ''duplicate field %q in %q'' [AStr (fd_Name f), AStr name]) (related prev ''first declared here'')
                # check_fields L name seen fs
            | None \<Rightarrow> check_fields L name (AList.update (fd_Name f) (fd_Pos f) seen) fs))"

definition bodyStructMethods :: "string list" where
  "bodyStructMethods = [''Validate'']"

definition errorTypeMethods :: "string list" where
  "errorTypeMethods = [''Error'', ''ErrCode'', ''HTTPStatus'', ''MarshalJSON'', ''WriteResponseHeaders'', ''ResponseCookies'']"

definition generatedMemberClash :: "string \<Rightarrow> string \<Rightarrow> bool \<Rightarrow> string" where
  "generatedMemberClash goName errName promoted =
     (let hidden = '' - it hides the field on the error type''
      in if \<not> promoted \<and> goName \<in> set bodyStructMethods
         then ''the generated method '' @ goName @ ''() of the same struct - Go rejects a field and a method of one name''
         else if errName = [] then []
         else if goName \<in> set errorTypeMethods then ''the generated error method '' @ goName @ ''()'' @ hidden
         else if goName = ErrorBodyName errName then ''the body struct the generated error type embeds'' @ hidden
         else [])"

definition goLevelNames :: "TypeMember list \<Rightarrow> string list" where
  "goLevelNames body = fst (DedupGoFieldNames (map fd_Name (Fields body)))"

definition member_name_msg :: "string \<Rightarrow> string \<Rightarrow> string \<Rightarrow> string \<Rightarrow> string \<Rightarrow> message" where
  "member_name_msg label field from' gn clash =
     Msg ''%s field %q%s maps to the Go name %q, the name of %s. Rename the field.'' [AStr label, AStr field, AStr from', AStr gn, AStr clash]"

definition generated_mixin_members :: "Project \<Rightarrow> Package \<Rightarrow> string \<Rightarrow> string \<Rightarrow> Mixin \<Rightarrow> Diagnostic list" where
  "generated_mixin_members p own label errName v =
     (case mx_Ref v of
        None \<Rightarrow> []
      | Some ref \<Rightarrow>
          let embed = goEmbedName (nt_Name ref); refText = NamedTypeRef_String (Some ref);
              flds = fst (flattenFields (Some p) (p_Name own) (p_Name own) [TM_Mixin v] [] [] (Some goLevelNames))
          in (if embed \<in> set bodyStructMethods
              then [error_at (mx_Pos v) CodeInvalidGoName
                     (Msg ''%s mixin %s embeds as the Go field %q, the name of %s. Rename the mixin's type.''
                       [AStr label, AStr refText, AStr embed, AStr (generatedMemberClash embed [] False)])]
              else [])
             @ concat (map (\<lambda>ff.
                 let gn = levelName ff; clash = generatedMemberClash gn errName True
                 in if clash = [] then []
                    else [sem_diag (mx_Pos v) (mx_Pos v) SeverityError CodeInvalidGoName
                           (member_name_msg label (fd_Name (ff_Field ff)) ('', from mixin '' @ refText @ '','') gn clash)
                           (related (fd_Pos (ff_Field ff)) ''declared here'')]) flds))"

fun generated_members :: "Project \<Rightarrow> Package \<Rightarrow> string \<Rightarrow> string \<Rightarrow> string list \<Rightarrow> TypeMember list \<Rightarrow> Diagnostic list" where
  "generated_members p own label errName names [] = []"
| "generated_members p own label errName names (TM_Field v # body) =
     (let gn = hd names; clash = generatedMemberClash gn errName False
      in (if clash = [] then []
          else [error_at (fd_Pos v) CodeInvalidGoName (member_name_msg label (fd_Name v) [] gn clash)])
         @ generated_members p own label errName (tl names) body)"
| "generated_members p own label errName names (TM_Mixin v # body) =
     generated_mixin_members p own label errName v @ generated_members p own label errName names body"
| "generated_members p own label errName names (TM_FreeComment c # body) = generated_members p own label errName names body"

definition checkGeneratedMemberNames :: "Project \<Rightarrow> Package \<Rightarrow> string \<Rightarrow> TypeMember list \<Rightarrow> string \<Rightarrow> Diagnostic list" where
  "checkGeneratedMemberNames p own label body errName = generated_members p own label errName (goLevelNames body) body"

definition checkFieldUniqueness :: "(rune \<Rightarrow> bool) \<Rightarrow> Project \<Rightarrow> Package \<Rightarrow> Diagnostic list" where
  "checkFieldUniqueness L p own =
     concat (map (\<lambda>(_, td). check_fields L (td_Name td) [] (Fields (td_Body td))
         @ checkGeneratedMemberNames p own (''type '' @ td_Name td) (td_Body td) []) (p_Types own))
     @ concat (map (\<lambda>(_, ed). check_fields L (er_Name ed) [] (Fields (er_Body ed))
         @ checkGeneratedMemberNames p own (''error '' @ er_Name ed) (er_Body ed) (er_Name ed)) (p_Errors own))"

section \<open>JSON keys\<close>

fun json_keys :: "string \<Rightarrow> Field list \<Rightarrow> Field table \<Rightarrow> Field list \<Rightarrow> Diagnostic list" where
  "json_keys parent own seen [] = []"
| "json_keys parent own seen (f # fs) =
     (let (name, presence) = JSONShape (Some f)
      in if fd_Name f = [] \<or> presence = JSONAbsent then json_keys parent own seen fs
         else case map_of seen name of
           None \<Rightarrow> json_keys parent own (AList.update name f seen) fs
         | Some prev \<Rightarrow>
             if prev = f then json_keys parent own seen fs
             else
               let (at', other) = (if f \<notin> set own \<and> prev \<in> set own then (prev, f) else (f, prev))
               in sem_diag (fd_Pos at') (fd_Pos at') SeverityError CodeFieldNameCollision
                    (Msg ''field %q of %s carries JSON key %q, which field %q also carries - two members cannot share one key''
                      [AStr (fd_Name at'), AStr parent, AStr name, AStr (fd_Name other)])
                    (related (fd_Pos other) ''also carried here'')
                  # json_keys parent own seen fs)"

definition body_fields :: "Project \<Rightarrow> Package \<Rightarrow> TypeMember list \<Rightarrow> Field list" where
  "body_fields p own members = map ff_Field (fst (flattenFields (Some p) (p_Name own) (p_Name own) members [] [] None))"

definition checkJSONKeysIn :: "Project \<Rightarrow> Package \<Rightarrow> string \<Rightarrow> TypeMember list \<Rightarrow> Diagnostic list" where
  "checkJSONKeysIn p own parent members = json_keys parent (Fields members) [] (body_fields p own members)"

definition checkJSONKeys :: "Project \<Rightarrow> Package \<Rightarrow> File list \<Rightarrow> Diagnostic list" where
  "checkJSONKeys p own files =
     concat (map (\<lambda>d. case d of
         D_Type dd \<Rightarrow> checkJSONKeysIn p own (''type '' @ td_Name dd) (td_Body dd)
       | D_Error dd \<Rightarrow> checkJSONKeysIn p own (''error '' @ er_Name dd) (er_Body dd)
       | _ \<Rightarrow> []) (files_decls files))"

section \<open>Enums\<close>

fun enum_warnings :: "EnumDecl \<Rightarrow> EnumValue table \<Rightarrow> (EnumValue \<times> string) list \<Rightarrow> Diagnostic list" where
  "enum_warnings ed first [] = []"
| "enum_warnings ed first ((v, resolved) # vs) =
     (let canonical = GoFieldName (ev_Name v)
      in case map_of first canonical of
           None \<Rightarrow> enum_warnings ed (AList.update canonical v first) vs
         | Some prev \<Rightarrow> sem_diag (ev_Pos v) (ev_Pos v) SeverityWarning CodeEnumValueCollision
             (Msg ''enum value %q collides with %q in enum %s - both normalise to Go const %q; codegen will emit %q to keep the package compilable, but the wire payloads stay distinct (rename one if this duplication was unintended)''
               [AStr (ev_Name v), AStr (ev_Name prev), AStr (ed_Name ed), AStr (ed_Name ed @ canonical), AStr (ed_Name ed @ resolved)])
             (related (ev_Pos prev) ''first declared here (keeps the canonical const name)'')
           # enum_warnings ed first vs)"

definition warnEnumValueCollisions :: "EnumDecl \<Rightarrow> Diagnostic list" where
  "warnEnumValueCollisions ed =
     (let vals = filter (\<lambda>v. ev_Name v \<noteq> []) (EnumValues (Some ed))
      in enum_warnings ed [] (zip vals (fst (DedupGoFieldNames (map ev_Name vals)))))"

definition checkEnumValueCollisions :: "File list \<Rightarrow> Diagnostic list" where
  "checkEnumValueCollisions files =
     concat (map (\<lambda>d. case d of D_Enum ed \<Rightarrow> warnEnumValueCollisions ed | _ \<Rightarrow> []) (files_decls files))"

record enum_seen =
  es_names :: "Position table"
  es_ints :: "(int \<times> Position) list"
  es_strs :: "Position table"

definition enum_dup :: "EnumValue \<Rightarrow> string \<Rightarrow> message \<Rightarrow> Position \<Rightarrow> string \<Rightarrow> Diagnostic" where
  "enum_dup v code msg prev note = sem_diag (ev_Pos v) (ev_Pos v) SeverityError code msg (related prev note)"

definition enum_value :: "string \<Rightarrow> EnumValueKind \<Rightarrow> Position \<Rightarrow> bool \<Rightarrow> EnumValue \<Rightarrow> enum_seen \<Rightarrow> Diagnostic list \<times> enum_seen" where
  "enum_value name firstKind firstPos first v s =
     (let (d1, s1) = (case map_of (es_names s) (ev_Name v) of
              Some prev \<Rightarrow> ([enum_dup v CodeEnumDuplicateName (Msg ''duplicate enum value name %q in %q'' [AStr (ev_Name v), AStr name]) prev ''first declared here''], s)
            | None \<Rightarrow> ([], s\<lparr>es_names := AList.update (ev_Name v) (ev_Pos v) (es_names s)\<rparr>));
          d2 = (if \<not> first \<and> ev_Kind v \<noteq> firstKind
                then [enum_dup v CodeEnumMixedTypes (Msg ''enum %q has mixed value types (must be all bare, all int, or all string)'' [AStr name]) firstPos ''first value declared here'']
                else []);
          (d3, s2) = (case ev_Kind v of
              EnumInt \<Rightarrow> (case map_of (es_ints s1) (ev_IntValue v) of
                  Some prev \<Rightarrow> ([enum_dup v CodeEnumDuplicateLiteral (Msg ''duplicate int value %d in enum %q'' [AInt (ev_IntValue v), AStr name]) prev ''first used here''], s1)
                | None \<Rightarrow> ([], s1\<lparr>es_ints := AList.update (ev_IntValue v) (ev_Pos v) (es_ints s1)\<rparr>))
            | EnumString \<Rightarrow> (case map_of (es_strs s1) (ev_StrValue v) of
                  Some prev \<Rightarrow> ([enum_dup v CodeEnumDuplicateLiteral (Msg ''duplicate string value %q in enum %q'' [AStr (ev_StrValue v), AStr name]) prev ''first used here''], s1)
                | None \<Rightarrow> ([], s1\<lparr>es_strs := AList.update (ev_StrValue v) (ev_Pos v) (es_strs s1)\<rparr>))
            | EnumBare \<Rightarrow> ([], s1))
      in (d1 @ d2 @ d3, s2))"

fun enum_values :: "string \<Rightarrow> EnumValueKind \<Rightarrow> Position \<Rightarrow> bool \<Rightarrow> EnumValue list \<Rightarrow> enum_seen \<Rightarrow> Diagnostic list" where
  "enum_values name firstKind firstPos first [] s = []"
| "enum_values name firstKind firstPos first (v # vs) s =
     (let (ds, s') = enum_value name firstKind firstPos first v s
      in ds @ enum_values name firstKind firstPos False vs s')"

definition check_enum :: "EnumDecl \<Rightarrow> Diagnostic list" where
  "check_enum ed =
     (case EnumValues (Some ed) of
        [] \<Rightarrow> [error_at (ed_Pos ed) CodeEnumEmpty
               (Msg ''enum %q has no values; OpenAPI emits `enum: []` which is invalid per JSON Schema 2020-12'' [AStr (ed_Name ed)])]
      | v # vs \<Rightarrow> enum_values (ed_Name ed) (ev_Kind v) (ev_Pos v) True (v # vs) \<lparr>es_names = [], es_ints = [], es_strs = []\<rparr>)"

definition checkEnums :: "Package \<Rightarrow> Diagnostic list" where
  "checkEnums own = concat (map (\<lambda>(_, ed). check_enum ed) (p_Enums own))"

section \<open>Case of names\<close>

definition is_upper_char :: "char \<Rightarrow> bool" where
  "is_upper_char c \<longleftrightarrow> 65 \<le> (of_char c :: nat) \<and> (of_char c :: nat) \<le> 90"

definition IsExported :: "string \<Rightarrow> bool" where
  "IsExported name \<longleftrightarrow> name \<noteq> [] \<and> is_upper_char (hd name)"

definition exportedSpelling :: "string \<Rightarrow> string" where
  "exportedSpelling name =
     (let rest = dropWhile (\<lambda>c. c = CHR ''_'') name
      in if rest = [] \<or> \<not> is_upper_char (upper_char (hd rest)) then [] else ToUpper (take 1 rest) @ drop 1 rest)"

definition requireUppercase :: "(rune \<Rightarrow> bool) \<Rightarrow> string \<Rightarrow> Position \<Rightarrow> message \<Rightarrow> string \<Rightarrow> Diagnostic list" where
  "requireUppercase P name pos what why =
     (if name = [] \<or> IsExported name then []
      else
        let exported = exportedSpelling name;
            fix' = (if exported \<noteq> [] then Quote P exported else ''to start with an uppercase letter'')
        in [error_at pos CodeDeclNameCase
             (Msg ''%s must start with an uppercase letter: %s - rename it %s'' [AErr what, AStr why, AStr fix'])])"

definition checkExportedName :: "(rune \<Rightarrow> bool) \<Rightarrow> string \<Rightarrow> string \<Rightarrow> Position \<Rightarrow> Diagnostic list" where
  "checkExportedName P kind name pos =
     requireUppercase P name pos (Msg ''%s name %q'' [AStr kind, AStr name])
       ''a Go identifier generated from it would be unexported, out of reach of the other generated packages''"

definition checkTypeTableName :: "(rune \<Rightarrow> bool) \<Rightarrow> string \<Rightarrow> string \<Rightarrow> Position \<Rightarrow> Diagnostic list" where
  "checkTypeTableName P kind name pos = (if Is name then [] else checkExportedName P kind name pos)"

definition warnServiceNameCase :: "string \<Rightarrow> Position \<Rightarrow> Diagnostic list" where
  "warnServiceNameCase name pos =
     (if name = [] \<or> IsExported name then []
      else [sem_diag pos pos SeverityWarning CodeDeclNameCase
             (Msg ''service name %q should start with an uppercase letter, as the names of its methods must'' [AStr name]) []])"

definition hidden_package :: "Project \<Rightarrow> Package \<Rightarrow> TypeDecl \<Rightarrow> string \<Rightarrow> string option" where
  "hidden_package p own td param =
     first_some (\<lambda>(n, typeParams, _). case nt_Name n of
         None \<Rightarrow> None
       | Some q \<Rightarrow> (case qi_Parts q of
             [pkg, _] \<Rightarrow>
               if pkg = param \<and> pkg \<in> set typeParams \<and> IsExported pkg \<and> pkg \<noteq> p_Name own \<and> Packages p pkg \<noteq> None
               then Some (QualifiedIdent_String q) else None
           | _ \<Rightarrow> None)) (walkTypeRefs (D_Type td))"

definition checkTypeParamsHidePackages :: "Project \<Rightarrow> Package \<Rightarrow> TypeDecl \<Rightarrow> Diagnostic list" where
  "checkTypeParamsHidePackages p own td =
     concat (map (\<lambda>param. case hidden_package p own td param of
         None \<Rightarrow> []
       | Some ref \<Rightarrow> [error_at (td_NamePos td) CodeDeclGoNameCollision
           (Msg ''type parameter %q of %s hides package %s in the generated type, where %s names it - rename the parameter''
             [AStr param, AStr (td_Name td), AStr param, AStr ref])]) (td_TypeParams td))"

definition checkOneDeclNameCase :: "(rune \<Rightarrow> bool) \<Rightarrow> Project \<Rightarrow> Package \<Rightarrow> Decl \<Rightarrow> Diagnostic list" where
  "checkOneDeclNameCase P p own d =
     (case d of
        D_Type dd \<Rightarrow> checkTypeTableName P ''type'' (td_Name dd) (td_Pos dd)
          @ concat (map (\<lambda>tp. requireUppercase P tp (td_NamePos dd) (Msg ''type parameter %q of %s'' [AStr tp, AStr (td_Name dd)])
              ''a lower-case one can hide a package or a variable the generated Go uses, such as fmt or the receiver v'') (td_TypeParams dd))
          @ checkTypeParamsHidePackages p own dd
      | D_Error dd \<Rightarrow> checkTypeTableName P ''error'' (er_Name dd) (er_Pos dd)
      | D_Enum dd \<Rightarrow> checkTypeTableName P ''enum'' (ed_Name dd) (ed_Pos dd)
      | D_Scalar dd \<Rightarrow> checkTypeTableName P ''scalar'' (sc_Name dd) (sc_Pos dd)
      | D_Service dd \<Rightarrow> (if sv_Extend dd then [] else warnServiceNameCase (sv_Name dd) (sv_Pos dd))
          @ concat (map (\<lambda>m. checkExportedName P ''method'' (me_Name m) (me_Pos m)) (Methods (Some dd)))
      | D_Middleware dd \<Rightarrow> checkExportedName P ''middleware'' (mw_Name dd) (mw_Pos dd)
          @ (if mw_Name dd \<in> set ServiceContextFields
             then [error_at (mw_Pos dd) CodeDeclGoNameCollision
                    (Msg ''middleware %q is named like the field ServiceContext declares itself, which hides the middleware's field - rename it'' [AStr (mw_Name dd)])]
             else [])
      | D_Event dd \<Rightarrow> checkExportedName P ''event'' (en_Name dd) (en_Pos dd))"

definition checkDeclNameCase :: "(rune \<Rightarrow> bool) \<Rightarrow> Project \<Rightarrow> Package \<Rightarrow> File list \<Rightarrow> Diagnostic list" where
  "checkDeclNameCase P p own files = concat (map (checkOneDeclNameCase P p own) (files_decls files))"

end
