(* ===== verification/Bounds.thy ===== *)
theory Bounds
  imports Literals
begin

text \<open>
  The bounds decorators put on values, lengths and item counts: \<^verbatim>\<open>numeric_domain.go\<close> and the
  checks on bounds of \<^verbatim>\<open>constraint_checks.go\<close> in \<^verbatim>\<open>internal/semantic\<close>. A decorator is the one the
  source points to when it equals it with its position. A check is the list of its diagnostics;
  where the source returns whether it reported, the list is not empty.
\<close>

definition CodeDecoratorRange :: string where "CodeDecoratorRange = ''decorator/range''"
definition CodeDecoratorTypeMismatch :: string where "CodeDecoratorTypeMismatch = ''decorator/typemismatch''"
definition CodeDecoratorRedundant :: string where "CodeDecoratorRedundant = ''decorator/redundant''"
definition CodeBoundOverflow :: string where "CodeBoundOverflow = ''decorator/bound-overflow''"
definition CodeBoundEmptyRange :: string where "CodeBoundEmptyRange = ''decorator/empty-range''"

section \<open>Bounds as declared\<close>

record BoundSide =
  bs_Lower :: bool
  bs_Strict :: bool

definition FailOp :: "BoundSide \<Rightarrow> string" where
  "FailOp s =
     (if bs_Lower s \<and> bs_Strict s then ''<='' else if bs_Lower s then ''<'' else if bs_Strict s then ''>='' else ''>'')"

definition boundDecorators :: "(string \<times> string \<times> BoundSide list) list" where
  "boundDecorators =
     [(''gt'', ''value'', [\<lparr>bs_Lower = True, bs_Strict = True\<rparr>]),
      (''gte'', ''value'', [\<lparr>bs_Lower = True, bs_Strict = False\<rparr>]),
      (''lt'', ''value'', [\<lparr>bs_Lower = False, bs_Strict = True\<rparr>]),
      (''lte'', ''value'', [\<lparr>bs_Lower = False, bs_Strict = False\<rparr>]),
      (''range'', ''value'', [\<lparr>bs_Lower = True, bs_Strict = False\<rparr>, \<lparr>bs_Lower = False, bs_Strict = False\<rparr>]),
      (''positive'', ''value'', [\<lparr>bs_Lower = True, bs_Strict = True\<rparr>]),
      (''negative'', ''value'', [\<lparr>bs_Lower = False, bs_Strict = True\<rparr>]),
      (''length'', ''length'', [\<lparr>bs_Lower = True, bs_Strict = False\<rparr>, \<lparr>bs_Lower = False, bs_Strict = False\<rparr>]),
      (''minLength'', ''length'', [\<lparr>bs_Lower = True, bs_Strict = False\<rparr>]),
      (''maxLength'', ''length'', [\<lparr>bs_Lower = False, bs_Strict = False\<rparr>]),
      (''minItems'', ''item count'', [\<lparr>bs_Lower = True, bs_Strict = False\<rparr>]),
      (''maxItems'', ''item count'', [\<lparr>bs_Lower = False, bs_Strict = False\<rparr>])]"

definition BoundSides :: "string \<Rightarrow> BoundSide list option" where
  "BoundSides name = map_option snd (map_of boundDecorators name)"

definition BoundArgs :: "Decorator \<Rightarrow> DecoratorArg list option" where
  "BoundArgs d =
     (case map_of boundDecorators (dec_Name d) of
        None \<Rightarrow> None
      | Some (_, sides) \<Rightarrow>
          let args = positionalArgs d;
              args' = (if dec_Name d = ''length'' \<and> length args = 1 then [hd args, hd args] else args)
          in if length args' \<noteq> length sides then None else Some args')"

record bound = BoundSide +
  b_dec :: Decorator
  b_limits :: string
  b_value :: NumericLit
  b_text :: string
  b_pos :: Position

definition mk_bound :: "BoundSide \<Rightarrow> Decorator \<Rightarrow> string \<Rightarrow> NumericLit \<Rightarrow> string \<Rightarrow> Position \<Rightarrow> bound" where
  "mk_bound side d limits v txt pos =
     \<lparr>bs_Lower = bs_Lower side, bs_Strict = bs_Strict side, b_dec = d, b_limits = limits, b_value = v, b_text = txt, b_pos = pos\<rparr>"

definition geq_sign :: string where "geq_sign = [CHR 0xE2, CHR 0x89, CHR 0xA5]"
definition leq_sign :: string where "leq_sign = [CHR 0xE2, CHR 0x89, CHR 0xA4]"

definition relation :: "('a) bound_scheme \<Rightarrow> string" where
  "relation b =
     (if bs_Lower b \<and> bs_Strict b then ''> '' @ b_text b
      else if bs_Lower b then geq_sign @ '' '' @ b_text b
      else if bs_Strict b then ''< '' @ b_text b
      else leq_sign @ '' '' @ b_text b)"

text \<open>The bounds of one decorator: a flag's at 0, one per side where every argument is a number.\<close>

definition decorator_bounds :: "(rune \<Rightarrow> bool) \<Rightarrow> Decorator \<Rightarrow> bound list" where
  "decorator_bounds P d =
     (case map_of boundDecorators (dec_Name d) of
        None \<Rightarrow> []
      | Some (limits, sides) \<Rightarrow>
          if (case DecoratorSpec (dec_Name d) of Some rs \<Rightarrow> ar_Max (sp_Args rs) = 0 | None \<Rightarrow> True)
          then [mk_bound (hd sides) d limits zeroLit ''0'' (dec_Pos d)]
          else case BoundArgs d of
            None \<Rightarrow> []
          | Some args \<Rightarrow>
              let values = map (\<lambda>a. ParseNumericArg (Some a)) args
              in if None \<in> set values then []
                 else map (\<lambda>(side, v, a). mk_bound side d limits (the v) (value_text P (da_Value a)) (da_Pos a))
                   (zip sides (zip values args)))"

fun declared_bounds :: "(rune \<Rightarrow> bool) \<Rightarrow> string set \<Rightarrow> Decorator list \<Rightarrow> bound list" where
  "declared_bounds P seen [] = []"
| "declared_bounds P seen (d # ds) =
     (if map_of boundDecorators (dec_Name d) = None \<or> dec_Name d \<in> seen then declared_bounds P seen ds
      else decorator_bounds P d @ declared_bounds P (insert (dec_Name d) seen) ds)"

definition declaredBounds :: "(rune \<Rightarrow> bool) \<Rightarrow> Decorator list \<Rightarrow> bound list" where
  "declaredBounds P ds = declared_bounds P {} ds"

section \<open>Scales\<close>

record scale =
  sc_name :: string
  sc_whole :: bool
  sc_bits :: nat
  sc_lo :: "rat option"
  sc_hi :: "rat option"

definition scaleOf :: "string \<Rightarrow> string \<Rightarrow> scale" where
  "scaleOf prim limits =
     (if limits \<noteq> ''value''
      then \<lparr>sc_name = limits, sc_whole = True, sc_bits = 0, sc_lo = Some 0, sc_hi = Some (2 ^ 63 - 1)\<rparr>
      else case Capacity prim of
        Some (lo, hi) \<Rightarrow> \<lparr>sc_name = prim, sc_whole = True, sc_bits = 0, sc_lo = Some (of_int lo), sc_hi = Some (of_int hi)\<rparr>
      | None \<Rightarrow>
          (case Lookup prim of
             Some sp \<Rightarrow>
               if Prims.sp_Kind sp = PFloat
               then let hi = max_float (float_width (Prims.sp_Bits sp))
                    in \<lparr>sc_name = prim, sc_whole = False, sc_bits = Prims.sp_Bits sp, sc_lo = Some (- hi), sc_hi = Some hi\<rparr>
               else \<lparr>sc_name = limits, sc_whole = False, sc_bits = 0, sc_lo = None, sc_hi = None\<rparr>
           | None \<Rightarrow> \<lparr>sc_name = limits, sc_whole = False, sc_bits = 0, sc_lo = None, sc_hi = None\<rparr>))"

definition atWidth :: "scale \<Rightarrow> NumericLit \<Rightarrow> rat option" where
  "atWidth sc l = Option.bind (text_rat l) (round_at (float_width (sc_bits sc)))"

definition scale_cmp :: "scale \<Rightarrow> NumericLit \<Rightarrow> NumericLit \<Rightarrow> int" where
  "scale_cmp sc q v =
     (if sc_bits sc \<noteq> 0
      then case (atWidth sc q, atWidth sc v) of
          (Some qf, Some vf) \<Rightarrow> compare_rat qf vf
        | _ \<Rightarrow> Cmp q v
      else Cmp q v)"

definition admits :: "bound \<Rightarrow> string \<Rightarrow> NumericLit \<Rightarrow> bool" where
  "admits b prim q =
     (let c = scale_cmp (scaleOf prim (b_limits b)) q (b_value b)
      in if bs_Lower b \<and> bs_Strict b then c > 0
         else if bs_Lower b then c \<ge> 0
         else if bs_Strict b then c < 0
         else c \<le> 0)"

section \<open>Limits\<close>

record limit = bound +
  l_of :: string
  l_sc :: scale
  l_at :: "rat option"
  l_none :: bool

definition mk_limit :: "bound \<Rightarrow> string \<Rightarrow> scale \<Rightarrow> rat option \<Rightarrow> bool \<Rightarrow> limit" where
  "mk_limit b of' sc q no = bound.extend b \<lparr>l_of = of', l_sc = sc, l_at = q, l_none = no\<rparr>"

text \<open>The least or greatest quantity of a whole scale a bound admits, before the range is consulted.\<close>

definition whole_at :: "scale \<Rightarrow> bound \<Rightarrow> rat option" where
  "whole_at sc b =
     (case Rat (b_value b) of
        None \<Rightarrow> None
      | Some v \<Rightarrow>
          if snd (quotient_of v) \<noteq> 1 \<or> v < the (sc_lo sc) \<or> v > the (sc_hi sc) then None
          else Some (if bs_Strict b \<and> bs_Lower b then v + 1 else if bs_Strict b then v - 1 else v))"

definition limitOn :: "scale \<Rightarrow> bound \<Rightarrow> string \<Rightarrow> limit" where
  "limitOn sc b of' =
     (let past = (\<lambda>q. bs_Lower b \<and> q > the (sc_hi sc) \<or> \<not> bs_Lower b \<and> q < the (sc_lo sc));
          placed = (\<lambda>q. if past q then mk_limit b of' sc None True else mk_limit b of' sc (Some q) False)
      in if sc_whole sc
         then (case whole_at sc b of None \<Rightarrow> mk_limit b of' sc None False | Some q \<Rightarrow> placed q)
         else if sc_bits sc \<noteq> 0
         then (case atWidth sc (b_value b) of
                 None \<Rightarrow> mk_limit b of' sc None False
               | Some f \<Rightarrow>
                   (case (if bs_Strict b then next_at (float_width (sc_bits sc)) f (bs_Lower b) else Some f) of
                      None \<Rightarrow> mk_limit b of' sc None True
                    | Some q \<Rightarrow> placed q))
         else mk_limit b of' sc None False)"

definition BoundImpliedByType :: "(rune \<Rightarrow> bool) \<Rightarrow> string \<Rightarrow> Decorator \<Rightarrow> int \<Rightarrow> bool" where
  "BoundImpliedByType P prim d i =
     (let bs = declaredBounds P [d]
      in if i < 0 \<or> i \<ge> int (length bs) then False
         else
           let b = bs ! nat i; sc = scaleOf prim (b_limits b); l = limitOn sc b []
           in case l_at l of
                None \<Rightarrow> False
              | Some q \<Rightarrow>
                  if \<not> sc_whole sc then False
                  else if bs_Lower l then q \<le> the (sc_lo sc)
                  else q \<ge> the (sc_hi sc))"

record constraintSite =
  cs_decs :: "Decorator list"
  cs_of :: string

definition siteLimits :: "(rune \<Rightarrow> bool) \<Rightarrow> string \<Rightarrow> constraintSite list \<Rightarrow> limit list" where
  "siteLimits P prim sites =
     concat (map (\<lambda>s. map (\<lambda>b. limitOn (scaleOf prim (b_limits b)) b (cs_of s)) (declaredBounds P (cs_decs s))) sites)"

section \<open>Empty domains\<close>

definition contradiction :: "limit \<Rightarrow> limit \<Rightarrow> (string \<times> string) option" where
  "contradiction lo hi =
     (let c = Cmp (b_value lo) (b_value hi)
      in if c > 0 then Some (CodeDecoratorRange, b_limits lo)
         else if c = 0 \<and> (bs_Strict lo \<or> bs_Strict hi) then Some (CodeBoundEmptyRange, b_limits lo)
         else case (l_at lo, l_at hi) of
             (Some a, Some b) \<Rightarrow> if a > b then Some (CodeBoundEmptyRange, sc_name (l_sc lo)) else None
           | _ \<Rightarrow> None)"

definition contradicting_pair :: "(rune \<Rightarrow> bool) \<Rightarrow> limit \<Rightarrow> limit \<Rightarrow> Diagnostic list" where
  "contradicting_pair P lo hi =
     (if \<not> bs_Lower lo \<or> bs_Lower hi \<or> b_dec lo = b_dec hi \<or> b_limits lo \<noteq> b_limits hi \<or> l_of lo \<noteq> [] \<and> l_of hi \<noteq> [] then []
      else case contradiction lo hi of
        None \<Rightarrow> []
      | Some (code, noun) \<Rightarrow>
          let (q, other) = (if l_of hi \<noteq> [] then (lo, hi) else (hi, lo))
          in [sem_diag (b_pos q) (b_pos q) SeverityError code
                (Msg ''%s contradicts %s%s: no %s is both %s and %s''
                  [AStr (decoratorCall P (b_dec q)), AStr (decoratorCall P (b_dec other)), AStr (l_of other), AStr noun,
                   AStr (relation lo), AStr (relation hi)])
                (related (b_pos other) (decoratorCall P (b_dec other) @ l_of other @ '' declared here''))])"

definition reportContradictingPairs :: "(rune \<Rightarrow> bool) \<Rightarrow> limit list \<Rightarrow> Diagnostic list" where
  "reportContradictingPairs P ls = concat (map (\<lambda>lo. concat (map (contradicting_pair P lo) ls)) ls)"

definition past_scale :: "(rune \<Rightarrow> bool) \<Rightarrow> string \<Rightarrow> limit \<Rightarrow> Diagnostic list" where
  "past_scale P prim l =
     (if l_of l \<noteq> [] \<or> \<not> l_none l then []
      else if \<not> bs_Lower l \<and> IsUnsigned prim
      then [at_decorator (b_dec l) CodeDecoratorTypeMismatch
             (Msg ''%s cannot apply to an unsigned type (%s is always >= 0) - every value would be rejected; use a signed integer or %s''
               [AStr (decoratorCall P (b_dec l)), AStr prim,
                AStr (if dec_Name (b_dec l) = ''negative'' then ''drop @negative'' else ''a positive bound'')]) []]
      else [error_at (b_pos l) CodeBoundEmptyRange
             (Msg ''%s leaves no value: no %s is %s''
               [AStr (decoratorCall P (b_dec l)), AStr (sc_name (l_sc l)), AStr (relation l)])])"

definition reportLimitsPastScale :: "(rune \<Rightarrow> bool) \<Rightarrow> string \<Rightarrow> limit list \<Rightarrow> Diagnostic list" where
  "reportLimitsPastScale P prim ls = concat (map (past_scale P prim) ls)"

record part =
  pt_dec :: Decorator
  pt_pos :: Position
  pt_of :: string

text \<open>The divisors of the sites: the part, the literal as written and the divisor itself.\<close>

definition site_divisor :: "(rune \<Rightarrow> bool) \<Rightarrow> scale \<Rightarrow> constraintSite \<Rightarrow> (part \<times> string \<times> int) option" where
  "site_divisor P sc s =
     (case FindDecorator (decs (cs_decs s)) ''multipleOf'' of
        None \<Rightarrow> None
      | Some d \<Rightarrow>
          (case firstPositional d of
             None \<Rightarrow> None
           | Some arg \<Rightarrow>
               (case ParseNumericArg (Some arg) of
                  None \<Rightarrow> None
                | Some v \<Rightarrow>
                    (case Rat v of
                       None \<Rightarrow> None
                     | Some r \<Rightarrow>
                         if snd (quotient_of r) \<noteq> 1 \<or> r \<le> 0 \<or> r > the (sc_hi sc) then None
                         else Some (\<lparr>pt_dec = d, pt_pos = da_Pos arg, pt_of = cs_of s\<rparr>, value_text P (da_Value arg), fst (quotient_of r))))))"

definition tighter :: "limit \<Rightarrow> limit option \<times> limit option \<Rightarrow> limit option \<times> limit option" where
  "tighter l st =
     (let (lo, hi) = st
      in if b_limits l \<noteq> ''value'' \<or> l_at l = None then (lo, hi)
         else if bs_Lower l \<and> (case lo of None \<Rightarrow> True | Some k \<Rightarrow> the (l_at l) > the (l_at k)) then (Some l, hi)
         else if \<not> bs_Lower l \<and> (case hi of None \<Rightarrow> True | Some k \<Rightarrow> the (l_at l) < the (l_at k)) then (lo, Some l)
         else (lo, hi))"

definition limit_part :: "limit \<Rightarrow> part" where
  "limit_part l = \<lparr>pt_dec = b_dec l, pt_pos = b_pos l, pt_of = l_of l\<rparr>"

text \<open>\<open>big.Int.Div\<close> by a positive divisor rounds down, so this is the least multiple at or above \<open>from\<close>.\<close>

definition least_multiple :: "int \<Rightarrow> int \<Rightarrow> int" where
  "least_multiple d from' = - ((- from') div d) * d"

definition reportNoMultiple :: "(rune \<Rightarrow> bool) \<Rightarrow> string \<Rightarrow> constraintSite list \<Rightarrow> limit list \<Rightarrow> Diagnostic list" where
  "reportNoMultiple P prim sites ls =
     (let sc = scaleOf prim ''value'';
          divs = List.map_filter (site_divisor P sc) sites
      in if \<not> sc_whole sc \<or> divs = [] then []
         else
           let m = foldl (\<lambda>m (_, _, n). m * (n div gcd m n)) 1 divs;
               (lo, hi) = fold tighter ls (None, None);
               from' = (case lo of Some l \<Rightarrow> the (l_at l) | None \<Rightarrow> the (sc_lo sc));
               to' = (case hi of Some l \<Rightarrow> the (l_at l) | None \<Rightarrow> the (sc_hi sc));
               bounds = (case lo of Some l \<Rightarrow> [l] | None \<Rightarrow> []) @ (case hi of Some l \<Rightarrow> [l] | None \<Rightarrow> []);
               parts = map fst divs @ map limit_part bounds
           in if of_int (least_multiple m (fst (quotient_of from'))) \<le> to' then []
              else case find (\<lambda>p. pt_of p = []) parts of
                None \<Rightarrow> []
              | Some q \<Rightarrow>
                  [sem_diag (pt_pos q) (pt_pos q) SeverityError CodeBoundEmptyRange
                     (Msg ''%s leaves no value: no %s %s is a multiple of %s''
                       [AStr (decoratorCall P (pt_dec q)), AStr (sc_name sc), AStr (Join (map relation bounds) '' and ''),
                        AStr (Join (map (\<lambda>(_, t, _). t) divs) '' and '')])
                     (case find (\<lambda>p. pt_of p \<noteq> []) parts of
                        None \<Rightarrow> []
                      | Some other \<Rightarrow> related (pt_pos other) (decoratorCall P (pt_dec other) @ pt_of other @ '' declared here''))])"

definition checkValueDomain :: "(rune \<Rightarrow> bool) \<Rightarrow> string \<Rightarrow> constraintSite list \<Rightarrow> Diagnostic list" where
  "checkValueDomain P prim sites =
     (let ls = siteLimits P prim sites; d1 = reportContradictingPairs P ls
      in if d1 \<noteq> [] then d1
         else
           let d2 = reportLimitsPastScale P prim ls
           in if d2 \<noteq> [] then d2 else reportNoMultiple P prim sites ls)"

section \<open>Arguments of bounds\<close>

definition numericArgs :: "Decorator \<Rightarrow> DecoratorArg list" where
  "numericArgs d =
     (case DecoratorSpec (dec_Name d) of
        None \<Rightarrow> []
      | Some spec' \<Rightarrow>
          let args = positionalArgs d
          in if sp_Constraint spec' \<noteq> {ConstraintNumeric} then []
             else if length args < ar_Min (sp_Args spec') \<or> ar_Max (sp_Args spec') \<ge> 0 \<and> int (length args) > ar_Max (sp_Args spec') then []
             else args)"

definition checkCapacity :: "string \<Rightarrow> NumericLit \<Rightarrow> Position \<Rightarrow> string \<Rightarrow> Diagnostic list" where
  "checkCapacity prim l pos what =
     (case Capacity prim of
        Some (lo, hi) \<Rightarrow>
          (case wholeInt l of
             Some n \<Rightarrow>
               if n < lo \<or> n > hi
               then [error_at pos CodeBoundOverflow
                      (Msg ''%s %s exceeds %s range [%s, %s]'' [AStr what, AInt n, AStr prim, AInt lo, AInt hi])]
               else []
           | None \<Rightarrow> [])
      | None \<Rightarrow>
          if prim = ''float32'' \<and> (case float_rat (nl_FloatVal l) of Some x \<Rightarrow> \<bar>x\<bar> > max_float (float_width 32) | None \<Rightarrow> True)
          then [error_at pos CodeBoundOverflow
                 (Msg ''%s %s exceeds float32 range [%g, %g]''
                   [AStr what, text_arg l, AFloat True (2 ^ 24 - 1) 104, AFloat False (2 ^ 24 - 1) 104])]
          else [])"

definition checkBoundCapacity :: "string \<Rightarrow> Decorator list \<Rightarrow> Diagnostic list" where
  "checkBoundCapacity prim ds =
     concat (map (\<lambda>d. concat (map (\<lambda>arg. case ParseNumericArg (Some arg) of
           Some l \<Rightarrow> checkCapacity prim l (da_Pos arg) (''@'' @ dec_Name d @ '' bound'')
         | None \<Rightarrow> []) (numericArgs d))) ds)"

definition checkIntBoundFloatLiteral :: "string \<Rightarrow> string \<Rightarrow> Decorator list \<Rightarrow> Diagnostic list" where
  "checkIntBoundFloatLiteral prim target ds =
     (if \<not> IsInteger prim then []
      else concat (map (\<lambda>d. concat (map (\<lambda>arg. case ParseNumericArg (Some arg) of
           Some l \<Rightarrow>
             if IsWhole l then []
             else [error_at (da_Pos arg) CodeDecoratorTypeMismatch
                    (Msg ''@%s argument %g must be a whole number on integer %s: the generated check compares or divides an integer by it''
                      [AStr (dec_Name d), float_arg (nl_FloatVal l), AStr target])]
         | None \<Rightarrow> []) (numericArgs d))) ds))"

definition checkValueRules :: "(rune \<Rightarrow> bool) \<Rightarrow> string \<Rightarrow> string \<Rightarrow> constraintSite list \<Rightarrow> Diagnostic list" where
  "checkValueRules P prim subject sites =
     (let ds = cs_decs (hd sites)
      in checkBoundCapacity prim ds @ checkIntBoundFloatLiteral prim subject ds @ checkValueDomain P prim sites)"

definition bound_partners :: "string \<Rightarrow> string list" where
  "bound_partners name =
     (if name = ''length'' then [''minLength'', ''maxLength'']
      else if name = ''range'' then [''gt'', ''gte'', ''lt'', ''lte'']
      else [])"

definition checkBoundOverlap :: "string \<Rightarrow> Field option \<Rightarrow> Diagnostic list" where
  "checkBoundOverlap parent f =
     (case f of
        None \<Rightarrow> []
      | Some f \<Rightarrow>
          concat (map (\<lambda>d. concat (map (\<lambda>p.
              if p = d \<or> dec_Name p \<notin> set (bound_partners (dec_Name d)) then []
              else [sem_diag (dec_Pos p) (decoratorEnd p) SeverityWarning CodeDecoratorRedundant
                     (Msg ''field %s.%s: @%s overlaps with @%s on the same field; pick one form for clarity''
                       [AStr parent, AStr (fd_Name f), AStr (dec_Name p), AStr (dec_Name d)]) []])
            (fd_Decorators f))) (fd_Decorators f)))"

definition checkNullableRedundant :: "Field \<Rightarrow> Diagnostic list" where
  "checkNullableRedundant f =
     (case filter (\<lambda>d. dec_Name d = ''nullable'') (fd_Decorators f) of
        [] \<Rightarrow> []
      | ds \<Rightarrow>
          if (case fd_Type f of Some t \<Rightarrow> tr_Optional t | None \<Rightarrow> False)
             \<and> \<not> HasDecorator (decs (fd_Decorators f)) ''default''
          then [sem_diag (dec_Pos (last ds)) (decoratorEnd (last ds)) SeverityWarning CodeDecoratorRedundant
                 (Msg ''@nullable is redundant on optional field %q (the `?` already allows null)'' [AStr (fd_Name f)]) []]
          else [])"

end
