(* ===== verification/Resolved.thy ===== *)
theory Resolved
  imports Paths Collisions Bounds
begin

text \<open>
  What a field means, whatever the target: \<^verbatim>\<open>resolved.go\<close>, \<^verbatim>\<open>form.go\<close>, \<^verbatim>\<open>types_compat.go\<close> and
  \<^verbatim>\<open>events.go\<close> of \<^verbatim>\<open>internal/semantic\<close>. A nil package, project or field is \<open>None\<close>; the zero value
  of a Go struct is \<open>zero_field\<close>.
\<close>

definition CodeScalarBadPrimitive :: string where "CodeScalarBadPrimitive = ''scalar/bad-primitive''"

section \<open>Fields\<close>

definition nilableScalarPrimitive :: "string \<Rightarrow> bool" where
  "nilableScalarPrimitive prim \<longleftrightarrow> kind_of prim \<in> {Some PBytes, Some PAny}"

datatype FieldCategory =
    CatUnknown | CatPrimitive | CatBytes | CatAny | CatRawBytes | CatFile | CatScalar | CatEnum | CatStruct
  | CatArray | CatMap | CatCookie

record ResolvedField =
  rf_Field :: "Field option"
  rf_Category :: FieldCategory
  rf_ResolvedPrim :: string
  rf_IsNilable :: bool
  rf_Name :: string
  rf_Binding :: Binding
  rf_OnWireBody :: bool
  rf_AutoBound :: bool
  rf_NeedsNilGuard :: bool
  rf_HasDefValue :: bool
  rf_SpecRequired :: bool
  rf_RuntimeEnforced :: bool

definition zero_field :: ResolvedField where
  "zero_field =
     \<lparr>rf_Field = None, rf_Category = CatUnknown, rf_ResolvedPrim = [], rf_IsNilable = False, rf_Name = [], rf_Binding = BindBody,
      rf_OnWireBody = False, rf_AutoBound = False, rf_NeedsNilGuard = False, rf_HasDefValue = False, rf_SpecRequired = False,
      rf_RuntimeEnforced = False\<rparr>"

definition SpellsPointer :: "ResolvedField \<Rightarrow> bool" where
  "SpellsPointer rf \<longleftrightarrow> rf_Category rf = CatFile \<or> rf_Category rf = CatCookie"

definition GoPointer :: "ResolvedField \<Rightarrow> bool" where
  "GoPointer rf \<longleftrightarrow> SpellsPointer rf \<or> rf_NeedsNilGuard rf \<and> \<not> rf_IsNilable rf"

definition PrimFromName :: "string \<Rightarrow> Prims set" where
  "PrimFromName name =
     (case kind_of name of
        None \<Rightarrow> {}
      | Some k \<Rightarrow> (case k of
            PString \<Rightarrow> {PrimString} | PBytes \<Rightarrow> {PrimBytes} | PInt \<Rightarrow> {PrimInteger} | PUint \<Rightarrow> {PrimInteger}
          | PFloat \<Rightarrow> {PrimFloat} | PBool \<Rightarrow> {PrimBool} | PFile \<Rightarrow> {PrimFile} | PDateTime \<Rightarrow> {PrimDateTime}
          | PCookie \<Rightarrow> {PrimCookie} | _ \<Rightarrow> {}))"

definition ResolvedField_Prims :: "ResolvedField \<Rightarrow> Prims set" where
  "ResolvedField_Prims rf =
     (case rf_Category rf of
        CatArray \<Rightarrow> {PrimArray} | CatMap \<Rightarrow> {PrimMap} | CatRawBytes \<Rightarrow> {PrimRawBytes} | CatFile \<Rightarrow> {PrimFile}
      | CatCookie \<Rightarrow> {PrimCookie} | CatStruct \<Rightarrow> {PrimStruct} | CatAny \<Rightarrow> {PrimDynamic}
      | CatPrimitive \<Rightarrow> PrimFromName (rf_ResolvedPrim rf) | CatScalar \<Rightarrow> PrimFromName (rf_ResolvedPrim rf)
      | CatBytes \<Rightarrow> PrimFromName (rf_ResolvedPrim rf) | CatEnum \<Rightarrow> PrimFromName (rf_ResolvedPrim rf)
      | CatUnknown \<Rightarrow> {})"

definition FieldIsOptional :: "Field option \<Rightarrow> bool" where
  "FieldIsOptional f \<longleftrightarrow>
     (case f of
        None \<Rightarrow> False
      | Some f \<Rightarrow> (case fd_Type f of
            None \<Rightarrow> False
          | Some t \<Rightarrow> tr_Optional t \<or> HasDecorator (decs (fd_Decorators f)) ''nullable''))"

definition typed :: "FieldCategory \<Rightarrow> string \<Rightarrow> bool \<Rightarrow> ResolvedField" where
  "typed cat prim nilable = zero_field\<lparr>rf_Category := cat, rf_ResolvedPrim := prim, rf_IsNilable := nilable\<rparr>"

definition builtin_field :: "string \<Rightarrow> bool \<Rightarrow> ResolvedField option" where
  "builtin_field name raw =
     (case kind_of name of
        None \<Rightarrow> None
      | Some k \<Rightarrow> (case k of
            PBytes \<Rightarrow> Some (typed (if raw then CatRawBytes else CatBytes) name True)
          | PAny \<Rightarrow> Some (typed CatAny name True)
          | PFile \<Rightarrow> Some (typed CatFile name True)
          | PCookie \<Rightarrow> Some (typed CatCookie name True)
          | PString \<Rightarrow> Some (typed CatPrimitive name False) | PBool \<Rightarrow> Some (typed CatPrimitive name False)
          | PInt \<Rightarrow> Some (typed CatPrimitive name False) | PUint \<Rightarrow> Some (typed CatPrimitive name False)
          | PFloat \<Rightarrow> Some (typed CatPrimitive name False) | PDateTime \<Rightarrow> Some (typed CatPrimitive name False)))"

definition declared_field :: "Package \<Rightarrow> string \<Rightarrow> bool \<Rightarrow> ResolvedField" where
  "declared_field home name raw =
     (case map_of (p_Scalars home) name of
        Some sd \<Rightarrow>
          if sc_Primitive sd = ''bytes'' \<and> (raw \<or> HasRawFormat (decs (sc_Decorators sd)))
          then typed CatRawBytes (sc_Primitive sd) True
          else typed CatScalar (sc_Primitive sd) (nilableScalarPrimitive (sc_Primitive sd))
      | None \<Rightarrow> (case map_of (p_Enums home) name of
            Some ed \<Rightarrow> typed CatEnum (EnumPrimitive (Some ed)) False
          | None \<Rightarrow> (case map_of (p_Types home) name of
                Some _ \<Rightarrow> typed CatStruct [] False
              | None \<Rightarrow> zero_field)))"

definition resolveTypeRef :: "type_ref \<Rightarrow> bool \<Rightarrow> Package option \<Rightarrow> Project option \<Rightarrow> ResolvedField" where
  "resolveTypeRef t raw pkg proj =
     (if tr_Array t then typed CatArray [] True
      else if tr_Map t \<noteq> None then typed CatMap [] True
      else case Option.bind (tr_Named t) nt_Name of
        None \<Rightarrow> zero_field
      | Some q \<Rightarrow>
          if namesTypeParam proj q \<or> qi_Parts q = [] then zero_field
          else
            let name = last (qi_Parts q);
                homePkg = (if length (qi_Parts q) = 2 \<and> proj \<noteq> None then Packages (the proj) (hd (qi_Parts q)) else pkg)
            in case builtin_field name raw of
                 Some rf \<Rightarrow> rf
               | None \<Rightarrow> (case homePkg of None \<Rightarrow> zero_field | Some home \<Rightarrow> declared_field home name raw))"

definition ResolveField :: "Field option \<Rightarrow> Package option \<Rightarrow> Project option \<Rightarrow> ResolvedField" where
  "ResolveField fo pkg proj =
     (case fo of
        None \<Rightarrow> zero_field
      | Some f \<Rightarrow>
          let rf = (case fd_Type f of None \<Rightarrow> zero_field
                | Some t \<Rightarrow> resolveTypeRef t (HasRawFormat (decs (fd_Decorators f))) pkg proj)
          in rf\<lparr>rf_Field := Some f, rf_Binding := ExplicitBinding f,
               rf_OnWireBody := (\<not> snd (NonBodyBindingKind (Some f)) \<and> \<not> HasSensitive (decs (fd_Decorators f))),
               rf_NeedsNilGuard := FieldIsOptional (Some f), rf_HasDefValue := (ResolveDefaultValue (Some f) pkg \<noteq> None),
               rf_SpecRequired := FieldIsRequired (Some f),
               rf_RuntimeEnforced := (fd_Type f \<noteq> None \<and> \<not> FieldIsOptional (Some f) \<and> \<not> HasSensitive (decs (fd_Decorators f)))\<rparr>)"

definition Resolver_ResolveTypeRef :: "Resolver option \<Rightarrow> type_ref option \<Rightarrow> ResolvedField" where
  "Resolver_ResolveTypeRef r t =
     (case t of
        None \<Rightarrow> zero_field
      | Some t \<Rightarrow>
          let proj = Resolver_Project r;
              pkg = (case (proj, r) of (Some p, Some r) \<Rightarrow> Packages p (r_current r) | _ \<Rightarrow> None)
          in resolveTypeRef t False pkg proj)"

type_synonym LevelNames = "TypeMember list \<Rightarrow> string list"

definition LookupMethodType :: "named_type_ref option \<Rightarrow> Resolver option \<Rightarrow> TypeDecl option \<times> string" where
  "LookupMethodType ref r =
     (case Option.bind ref nt_Name of
        None \<Rightarrow> (None, [])
      | Some q \<Rightarrow> (LookupType r (QualifiedIdent_String q), (if length (qi_Parts q) = 2 then hd (qi_Parts q) else [])))"

definition resolveFlat :: "FlatField list \<Rightarrow> Package option \<Rightarrow> Resolver option \<Rightarrow> ResolvedField list" where
  "resolveFlat flat pkg r =
     map (\<lambda>ff. (ResolveField (Some (ff_Field ff)) pkg (Resolver_Project r))\<lparr>rf_Name := ff_Name ff\<rparr>) flat"

definition ResolveFields :: "TypeDecl option \<Rightarrow> string \<Rightarrow> Package option \<Rightarrow> Resolver option \<Rightarrow> LevelNames option \<Rightarrow> ResolvedField list" where
  "ResolveFields td pre pkg r names = resolveFlat (FlattenFields td pre r names) pkg r"

definition ErrorHasJSONMember :: "ErrorDecl \<Rightarrow> Resolver option \<Rightarrow> bool" where
  "ErrorHasJSONMember ed r \<longleftrightarrow>
     list_ex (\<lambda>ff. snd (JSONShape (Some (ff_Field ff))) \<noteq> JSONAbsent)
       (FlattenFields (Some \<lparr>td_Pos = zero_Position, td_NamePos = zero_Position, td_Decorators = [], td_Doc = [], td_Name = [],
           td_TypeParams = [], td_Body = er_Body ed, td_EndPos = zero_Position\<rparr>) [] r None)"

definition resolveInstance :: "named_type_ref option \<Rightarrow> Package option \<Rightarrow> Resolver option \<Rightarrow> LevelNames option \<Rightarrow> ResolvedField list" where
  "resolveInstance ref pkg r names =
     (case LookupMethodType ref r of
        (None, _) \<Rightarrow> []
      | (Some td, pre) \<Rightarrow>
          resolveFlat (flattenInstance (Some td) pre (case ref of Some n \<Rightarrow> nt_Args n | None \<Rightarrow> []) r names) pkg r)"

definition ResponseFields :: "Method option \<Rightarrow> Package option \<Rightarrow> Resolver option \<Rightarrow> LevelNames option \<Rightarrow> ResolvedField list" where
  "ResponseFields m pkg r names =
     (case Option.bind m me_Response of None \<Rightarrow> [] | Some resp \<Rightarrow> resolveInstance (Some (mr_Type resp)) pkg r names)"

definition bind_request_field :: "string set \<Rightarrow> bool \<Rightarrow> ResolvedField \<Rightarrow> ResolvedField" where
  "bind_request_field pathNames bodyVerb rf =
     (case rf_Field rf of
        None \<Rightarrow> rf
      | Some f \<Rightarrow>
          if snd (BindingKind (decs (fd_Decorators f))) \<or> rf_Binding rf \<noteq> BindBody then rf
          else case RequestFieldBinding f pathNames bodyVerb of
            (b, auto') \<Rightarrow> rf\<lparr>rf_Binding := b, rf_AutoBound := auto', rf_OnWireBody := (b = BindBody)\<rparr>)"

definition RequestFields :: "Method option \<Rightarrow> Package \<Rightarrow> Resolver option \<Rightarrow> LevelNames option \<Rightarrow> ResolvedField list" where
  "RequestFields mo pkg r names =
     (case mo of
        None \<Rightarrow> []
      | Some m \<Rightarrow>
          if me_Request m = None then []
          else map (bind_request_field (methodRoutePathVars mo (map snd (p_Services pkg))) (IsBodyVerb (me_Verb m)))
                 (resolveInstance (me_Request m) (Some pkg) r names))"

section \<open>Multipart parts\<close>

record FormField =
  fm_Field :: Field
  fm_Name :: string
  fm_WireName :: string
  fm_Required :: bool
  fm_MimeTypes :: "string list"
  fm_IsArray :: bool

definition mimeTypesOf :: "Decorator list \<Rightarrow> string list" where
  "mimeTypesOf ds = concat (map (\<lambda>d. map an_Value (ArgNames d)) (filter (\<lambda>d. dec_Name d = ''mimeTypes'') ds))"

definition form_entry :: "ResolvedField \<Rightarrow> Field \<Rightarrow> FormField" where
  "form_entry rf f =
     \<lparr>fm_Field = f, fm_Name = rf_Name rf, fm_WireName = WireName (Some f) BindForm, fm_Required = rf_SpecRequired rf,
      fm_MimeTypes = (if isFileTypeRef (fd_Type f) then mimeTypesOf (fd_Decorators f) else []),
      fm_IsArray = (isFileTypeRef (fd_Type f) \<and> (case fd_Type f of Some t \<Rightarrow> tr_Array t | None \<Rightarrow> False))\<rparr>"

definition FormParts :: "ResolvedField list \<Rightarrow> FormField list \<times> FormField list" where
  "FormParts rfs =
     (let entries = List.map_filter (\<lambda>rf. case rf_Field rf of
            None \<Rightarrow> None
          | Some f \<Rightarrow> if rf_Binding rf \<in> {BindPath, BindQuery, BindHeader, BindCookie, BindSensitive} then None
              else Some (form_entry rf f)) rfs;
          files = filter (\<lambda>e. isFileTypeRef (fd_Type (fm_Field e))) entries
      in if files = [] then ([], []) else (filter (\<lambda>e. \<not> isFileTypeRef (fd_Type (fm_Field e))) entries, files))"

section \<open>Decorators against types\<close>

definition ScalarWraps :: "string \<Rightarrow> bool" where
  "ScalarWraps name \<longleftrightarrow> PrimFromName name \<notin> {{}, {PrimFile}, {PrimCookie}, {PrimDateTime}}"

definition ScalarPrimitives :: "string list" where
  "ScalarPrimitives = filter ScalarWraps (map Prims.sp_Name All)"

definition ScalarPrims :: "ScalarDecl \<Rightarrow> Prims set" where
  "ScalarPrims sd =
     (let p = PrimFromName (sc_Primitive sd)
      in if p = {PrimBytes} \<and> HasRawFormat (decs (sc_Decorators sd)) then {PrimRawBytes} else p)"

definition formatArgMismatch :: "Decorator \<Rightarrow> Prims set \<Rightarrow> string \<Rightarrow> string \<Rightarrow> Diagnostic list" where
  "formatArgMismatch d actual subject actualDesc =
     (case dec_Args d of
        [] \<Rightarrow> []
      | a # _ \<Rightarrow>
          if dec_Name d \<noteq> ''format'' then []
          else case Option.bind (da_Value a) TextValue of
            None \<Rightarrow> []
          | Some name \<Rightarrow>
              if name = FormatRaw \<and> actual \<noteq> {PrimRawBytes}
              then [at_decorator d CodeDecoratorTypeMismatch
                     (Msg ''@format(raw) applies to bytes, but %s is %s - `raw` says the bytes already are the value in the message's own encoding, which only `bytes` carries''
                       [AStr subject, AStr actualDesc]) []]
              else if name \<noteq> FormatRaw \<and> actual \<inter> {PrimBytes, PrimRawBytes} \<noteq> {}
              then [at_decorator d CodeDecoratorTypeMismatch
                     (Msg ''@format(%s) applies to string, but %s is %s - a binary value has no text format; `raw` is the only format bytes take''
                       [AStr name, AStr subject, AStr actualDesc]) []]
              else [])"

definition applies_to :: "Decorator \<Rightarrow> Prims set \<Rightarrow> (Prims set \<Rightarrow> message) \<Rightarrow> Diagnostic list" where
  "applies_to d actual msg =
     (case DecoratorSpec (dec_Name d) of
        None \<Rightarrow> []
      | Some sp \<Rightarrow>
          if sp_AppliesTo sp = {} \<or> sp_AppliesTo sp \<inter> actual \<noteq> {} then []
          else [at_decorator d CodeDecoratorTypeMismatch (msg (sp_AppliesTo sp)) []])"

definition checkBodyTypeCompat :: "Project \<Rightarrow> Package \<Rightarrow> string \<Rightarrow> TypeMember list \<Rightarrow> Diagnostic list" where
  "checkBodyTypeCompat p own parent members =
     concat (map (\<lambda>f.
         let actual = ResolvedField_Prims (ResolveField (Some f) (Some own) (Some p))
         in concat (map (\<lambda>d. case formatArgMismatch d actual (parent @ ''.'' @ fd_Name f) (TypeRef_String (fd_Type f)) of
               [] \<Rightarrow>
                 if actual = {} then []
                 else applies_to d actual (\<lambda>ap. Msg ''@%s applies to %s fields, but %s.%s is %s''
                   [AStr (dec_Name d), AStr (Prims_String ap), AStr parent, AStr (fd_Name f), AStr (Prims_String actual)])
             | ds \<Rightarrow> ds) (fd_Decorators f))) (Fields members))"

definition checkScalarTypeCompat :: "ScalarDecl \<Rightarrow> Diagnostic list" where
  "checkScalarTypeCompat sd =
     (let wraps = Join ScalarPrimitives '', ''
      in if sc_Primitive sd = [] then []
         else if \<not> Is (sc_Primitive sd)
         then [error_at (sc_Pos sd) CodeScalarBadPrimitive
                (Msg ''scalar %q primitive must be a built-in (got %q; expected one of %s)'' [AStr (sc_Name sd), AStr (sc_Primitive sd), AStr wraps])]
         else if \<not> ScalarWraps (sc_Primitive sd)
         then [error_at (sc_Pos sd) CodeScalarBadPrimitive
                (Msg ''scalar %q cannot wrap %s (expected one of %s)'' [AStr (sc_Name sd), AStr (sc_Primitive sd), AStr wraps])]
         else
           let actual = ScalarPrims sd
           in concat (map (\<lambda>d. case formatArgMismatch d actual (''scalar '' @ sc_Name sd) (sc_Primitive sd) of
                 [] \<Rightarrow> applies_to d actual (\<lambda>ap. Msg ''@%s applies to %s, but scalar %s is %s''
                     [AStr (dec_Name d), AStr (Prims_String ap), AStr (sc_Name sd), AStr (Prims_String actual)])
               | ds \<Rightarrow> ds) (sc_Decorators sd)))"

definition checkFieldTypeCompat :: "Project \<Rightarrow> Package \<Rightarrow> Diagnostic list" where
  "checkFieldTypeCompat p own =
     concat (map (\<lambda>(_, td). checkBodyTypeCompat p own (td_Name td) (td_Body td)) (p_Types own))
     @ concat (map (\<lambda>(_, ed). checkBodyTypeCompat p own (er_Name ed) (er_Body ed)) (p_Errors own))
     @ concat (map (\<lambda>(_, sd). checkScalarTypeCompat sd) (p_Scalars own))"

section \<open>Events\<close>

record ResolvedEvent =
  re_Decl :: EventDecl
  re_Name :: string
  re_Contract :: string
  re_PayloadPkg :: string
  re_PayloadRef :: "named_type_ref option"
  re_PayloadArray :: bool
  re_Payload :: "TypeDecl option"
  re_Doc :: "string list"

definition contractName :: "string \<Rightarrow> EventDecl \<Rightarrow> string" where
  "contractName pkgName d =
     (case StringArg (decs (en_Decorators d)) decoratorContract of Some s \<Rightarrow> s | None \<Rightarrow> pkgName @ ''.'' @ en_Name d)"

definition resolveEvent :: "Project \<Rightarrow> Package \<Rightarrow> EventDecl \<Rightarrow> ResolvedEvent" where
  "resolveEvent p pkg d =
     (let re = \<lparr>re_Decl = d, re_Name = en_Name d, re_Contract = contractName (p_Name pkg) d, re_PayloadPkg = [], re_PayloadRef = None,
            re_PayloadArray = False, re_Payload = None, re_Doc = DescriptionLines (en_Decorators d) (en_Doc d)\<rparr>
      in case en_Payload d of
           None \<Rightarrow> re
         | Some pl \<Rightarrow>
             (case nt_Name (ep_Type pl) of
                None \<Rightarrow> re
              | Some q \<Rightarrow>
                  let re1 = re\<lparr>re_PayloadRef := Some (ep_Type pl), re_PayloadArray := ep_Array pl\<rparr>
                  in case resolve (Some p) (p_Name pkg) (Some q) of
                       (None, _) \<Rightarrow> re1
                     | (Some home, name) \<Rightarrow> re1\<lparr>re_PayloadPkg := p_Name home, re_Payload := map_of (p_Types home) name\<rparr>))"

definition events :: "Project \<Rightarrow> ResolvedEvent list" where
  "events p =
     sort_key re_Contract (concat (map (\<lambda>pkgName. case Packages p pkgName of
         None \<Rightarrow> []
       | Some pkg \<Rightarrow> List.map_filter (\<lambda>name. map_option (resolveEvent p pkg) (map_of (p_Events pkg) name)) (sorted_keys (p_Events pkg)))
       (PackageNames p)))"

definition LookupEvent :: "Project option \<Rightarrow> string \<Rightarrow> string \<Rightarrow> ResolvedEvent option" where
  "LookupEvent p homePkg ref =
     (case p of
        None \<Rightarrow> None
      | Some pr \<Rightarrow>
          if ref = [] then None
          else case resolveName p homePkg ref of
            (None, _) \<Rightarrow> None
          | (Some pkg, name) \<Rightarrow> map_option (resolveEvent pr pkg) (map_of (p_Events pkg) name))"

end
