(* ===== verification/Bindings.thy ===== *)
theory Bindings
  imports Resolved
begin

text \<open>
  Where a field rides on the wire: the binding rules of \<^verbatim>\<open>binding_checks.go\<close> and the body and
  multipart rules of \<^verbatim>\<open>method_checks.go\<close> of \<^verbatim>\<open>internal/semantic\<close>.

  \<open>p\<close> is the project and \<open>own\<close> the package the analyser runs on. A message that Go renders before
  it reports it is kept unrendered.
\<close>

definition CodeDuplicateWireName :: string where "CodeDuplicateWireName = ''binding/duplicate-wire-name''"
definition CodeBindingConflict :: string where "CodeBindingConflict = ''binding/conflict''"
definition CodeBindingType :: string where "CodeBindingType = ''binding/type''"
definition CodeBindingVerb :: string where "CodeBindingVerb = ''binding/verb''"
definition CodeBindingFormWithoutFile :: string where "CodeBindingFormWithoutFile = ''binding/form-without-file''"

section \<open>Types a binding carries\<close>

definition elemFacts :: "Project \<Rightarrow> string \<Rightarrow> type_ref \<Rightarrow> ResolvedField" where
  "elemFacts p home t =
     (let t' = (if tr_Array t then (case ElemTypeRef (Some t) of Some e \<Rightarrow> e | None \<Rightarrow> t) else t)
      in resolveTypeRef t' False (Packages p home) (Some p))"

definition wireBindable :: "Project \<Rightarrow> string \<Rightarrow> type_ref option \<Rightarrow> bool" where
  "wireBindable p home to =
     (case to of
        None \<Rightarrow> False
      | Some t \<Rightarrow>
          (case tr_Named t of
             None \<Rightarrow> False
           | Some n \<Rightarrow>
               if nt_Name n = None \<or> nt_Args n \<noteq> [] \<or> tr_ArrayDepth t > 1 then False
               else let rt = elemFacts p home t
                    in (case rf_Category rt of
                          CatPrimitive \<Rightarrow> IsWireParseable (rf_ResolvedPrim rt)
                        | CatScalar \<Rightarrow> IsWireParseable (rf_ResolvedPrim rt)
                        | CatEnum \<Rightarrow> True
                        | _ \<Rightarrow> False)))"

definition pathBindable :: "Project \<Rightarrow> string \<Rightarrow> type_ref option \<Rightarrow> bool" where
  "pathBindable p home to =
     (case to of
        None \<Rightarrow> False
      | Some t \<Rightarrow> if tr_Optional t \<or> tr_Array t then False else wireBindable p home to)"

definition formBindable :: "Project \<Rightarrow> string \<Rightarrow> type_ref option \<Rightarrow> bool" where
  "formBindable p home to =
     (case to of
        None \<Rightarrow> False
      | Some t \<Rightarrow>
          if tr_Named t = None then False
          else if rf_Category (elemFacts p home t) = CatFile then tr_ArrayDepth t \<le> 1
          else wireBindable p home to)"

definition namesNoType :: "Project \<Rightarrow> string \<Rightarrow> type_ref option \<Rightarrow> bool" where
  "namesNoType p home t =
     list_ex (\<lambda>n. case nt_Name n of
         None \<Rightarrow> False
       | Some q \<Rightarrow> \<not> Is (QualifiedIdent_String q)
           \<and> (case resolve (Some p) home (Some q) of
                (None, _) \<Rightarrow> True
              | (Some pkg, symb) \<Rightarrow> Package_Decl pkg symb TypeRefDecls = None)) (TypeRef_WalkNamedRefs t)"

definition TypeParamValue :: "type_ref option \<Rightarrow> string list \<Rightarrow> bool" where
  "TypeParamValue to typeParams \<longleftrightarrow>
     (case to of None \<Rightarrow> False | Some t \<Rightarrow> \<not> tr_Array t \<and> typeParamNamed t typeParams)"

definition msgBindPath :: string where
  "msgBindPath = ''field %s.%s: @path requires a non-optional, non-array string/bool/int*/uint*/float* field (or a scalar/enum wrapping one) - got %s''"
definition msgBindWire :: string where
  "msgBindWire = ''field %s.%s: @%s requires string/bool/int*/uint*/float*, a scalar/enum wrapping one of those, or an array of those (no maps, structs, or generic instantiations) - got %s''"
definition msgBindCookieArray :: string where
  "msgBindCookieArray = ''field %s.%s: @cookie cannot bind to an array - cookies carry a single value per name''"
definition msgBindForm :: string where
  "msgBindForm = ''field %s.%s: @form requires `file` or string/bool/int*/uint*/float*, a scalar/enum wrapping one of those, or a single-level array of those, `file[]` included (no maps, structs, or nested arrays) - got %s''"

text \<open>\<open>t\<close> is the type of \<open>f\<close>, which every caller has found.\<close>

definition wireTypeFault :: "Project \<Rightarrow> string \<Rightarrow> string \<Rightarrow> Field \<Rightarrow> type_ref \<Rightarrow> Binding \<Rightarrow> message option" where
  "wireTypeFault p parent home f t kind =
     (let spelled = AStr (TypeRef_String (Some t)); name = AStr (fd_Name f); k = AStr (Binding_String kind)
      in if tr_ArrayDepth t > 1 \<and> (kind = BindQuery \<or> kind = BindHeader \<or> kind = BindForm)
         then Some (Msg ''field %s.%s: @%s cannot bind to a multi-dimensional array - a wire parameter carries repeated single values (`?x=1&x=2`), which has no nested form. Move the field to the JSON body or flatten to a single-level array.''
                [AStr parent, name, k])
         else if kind = BindPath \<and> \<not> pathBindable p home (Some t) then Some (Msg msgBindPath [AStr parent, name, spelled])
         else if kind = BindCookie \<and> tr_Array t then Some (Msg msgBindCookieArray [AStr parent, name])
         else if kind = BindCookie \<and> isCookieTypeRef (Some t) then None
         else if (kind = BindQuery \<or> kind = BindHeader \<or> kind = BindCookie) \<and> \<not> wireBindable p home (Some t)
         then Some (Msg msgBindWire [AStr parent, name, k, spelled])
         else if kind = BindForm \<and> \<not> formBindable p home (Some t) then Some (Msg msgBindForm [AStr parent, name, spelled])
         else None)"

section \<open>Bindings of one field\<close>

definition checkBindingFieldType :: "Project \<Rightarrow> Package \<Rightarrow> string \<Rightarrow> Field \<Rightarrow> string list \<Rightarrow> Diagnostic list" where
  "checkBindingFieldType p own parent f typeParams =
     (let ds = decs (fd_Decorators f); kind = fst (BindingKind ds)
      in case fd_Type f of
           None \<Rightarrow> []
         | Some t \<Rightarrow>
             if \<not> IsParam kind then []
             else case FindDecorator ds (Binding_String kind) of
               None \<Rightarrow> []
             | Some d \<Rightarrow>
                 if HasDecorator ds ''nullable''
                 then [at_decorator d CodeDecoratorConflict
                        (Msg ''@nullable cannot be combined with @%s: a wire parameter is a string with no JSON-null form. Use `?` to make the parameter optional.''
                          [AStr (dec_Name d)]) []]
                 else if kind = BindPath \<and> HasDecorator ds ''default''
                 then [at_decorator d CodeDecoratorConflict
                        (Msg ''@default cannot be combined with @path: a path segment is always supplied for a matched route, so the default can never apply - drop it.'' []) []]
                 else if typeParamNamed t typeParams then []
                 else case wireTypeFault p parent (p_Name own) f t kind of
                   None \<Rightarrow> []
                 | Some msg \<Rightarrow> [at_decorator d CodeBindingType msg []])"

definition checkWireNameTag :: "string \<Rightarrow> Field \<Rightarrow> Diagnostic list" where
  "checkWireNameTag parent f =
     (case NonBodyBindingKind (Some f) of (kind, ok) \<Rightarrow>
        if \<not> ok then []
        else let name = WireName (Some f) kind
             in if CHR 0x60 \<in> set name
                then case FindDecorator (decs (fd_Decorators f)) (Binding_String kind) of
                    None \<Rightarrow> []
                  | Some d \<Rightarrow> [at_decorator d CodeDecoratorArgValue
                      (Msg ''field %s.%s: @%s(%q) holds a backtick, which the generated struct tag, a Go raw string, cannot hold - rename the %s''
                        [AStr parent, AStr (fd_Name f), AStr (Binding_String kind), AStr name, AStr (Binding_String kind)]) []]
                else [])"

fun single_binding :: "string \<Rightarrow> Field \<Rightarrow> Decorator option \<Rightarrow> Decorator list \<Rightarrow> Diagnostic list" where
  "single_binding parent f first [] = []"
| "single_binding parent f first (d # ds) =
     (if \<not> IsBindingName (dec_Name d) then single_binding parent f first ds
      else case first of
        None \<Rightarrow> single_binding parent f (Some d) ds
      | Some d0 \<Rightarrow>
          at_decorator d CodeBindingConflict
            (Msg ''field %s.%s: @%s conflicts with @%s (a field must have at most one binding)''
              [AStr parent, AStr (fd_Name f), AStr (dec_Name d), AStr (dec_Name d0)])
            (related (dec_Pos d0) ''first binding here'')
          # single_binding parent f first ds)"

definition checkSingleBinding :: "string \<Rightarrow> Field \<Rightarrow> Diagnostic list" where
  "checkSingleBinding parent f = single_binding parent f None (fd_Decorators f)"

section \<open>Wire names\<close>

record wireKey =
  wk_binding :: Binding
  wk_name :: string

definition wire_key :: "Binding \<Rightarrow> string \<Rightarrow> wireKey" where
  "wire_key kind name = \<lparr>wk_binding = kind, wk_name = CanonicalWireName kind name\<rparr>"

definition wireBinding :: "Field \<Rightarrow> (Binding \<times> string) option" where
  "wireBinding f =
     (let k = fst (BindingKind (decs (fd_Decorators f)))
      in if IsParam k then Some (k, WireName (Some f) k) else None)"

fun duplicate_wire :: "string \<Rightarrow> string \<Rightarrow> (wireKey \<times> FlatField) list \<Rightarrow> FlatField list \<Rightarrow> Diagnostic list" where
  "duplicate_wire own parent seen [] = []"
| "duplicate_wire own parent seen (ff # ffs) =
     (let f = ff_Field ff
      in case wireBinding f of
           None \<Rightarrow> duplicate_wire own parent seen ffs
         | Some (kind, name) \<Rightarrow>
             (case map_of seen (wire_key kind name) of
                None \<Rightarrow> duplicate_wire own parent (AList.update (wire_key kind name) ff seen) ffs
              | Some prev \<Rightarrow>
                  sem_diag (fd_Pos f) (fd_Pos f) SeverityError CodeDuplicateWireName
                    (Msg (if ff_Home ff \<noteq> own \<or> ff_Home prev \<noteq> own
                          then ''%s.%s: @%s(%q) reuses a wire name already bound on this request through a cross-package mixin - the OpenAPI would carry a duplicate parameter and the binder would read both fields from one value. Use distinct names.''
                          else ''%s.%s: @%s(%q) reuses a wire name already bound on the same source - the OpenAPI would carry a duplicate parameter and the binder would read both fields from one value. Use distinct names.'')
                      [AStr parent, AStr (fd_Name f), AStr (Binding_String kind), AStr name])
                    (related (fd_Pos (ff_Field prev)) ''first bound here'')
                  # duplicate_wire own parent seen ffs))"

definition checkDuplicateWireNames :: "Project \<Rightarrow> Package \<Rightarrow> string \<Rightarrow> TypeMember list \<Rightarrow> Diagnostic list" where
  "checkDuplicateWireNames p own parent members =
     duplicate_wire (p_Name own) parent []
       (fst (flattenFields (Some p) (p_Name own) (p_Name own) members [] [] None))"

record auto_binding =
  ab_pos :: Position
  ab_auto :: bool

fun auto_wire :: "string \<Rightarrow> Method \<Rightarrow> string set \<Rightarrow> bool \<Rightarrow> (wireKey \<times> auto_binding) list \<Rightarrow> FlatField list \<Rightarrow> Diagnostic list" where
  "auto_wire reqName m pathSegs bodyVerb seen [] = []"
| "auto_wire reqName m pathSegs bodyVerb seen (ff # ffs) =
     (let f = ff_Field ff; b = RequestFieldBinding f pathSegs bodyVerb; kind = fst b; auto = snd b;
          name = WireName (Some f) kind
      in if \<not> IsParam kind then auto_wire reqName m pathSegs bodyVerb seen ffs
         else case map_of seen (wire_key kind name) of
           None \<Rightarrow> auto_wire reqName m pathSegs bodyVerb (AList.update (wire_key kind name) \<lparr>ab_pos = fd_Pos f, ab_auto = auto\<rparr> seen) ffs
         | Some prev \<Rightarrow>
             (if auto \<or> ab_auto prev
              then [sem_diag (fd_Pos f) (fd_Pos f) SeverityError CodeDuplicateWireName
                     (Msg ''%s.%s on %s %s: this field auto-binds to @%s(%q), already bound by another field - the binder reads both from one value and the OpenAPI carries a duplicate parameter. Give one an explicit, distinct binding.''
                       [AStr reqName, AStr (fd_Name f), AStr (ToUpper (me_Verb m)), AStr (me_Name m), AStr (Binding_String kind), AStr name])
                     (related (ab_pos prev) ''first bound here'')]
              else [])
             @ auto_wire reqName m pathSegs bodyVerb seen ffs)"

definition request_name :: "named_type_ref \<Rightarrow> string" where
  "request_name r = (case nt_Name r of Some q \<Rightarrow> QualifiedIdent_String q | None \<Rightarrow> [])"

definition checkDuplicateAutoWireNames :: "Project \<Rightarrow> Package \<Rightarrow> Method \<Rightarrow> Diagnostic list" where
  "checkDuplicateAutoWireNames p own m =
     (case me_Request m of
        None \<Rightarrow> []
      | Some r \<Rightarrow>
          if nt_Name r = None then []
          else case instanceFields p (p_Name own) (Some r) of
            None \<Rightarrow> []
          | Some (_, ffs) \<Rightarrow>
              auto_wire (request_name r) m (methodRoutePathVars (Some m) (map snd (p_Services own))) (IsBodyVerb (me_Verb m)) [] ffs)"

section \<open>Path parameters\<close>

datatype pathFault = pathBinds | pathOptional | pathNullable | pathDefault | pathType

definition pathFaultOf :: "Project \<Rightarrow> string \<Rightarrow> Field \<Rightarrow> type_ref \<Rightarrow> pathFault" where
  "pathFaultOf p home f t =
     (if tr_Optional t then pathOptional
      else if HasDecorator (decs (fd_Decorators f)) ''nullable'' then pathNullable
      else if HasDecorator (decs (fd_Decorators f)) ''default'' then pathDefault
      else if \<not> pathBindable p home (Some t) then pathType
      else pathBinds)"

definition PathParam :: "Project \<Rightarrow> string \<Rightarrow> Field option \<Rightarrow> string \<times> bool" where
  "PathParam p home fo =
     (case fo of
        None \<Rightarrow> ([], False)
      | Some f \<Rightarrow>
          (case fd_Type f of
             None \<Rightarrow> ([], False)
           | Some t \<Rightarrow>
               if fst (RequestFieldBinding f {fd_Name f} False) \<noteq> BindPath then ([], False)
               else (WireName fo BindPath, pathFaultOf p home f t = pathBinds)))"

definition autoPathFieldRule :: "Project \<Rightarrow> string \<Rightarrow> string \<Rightarrow> string set \<Rightarrow> Field \<Rightarrow> Diagnostic list" where
  "autoPathFieldRule p reqName view pathSegs f =
     (case fd_Type f of
        None \<Rightarrow> []
      | Some t \<Rightarrow>
          (case RequestFieldBinding f pathSegs False of (b, auto) \<Rightarrow>
             if b \<noteq> BindPath \<or> \<not> auto then []
             else let args = [AStr reqName, AStr (fd_Name f), AStr (fd_Name f)]
                  in case pathFaultOf p view f t of
                       pathOptional \<Rightarrow> [error_at (fd_Pos f) CodeDecoratorConflict
                         (Msg ''field %s.%s auto-binds to the path segment {%s}, which a matched route always supplies - drop the optional `?` (a path parameter is never absent).'' args)]
                     | pathNullable \<Rightarrow> [error_at (fd_Pos f) CodeDecoratorConflict
                         (Msg ''field %s.%s auto-binds to the path segment {%s}, but @nullable makes it a pointer while the path binder writes a plain string - drop @nullable (a path parameter has no null form).'' args)]
                     | pathDefault \<Rightarrow> [error_at (fd_Pos f) CodeDecoratorConflict
                         (Msg ''field %s.%s auto-binds to the path segment {%s}, which is always supplied, so @default can never apply - drop it.'' args)]
                     | pathType \<Rightarrow> [error_at (fd_Pos f) CodeBindingType
                         (Msg ''field %s.%s auto-binds to the path segment {%s}, but @path requires a non-optional, non-array string/bool/int*/uint*/float* field (or a scalar/enum wrapping one) - got %s''
                           (args @ [AStr (TypeRef_String (Some t))]))]
                     | pathBinds \<Rightarrow> []))"

definition checkAutoPathField :: "Project \<Rightarrow> Package \<Rightarrow> Method \<Rightarrow> Diagnostic list" where
  "checkAutoPathField p own m =
     (if me_Path m = None then []
      else case instanceFields p (p_Name own) (me_Request m) of
        None \<Rightarrow> []
      | Some (view, ffs) \<Rightarrow>
          let pathSegs = methodRoutePathVars (Some m) (map snd (p_Services own))
          in if pathSegs = {} then []
             else concat (map (\<lambda>ff. autoPathFieldRule p (case me_Request m of Some r \<Rightarrow> request_name r | None \<Rightarrow> []) view pathSegs (ff_Field ff)) ffs))"

section \<open>Type parameters\<close>

definition holdsFile :: "type_ref option \<Rightarrow> bool" where
  "holdsFile t \<longleftrightarrow> list_ex (\<lambda>n. case nt_Name n of None \<Rightarrow> False | Some q \<Rightarrow> QualifiedIdent_String q = ''file'') (TypeRef_WalkNamedRefs t)"

text \<open>
  The diagnostics reported so far, by position and text. Two messages have one text exactly when
  they have one format and one list of arguments: names hold no dot but the one of a qualifier.
\<close>

type_synonym reported = "(string \<times> message) set"

definition instance_fault :: "Project \<Rightarrow> Package \<Rightarrow> named_type_ref \<Rightarrow> Position \<Rightarrow> bool \<Rightarrow> bool \<Rightarrow> string \<Rightarrow> FlatField
    \<Rightarrow> (Position \<times> message) option" where
  "instance_fault p own ref pos fileReported raw view ff =
     (let f = ff_Field ff; kind = fst (BindingKind (decs (fd_Decorators f)))
      in if \<not> ff_paramTyped ff \<or> \<not> IsParam kind then None
         else if namesNoType p view (fd_Type f) \<or> fileReported \<and> holdsFile (fd_Type f) then None
         else
           let here = (NamedTypeRef_String (Some ref), pos);
               (inst, at') = (case ff_origin ff of
                   Some orig \<Rightarrow> if ms_home orig = p_Name own then (NamedTypeRef_String (mx_Ref (ms_mixin orig)), mx_Pos (ms_mixin orig)) else here
                 | None \<Rightarrow> here)
           in case fd_Type f of
                None \<Rightarrow> None
              | Some t \<Rightarrow>
                  (case wireTypeFault p inst view f t kind of
                     Some msg \<Rightarrow> Some (at', msg)
                   | None \<Rightarrow>
                       if sliceBehindPointer ff \<and> \<not> raw
                       then Some (at', Msg ''field %s.%s: @%s rides an optional type parameter over an array, whose Go value is a pointer to a slice no %s binding reads or writes - drop the `?` from the type parameter (an array is already nilable)''
                              [AStr inst, AStr (fd_Name f), AStr (Binding_String kind), AStr (Binding_String kind)])
                       else None))"

fun report_instance :: "(Position \<times> message) list \<Rightarrow> reported \<Rightarrow> Diagnostic list \<times> reported" where
  "report_instance [] reported = ([], reported)"
| "report_instance ((at', msg) # faults) reported =
     (if (Position_String at', msg) \<in> reported then report_instance faults reported
      else let (ds, reported') = report_instance faults (insert (Position_String at', msg) reported)
           in (error_at at' CodeBindingType msg # ds, reported'))"

definition checkInstanceWireBindings :: "Project \<Rightarrow> Package \<Rightarrow> named_type_ref option \<Rightarrow> Position \<Rightarrow> bool \<Rightarrow> bool \<Rightarrow> reported
    \<Rightarrow> Diagnostic list \<times> reported" where
  "checkInstanceWireBindings p own ref pos fileReported raw reported =
     (case ref of
        None \<Rightarrow> ([], reported)
      | Some r \<Rightarrow>
          (case instanceFields p (p_Name own) ref of
             None \<Rightarrow> ([], reported)
           | Some (view, ffs) \<Rightarrow> report_instance (List.map_filter (instance_fault p own r pos fileReported raw view) ffs) reported))"

definition method_instances :: "ServiceInfo \<Rightarrow> Method \<Rightarrow> (named_type_ref option \<times> Position \<times> bool \<times> bool) list" where
  "method_instances si m =
     (let (rawReq, rawResp) = RawSides (decs (Service_Decorators si m))
      in (case me_Request m of None \<Rightarrow> [] | Some r \<Rightarrow> [(Some r, nt_Pos r, False, rawReq)])
         @ (case me_Response m of None \<Rightarrow> [] | Some r \<Rightarrow> [(Some (mr_Type r), mr_Pos r, True, rawResp)]))"

definition checkTypeParamWireBindings :: "Project \<Rightarrow> Package \<Rightarrow> Diagnostic list" where
  "checkTypeParamWireBindings p own =
     (let svcs = concat (map (\<lambda>name. case map_of (p_Services own) name of
              None \<Rightarrow> []
            | Some si \<Rightarrow> concat (map (method_instances si) (si_Methods si))) (ServiceNames own));
          errs = concat (map (\<lambda>name. case map_of (p_Errors own) name of
              None \<Rightarrow> []
            | Some ed \<Rightarrow> List.map_filter (\<lambda>m. case m of TM_Mixin mx \<Rightarrow> Some (mx_Ref mx, mx_Pos mx, True, False) | _ \<Rightarrow> None) (er_Body ed))
            (sorted_keys (p_Errors own)))
      in fst (foldl (\<lambda>(ds, reported) (ref, pos, fileReported, raw).
             let (ds', reported') = checkInstanceWireBindings p own ref pos fileReported raw reported
             in (ds @ ds', reported')) ([], {}) (svcs @ errs)))"

section \<open>Bodies of methods\<close>

definition builtinClauseName :: "named_type_ref option \<Rightarrow> string" where
  "builtinClauseName n =
     (case Option.bind n nt_Name of
        None \<Rightarrow> []
      | Some q \<Rightarrow> if length (qi_Parts q) = 1 \<and> Is (hd (qi_Parts q)) then hd (qi_Parts q) else [])"

definition bareRequestKind :: "Package option \<Rightarrow> named_type_ref option \<Rightarrow> string \<Rightarrow> string" where
  "bareRequestKind pkg n symb =
     (if builtinClauseName n \<noteq> [] then ''built-in primitive''
      else case pkg of
        None \<Rightarrow> []
      | Some pkg \<Rightarrow> if map_of (p_Scalars pkg) symb \<noteq> None then ''scalar''
          else if map_of (p_Enums pkg) symb \<noteq> None then ''enum'' else [])"

definition checkRequestBodyType :: "Project \<Rightarrow> Package \<Rightarrow> Method \<Rightarrow> Diagnostic list" where
  "checkRequestBodyType p own m =
     (case me_Request m of
        None \<Rightarrow> []
      | Some r \<Rightarrow>
          if nt_Name r = None then []
          else let (pkg, symb) = resolve (Some p) (p_Name own) (nt_Name r);
                   kind = bareRequestKind pkg (Some r) symb
               in if kind = [] then []
                  else [error_at (nt_Pos r) CodeBindingType
                         (Msg ''request type %q is a %s, which has no fields to bind or decode as a request body - wrap it in a type (`type Req { value %s }`)''
                           [AStr (request_name r), AStr kind, AStr (request_name r)])])"

definition checkResponseBodyType :: "Method \<Rightarrow> Diagnostic list" where
  "checkResponseBodyType m =
     (case me_Response m of
        None \<Rightarrow> []
      | Some r \<Rightarrow>
          let name = builtinClauseName (Some (mr_Type r))
          in if name = [] then []
             else [error_at (mr_Pos r) CodeBindingType
                    (Msg ''response type %q is a built-in primitive, which names no generated type to encode as a response body - wrap it in a type (`type Resp { value %s }`)''
                      [AStr name, AStr name])])"

definition noContentStatus :: "int \<Rightarrow> bool" where
  "noContentStatus code \<longleftrightarrow> code = 204 \<or> code = 205 \<or> code = 304 \<or> code \<ge> 100 \<and> code < 200"

definition checkNoContentStatusBody :: "Method \<Rightarrow> Decorator list \<Rightarrow> Diagnostic list" where
  "checkNoContentStatusBody m ds =
     (if me_Response m = None then []
      else case StatusOverride (decs ds) of (code, ok) \<Rightarrow>
        if \<not> ok \<or> \<not> noContentStatus code then []
        else case FindDecorator (decs ds) ''status'' of
          None \<Rightarrow> []
        | Some d \<Rightarrow> [at_decorator d CodeDecoratorConflict
            (Msg ''@status(%d) is a no-content status and cannot carry a response body, but method %s declares one - drop the response, or use a status that allows a body.''
              [AInt code, AStr (me_Name m)]) []])"

definition warn_dec :: "Decorator \<Rightarrow> message \<Rightarrow> Related list \<Rightarrow> Diagnostic" where
  "warn_dec d msg rel = sem_diag (dec_Pos d) (decoratorEnd d) SeverityWarning CodeDecoratorRedundant msg rel"

definition dec_before :: "Decorator \<Rightarrow> Decorator \<Rightarrow> bool" where
  "dec_before x y \<longleftrightarrow> comparePos (dec_Pos x) (dec_Pos y) < 0"

definition raw_flag :: "string \<Rightarrow> Method \<Rightarrow> Decorator option \<Rightarrow> Decorator option \<Rightarrow> string \<Rightarrow> Diagnostic list" where
  "raw_flag svcName m pass flag side =
     (case (pass, flag) of
        (Some pass, Some d) \<Rightarrow>
          if dec_before d pass
          then [warn_dec pass (Msg ''@passthrough on method %s.%s already covers @%s - drop the flag'' [AStr svcName, AStr (me_Name m), AStr (dec_Name d)])
                 (related (dec_Pos d) (''@'' @ dec_Name d @ '' declared here''))]
          else [warn_dec d (Msg ''@%s is redundant on method %s.%s: @passthrough already makes the %s side raw''
                   [AStr (dec_Name d), AStr svcName, AStr (me_Name m), AStr side])
                 (related (dec_Pos pass) ''@passthrough declared here'')]
      | _ \<Rightarrow> [])"

definition checkRawModeRedundancy :: "string \<Rightarrow> Method \<Rightarrow> Decorator list \<Rightarrow> Diagnostic list" where
  "checkRawModeRedundancy svcName m ds =
     (let pass = FindDecorator (decs ds) DecoratorPassthrough;
          req = FindDecorator (decs ds) DecoratorRawRequest;
          resp = FindDecorator (decs ds) DecoratorRawResponse
      in raw_flag svcName m pass req ''request'' @ raw_flag svcName m pass resp ''response''
         @ (case (req, resp) of
              (Some req, Some resp) \<Rightarrow>
                let first = (if dec_before resp req then resp else req); second = (if dec_before resp req then req else resp)
                in if (case pass of None \<Rightarrow> True | Some pass \<Rightarrow> dec_before second pass)
                   then [warn_dec second (Msg ''@rawRequest together with @rawResponse is exactly @passthrough on method %s.%s - write @passthrough instead''
                            [AStr svcName, AStr (me_Name m)])
                          (related (dec_Pos first) (''@'' @ dec_Name first @ '' declared here''))]
                   else []
            | _ \<Rightarrow> []))"

definition bodyBindingVerbRules :: "Project \<Rightarrow> string \<Rightarrow> string \<Rightarrow> string \<Rightarrow> string \<Rightarrow> string set \<Rightarrow> FlatField \<Rightarrow> Diagnostic list" where
  "bodyBindingVerbRules p reqName verb svcName view pathSegs ff =
     (let f = ff_Field ff; args = [AStr reqName, AStr (fd_Name f), AStr verb, AStr svcName]
      in (case find (\<lambda>d. dec_Name d = BindingBody \<or> dec_Name d = BindingForm) (fd_Decorators f) of
            None \<Rightarrow> []
          | Some d \<Rightarrow> [at_decorator d CodeBindingVerb
              (Msg ''field %s.%s: @%s requires a body-bearing verb (POST/PUT/PATCH) - the %s %s handler decodes no request body, so the field would be silently dropped''
                [AStr reqName, AStr (fd_Name f), AStr (dec_Name d), AStr verb, AStr svcName]) []])
         @ (case fd_Type f of
              None \<Rightarrow> []
            | Some t \<Rightarrow>
                if RequestFieldBinding f pathSegs False \<noteq> (BindQuery, True) then []
                else if HasDecorator (decs (fd_Decorators f)) ''nullable''
                then [error_at (fd_Pos f) CodeDecoratorConflict
                       (Msg ''field %s.%s: on the %s %s handler this auto-binds to @query (there is no request body to decode into), but @nullable has no meaning on a wire parameter - a query string has no JSON-null form. Use `?` to make it optional, or switch to a body verb (POST/PUT/PATCH).'' args)]
                else if sliceBehindPointer ff
                then [error_at (fd_Pos f) CodeBindingType
                       (Msg ''field %s.%s: on the %s %s handler this auto-binds to @query (there is no request body to decode into), but it is an optional type parameter over an array, whose Go value is a pointer to a slice the query binder cannot fill - drop the `?` from the type parameter (an array is already nilable), or switch to a body verb (POST/PUT/PATCH)'' args)]
                else if \<not> wireBindable p view (Some t)
                then [error_at (fd_Pos f) CodeBindingType
                       (Msg ''field %s.%s: on the %s %s handler this auto-binds to @query (there is no request body to decode into), but %s can't ride a query string - switch to a body verb (POST/PUT/PATCH) so it rides @body, give it an explicit binding, or change the type''
                         (args @ [AStr (TypeRef_String (Some t))]))]
                else []))"

definition checkBodyBindingVerb :: "Project \<Rightarrow> Package \<Rightarrow> string \<Rightarrow> Method \<Rightarrow> Diagnostic list" where
  "checkBodyBindingVerb p own svcName m =
     (case me_Request m of
        None \<Rightarrow> []
      | Some r \<Rightarrow>
          if IsBodyVerb (me_Verb m) then []
          else case instanceFields p (p_Name own) (Some r) of
            None \<Rightarrow> []
          | Some (view, ffs) \<Rightarrow>
              let pathSegs = methodRoutePathVars (Some m) (map snd (p_Services own))
              in concat (map (bodyBindingVerbRules p (request_name r) (ToUpper (me_Verb m)) svcName view pathSegs) ffs))"

section \<open>Multipart requests\<close>

definition request_parts :: "string set \<Rightarrow> FlatField list \<Rightarrow> FlatField list" where
  "request_parts pathSegs ffs =
     filter (\<lambda>ff. fst (RequestFieldBinding (ff_Field ff) pathSegs True) \<in> {BindBody, BindForm}) ffs"

definition form_without_file :: "string \<Rightarrow> string \<Rightarrow> string \<Rightarrow> FlatField \<Rightarrow> Diagnostic list" where
  "form_without_file reqName verb svcName ff =
     (case FindDecorator (decs (fd_Decorators (ff_Field ff))) BindingForm of
        None \<Rightarrow> []
      | Some d \<Rightarrow> [at_decorator d CodeBindingFormWithoutFile
          (Msg ''field %s.%s: @form is a multipart part and needs a `file` in the request, but on the %s %s handler the request has no `file` - drop @form so the field rides the JSON body''
            [AStr reqName, AStr (fd_Name (ff_Field ff)), AStr verb, AStr svcName]) []])"

definition multipart_part :: "Project \<Rightarrow> string \<Rightarrow> string \<Rightarrow> string \<Rightarrow> string \<Rightarrow> FlatField \<Rightarrow> Diagnostic list" where
  "multipart_part p reqName verb svcName view ff =
     (let f = ff_Field ff; args = [AStr reqName, AStr (fd_Name f), AStr verb, AStr svcName]
      in if ff_optionalParam ff \<and> isFileTypeRef (fd_Type f)
         then [error_at (fd_Pos f) CodeBindingType
                (Msg ''field %s.%s: on the %s %s handler this rides a multipart file part, but it is an optional type parameter over a file (%s), whose Go value is a pointer the multipart binder cannot fill - drop the `?` from the type parameter (a file is already nilable)''
                  (args @ [AStr (TypeRef_String (map_option (\<lambda>t. case t of TypeRef q m n arr opt d \<Rightarrow> TypeRef q m n arr False d) (fd_Type f)))]))]
         else if HasDecorator (decs (fd_Decorators f)) BindingForm then []
         else if holdsFile (fd_Type f) then []
         else if sliceBehindPointer ff
         then [error_at (fd_Pos f) CodeBindingType
                (Msg ''field %s.%s: on the %s %s handler this rides a multipart form part (the request carries a file), but it is an optional type parameter over an array, whose Go value is a pointer to a slice the form binder cannot fill - drop the `?` from the type parameter (an array is already nilable)'' args)]
         else if \<not> wireBindable p view (fd_Type f)
         then [error_at (fd_Pos f) CodeBindingType
                (Msg ''field %s.%s: on the %s %s handler this rides a multipart form part (the request carries a file), but %s is no form value - a part carries string/bool/int*/uint*/float*, a scalar/enum wrapping one of those, or a single-level array of those (no maps, structs, generic instantiations or nested arrays); split it into such fields, or send it in a request without a file''
                  (args @ [AStr (TypeRef_String (fd_Type f))]))]
         else [])"

definition checkMultipartParts :: "Project \<Rightarrow> Package \<Rightarrow> string \<Rightarrow> Method \<Rightarrow> Decorator list \<Rightarrow> Diagnostic list" where
  "checkMultipartParts p own svcName m ds =
     (case me_Request m of
        None \<Rightarrow> []
      | Some r \<Rightarrow>
          if \<not> IsBodyVerb (me_Verb m) then []
          else case instanceFields p (p_Name own) (Some r) of
            None \<Rightarrow> []
          | Some (view, ffs) \<Rightarrow>
              let parts = request_parts (methodRoutePathVars (Some m) (map snd (p_Services own))) ffs; verb = ToUpper (me_Verb m)
              in if \<not> list_ex (\<lambda>ff. isFileTypeRef (fd_Type (ff_Field ff))) parts
                 then concat (map (form_without_file (request_name r) verb svcName) parts)
                 else if fst (RawSides (decs ds)) then []
                 else concat (map (multipart_part p (request_name r) verb svcName view) parts))"

definition checkMethodCombinations :: "Project \<Rightarrow> Package \<Rightarrow> ServiceDecl \<Rightarrow> Method \<Rightarrow> Diagnostic list" where
  "checkMethodCombinations p own svc m =
     (let svcName = sv_Name svc;
          ds = (case map_of (p_Services own) svcName of
              Some si \<Rightarrow> if si_Primary si \<noteq> None then blockMethodDecorators (Some svc) m else me_Decorators m
            | None \<Rightarrow> me_Decorators m)
      in checkRawModeRedundancy svcName m ds @ checkBodyBindingVerb p own svcName m @ checkMultipartParts p own svcName m ds
         @ checkAutoPathField p own m @ checkDuplicateAutoWireNames p own m @ checkNoContentStatusBody m ds
         @ checkRequestBodyType p own m @ checkResponseBodyType m)"

end
