(* ===== verification/Placement.thy ===== *)
theory Placement
  imports Bindings
begin

text \<open>
  What may stand below the top level of a message: the walk over the structs a type reaches, and
  the rules of \<^verbatim>\<open>binding_checks.go\<close> and \<^verbatim>\<open>event_checks.go\<close> of \<^verbatim>\<open>internal/semantic\<close> that use it, on files,
  cookies, nested bindings and event payloads.

  \<open>visitFieldsWhere\<close> walks depth first and marks the instances it has entered. The model keeps the
  pending calls on a stack, in the order the recursion makes them; a walk that does not end is
  \<open>None\<close>, and so is every check that needs it.
\<close>

definition CodeFilePosition :: string where "CodeFilePosition = ''binding/file-position''"
definition CodeBindingNested :: string where "CodeBindingNested = ''binding/nested''"
definition CodeCookiePosition :: string where "CodeCookiePosition = ''binding/cookie-position''"
definition CodeEventPayloadMissing :: string where "CodeEventPayloadMissing = ''event/payload-missing''"
definition CodeEventPayloadKind :: string where "CodeEventPayloadKind = ''event/payload-kind''"
definition CodeEventPayloadBinding :: string where "CodeEventPayloadBinding = ''event/payload-binding''"
definition CodeEventContractCollision :: string where "CodeEventContractCollision = ''event/contract-collision''"
definition CodeEventContractFormat :: string where "CodeEventContractFormat = ''event/contract-format''"

section \<open>The walk\<close>

fun outerNamedRefs :: "type_ref option \<Rightarrow> named_type_ref list" where
  "outerNamedRefs None = []"
| "outerNamedRefs (Some (TypeRef q m n arr opt d)) =
     (case m of
        Some (MapType mp k v) \<Rightarrow> outerNamedRefs k @ outerNamedRefs v
      | None \<Rightarrow> (case n of Some n \<Rightarrow> [n] | None \<Rightarrow> []))"

record visit =
  vi_owner :: string
  vi_field :: Field
  vi_path :: string

text \<open>A pending call: one reference of a type, or one field of a struct already entered.\<close>

datatype visit_task =
    VisitRef named_type_ref string
  | VisitField string Field string

definition ref_tasks :: "type_ref option \<Rightarrow> string \<Rightarrow> visit_task list" where
  "ref_tasks t path = map (\<lambda>n. VisitRef n path) (outerNamedRefs t)"

definition enter_ref :: "Project \<Rightarrow> string \<Rightarrow> string set \<Rightarrow> named_type_ref \<Rightarrow> string \<Rightarrow> (visit_task list \<times> string set)" where
  "enter_ref p view seen n path =
     (case resolve (Some p) view (nt_Name n) of
        (None, _) \<Rightarrow> ([], seen)
      | (Some pkg, symb) \<Rightarrow>
          (case Types pkg symb of
             None \<Rightarrow> ([], seen)
           | Some td \<Rightarrow>
               (case walkedInstance p pkg td n of (args, key) \<Rightarrow>
                  if key \<in> seen then ([], seen)
                  else (map (\<lambda>ff. VisitField (td_Name td) (ff_Field ff) path)
                          (fst (flattenFields (Some p) view (p_Name pkg) (td_Body td) (td_TypeParams td) args None)),
                        insert key seen))))"

partial_function (option) visit_loop ::
    "Project \<Rightarrow> string \<Rightarrow> (Field \<Rightarrow> bool) \<Rightarrow> visit_task list \<Rightarrow> string set \<Rightarrow> visit list \<Rightarrow> (visit list \<times> string set) option" where
  "visit_loop p view hit tasks seen out =
     (case tasks of
        [] \<Rightarrow> Some (rev out, seen)
      | VisitRef n path # rest \<Rightarrow>
          visit_loop p view hit (fst (enter_ref p view seen n path) @ rest) (snd (enter_ref p view seen n path)) out
      | VisitField owner f path # rest \<Rightarrow>
          if hit f then visit_loop p view hit rest seen (\<lparr>vi_owner = owner, vi_field = f, vi_path = path\<rparr> # out)
          else visit_loop p view hit (ref_tasks (fd_Type f) (path @ ''.'' @ fd_Name f) @ rest) seen out)"

declare visit_loop.simps [code]

definition visitFieldsWhere :: "Project \<Rightarrow> string \<Rightarrow> type_ref option \<Rightarrow> string \<Rightarrow> string set \<Rightarrow> (Field \<Rightarrow> bool) \<Rightarrow> (visit list \<times> string set) option" where
  "visitFieldsWhere p view t path seen hit = visit_loop p view hit (ref_tasks t path) seen []"

definition firstFieldWhere :: "Project \<Rightarrow> Package \<Rightarrow> type_ref option \<Rightarrow> string \<Rightarrow> (Field \<Rightarrow> bool) \<Rightarrow> (Field \<times> string) option option" where
  "firstFieldWhere p own t path hit =
     map_option (\<lambda>(vs, _). case vs of [] \<Rightarrow> None | v # _ \<Rightarrow> Some (vi_field v, vi_path v @ ''.'' @ fd_Name (vi_field v)))
       (visitFieldsWhere p (p_Name own) t path {} hit)"

section \<open>Files\<close>

definition fieldHoldsFile :: "Field \<Rightarrow> bool" where
  "fieldHoldsFile f = holdsFile (fd_Type f)"

definition fileAt :: "Project \<Rightarrow> Package \<Rightarrow> type_ref option \<Rightarrow> string \<Rightarrow> string option" where
  "fileAt p own t path =
     map_option (\<lambda>hit. case hit of None \<Rightarrow> [] | Some (_, at') \<Rightarrow> at') (firstFieldWhere p own t path fieldHoldsFile)"

definition named_ref :: "Position \<Rightarrow> named_type_ref option \<Rightarrow> type_ref option" where
  "named_ref pos n = Some (TypeRef pos None n False False 0)"

definition msgFileArrayDepth :: string where
  "msgFileArrayDepth = ''a multi-dimensional `file` array has no multipart encoding - only a single `file` or a 1-D `file[]` is supported''"

definition deep_file :: "type_ref option \<Rightarrow> bool" where
  "deep_file t \<longleftrightarrow> isFileTypeRef t \<and> (case t of Some t \<Rightarrow> tr_ArrayDepth t > 1 | None \<Rightarrow> False)"

definition checkFileArrayDepth :: "string \<Rightarrow> TypeMember list \<Rightarrow> Diagnostic list" where
  "checkFileArrayDepth owner body =
     map (\<lambda>f. error_at (fd_Pos f) CodeFilePosition
       (Msg (''field %s.%s is `%s`: '' @ msgFileArrayDepth) [AStr owner, AStr (fd_Name f), AStr (TypeRef_String (fd_Type f))]))
       (filter (\<lambda>f. deep_file (fd_Type f)) (Fields body))"

definition file_report :: "string \<Rightarrow> Field \<Rightarrow> string \<Rightarrow> Diagnostic" where
  "file_report owner f where' =
     error_at (fd_Pos f) CodeFilePosition
       (Msg ''field %s.%s holds a `file` the multipart binder never reads%s - it binds only a request's top-level `file` and `file[]` fields; move the `file` there (a mixin may carry it)''
         [AStr owner, AStr (fd_Name f), AStr where'])"

fun report_once :: "Diagnostic list \<Rightarrow> Position set \<Rightarrow> Diagnostic list \<times> Position set" where
  "report_once [] reported = ([], reported)"
| "report_once (d # ds) reported =
     (if d_Pos d \<in> reported then report_once ds reported
      else let (ds', reported') = report_once ds (insert (d_Pos d) reported) in (d # ds', reported'))"

text \<open>The state of a request's walk: what is reported so far and the instances entered.\<close>

record file_walk =
  fw_diags :: "Diagnostic list"
  fw_reported :: "Position set"
  fw_seen :: "string set"

definition file_reports :: "Diagnostic list \<Rightarrow> file_walk \<Rightarrow> file_walk" where
  "file_reports ds w =
     (case report_once ds (fw_reported w) of (ds', reported) \<Rightarrow> w\<lparr>fw_diags := fw_diags w @ ds', fw_reported := reported\<rparr>)"

definition request_file_field :: "Project \<Rightarrow> string \<Rightarrow> Method \<Rightarrow> named_type_ref \<Rightarrow> string \<Rightarrow> FlatField \<Rightarrow> file_walk \<Rightarrow> file_walk option" where
  "request_file_field p svcName m r view ff w =
     (let f = ff_Field ff; reqName = request_name r
      in if isFileTypeRef (fd_Type f)
         then Some (if ff_paramTyped ff \<and> deep_file (fd_Type f)
           then w\<lparr>fw_diags := fw_diags w @ [error_at (nt_Pos r) CodeFilePosition
                  (Msg (''request %s of %s.%s types field %s as `%s`: '' @ msgFileArrayDepth)
                    [AStr (NamedTypeRef_String (Some r)), AStr svcName, AStr (me_Name m), AStr (fd_Name f), AStr (TypeRef_String (fd_Type f))])]\<rparr>
           else w)
         else if holdsFile (fd_Type f) then Some (file_reports [file_report reqName f []] w)
         else map_option (\<lambda>(vs, seen).
                (file_reports (map (\<lambda>v. file_report (vi_owner v) (vi_field v) ('' (reached through '' @ vi_path v @ '')'')) vs) w)\<lparr>fw_seen := seen\<rparr>)
              (visitFieldsWhere p view (fd_Type f) (reqName @ ''.'' @ fd_Name f) (fw_seen w) fieldHoldsFile))"

fun walk_all :: "('a \<Rightarrow> 's \<Rightarrow> 's option) \<Rightarrow> 'a list \<Rightarrow> 's \<Rightarrow> 's option" where
  "walk_all f [] s = Some s"
| "walk_all f (x # xs) s = Option.bind (f x s) (walk_all f xs)"

definition service_method_list :: "Package \<Rightarrow> (string \<times> Method) list" where
  "service_method_list own =
     concat (map (\<lambda>name. case map_of (p_Services own) name of None \<Rightarrow> [] | Some si \<Rightarrow> map (Pair name) (si_Methods si)) (ServiceNames own))"

definition request_files :: "Project \<Rightarrow> Package \<Rightarrow> string \<times> Method \<Rightarrow> file_walk \<Rightarrow> file_walk option" where
  "request_files p own sm w =
     (case me_Request (snd sm) of
        None \<Rightarrow> Some w
      | Some r \<Rightarrow>
          (case instanceFields p (p_Name own) (Some r) of
             None \<Rightarrow> Some w
           | Some (view, ffs) \<Rightarrow> walk_all (request_file_field p (fst sm) (snd sm) r view) ffs (w\<lparr>fw_seen := {}\<rparr>)))"

definition checkRequestFiles :: "Project \<Rightarrow> Package \<Rightarrow> Diagnostic list option" where
  "checkRequestFiles p own =
     map_option fw_diags (walk_all (request_files p own) (service_method_list own) \<lparr>fw_diags = [], fw_reported = {}, fw_seen = {}\<rparr>)"

text \<open>The diagnostics of a list of sites, each with the path the walk finds, in order.\<close>

fun collect_opt :: "Diagnostic list option list \<Rightarrow> Diagnostic list option" where
  "collect_opt [] = Some []"
| "collect_opt (x # xs) = Option.bind x (\<lambda>ds. map_option (\<lambda>ds'. ds @ ds') (collect_opt xs))"

definition found_at :: "string option \<Rightarrow> (string \<Rightarrow> Diagnostic) \<Rightarrow> Diagnostic list option" where
  "found_at at' d = map_option (\<lambda>a. if a = [] then [] else [d a]) at'"

definition checkResponseFiles :: "Project \<Rightarrow> Package \<Rightarrow> Diagnostic list option" where
  "checkResponseFiles p own =
     collect_opt (map (\<lambda>(svcName, m). case me_Response m of
         None \<Rightarrow> Some []
       | Some r \<Rightarrow>
           let resp = NamedTypeRef_String (Some (mr_Type r))
           in found_at (fileAt p own (named_ref (mr_Pos r) (Some (mr_Type r))) resp) (\<lambda>a. error_at (mr_Pos r) CodeFilePosition
                (Msg ''response %s of %s.%s holds a `file` at %s, but only a request carries an upload - send the content as `bytes`''
                  [AStr resp, AStr svcName, AStr (me_Name m), AStr a]))) (service_method_list own))"

definition error_member_files :: "Project \<Rightarrow> Package \<Rightarrow> ErrorDecl \<Rightarrow> TypeMember \<Rightarrow> Diagnostic list option" where
  "error_member_files p own ed member =
     (let msg = (\<lambda>pos a. error_at pos CodeFilePosition
            (Msg ''error %s holds a `file` at %s, but only a request carries an upload - send the content as `bytes`'' [AStr (er_Name ed), AStr a]))
      in case member of
           TM_Field v \<Rightarrow>
             let at' = er_Name ed @ ''.'' @ fd_Name v
             in found_at (if holdsFile (fd_Type v) then Some at' else fileAt p own (fd_Type v) at') (msg (fd_Pos v))
         | TM_Mixin v \<Rightarrow> found_at (fileAt p own (named_ref (mx_Pos v) (mx_Ref v)) (er_Name ed)) (msg (mx_Pos v))
         | TM_FreeComment _ \<Rightarrow> Some [])"

definition checkErrorBodyFiles :: "Project \<Rightarrow> Package \<Rightarrow> Diagnostic list option" where
  "checkErrorBodyFiles p own =
     collect_opt (concat (map (\<lambda>name. case map_of (p_Errors own) name of
         None \<Rightarrow> []
       | Some ed \<Rightarrow> map (error_member_files p own ed) (er_Body ed)) (sorted_keys (p_Errors own))))"

definition event_list :: "Package \<Rightarrow> EventDecl list" where
  "event_list own = List.map_filter (map_of (p_Events own)) (sorted_keys (p_Events own))"

definition checkPayloadFiles :: "Project \<Rightarrow> Package \<Rightarrow> Diagnostic list option" where
  "checkPayloadFiles p own =
     collect_opt (map (\<lambda>d. case en_Payload d of
         None \<Rightarrow> Some []
       | Some pl \<Rightarrow>
           let payload = NamedTypeRef_String (Some (ep_Type pl))
           in found_at (fileAt p own (named_ref (ep_Pos pl) (Some (ep_Type pl))) payload) (\<lambda>a. error_at (ep_Pos pl) CodeFilePosition
                (Msg ''payload %s of event %s holds a `file` at %s, but only a request carries an upload - send the content as `bytes`''
                  [AStr payload, AStr (en_Name d), AStr a]))) (event_list own))"

definition checkFilePosition :: "Project \<Rightarrow> Package \<Rightarrow> Diagnostic list option" where
  "checkFilePosition p own =
     collect_opt [Some (concat (map (\<lambda>(_, td). checkFileArrayDepth (td_Name td) (td_Body td)) (p_Types own))),
       checkRequestFiles p own, checkResponseFiles p own, checkErrorBodyFiles p own, checkPayloadFiles p own]"

section \<open>Cookies\<close>

definition holdsCookie :: "type_ref option \<Rightarrow> bool" where
  "holdsCookie t \<longleftrightarrow> list_ex (\<lambda>n. case nt_Name n of None \<Rightarrow> False | Some q \<Rightarrow> QualifiedIdent_String q = ''cookie'') (TypeRef_WalkNamedRefs t)"

definition fieldHoldsCookie :: "Field \<Rightarrow> bool" where
  "fieldHoldsCookie f = holdsCookie (fd_Type f)"

definition cookieSameSites :: "string list" where
  "cookieSameSites =
     (case DecoratorSpec BindingCookie of
        None \<Rightarrow> []
      | Some sp \<Rightarrow> (case map_of (ar_NamedValues (sp_Args sp)) CookieSameSite of Some vs \<Rightarrow> vs | None \<Rightarrow> []))"

definition cookiePathOK :: "string \<Rightarrow> bool" where
  "cookiePathOK s \<longleftrightarrow> HasPrefix s ''/'' \<and> list_all (\<lambda>c. c \<noteq> CHR '';'' \<and> (of_char c :: nat) \<ge> 0x20 \<and> (of_char c :: nat) \<noteq> 0x7F) s"

definition isHostRune :: "char \<Rightarrow> bool" where
  "isHostRune c \<longleftrightarrow>
     (let r = of_char c :: nat in r \<in> {97..122} \<or> r \<in> {65..90} \<or> r \<in> {48..57} \<or> r = 45)"

definition cookieDomainOK :: "string \<Rightarrow> bool" where
  "cookieDomainOK d \<longleftrightarrow>
     list_all (\<lambda>l. l \<noteq> [] \<and> length l \<le> 63 \<and> hd l \<noteq> CHR ''-'' \<and> last l \<noteq> CHR ''-'' \<and> list_all isHostRune l)
       (SplitByte (TrimPrefix d ''.'') (CHR ''.''))"

definition cookie_fault :: "CookieAttrs \<Rightarrow> DecoratorArg \<Rightarrow> message option" where
  "cookie_fault attrs ag =
     (if \<not> da_Named ag then None
      else if da_Name ag = CookiePath
      then (case da_Value ag of
          Some (StringLit _ _ _) \<Rightarrow>
            if cookiePathOK (ck_Path attrs) then None
            else Some (Msg ''path %q must start with \"/\" and hold no \";\" or control character'' [AStr (ck_Path attrs)])
        | _ \<Rightarrow> None)
      else if da_Name ag = CookieDomain
      then (case da_Value ag of
          Some (StringLit _ _ _) \<Rightarrow>
            if cookieDomainOK (ck_Domain attrs) then None else Some (Msg ''domain %q is no host name'' [AStr (ck_Domain attrs)])
        | _ \<Rightarrow> None)
      else if da_Name ag = CookieMaxAge
      then (case DurationArg (Some ag) of
          Some age \<Rightarrow>
            if age \<le> 0 \<or> age mod 1000000000 \<noteq> 0
            then Some (Msg ''maxAge %s is no whole number of seconds above zero - a cookie the logic deletes is a `cookie` field set with MaxAge -1'' [AInt age])
            else None
        | None \<Rightarrow> None)
      else if da_Name ag = CookieSameSite
      then (case da_Value ag of
          Some (IdentExpr _ _) \<Rightarrow>
            if ck_SameSite attrs \<in> set cookieSameSites then None
            else Some (Msg ''sameSite %s is not lax, strict or none'' [AStr (ck_SameSite attrs)])
        | _ \<Rightarrow> None)
      else None)"

definition checkCookieAttrs :: "string \<Rightarrow> Field \<Rightarrow> Diagnostic list" where
  "checkCookieAttrs parent f =
     (case FindDecorator (decs (fd_Decorators f)) BindingCookie of
        None \<Rightarrow> []
      | Some d \<Rightarrow>
          let attrs = CookieAttrsOf f; who = [AStr parent, AStr (fd_Name f)]
          in List.map_filter (\<lambda>ag. map_option (\<lambda>why. case why of Msg fmt args \<Rightarrow>
                 error_at (da_Pos ag) CodeDecoratorArgValue (Msg (''field %s.%s: @cookie '' @ fmt) (who @ args))) (cookie_fault attrs ag)) (dec_Args d)
             @ (if ck_SameSite attrs = SameSiteNone \<and> \<not> ck_Secure attrs
                then [at_decorator d CodeDecoratorConflict
                       (Msg ''field %s.%s: @cookie sameSite none needs secure, or browsers refuse the cookie - drop `secure: false`'' who) []]
                else []))"

definition cookie_body :: "string \<Rightarrow> TypeMember list \<Rightarrow> Diagnostic list" where
  "cookie_body owner body =
     concat (map (\<lambda>f.
       if isCookieTypeRef (fd_Type f)
       then (if fst (BindingKind (decs (fd_Decorators f))) \<noteq> BindCookie
             then [error_at (fd_Pos f) CodeCookiePosition
                    (Msg ''field %s.%s is a `cookie`, which only sets a response cookie - add @cookie(\"<name>\"), or type the field `string`''
                      [AStr owner, AStr (fd_Name f)])]
             else [])
       else if holdsCookie (fd_Type f)
       then [error_at (fd_Pos f) CodeCookiePosition
              (Msg ''field %s.%s holds `cookie` in `%s`, but a cookie is set one per @cookie field - type the field `cookie`''
                [AStr owner, AStr (fd_Name f), AStr (TypeRef_String (fd_Type f))])]
       else []) (Fields body))"

definition checkCookiePosition :: "Project \<Rightarrow> Package \<Rightarrow> Diagnostic list option" where
  "checkCookiePosition p own =
     collect_opt
       ([Some (concat (map (\<lambda>name. case map_of (p_Types own) name of None \<Rightarrow> [] | Some td \<Rightarrow> cookie_body name (td_Body td)) (sorted_keys (p_Types own)))),
         Some (concat (map (\<lambda>name. case map_of (p_Errors own) name of None \<Rightarrow> [] | Some ed \<Rightarrow> cookie_body name (er_Body ed)) (sorted_keys (p_Errors own))))]
        @ map (\<lambda>(svcName, m). case me_Request m of
            None \<Rightarrow> Some []
          | Some r \<Rightarrow>
              let req = NamedTypeRef_String (Some r)
              in found_at (map_option (\<lambda>hit. case hit of None \<Rightarrow> [] | Some (_, a) \<Rightarrow> a)
                     (firstFieldWhere p own (named_ref (nt_Pos r) (Some r)) req fieldHoldsCookie))
                   (\<lambda>a. error_at (nt_Pos r) CodeCookiePosition
                     (Msg ''request %s of %s.%s holds a `cookie` at %s, but a request reads a cookie's value alone - type the field `string`''
                       [AStr req, AStr svcName, AStr (me_Name m), AStr a]))) (service_method_list own))"

section \<open>Nested bindings\<close>

definition paramBound :: "Field \<Rightarrow> bool" where
  "paramBound f = IsParam (fst (BindingKind (decs (fd_Decorators f))))"

definition responseRef :: "Method \<Rightarrow> named_type_ref option" where
  "responseRef m = map_option mr_Type (me_Response m)"

text \<open>
  The check remembers the fields it has reported by pointer. A field whose type the walk spells
  anew is a copy, so only a field of the design itself is reported once. A map type under a
  substitution is copied even where its spelling stays; the model takes it for the field.
\<close>

definition design_fields :: "Project \<Rightarrow> Field set" where
  "design_fields p =
     (\<Union>(_, pkg) \<in> set (pr_Packages p). (\<Union>(_, td) \<in> set (p_Types pkg). set (Fields (td_Body td)))
        \<union> (\<Union>(_, ed) \<in> set (p_Errors pkg). set (Fields (er_Body ed))))"

fun nested_reports :: "Project \<Rightarrow> visit list \<Rightarrow> Field set \<Rightarrow> Diagnostic list \<times> Field set" where
  "nested_reports p [] reported = ([], reported)"
| "nested_reports p (v # vs) reported =
     (let f = vi_field v; kind = AStr (Binding_String (fst (BindingKind (decs (fd_Decorators f)))))
      in if f \<in> reported then nested_reports p vs reported
         else let (ds, reported') = nested_reports p vs (if f \<in> design_fields p then insert f reported else reported)
              in (error_at (fd_Pos f) CodeBindingNested
                    (Msg ''field %s.%s binds @%s, but %s holds it as a nested value, which nothing binds - only the fields of a request, a response or an error body, a mixin's included, bind; move the field there or drop @%s''
                      [AStr (vi_owner v), AStr (fd_Name f), kind, AStr (vi_path v), kind]) # ds, reported'))"

record nested_walk =
  nw_diags :: "Diagnostic list"
  nw_reported :: "Field set"
  nw_seen :: "string set"

definition nested_field :: "Project \<Rightarrow> string \<Rightarrow> string \<Rightarrow> FlatField \<Rightarrow> nested_walk \<Rightarrow> nested_walk option" where
  "nested_field p view label ff w =
     map_option (\<lambda>(vs, seen). case nested_reports p vs (nw_reported w) of (ds, reported) \<Rightarrow>
         \<lparr>nw_diags = nw_diags w @ ds, nw_reported = reported, nw_seen = seen\<rparr>)
       (visitFieldsWhere p view (fd_Type (ff_Field ff)) (label @ ''.'' @ fd_Name (ff_Field ff)) (nw_seen w) paramBound)"

record nested_root =
  nr_view :: string
  nr_fields :: "FlatField list"
  nr_label :: string

definition package_roots :: "Project \<Rightarrow> string \<Rightarrow> Package \<Rightarrow> nested_root list" where
  "package_roots p pkgName pkg =
     concat (map (\<lambda>(_, m). concat (map (\<lambda>ref. case instanceFields p pkgName ref of
         None \<Rightarrow> []
       | Some (view, ffs) \<Rightarrow> [\<lparr>nr_view = view, nr_fields = ffs, nr_label = NamedTypeRef_String ref\<rparr>]) [me_Request m, responseRef m])) (service_method_list pkg))
     @ concat (map (\<lambda>name. case map_of (p_Errors pkg) name of
         None \<Rightarrow> []
       | Some ed \<Rightarrow> [\<lparr>nr_view = pkgName, nr_fields = fst (flattenFields (Some p) pkgName pkgName (er_Body ed) [] [] None), nr_label = name\<rparr>])
       (sorted_keys (p_Errors pkg)))"

definition checkNestedBindings :: "Project \<Rightarrow> Diagnostic list option" where
  "checkNestedBindings p =
     map_option nw_diags
       (walk_all (\<lambda>r w. walk_all (nested_field p (nr_view r) (nr_label r)) (nr_fields r) (w\<lparr>nw_seen := {}\<rparr>))
         (concat (map (\<lambda>pkgName. case Packages p pkgName of None \<Rightarrow> [] | Some pkg \<Rightarrow> package_roots p pkgName pkg) (PackageNames p)))
         \<lparr>nw_diags = [], nw_reported = {}, nw_seen = {}\<rparr>)"

section \<open>Events\<close>

definition checkContractArg :: "EventDecl \<Rightarrow> Diagnostic list" where
  "checkContractArg d =
     concat (map (\<lambda>dec.
       if dec_Name dec \<noteq> decoratorContract then []
       else case StringArg [Some dec] decoratorContract of
         None \<Rightarrow> []
       | Some name \<Rightarrow>
           if name = [] \<or> list_ex (\<lambda>c. c \<in> {CHR '' '', CHR 0x09, CHR 0x0A}) name
           then [at_decorator dec CodeEventContractFormat
                  (Msg ''@contract on event %q must be a non-empty name without whitespace'' [AStr (en_Name d)]) []]
           else []) (en_Decorators d))"

definition payloadKindDiag :: "EventDecl \<Rightarrow> EventPayload \<Rightarrow> string \<Rightarrow> Diagnostic" where
  "payloadKindDiag d pl ref =
     error_at (ep_Pos pl) CodeEventPayloadKind
       (Msg ''event %q payload %q is not a struct type - a payload must name a `type` declaration so the contract has named fields''
         [AStr (en_Name d), AStr ref])"

definition checkPayloadKind :: "Project \<Rightarrow> Package \<Rightarrow> EventDecl \<Rightarrow> EventPayload \<Rightarrow> QualifiedIdent \<Rightarrow> Diagnostic list" where
  "checkPayloadKind p own d pl q =
     (let ref = QualifiedIdent_String q
      in if Is ref then [payloadKindDiag d pl ref]
         else case resolve (Some p) (p_Name own) (Some q) of
           (None, _) \<Rightarrow> []
         | (Some home, name) \<Rightarrow> if Package_Decl home name {EnumDecls, ScalarDecls} \<noteq> None then [payloadKindDiag d pl ref] else [])"

definition checkPayloadBindings :: "Project \<Rightarrow> Package \<Rightarrow> EventDecl \<Rightarrow> EventPayload \<Rightarrow> Diagnostic list option" where
  "checkPayloadBindings p own d pl =
     (let payload = NamedTypeRef_String (Some (ep_Type pl))
      in map_option (\<lambda>hit. case hit of
           None \<Rightarrow> []
         | Some (f, at') \<Rightarrow> [error_at (ep_Pos pl) CodeEventPayloadBinding
             (Msg ''payload %s of event %s binds %s with @%s, but a payload is one JSON message with no path, query, header, cookie or form part - drop the binding, or give the event a type without it''
               [AStr payload, AStr (en_Name d), AStr at', AStr (Binding_String (fst (BindingKind (decs (fd_Decorators f)))))])])
           (firstFieldWhere p own (named_ref (ep_Pos pl) (Some (ep_Type pl))) payload paramBound))"

definition checkEvent :: "Project \<Rightarrow> Package \<Rightarrow> EventDecl \<Rightarrow> Diagnostic list option" where
  "checkEvent p own d =
     (case en_Payload d of
        None \<Rightarrow> Some [error_at (en_Pos d) CodeEventPayloadMissing
          (Msg ''event %q has no payload - add `payload <Type>` naming the type the contract carries'' [AStr (en_Name d)])]
      | Some pl \<Rightarrow>
          (case nt_Name (ep_Type pl) of
             None \<Rightarrow> Some [error_at (en_Pos d) CodeEventPayloadMissing
               (Msg ''event %q has no payload - add `payload <Type>` naming the type the contract carries'' [AStr (en_Name d)])]
           | Some q \<Rightarrow> collect_opt [Some (checkContractArg d), Some (checkPayloadKind p own d pl q), checkPayloadBindings p own d pl]))"

definition checkEvents :: "Project \<Rightarrow> Package \<Rightarrow> Diagnostic list option" where
  "checkEvents p own = collect_opt (map (checkEvent p own) (event_list own))"

fun contract_clashes :: "Position table \<Rightarrow> ResolvedEvent list \<Rightarrow> Diagnostic list" where
  "contract_clashes byContract [] = []"
| "contract_clashes byContract (ev # evs) =
     (if re_Contract ev = [] then contract_clashes byContract evs
      else case map_of byContract (re_Contract ev) of
        Some prev \<Rightarrow>
          sem_diag (en_Pos (re_Decl ev)) (en_Pos (re_Decl ev)) SeverityError CodeEventContractCollision
            (Msg ''contract %q is declared twice - a listener cannot tell the two apart; rename one or set @contract'' [AStr (re_Contract ev)])
            (related prev ''first declared here'')
          # contract_clashes byContract evs
      | None \<Rightarrow> contract_clashes (AList.update (re_Contract ev) (en_Pos (re_Decl ev)) byContract) evs)"

definition checkProjectEvents :: "Project \<Rightarrow> Diagnostic list" where
  "checkProjectEvents p = contract_clashes [] (events p)"

end
