(* ===== verification/Arguments.thy ===== *)
theory Arguments
  imports Placement
begin

text \<open>
  The arguments of decorators: \<^verbatim>\<open>decorator_arg_checks.go\<close> of \<^verbatim>\<open>internal/semantic\<close>. The shape of the
  arguments is checked against the registry, and the values only where the shape holds, since the
  value rules index the arguments. The model keeps that: a rule that would index past the
  arguments, or past the end of a pattern, is \<open>None\<close>.

  \<open>compile\<close> is \<open>regexp.Compile\<close>, the text of its error for a pattern it refuses.
\<close>

definition CodeFlagEmptyParens :: string where "CodeFlagEmptyParens = ''decorator/flag-empty-parens''"
definition CodeDecoratorArity :: string where "CodeDecoratorArity = ''decorator/arity''"
definition CodeDecoratorArgType :: string where "CodeDecoratorArgType = ''decorator/argtype''"
definition CodePatternNotECMA :: string where "CodePatternNotECMA = ''pattern/not-ecma''"
definition CodeArgPreferIdent :: string where "CodeArgPreferIdent = ''decorator/arg-prefer-ident''"

abbreviation warn_at :: "Position \<Rightarrow> Position \<Rightarrow> string \<Rightarrow> message \<Rightarrow> Diagnostic" where
  "warn_at pos end' code msg \<equiv> sem_diag pos end' SeverityWarning code msg []"

section \<open>Shape\<close>

definition joinQuoted :: "string list \<Rightarrow> string" where
  "joinQuoted xs = Join (map quoted xs) '', ''"

definition namedArgKind :: "DecoratorArg \<Rightarrow> string" where
  "namedArgKind ag = (if da_Value ag = None then ''object'' else exprKind (da_Value ag))"

text \<open>A check that reports and says whether the arguments hold.\<close>

type_synonym verdict = "Diagnostic list \<times> bool"

definition named_arg :: "Decorator \<Rightarrow> (string \<times> ArgKind) list \<Rightarrow> string set \<Rightarrow> DecoratorArg \<Rightarrow> verdict" where
  "named_arg d named seen ag =
     (let bad = (\<lambda>msg. ([error_at (da_Pos ag) CodeDecoratorArgType msg], False))
      in if named = []
         then bad (Msg ''@%s: named argument %q is not supported (use positional args)'' [AStr (dec_Name d), AStr (da_Name ag)])
         else case map_of named (da_Name ag) of
           None \<Rightarrow> bad (Msg ''@%s takes no argument %q (it takes %s)''
             [AStr (dec_Name d), AStr (da_Name ag), AStr (Join (sorted_keys named) '', '')])
         | Some want \<Rightarrow>
             if da_Name ag \<in> seen then bad (Msg ''@%s: argument %q is given twice'' [AStr (dec_Name d), AStr (da_Name ag)])
             else if da_Value ag = None \<or> \<not> exprMatchesKind (da_Value ag) want
             then bad (Msg ''@%s %s: expected %s, got %s''
               [AStr (dec_Name d), AStr (da_Name ag), AStr (ArgKind_String want), AStr (namedArgKind ag)])
             else ([], True))"

fun named_args :: "Decorator \<Rightarrow> (string \<times> ArgKind) list \<Rightarrow> string set \<Rightarrow> DecoratorArg list \<Rightarrow> verdict" where
  "named_args d named seen [] = ([], True)"
| "named_args d named seen (ag # ags) =
     (if \<not> da_Named ag then named_args d named seen ags
      else let (ds, ok) = named_arg d named seen ag; (ds', ok') = named_args d named (insert (da_Name ag) seen) ags
           in (ds @ ds', ok \<and> ok'))"

definition checkNamedArgs :: "Decorator \<Rightarrow> (string \<times> ArgKind) list \<Rightarrow> verdict" where
  "checkNamedArgs d named = named_args d named {} (dec_Args d)"

definition kind_verdict :: "Expr option \<Rightarrow> ArgKind \<Rightarrow> Position \<Rightarrow> message \<Rightarrow> verdict" where
  "kind_verdict e want pos msg =
     (if exprMatchesKind e want then ([], True) else ([error_at pos CodeDecoratorArgType msg], False))"

definition all_verdicts :: "verdict list \<Rightarrow> verdict" where
  "all_verdicts vs = (concat (map fst vs), list_all snd vs)"

definition checkArrayShortcut :: "Decorator \<Rightarrow> ArgsRule \<Rightarrow> Position \<Rightarrow> Expr list \<Rightarrow> verdict" where
  "checkArrayShortcut d rule pos elems =
     (let n = length elems
      in if n < ar_Min rule
         then ([error_at pos CodeDecoratorArity
                 (Msg ''@%s expects at least %d element(s) in array, got %d'' [AStr (dec_Name d), AInt (int (ar_Min rule)), AInt (int n)])], False)
         else if ar_Max rule \<ge> 0 \<and> int n > ar_Max rule
         then ([error_at (ExprPos (elems ! nat (ar_Max rule))) CodeDecoratorArity
                 (Msg ''@%s accepts at most %d element(s) in array, got %d'' [AStr (dec_Name d), AInt (ar_Max rule), AInt (int n)])], False)
         else all_verdicts (map (\<lambda>(i, el). kind_verdict (Some el) (ar_Variadic rule) (ExprPos el)
                (Msg ''@%s array[%d]: expected %s, got %s''
                  [AStr (dec_Name d), AInt (int i), AStr (ArgKind_String (ar_Variadic rule)), AStr (exprKind (Some el))])) (enumerate 0 elems)))"

definition checkEnumOnFirst :: "Decorator \<Rightarrow> ArgsRule \<Rightarrow> DecoratorArg list \<Rightarrow> verdict" where
  "checkEnumOnFirst d rule pos =
     (case pos of
        [] \<Rightarrow> ([], True)
      | a # _ \<Rightarrow>
          if ar_Enum rule = [] then ([], True)
          else case Option.bind (da_Value a) TextValue of
            None \<Rightarrow> ([], True)
          | Some val \<Rightarrow>
              if val \<notin> set (ar_Enum rule)
              then ([error_at (da_Pos a) CodeDecoratorArgValue
                      (Msg ''@%s arg 1: %q is not a valid value (expected one of: %s)'' [AStr (dec_Name d), AStr val, AStr (joinQuoted (ar_Enum rule))])], False)
              else ((case da_Value a of
                  Some (StringLit _ _ _) \<Rightarrow> [warn_at (da_Pos a) (da_Pos a) CodeArgPreferIdent
                    (Msg ''@%s arg 1: prefer bare identifier `%s` over string \"%s\" (`craftgo fmt` rewrites this on save)''
                      [AStr (dec_Name d), AStr val, AStr val])]
                | _ \<Rightarrow> []), True))"

definition arg_kind :: "ArgsRule \<Rightarrow> nat \<Rightarrow> ArgKind" where
  "arg_kind rule i = (if i < length (ar_Kinds rule) then ar_Kinds rule ! i else ar_Variadic rule)"

definition listed_args :: "Decorator \<Rightarrow> ArgsRule \<Rightarrow> DecoratorArg list \<Rightarrow> verdict" where
  "listed_args d rule pos =
     (let n = length pos
      in if n < ar_Min rule
         then ([at_decorator d CodeDecoratorArity
                 (Msg ''@%s expects at least %d argument(s), got %d'' [AStr (dec_Name d), AInt (int (ar_Min rule)), AInt (int n)]) []], False)
         else if ar_Max rule \<ge> 0 \<and> int n > ar_Max rule
         then ([error_at (da_Pos (pos ! nat (ar_Max rule))) CodeDecoratorArity
                 (Msg ''@%s accepts at most %d argument(s), got %d'' [AStr (dec_Name d), AInt (ar_Max rule), AInt (int n)])], False)
         else all_verdicts
           (map (\<lambda>(i, ag). kind_verdict (da_Value ag) (arg_kind rule i) (da_Pos ag)
                (Msg ''@%s arg %d: expected %s, got %s''
                  [AStr (dec_Name d), AInt (int i + 1), AStr (ArgKind_String (arg_kind rule i)), AStr (exprKind (da_Value ag))])) (enumerate 0 pos)
            @ [checkEnumOnFirst d rule pos]))"

definition checkPositionalArgs :: "Decorator \<Rightarrow> ArgsRule \<Rightarrow> verdict" where
  "checkPositionalArgs d rule =
     (let named = checkNamedArgs d (ar_Named rule); pos = positionalArgs d
      in all_verdicts
           (case pos of
              [a] \<Rightarrow>
                if ar_AllowArrayShortcut rule
                then (case da_Value a of
                    Some (ArrayLit q elems) \<Rightarrow> [named, checkArrayShortcut d rule q elems, checkEnumOnFirst d rule pos]
                  | _ \<Rightarrow> [named, listed_args d rule pos])
                else [named, listed_args d rule pos]
            | _ \<Rightarrow> [named, listed_args d rule pos]))"

definition checkExampleArg :: "Decorator \<Rightarrow> verdict" where
  "checkExampleArg d =
     (if dec_Name d = ''example'' \<and> list_ex (\<lambda>ag. da_Value ag = None) (positionalArgs d)
      then ([at_decorator d CodeDecoratorArgType
              (Msg ''@example takes a literal (string/int/float/bool) or an array of those, not an object - a struct example is composed from each field's own @example; for a free-form any/map field, describe the shape with @doc'' []) []], False)
      else ([], True))"

definition checkDecoratorShape :: "Decorator \<Rightarrow> Decorators.Spec \<Rightarrow> verdict" where
  "checkDecoratorShape d sp =
     all_verdicts
       [((if ar_Max (sp_Args sp) = 0 \<and> dec_HasParens d
          then [warn_at (dec_Pos d) (decoratorEnd d) CodeFlagEmptyParens
                 (Msg ''@%s never accepts arguments - drop the parens (canonical: `@%s`). `craftgo fmt` fixes this on save.''
                   [AStr (dec_Name d), AStr (dec_Name d)])]
          else []), True),
        checkExampleArg d, checkPositionalArgs d (sp_Args sp)]"

section \<open>Patterns\<close>

definition bslash :: char where "bslash = CHR 0x5C"

definition ticked :: "string \<Rightarrow> string" where
  "ticked s = ''`'' @ s @ ''`''"

record ecmaGap =
  eg_construct :: string
  eg_reading :: string
  eg_fix :: string

definition gap :: "string \<Rightarrow> string \<Rightarrow> string \<Rightarrow> ecmaGap" where
  "gap written reading fix' = \<lparr>eg_construct = written, eg_reading = reading, eg_fix = fix'\<rparr>"

definition escapeGap :: "string \<Rightarrow> ecmaGap option \<times> nat" where
  "escapeGap s =
     (if length s < 2 then (None, length s)
      else let c = s ! 1; lacks = ''does not support''
           in if c = CHR ''A'' then (Some (gap (ticked (bslash # ''A'')) lacks ''use `^`, which RE2 reads the same outside `(?m)`''), 2)
              else if c = CHR ''z'' then (Some (gap (ticked (bslash # ''z'')) lacks ''use `$`, which RE2 reads the same outside `(?m)`''), 2)
              else if c = CHR ''Q''
              then (Some (gap (ticked (bslash # ''Q...'' @ bslash # ''E'')) lacks ''escape each special character instead''), 2)
              else if c = CHR ''p'' \<or> c = CHR ''P''
              then (if length s > 2 \<and> s ! 2 \<noteq> CHR ''{''
                    then (Some (gap (ticked (take 3 s)) lacks (''write `'' @ take 2 s @ ''{'' @ [s ! 2] @ ''}`'')), 3)
                    else case IndexByte s (CHR ''}'') of
                      Some e \<Rightarrow> if e > 0 then (None, e + 1) else (None, 2)
                    | None \<Rightarrow> (None, 2))
              else if c = CHR ''x'' \<and> length s > 2 \<and> s ! 2 = CHR ''{''
              then (Some (gap (ticked (bslash # ''x{...}'')) lacks
                     (''write the character itself, or `'' @ bslash # ''xHH` below `'' @ bslash # ''x{100}`'')), 3)
              else (None, 2))"

lemma escapeGap_pos: "s \<noteq> [] \<Longrightarrow> snd (escapeGap s) > 0"
  by (auto simp: escapeGap_def Let_def split: option.split)

fun index_of :: "string \<Rightarrow> string \<Rightarrow> nat option" where
  "index_of sub [] = (if sub = [] then Some 0 else None)"
| "index_of sub (c # s) = (if HasPrefix (c # s) sub then Some 0 else map_option Suc (index_of sub s))"

text \<open>The loop of \<open>classGap\<close> from index \<open>i\<close> of the class, \<open>s\<close> being the rest of the pattern.\<close>

function class_loop :: "nat \<Rightarrow> string \<Rightarrow> ecmaGap option \<times> nat" where
  "class_loop i s =
     (case s of
        [] \<Rightarrow> (None, i)
      | c # rest \<Rightarrow>
          if c = bslash
          then (case escapeGap s of (g, n) \<Rightarrow> if g \<noteq> None then (g, i + n) else class_loop (i + n) (drop n s))
          else if HasPrefix s ''[:''
          then (case index_of '':]'' s of
              Some e \<Rightarrow>
                if e > 1
                then (Some (gap (ticked (take (e + 2) s)) ''reads as a set of characters''
                        ''list the characters it stands for, as `[a-zA-Z]` does for `[:alpha:]`''), i + e + 2)
                else class_loop (i + 1) rest
            | None \<Rightarrow> class_loop (i + 1) rest)
          else if c = CHR '']'' then (None, i + 1)
          else class_loop (i + 1) rest)"
  by pat_completeness auto
termination
proof (relation "measure (\<lambda>(i, s). length s)", goal_cases)
  case (2 i s c rest g n)
  then have "n > 0" using escapeGap_pos [of s] by (metis list.discI snd_conv)
  with 2 show ?case by simp
qed auto

declare class_loop.simps [simp del]

definition classGap :: "string \<Rightarrow> ecmaGap option \<times> nat" where
  "classGap s =
     (let i = (if length s > 1 \<and> s ! 1 = CHR ''^'' then 2 else 1)
      in if i < length s \<and> s ! i = CHR '']''
         then (Some (gap ''a `]` first in a class'' ''reads as the end of an empty class'' (''escape it as `'' @ bslash # '']`'')), i + 1)
         else class_loop i (drop i s))"

text \<open>\<open>None\<close> where the group is not closed, at which \<open>s[end]\<close> has no byte.\<close>

definition groupGap :: "string \<Rightarrow> ecmaGap option option" where
  "groupGap s =
     (if HasPrefix s ''(?P<''
      then Some (Some (gap ''`(?P<name>`'' ''does not support'' ''write `(?<name>`, which RE2 reads the same''))
      else if length s > 2 \<and> s ! 1 = CHR ''?'' \<and> s ! 2 \<in> set ''imsU-''
      then (let n = length (takeWhile (\<lambda>c. c \<noteq> CHR '':'' \<and> c \<noteq> CHR '')'') s)
            in if n = length s then None
               else Some (Some (gap (ticked (take (n + 1) s))
                 (if s ! n = CHR '':'' \<and> CHR ''U'' \<notin> set (take n s)
                  then ''supports only in editions newer than the one JSON Schema cites'' else ''has no inline flags for'')
                 ''write what the flags do into the pattern, as `[Aa]` does for `(?i)a`'')))
      else Some None)"

definition isDigits :: "string \<Rightarrow> bool" where
  "isDigits s \<longleftrightarrow> s \<noteq> [] \<and> list_all is_digit_char s"

definition braceGap :: "string \<Rightarrow> ecmaGap option \<times> nat" where
  "braceGap s =
     (let bare = (Some (gap (''a bare '' @ ticked (take 1 s)) ''rejects'' (''escape it as '' @ ticked (bslash # take 1 s))), 1)
      in case IndexByte s (CHR ''}'') of
           Some e \<Rightarrow>
             if hd s = CHR ''{'' \<and> e > 1
             then let body = take (e - 1) (drop 1 s);
                      lo = takeWhile (\<lambda>c. c \<noteq> CHR '','') body;
                      comma = CHR '','' \<in> set body;
                      hi = drop (length lo + 1) body
                  in if isDigits lo \<and> (\<not> comma \<or> hi = [] \<or> isDigits hi) then (None, e + 1)
                     else if lo = [] \<and> comma \<and> isDigits hi
                     then (Some (gap (ticked (take (e + 1) s)) ''rejects, and RE2 reads as plain text''
                            (''write `{0,'' @ hi @ ''}` for a repetition'')), e + 1)
                     else bare
             else bare
         | None \<Rightarrow> bare)"

definition construct_gap :: "string \<Rightarrow> (ecmaGap option \<times> nat) option" where
  "construct_gap s =
     (if hd s = bslash then Some (escapeGap s)
      else if hd s = CHR ''['' then Some (classGap s)
      else if hd s = CHR ''('' then map_option (\<lambda>g. (g, 1)) (groupGap s)
      else if hd s = CHR ''{'' \<or> hd s = CHR ''}'' then Some (braceGap s)
      else Some (None, 1))"

lemma class_loop_ge: "i \<le> snd (class_loop i s)"
proof (induction i s rule: class_loop.induct)
  case (1 i s)
  then show ?case
    by (subst class_loop.simps) (force split: list.split prod.split option.split)
qed

lemma construct_gap_pos:
  assumes "construct_gap s = Some (g, n)" and "s \<noteq> []"
  shows "n > 0"
proof -
  have "snd (classGap s) > 0"
    using class_loop_ge [of 1 "drop 1 s"] class_loop_ge [of 2 "drop 2 s"] by (auto simp: classGap_def Let_def)
  moreover have "snd (braceGap s) > 0" by (auto simp: braceGap_def Let_def split: option.split)
  ultimately show ?thesis using assms escapeGap_pos [of s] by (auto simp: construct_gap_def split: if_splits)
qed

function ecmaPatternGap :: "string \<Rightarrow> ecmaGap option option" where
  "ecmaPatternGap s =
     (if s = [] then Some None
      else case construct_gap s of
        None \<Rightarrow> None
      | Some (g, n) \<Rightarrow> if g \<noteq> None then Some g else ecmaPatternGap (drop n s))"
  by pat_completeness auto
termination
  by (relation "measure length") (auto dest: construct_gap_pos)

declare ecmaPatternGap.simps [simp del]

definition checkPatternArg :: "(string \<Rightarrow> string option) \<Rightarrow> Decorator \<Rightarrow> Diagnostic list option" where
  "checkPatternArg compile d =
     (case dec_Args d of
        [] \<Rightarrow> None
      | a # _ \<Rightarrow>
          (case da_Value a of
             Some (StringLit _ s _) \<Rightarrow>
               if s = []
               then Some [at_decorator d CodeDecoratorArgType
                 (Msg ''@pattern requires a non-empty regular expression - an empty pattern matches everything and is not a meaningful constraint'' []) []]
               else (case compile s of
                   Some err \<Rightarrow> Some [at_decorator d CodeDecoratorArgType
                     (Msg ''@pattern is not a valid regular expression: %v - the generated validator compiles it with regexp.MustCompile, which would panic at startup'' [AStr err]) []]
                 | None \<Rightarrow> map_option (\<lambda>g. case g of
                     None \<Rightarrow> []
                   | Some g \<Rightarrow> [warn_at (dec_Pos d) (decoratorEnd d) CodePatternNotECMA
                       (Msg ''@pattern uses %s, which ECMA-262 %s: OpenAPI tools, which read the published pattern as ECMA-262, refuse or misread it - %s''
                         [AStr (eg_construct g), AStr (eg_reading g), AStr (eg_fix g)])]) (ecmaPatternGap s))
           | _ \<Rightarrow> Some []))"

section \<open>Values\<close>

definition media_char :: "char \<Rightarrow> bool" where
  "media_char c \<longleftrightarrow> (let r = of_char c :: nat in r \<in> {65..90} \<or> r \<in> {97..122} \<or> r \<in> {48..57}) \<or> c \<in> set ''!#$&^_.+-''"

text \<open>The expression \<open>mediaRange\<close>: \<open>*/*\<close>, or a type and a subtype or \<open>*\<close>.\<close>

definition mediaRange :: "string \<Rightarrow> bool" where
  "mediaRange s \<longleftrightarrow> s = ''*/*'' \<or>
     (let t = takeWhile media_char s; rest = drop (length t) s; sub = drop 1 rest
      in t \<noteq> [] \<and> HasPrefix rest ''/'' \<and> (sub = ''*'' \<or> sub \<noteq> [] \<and> list_all media_char sub))"

definition checkMediaTypes :: "Decorator \<Rightarrow> Diagnostic list" where
  "checkMediaTypes d =
     List.map_filter (\<lambda>n. if mediaRange (an_Value n) then None
       else Some (at_decorator d CodeDecoratorArgValue
         (Msg ''@mimeTypes takes media types such as \"image/png\" or ranges such as \"image/*\", without parameters - got %q'' [AStr (an_Value n)]) [])) (ArgNames d)"

definition isPlainPathSegment :: "string \<Rightarrow> bool" where
  "isPlainPathSegment s \<longleftrightarrow>
     s \<noteq> [] \<and> list_all (\<lambda>c. let r = of_char c :: nat in r \<in> {97..122} \<or> r \<in> {65..90} \<or> r \<in> {48..57} \<or> r = 45 \<or> r = 95) s"

fun group_segments :: "Decorator \<Rightarrow> string list \<Rightarrow> Diagnostic list" where
  "group_segments d [] = []"
| "group_segments d (seg # segs) =
     (if seg = [] then group_segments d segs
      else if seg = ''.'' \<or> seg = ''..''
      then [at_decorator d CodeDecoratorArgValue
             (Msg ''@group segment %q is not allowed - @group names the directory the block's generated files go to, in place of the service's own, and must be a plain relative path like \"admin\" or \"admin/ops\"'' [AStr seg]) []]
      else if \<not> isPlainPathSegment seg
      then [at_decorator d CodeDecoratorArgValue
             (Msg (''@group segment %q must contain only letters, digits, '-' or '' @ [CHR 0x27, CHR ''_'', CHR 0x27]) [AStr seg]) []]
      else group_segments d segs)"

definition checkGroupArg :: "Decorator \<Rightarrow> Diagnostic list option" where
  "checkGroupArg d =
     (case dec_Args d of
        [] \<Rightarrow> None
      | a # _ \<Rightarrow> Some (case da_Value a of
            Some (StringLit _ s _) \<Rightarrow>
              let segs = SplitByte s (CHR ''/'')
              in if list_all (\<lambda>seg. seg = []) segs
                 then [at_decorator d CodeDecoratorArgValue
                        (Msg ''@group value %q is empty after trimming slashes - provide a path like \"admin\" or \"admin/ops\"'' [AStr s]) []]
                 else group_segments d segs
          | _ \<Rightarrow> []))"

definition float_less :: "float64 \<Rightarrow> float64 \<Rightarrow> bool" where
  "float_less a b =
     (case (float_rat a, float_rat b) of
        (Some x, Some y) \<Rightarrow> x < y
      | (Some _, None) \<Rightarrow> b = Infinite False
      | (None, Some _) \<Rightarrow> a = Infinite True
      | (None, None) \<Rightarrow> a = Infinite True \<and> b = Infinite False)"

definition zero_float :: float64 where "zero_float = Finite False 0 0"

abbreviation range_error :: "DecoratorArg \<Rightarrow> message \<Rightarrow> Diagnostic" where
  "range_error a msg \<equiv> error_at (da_Pos a) CodeDecoratorRange msg"

definition checkPairArgs :: "Decorator \<Rightarrow> Diagnostic list option" where
  "checkPairArgs d =
     (case positionalArgs d of
        [] \<Rightarrow> None
      | [a] \<Rightarrow>
          if dec_Name d \<noteq> ''length'' then None
          else Some (case ParseNumericArg (Some a) of
              Some l \<Rightarrow> if float_less (nl_FloatVal l) zero_float
                then [range_error a (Msg (''@length: exact length must be '' @ geq_sign @ '' 0 (got %g)'') [float_arg (nl_FloatVal l)])] else []
            | None \<Rightarrow> [])
      | a # b # _ \<Rightarrow> Some (case (ParseNumericArg (Some a), ParseNumericArg (Some b)) of
            (Some l, Some h) \<Rightarrow>
              let lo = nl_FloatVal l; hi = nl_FloatVal h
              in (if float_less hi lo
                  then [range_error b (Msg (''@%s: min (%g) must be '' @ leq_sign @ '' max (%g)'') [AStr (dec_Name d), float_arg lo, float_arg hi])] else [])
                 @ (if dec_Name d = ''length'' \<and> float_less lo zero_float
                    then [range_error a (Msg (''@length: min must be '' @ geq_sign @ '' 0 (got %g)'') [float_arg lo])] else [])
          | _ \<Rightarrow> []))"

definition on_first :: "Decorator \<Rightarrow> (DecoratorArg \<Rightarrow> Diagnostic list) \<Rightarrow> Diagnostic list option" where
  "on_first d rule = (case positionalArgs d of [] \<Rightarrow> None | a # _ \<Rightarrow> Some (rule a))"

definition checkMultipleOf :: "Decorator \<Rightarrow> Diagnostic list option" where
  "checkMultipleOf d = on_first d (\<lambda>a. case ParseNumericArg (Some a) of
       None \<Rightarrow> []
     | Some l \<Rightarrow>
         if float_rat (nl_FloatVal l) = Some 0 then [range_error a (Msg ''@multipleOf: divisor must not be 0'' [])]
         else if float_less (nl_FloatVal l) zero_float
         then [range_error a (Msg ''@multipleOf: divisor must be positive (got %g)'' [float_arg (nl_FloatVal l)])] else [])"

definition checkHTTPStatus :: "Decorator \<Rightarrow> Diagnostic list option" where
  "checkHTTPStatus d = on_first d (\<lambda>a. case da_Value a of
       Some (IntLit _ v) \<Rightarrow> if v < 100 \<or> v > 599
         then [range_error a (Msg ''@status: HTTP status code must be in 100..599 (got %d)'' [AInt v])] else []
     | _ \<Rightarrow> [])"

definition checkPositiveDuration :: "Decorator \<Rightarrow> Diagnostic list option" where
  "checkPositiveDuration d = on_first d (\<lambda>a. case da_Value a of
       Some (DurationLit _ t) \<Rightarrow>
         (case DurationArg (Some a) of
            None \<Rightarrow> [range_error a (Msg ''@%s: %s is not a duration (suffix must be one of %s)'' [AStr (dec_Name d), AStr t, AStr (Join DurationUnits '', '')])]
          | Some dur \<Rightarrow> if dur \<le> 0 then [range_error a (Msg ''@%s: duration must be > 0 (got %s)'' [AStr (dec_Name d), AStr t])] else [])
     | Some (IntLit _ v) \<Rightarrow>
         if v \<le> 0 then [range_error a (Msg ''@%s: duration must be > 0 (got %d)'' [AStr (dec_Name d), AInt v])]
         else if DurationArg (Some a) = None
         then [range_error a (Msg ''@%s: %d seconds is out of range for a duration (at most %d)'' [AStr (dec_Name d), AInt v, AInt maxDurationSeconds])]
         else []
     | _ \<Rightarrow> [])"

definition checkPositiveSize :: "Decorator \<Rightarrow> Diagnostic list option" where
  "checkPositiveSize d = on_first d (\<lambda>a.
     let positive = (case sizeBytes (da_Value a) of
           Some n \<Rightarrow> if n \<le> 0 then [range_error a (Msg ''@%s: size must be > 0 (got %d)'' [AStr (dec_Name d), AInt n])] else []
         | None \<Rightarrow> [])
     in case da_Value a of
          Some (SizeLit _ t) \<Rightarrow>
            if ParseSize t = None
            then [range_error a (Msg ''@%s: %s is not a byte size (suffix must be one of %s, and the count must fit in an int64)''
                   [AStr (dec_Name d), AStr t, AStr (Join SizeSuffixes '', '')])]
            else positive
        | _ \<Rightarrow> positive)"

definition checkNonNegativeInt :: "Decorator \<Rightarrow> Diagnostic list option" where
  "checkNonNegativeInt d = on_first d (\<lambda>a. case da_Value a of
       Some (IntLit _ v) \<Rightarrow> if v < 0
         then [range_error a (Msg (''@%s: value must be '' @ geq_sign @ '' 0 (got %d)'') [AStr (dec_Name d), AInt v])] else []
     | _ \<Rightarrow> [])"

definition checkDecoratorValue :: "(string \<Rightarrow> string option) \<Rightarrow> Decorator \<Rightarrow> Diagnostic list option" where
  "checkDecoratorValue compile d =
     (let name = dec_Name d
      in if name = ''pattern'' then checkPatternArg compile d
         else if name = ''group'' then checkGroupArg d
         else if name = ''length'' \<or> name = ''range'' then checkPairArgs d
         else if name = ''multipleOf'' then checkMultipleOf d
         else if name = ''status'' then checkHTTPStatus d
         else if name = ''timeout'' then checkPositiveDuration d
         else if name = ''maxBodySize'' \<or> name = ''maxSize'' then checkPositiveSize d
         else if name \<in> {''minLength'', ''maxLength'', ''minItems'', ''maxItems''} then checkNonNegativeInt d
         else if name = ''mimeTypes'' then Some (checkMediaTypes d)
         else Some [])"

definition decorator_args :: "(string \<Rightarrow> string option) \<Rightarrow> Decorator \<Rightarrow> Diagnostic list option" where
  "decorator_args compile d =
     (case DecoratorSpec (dec_Name d) of
        None \<Rightarrow> Some []
      | Some sp \<Rightarrow>
          if HoldsBadExpr d then Some []
          else case checkDecoratorShape d sp of (ds, ok) \<Rightarrow>
            if ok then map_option (\<lambda>vs. ds @ vs) (checkDecoratorValue compile d) else Some ds)"

definition checkDecoratorArgs :: "(string \<Rightarrow> string option) \<Rightarrow> decoratorSite \<Rightarrow> Diagnostic list option" where
  "checkDecoratorArgs compile s = collect_opt (map (decorator_args compile) (ds_decs s))"

end
