(* ===== verification/Values.thy ===== *)
theory Values
  imports Arguments
begin

text \<open>
  The literals a field's \<open>@default\<close> and \<open>@example\<close> give it: \<^verbatim>\<open>value_literal_checks.go\<close>, and of
  \<^verbatim>\<open>constraint_checks.go\<close> the rules a default must meet, both of \<^verbatim>\<open>internal/semantic\<close>.

  The environment \<open>env\<close> holds what the checks take from elsewhere: \<open>regexp.Compile\<close> and
  \<open>MatchString\<close>, the formats of \<^verbatim>\<open>internal/strfmt\<close> with their label and check, the
  printable runes of \<open>strconv.Quote\<close>, the letters and digits of Unicode, and \<open>fmt.Sprintf\<close>.
\<close>

definition CodeDefaultNeedsOptional :: string where "CodeDefaultNeedsOptional = ''decorator/default-needs-optional''"

record env =
  env_Compile :: "string \<Rightarrow> string option"
  env_Match :: "string \<Rightarrow> string \<Rightarrow> bool"
  env_Format :: "string \<Rightarrow> (string \<times> (string \<Rightarrow> bool)) option"
  env_Print :: "rune \<Rightarrow> bool"
  env_Letter :: "rune \<Rightarrow> bool"
  env_Digit :: "rune \<Rightarrow> bool"
  env_Render :: "message \<Rightarrow> string"

section \<open>Targets\<close>

definition noDefault :: "prim_kind \<Rightarrow> string option" where
  "noDefault k =
     (case k of
        PBytes \<Rightarrow> Some ''a bytes value has no unambiguous literal form (Go []byte vs OpenAPI base64 text)''
      | PFile \<Rightarrow> Some ''a file upload has no literal default form''
      | PCookie \<Rightarrow> Some ''a cookie has no literal default form; the logic sets it''
      | PDateTime \<Rightarrow> Some ''a fixed timestamp is rarely the default meant, and \"now\" is the handler's to decide''
      | _ \<Rightarrow> None)"

definition DefaultNeedsOptional :: "Field \<Rightarrow> bool" where
  "DefaultNeedsOptional f \<longleftrightarrow>
     (case fd_Type f of
        None \<Rightarrow> False
      | Some t \<Rightarrow> \<not> tr_Optional t \<and> HasDecorator (decs (fd_Decorators f)) ''default'' \<and> \<not> HasDecorator (decs (fd_Decorators f)) BindingPath)"

definition elem_type :: "type_ref \<Rightarrow> type_ref" where
  "elem_type t = (case ElemTypeRef (Some t) of Some e \<Rightarrow> e | None \<Rightarrow> t)"

definition default_target :: "Project \<Rightarrow> Package \<Rightarrow> Field \<Rightarrow> type_ref \<Rightarrow> message option" where
  "default_target p own f elem =
     (let unsupported = Some (Msg ''@default is not supported on field %q: only primitives, enums, scalars (wrapping primitives), and arrays of those are allowed'' [AStr (fd_Name f)])
      in case Option.bind (tr_Named elem) nt_Name of
           None \<Rightarrow> unsupported
         | Some q \<Rightarrow>
             if length (qi_Parts q) > 2 then unsupported
             else
               let rf = resolveTypeRef elem (HasRawFormat (decs (fd_Decorators f))) (Some own) (Some p)
               in if rf_Category rf = CatEnum then None
                  else if rf_Category rf = CatUnknown then (if isQualifiedTypeRef (Some elem) then None else unsupported)
                  else if rf_Category rf \<in> {CatPrimitive, CatScalar, CatBytes, CatRawBytes, CatFile, CatCookie}
                  then (if PrimFromName (rf_ResolvedPrim rf) = {} then unsupported
                        else case Option.bind (kind_of (rf_ResolvedPrim rf)) noDefault of
                          Some reason \<Rightarrow> Some (Msg ''@default is not supported on a `%s` field %q - %s''
                            [AStr (rf_ResolvedPrim rf), AStr (fd_Name f), AStr reason])
                        | None \<Rightarrow> None)
                  else unsupported)"

definition literalTargetProblem :: "Project \<Rightarrow> Package \<Rightarrow> string \<Rightarrow> Field \<Rightarrow> message option" where
  "literalTargetProblem p own decName f =
     (case fd_Type f of
        None \<Rightarrow> None
      | Some t \<Rightarrow>
          if tr_ArrayDepth t > 1
          then Some (Msg ''@%s is not supported on a multi-dimensional array (field %q): it may target a primitive, scalar, enum, or a single-level array of those - not a nested array''
                 [AStr decName, AStr (fd_Name f)])
          else if decName \<noteq> ''default'' then None
          else default_target p own f (if tr_Array t then elem_type t else t))"

section \<open>Kinds of literals\<close>

definition enumValueList :: "EnumDecl \<Rightarrow> string" where
  "enumValueList ed = Join (map ev_Name (EnumValues (Some ed))) '', ''"

definition checkEnumLiteral :: "string \<Rightarrow> string \<Rightarrow> EnumDecl \<Rightarrow> Expr option \<Rightarrow> Position \<Rightarrow> Diagnostic list" where
  "checkEnumLiteral decName fieldName ed v pos =
     (case v of
        Some (IdentExpr _ q) \<Rightarrow>
          (case map_option qi_Parts q of
             Some [want] \<Rightarrow>
               if enumMember ed want \<noteq> None then []
               else [error_at pos CodeDecoratorArgValue
                      (Msg ''@%s %q is not a value of enum %s; expected one of %s'' [AStr decName, AStr want, AStr (ed_Name ed), AStr (enumValueList ed)])]
           | _ \<Rightarrow> [error_at pos CodeDecoratorArgValue
               (Msg ''@%s on enum field %q must be one of %s'' [AStr decName, AStr fieldName, AStr (enumValueList ed)])])
      | _ \<Rightarrow> [error_at pos CodeDecoratorArgValue
          (Msg ''@%s on enum field %q must reference an enum value by name (one of %s)'' [AStr decName, AStr fieldName, AStr (enumValueList ed)])])"

definition checkPrimitiveLiteral :: "string \<Rightarrow> string \<Rightarrow> string \<Rightarrow> string \<Rightarrow> Expr option \<Rightarrow> Position \<Rightarrow> Diagnostic list" where
  "checkPrimitiveLiteral decName fieldName dispName prim v pos =
     (let want = primitiveArgKind prim
      in if want = ArgAny then []
         else if \<not> exprMatchesKind v want
         then [error_at pos CodeDecoratorArgType
                (Msg ''@%s on field %q (%s) requires a %s literal'' [AStr decName, AStr fieldName, AStr dispName, AStr (ArgKind_String want)])]
         else if decName = ''default''
         then (case ParseNumeric v of Some l \<Rightarrow> checkCapacity prim l pos ''@default'' | None \<Rightarrow> [])
         else [])"

definition single_literal :: "Project \<Rightarrow> Package \<Rightarrow> string \<Rightarrow> Field \<Rightarrow> type_ref \<Rightarrow> Expr option \<Rightarrow> Position \<Rightarrow> Diagnostic list" where
  "single_literal p own decName f t v pos =
     (case v of
        Some (ArrayLit _ _) \<Rightarrow> [error_at pos CodeDecoratorArgType
          (Msg ''@%s on field %q expects a single value, not an array literal'' [AStr decName, AStr (fd_Name f)])]
      | _ \<Rightarrow>
          (case Option.bind (tr_Named t) nt_Name of
             None \<Rightarrow> []
           | Some q \<Rightarrow>
               (case lookupEnum p own (tr_Named t) of
                  Some ed \<Rightarrow> checkEnumLiteral decName (fd_Name f) ed v pos
                | None \<Rightarrow> checkPrimitiveLiteral decName (fd_Name f) (QualifiedIdent_String q) (primOf p own (Some t)) v pos)))"

text \<open>
  \<open>checkLiteralType\<close> descends into the elements of an array with the element type, whose depth is
  one less, and the array literal is the smaller expression.
\<close>

function checkLiteralType :: "Project \<Rightarrow> Package \<Rightarrow> string \<Rightarrow> Field \<Rightarrow> type_ref \<Rightarrow> Expr option \<Rightarrow> Position \<Rightarrow> Diagnostic list" where
  "checkLiteralType p own decName f t v pos =
     (if tr_Array t
      then case v of
          Some (ArrayLit _ elems) \<Rightarrow> concat (map (\<lambda>e. checkLiteralType p own decName f (elem_type t) (Some e) (ExprPos e)) elems)
        | _ \<Rightarrow> [error_at pos CodeDecoratorArgType
            (Msg ''@%s on array field %q must be an array literal'' [AStr decName, AStr (fd_Name f)])]
      else single_literal p own decName f t v pos)"
  by pat_completeness auto
termination
proof (relation "measure (\<lambda>(p, own, decName, f, t, v, pos). size_option size v)", goal_cases)
  case (2 p own decName f t v pos e q elems z)
  then show ?case using size_list_estimation' [of z elems "size z" size] by simp
qed simp

declare checkLiteralType.simps [simp del]

section \<open>Constraints on a default\<close>

definition valueConstraintSites :: "Project \<Rightarrow> Package \<Rightarrow> type_ref \<Rightarrow> Decorator list \<Rightarrow> constraintSite list" where
  "valueConstraintSites p own t ds =
     \<lparr>cs_decs = ds, cs_of = []\<rparr>
     # (case lookupScalar p own (tr_Named t) of
          Some sd \<Rightarrow> [\<lparr>cs_decs = sc_Decorators sd, cs_of = '' of scalar '' @ type_spelling (Some t)\<rparr>]
        | None \<Rightarrow> [])"

definition checkedPrim :: "Project \<Rightarrow> Package \<Rightarrow> type_ref \<Rightarrow> string" where
  "checkedPrim p own t =
     (case lookupEnum p own (tr_Named t) of Some ed \<Rightarrow> EnumPrimitive (Some ed) | None \<Rightarrow> primOf p own (Some t))"

definition valuePrim :: "Project \<Rightarrow> Package \<Rightarrow> Field \<Rightarrow> string" where
  "valuePrim p own f =
     (case fd_Type f of None \<Rightarrow> [] | Some t \<Rightarrow> if tr_Array t then [] else checkedPrim p own t)"

text \<open>The literal an enum member is checked as, \<open>None\<close> where the literal is checked as written.\<close>

definition wire_literal :: "Project \<Rightarrow> Package \<Rightarrow> type_ref \<Rightarrow> Expr option \<Rightarrow> Expr option" where
  "wire_literal p own t e =
     (case (lookupEnum p own (tr_Named t), e) of
        (Some ed, Some (IdentExpr pos (Some q))) \<Rightarrow>
          map_option (\<lambda>ev. case EnumMemberWire ev of WireInt n \<Rightarrow> IntLit pos n | WireString s \<Rightarrow> StringLit pos s [])
            (enumMember ed (QualifiedIdent_String q))
      | _ \<Rightarrow> None)"

definition checkedValue :: "Project \<Rightarrow> Package \<Rightarrow> type_ref \<Rightarrow> Expr option \<Rightarrow> Expr option" where
  "checkedValue p own t e = (case wire_literal p own t e of Some w \<Rightarrow> Some w | None \<Rightarrow> e)"

definition wireNote :: "(rune \<Rightarrow> bool) \<Rightarrow> Expr option \<Rightarrow> string" where
  "wireNote P wire = (case wire of None \<Rightarrow> [] | Some w \<Rightarrow> '', whose wire value is '' @ literalText P w @ '','')"

definition textConstraintBreach :: "env \<Rightarrow> Decorator \<Rightarrow> string \<Rightarrow> message option" where
  "textConstraintBreach env d s =
     (case firstPositional d of
        None \<Rightarrow> None
      | Some arg \<Rightarrow>
          let text = (case Option.bind (da_Value arg) TextValue of Some t \<Rightarrow> t | None \<Rightarrow> [])
          in if dec_Name d = ''pattern''
             then (if env_Compile env text = None \<and> \<not> env_Match env text s then Some (Msg ''it does not match'' []) else None)
             else if dec_Name d = ''format''
             then (case env_Format env text of
                 Some (label, valid) \<Rightarrow> if valid s then None else Some (Msg (''it is not a valid '' @ label) [])
               | None \<Rightarrow> None)
             else None)"

definition breach :: "(rune \<Rightarrow> bool) \<Rightarrow> string \<Rightarrow> Position \<Rightarrow> string \<Rightarrow> Decorator \<Rightarrow> message \<Rightarrow> Diagnostic" where
  "breach P subject pos of' d why =
     error_at pos CodeDecoratorConflict (Msg ''%s violates %s%s: %s'' [AStr subject, AStr (decoratorCall P d), AStr of', AErr why])"

definition string_breaches :: "env \<Rightarrow> constraintSite \<Rightarrow> string \<Rightarrow> Position \<Rightarrow> string \<Rightarrow> Diagnostic list" where
  "string_breaches env site s pos subject =
     (let n = length (runes s); report = breach (env_Print env) subject pos (cs_of site)
      in List.map_filter (\<lambda>b. if b_limits b = ''length'' \<and> \<not> admits b [] (countLit n)
           then Some (report (b_dec b) (Msg ''its length is %d'' [AInt (int n)])) else None) (declaredBounds (env_Print env) (cs_decs site))
         @ List.map_filter (\<lambda>d. map_option (report d) (textConstraintBreach env d s)) (cs_decs site))"

definition number_breaches :: "env \<Rightarrow> constraintSite \<Rightarrow> string \<Rightarrow> NumericLit \<Rightarrow> Position \<Rightarrow> string \<Rightarrow> Diagnostic list" where
  "number_breaches env site prim q pos subject =
     (let report = breach (env_Print env) subject pos (cs_of site)
      in List.map_filter (\<lambda>b. if b_limits b = ''value'' \<and> \<not> admits b prim q
           then Some (report (b_dec b) (Msg (''it is not '' @ relation b) [])) else None) (declaredBounds (env_Print env) (cs_decs site))
         @ (case FindDecorator (decs (cs_decs site)) ''multipleOf'' of
              None \<Rightarrow> []
            | Some d \<Rightarrow>
                if \<not> IsInteger prim then []
                else case ParseNumericArg (firstPositional d) of
                  None \<Rightarrow> []
                | Some dv \<Rightarrow>
                    if float_rat (nl_FloatVal dv) \<noteq> Some 0 \<and> snd (quotient_of (rat_of q / rat_of dv)) \<noteq> 1
                    then [report d (Msg ''it is not a multiple of %s'' [AStr (value_text (env_Print env) (Option.bind (firstPositional d) da_Value))])]
                    else []))"

definition checkValueConstraints :: "env \<Rightarrow> constraintSite list \<Rightarrow> string \<Rightarrow> Expr option \<Rightarrow> Position \<Rightarrow> string \<Rightarrow> Diagnostic list" where
  "checkValueConstraints env sites prim v pos subject =
     (if \<not> exprMatchesKind v (primitiveArgKind prim) then []
      else concat (map (\<lambda>site. case v of
          Some (StringLit _ s _) \<Rightarrow> string_breaches env site s pos subject
        | _ \<Rightarrow> (case ParseNumeric v of Some q \<Rightarrow> number_breaches env site prim q pos subject | None \<Rightarrow> [])) sites))"

text \<open>
  \<open>literalKey\<close>: the texts of two numbers are equal exactly when their values are, for a float the
  values at its width with the sign of a zero.
\<close>

datatype literal_key =
    KeyFloat bool "rat option"
  | KeyNumber "rat option"
  | KeyString string
  | KeyOther string string

definition literalKey :: "(rune \<Rightarrow> bool) \<Rightarrow> string \<Rightarrow> Expr option \<Rightarrow> literal_key" where
  "literalKey P prim e =
     (case ParseNumeric e of
        Some l \<Rightarrow>
          (case Lookup prim of
             Some sp \<Rightarrow>
               if Prims.sp_Kind sp = PFloat
               then KeyFloat (case nl_FloatVal l of Finite neg _ _ \<Rightarrow> neg | Infinite neg \<Rightarrow> neg)
                      (Option.bind (float_rat (nl_FloatVal l)) (round_at (float_width (Prims.sp_Bits sp))))
               else KeyNumber (Rat l)
           | None \<Rightarrow> KeyNumber (Rat l))
      | None \<Rightarrow> (case e of Some (StringLit _ s _) \<Rightarrow> KeyString s | _ \<Rightarrow> KeyOther (exprKind e) (value_text P e)))"

fun first_repeat :: "'k set \<Rightarrow> ('k \<times> 'e) list \<Rightarrow> 'e option" where
  "first_repeat seen [] = None"
| "first_repeat seen ((k, e) # xs) = (if k \<in> seen then Some e else first_repeat (insert k seen) xs)"

definition array_default :: "env \<Rightarrow> Project \<Rightarrow> Package \<Rightarrow> Field \<Rightarrow> type_ref \<Rightarrow> DecoratorArg \<Rightarrow> Expr \<Rightarrow> Expr list \<Rightarrow> Diagnostic list" where
  "array_default env p own f t arg arr elems =
     (let P = env_Print env; elem = elem_type t; prim = checkedPrim p own elem;
          subject = ''@default('' @ literalText P arr @ '')'';
          held = (if length elems = 1 then ''1 item'' else Itoa (length elems) @ '' items'');
          values = map (\<lambda>e. checkedValue p own elem (Some e)) elems
      in List.map_filter (\<lambda>b. if b_limits b = ''item count'' \<and> \<not> admits b [] (countLit (length elems))
             then Some (error_at (da_Pos arg) CodeDecoratorConflict
               (Msg ''%s violates %s: it holds %s'' [AStr subject, AStr (decoratorCall P (b_dec b)), AStr held])) else None)
           (declaredBounds P (fd_Decorators f))
         @ (if HasDecorator (decs (fd_Decorators f)) ''uniqueItems''
            then (case first_repeat {} (zip (map (literalKey P prim) values) elems) of
                None \<Rightarrow> []
              | Some e \<Rightarrow> [error_at (da_Pos arg) CodeDecoratorConflict
                  (Msg ''%s violates @uniqueItems: %s repeats'' [AStr subject, AStr (literalText P e)])])
            else [])
         @ concat (map (\<lambda>(e, v). checkValueConstraints env (valueConstraintSites p own elem []) prim v (ExprPos e)
             (''@default element '' @ literalText P e @ wireNote P (wire_literal p own elem (Some e)))) (zip elems values)))"

definition checkDefaultConstraints :: "env \<Rightarrow> Project \<Rightarrow> Package \<Rightarrow> Field \<Rightarrow> DecoratorArg \<Rightarrow> Diagnostic list" where
  "checkDefaultConstraints env p own f arg =
     (case fd_Type f of
        None \<Rightarrow> []
      | Some t \<Rightarrow>
          if \<not> tr_Array t
          then checkValueConstraints env (valueConstraintSites p own t (fd_Decorators f)) (checkedPrim p own t) (checkedValue p own t (da_Value arg)) (da_Pos arg)
                 (''@default('' @ value_text (env_Print env) (da_Value arg) @ '')'' @ wireNote (env_Print env) (wire_literal p own t (da_Value arg)))
          else case da_Value arg of
            Some (ArrayLit q elems) \<Rightarrow> array_default env p own f t arg (ArrayLit q elems) elems
          | _ \<Rightarrow> [])"

section \<open>Defaults and examples of a field\<close>

definition literal_args :: "Project \<Rightarrow> Package \<Rightarrow> string \<Rightarrow> Field \<Rightarrow> DecoratorArg \<Rightarrow> Diagnostic list" where
  "literal_args p own decName f arg =
     (case fd_Type f of None \<Rightarrow> [] | Some t \<Rightarrow> checkLiteralType p own decName f t (da_Value arg) (da_Pos arg))"

definition checkFieldDefault :: "env \<Rightarrow> Project \<Rightarrow> Package \<Rightarrow> Field \<Rightarrow> Diagnostic list" where
  "checkFieldDefault env p own f =
     (case FindDecorator (decs (fd_Decorators f)) ''default'' of
        None \<Rightarrow> []
      | Some dec \<Rightarrow>
          (case literalTargetProblem p own ''default'' f of
             Some problem \<Rightarrow> [at_decorator dec CodeDecoratorConflict problem []]
           | None \<Rightarrow>
               (case FindDecorator (decs (fd_Decorators f)) ''nullable'' of
                  None \<Rightarrow> []
                | Some nd \<Rightarrow> [at_decorator nd CodeDecoratorConflict
                    (Msg ''field %q: @nullable with @default - a member sent as null takes the default, as an absent one does, so it never reads as null; drop one'' [AStr (fd_Name f)]) []])
               @ (if DefaultNeedsOptional f
                  then [warn_at (dec_Pos dec) (decoratorEnd dec) CodeDefaultNeedsOptional
                         (Msg ''@default on non-optional field %q: the default fires when the value is absent, so the field is optional - add `?` (or run `craftgo fmt`) so types.go, validate.go, and the OpenAPI agree it is optional'' [AStr (fd_Name f)])]
                  else [])
               @ (case positionalArgs dec of
                    [arg] \<Rightarrow> if HoldsBadExpr dec then [] else literal_args p own ''default'' f arg @ checkDefaultConstraints env p own f arg
                  | _ \<Rightarrow> [])))"

definition checkFieldExample :: "Project \<Rightarrow> Package \<Rightarrow> Field \<Rightarrow> Diagnostic list" where
  "checkFieldExample p own f =
     (case FindDecorator (decs (fd_Decorators f)) ''example'' of
        None \<Rightarrow> []
      | Some dec \<Rightarrow>
          (case literalTargetProblem p own ''example'' f of
             Some problem \<Rightarrow> [at_decorator dec CodeDecoratorConflict problem []]
           | None \<Rightarrow>
               if HoldsBadExpr dec then []
               else concat (map (\<lambda>ag. if da_Value ag = None then [] else literal_args p own ''example'' f ag) (positionalArgs dec))))"

definition checkValueConstraintOnTypeParam :: "Field \<Rightarrow> string list \<Rightarrow> Diagnostic list" where
  "checkValueConstraintOnTypeParam f typeParams =
     (if \<not> TypeParamValue (fd_Type f) typeParams then []
      else case find (\<lambda>d. ConstraintOf (dec_Name d) \<noteq> {}) (fd_Decorators f) of
        None \<Rightarrow> []
      | Some d \<Rightarrow> [at_decorator d CodeDecoratorTypeMismatch
          (Msg ''@%s cannot constrain a type-parameter field (%s): the parametric validator sees it as `any` and can't enforce it, while the monomorphised OpenAPI would still advertise it. Drop the decorator, or constrain a concrete type the instance supplies.''
            [AStr (dec_Name d), AStr (type_spelling (fd_Type f))]) []])"

end
