(* ===== verification/Outputs.thy ===== *)
theory Outputs
  imports Services Literals "HOL-Library.Product_Lexorder"
begin

text \<open>
  The files a design generates per method and per middleware, and the checks that keep them
  apart: \<^verbatim>\<open>project_checks.go\<close> of \<^verbatim>\<open>internal/semantic\<close>, \<open>reportEverySite\<close> of \<^verbatim>\<open>project.go\<close>, and the
  segments of \<^verbatim>\<open>internal/codegen/golang/paths.go\<close> the generators write into.

  A map from names to sites is the list of its entries; where the source sorts what a map
  iteration gave, the list is in that order.
\<close>

definition CodeMiddlewareCollision :: string where "CodeMiddlewareCollision = ''middleware/collision''"
definition CodeGroupPackageStraddle :: string where "CodeGroupPackageStraddle = ''group/package-straddle''"
definition CodeGroupMethodCollision :: string where "CodeGroupMethodCollision = ''group/method-collision''"
definition CodeMethodNameClash :: string where "CodeMethodNameClash = ''service/method-name-clash''"
definition CodeMethodFileName :: string where "CodeMethodFileName = ''service/method-file-name''"

section \<open>Reports at every site\<close>

record siteReport =
  sr_pos :: Position
  sr_msg :: message
  sr_note :: message
  sr_peer :: string

definition reportEverySite :: "string \<Rightarrow> siteReport list \<Rightarrow> Diagnostic list" where
  "reportEverySite code sites =
     map (\<lambda>(i, s). sem_diag (sr_pos s) (sr_pos s) SeverityError code (sr_msg s)
       (map (\<lambda>(_, o'). \<lparr>rel_Pos = sr_pos o', rel_Msg = sr_note o'\<rparr>)
         (filter (\<lambda>(j, o'). \<not> (j = i \<or> sr_peer s \<noteq> [] \<and> sr_peer o' = sr_peer s)) (enumerate 0 sites))))
       (enumerate 0 sites)"

definition quotedNames :: "(rune \<Rightarrow> bool) \<Rightarrow> string list \<Rightarrow> string" where
  "quotedNames P names = Join (map (Quote P) names) '', ''"

section \<open>Middlewares\<close>

record declSite =
  ds_pkg :: string
  ds_pos :: Position

definition middleware_sites :: "Project \<Rightarrow> (string \<times> declSite) list" where
  "middleware_sites p =
     concat (map (\<lambda>(pkgName, pkg). map (\<lambda>(name, m). (name, \<lparr>ds_pkg = pkgName, ds_pos = mw_Pos m\<rparr>)) (p_Middlewares pkg))
       (pr_Packages p))"

definition sites_of :: "(string \<times> declSite) list \<Rightarrow> string \<Rightarrow> declSite list" where
  "sites_of sites name = sort_key (\<lambda>o'. (ds_pkg o', pos_key (ds_pos o'))) (map snd (filter (\<lambda>(n, _). n = name) sites))"

definition site_names :: "(string \<times> declSite) list \<Rightarrow> string list" where
  "site_names sites = sort (remdups (map fst sites))"

definition reportCrossPackageDuplicates :: "(string \<times> declSite) list \<Rightarrow> string \<Rightarrow> string \<Rightarrow> Diagnostic list" where
  "reportCrossPackageDuplicates sites code msg =
     concat (map (\<lambda>name.
         let occs = sites_of sites name
         in if length occs < 2 then []
            else reportEverySite code (map (\<lambda>o'. \<lparr>sr_pos = ds_pos o', sr_msg = Msg msg [AStr name],
                   sr_note = Msg ''also declared in package %s'' [AStr (ds_pkg o')], sr_peer = []\<rparr>) occs))
       (site_names sites))"

definition middleware_file :: "string \<Rightarrow> string \<Rightarrow> string" where
  "middleware_file fileCase name = MiddlewareFileName name fileCase @ ''.go''"

definition checkProjectMiddlewareUniqueness :: "(rune \<Rightarrow> bool) \<Rightarrow> string \<Rightarrow> Project \<Rightarrow> Diagnostic list" where
  "checkProjectMiddlewareUniqueness P fileCase p =
     (let sites = middleware_sites p; file = middleware_file fileCase
      in reportCrossPackageDuplicates sites CodeMiddlewareCollision
           ''middleware %q is declared in multiple packages - names are global; rename or qualify references''
         @ concat (map (\<lambda>f.
             let names = filter (\<lambda>n. file n = f) (site_names sites)
             in if length names < 2 then []
                else reportEverySite CodeMiddlewareCollision
                  (concat (map (\<lambda>name. map (\<lambda>s.
                      \<lparr>sr_pos = ds_pos s,
                       sr_msg = Msg ''middlewares %s all write the scaffold %s - rename all but one'' [AStr (quotedNames P names), AStr f],
                       sr_note = Msg ''middleware %q in package %q'' [AStr name, AStr (ds_pkg s)], sr_peer = []\<rparr>)
                    (sites_of sites name)) names)))
           (sort (remdups (map file (site_names sites))))))"

section \<open>Claims on output directories\<close>

record segMember =
  sm_name :: string
  sm_kind :: string
  sm_pos :: Position

record segClaim =
  cl_pkg :: string
  cl_svc :: string
  cl_group :: string
  cl_pos :: Position
  cl_members :: "segMember list"

definition blockStubMembers :: "ServiceDecl option \<Rightarrow> segMember list" where
  "blockStubMembers block = map (\<lambda>m. \<lparr>sm_name = me_Name m, sm_kind = ''method'', sm_pos = me_Pos m\<rparr>) (Methods block)"

definition claimSource :: "string \<Rightarrow> message" where
  "claimSource group' =
     (if group' = [] then Msg ''its own service directory, no @group'' [] else Msg ''@group(%q)'' [AStr group'])"

definition groupAnchor :: "ServiceDecl option \<Rightarrow> Position" where
  "groupAnchor block =
     (case block of
        None \<Rightarrow> zero_Position
      | Some b \<Rightarrow> (case find (\<lambda>d. dec_Name d = ''group'') (sv_Decorators b) of Some d \<Rightarrow> dec_Pos d | None \<Rightarrow> sv_Pos b))"

definition add_claim :: "string \<Rightarrow> string \<Rightarrow> string \<Rightarrow> ServiceDecl option \<Rightarrow> string \<Rightarrow> segClaim table \<Rightarrow> segClaim table" where
  "add_claim pkgName svcName fileCase block group' out =
     (let members = blockStubMembers block
      in if members = [] then out
         else
           let seg = OutputSegment svcName group' fileCase;
               claim = (case map_of out seg of
                   Some c \<Rightarrow> c
                 | None \<Rightarrow> \<lparr>cl_pkg = pkgName, cl_svc = svcName, cl_group = group', cl_pos = groupAnchor block, cl_members = []\<rparr>)
           in AList.update seg (claim\<lparr>cl_members := cl_members claim @ members\<rparr>) out)"

definition serviceSegmentClaims :: "string \<Rightarrow> string \<Rightarrow> ServiceInfo \<Rightarrow> string \<Rightarrow> segClaim table" where
  "serviceSegmentClaims pkgName svcName si fileCase =
     fold (\<lambda>b. add_claim pkgName svcName fileCase b (blockGroup si b)) (blocks si) []"

definition project_claims :: "string \<Rightarrow> Project \<Rightarrow> (string \<times> segClaim) list" where
  "project_claims fileCase p =
     concat (map (\<lambda>(pkgName, svcName, si). if si_Primary si = None then [] else serviceSegmentClaims pkgName svcName si fileCase)
       (project_services p))"

definition reportGroupPackageStraddle :: "string \<Rightarrow> segClaim list \<Rightarrow> Diagnostic list" where
  "reportGroupPackageStraddle seg occs =
     (if list_all (\<lambda>o'. cl_pkg o' = cl_pkg (hd occs)) occs then []
      else reportEverySite CodeGroupPackageStraddle (map (\<lambda>o'.
        \<lparr>sr_pos = cl_pos o',
         sr_msg = Msg ''service %q (package %q) shares output directory %q with a service from another package - generated files take their Go package from the DSL package, so the directory would hold two different `package` declarations and fail to compile; sharing a @group is fine within one DSL package, otherwise give them separate groups''
           [AStr (cl_svc o'), AStr (cl_pkg o'), AStr seg],
         sr_note = Msg ''service %q in package %q also emits here (%s)'' [AStr (cl_svc o'), AStr (cl_pkg o'), AErr (claimSource (cl_group o'))],
         sr_peer = cl_pkg o'\<rparr>) occs))"

definition claim_members :: "segClaim list \<Rightarrow> (segClaim \<times> segMember) list" where
  "claim_members occs = concat (map (\<lambda>o'. map (Pair o') (cl_members o')) occs)"

definition reportGroupMemberCollisions :: "string \<Rightarrow> string \<Rightarrow> segClaim list \<Rightarrow> Diagnostic list" where
  "reportGroupMemberCollisions fileCase seg occs =
     (let all = claim_members occs
      in concat (map (\<lambda>name.
          let owners = filter (\<lambda>(_, m). sm_name m = name) all
          in if length owners < 2 then []
             else reportEverySite CodeGroupMethodCollision (map (\<lambda>(c, m).
               \<lparr>sr_pos = sm_pos m,
                sr_msg = Msg ''%s %q of service %q collides with another service's %s of the same name in shared output directory %q - stubs are one file per member and the generated function is named after it, so both would claim %s.go and declare the same function; rename one or split the group''
                  [AStr (sm_kind m), AStr name, AStr (cl_svc c), AStr (sm_kind m), AStr seg, AStr (FileName name fileCase)],
                sr_note = Msg ''also declared by service %q, which emits here (%s)'' [AStr (cl_svc c), AErr (claimSource (cl_group c))],
                sr_peer = []\<rparr>) owners))
        (sort (remdups (map (\<lambda>(_, m). sm_name m) all)))))"

text \<open>The first method of each name among the claims, the keys of \<open>byName\<close>.\<close>

fun first_members :: "string set \<Rightarrow> (segClaim \<times> segMember) list \<Rightarrow> (string \<times> segMember) list" where
  "first_members seen [] = []"
| "first_members seen ((c, m) # ms) =
     (if sm_name m \<in> seen then first_members seen ms
      else (cl_svc c, m) # first_members (insert (sm_name m) seen) ms)"

definition clash_report :: "(string \<times> segMember) list \<Rightarrow> message \<Rightarrow> Diagnostic list" where
  "clash_report owners msg =
     reportEverySite CodeMethodNameClash (map (\<lambda>(svc, m).
       \<lparr>sr_pos = sm_pos m, sr_msg = msg, sr_note = Msg ''method %q of service %q'' [AStr (sm_name m), AStr svc], sr_peer = []\<rparr>) owners)"

definition file_problem :: "string \<Rightarrow> string \<Rightarrow> string \<times> segMember \<Rightarrow> Diagnostic list" where
  "file_problem fileCase seg ow =
     (let (svc, m) = ow; base = FileName (sm_name m) fileCase
      in case GoFileProblem base of
           None \<Rightarrow> []
         | Some why \<Rightarrow> [error_at (sm_pos m) CodeMethodFileName
             (Msg ''method %q of service %q writes %s.go in output directory %q, but %s - rename the method''
               [AStr (sm_name m), AStr svc, AStr base, AStr seg, AErr why])])"

definition shared_file :: "(rune \<Rightarrow> bool) \<Rightarrow> string \<Rightarrow> string \<Rightarrow> (string \<times> segMember) list \<Rightarrow> string \<Rightarrow> Diagnostic list" where
  "shared_file P fileCase seg firsts file =
     (let owners = filter (\<lambda>(_, m). FileName (sm_name m) fileCase @ ''.go'' = file) firsts
      in if length owners > 1
         then clash_report owners (Msg ''methods %s all write %s in output directory %q - rename all but one''
                [AStr (quotedNames P (map (\<lambda>(_, m). sm_name m) owners)), AStr file, AStr seg])
         else [])"

definition logic_clash :: "string \<Rightarrow> (string \<times> segMember) list \<Rightarrow> string \<times> segMember \<Rightarrow> Diagnostic list" where
  "logic_clash seg firsts ow =
     (let (svc, m) = ow; name = sm_name m
      in (if name = LogicEmbed
          then [error_at (sm_pos m) CodeMethodNameClash
                 (Msg ''method %q of service %q is named like the log.Logger its logic type %s embeds - rename it''
                   [AStr name, AStr svc, AStr (LogicTypeName name)])]
          else [])
         @ (case find (\<lambda>(_, r). sm_name r = LogicRival name) firsts of
              None \<Rightarrow> []
            | Some rival \<Rightarrow> clash_report [ow, rival]
                (Msg ''methods %q and %q both generate %s in output directory %q: the constructor of %s and the logic type of %s - rename one''
                  [AStr name, AStr (sm_name (snd rival)), AStr (LogicConstructorName name), AStr seg, AStr (LogicTypeName name),
                   AStr (sm_name (snd rival))])))"

definition reportMethodNameClashes :: "(rune \<Rightarrow> bool) \<Rightarrow> string \<Rightarrow> string \<Rightarrow> segClaim list \<Rightarrow> Diagnostic list" where
  "reportMethodNameClashes P fileCase seg occs =
     (let firsts = first_members {} (claim_members occs)
      in concat (map (file_problem fileCase seg) firsts)
         @ concat (map (shared_file P fileCase seg firsts) (sort (remdups (map (\<lambda>(_, m). FileName (sm_name m) fileCase @ ''.go'') firsts))))
         @ concat (map (logic_clash seg firsts) firsts))"

definition check_segment :: "(rune \<Rightarrow> bool) \<Rightarrow> string \<Rightarrow> string \<Rightarrow> segClaim list \<Rightarrow> Diagnostic list" where
  "check_segment P fileCase seg occs =
     reportMethodNameClashes P fileCase seg occs
     @ (if length occs < 2 then []
        else reportGroupPackageStraddle seg occs @ reportGroupMemberCollisions fileCase seg occs)"

definition checkProjectGroupChecks :: "(rune \<Rightarrow> bool) \<Rightarrow> string \<Rightarrow> Project \<Rightarrow> Diagnostic list" where
  "checkProjectGroupChecks P fileCase p =
     (let claims = project_claims fileCase p
      in concat (map (\<lambda>seg. check_segment P fileCase seg (map snd (filter (\<lambda>(s, _). s = seg) claims)))
           (sort (remdups (map fst claims)))))"

section \<open>The segments the generators write into\<close>

definition methodFile :: "Method \<Rightarrow> string \<Rightarrow> string" where
  "methodFile m fileCase = FileName (me_Name m) fileCase @ ''.go''"

record segment =
  sg_pkg :: Package
  sg_name :: string
  sg_svc :: ServiceInfo
  sg_group :: string
  sg_dir :: string

definition segment_methods :: "segment \<Rightarrow> Method list" where
  "segment_methods s = filter (\<lambda>m. MethodGroupOf (Some (sg_svc s)) (Some m) = sg_group s) (si_Methods (sg_svc s))"

definition distinctGroups :: "ServiceInfo \<Rightarrow> string list" where
  "distinctGroups svc = sort (remdups (map (\<lambda>m. MethodGroupOf (Some svc) (Some m)) (si_Methods svc)))"

definition segments :: "Package \<Rightarrow> string \<Rightarrow> segment list" where
  "segments pkg fileCase =
     concat (map (\<lambda>name. case map_of (p_Services pkg) name of
         None \<Rightarrow> []
       | Some svc \<Rightarrow> map (\<lambda>g. \<lparr>sg_pkg = pkg, sg_name = name, sg_svc = svc, sg_group = g, sg_dir = OutputSegment name g fileCase\<rparr>)
           (distinctGroups svc)) (ServiceNames pkg))"

definition projectSegments :: "Project \<Rightarrow> string \<Rightarrow> segment list" where
  "projectSegments p fileCase =
     concat (map (\<lambda>name. case Packages p name of None \<Rightarrow> [] | Some pkg \<Rightarrow> segments pkg fileCase) (PackageNames p))"

text \<open>\<open>eachSegmentMethod\<close> over a project: the segments with their methods.\<close>

definition generated :: "Project \<Rightarrow> string \<Rightarrow> (segment \<times> Method) list" where
  "generated p fileCase = concat (map (\<lambda>s. map (Pair s) (segment_methods s)) (projectSegments p fileCase))"

end
