(* ===== verification/Analysis.thy ===== *)
theory Analysis
  imports Values Outputs
begin

text \<open>
  The analyser as a whole: the references of decorators (\<^verbatim>\<open>decorator_ref_checks.go\<close>), the rules on
  maps and unique items (\<^verbatim>\<open>collections_checks.go\<close>), the phases of \<^verbatim>\<open>semantic.go\<close>, and
  \<open>AnalyzeProject\<close> of \<^verbatim>\<open>project.go\<close>, which runs them over every package and then the checks of the
  project. An analysis that panics or does not end is \<open>None\<close>.
\<close>

definition CodeDecoratorRef :: string where "CodeDecoratorRef = ''decorator/ref''"
definition CodeDuplicateGroupField :: string where "CodeDuplicateGroupField = ''decorator/duplicate-group-field''"
definition CodeMutExSingleField :: string where "CodeMutExSingleField = ''decorator/single-field-mutex''"
definition CodeCrossFieldNotOptional :: string where "CodeCrossFieldNotOptional = ''decorator/cross-field-not-optional''"
definition CodeMapKeyType :: string where "CodeMapKeyType = ''type/map-key''"
definition CodeMapValueType :: string where "CodeMapValueType = ''type/map-value''"

text \<open>
  The options of an analysis. \<open>op_manifest\<close> is the position \<open>AnalyzeProject\<close> makes of \<open>DesignRoot\<close>:
  the manifest in that directory, or the zero position without one.
\<close>

record Options =
  op_SecuritySchemes :: "string list option"
  op_BasePath :: string
  op_HealthPaths :: "string list"
  op_FileCase :: string
  op_manifest :: Position

section \<open>References of decorators\<close>

definition presenceUnclean :: "ResolvedField \<Rightarrow> bool" where
  "presenceUnclean rf \<longleftrightarrow> rf_IsNilable rf \<and> \<not> SpellsPointer rf \<and> rf_Category rf \<noteq> CatRawBytes"

definition reportCrossFieldMemberIssues :: "string \<Rightarrow> string \<Rightarrow> string \<Rightarrow> Field \<Rightarrow> ResolvedField \<Rightarrow> message list" where
  "reportCrossFieldMemberIssues decName typeName memberName f rf =
     (let args = [AStr decName, AStr typeName, AStr memberName]; has = HasDecorator (decs (fd_Decorators f))
      in if presenceUnclean rf
         then [Msg ''@%s on type %s: field %q has no clean present/absent state for a cross-field group - a slice / map is checked by emptiness (`len(...) > 0`) and a `bytes` / `any` member is always treated as present, while the group's OpenAPI requires it be present and non-null. Reference a pointer-backed field (string, number, bool, struct, enum, or a scalar) instead.'' args]
         else (if \<not> (case fd_Type f of Some t \<Rightarrow> tr_Optional t | None \<Rightarrow> False) \<and> \<not> has ''nullable''
               then [Msg ''@%s on type %s: field %q must be optional (`?`) or `@nullable` - a cross-field group needs an unambiguous present/absent state, but a plain field is checked by zero-value emptiness, which disagrees with the OpenAPI schema'' args]
               else [])
              @ (if has ''sensitive''
                 then [Msg ''@%s on type %s: field %q is @sensitive (server-only, not on the wire), so it can't participate in a cross-field group. Reference a body field instead.'' args]
                 else [])
              @ (case wireBinding f of
                   Some (kind, _) \<Rightarrow> [Msg ''@%s on type %s: field %q is bound to @%s and does not ride the JSON body, so it can't participate in a body-level cross-field group. Reference a body field instead.''
                     (args @ [AStr (Binding_String kind)])]
                 | None \<Rightarrow> [])
              @ (if has ''default''
                 then [Msg ''@%s on type %s: field %q carries @default, so it is always present at runtime and the cross-field check is a no-op the OpenAPI contradicts. Drop @default or the cross-field reference.'' args]
                 else []))"

definition group_member :: "Project \<Rightarrow> Package \<Rightarrow> string \<Rightarrow> FlatField list \<Rightarrow> bool \<Rightarrow> Decorator \<Rightarrow> ArgName \<Rightarrow> Diagnostic list" where
  "group_member p own typeName flds incomplete d name =
     (case find (\<lambda>ff. fd_Name (ff_Field ff) = an_Value name) flds of
        None \<Rightarrow>
          if incomplete then []
          else [error_at (an_Pos name) CodeDecoratorRef
                 (Msg ''@%s on type %s: %q is not a field of this type'' [AStr (dec_Name d), AStr typeName, AStr (an_Value name)])]
      | Some ff \<Rightarrow>
          map (error_at (an_Pos name) CodeCrossFieldNotOptional)
            (reportCrossFieldMemberIssues (dec_Name d) typeName (an_Value name) (ff_Field ff) (ResolveField (Some (ff_Field ff)) (Some own) (Some p))))"

fun group_members :: "(ArgName \<Rightarrow> Diagnostic list) \<Rightarrow> Decorator \<Rightarrow> string \<Rightarrow> string set \<Rightarrow> ArgName list \<Rightarrow> Diagnostic list" where
  "group_members member d typeName seen [] =
     (if dec_Name d = ''mutuallyExclusive'' \<and> card seen < 2
      then [warn_at (dec_Pos d) (decoratorEnd d) CodeMutExSingleField
             (Msg ''@mutuallyExclusive needs at least 2 distinct fields (got %d) - the runtime check can never fire'' [AInt (int (card seen))])]
      else [])"
| "group_members member d typeName seen (name # names) =
     (if an_Value name \<in> seen
      then warn_at (an_Pos name) (an_Pos name) CodeDuplicateGroupField
             (Msg ''@%s on type %s: field %q listed more than once'' [AStr (dec_Name d), AStr typeName, AStr (an_Value name)])
           # group_members member d typeName seen names
      else member name @ group_members member d typeName (insert (an_Value name) seen) names)"

definition checkFieldGroupRefs :: "Project \<Rightarrow> Package \<Rightarrow> string \<Rightarrow> Decorator list \<Rightarrow> TypeMember list \<Rightarrow> Diagnostic list" where
  "checkFieldGroupRefs p own typeName ds body =
     (let (flds, incomplete) = flattenFields (Some p) (p_Name own) (p_Name own) body [] [] None
      in concat (map (\<lambda>d.
           if dec_Name d \<noteq> ''requiresOneOf'' \<and> dec_Name d \<noteq> ''mutuallyExclusive'' \<or> HoldsBadExpr d then []
           else group_members (group_member p own typeName flds incomplete d) d typeName {} (ArgNames d)) ds))"

definition unknown_names :: "(string \<Rightarrow> bool) \<Rightarrow> (string \<Rightarrow> message) \<Rightarrow> Decorator \<Rightarrow> Diagnostic list" where
  "unknown_names known msg d =
     map (\<lambda>name. error_at (an_Pos name) CodeDecoratorRef (msg (an_Value name))) (filter (\<lambda>name. \<not> known (an_Value name)) (ArgNames d))"

definition checkErrorsRef :: "Project \<Rightarrow> Package \<Rightarrow> Decorator \<Rightarrow> Diagnostic list" where
  "checkErrorsRef p own = unknown_names (errorDeclared p own) (\<lambda>n. Msg ''@errors: %q is not a declared error type in any package'' [AStr n])"

definition checkMiddlewareRef :: "Project \<Rightarrow> Package \<Rightarrow> Decorator \<Rightarrow> Diagnostic list" where
  "checkMiddlewareRef p own = unknown_names (middlewareDeclared p own) (\<lambda>n. Msg ''@middlewares: %q is not a declared middleware in any package'' [AStr n])"

definition checkSecurityRef :: "string list option \<Rightarrow> Decorator \<Rightarrow> Diagnostic list" where
  "checkSecurityRef schemes d =
     (case schemes of
        None \<Rightarrow> []
      | Some known \<Rightarrow> unknown_names (\<lambda>n. n \<in> set known)
          (\<lambda>n. Msg ''@security: scheme %q is not declared in openapi.securitySchemes (known: %s)'' [AStr n, AStr (joinQuoted known)]) d)"

definition name_refs :: "string list option \<Rightarrow> Project \<Rightarrow> Package \<Rightarrow> decoratorSite \<Rightarrow> Decorator \<Rightarrow> Diagnostic list" where
  "name_refs schemes p own s d =
     (if \<not> allows s (dec_Name d) \<or> HoldsBadExpr d then []
      else if dec_Name d = ''errors'' then checkErrorsRef p own d
      else if dec_Name d = ''middlewares'' then checkMiddlewareRef p own d
      else if dec_Name d = ''security'' then checkSecurityRef schemes d
      else [])"

definition checkDecoratorRefs :: "string list option \<Rightarrow> Project \<Rightarrow> Package \<Rightarrow> decoratorSite \<Rightarrow> Diagnostic list" where
  "checkDecoratorRefs schemes p own s =
     (let names = concat (map (name_refs schemes p own s) (ds_decs s))
      in case ds_decl s of
           Some (D_Type td) \<Rightarrow> if ds_level s = LvlType then checkFieldGroupRefs p own (td_Name td) (ds_decs s) (td_Body td) else names
         | _ \<Rightarrow> names)"

section \<open>Maps\<close>

definition keyMarshalable :: "Project \<Rightarrow> Package \<Rightarrow> type_ref option \<Rightarrow> string list \<Rightarrow> bool" where
  "keyMarshalable p own key typeParams =
     (case key of
        None \<Rightarrow> False
      | Some k \<Rightarrow>
          (case Option.bind (tr_Named k) nt_Name of
             None \<Rightarrow> False
           | Some q \<Rightarrow>
               if tr_Array k \<or> tr_Optional k then False
               else if QualifiedIdent_String q \<in> set typeParams then False
               else
                 let rt = resolveTypeRef k False (Some own) (Some p)
                 in rf_Category rt \<in> {CatEnum, CatUnknown}
                    \<or> rf_Category rt \<in> {CatPrimitive, CatScalar} \<and> kind_of (rf_ResolvedPrim rt) \<in> Some ` {PString, PInt, PUint}))"

text \<open>
  The keys \<open>mapKeysComparable\<close> tests, in its order. An array is left off level by level until the
  type is no array, so the walk goes on with the element type at depth zero.
\<close>

fun map_keys :: "type_ref option \<Rightarrow> type_ref option list" where
  "map_keys None = []"
| "map_keys (Some (TypeRef q (Some (MapType mp k v)) n arr opt d)) = k # map_keys v @ map_keys k"
| "map_keys (Some (TypeRef q None (Some (NamedTypeRef np nm args)) arr opt d)) = concat (map map_keys args)"
| "map_keys (Some (TypeRef q None None arr opt d)) = []"

definition checkMapKeyComparable :: "Project \<Rightarrow> Package \<Rightarrow> Field \<Rightarrow> string list \<Rightarrow> Diagnostic list" where
  "checkMapKeyComparable p own f typeParams =
     map (\<lambda>k. error_at (fd_Pos f) CodeMapKeyType
       (Msg ''map key %s is not a usable map key: a JSON object key is a string, so encoding/json supports only a string / int* / uint* key (or a scalar / enum over one). An optional (`?`), bool, float, struct, slice, map, bytes, or generic type-parameter key either fails to compile or panics at json.Marshal. Use a non-optional string / int* / uint* / string- or int-scalar / enum key.''
         [AStr (TypeRef_String k)]))
       (filter (\<lambda>k. \<not> keyMarshalable p own k typeParams) (map_keys (fd_Type f)))"

definition optional_map_value :: "map_type \<Rightarrow> Diagnostic list" where
  "optional_map_value m =
     (case m of MapType mp key (Some (TypeRef vp vm vn varr vopt vd)) \<Rightarrow>
        if \<not> vopt \<or> \<not> varr \<and> vm = None then []
        else let v = TypeRef vp vm vn varr vopt vd;
                 fixed = TypeRef zero_Position (Some (MapType zero_Position key (Some (TypeRef vp vm vn varr False vd)))) None False False 0
             in [error_at vp CodeMapValueType
                  (Msg ''map value %s cannot be optional: a nil %s already stands for null, so neither the Go type nor the OpenAPI schema carries the `?` - drop the `?` (%s)''
                    [AStr (TypeRef_String (Some v)), AStr (if varr then ''slice'' else ''map''), AStr (TypeRef_String (Some fixed))])]
      | _ \<Rightarrow> [])"

definition checkOptionalMapValues :: "File list \<Rightarrow> Diagnostic list" where
  "checkOptionalMapValues files =
     concat (map (\<lambda>d. concat (map (\<lambda>(t, _, _). concat (map optional_map_value (walkMaps t))) (walkTypeRoots d))) (files_decls files))"

section \<open>Unique items\<close>

definition typeParamIn :: "type_ref option \<Rightarrow> string list \<Rightarrow> string option" where
  "typeParamIn t typeParams =
     first_some (\<lambda>n. case map_option qi_Parts (nt_Name n) of
         Some [name] \<Rightarrow> if name \<in> set typeParams then Some name else None
       | _ \<Rightarrow> None) (TypeRef_WalkNamedRefs t)"

definition dedupeSubject :: "string \<Rightarrow> type_ref option \<Rightarrow> string" where
  "dedupeSubject path t = (if path = [] then TypeRef_String t else path @ '' ('' @ TypeRef_String t @ '')'')"

text \<open>
  A pending question of \<open>dedupeKeyProblem\<close>: a type at a path, or a member of a struct already
  entered. The first problem found ends the walk.
\<close>

datatype dedupe_task =
    DedupeType "type_ref option" string
  | DedupeMember Field string

definition struct_members :: "Project \<Rightarrow> string \<Rightarrow> string set \<Rightarrow> type_ref \<Rightarrow> string \<Rightarrow> dedupe_task list \<times> string set" where
  "struct_members p view seen t path =
     (case tr_Named t of
        None \<Rightarrow> ([], seen)
      | Some n \<Rightarrow>
          (case resolve (Some p) view (nt_Name n) of
             (None, _) \<Rightarrow> ([], seen)
           | (Some pkg, symb) \<Rightarrow>
               (case Types pkg symb of
                  None \<Rightarrow> ([], seen)
                | Some td \<Rightarrow>
                    (case walkedInstance p pkg td n of (args, key) \<Rightarrow>
                       if key \<in> seen then ([], seen)
                       else let at' = (if path = [] then TypeRef_String (Some t) else path)
                            in (map (\<lambda>ff. DedupeMember (ff_Field ff) (at' @ ''.'' @ fd_Name (ff_Field ff)))
                                  (fst (flattenFields (Some p) view (p_Name pkg) (td_Body td) (td_TypeParams td) args None)),
                                insert key seen)))))"

definition type_problem :: "ResolvedField \<Rightarrow> string \<Rightarrow> type_ref option \<Rightarrow> string option" where
  "type_problem rt path t =
     (case rf_Category rt of
        CatPrimitive \<Rightarrow>
          if kind_of (rf_ResolvedPrim rt) = Some PDateTime
          then Some (dedupeSubject path t @ '' is a datetime, a time.Time that carries its location: two equal instants in different zones compare unequal'')
          else None
      | CatEnum \<Rightarrow> None
      | CatUnknown \<Rightarrow> None
      | CatScalar \<Rightarrow> if \<not> rf_IsNilable rt then None else Some (dedupeSubject path t @ '' is not comparable'')
      | CatFile \<Rightarrow> Some (dedupeSubject path t @ '' is a pointer the validator compares by address'')
      | CatStruct \<Rightarrow> None
      | _ \<Rightarrow> Some (dedupeSubject path t @ '' is not comparable''))"

definition resolved_at :: "Project \<Rightarrow> string \<Rightarrow> type_ref option \<Rightarrow> ResolvedField" where
  "resolved_at p view t = (case t of None \<Rightarrow> zero_field | Some t \<Rightarrow> resolveTypeRef t False (Packages p view) (Some p))"

partial_function (option) dedupe_loop :: "Project \<Rightarrow> string \<Rightarrow> dedupe_task list \<Rightarrow> string set \<Rightarrow> string option option" where
  "dedupe_loop p view tasks seen =
     (case tasks of
        [] \<Rightarrow> Some None
      | DedupeMember m path # rest \<Rightarrow>
          if GoPointer (ResolveField (Some m) (Packages p view) (Some p))
          then Some (Some (dedupeSubject path (fd_Type m) @ '' is a pointer the validator compares by address''))
          else dedupe_loop p view (DedupeType (fd_Type m) path # rest) seen
      | DedupeType t path # rest \<Rightarrow>
          (case type_problem (resolved_at p view t) path t of
             Some problem \<Rightarrow> Some (Some problem)
           | None \<Rightarrow>
               if rf_Category (resolved_at p view t) = CatStruct
               then dedupe_loop p view (fst (struct_members p view seen (the t) path) @ rest) (snd (struct_members p view seen (the t) path))
               else dedupe_loop p view rest seen))"

declare dedupe_loop.simps [code]

definition dedupeKeyProblem :: "Project \<Rightarrow> type_ref option \<Rightarrow> string \<Rightarrow> string option option" where
  "dedupeKeyProblem p t view = dedupe_loop p view [DedupeType t []] {}"

definition checkUniqueItemsComparable :: "Project \<Rightarrow> Package \<Rightarrow> Field \<Rightarrow> string list \<Rightarrow> Diagnostic list option" where
  "checkUniqueItemsComparable p own f typeParams =
     (case (FindDecorator (decs (fd_Decorators f)) ''uniqueItems'', fd_Type f) of
        (Some d, Some t) \<Rightarrow>
          if \<not> tr_Array t then Some []
          else
            let elem = ElemTypeRef (Some t)
            in case typeParamIn elem typeParams of
                 Some param \<Rightarrow> Some [at_decorator d CodeDecoratorTypeMismatch
                   (Msg ''@uniqueItems is not supported on an element built on the type parameter %s (%s): the parametric validator can't build a dedupe map over an `any`-constrained value. Drop @uniqueItems, or use a concrete comparable element type.''
                     [AStr param, AStr (TypeRef_String elem)]) []]
               | None \<Rightarrow> map_option (\<lambda>problem. case problem of
                     None \<Rightarrow> []
                   | Some why \<Rightarrow> [at_decorator d CodeDecoratorTypeMismatch
                       (Msg ''@uniqueItems needs elements the validator compares by value, as map keys: %s. Restructure the element, or drop @uniqueItems.'' [AStr why]) []])
                   (dedupeKeyProblem p elem (p_Name own))
      | _ \<Rightarrow> Some [])"

section \<open>Phases\<close>

definition runNamingPhase :: "env \<Rightarrow> Project \<Rightarrow> Package \<Rightarrow> File list \<Rightarrow> Diagnostic list" where
  "runNamingPhase env p own files =
     checkExtendOrphans p own
     @ checkDeclNameCase (env_Print env) p own files
     @ checkFieldNameCollisions files
     @ checkEnumValueCollisions files
     @ checkDeclGoNameCollisions files"

definition check_site :: "env \<Rightarrow> Options \<Rightarrow> Project \<Rightarrow> Package \<Rightarrow> decoratorSite \<Rightarrow> Diagnostic list option" where
  "check_site env opts p own s =
     map_option (\<lambda>args.
       checkDecoratorDuplicates s
       @ checkPlacement s
       @ args
       @ checkDecoratorRefs (op_SecuritySchemes opts) p own s
       @ (case ds_field s of
            None \<Rightarrow> []
          | Some f \<Rightarrow> checkFieldDefault env p own f
              @ checkFieldExample p own f
              @ checkSensitiveConflicts f
              @ checkJSONDecorator (env_Letter env) (env_Digit env) f))
       (checkDecoratorArgs (env_Compile env) s)"

definition checkDecoratorSites :: "env \<Rightarrow> Options \<Rightarrow> Project \<Rightarrow> Package \<Rightarrow> File list \<Rightarrow> Diagnostic list option" where
  "checkDecoratorSites env opts p own files = collect_opt (map (check_site env opts p own) (decoratorSites files))"

definition runDecoratorPhase :: "env \<Rightarrow> Options \<Rightarrow> Project \<Rightarrow> Package \<Rightarrow> File list \<Rightarrow> Diagnostic list option" where
  "runDecoratorPhase env opts p own files =
     collect_opt [checkDecoratorSites env opts p own files, Some (checkJSONKeys p own files)]"

definition range_sites :: "Project \<Rightarrow> Package \<Rightarrow> Field \<Rightarrow> constraintSite list" where
  "range_sites p own f =
     (case fd_Type f of
        Some t \<Rightarrow> if valuePrim p own f \<noteq> [] then valueConstraintSites p own t (fd_Decorators f)
                  else [\<lparr>cs_decs = fd_Decorators f, cs_of = []\<rparr>]
      | None \<Rightarrow> [\<lparr>cs_decs = fd_Decorators f, cs_of = []\<rparr>])"

definition checkBodyRanges :: "env \<Rightarrow> Project \<Rightarrow> Package \<Rightarrow> TypeMember list \<Rightarrow> string list \<Rightarrow> Diagnostic list option" where
  "checkBodyRanges env p own members typeParams =
     collect_opt (map (\<lambda>f. collect_opt
       [Some (checkValueRules (env_Print env) (valuePrim p own f) (''field '' @ Quote (env_Print env) (fd_Name f)) (range_sites p own f)),
        Some (checkNullableRedundant f),
        checkUniqueItemsComparable p own f typeParams,
        Some (checkValueConstraintOnTypeParam f typeParams),
        Some (checkMapKeyComparable p own f typeParams)]) (Fields members))"

definition checkDeclRanges :: "env \<Rightarrow> Project \<Rightarrow> Package \<Rightarrow> Decl \<Rightarrow> Diagnostic list option" where
  "checkDeclRanges env p own d =
     (case d of
        D_Type dd \<Rightarrow> checkBodyRanges env p own (td_Body dd) (td_TypeParams dd)
      | D_Error dd \<Rightarrow> checkBodyRanges env p own (er_Body dd) []
      | D_Scalar dd \<Rightarrow> Some (checkValueRules (env_Print env) (sc_Primitive dd) (''scalar '' @ Quote (env_Print env) (sc_Name dd))
            [\<lparr>cs_decs = sc_Decorators dd, cs_of = []\<rparr>])
      | _ \<Rightarrow> Some [])"

definition checkRangesAndExtras :: "env \<Rightarrow> Project \<Rightarrow> Package \<Rightarrow> File list \<Rightarrow> Diagnostic list option" where
  "checkRangesAndExtras env p own files = collect_opt (map (checkDeclRanges env p own) (files_decls files))"

definition checkFieldCombinations :: "Project \<Rightarrow> Package \<Rightarrow> string \<Rightarrow> TypeMember list \<Rightarrow> string list \<Rightarrow> Diagnostic list" where
  "checkFieldCombinations p own parent members typeParams =
     concat (map (\<lambda>f.
       checkSingleBinding parent f
       @ checkBindingFieldType p own parent f typeParams
       @ checkWireNameTag parent f
       @ checkCookieAttrs parent f
       @ checkBoundOverlap parent (Some f)) (Fields members))"

definition checkDeclCombinations :: "Project \<Rightarrow> Package \<Rightarrow> Decl \<Rightarrow> Diagnostic list" where
  "checkDeclCombinations p own d =
     (case d of
        D_Type dd \<Rightarrow> checkFieldCombinations p own (td_Name dd) (td_Body dd) (td_TypeParams dd)
            @ checkDuplicateWireNames p own (td_Name dd) (td_Body dd)
      | D_Error dd \<Rightarrow> checkFieldCombinations p own (er_Name dd) (er_Body dd) []
            @ checkDuplicateWireNames p own (er_Name dd) (er_Body dd)
      | D_Service dd \<Rightarrow> concat (map (checkMethodCombinations p own dd) (Methods (Some dd)))
      | _ \<Rightarrow> [])"

definition checkCombinationRules :: "Project \<Rightarrow> Package \<Rightarrow> File list \<Rightarrow> Diagnostic list" where
  "checkCombinationRules p own files = concat (map (checkDeclCombinations p own) (files_decls files))"

definition runShapePhase :: "env \<Rightarrow> Options \<Rightarrow> Project \<Rightarrow> Package \<Rightarrow> File list \<Rightarrow> Diagnostic list option" where
  "runShapePhase env opts p own files =
     collect_opt
       [Some (checkFieldUniqueness (env_Letter env) p own),
        Some (checkEnums own),
        Some (checkServiceMethods own),
        Some (checkFieldTypeCompat p own),
        checkRangesAndExtras env p own files,
        Some (checkOptionalMapValues files),
        Some (checkMixins p own),
        Some (checkPathResolution (env_Letter env) (env_Digit env) (op_HealthPaths opts) p own),
        Some (checkCombinationRules p own files),
        Some (checkTypeParamWireBindings p own),
        checkFilePosition p own,
        checkCookiePosition p own,
        checkEvents p own]"

definition runRefPhase :: "Project \<Rightarrow> Package \<Rightarrow> File list \<Rightarrow> Diagnostic list" where
  "runRefPhase p own files = checkTypeRefs p own files"

section \<open>The project\<close>

definition sortDiagnostics :: "env \<Rightarrow> Diagnostic list \<Rightarrow> Diagnostic list" where
  "sortDiagnostics env = sort_key (\<lambda>d. (pos_key (d_Pos d), d_Code d, env_Render env (d_Msg d)))"

text \<open>The diagnostics of one package: those of its declarations, then those of the phases.\<close>

definition package_diagnostics :: "env \<Rightarrow> Options \<Rightarrow> Project \<Rightarrow> string \<Rightarrow> File list \<Rightarrow> Diagnostic list option" where
  "package_diagnostics env opts p name files =
     (case runDeclPhase (op_BasePath opts) name files of (own, declared) \<Rightarrow>
        collect_opt
          [Some declared,
           Some (runNamingPhase env p own files),
           runDecoratorPhase env opts p own files,
           runShapePhase env opts p own files,
           Some (runRefPhase p own files)])"

definition project_diagnostics :: "env \<Rightarrow> Options \<Rightarrow> Project \<Rightarrow> Diagnostic list option" where
  "project_diagnostics env opts p =
     collect_opt
       [Some (checkBasePathFormat (op_manifest opts) (op_BasePath opts)),
        Some (checkBasePathPattern (env_Letter env) (env_Digit env) (op_manifest opts) (op_BasePath opts)),
        Some (checkProjectGroupChecks (env_Print env) (op_FileCase opts) p),
        Some (checkProjectMiddlewareUniqueness (env_Print env) (op_FileCase opts) p),
        Some (checkProjectPathCollision p),
        checkNestedBindings p,
        Some (checkProjectOperationIDUniqueness p),
        Some (checkProjectEvents p),
        Some (checkPackageCycles p),
        Some (checkInstantiationCycles p)]"

definition AnalyzeProject :: "env \<Rightarrow> Options \<Rightarrow> File list \<Rightarrow> (Project \<times> Diagnostic list) option" where
  "AnalyzeProject env opts files =
     (let (groups, grouped) = groupFilesByPackage files;
          proj = build_project (op_BasePath opts) files
      in map_option (\<lambda>ds. (proj, sortDiagnostics env ds))
           (collect_opt
             (Some grouped
              # map (\<lambda>name. case map_of groups name of
                    None \<Rightarrow> Some []
                  | Some fs \<Rightarrow> package_diagnostics env opts proj name fs) (sorted_keys groups)
              @ [project_diagnostics env opts proj])))"

end
