(* ===== verification/Arguments_Spec.thy ===== *)
theory Arguments_Spec
  imports Arguments
begin

text \<open>
  The checks of arguments and the argument lists they index: a rule that reads an argument runs
  only after the shape of the arguments is accepted, and the shape makes it present.
\<close>

section \<open>Arguments an accepted shape has\<close>

definition indexed :: "string set" where
  "indexed = {''pattern'', ''group'', ''length'', ''range'', ''multipleOf'', ''status'', ''timeout'', ''maxBodySize'', ''maxSize'',
     ''minLength'', ''maxLength'', ''minItems'', ''maxItems''}"

lemma registry_indexed:
  "list_all (\<lambda>sp. sp_Name sp \<notin> indexed \<or> \<not> ar_AllowArrayShortcut (sp_Args sp)
     \<and> (if sp_Name sp = ''range'' then 2 else 1) \<le> ar_Min (sp_Args sp)) registry"
  by code_simp

lemma indexed_spec:
  assumes "DecoratorSpec name = Some sp" and "name \<in> indexed"
  shows "\<not> ar_AllowArrayShortcut (sp_Args sp)" and "(if name = ''range'' then 2 else 1) \<le> ar_Min (sp_Args sp)"
proof -
  have "sp \<in> set registry" and "sp_Name sp = name"
    using assms(1) by (auto simp: DecoratorSpec_def find_Some_iff)
  with registry_indexed assms(2)
  show "\<not> ar_AllowArrayShortcut (sp_Args sp)" "(if name = ''range'' then 2 else 1) \<le> ar_Min (sp_Args sp)"
    unfolding list_all_iff by blast+
qed

lemma shape_positional:
  assumes "snd (checkDecoratorShape d sp)" and "\<not> ar_AllowArrayShortcut (sp_Args sp)"
  shows "ar_Min (sp_Args sp) \<le> length (positionalArgs d)"
proof -
  have "snd (checkPositionalArgs d (sp_Args sp))"
    using assms(1) by (simp add: checkDecoratorShape_def all_verdicts_def)
  then have "snd (listed_args d (sp_Args sp) (positionalArgs d))"
    using assms(2) by (auto simp: checkPositionalArgs_def all_verdicts_def Let_def split: list.splits)
  then show ?thesis by (simp add: listed_args_def Let_def split: if_splits)
qed

lemma positional_args: "positionalArgs d \<noteq> [] \<Longrightarrow> dec_Args d \<noteq> []"
  by (auto simp: positionalArgs_def)

section \<open>Patterns\<close>

text \<open>A pattern with a group of flags that no colon and no parenthesis ends.\<close>

definition open_flags :: "string \<Rightarrow> bool" where
  "open_flags s \<longleftrightarrow> (\<exists>pre c rest. s = pre @ ''(?'' @ c # rest \<and> c \<in> set ''imsU-''
     \<and> CHR '':'' \<notin> set rest \<and> CHR '')'' \<notin> set rest)"

lemma takeWhile_whole: "length (takeWhile P xs) = length xs \<Longrightarrow> x \<in> set xs \<Longrightarrow> P x"
  by (metis set_takeWhileD takeWhile_eq_take take_all order_refl)

lemma groupGap_open:
  assumes "groupGap s = None" and "hd s = CHR ''(''"
  shows "open_flags s"
proof -
  let ?P = "\<lambda>c. c \<noteq> CHR '':'' \<and> c \<noteq> CHR '')''"
  have s: "length s > 2" "s ! 1 = CHR ''?''" "s ! 2 \<in> set ''imsU-''" "length (takeWhile ?P s) = length s"
    using assms(1) by (auto simp: groupGap_def Let_def split: if_splits)
  obtain a b c rest where shape: "s = a # b # c # rest"
    using s(1) by (auto simp: Suc_le_eq numeral_2_eq_2 length_Suc_conv dest!: less_imp_Suc_add)
  then have "s = [] @ ''(?'' @ c # rest" using assms(2) s(2) by simp
  moreover have "CHR '':'' \<notin> set rest" "CHR '')'' \<notin> set rest"
    using takeWhile_whole [OF s(4)] shape by auto
  ultimately show ?thesis using s(3) shape unfolding open_flags_def by (metis nth_Cons_numeral nth_Cons_0 numeral_2_eq_2 nth_Cons_Suc)
qed

lemma open_flags_append: "open_flags t \<Longrightarrow> open_flags (pre @ t)"
  unfolding open_flags_def by (metis append_assoc)

lemma ecmaPatternGap_open: "ecmaPatternGap s = None \<Longrightarrow> open_flags s"
proof (induction s rule: ecmaPatternGap.induct)
  case (1 s)
  show ?case
  proof (cases "construct_gap s")
    case None
    then show ?thesis using groupGap_open by (auto simp: construct_gap_def split: if_splits)
  next
    case (Some r)
    then obtain n where r: "r = (None, n)" "s \<noteq> []" "ecmaPatternGap (drop n s) = None"
      using "1.prems" by (subst (asm) ecmaPatternGap.simps) (auto split: if_splits option.splits prod.splits)
    then have "open_flags (drop n s)" using "1.IH" Some by auto
    then show ?thesis using open_flags_append [of "drop n s" "take n s"] by simp
  qed
qed

section \<open>Rules\<close>

definition pattern_text :: "Decorator \<Rightarrow> string option" where
  "pattern_text d = (case dec_Args d of a # _ \<Rightarrow> (case da_Value a of Some (StringLit _ s _) \<Rightarrow> Some s | _ \<Rightarrow> None) | [] \<Rightarrow> None)"

lemma value_rule_stuck:
  assumes "checkDecoratorValue compile d = None"
    and "dec_Name d \<in> indexed \<Longrightarrow> (if dec_Name d = ''range'' then 2 else 1) \<le> length (positionalArgs d)"
  shows "dec_Name d = ''pattern'' \<and> (\<exists>s. pattern_text d = Some s \<and> compile s = None \<and> ecmaPatternGap s = None)"
proof (cases "dec_Name d = ''pattern''")
  case True
  then have "positionalArgs d \<noteq> []" using assms(2) by (fastforce simp: indexed_def)
  then have "dec_Args d \<noteq> []" by (rule positional_args)
  then show ?thesis using assms(1) True
    by (auto simp: checkDecoratorValue_def checkPatternArg_def pattern_text_def split: list.splits option.splits Expr.splits if_splits)
next
  case False
  have name: "dec_Name d \<in> indexed"
    using assms(1) by (auto simp: checkDecoratorValue_def indexed_def Let_def split: if_splits)
  then have len: "(if dec_Name d = ''range'' then 2 else 1) \<le> length (positionalArgs d)" by (rule assms(2))
  then obtain a as where args: "positionalArgs d = a # as" by (cases "positionalArgs d") (auto split: if_splits)
  then have "dec_Args d \<noteq> []" using positional_args by fastforce
  then have "checkDecoratorValue compile d \<noteq> None"
    using False args len
    by (cases as) (auto simp: checkDecoratorValue_def checkGroupArg_def checkPairArgs_def on_first_def checkMultipleOf_def checkHTTPStatus_def
      checkPositiveDuration_def checkPositiveSize_def checkNonNegativeInt_def Let_def neq_Nil_conv split: if_splits)
  with assms(1) show ?thesis by simp
qed

lemma collect_opt_None: "collect_opt xs = None \<longleftrightarrow> None \<in> set xs"
  by (induction xs) (auto simp: bind_eq_None_conv)

section \<open>Properties\<close>

text \<open>
  C30. The checks of a site's decorator arguments index only arguments that are there: they return
  on every site, whatever arguments are written, the scan of an accepted pattern apart. The scan
  runs past its pattern only where \<open>regexp.Compile\<close> accepts a pattern with a group of flags that is
  never closed.
\<close>

theorem args_in_range:
  assumes "checkDecoratorArgs compile s = None"
  shows "\<exists>d \<in> set (ds_decs s). dec_Name d = ''pattern''
    \<and> (\<exists>t. pattern_text d = Some t \<and> compile t = None \<and> open_flags t)"
proof -
  obtain d where d: "d \<in> set (ds_decs s)" "decorator_args compile d = None"
    using assms by (auto simp: checkDecoratorArgs_def collect_opt_None)
  then obtain sp where sp: "DecoratorSpec (dec_Name d) = Some sp" "snd (checkDecoratorShape d sp)" "checkDecoratorValue compile d = None"
    by (auto simp: decorator_args_def split: option.splits if_splits prod.splits)
  have "(if dec_Name d = ''range'' then 2 else 1) \<le> length (positionalArgs d)" if "dec_Name d \<in> indexed"
    using indexed_spec [OF sp(1) that] shape_positional [OF sp(2)] by (meson order_trans)
  then show ?thesis using value_rule_stuck [OF sp(3)] d(1) ecmaPatternGap_open by blast
qed

definition open_pattern :: decoratorSite where
  "open_pattern = \<lparr>ds_level = LvlField, ds_label = ''field Item.id'',
     ds_decs = [\<lparr>dec_Pos = zero_Position, dec_Name = ''pattern'',
       dec_Args = [\<lparr>da_Pos = zero_Position, da_Name = [], da_Named = False, da_Value = Some (StringLit zero_Position ''a(?i'' []), da_Object = None\<rparr>],
       dec_HasParens = True\<rparr>],
     ds_decl = None, ds_field = None, ds_inherited = []\<rparr>"

theorem args_in_range_witness:
  "\<exists>d \<in> set (ds_decs open_pattern). dec_Name d = ''pattern'' \<and> (\<exists>t. pattern_text d = Some t \<and> open_flags t)"
proof -
  have "checkDecoratorArgs (\<lambda>_. None) open_pattern = None" by code_simp
  from args_in_range [OF this] show ?thesis by blast
qed

end
