(* ===== verification/Bounds_Spec.thy ===== *)
theory Bounds_Spec
  imports Bounds
begin

text \<open>
  What the checks on bounds mean for an integer value: a site whose checks are silent leaves a
  value of its type that meets every bound and is a multiple of every divisor, and a site that
  leaves one is not reported.
\<close>

section \<open>Values a bound admits\<close>

definition meets :: "('a) bound_scheme \<Rightarrow> int \<Rightarrow> bool" where
  "meets b n =
     (let v = rat_of (b_value b)
      in if bs_Lower b then (if bs_Strict b then v < of_int n else v \<le> of_int n)
         else (if bs_Strict b then of_int n < v else of_int n \<le> v))"

definition int_lit :: "int \<Rightarrow> NumericLit" where
  "int_lit n = \<lparr>nl_IntVal = n, nl_FloatVal = int_float n, nl_IsInt = True, nl_written = []\<rparr>"

lemma compare_rat_simps [simp]:
  "compare_rat a b > 0 \<longleftrightarrow> b < a" "compare_rat a b \<ge> 0 \<longleftrightarrow> b \<le> a"
  "compare_rat a b < 0 \<longleftrightarrow> a < b" "compare_rat a b \<le> 0 \<longleftrightarrow> a \<le> b" "compare_rat a b = 0 \<longleftrightarrow> a = b"
  by (auto simp: compare_rat_def)

lemma meets_admits: "sc_bits (scaleOf prim (b_limits b)) = 0 \<Longrightarrow> admits b prim (int_lit n) \<longleftrightarrow> meets b n"
  by (simp add: admits_def meets_def scale_cmp_def Cmp_def int_lit_def rat_of_def Rat_def Let_def)

text \<open>A bound on its scale: its value is a whole number within the range.\<close>

definition on_scale :: "int \<Rightarrow> int \<Rightarrow> bound \<Rightarrow> bool" where
  "on_scale lo hi b \<longleftrightarrow> b_limits b = ''value'' \<and> (\<exists>v. Rat (b_value b) = Some (of_int v) \<and> lo \<le> v \<and> v \<le> hi)"

definition least_met :: "('a) bound_scheme \<Rightarrow> int" where
  "least_met b = (let v = \<lfloor>rat_of (b_value b)\<rfloor> in if bs_Strict b then (if bs_Lower b then v + 1 else v - 1) else v)"

lemma on_scale_meets:
  assumes "on_scale lo hi b"
  shows "meets b n \<longleftrightarrow> (if bs_Lower b then least_met b \<le> n else n \<le> least_met b)"
  using assms by (auto simp: on_scale_def meets_def least_met_def rat_of_def Let_def)

lemma quotient_of_whole [simp]: "quotient_of (of_int n) = (n, 1)"
  by (simp add: of_int_rat quotient_of_Fract normalize_def)

lemma limitOn_on_scale:
  assumes cap: "Capacity prim = Some (lo, hi)" and b: "on_scale lo hi b"
  defines "past \<equiv> (if bs_Lower b then hi < least_met b else least_met b < lo)"
  shows "limitOn (scaleOf prim (b_limits b)) b of' =
    mk_limit b of' (scaleOf prim ''value'') (if past then None else Some (of_int (least_met b))) past"
proof -
  obtain v where v: "Rat (b_value b) = Some (of_int v)" "lo \<le> v" "v \<le> hi" "b_limits b = ''value''"
    using b by (auto simp: on_scale_def)
  have "whole_at (scaleOf prim ''value'') b = Some (of_int (least_met b))"
    using v cap by (auto simp: whole_at_def scaleOf_def least_met_def rat_of_def Let_def)
  then show ?thesis using cap v by (auto simp: limitOn_def scaleOf_def past_def Let_def)
qed

lemma mk_limit_sel [simp]:
  "bs_Lower (mk_limit b of' sc q no) = bs_Lower b" "bs_Strict (mk_limit b of' sc q no) = bs_Strict b"
  "b_dec (mk_limit b of' sc q no) = b_dec b" "b_limits (mk_limit b of' sc q no) = b_limits b"
  "b_value (mk_limit b of' sc q no) = b_value b" "l_of (mk_limit b of' sc q no) = of'"
  "l_sc (mk_limit b of' sc q no) = sc" "l_at (mk_limit b of' sc q no) = q" "l_none (mk_limit b of' sc q no) = no"
  by (simp_all add: mk_limit_def bound.defs)


lemma whole_quotient: "snd (quotient_of r) = 1 \<Longrightarrow> r = of_int (fst (quotient_of r))"
  using quotient_of_div [of r "fst (quotient_of r)" "snd (quotient_of r)", OF prod.collapse [symmetric]] by simp

section \<open>The tightest bounds\<close>

text \<open>Limits that are placed on the scale: each has the least or greatest value it admits.\<close>

definition placed :: "limit \<Rightarrow> bool" where
  "placed l \<longleftrightarrow> b_limits l = ''value'' \<and> l_at l = Some (of_int (least_met l))"

lemma fold_tighter_all:
  assumes "list_all placed ls"
  defines "st \<equiv> fold tighter ls (None, None)"
  shows "(\<forall>l. fst st = Some l \<longrightarrow> l \<in> set ls \<and> bs_Lower l) \<and> (\<forall>l. snd st = Some l \<longrightarrow> l \<in> set ls \<and> \<not> bs_Lower l)
    \<and> (\<forall>k \<in> set ls. if bs_Lower k then \<exists>l. fst st = Some l \<and> least_met k \<le> least_met l
         else \<exists>l. snd st = Some l \<and> least_met l \<le> least_met k)"
  using assms(1) unfolding st_def
proof (induction ls rule: rev_induct)
  case (snoc a ls)
  obtain lo hi where st: "fold tighter ls (None, None) = (lo, hi)" by (cases "fold tighter ls (None, None)")
  have IH: "\<forall>l. lo = Some l \<longrightarrow> l \<in> set ls \<and> bs_Lower l" "\<forall>l. hi = Some l \<longrightarrow> l \<in> set ls \<and> \<not> bs_Lower l"
    "\<forall>k \<in> set ls. if bs_Lower k then \<exists>l. lo = Some l \<and> least_met k \<le> least_met l else \<exists>l. hi = Some l \<and> least_met l \<le> least_met k"
    using snoc.IH snoc.prems unfolding st fst_conv snd_conv by simp_all
  have pl: "placed a" "\<And>l. l \<in> set ls \<Longrightarrow> placed l" using snoc.prems by (auto simp: list_all_iff)
  show ?case
  proof (cases "bs_Lower a")
    case True
    then have "fold tighter (ls @ [a]) (None, None) = (case lo of None \<Rightarrow> (Some a, hi) | Some l \<Rightarrow> if least_met l < least_met a then (Some a, hi) else (lo, hi))"
      using pl IH(1) by (auto simp: st tighter_def placed_def Let_def split: option.splits)
    then show ?thesis using True IH by (auto split: option.splits)
  next
    case False
    then have "fold tighter (ls @ [a]) (None, None) = (case hi of None \<Rightarrow> (lo, Some a) | Some l \<Rightarrow> if least_met a < least_met l then (lo, Some a) else (lo, hi))"
      using pl IH(2) by (auto simp: st tighter_def placed_def Let_def split: option.splits)
    then show ?thesis using False IH by (auto split: option.splits)
  qed
qed simp

lemma fold_tighter_inv:
  assumes "list_all placed ls"
  shows "fst (fold tighter ls (None, None)) = Some l \<Longrightarrow> l \<in> set ls \<and> bs_Lower l"
    and "snd (fold tighter ls (None, None)) = Some l \<Longrightarrow> l \<in> set ls \<and> \<not> bs_Lower l"
    and "k \<in> set ls \<Longrightarrow> bs_Lower k \<Longrightarrow> \<exists>l. fst (fold tighter ls (None, None)) = Some l \<and> least_met k \<le> least_met l"
    and "k \<in> set ls \<Longrightarrow> \<not> bs_Lower k \<Longrightarrow> \<exists>l. snd (fold tighter ls (None, None)) = Some l \<and> least_met l \<le> least_met k"
  using fold_tighter_all [OF assms] by (blast, blast, meson, meson)

section \<open>The least multiple\<close>

lemma least_multiple:
  assumes "d > 0"
  shows "d dvd least_multiple d a" and "a \<le> least_multiple d a" and "d dvd n \<Longrightarrow> a \<le> n \<Longrightarrow> least_multiple d a \<le> n"
proof -
  have eq: "least_multiple d a = a + (- a) mod d"
    using mult_div_mod_eq [of d "- a"] by (simp only: least_multiple_def mult_minus_left mult.commute [of _ d])
  show "d dvd least_multiple d a" by (simp add: least_multiple_def)
  show "a \<le> least_multiple d a" unfolding eq using assms by simp
  assume n: "d dvd n" "a \<le> n"
  then obtain k where k: "n = d * k" by blast
  have "- k \<le> (- a) div d" using zdiv_mono1 [of "d * - k" "- a" d] n(2) assms by (simp add: k del: mult_minus_right)
  then have "- ((- a) div d) * d \<le> k * d" using assms by (intro mult_right_mono) auto
  then show "least_multiple d a \<le> n" by (simp add: least_multiple_def k mult.commute)
qed

lemma least_in_domain:
  fixes m :: int
  assumes "m > 0" "\<And>n. m dvd n \<longleftrightarrow> Q n" "\<And>n. a \<le> n \<and> n \<le> z \<longleftrightarrow> R n"
  shows "least_multiple m a \<le> z \<longleftrightarrow> (\<exists>n. R n \<and> Q n)"
  unfolding assms(2,3) [symmetric] using least_multiple(1,2) [OF assms(1), of a] least_multiple(3) [OF assms(1)] by (meson order_trans)

lemma fold_lcm:
  fixes m :: int
  assumes "m > 0" "\<forall>x \<in> set ds. snd (snd x) > 0"
  defines "r \<equiv> foldl (\<lambda>m (_, _, n). m * (n div gcd m n)) m ds"
  shows "r > 0 \<and> (\<forall>n. r dvd n \<longleftrightarrow> m dvd n \<and> (\<forall>x \<in> set ds. snd (snd x) dvd n))"
  using assms(1,2) unfolding r_def
proof (induction ds arbitrary: m)
  case (Cons x ds)
  obtain p t k where x: "x = (p, t, k)" by (cases x)
  have k: "k > 0" using Cons.prems x by simp
  have "m * (k div gcd m k) = lcm m k"
    using Cons.prems(1) k by (simp add: lcm_int_def [symmetric] lcm_altdef_int div_mult_swap)
  then show ?case using Cons.IH [of "lcm m k"] Cons.prems k by (simp add: x lcm_pos_int)
qed simp


section \<open>Domains\<close>

text \<open>The divisors of sites on the values of a primitive.\<close>

definition divisors :: "(rune \<Rightarrow> bool) \<Rightarrow> string \<Rightarrow> constraintSite list \<Rightarrow> int set" where
  "divisors P prim sites =
     (\<lambda>x. snd (snd x)) ` set (List.map_filter (site_divisor P (scaleOf prim ''value'')) sites)"

text \<open>The values of a primitive that meet every limit and are multiples of every divisor.\<close>

definition domain :: "int \<Rightarrow> int \<Rightarrow> limit list \<Rightarrow> int set \<Rightarrow> int set" where
  "domain lo hi ls ds = {n. lo \<le> n \<and> n \<le> hi \<and> (\<forall>l \<in> set ls. meets l n) \<and> (\<forall>d \<in> ds. d dvd n)}"

lemma site_divisor_pos: "site_divisor P sc s = Some (p, t, k) \<Longrightarrow> k > 0"
proof -
  assume "site_divisor P sc s = Some (p, t, k)"
  then obtain r where "snd (quotient_of r) = 1" "r > 0" "k = fst (quotient_of r)"
    by (auto simp: site_divisor_def split: option.splits if_splits)
  with whole_quotient [of r] show "k > 0" by (metis of_int_0_less_iff)
qed

lemma limit_of_bound:
  "meets (mk_limit b of' sc q no) n = meets b n" "least_met (mk_limit b of' sc q no) = least_met b"
  by (simp_all add: meets_def least_met_def Let_def)

lemma divisors_pos: "d \<in> divisors P prim sites \<Longrightarrow> d > 0"
  unfolding divisors_def List.map_filter_def using site_divisor_pos by (fastforce split: prod.splits)

text \<open>Bounds on the scale that are not past it, as limits of their sites.\<close>

definition in_scale :: "int \<Rightarrow> int \<Rightarrow> bound \<Rightarrow> bool" where
  "in_scale lo hi b \<longleftrightarrow> on_scale lo hi b \<and> (if bs_Lower b then least_met b \<le> hi else lo \<le> least_met b)"

lemma in_scale_range: "in_scale lo hi b \<Longrightarrow> lo - 1 \<le> least_met b \<and> least_met b \<le> hi + 1"
  by (auto simp: in_scale_def on_scale_def least_met_def rat_of_def Let_def)

lemma in_scale_ge: "in_scale lo hi b \<Longrightarrow> bs_Lower b \<Longrightarrow> lo \<le> least_met b" "in_scale lo hi b \<Longrightarrow> \<not> bs_Lower b \<Longrightarrow> least_met b \<le> hi"
  by (auto simp: in_scale_def on_scale_def least_met_def rat_of_def Let_def split: if_splits)

abbreviation site_bounds :: "(rune \<Rightarrow> bool) \<Rightarrow> constraintSite list \<Rightarrow> bound set" where
  "site_bounds P sites \<equiv> (\<Union>s \<in> set sites. set (declaredBounds P (cs_decs s)))"

definition site_limit :: "string \<Rightarrow> string \<Rightarrow> bound \<Rightarrow> limit" where
  "site_limit prim of' b = limitOn (scaleOf prim (b_limits b)) b of'"

lemma set_siteLimits:
  "set (siteLimits P prim sites) = (\<Union>s \<in> set sites. site_limit prim (cs_of s) ` set (declaredBounds P (cs_decs s)))"
  by (auto simp: siteLimits_def site_limit_def)

lemma site_limit_sel [simp]:
  assumes "Capacity prim = Some (lo, hi)" "on_scale lo hi b"
  shows "bs_Lower (site_limit prim of' b) = bs_Lower b" "bs_Strict (site_limit prim of' b) = bs_Strict b"
    "b_dec (site_limit prim of' b) = b_dec b" "b_limits (site_limit prim of' b) = ''value''"
    "b_value (site_limit prim of' b) = b_value b" "l_of (site_limit prim of' b) = of'"
    "l_sc (site_limit prim of' b) = scaleOf prim ''value''"
    "least_met (site_limit prim of' b) = least_met b" "meets (site_limit prim of' b) n = meets b n"
    "l_none (site_limit prim of' b) = (\<not> in_scale lo hi b)"
    "l_at (site_limit prim of' b) = (if in_scale lo hi b then Some (of_int (least_met b)) else None)"
  using assms(2) limitOn_on_scale [OF assms] by (auto simp: site_limit_def limit_of_bound in_scale_def on_scale_def split: if_splits)

lemma site_limit_placed: "Capacity prim = Some (lo, hi) \<Longrightarrow> in_scale lo hi b \<Longrightarrow> placed (site_limit prim of' b)"
  by (simp add: placed_def in_scale_def)

text \<open>The range that the tightest limits leave.\<close>

lemma tight_range:
  assumes cap: "Capacity prim = Some (lo, hi)" and b: "\<forall>b \<in> site_bounds P sites. in_scale lo hi b" and le: "lo \<le> hi"
  defines "st \<equiv> fold tighter (siteLimits P prim sites) (None, None)"
  defines "from' \<equiv> (case fst st of Some l \<Rightarrow> the (l_at l) | None \<Rightarrow> of_int lo)"
  defines "to' \<equiv> (case snd st of Some l \<Rightarrow> the (l_at l) | None \<Rightarrow> of_int hi)"
  obtains a z where "from' = of_int a" "to' = of_int z"
    "\<And>n. a \<le> n \<and> n \<le> z \<longleftrightarrow> lo \<le> n \<and> n \<le> hi \<and> (\<forall>b \<in> site_bounds P sites. meets b n)"
    "\<And>l. fst st = Some l \<Longrightarrow> l \<in> set (siteLimits P prim sites) \<and> bs_Lower l \<and> a = least_met l"
    "\<And>l. snd st = Some l \<Longrightarrow> l \<in> set (siteLimits P prim sites) \<and> \<not> bs_Lower l \<and> z = least_met l"
proof -
  have on: "on_scale lo hi b" if "b \<in> site_bounds P sites" for b using b that by (auto simp: in_scale_def)
  have pl: "list_all placed (siteLimits P prim sites)"
    using b site_limit_placed [OF cap] by (auto simp: list_all_iff set_siteLimits)
  note inv = fold_tighter_inv [OF pl, folded st_def]
  define a where "a = (case fst st of Some l \<Rightarrow> least_met l | None \<Rightarrow> lo)"
  define z where "z = (case snd st of Some l \<Rightarrow> least_met l | None \<Rightarrow> hi)"
  have placed: "placed l" if "l \<in> set (siteLimits P prim sites)" for l using pl that by (auto simp: list_all_iff)
  have az: "from' = of_int a" "to' = of_int z"
    using inv placed by (auto simp: from'_def to'_def a_def z_def placed_def split: option.splits)
  have iff: "a \<le> n \<and> n \<le> z \<longleftrightarrow> lo \<le> n \<and> n \<le> hi \<and> (\<forall>b \<in> site_bounds P sites. meets b n)" for n
  proof -
    have met: "meets b n \<longleftrightarrow> (if bs_Lower b then least_met b \<le> n else n \<le> least_met b)" if "b \<in> site_bounds P sites" for b
      using on_scale_meets [OF on [OF that]] .
    have limit: "\<exists>l \<in> set (siteLimits P prim sites). bs_Lower l = bs_Lower b \<and> least_met l = least_met b"
      if "b \<in> site_bounds P sites" for b
      using that on [OF that] cap by (auto simp: set_siteLimits) (metis site_limit_sel(1,8))
    have bound: "\<exists>b \<in> site_bounds P sites. bs_Lower b = bs_Lower l \<and> least_met b = least_met l"
      if l: "l \<in> set (siteLimits P prim sites)" for l
    proof -
      obtain s b where s: "s \<in> set sites" "b \<in> set (declaredBounds P (cs_decs s))" and b: "l = site_limit prim (cs_of s) b"
        using l by (auto simp: set_siteLimits)
      have m: "b \<in> site_bounds P sites" using s by blast
      show ?thesis by (rule bexI [OF _ m]) (use site_limit_sel(1,8) [OF cap on [OF m]] in \<open>simp add: b\<close>)
    qed
    show ?thesis
    proof
      assume n: "a \<le> n \<and> n \<le> z"
      have "lo \<le> a" "z \<le> hi"
        using inv bound b in_scale_ge by (auto simp: a_def z_def split: option.splits) metis+
      moreover have "meets b n" if m: "b \<in> site_bounds P sites" for b
      proof -
        obtain l where l: "l \<in> set (siteLimits P prim sites)" "bs_Lower l = bs_Lower b" "least_met l = least_met b"
          using limit [OF m] by blast
        have "least_met b \<le> a" if "bs_Lower b" using inv(3) [OF l(1)] l that by (auto simp: a_def)
        moreover have "z \<le> least_met b" if "\<not> bs_Lower b" using inv(4) [OF l(1)] l that by (auto simp: z_def)
        ultimately show ?thesis using n met [OF m] by auto
      qed
      ultimately show "lo \<le> n \<and> n \<le> hi \<and> (\<forall>b \<in> site_bounds P sites. meets b n)" using n by auto
    next
      assume n: "lo \<le> n \<and> n \<le> hi \<and> (\<forall>b \<in> site_bounds P sites. meets b n)"
      have "least_met l \<le> n" if "fst st = Some l" for l using inv that bound [of l] met n by (metis (full_types))
      moreover have "n \<le> least_met l" if "snd st = Some l" for l using inv that bound [of l] met n by (metis (full_types))
      ultimately show "a \<le> n \<and> n \<le> z" using n by (auto simp: a_def z_def split: option.splits)
    qed
  qed
  show thesis
    by (rule that [OF az iff]) (use inv in \<open>auto simp: a_def z_def\<close>)
qed


section \<open>Silence and the domain\<close>

text \<open>The two ends a decorator puts are in order, as the argument checks have it.\<close>

definition ordered_ends :: "bound set \<Rightarrow> bool" where
  "ordered_ends B \<longleftrightarrow>
     (\<forall>b \<in> B. \<forall>c \<in> B. b_dec b = b_dec c \<and> bs_Lower b \<and> \<not> bs_Lower c \<longrightarrow> rat_of (b_value b) \<le> rat_of (b_value c))"

lemma declared_bounds_in: "b \<in> set (declared_bounds P seen ds) \<Longrightarrow> \<exists>d \<in> set ds. b \<in> set (decorator_bounds P d)"
  by (induction P seen ds rule: declared_bounds.induct) (auto split: if_splits)

lemma boundDecorators_ends:
  "list_all (\<lambda>(_, _, sides). list_all (\<lambda>s. list_all (\<lambda>t. bs_Lower s \<noteq> bs_Lower t \<longrightarrow> \<not> bs_Strict s) sides) sides) boundDecorators"
  by code_simp

lemma boundDecorators_sides: "list_all (\<lambda>(_, _, sides). sides \<noteq> []) boundDecorators"
  by code_simp

lemma decorator_bounds_side:
  assumes "b \<in> set (decorator_bounds P d)"
  obtains limits sides side where "map_of boundDecorators (dec_Name d) = Some (limits, sides)" "side \<in> set sides"
    "bs_Lower b = bs_Lower side" "bs_Strict b = bs_Strict side" "b_dec b = d" "b_limits b = limits"
proof -
  obtain limits sides where ls: "map_of boundDecorators (dec_Name d) = Some (limits, sides)"
    using assms by (cases "map_of boundDecorators (dec_Name d)") (auto simp: decorator_bounds_def)
  then have "sides \<noteq> []" using boundDecorators_sides map_of_SomeD [OF ls] by (auto simp: list_all_iff)
  then have "\<exists>side \<in> set sides. bs_Lower b = bs_Lower side \<and> bs_Strict b = bs_Strict side \<and> b_dec b = d \<and> b_limits b = limits"
    using assms ls by (auto simp: decorator_bounds_def mk_bound_def Let_def split: option.splits if_splits dest: set_zip_leftD)
  with ls that show thesis by blast
qed

lemma ends_inclusive:
  assumes "b \<in> set (declaredBounds P ds)" "c \<in> set (declaredBounds P es)" "b_dec b = b_dec c" "bs_Lower b \<noteq> bs_Lower c"
  shows "\<not> bs_Strict b \<and> \<not> bs_Strict c"
proof -
  obtain d e where "b \<in> set (decorator_bounds P d)" "c \<in> set (decorator_bounds P e)"
    using assms(1,2) declared_bounds_in unfolding declaredBounds_def by blast
  then obtain sides s1 s2 where sides: "(dec_Name d, b_limits b, sides) \<in> set boundDecorators" "s1 \<in> set sides" "s2 \<in> set sides"
    and s1: "bs_Lower b = bs_Lower s1" "bs_Strict b = bs_Strict s1" and s2: "bs_Lower c = bs_Lower s2" "bs_Strict c = bs_Strict s2"
    using assms(3) by (elim decorator_bounds_side) (metis map_of_SomeD option.inject prod.inject)
  have "bs_Lower s \<noteq> bs_Lower t \<longrightarrow> \<not> bs_Strict s" if "s \<in> set sides" "t \<in> set sides" for s t
    using boundDecorators_ends sides(1) that unfolding list_all_iff by blast
  with sides(2,3) s1 s2 assms(4) show ?thesis by auto
qed

lemma ordered_least:
  assumes ord: "ordered_ends (site_bounds P sites)"
    and b: "b \<in> site_bounds P sites" and c: "c \<in> site_bounds P sites" and "b_dec b = b_dec c" "bs_Lower b" "\<not> bs_Lower c"
  shows "least_met b \<le> least_met c"
proof -
  have "\<not> bs_Strict b \<and> \<not> bs_Strict c" using b c assms(4-6) ends_inclusive by (metis UN_E)
  moreover have "rat_of (b_value b) \<le> rat_of (b_value c)" using ord b c assms(4-6) unfolding ordered_ends_def by blast
  ultimately show ?thesis by (simp add: least_met_def floor_mono)
qed

lemma contradiction_none:
  assumes cap: "Capacity prim = Some (lo, hi)" and b: "in_scale lo hi b" and c: "in_scale lo hi c"
    and lower: "bs_Lower b" "\<not> bs_Lower c"
  shows "contradiction (site_limit prim o1 b) (site_limit prim o2 c) = None \<longleftrightarrow> least_met b \<le> least_met c"
proof -
  obtain v w where "Rat (b_value b) = Some (of_int v)" "Rat (b_value c) = Some (of_int w)"
    using b c by (auto simp: in_scale_def on_scale_def)
  then show ?thesis using b c lower site_limit_sel [OF cap, of b] site_limit_sel [OF cap, of c]
    by (auto simp: contradiction_def Cmp_def rat_of_def in_scale_def least_met_def Let_def)
qed

text \<open>Where no bound is past the scale, the pairs are silent exactly when every lower end is below every upper one.\<close>

lemma pairs_silent:
  assumes cap: "Capacity prim = Some (lo, hi)" and b: "\<forall>b \<in> site_bounds P sites. in_scale lo hi b"
  shows "reportContradictingPairs P (siteLimits P prim sites) = [] \<longleftrightarrow>
    (\<forall>s \<in> set sites. \<forall>t \<in> set sites. \<forall>b \<in> set (declaredBounds P (cs_decs s)). \<forall>c \<in> set (declaredBounds P (cs_decs t)).
       bs_Lower b \<and> \<not> bs_Lower c \<and> b_dec b \<noteq> b_dec c \<and> \<not> (cs_of s \<noteq> [] \<and> cs_of t \<noteq> []) \<longrightarrow> least_met b \<le> least_met c)"
proof -
  have pair: "contradicting_pair P (site_limit prim (cs_of s) b) (site_limit prim (cs_of t) c) = [] \<longleftrightarrow>
      (bs_Lower b \<and> \<not> bs_Lower c \<and> b_dec b \<noteq> b_dec c \<and> \<not> (cs_of s \<noteq> [] \<and> cs_of t \<noteq> []) \<longrightarrow> least_met b \<le> least_met c)"
    if "s \<in> set sites" "t \<in> set sites" "b \<in> set (declaredBounds P (cs_decs s))" "c \<in> set (declaredBounds P (cs_decs t))" for s t b c
  proof -
    have bc: "in_scale lo hi b" "in_scale lo hi c" using assms(2) that by auto
    then have on: "on_scale lo hi b" "on_scale lo hi c" by (simp_all add: in_scale_def)
    show ?thesis
      using contradiction_none [OF cap bc, of "cs_of s" "cs_of t"] site_limit_sel [OF cap on(1)] site_limit_sel [OF cap on(2)]
      by (auto simp: contradicting_pair_def Let_def split: option.splits)
  qed
  show ?thesis unfolding reportContradictingPairs_def using pair by (auto simp: set_siteLimits)
qed


lemma past_scale_silent:
  assumes cap: "Capacity prim = Some (lo, hi)" and b: "\<forall>b \<in> site_bounds P sites. on_scale lo hi b"
  shows "reportLimitsPastScale P prim (siteLimits P prim sites) = [] \<longleftrightarrow>
    (\<forall>s \<in> set sites. cs_of s = [] \<longrightarrow> (\<forall>b \<in> set (declaredBounds P (cs_decs s)). in_scale lo hi b))"
proof -
  have one: "past_scale P prim (site_limit prim (cs_of s) b) = [] \<longleftrightarrow> cs_of s \<noteq> [] \<or> in_scale lo hi b"
    if "s \<in> set sites" "b \<in> set (declaredBounds P (cs_decs s))" for s b
  proof -
    have "on_scale lo hi b" using assms(2) that by auto
    from site_limit_sel [OF cap this] show ?thesis by (simp add: past_scale_def)
  qed
  show ?thesis unfolding reportLimitsPastScale_def using one by (auto simp: set_siteLimits)
qed

text \<open>
  The multiples: some part belongs to the checked site, and the least multiple of every divisor
  from the lowest value on is within the highest.
\<close>

definition own_part :: "(rune \<Rightarrow> bool) \<Rightarrow> string \<Rightarrow> constraintSite list \<Rightarrow> bool" where
  "own_part P prim sites \<longleftrightarrow>
     (\<exists>x \<in> set (List.map_filter (site_divisor P (scaleOf prim ''value'')) sites). pt_of (fst x) = [])
     \<or> (\<exists>l. fst (fold tighter (siteLimits P prim sites) (None, None)) = Some l \<and> l_of l = [])
     \<or> (\<exists>l. snd (fold tighter (siteLimits P prim sites) (None, None)) = Some l \<and> l_of l = [])"

lemma multiples_silent:
  assumes cap: "Capacity prim = Some (lo, hi)" and b: "\<forall>b \<in> site_bounds P sites. in_scale lo hi b" and le: "lo \<le> hi"
  shows "reportNoMultiple P prim sites (siteLimits P prim sites) = [] \<longleftrightarrow>
    divisors P prim sites = {} \<or> \<not> own_part P prim sites
    \<or> (\<exists>n. lo \<le> n \<and> n \<le> hi \<and> (\<forall>b \<in> site_bounds P sites. meets b n) \<and> (\<forall>d \<in> divisors P prim sites. d dvd n))"
proof -
  let ?divs = "List.map_filter (site_divisor P (scaleOf prim ''value'')) sites"
  let ?st = "fold tighter (siteLimits P prim sites) (None, None)"
  let ?m = "foldl (\<lambda>m (_, _, n). m * (n div gcd m n)) 1 ?divs"
  have sc: "sc_whole (scaleOf prim ''value'')" "sc_lo (scaleOf prim ''value'') = Some (of_int lo)" "sc_hi (scaleOf prim ''value'') = Some (of_int hi)"
    using cap by (simp_all add: scaleOf_def)
  have "\<forall>x \<in> set ?divs. snd (snd x) > 0" using divisors_pos unfolding divisors_def by blast
  from fold_lcm [OF _ this, of 1] have m: "?m > 0" "\<And>n. ?m dvd n \<longleftrightarrow> (\<forall>d \<in> divisors P prim sites. d dvd n)"
    by (auto simp: divisors_def)
  obtain a z where az: "(case fst ?st of Some l \<Rightarrow> the (l_at l) | None \<Rightarrow> of_int lo) = of_int a"
    "(case snd ?st of Some l \<Rightarrow> the (l_at l) | None \<Rightarrow> of_int hi) = of_int z"
    and iff: "\<And>n. a \<le> n \<and> n \<le> z \<longleftrightarrow> lo \<le> n \<and> n \<le> hi \<and> (\<forall>b \<in> site_bounds P sites. meets b n)"
    by (rule tight_range [OF cap b le]) (rule that)
  have least: "least_multiple ?m a \<le> z \<longleftrightarrow>
      (\<exists>n. lo \<le> n \<and> n \<le> hi \<and> (\<forall>b \<in> site_bounds P sites. meets b n) \<and> (\<forall>d \<in> divisors P prim sites. d dvd n))"
    unfolding least_in_domain [OF m iff] conj_assoc ..
  obtain lo' hi' where st: "?st = (lo', hi')" by (cases ?st)
  have own: "find (\<lambda>p. pt_of p = []) (map fst ?divs @ map limit_part ((case lo' of Some l \<Rightarrow> [l] | None \<Rightarrow> [])
      @ (case hi' of Some l \<Rightarrow> [l] | None \<Rightarrow> []))) = None \<longleftrightarrow> \<not> own_part P prim sites"
    unfolding find_None_iff own_part_def st by (auto simp: limit_part_def split: option.splits)
  have none: "divisors P prim sites = {} \<longleftrightarrow> ?divs = []" by (simp add: divisors_def)
  show ?thesis
  proof (cases "?divs = []")
    case True
    then show ?thesis by (simp add: none reportNoMultiple_def)
  next
    case False
    note az' = az [unfolded st fst_conv snd_conv]
    show ?thesis
      unfolding none least [symmetric] own [symmetric] reportNoMultiple_def Let_def st prod.case sc option.sel az'
      using False sc(1) by (simp del: map_append split: option.split)
  qed
qed


section \<open>One site\<close>

lemma Capacity_le: "Capacity prim = Some (lo, hi) \<Longrightarrow> lo \<le> hi"
  by (auto simp: Capacity_def Let_def split: option.splits prim_kind.splits)

text \<open>Bounds consistent in pairs, none past the scale: the range they leave is not empty.\<close>

lemma consistent_range:
  assumes cap: "Capacity prim = Some (lo, hi)" and b: "\<forall>b \<in> site_bounds P sites. in_scale lo hi b"
    and pairs: "\<forall>b \<in> site_bounds P sites. \<forall>c \<in> site_bounds P sites. bs_Lower b \<and> \<not> bs_Lower c \<longrightarrow> least_met b \<le> least_met c"
  shows "\<exists>n. lo \<le> n \<and> n \<le> hi \<and> (\<forall>b \<in> site_bounds P sites. meets b n)"
proof -
  have met: "meets b n \<longleftrightarrow> (if bs_Lower b then least_met b \<le> n else n \<le> least_met b)" if "b \<in> site_bounds P sites" for b n
  proof -
    have "on_scale lo hi b" using assms(2) that unfolding in_scale_def by blast
    then show ?thesis by (rule on_scale_meets)
  qed
  define L where "L = least_met ` {b \<in> site_bounds P sites. bs_Lower b}"
  have fin: "finite (insert lo L)" by (simp add: L_def)
  define n where "n = Max (insert lo L)"
  have n: "n = lo \<or> n \<in> L" "lo \<le> n" "\<And>x. x \<in> L \<Longrightarrow> x \<le> n"
    using Max_in [OF fin] Max_ge [OF fin] by (auto simp: n_def)
  have "n \<le> hi" using n(1) b Capacity_le [OF cap] by (auto simp: L_def in_scale_def)
  moreover have "meets c n" if c: "c \<in> site_bounds P sites" for c
  proof (cases "bs_Lower c")
    case True
    then show ?thesis using met [OF c] n(3) c by (auto simp: L_def)
  next
    case False
    have "lo \<le> least_met c" using b c False by (auto simp: in_scale_def)
    then have "n \<le> least_met c" using n(1) pairs c False unfolding L_def by blast
    then show ?thesis using met [OF c] False by simp
  qed
  ultimately show ?thesis using n(2) by blast
qed

lemma single_own_part:
  assumes "cs_of s = []" "divisors P prim [s] \<noteq> {}"
  shows "own_part P prim [s]"
proof -
  obtain x where x: "site_divisor P (scaleOf prim ''value'') s = Some x"
    using assms(2) by (auto simp: divisors_def List.map_filter_def split: if_splits)
  then have "pt_of (fst x) = []" using assms(1) by (auto simp: site_divisor_def split: option.splits if_splits)
  then show ?thesis using x by (cases x) (auto simp: own_part_def List.map_filter_def)
qed

lemma single_site:
  assumes cap: "Capacity prim = Some (lo, hi)" and own: "cs_of s = []"
    and on: "\<forall>b \<in> site_bounds P [s]. on_scale lo hi b" and ord: "ordered_ends (site_bounds P [s])"
  shows "checkValueDomain P prim [s] = [] \<longleftrightarrow>
    (\<exists>n. lo \<le> n \<and> n \<le> hi \<and> (\<forall>b \<in> site_bounds P [s]. meets b n) \<and> (\<forall>d \<in> divisors P prim [s]. d dvd n))"
  (is "_ \<longleftrightarrow> (\<exists>n. ?dom n)")
proof
  let ?ls = "siteLimits P prim [s]"
  assume "checkValueDomain P prim [s] = []"
  then have silent: "reportContradictingPairs P ?ls = []" "reportLimitsPastScale P prim ?ls = []" "reportNoMultiple P prim [s] ?ls = []"
    by (auto simp: checkValueDomain_def Let_def split: if_splits)
  have in': "\<forall>b \<in> site_bounds P [s]. in_scale lo hi b" using past_scale_silent [OF cap on] silent(2) own by simp
  have "\<forall>b \<in> site_bounds P [s]. \<forall>c \<in> site_bounds P [s]. bs_Lower b \<and> \<not> bs_Lower c \<longrightarrow> least_met b \<le> least_met c"
  proof (intro ballI impI)
    fix b c assume b: "b \<in> site_bounds P [s]" "c \<in> site_bounds P [s]" "bs_Lower b \<and> \<not> bs_Lower c"
    show "least_met b \<le> least_met c"
    proof (cases "b_dec b = b_dec c")
      case True
      then show ?thesis using ordered_least [OF ord b(1,2)] b(3) by blast
    next
      case False
      then show ?thesis using pairs_silent [OF cap in', THEN iffD1, OF silent(1)] b own by simp
    qed
  qed
  from consistent_range [OF cap in' this] obtain n where n: "lo \<le> n \<and> n \<le> hi \<and> (\<forall>b \<in> site_bounds P [s]. meets b n)" by blast
  show "\<exists>n. ?dom n"
  proof (cases "divisors P prim [s] = {}")
    case True
    with n show ?thesis by auto
  next
    case False
    then show ?thesis
      using multiples_silent [OF cap in' Capacity_le [OF cap]] silent(3) single_own_part [OF own False] by blast
  qed
next
  assume "\<exists>n. ?dom n"
  then obtain n where n: "?dom n" by blast
  have met: "(if bs_Lower b then least_met b \<le> n else n \<le> least_met b)" if "b \<in> site_bounds P [s]" for b
    using n on_scale_meets on that by blast
  have in': "\<forall>b \<in> site_bounds P [s]. in_scale lo hi b"
  proof
    fix b assume m: "b \<in> site_bounds P [s]"
    have "on_scale lo hi b" using on m by (rule bspec)
    then show "in_scale lo hi b" using met [OF m] n by (auto simp: in_scale_def split: if_splits)
  qed
  have "reportContradictingPairs P (siteLimits P prim [s]) = []"
    unfolding pairs_silent [OF cap in']
  proof (intro ballI impI, elim conjE)
    fix x t b c assume "x \<in> set [s]" "t \<in> set [s]" "b \<in> set (declaredBounds P (cs_decs x))"
      "c \<in> set (declaredBounds P (cs_decs t))" "bs_Lower b" "\<not> bs_Lower c"
    then show "least_met b \<le> least_met c" using met [of b] met [of c] by (auto split: if_splits)
  qed
  moreover have "reportLimitsPastScale P prim (siteLimits P prim [s]) = []"
    using past_scale_silent [OF cap on] in' by simp
  moreover have "reportNoMultiple P prim [s] (siteLimits P prim [s]) = []"
    using multiples_silent [OF cap in' Capacity_le [OF cap]] n by blast
  ultimately show "checkValueDomain P prim [s] = []" by (simp add: checkValueDomain_def)
qed


section \<open>A field over a scalar\<close>

lemma two_sites:
  assumes cap: "Capacity prim = Some (lo, hi)" and f: "cs_of f = []" and s: "cs_of s \<noteq> []"
    and on: "\<forall>b \<in> site_bounds P [f, s]. on_scale lo hi b" and ord: "ordered_ends (site_bounds P [f, s])"
    and field: "checkValueDomain P prim [f, s] = []"
    and scalar: "\<exists>n. lo \<le> n \<and> n \<le> hi \<and> (\<forall>b \<in> site_bounds P [s]. meets b n) \<and> (\<forall>d \<in> divisors P prim [s]. d dvd n)"
  shows "\<exists>n. lo \<le> n \<and> n \<le> hi \<and> (\<forall>b \<in> site_bounds P [f, s]. meets b n) \<and> (\<forall>d \<in> divisors P prim [f, s]. d dvd n)"
proof -
  let ?ls = "siteLimits P prim [f, s]" and ?B = "site_bounds P [f, s]"
  have silent: "reportContradictingPairs P ?ls = []" "reportLimitsPastScale P prim ?ls = []" "reportNoMultiple P prim [f, s] ?ls = []"
    using field by (auto simp: checkValueDomain_def Let_def split: if_splits)
  obtain n where n: "lo \<le> n" "n \<le> hi" "\<forall>b \<in> site_bounds P [s]. meets b n" "\<forall>d \<in> divisors P prim [s]. d dvd n"
    using scalar by blast
  have met: "meets b k \<longleftrightarrow> (if bs_Lower b then least_met b \<le> k else k \<le> least_met b)" if "b \<in> ?B" for b k
    using on that on_scale_meets by blast
  have smet: "(if bs_Lower b then least_met b \<le> n else n \<le> least_met b)" if "b \<in> site_bounds P [s]" for b
    using met [of b n] n(3) that by auto
  have in': "\<forall>b \<in> ?B. in_scale lo hi b"
  proof
    fix b assume b: "b \<in> ?B"
    show "in_scale lo hi b"
    proof (cases "b \<in> site_bounds P [s]")
      case True
      then show ?thesis using on b smet [OF True] n(1,2) unfolding in_scale_def by (auto split: if_splits)
    next
      case False
      then show ?thesis using past_scale_silent [OF cap on] silent(2) f b by auto
    qed
  qed
  have pairs: "least_met b \<le> least_met c" if b: "b \<in> ?B" "c \<in> ?B" "bs_Lower b \<and> \<not> bs_Lower c" for b c
  proof (cases "b_dec b = b_dec c")
    case True
    then show ?thesis using ordered_least [OF ord b(1,2)] b(3) by blast
  next
    case False
    show ?thesis
    proof (cases "b \<in> site_bounds P [s] \<and> c \<in> site_bounds P [s]")
      case True
      then show ?thesis using smet [of b] smet [of c] b(3) by (auto split: if_splits)
    next
      case side: False
      then obtain x t where "x \<in> set [f, s]" "t \<in> set [f, s]" "b \<in> set (declaredBounds P (cs_decs x))"
        "c \<in> set (declaredBounds P (cs_decs t))" "\<not> (cs_of x \<noteq> [] \<and> cs_of t \<noteq> [])" using b(1,2) f by auto
      then show ?thesis using pairs_silent [OF cap in', THEN iffD1, OF silent(1)] b(3) False by blast
    qed
  qed
  show ?thesis
  proof (cases "divisors P prim [f, s] = {}")
    case True
    then show ?thesis using consistent_range [OF cap in'] pairs by auto
  next
    case False
    show ?thesis
    proof (cases "own_part P prim [f, s]")
      case True
      then show ?thesis using multiples_silent [OF cap in' Capacity_le [OF cap]] silent(3) False by blast
    next
      case no: False
      have on': "on_scale lo hi b" if "b \<in> ?B" for b using on that by blast
      have "site_divisor P (scaleOf prim ''value'') f = None"
      proof (rule ccontr)
        assume "site_divisor P (scaleOf prim ''value'') f \<noteq> None"
        then obtain x where x: "site_divisor P (scaleOf prim ''value'') f = Some x" by blast
        then have "pt_of (fst x) = []" using f by (auto simp: site_divisor_def split: option.splits if_splits)
        then show False using no x by (cases x) (auto simp: own_part_def List.map_filter_def)
      qed
      then have divs: "divisors P prim [f, s] = divisors P prim [s]" by (simp add: divisors_def List.map_filter_def)
      have pl: "list_all placed ?ls" using in' site_limit_placed [OF cap] by (auto simp: list_all_iff set_siteLimits)
      have tight: "if bs_Lower l then least_met l \<le> n else n \<le> least_met l" if l: "l \<in> set ?ls" "l_of l \<noteq> []" for l
      proof -
        obtain b where b: "b \<in> set (declaredBounds P (cs_decs s))" and eq: "l = site_limit prim (cs_of s) b"
          using l on' f cap by (auto simp: set_siteLimits)
        show ?thesis using smet [of b] b site_limit_sel(1,8) [OF cap on' [of b]] by (simp add: eq)
      qed
      have "meets b n" if b: "b \<in> ?B" for b
      proof (cases "b \<in> site_bounds P [s]")
        case True
        then show ?thesis using n(3) by blast
      next
        case False
        let ?k = "site_limit prim [] b"
        have k: "?k \<in> set ?ls" "bs_Lower ?k = bs_Lower b" "least_met ?k = least_met b"
          using b False f site_limit_sel(1,8) [OF cap on' [OF b]] by (auto simp: set_siteLimits)
        show ?thesis
        proof (cases "bs_Lower b")
          case True
          then obtain l where l: "fst (fold tighter ?ls (None, None)) = Some l" "least_met b \<le> least_met l"
            using fold_tighter_inv(3) [OF pl k(1)] k by auto
          then have "least_met l \<le> n" using tight [of l] fold_tighter_inv(1) [OF pl l(1)] no unfolding own_part_def by auto
          then show ?thesis using met [OF b, of n] l(2) True by simp
        next
          case up: False
          then obtain l where l: "snd (fold tighter ?ls (None, None)) = Some l" "least_met l \<le> least_met b"
            using fold_tighter_inv(4) [OF pl k(1)] k by auto
          then have "n \<le> least_met l" using tight [of l] fold_tighter_inv(2) [OF pl l(1)] no unfolding own_part_def by auto
          then show ?thesis using met [OF b, of n] l(2) up by simp
        qed
      qed
      then show ?thesis using n(1,2,4) divs by auto
    qed
  qed
qed


section \<open>The argument checks\<close>

lemma value_specs:
  "list_all (\<lambda>(name, limits, sides). limits = ''value'' \<longrightarrow> (case DecoratorSpec name of
       None \<Rightarrow> False
     | Some sp \<Rightarrow> sp_Constraint sp = {ConstraintNumeric} \<and> name \<noteq> ''length''
         \<and> (ar_Max (sp_Args sp) = 0 \<or> ar_Min (sp_Args sp) = length sides \<and> ar_Max (sp_Args sp) = int (length sides)))) boundDecorators"
  by code_simp

text \<open>The literal of a bound on a value: 0, or an argument the numeric checks read.\<close>

lemma value_bound_arg:
  assumes b: "b \<in> set (decorator_bounds P d)" and lim: "b_limits b = ''value''"
  shows "b_value b = zeroLit \<or> (\<exists>a \<in> set (numericArgs d). ParseNumericArg (Some a) = Some (b_value b))"
proof -
  obtain sides where m: "map_of boundDecorators (dec_Name d) = Some (''value'', sides)"
    using b lim by (auto elim!: decorator_bounds_side)
  obtain sp where sp: "DecoratorSpec (dec_Name d) = Some sp" "sp_Constraint sp = {ConstraintNumeric}" "dec_Name d \<noteq> ''length''"
    "ar_Max (sp_Args sp) = 0 \<or> ar_Min (sp_Args sp) = length sides \<and> ar_Max (sp_Args sp) = int (length sides)"
    using value_specs map_of_SomeD [OF m] by (fastforce simp: list_all_iff split: option.splits)
  show ?thesis
  proof (cases "ar_Max (sp_Args sp) = 0")
    case True
    then show ?thesis using b m sp by (simp add: decorator_bounds_def mk_bound_def)
  next
    case False
    then obtain args where args: "BoundArgs d = Some args"
      using b m sp by (cases "BoundArgs d") (auto simp: decorator_bounds_def)
    then have pos: "args = positionalArgs d" "length args = length sides"
      using m sp(3) by (auto simp: BoundArgs_def Let_def split: if_splits)
    then have num: "numericArgs d = args" using sp False by (simp add: numericArgs_def Let_def)
    have "zip (map (\<lambda>a. ParseNumericArg (Some a)) args) args = map (\<lambda>a. (ParseNumericArg (Some a), a)) args"
      by (simp add: zip_map1 zip_same_conv_map)
    then have "\<exists>a \<in> set args. ParseNumericArg (Some a) = Some (b_value b)"
      using b m sp False args by (auto simp: decorator_bounds_def mk_bound_def Let_def image_iff split: if_splits dest!: set_zip_rightD)
        (metis option.collapse)
    then show ?thesis by (simp add: num)
  qed
qed

lemma checks_on_scale:
  assumes cap: "Capacity prim = Some (lo, hi)" and over: "checkBoundCapacity prim ds = []"
    and whole: "checkIntBoundFloatLiteral prim subject ds = []"
    and b: "b \<in> set (declaredBounds P ds)" "b_limits b = ''value''"
  shows "on_scale lo hi b"
proof -
  obtain d where d: "d \<in> set ds" "b \<in> set (decorator_bounds P d)" using b(1) declared_bounds_in unfolding declaredBounds_def by blast
  have int: "IsInteger prim" and zero: "lo \<le> 0" "0 \<le> hi"
    using cap by (auto simp: Capacity_def IsInteger_def Let_def split: option.splits prim_kind.splits)
  show ?thesis
  proof (cases "b_value b = zeroLit")
    case True
    then show ?thesis using zero b(2) by (auto simp: on_scale_def zeroLit_def Rat_def intro!: exI [of _ 0])
  next
    case False
    then obtain a where a: "a \<in> set (numericArgs d)" "ParseNumericArg (Some a) = Some (b_value b)"
      using value_bound_arg [OF d(2) b(2)] by blast
    have "IsWhole (b_value b)" using whole int d(1) a by (fastforce simp: checkIntBoundFloatLiteral_def split: if_splits)
    then obtain v where v: "wholeInt (b_value b) = Some v" by (auto simp: IsWhole_def)
    then have "Rat (b_value b) = Some (of_int v)"
      using whole_quotient by (auto simp: wholeInt_def split: option.splits if_splits)
    moreover have "checkCapacity prim (b_value b) (da_Pos a) (''@'' @ dec_Name d @ '' bound'') = []"
      using over d(1) a by (fastforce simp: checkBoundCapacity_def)
    then have "lo \<le> v \<and> v \<le> hi" using cap v by (auto simp: checkCapacity_def split: if_splits)
    ultimately show ?thesis using b(2) by (auto simp: on_scale_def)
  qed
qed


section \<open>Examples\<close>

text \<open>A decorator with whole arguments, and the sites of a \<open>uint8\<close> of 3 to 10 that is a multiple of 4.\<close>

definition whole_decorator :: "nat \<Rightarrow> string \<Rightarrow> int list \<Rightarrow> Decorator" where
  "whole_decorator off name ns =
     (let pos = \<lparr>pos_Filename = [], pos_Offset = off, pos_Line = 1, pos_Column = off\<rparr>
      in \<lparr>dec_Pos = pos, dec_Name = name,
          dec_Args = map (\<lambda>n. \<lparr>da_Pos = pos, da_Name = [], da_Named = False, da_Value = Some (IntLit pos n), da_Object = None\<rparr>) ns,
          dec_HasParens = True\<rparr>)"

definition level_site :: constraintSite where
  "level_site = \<lparr>cs_decs = [whole_decorator 1 ''gte'' [3], whole_decorator 2 ''multipleOf'' [4]], cs_of = []\<rparr>"

definition cap_site :: constraintSite where
  "cap_site = \<lparr>cs_decs = [whole_decorator 3 ''range'' [0, 10]], cs_of = []\<rparr>"

definition printable :: "rune \<Rightarrow> bool" where
  "printable r \<longleftrightarrow> 32 \<le> r \<and> r < 127"

lemma sample_bounds:
  "site_bounds printable [level_site, cap_site] = set (declaredBounds printable (cs_decs level_site) @ declaredBounds printable (cs_decs cap_site))"
  by auto

lemma sample_ordered: "ordered_ends (set (declaredBounds printable (cs_decs level_site) @ declaredBounds printable (cs_decs cap_site)))"
  unfolding ordered_ends_def by code_simp

lemma sample_values: "\<forall>b \<in> set (declaredBounds printable (cs_decs level_site) @ declaredBounds printable (cs_decs cap_site)). b_limits b = ''value''"
  by code_simp

lemma sample_checks:
  "Capacity ''uint8'' = Some (0, 255)"
  "checkValueRules printable ''uint8'' ''field'' [level_site, cap_site\<lparr>cs_of := '' of scalar Level''\<rparr>] = []"
  "checkValueRules printable ''uint8'' ''scalar'' [cap_site] = []"
  "checkValueRules printable ''uint8'' ''field'' [level_site] = []"
  by code_simp+

section \<open>Properties\<close>

text \<open>
  C31. The check of an integer's bounds is exact: on a field or scalar of an integer type whose
  bounds are whole numbers the type holds, and whose ranges are written in order, it is silent
  exactly when some value of the type meets every bound and is a multiple of the divisor. The
  values compared are those of the type, so \<open>@gt(255)\<close> on a \<open>uint8\<close> is reported.
\<close>

theorem integer_domain:
  assumes "Capacity prim = Some (lo, hi)" and "cs_of s = []"
    and "\<forall>b \<in> site_bounds P [s]. b_limits b = ''value''" and "ordered_ends (site_bounds P [s])"
    and "checkBoundCapacity prim (cs_decs s) = []" and "checkIntBoundFloatLiteral prim subject (cs_decs s) = []"
  shows "checkValueDomain P prim [s] = [] \<longleftrightarrow>
    (\<exists>n. lo \<le> n \<and> n \<le> hi \<and> (\<forall>b \<in> site_bounds P [s]. admits b prim (int_lit n)) \<and> (\<forall>d \<in> divisors P prim [s]. d dvd n))"
proof -
  have on: "\<forall>b \<in> site_bounds P [s]. on_scale lo hi b" using checks_on_scale [OF assms(1,5,6)] assms(3) by auto
  have "admits b prim (int_lit n) \<longleftrightarrow> meets b n" if "b \<in> site_bounds P [s]" for b n
    using assms(1,3) that by (intro meets_admits) (auto simp: scaleOf_def)
  then show ?thesis unfolding single_site [OF assms(1,2) on assms(4)] by (simp cong: ball_cong)
qed

theorem integer_domain_witness:
  "\<exists>n. 0 \<le> n \<and> n \<le> 255 \<and> 4 dvd n \<and> list_all (\<lambda>b. admits b ''uint8'' (int_lit n)) (declaredBounds printable (cs_decs level_site))"
proof -
  have single: "site_bounds printable [level_site] = set (declaredBounds printable (cs_decs level_site))" by simp
  have "ordered_ends (site_bounds printable [level_site])" "\<forall>b \<in> site_bounds printable [level_site]. b_limits b = ''value''"
    using sample_ordered sample_values unfolding single by (auto simp: ordered_ends_def)
  moreover have "cs_of level_site = []" "divisors printable ''uint8'' [level_site] = {4}" by code_simp+
  ultimately show ?thesis
    using integer_domain [OF sample_checks(1), of level_site printable "''field''"] sample_checks(4)
    by (auto simp: checkValueRules_def Let_def list_all_iff)
qed

text \<open>
  C32. A field over a scalar: where the field's check and the scalar's own are silent, some value
  of the type meets the bounds and divisors of both, although a pair of the scalar's own bounds
  is not compared again at the field.
\<close>

theorem field_over_scalar:
  assumes "Capacity prim = Some (lo, hi)" and "of' \<noteq> []"
    and "\<forall>b \<in> site_bounds P [f, s]. b_limits b = ''value''" and "ordered_ends (site_bounds P [f, s])" and "cs_of f = []" "cs_of s = []"
    and "checkValueRules P prim subject [f, s\<lparr>cs_of := of'\<rparr>] = []" and "checkValueRules P prim subject' [s] = []"
  shows "\<exists>n. lo \<le> n \<and> n \<le> hi \<and> (\<forall>b \<in> site_bounds P [f, s]. admits b prim (int_lit n)) \<and> (\<forall>d \<in> divisors P prim [f, s]. d dvd n)"
proof -
  let ?s = "s\<lparr>cs_of := of'\<rparr>"
  have field: "checkBoundCapacity prim (cs_decs f) = []" "checkIntBoundFloatLiteral prim subject (cs_decs f) = []"
    "checkValueDomain P prim [f, ?s] = []"
    and scalar: "checkBoundCapacity prim (cs_decs s) = []" "checkIntBoundFloatLiteral prim subject' (cs_decs s) = []"
    "checkValueDomain P prim [s] = []"
    using assms(7,8) by (simp_all add: checkValueRules_def Let_def)
  have on: "\<forall>b \<in> site_bounds P [f, s]. on_scale lo hi b"
    using checks_on_scale [OF assms(1) field(1,2)] checks_on_scale [OF assms(1) scalar(1,2)] assms(3) by auto
  have divs: "divisors P prim [f, ?s] = divisors P prim [f, s]" "divisors P prim [?s] = divisors P prim [s]"
    by (auto simp: divisors_def List.map_filter_def site_divisor_def image_iff split: option.splits)
  have "ordered_ends (site_bounds P [s])" using assms(4) by (auto simp: ordered_ends_def)
  then have "\<exists>n. lo \<le> n \<and> n \<le> hi \<and> (\<forall>b \<in> site_bounds P [s]. meets b n) \<and> (\<forall>d \<in> divisors P prim [s]. d dvd n)"
    using single_site [OF assms(1,6), of P] on scalar(3) by auto
  then obtain n where n: "lo \<le> n" "n \<le> hi" "\<forall>b \<in> site_bounds P [f, s]. meets b n" "\<forall>d \<in> divisors P prim [f, s]. d dvd n"
    using two_sites [OF assms(1,5), of ?s P] assms(2,4) on field(3) divs by auto
  moreover have "admits b prim (int_lit n) \<longleftrightarrow> meets b n" if "b \<in> site_bounds P [f, s]" for b
    using assms(1,3) that by (intro meets_admits) (auto simp: scaleOf_def)
  ultimately show ?thesis by blast
qed


theorem field_over_scalar_witness:
  "\<exists>n. 0 \<le> n \<and> n \<le> 255 \<and> 4 dvd n
     \<and> list_all (\<lambda>b. admits b ''uint8'' (int_lit n)) (declaredBounds printable (cs_decs level_site) @ declaredBounds printable (cs_decs cap_site))"
proof -
  have "cs_of level_site = []" "cs_of cap_site = []" "divisors printable ''uint8'' [level_site, cap_site] = {4}" by code_simp+
  then show ?thesis
    using field_over_scalar [OF sample_checks(1), of "'' of scalar Level''" printable level_site cap_site "''field''" "''scalar''"] sample_checks(2,3)
      sample_ordered sample_values unfolding sample_bounds by (auto simp: list_all_iff)
qed


text \<open>
  A bound whose generated check is left out as implied by the type is implied, and every
  implied one is found: for a bound on an integer value that is a whole number of the type,
  \<open>BoundImpliedByType\<close> holds exactly when every value of the type meets the bound.
\<close>

theorem implied_bound_iff:
  assumes "Capacity prim = Some (lo, hi)" and "0 \<le> i" and "i < int (length (declaredBounds P [d]))"
    and "on_scale lo hi (declaredBounds P [d] ! nat i)"
  shows "BoundImpliedByType P prim d i \<longleftrightarrow>
    (\<forall>n. lo \<le> n \<and> n \<le> hi \<longrightarrow> admits (declaredBounds P [d] ! nat i) prim (int_lit n))"
proof -
  let ?b = "declaredBounds P [d] ! nat i"
  have lim: "b_limits ?b = ''value''" using assms(4) by (simp add: on_scale_def)
  have adm: "admits ?b prim (int_lit n) \<longleftrightarrow> (if bs_Lower ?b then least_met ?b \<le> n else n \<le> least_met ?b)" for n
    using on_scale_meets [OF assms(4)] meets_admits [of prim ?b n] assms(1) lim by (simp add: scaleOf_def)
  have "BoundImpliedByType P prim d i \<longleftrightarrow> in_scale lo hi ?b \<and> (if bs_Lower ?b then least_met ?b \<le> lo else hi \<le> least_met ?b)"
    using site_limit_sel [OF assms(1,4), of "[]"] assms(1-3) lim unfolding site_limit_def BoundImpliedByType_def Let_def
    by (simp add: scaleOf_def)
  also have "\<dots> \<longleftrightarrow> (\<forall>n. lo \<le> n \<and> n \<le> hi \<longrightarrow> admits ?b prim (int_lit n))"
    unfolding adm using Capacity_le [OF assms(1)] assms(4) by (auto simp: in_scale_def)
  finally show ?thesis .
qed

theorem implied_bound_iff_witness:
  "BoundImpliedByType printable ''uint8'' (whole_decorator 1 ''gte'' [0]) 0
   \<and> admits (declaredBounds printable [whole_decorator 1 ''gte'' [0]] ! 0) ''uint8'' (int_lit 7)"
proof -
  let ?d = "whole_decorator 1 ''gte'' [0]"
  have "Rat (b_value (declaredBounds printable [?d] ! 0)) = Some 0" "b_limits (declaredBounds printable [?d] ! 0) = ''value''"
    "length (declaredBounds printable [?d]) = 1" "BoundImpliedByType printable ''uint8'' ?d 0" by code_simp+
  then show ?thesis
    using implied_bound_iff [OF sample_checks(1), of 0 printable ?d] by (auto simp: on_scale_def intro!: exI [of _ 0])
qed

section \<open>Sizes\<close>

lemma wrap64_id: "- (2 ^ 63) \<le> n \<Longrightarrow> n < 2 ^ 63 \<Longrightarrow> wrap64 n = n"
  by (simp add: wrap64_def mod_pos_pos_trivial)

lemma wrap64_mod: "wrap64 n = n - (n + 2 ^ 63) div 2 ^ 64 * 2 ^ 64"
  using div_mult_mod_eq [of "n + 2 ^ 63" "2 ^ 64"] unfolding wrap64_def by linarith

lemma wrap64_range: "- (2 ^ 63) \<le> wrap64 n \<and> wrap64 n < 2 ^ 63"
proof -
  have "0 \<le> (n + 2 ^ 63) mod 2 ^ 64" "(n + 2 ^ 63) mod 2 ^ 64 < 2 ^ 64" by simp_all
  then show ?thesis unfolding wrap64_def by simp
qed

lemma quo_rest: "n \<noteq> 0 \<Longrightarrow> \<bar>p - quo p n * n\<bar> < \<bar>n\<bar>"
proof -
  assume n: "n \<noteq> 0"
  have r: "\<bar>p\<bar> = \<bar>n\<bar> * (\<bar>p\<bar> div \<bar>n\<bar>) + \<bar>p\<bar> mod \<bar>n\<bar>" "0 \<le> \<bar>p\<bar> mod \<bar>n\<bar>" "\<bar>p\<bar> mod \<bar>n\<bar> < \<bar>n\<bar>" using n by simp_all
  have "quo p n * n = sgn p * (\<bar>n\<bar> * (\<bar>p\<bar> div \<bar>n\<bar>))"
    using n by (cases "p = 0") (auto simp: quo_def sgn_if abs_if)
  moreover have "p = sgn p * \<bar>p\<bar>" by (simp add: sgn_if abs_if)
  ultimately have "p - quo p n * n = sgn p * (\<bar>p\<bar> - \<bar>n\<bar> * (\<bar>p\<bar> div \<bar>n\<bar>))" by (simp add: right_diff_distrib)
  also have "\<dots> = sgn p * (\<bar>p\<bar> mod \<bar>n\<bar>)" by (simp only: minus_mult_div_eq_mod)
  finally show ?thesis using r(2,3) by (cases "p = 0") (simp_all add: sgn_if abs_mult)
qed

lemma quo_small: "n \<noteq> 0 \<Longrightarrow> \<bar>quo p n\<bar> \<le> \<bar>p\<bar>"
  using pos_imp_zdiv_nonneg_iff [of "\<bar>n\<bar>" "\<bar>p\<bar>"] zdiv_mono2 [of "\<bar>p\<bar>" 1 "\<bar>n\<bar>"] by (auto simp: quo_def)

text \<open>
  A size of a whole number and a unit is exact or refused: where the number reads as an
  \<open>int64\<close>, the product is returned when it is in range, and refused when it is not, although
  the source multiplies with wrap-around and divides back.
\<close>

theorem size_exact:
  assumes "ParseInt num = (n, True)" and "num \<noteq> []" and "0 < mult" and "mult < 2 ^ 63"
  shows "scaleSize num mult = (if in_int64 (n * mult) then Some (n * mult) else None)"
proof -
  let ?p = "wrap64 (n * mult)"
  have n: "- (2 ^ 63) \<le> n" "n < 2 ^ 63"
    using ParseInt_in_int64 [of num] assms(1) by (auto simp: in_int64_def min_int64_def max_int64_def)
  have in_range: "in_int64 x \<longleftrightarrow> - (2 ^ 63) \<le> x \<and> x < 2 ^ 63" for x by (auto simp: in_int64_def min_int64_def max_int64_def)
  show ?thesis
  proof (cases "n = 0")
    case True
    then show ?thesis using assms by (simp add: scaleSize_def in_range wrap64_id Let_def)
  next
    case False
    have scale: "scaleSize num mult = (if wrap64 (quo ?p n) \<noteq> mult then None else Some ?p)"
      using assms(1,2) False by (simp add: scaleSize_def Let_def)
    have "wrap64 (quo ?p n) = mult \<longleftrightarrow> in_int64 (n * mult)"
    proof
      assume "in_int64 (n * mult)"
      then have "?p = n * mult" by (simp add: in_range wrap64_id)
      then have "\<bar>(mult - quo ?p n) * n\<bar> < \<bar>n\<bar>" using quo_rest [OF False, of ?p] by (simp add: algebra_simps)
      then have "\<bar>mult - quo ?p n\<bar> < 1" using False by (simp add: abs_mult)
      then show "wrap64 (quo ?p n) = mult" using assms(3,4) by (simp add: wrap64_id)
    next
      assume eq: "wrap64 (quo ?p n) = mult"
      have small: "\<bar>quo ?p n\<bar> \<le> 2 ^ 63" using quo_small [OF False, of ?p] wrap64_range [of "n * mult"] by linarith
      have "quo ?p n = mult"
      proof (cases "quo ?p n = 2 ^ 63")
        case True
        then have "wrap64 (quo ?p n) < 0" by (simp add: wrap64_def)
        then show ?thesis using eq assms(3) by simp
      next
        case no: False
        with small have "- (2 ^ 63) \<le> quo ?p n" "quo ?p n < 2 ^ 63" by linarith+
        then show ?thesis using eq wrap64_id [of "quo ?p n"] by simp
      qed
      then have "\<bar>?p - mult * n\<bar> < 2 ^ 63 + 1" using quo_rest [OF False, of ?p] n by (simp add: abs_if split: if_splits)
      then have "\<bar>(n * mult + 2 ^ 63) div 2 ^ 64 * 2 ^ 64\<bar> < 2 ^ 63 + 1"
        using wrap64_mod [of "n * mult"] by (simp add: mult.commute)
      then have "(n * mult + 2 ^ 63) div 2 ^ 64 = 0" by (simp add: abs_mult)
      then have "?p = n * mult" using wrap64_mod [of "n * mult"] by simp
      then show "in_int64 (n * mult)" using wrap64_range [of "n * mult"] by (simp add: in_range)
    qed
    then show ?thesis using scale wrap64_id [of "n * mult"] by (auto simp: in_range)
  qed
qed

theorem size_exact_witness:
  "ParseInt ''8589934592'' = (8589934592, True) \<and> scaleSize ''8589934592'' (2 ^ 30) = None"
proof -
  have n: "ParseInt ''8589934592'' = (8589934592, True)" by code_simp
  with size_exact [OF n, of "2 ^ 30"] show ?thesis by (simp add: in_int64_def max_int64_def)
qed

end
