(* ===== verification/Values_Spec.thy ===== *)
theory Values_Spec
  imports Values Bounds_Spec Design_Spec
begin

text \<open>What an accepted default is: a value of the field's type within every constraint on it.\<close>

lemma at_decorator_error [simp]: "IsError (at_decorator d code msg rel)"
  by (simp add: at_decorator_def)

abbreviation accepted :: "Diagnostic list \<Rightarrow> bool" where
  "accepted ds \<equiv> list_all (\<lambda>d. \<not> IsError d) ds"

lemma errors_silent:
  assumes "list_all IsError ds" and "accepted es" and "set ds \<subseteq> set es"
  shows "ds = []"
  using assms by (cases ds) (auto simp: list_all_iff)

lemma int_literal: "exprMatchesKind v ArgInt \<Longrightarrow> \<exists>pos n. v = Some (IntLit pos n)"
  by (cases v rule: exprKind.cases) (auto simp: exprMatchesKind_def)

lemma Capacity_kind: "Capacity prim = Some r \<Longrightarrow> primitiveArgKind prim = ArgInt \<and> IsInteger prim"
  by (auto simp: Capacity_def primitiveArgKind_def IsInteger_def Let_def split: option.splits prim_kind.splits)

lemma map_filter_nil: "List.map_filter f xs = [] \<longleftrightarrow> (\<forall>x \<in> set xs. f x = None)"
  by (auto simp: List.map_filter_def filter_empty_conv)

text \<open>The number a site's \<open>@multipleOf\<close> gives, where the check takes it for a divisor.\<close>

definition site_multiple :: "constraintSite \<Rightarrow> rat option" where
  "site_multiple s =
     (case Option.bind (FindDecorator (decs (cs_decs s)) ''multipleOf'') (\<lambda>d. ParseNumericArg (firstPositional d)) of
        Some dv \<Rightarrow> if float_rat (nl_FloatVal dv) = Some 0 then None else Some (rat_of dv)
      | None \<Rightarrow> None)"

definition satisfies :: "(rune \<Rightarrow> bool) \<Rightarrow> string \<Rightarrow> constraintSite \<Rightarrow> int \<Rightarrow> bool" where
  "satisfies P prim s v \<longleftrightarrow>
     (\<forall>b \<in> set (declaredBounds P (cs_decs s)). b_limits b = ''value'' \<longrightarrow> meets b v)
     \<and> (\<forall>r. site_multiple s = Some r \<longrightarrow> of_int v / r \<in> \<int>)"

lemma number_breaches_errors: "list_all IsError (number_breaches env s prim q pos subject)"
  by (auto simp: number_breaches_def breach_def list_all_iff List.map_filter_def Let_def split: option.splits if_splits)

lemma number_breaches_nil:
  assumes "Capacity prim = Some (lo, hi)" and "number_breaches env s prim (int_lit v) pos subject = []"
  shows "satisfies (env_Print env) prim s v"
  unfolding satisfies_def
proof (intro conjI ballI allI impI)
  fix b assume b: "b \<in> set (declaredBounds (env_Print env) (cs_decs s))" "b_limits b = ''value''"
  then have "admits b prim (int_lit v)"
    using assms(2) by (auto simp: number_breaches_def map_filter_nil Let_def split: if_splits)
  moreover have "sc_bits (scaleOf prim (b_limits b)) = 0" using assms(1) b(2) by (simp add: scaleOf_def)
  ultimately show "meets b v" using meets_admits by blast
next
  fix r assume "site_multiple s = Some r"
  then obtain d dv where d: "FindDecorator (decs (cs_decs s)) ''multipleOf'' = Some d" "ParseNumericArg (firstPositional d) = Some dv"
    "float_rat (nl_FloatVal dv) \<noteq> Some 0" "r = rat_of dv"
    by (auto simp: site_multiple_def bind_eq_Some_conv split: option.splits if_splits)
  then have "snd (quotient_of (rat_of (int_lit v) / r)) = 1"
    using assms(2) Capacity_kind [OF assms(1)] by (auto simp: number_breaches_def Let_def split: if_splits)
  moreover have "rat_of (int_lit v) = of_int v" by (simp add: rat_of_def Rat_def int_lit_def)
  ultimately show "of_int v / r \<in> \<int>" using whole_quotient by (metis Ints_of_int)
qed

section \<open>Properties\<close>

text \<open>
  C29. The default of an integer field that the checks accept is an integer literal in the range of
  the field's type that meets every bound, and is a multiple of every divisor, of the field and of
  the scalar its type names.
\<close>

theorem integer_default:
  assumes "fd_Type f = Some t" and "\<not> tr_Array t" and "Option.bind (tr_Named t) nt_Name = Some q"
    and "lookupEnum p own (tr_Named t) = None" and "Capacity (primOf p own (Some t)) = Some (lo, hi)"
    and "FindDecorator (decs (fd_Decorators f)) ''default'' = Some dec" and "positionalArgs dec = [arg]" and "\<not> HoldsBadExpr dec"
    and "accepted (checkFieldDefault env p own f)"
  shows "\<exists>pos v. da_Value arg = Some (IntLit pos v) \<and> lo \<le> v \<and> v \<le> hi
    \<and> list_all (\<lambda>s. satisfies (env_Print env) (primOf p own (Some t)) s v) (valueConstraintSites p own t (fd_Decorators f))"
proof -
  let ?prim = "primOf p own (Some t)" let ?sites = "valueConstraintSites p own t (fd_Decorators f)"
  have silent: "accepted (literal_args p own ''default'' f arg)"
    "accepted (checkDefaultConstraints env p own f arg)"
    using assms(6-9) by (auto simp: checkFieldDefault_def split: option.splits)
  have kind: "primitiveArgKind ?prim = ArgInt" using Capacity_kind [OF assms(5)] by simp
  have lit: "single_literal p own ''default'' f t (da_Value arg) (da_Pos arg) = literal_args p own ''default'' f arg"
    using assms(1,2) by (simp add: literal_args_def checkLiteralType.simps)
  have "exprMatchesKind (da_Value arg) ArgInt"
  proof (rule ccontr)
    assume "\<not> ?thesis"
    then show False using silent(1) assms(3,4) kind
      by (auto simp: lit [symmetric] single_literal_def checkPrimitiveLiteral_def split: option.splits Expr.splits)
  qed
  then obtain pos v where v: "da_Value arg = Some (IntLit pos v)" using int_literal by blast
  have checked: "checkedPrim p own t = ?prim" "checkedValue p own t (da_Value arg) = Some (IntLit pos v)"
    using assms(4) v by (simp_all add: checkedPrim_def checkedValue_def wire_literal_def)
  have matches: "exprMatchesKind (Some (IntLit pos v)) (primitiveArgKind ?prim)"
    using \<open>exprMatchesKind (da_Value arg) ArgInt\<close> v kind by simp
  have "lo \<le> v \<and> v \<le> hi"
    using silent(1) assms(3-5) matches kind v
    by (auto simp: lit [symmetric] single_literal_def checkPrimitiveLiteral_def ParseNumeric_def checkCapacity_def wholeInt_def Rat_def split: if_splits)
  moreover have "satisfies (env_Print env) ?prim s v" if "s \<in> set ?sites" for s
  proof (rule number_breaches_nil [OF assms(5)])
    let ?ds = "number_breaches env s ?prim (int_lit v) (da_Pos arg)
      (''@default('' @ value_text (env_Print env) (da_Value arg) @ '')'' @ wireNote (env_Print env) (wire_literal p own t (da_Value arg)))"
    have "set ?ds \<subseteq> set (checkDefaultConstraints env p own f arg)"
      using that assms(1,2) checked matches v
      by (auto simp: checkDefaultConstraints_def checkValueConstraints_def ParseNumeric_def int_lit_def)
    then show "?ds = []" by (rule errors_silent [OF number_breaches_errors silent(2)])
  qed
  ultimately show ?thesis using v by (auto simp: list_all_iff)
qed

definition sample_env :: env where
  "sample_env = \<lparr>env_Compile = (\<lambda>_. None), env_Match = (\<lambda>_ _. True), env_Format = (\<lambda>_. None), env_Print = printable,
     env_Letter = (\<lambda>r. 65 \<le> r \<and> r \<le> 90 \<or> 97 \<le> r \<and> r \<le> 122), env_Digit = (\<lambda>r. 48 \<le> r \<and> r \<le> 57), env_Render = msg_format\<rparr>"

definition level_field :: Field where
  "level_field = \<lparr>fd_Pos = zero_Position, fd_Doc = [], fd_Name = ''level'',
     fd_Type = Some (TypeRef zero_Position None
       (Some (NamedTypeRef zero_Position (Some \<lparr>qi_Pos = zero_Position, qi_Parts = [''uint8'']\<rparr>) [])) False True 0),
     fd_Decorators = [whole_decorator 1 ''gte'' [3], whole_decorator 2 ''multipleOf'' [4], whole_decorator 3 ''default'' [8]]\<rparr>"

theorem integer_default_witness:
  "\<exists>v. 0 \<le> v \<and> v \<le> 255 \<and> satisfies printable ''uint8'' \<lparr>cs_decs = fd_Decorators level_field, cs_of = []\<rparr> v"
proof -
  let ?own = "newPackage ''shop''" and ?p = "\<lparr>pr_Packages = [], pr_typeParams = {}, pr_endlessFlows = []\<rparr>"
  let ?t = "the (fd_Type level_field)" and ?d = "whole_decorator 3 ''default'' [8]"
  have "fd_Type level_field = Some ?t" "\<not> tr_Array ?t" by code_simp+
  moreover have "Option.bind (tr_Named ?t) nt_Name = Some \<lparr>qi_Pos = zero_Position, qi_Parts = [''uint8'']\<rparr>" by code_simp
  moreover have "lookupEnum ?p ?own (tr_Named ?t) = None" by code_simp
  moreover have prim: "primOf ?p ?own (Some ?t) = ''uint8''" and "Capacity ''uint8'' = Some (0, 255)" by code_simp+
  moreover have "FindDecorator (decs (fd_Decorators level_field)) ''default'' = Some ?d" "positionalArgs ?d = [hd (dec_Args ?d)]"
    "\<not> HoldsBadExpr ?d" by code_simp+
  moreover have "accepted (checkFieldDefault sample_env ?p ?own level_field)" by code_simp
  moreover have "env_Print sample_env = printable" "valueConstraintSites ?p ?own ?t (fd_Decorators level_field)
      = [\<lparr>cs_decs = fd_Decorators level_field, cs_of = []\<rparr>]" by (simp add: sample_env_def) code_simp
  ultimately show ?thesis using integer_default [of level_field ?t _ ?p ?own 0 255 ?d "hd (dec_Args ?d)" sample_env] by auto
qed

end
