(* ===== verification/Services_Spec.thy ===== *)
theory Services_Spec
  imports Services Design_Spec
begin

text \<open>
  What the service tables of a project hold: every service has the base path of the project, its
  blocks and methods are those the files declare, and the names of packages and services are
  distinct, so the project's checks visit each service once.
\<close>

section \<open>The service table of a package\<close>

definition service_ok :: "string \<Rightarrow> Decl set \<Rightarrow> ServiceInfo \<Rightarrow> bool" where
  "service_ok base D si \<longleftrightarrow>
     si_basePath si = base \<and> (case si_Primary si of None \<Rightarrow> True | Some sd \<Rightarrow> D_Service sd \<in> D)
     \<and> (\<forall>e \<in> set (si_Extends si). D_Service e \<in> D)"

definition services_inv :: "string \<Rightarrow> Decl set \<Rightarrow> ServiceInfo table \<Rightarrow> bool" where
  "services_inv base D tbl \<longleftrightarrow>
     distinct (map fst tbl) \<and> (\<forall>n si. map_of tbl n = Some si \<longrightarrow> service_ok base D si \<and> si_Methods si = [])"

lemma service_ok_mono: "service_ok base D si \<Longrightarrow> D \<subseteq> D' \<Longrightarrow> service_ok base D' si"
  by (auto simp: service_ok_def split: option.splits)

lemma services_inv_mono: "services_inv base D tbl \<Longrightarrow> D \<subseteq> D' \<Longrightarrow> services_inv base D' tbl"
  unfolding services_inv_def using service_ok_mono by blast

lemma services_inv_update:
  "services_inv base D tbl \<Longrightarrow> service_ok base D si \<Longrightarrow> si_Methods si = [] \<Longrightarrow> services_inv base D (AList.update n si tbl)"
  by (auto simp: services_inv_def)

lemma services_inv_service:
  assumes inv: "services_inv base D (p_Services (c_pkg c))"
  shows "services_inv base (insert (D_Service dd) D) (p_Services (c_pkg (collect_service base dd c)))"
proof -
  let ?tbl = "p_Services (c_pkg c)" and ?D = "insert (D_Service dd) D"
  have inv': "services_inv base ?D ?tbl" using inv by (rule services_inv_mono) blast
  have none: "service_ok base ?D \<lparr>si_Primary = None, si_Extends = [], si_Methods = [], si_basePath = base\<rparr>"
    by (simp add: service_ok_def)
  have ext: "service_ok base ?D (si\<lparr>si_Extends := si_Extends si @ [dd]\<rparr>)"
    and prim: "service_ok base ?D (si\<lparr>si_Primary := Some dd\<rparr>)" if "service_ok base ?D si" for si
    using that by (auto simp: service_ok_def)
  show ?thesis
  proof (cases "map_of ?tbl (sv_Name dd)")
    case None
    then show ?thesis using services_inv_update [OF inv'] ext [OF none] prim [OF none]
      by (auto simp: collect_service_def Let_def)
  next
    case (Some si)
    then have si: "service_ok base ?D si" "si_Methods si = []" using inv' by (auto simp: services_inv_def)
    then show ?thesis using Some services_inv_update [OF inv'] ext [OF si(1)] prim [OF si(1)]
      by (auto simp: collect_service_def Let_def split: option.splits)
  qed
qed

lemma services_inv_collect:
  assumes "services_inv base D (p_Services (c_pkg c))"
  shows "services_inv base (insert d D) (p_Services (c_pkg (collect_decl base d c)))"
proof (cases "DeclName d = [] \<or> decl_kind d \<noteq> ServiceDecls")
  case True
  then have "p_Services (c_pkg (collect_decl base d c)) = p_Services (c_pkg c)"
    by (cases d) (auto simp: collect_decl_def register_decl_def Let_def split: prod.splits)
  with assms show ?thesis using services_inv_mono by (metis subset_insertI)
next
  case False
  then obtain dd where "d = D_Service dd" by (cases d) auto
  with False assms show ?thesis by (simp add: collect_decl_def services_inv_service)
qed

lemma collectDecls_services: "services_inv base (set (files_decls files)) (p_Services (c_pkg (collectDecls base name files)))"
proof -
  have "services_inv base (D \<union> set ds) (p_Services (c_pkg (fold (collect_decl base) ds c)))"
    if "services_inv base D (p_Services (c_pkg c))" for D ds c
    using that
  proof (induction ds arbitrary: D c)
    case (Cons d ds)
    from Cons.IH [OF services_inv_collect [OF Cons.prems, of d]] show ?case by simp
  qed simp
  note step = this
  have "services_inv base {} []" by (simp add: services_inv_def)
  then show ?thesis
    using step [of "{}" "\<lparr>c_pkg = newPackage name, c_seen = [], c_seenMW = [], c_seenEv = [], c_diags = []\<rparr>" "files_decls files"]
    unfolding collectDecls_def newPackage_def by (simp only: Package.simps collect.simps Un_empty_left)
qed

lemma merge_service_sel [simp]:
  "si_basePath (merge_service si) = si_basePath si" "si_Primary (merge_service si) = si_Primary si"
  "si_Extends (merge_service si) = si_Extends si"
  by (simp_all add: merge_service_def split: option.split)

lemma block_methods_wf:
  "decl_wf (D_Service sd) \<Longrightarrow> m \<in> set (Methods (Some sd)) \<Longrightarrow> method_wf m"
  by (auto simp: list_all_iff split: ServiceMember.splits)

text \<open>A service of a package built from well-formed declarations.\<close>

definition service_wf :: "string \<Rightarrow> ServiceInfo \<Rightarrow> bool" where
  "service_wf base si \<longleftrightarrow> si_basePath si = base \<and> list_all method_wf (si_Methods si)"

lemma runDeclPhase_services:
  assumes wf: "list_all decl_wf (files_decls files)"
  shows "distinct (map fst (p_Services (fst (runDeclPhase base name files))))"
    and "map_of (p_Services (fst (runDeclPhase base name files))) n = Some si \<Longrightarrow> service_wf base si"
proof -
  let ?tbl = "p_Services (c_pkg (collectDecls base name files))"
  have tbl: "p_Services (fst (runDeclPhase base name files)) = map (\<lambda>(n, si). (n, merge_service si)) ?tbl"
    by (simp add: runDeclPhase_def mergeServices_def Let_def)
  note inv = collectDecls_services [of base files name, unfolded services_inv_def]
  have "map (fst \<circ> (\<lambda>(n, si). (n, merge_service si))) ?tbl = map fst ?tbl" by (rule map_cong) auto
  with inv show "distinct (map fst (p_Services (fst (runDeclPhase base name files))))" unfolding tbl map_map by metis
  assume "map_of (p_Services (fst (runDeclPhase base name files))) n = Some si"
  then obtain si0 where si0: "map_of ?tbl n = Some si0" "si = merge_service si0"
    unfolding tbl map_of_map by auto
  with inv have ok: "service_ok base (set (files_decls files)) si0" "si_Methods si0 = []" by blast+
  have block: "method_wf m" if "D_Service sd \<in> set (files_decls files)" "m \<in> set (Methods (Some sd))" for sd m
  proof (rule block_methods_wf [OF _ that(2)])
    show "decl_wf (D_Service sd)" using wf that(1) unfolding list_all_iff by (rule bspec)
  qed
  show "service_wf base si"
  proof (cases "si_Primary si0")
    case (Some sd)
    have "method_wf m" if "m \<in> set (si_Methods si)" for m
      using that ok block Some unfolding si0(2) by (auto simp: merge_service_def service_ok_def simp del: Methods.simps)
    with ok(1) si0(2) show ?thesis by (auto simp: service_wf_def service_ok_def list_all_iff)
  qed (use ok si0(2) in \<open>simp add: service_wf_def service_ok_def merge_service_def\<close>)
qed

section \<open>The services of a project\<close>

lemma distinct_groups: "distinct (map fst (fst (groupFilesByPackage files)))"
proof -
  have "distinct (map fst (fst (fold group_file files st)))" if "distinct (map fst (fst st))" for st
    using that
  proof (induction files arbitrary: st)
    case (Cons f files)
    have "distinct (map fst (fst (group_file f st)))"
      using Cons.prems by (cases st) (auto simp: group_file_def Let_def distinct_update split: option.splits)
    then show ?case using Cons.IH by simp
  qed simp
  then show ?thesis by (simp add: groupFilesByPackage_def)
qed

lemma map_fst_map_filter:
  "map fst (List.map_filter (\<lambda>k. map_option (\<lambda>v. (k, g k v)) (m k)) ks) = filter (\<lambda>k. m k \<noteq> None) ks"
  by (induction ks) (auto simp: List.map_filter_def)

lemma distinct_packages: "distinct (map fst (pr_Packages (build_project base files)))"
  by (simp add: build_project_def Let_def project_packages_def map_fst_map_filter distinct_groups)

lemma build_project_services:
  assumes "list_all (\<lambda>f. list_all decl_wf (f_Decls f)) files" and "Packages (build_project base files) name = Some pkg"
  shows "distinct (map fst (p_Services pkg))" and "map_of (p_Services pkg) n = Some si \<Longrightarrow> service_wf base si"
proof -
  obtain fs where fs: "set fs \<subseteq> set files" and pkg: "pkg = fst (runDeclPhase base name fs)"
    using assms(2) by (rule build_project_package)
  have "list_all decl_wf (files_decls fs)"
    using fs assms(1) by (fastforce simp: list_all_iff files_decls_def)
  from runDeclPhase_services [OF this, of base name] pkg
  show "distinct (map fst (p_Services pkg))" "map_of (p_Services pkg) n = Some si \<Longrightarrow> service_wf base si" by simp_all
qed

text \<open>The key of a service in the project.\<close>

abbreviation service_key :: "string \<times> string \<times> ServiceInfo \<Rightarrow> string \<times> string" where
  "service_key s \<equiv> (fst s, fst (snd s))"

lemma project_services_iff:
  "(pkgName, svcName, si) \<in> set (project_services p) \<longleftrightarrow>
     (\<exists>pkg. Packages p pkgName = Some pkg \<and> map_of (p_Services pkg) svcName = Some si)"
proof -
  have "pkgName \<in> set (PackageNames p)" if "Packages p pkgName = Some pkg" for pkg
    using that sorted_keys_dom [of pkgName "pr_Packages p"] by (simp only: PackageNames_def) simp
  moreover have "svcName \<in> set (ServiceNames pkg)" if "map_of (p_Services pkg) svcName = Some si" for pkg
    using that sorted_keys_dom [of svcName "p_Services pkg"] by (simp only: ServiceNames_def) simp
  ultimately show ?thesis
    by (auto simp: project_services_def List.map_filter_def split: option.splits) force+
qed

lemma distinct_concat_keys:
  assumes "distinct (map key ks)" and "\<And>k. k \<in> set ks \<Longrightarrow> distinct (map f (g k))"
    and "\<And>k x. k \<in> set ks \<Longrightarrow> x \<in> set (g k) \<Longrightarrow> h (f x) = key k"
  shows "distinct (map f (concat (map g ks)))"
  using assms
proof (induction ks)
  case (Cons k ks)
  have "f ` set (g k) \<inter> f ` set (concat (map g ks)) = {}"
  proof (rule ccontr)
    assume "f ` set (g k) \<inter> f ` set (concat (map g ks)) \<noteq> {}"
    then obtain x y k' where "x \<in> set (g k)" "k' \<in> set ks" "y \<in> set (g k')" "f x = f y" by auto
    then have "key k = key k'" using Cons.prems(3) [of k x] Cons.prems(3) [of k' y] by auto
    with \<open>k' \<in> set ks\<close> Cons.prems(1) show False by auto
  qed
  with Cons show ?case by simp
qed simp

lemma keyed_services:
  "map service_key (List.map_filter (\<lambda>n. map_option (\<lambda>si. (name, n, si)) (m n)) ns) = map (Pair name) (filter (\<lambda>n. m n \<noteq> None) ns)"
  by (induction ns) (auto simp: List.map_filter_def)

lemma project_services_distinct:
  assumes "distinct (map fst (pr_Packages p))"
    and "\<And>name pkg. Packages p name = Some pkg \<Longrightarrow> distinct (map fst (p_Services pkg))"
  shows "distinct (map service_key (project_services p))"
  unfolding project_services_def
proof (rule distinct_concat_keys [where key = "\<lambda>k. k" and h = fst])
  show "distinct (map (\<lambda>k. k) (PackageNames p))" using assms(1) by (simp add: PackageNames_def)
next
  fix name assume "name \<in> set (PackageNames p)"
  show "distinct (map service_key (case Packages p name of
         None \<Rightarrow> []
       | Some pkg \<Rightarrow> List.map_filter (\<lambda>svcName. map_option (\<lambda>si. (name, svcName, si)) (map_of (p_Services pkg) svcName))
           (ServiceNames pkg)))"
  proof (cases "Packages p name")
    case (Some pkg)
    have "distinct (ServiceNames pkg)" using assms(2) [OF Some] by (simp add: ServiceNames_def)
    with Some show ?thesis by (simp add: keyed_services inj_on_def distinct_map)
  qed simp
qed (auto simp: List.map_filter_def split: option.splits)

end
