(* ===== verification/Paths_Spec.thy ===== *)
theory Paths_Spec
  imports Paths Services_Spec
begin

text \<open>
  What the silence of the route checks means: the routes of a clean design are patterns
  net/http's ServeMux takes. Path segments come from three places, the base path and the
  prefixes that are arbitrary strings, and the paths of methods, which the parser restricts.
\<close>

section \<open>Segments of a method's path\<close>

text \<open>A byte of a literal segment.\<close>

abbreviation literal_char :: "char \<Rightarrow> bool" where
  "literal_char c \<equiv> isPathChar (of_char c)"

lemma char_eq_code: "(c :: char) = d \<longleftrightarrow> (of_char c :: nat) = of_char d"
  by simp

lemma literal_char_ne: "literal_char c \<Longrightarrow> c \<noteq> CHR ''/'' \<and> c \<noteq> CHR ''{'' \<and> c \<noteq> CHR ''}''"
  by (auto simp: ascii_class_defs)

lemma AppendRune_small: "r < 0x80 \<Longrightarrow> AppendRune r = [char_of r]"
  by (simp add: AppendRune_def encode_bytes_def ValidRune_def)

lemma lower_literal:
  assumes "isLetter (of_char c) \<or> isDigit (of_char c)"
  shows "isLetter (of_char (lower_char c)) \<or> isDigit (of_char (lower_char c))"
proof (cases "65 \<le> (of_char c :: nat) \<and> (of_char c :: nat) \<le> 90")
  case True
  then have "(of_char (lower_char c) :: nat) = of_char c + 32" by (simp add: lower_char_def)
  with True show ?thesis by (simp add: isLetter_def)
qed (use assms in \<open>auto simp: lower_char_def\<close>)

lemma runes_ident: "IsIdent s \<Longrightarrow> r \<in> set (runes s) \<Longrightarrow> isLetter r \<or> isDigit r \<or> r = 95"
  using range_string_ident [of 0 s] by (auto simp: IsIdent_bytes runes_def isIdentStart_def)

lemma words_ident:
  assumes "IsIdent s" "w \<in> set (SplitFieldName s)" "c \<in> set w"
  shows "isLetter (of_char c) \<or> isDigit (of_char c)"
proof -
  have "c \<in> set (concat (SplitFieldName s))" using assms by auto
  then obtain r where r: "r \<in> set (runes s)" "r \<noteq> 95" "c \<in> set (AppendRune r)"
    unfolding concat_SplitFieldName by auto
  then have k: "isLetter r \<or> isDigit r" using runes_ident [OF assms(1)] by blast
  then have "r < 0x80" by (auto simp: ascii_class_defs)
  with r k show ?thesis by (auto simp: AppendRune_small)
qed

lemma Join_chars: "c \<in> set (Join ws sep) \<Longrightarrow> c \<in> set sep \<or> (\<exists>w \<in> set ws. c \<in> set w)"
  by (induction ws sep rule: Join.induct) auto

lemma kebab_chars: "name_ok s \<Longrightarrow> c \<in> set (KebabCase s) \<Longrightarrow> literal_char c \<and> c \<noteq> CHR ''.''"
proof (cases "s = []")
  case False
  assume "name_ok s" "c \<in> set (KebabCase s)"
  then have "IsIdent s" "c = CHR ''-'' \<or> (\<exists>w \<in> set (SplitFieldName s). \<exists>d \<in> set w. c = lower_char d)"
    using False Join_chars [of c "map ToLower (SplitFieldName s)" "''-''"]
    by (auto simp: name_ok_def KebabCase_def FileName_def FileNameWords_def FileCaseKebab_def FileCaseSnake_def
        FileCaseCamel_def ToLower_def)
  then have "c = CHR ''-'' \<or> isLetter (of_char c) \<or> isDigit (of_char c)"
    using words_ident lower_literal by blast
  then show ?thesis by (auto simp: ascii_class_defs)
qed (simp add: KebabCase_def FileName_def SplitFieldName_def FileNameWords_def FileCaseKebab_def FileCaseSnake_def FileCaseCamel_def)

lemma Segments_all:
  assumes "\<And>c. c \<in> set s \<Longrightarrow> c \<noteq> CHR ''/''"
  shows "Segments s = (if s = [] then [] else [s])"
  using assms Segments_word [of s] by fastforce

lemma Nil_notin_Segments [simp]: "[] \<notin> set (Segments s)"
  using Segments_mem by blast

text \<open>The segments of a method's path: the written ones, or the kebab-cased name.\<close>

definition segment_text :: "PathSegment \<Rightarrow> string" where
  "segment_text g = (if ps_Param g then ''{'' @ ps_Literal g @ ''}'' else ps_Literal g)"

lemma word_literal: "word_ok w \<Longrightarrow> c \<in> set w \<Longrightarrow> literal_char c \<and> c \<noteq> CHR ''.''"
  by (auto simp: word_ok_def list_all_iff ascii_class_defs)

lemma segment_text_chars: "segment_wf g \<Longrightarrow> segment_text g \<noteq> [] \<and> CHR ''/'' \<notin> set (segment_text g)"
  using word_literal literal_char_ne by (auto simp: segment_wf_def segment_text_def list_all_iff split: if_splits)

lemma Segments_PathString:
  assumes "path_wf p"
  shows "Segments (PathString (Some p)) = (if list_all segment_wf (pa_Segments p) then map segment_text (pa_Segments p) else [])"
proof -
  have eq: "PathString (Some p) = concat (map (\<lambda>g. ''/'' @ segment_text g) (pa_Segments p))"
    by (simp add: segment_text_def)
  have "Segments (concat (map (\<lambda>g. ''/'' @ segment_text g) gs)) = map segment_text gs" if "list_all segment_wf gs" for gs
    using that
  proof (induction gs rule: rev_induct)
    case (snoc g gs)
    then show ?case using segment_text_chars [of g] Segments_append [of "concat (map (\<lambda>g. ''/'' @ segment_text g) gs)" "segment_text g"]
      by (simp add: Segments_word)
  qed simp
  with assms show ?thesis unfolding eq
    by (auto simp: path_wf_def segment_wf_def segment_text_def)
qed

lemma literal_segment:
  assumes "\<forall>c \<in> set s. literal_char c" "s \<noteq> ''.''" "s \<noteq> ''..''"
  shows "SegmentProblem L D s = None" and "\<not> EndsRoute s" and "\<not> snd (WildcardName s)"
proof -
  have no: "CHR ''{'' \<notin> set s" using assms(1) literal_char_ne by blast
  then show "SegmentProblem L D s = None" using assms by (auto simp: SegmentProblem_def Contains_iff)
  have "length s > 2 \<Longrightarrow> s ! 0 \<noteq> CHR ''{''" using no nth_mem [of 0 s] by fastforce
  then show "\<not> EndsRoute s" "\<not> snd (WildcardName s)" by (auto simp: EndsRoute_def WildcardName_def)
qed

text \<open>The tables of the Go library have at least the letters and digits of ASCII.\<close>

definition ascii_tables :: "(rune \<Rightarrow> bool) \<Rightarrow> (rune \<Rightarrow> bool) \<Rightarrow> bool" where
  "ascii_tables L D \<longleftrightarrow> (\<forall>r. (isLetter r \<longrightarrow> L r) \<and> (isDigit r \<longrightarrow> D r))"

lemma isGoIdent_word:
  assumes "word_ok w" and LD: "ascii_tables L D"
  shows "isGoIdent L D w"
proof -
  obtain c cs where w: "w = c # cs" using assms(1) by (cases w) (auto simp: word_ok_def)
  have c: "isIdentStart (of_char c)" "\<forall>d \<in> set cs. isIdentStart (of_char d) \<or> isDigit (of_char d)"
    using assms(1) by (auto simp: w word_ok_def list_all_iff)
  then have "of_char c < (0x80 :: nat)" by (auto simp: ascii_class_defs)
  then have split: "range_string 0 w = (0, of_char c) # range_string 1 cs" by (simp add: w range_string_Cons_ascii)
  have start: "L r \<or> r = 95" if "isIdentStart r" for r using that LD by (auto simp: isIdentStart_def ascii_tables_def)
  have "L r \<or> r = 95 \<or> i \<noteq> 0 \<and> D r" if "(i, r) \<in> set (range_string 1 cs)" for i r
  proof -
    have "isIdentStart r \<or> isDigit r" using range_string_ident [of 1 cs] c(2) that by blast
    then show ?thesis using start LD range_string_later [OF that] by (auto simp: ascii_tables_def)
  qed
  then have "list_all (\<lambda>(i, r). L r \<or> r = 95 \<or> i \<noteq> 0 \<and> D r) (range_string 0 w)"
    unfolding split using start [OF c(1)] by (auto simp: list_all_iff)
  then show ?thesis by (simp add: isGoIdent_def w)
qed

lemma param_segment:
  assumes w: "word_ok w" and LD: "ascii_tables L D"
  shows "SegmentProblem L D (''{'' @ w @ ''}'') = None" and "\<not> EndsRoute (''{'' @ w @ ''}'')"
    and "WildcardName (''{'' @ w @ ''}'') = (w, True)"
proof -
  have ne: "w \<noteq> []" using w by (auto simp: word_ok_def)
  have last: "last w \<noteq> CHR ''.''" using word_literal [OF w] ne last_in_set by blast
  have trim: "TrimSuffix w ''...'' = w"
  proof -
    have "\<not> HasSuffix w ''...''" using last unfolding HasSuffix_def
      by (metis append_take_drop_id last.simps last_appendR list.distinct(1))
    then show ?thesis by (simp add: TrimSuffix_def)
  qed
  have no: "CHR ''$'' \<notin> set w" using word_literal [OF w, of "CHR ''$''"] by (auto simp: ascii_class_defs)
  have head: "w ! 0 \<noteq> CHR ''$''" using no ne by (metis length_greater_0_conv nth_mem)
  show "WildcardName (''{'' @ w @ ''}'') = (w, True)"
    using ne trim head by (auto simp: WildcardName_def Let_def nth_append)
  show "SegmentProblem L D (''{'' @ w @ ''}'') = None"
    using ne trim isGoIdent_word [OF w LD] by (auto simp: SegmentProblem_def Let_def nth_append)
  have "\<not> HasSuffix (''{'' @ w @ ''}'') ''...}''"
  proof
    assume "HasSuffix (''{'' @ w @ ''}'') ''...}''"
    then obtain u where "''{'' @ w @ ''}'' = u @ ''...}''" unfolding HasSuffix_def by (metis append_take_drop_id)
    then have "(''{'' @ w) @ ''}'' = (u @ ''...'') @ ''}''" by simp
    then have "''{'' @ w = u @ ''...''" by (simp only: append_same_eq)
    then have "last (''{'' @ w) = last (u @ ''...'')" by simp
    with last ne show False by simp
  qed
  then show "\<not> EndsRoute (''{'' @ w @ ''}'')" using head ne by (auto simp: EndsRoute_def)
qed

section \<open>Silent checks\<close>

text \<open>The variables of segments, and a route ServeMux takes.\<close>

definition seg_vars :: "string list \<Rightarrow> string list" where
  "seg_vars segs = map (\<lambda>s. fst (WildcardName s)) (filter (\<lambda>s. snd (WildcardName s)) segs)"

definition mux_accepts :: "(rune \<Rightarrow> bool) \<Rightarrow> (rune \<Rightarrow> bool) \<Rightarrow> string \<Rightarrow> bool" where
  "mux_accepts L D rt \<longleftrightarrow>
     list_all (\<lambda>s. SegmentProblem L D s = None) (Segments rt) \<and> mux_pattern (Segments rt) \<and> distinct (Vars rt)"

lemma seg_vars_simps [simp]:
  "seg_vars [] = []"
  "seg_vars (s # ss) = (if snd (WildcardName s) then fst (WildcardName s) # seg_vars ss else seg_vars ss)"
  "seg_vars (xs @ ys) = seg_vars xs @ seg_vars ys"
  by (simp_all add: seg_vars_def)

lemma Vars_seg_vars: "Vars route = seg_vars (Segments route)"
  by (simp add: Vars_def seg_vars_def)

lemma base_loop_silent:
  "base_loop L D manifest basePath {} {} seen segs = [] \<Longrightarrow>
     list_all (\<lambda>s. SegmentProblem L D s = None) segs \<and> distinct (seg_vars segs) \<and> set (seg_vars segs) \<inter> seen = {}"
proof (induction segs arbitrary: seen)
  case (Cons seg segs)
  obtain name ok where n: "WildcardName seg = (name, ok)" by (cases "WildcardName seg")
  have none: "SegmentProblem L D seg = None" using Cons.prems by (auto split: option.splits)
  show ?case
  proof (cases ok)
    case True
    then have "name \<notin> seen" "base_loop L D manifest basePath {} {} (insert name seen) segs = []"
      using Cons.prems none n by (auto split: if_splits)
    with Cons.IH [of "insert name seen"] True n none show ?thesis by simp
  qed (use Cons none n in simp)
qed simp

lemma prefix_loop_silent:
  "prefix_loop L D d pfx boundBy segs = [] \<Longrightarrow>
     list_all (\<lambda>s. SegmentProblem L D s = None) segs \<and> distinct (seg_vars segs)
     \<and> set (seg_vars segs) \<inter> dom (map_of boundBy) = {}"
proof (induction segs arbitrary: boundBy)
  case (Cons seg segs)
  obtain name ok where n: "WildcardName seg = (name, ok)" by (cases "WildcardName seg")
  have none: "SegmentProblem L D seg = None" using Cons.prems by (auto split: option.splits)
  show ?case
  proof (cases ok)
    case True
    let ?b = "AList.update name ''an earlier segment of the @prefix'' boundBy"
    have "map_of boundBy name = None" "prefix_loop L D d pfx ?b segs = []"
      using Cons.prems none n True by (auto split: option.splits)
    with Cons.IH [of ?b] True n none show ?thesis by (auto simp: dom_update)
  qed (use Cons none n in simp)
qed simp

lemma wildcardOrigins_dom: "dom (map_of (wildcardOrigins path loc)) = set (Vars path)"
proof -
  have "dom (map_of (fold (\<lambda>seg out. case WildcardName seg of (name, ok) \<Rightarrow> if ok then AList.update name loc out else out) segs out))
      = dom (map_of out) \<union> set (seg_vars segs)" for segs and out :: "string table"
    by (induction segs arbitrary: out) (auto simp: dom_update update_conv' split: prod.splits)
  then show ?thesis by (simp add: wildcardOrigins_def Vars_seg_vars)
qed

lemma bound_before_dom: "dom (map_of (bound_before si)) = set (Vars (si_basePath si)) \<union> set (Vars (ServicePrefix (si_Primary si)))"
proof -
  have step: "dom (map_of (fold (\<lambda>(name, _) bound. case map_of bound name of Some _ \<Rightarrow> bound | None \<Rightarrow> AList.update name loc bound) xs b))
      = dom (map_of b) \<union> fst ` set xs" for xs b and loc :: string
    by (induction xs arbitrary: b) (auto simp: dom_update update_conv' split: option.splits)
  show ?thesis unfolding bound_before_def step wildcardOrigins_dom
    using wildcardOrigins_dom by (simp only: dom_map_of_conv_image_fst)
qed

definition written_vars :: "PathSegment list \<Rightarrow> string list" where
  "written_vars segs = map ps_Literal (filter ps_Param segs)"

lemma duplicate_var_silent:
  "duplicate_var svcName m boundBy seen segs = [] \<Longrightarrow>
     distinct (written_vars segs) \<and> set (written_vars segs) \<inter> (seen \<union> dom (map_of boundBy)) = {}"
proof (induction segs arbitrary: seen)
  case (Cons g segs)
  show ?case
  proof (cases "ps_Param g")
    case True
    then have "map_of boundBy (ps_Literal g) = None" "ps_Literal g \<notin> seen"
      "duplicate_var svcName m boundBy (insert (ps_Literal g) seen) segs = []"
      using Cons.prems by (auto split: option.splits if_splits)
    with Cons.IH [of "insert (ps_Literal g) seen"] True show ?thesis by (auto simp: written_vars_def)
  qed (use Cons in \<open>simp add: written_vars_def\<close>)
qed (simp add: written_vars_def)


lemma Arg_FindDecorator: "Arg f ds name = Some v \<Longrightarrow> FindDecorator ds name \<noteq> None"
  by (induction ds name rule: FindDecorator.induct) (auto simp: Arg_def split: option.splits if_splits)

lemma FindDecorator_prefix: "ServicePrefix (Some sd) \<noteq> [] \<Longrightarrow> FindDecorator (decs (sv_Decorators sd)) ''prefix'' \<noteq> None"
  using Arg_FindDecorator by (fastforce simp: StringArg_def split: option.splits)

lemma prefix_silent:
  assumes "checkPrefixPattern L D si = []"
  defines "segs \<equiv> Segments (ServicePrefix (si_Primary si))"
  shows "list_all (\<lambda>s. SegmentProblem L D s = None) segs \<and> distinct (seg_vars segs)
    \<and> set (seg_vars segs) \<inter> set (Vars (si_basePath si)) = {}"
proof (cases "ServicePrefix (si_Primary si) = []")
  case False
  then obtain sd where sd: "si_Primary si = Some sd" by (cases "si_Primary si") auto
  then obtain d where "FindDecorator (decs (sv_Decorators sd)) ''prefix'' = Some d"
    using FindDecorator_prefix False by fastforce
  with assms(1) sd False
  have "prefix_loop L D d (ServicePrefix (Some sd)) (wildcardOrigins (si_basePath si) ''the basePath'') segs = []"
    by (simp add: checkPrefixPattern_def Let_def segs_def del: ServicePrefix.simps)
  from prefix_loop_silent [OF this] show ?thesis by (simp only: wildcardOrigins_dom)
qed (simp add: segs_def)

text \<open>The segments of a method's path with the variables it writes, once its own checks are silent.\<close>

lemma concat_map_Nil: "concat (map f xs) = [] \<Longrightarrow> x \<in> set xs \<Longrightarrow> f x = []"
  by simp

lemma segment_clean:
  assumes wf: "segment_wf g" and LD: "ascii_tables L D"
    and lit: "\<not> ps_Param g \<Longrightarrow> SegmentProblem L D (ps_Literal g) = None"
  shows "SegmentProblem L D (segment_text g) = None \<and> \<not> EndsRoute (segment_text g)
    \<and> seg_vars [segment_text g] = written_vars [g]"
proof (cases "ps_Param g")
  case True
  then have "word_ok (ps_Literal g)" using wf by (simp add: segment_wf_def)
  from param_segment [OF this LD] True show ?thesis by (simp add: segment_text_def written_vars_def)
next
  case False
  then have "\<forall>c \<in> set (ps_Literal g). literal_char c" "ps_Literal g \<noteq> ''.''" "ps_Literal g \<noteq> ''..''"
    using wf lit by (auto simp: segment_wf_def list_all_iff SegmentProblem_def)
  from literal_segment [OF this] False show ?thesis by (simp add: segment_text_def written_vars_def)
qed

lemma method_segments:
  assumes wf: "method_wf m" and LD: "ascii_tables L D"
    and segs: "checkMethodPathSegments L D svcName m = []"
  shows "list_all (\<lambda>s. SegmentProblem L D s = None \<and> \<not> EndsRoute s) (Segments (method_path m))
    \<and> seg_vars (Segments (method_path m)) = (case me_Path m of None \<Rightarrow> [] | Some p \<Rightarrow> written_vars (pa_Segments p))"
proof (cases "me_Path m")
  case None
  let ?k = "KebabCase (me_Name m)"
  have chars: "c \<in> set ?k \<Longrightarrow> literal_char c \<and> c \<noteq> CHR ''.''" for c
    using wf kebab_chars [of "me_Name m" c] unfolding method_wf_def by blast
  then have "Segments (method_path m) = (if ?k = [] then [] else [?k])"
    using Segments_all [of ?k] literal_char_ne by (auto simp: method_path_def None)
  moreover have "?k \<noteq> ''.''" "?k \<noteq> ''..''" using chars [of "CHR ''.''"] by auto
  ultimately show ?thesis using literal_segment [of ?k] chars by (auto simp: None)
next
  case (Some p)
  have seg: "Segments (method_path m)
      = (if list_all segment_wf (pa_Segments p) then map segment_text (pa_Segments p) else [])"
    using wf Segments_PathString [of p] by (simp add: method_path_def method_wf_def Some del: PathString.simps)
  have "list_all (\<lambda>s. SegmentProblem L D s = None \<and> \<not> EndsRoute s) (map segment_text gs)
      \<and> seg_vars (map segment_text gs) = written_vars gs" if "list_all segment_wf gs" "set gs \<subseteq> set (pa_Segments p)" for gs
    using that
  proof (induction gs)
    case (Cons g gs)
    have "\<not> ps_Param g \<Longrightarrow> SegmentProblem L D (ps_Literal g) = None"
      using concat_map_Nil [OF segs [unfolded checkMethodPathSegments_def Some option.case], of g] Cons.prems(2)
      by (auto split: option.splits)
    from segment_clean [OF _ LD this] Cons show ?case by (simp add: written_vars_def split: if_splits)
  qed (simp add: written_vars_def)
  from this [of "pa_Segments p"] show ?thesis
    using wf by (auto simp: seg Some method_wf_def path_wf_def written_vars_def)
qed

lemma mux_pattern_iff: "mux_pattern ss \<longleftrightarrow> [] \<notin> set ss \<and> list_all (\<lambda>s. \<not> EndsRoute s) (butlast ss)"
  by (induction ss) auto

text \<open>A method whose checks are silent, in a service whose base path and prefix are clean.\<close>

lemma method_route_accepted:
  assumes wf: "method_wf m" and LD: "ascii_tables L D"
    and base: "checkBasePathPattern L D manifest (si_basePath si) = []" and pfx: "checkPrefixPattern L D si = []"
    and ends: "checkRouteEnd L D svcName m (registeredRoute si m) = []"
    and segs: "checkMethodPathSegments L D svcName m = []" and dups: "checkDuplicatePathVars si svcName m = []"
  shows "mux_accepts L D (registeredRoute si m)"
proof -
  let ?b = "Segments (si_basePath si)" and ?p = "Segments (ServicePrefix (si_Primary si))" and ?m = "Segments (method_path m)"
  have rt: "Segments (registeredRoute si m) = ?b @ ?p @ ?m" by (simp add: registeredRoute_def Segments_Resolve)
  note b = base_loop_silent [OF base [unfolded checkBasePathPattern_def]]
  note p = prefix_silent [OF pfx, unfolded Vars_seg_vars]
  note ms = method_segments [OF wf LD segs]
  have vars: "distinct (seg_vars ?m) \<and> set (seg_vars ?m) \<inter> (set (seg_vars ?b) \<union> set (seg_vars ?p)) = {}"
  proof (cases "me_Path m")
    case (Some path)
    then show ?thesis using dups ms duplicate_var_silent [of svcName m "bound_before si" "{}" "pa_Segments path"]
      by (simp add: checkDuplicatePathVars_def bound_before_dom Vars_seg_vars)
  qed (use ms in simp)
  have ok: "list_all (\<lambda>s. SegmentProblem L D s = None) (Segments (registeredRoute si m))"
    using b p ms unfolding rt by (auto simp: list_all_iff)
  moreover have "mux_pattern (Segments (registeredRoute si m))"
  proof -
    have "list_all (\<lambda>s. \<not> EndsRoute s) (butlast (Segments (registeredRoute si m)))"
      using ends ok in_set_butlastD by (fastforce simp: checkRouteEnd_def list_all_iff filter_empty_conv)
    then show ?thesis unfolding mux_pattern_iff using Segments_mem by blast
  qed
  moreover have "distinct (Vars (registeredRoute si m))"
    unfolding Vars_seg_vars rt using b p vars by auto
  ultimately show ?thesis by (simp add: mux_accepts_def)
qed

section \<open>A clean project\<close>

text \<open>Every check on routes is silent: those of the base path, of each package and of the project.\<close>

definition routes_clean :: "(rune \<Rightarrow> bool) \<Rightarrow> (rune \<Rightarrow> bool) \<Rightarrow> Position \<Rightarrow> string \<Rightarrow> string list \<Rightarrow> Project \<Rightarrow> bool" where
  "routes_clean L D manifest base healths p \<longleftrightarrow>
     checkBasePathPattern L D manifest base = []
     \<and> list_all (\<lambda>(_, pkg). checkPathResolution L D healths p pkg = [] \<and> checkServiceMethods pkg = []) (pr_Packages p)
     \<and> checkProjectPathCollision p = []"

lemma routes_cleanD:
  assumes "routes_clean L D manifest base healths p" "Packages p name = Some pkg" "map_of (p_Services pkg) svcName = Some si"
  shows "checkPrefixPattern L D si = []" and "service_methods si [] [] (si_Methods si) = []"
    and "m \<in> set (si_Methods si) \<Longrightarrow> checkRouteEnd L D svcName m (registeredRoute si m) = []
      \<and> checkMethodPathSegments L D svcName m = [] \<and> checkDuplicatePathVars si svcName m = []
      \<and> checkMethodPathParams p pkg svcName m (Service_Decorators si m) (registeredRoute si m) = []"
proof -
  have pkg: "checkPathResolution L D healths p pkg = []" "checkServiceMethods pkg = []"
    using assms(1) map_of_SomeD [OF assms(2)] unfolding routes_clean_def list_all_iff by blast+
  have "svcName \<in> set (sorted_keys (p_Services pkg))" unfolding sorted_keys_dom assms(3) by simp
  from concat_map_Nil [OF pkg(1) [unfolded checkPathResolution_def Let_def] this]
  have all: "checkPrefixPattern L D si @ concat (map (check_method_route L D p pkg
      (set (if healths = [] then defaultHealthPaths else healths)) svcName si) (si_Methods si)) = []"
    unfolding assms(3) option.case .
  note svc = concat_map_Nil [OF append_is_Nil_conv [THEN iffD1, THEN conjunct2, OF all]]
  show "checkPrefixPattern L D si = []" using all by (rule append_is_Nil_conv [THEN iffD1, THEN conjunct1])
  show "service_methods si [] [] (si_Methods si) = []"
    using concat_map_Nil [OF pkg(2) [unfolded checkServiceMethods_def] map_of_SomeD [OF assms(3)]] by simp
  show "m \<in> set (si_Methods si) \<Longrightarrow> checkRouteEnd L D svcName m (registeredRoute si m) = []
      \<and> checkMethodPathSegments L D svcName m = [] \<and> checkDuplicatePathVars si svcName m = []
      \<and> checkMethodPathParams p pkg svcName m (Service_Decorators si m) (registeredRoute si m) = []"
    using svc by (simp add: check_method_route_def Let_def)
qed

text \<open>The route of a method is found once among the methods of a service, and once among services.\<close>

definition route_key :: "ServiceInfo \<Rightarrow> Method \<Rightarrow> string" where
  "route_key si m = me_Verb m @ '' '' @ Shape (registeredRoute si m)"

lemma service_methods_silent:
  "service_methods si seenName seenRoute ms = [] \<Longrightarrow>
     distinct (map (route_key si) ms) \<and> route_key si ` set ms \<inter> dom (map_of seenRoute) = {}"
proof (induction ms arbitrary: seenName seenRoute)
  case (Cons m ms)
  let ?key = "route_key si m"
  have fresh: "map_of seenRoute ?key = None" and
    rest: "\<exists>names. service_methods si names (AList.update ?key (me_Pos m) seenRoute) ms = []"
    using Cons.prems by (auto simp: Let_def route_key_def split: option.splits)
  then obtain names where "service_methods si names (AList.update ?key (me_Pos m) seenRoute) ms = []" by blast
  from Cons.IH [OF this] fresh show ?case by (auto simp: dom_update)
qed simp

abbreviation entry_owner :: "routeEntry \<Rightarrow> string \<times> string" where
  "entry_owner e \<equiv> (re_pkg e, re_service e)"

abbreviation entry_key :: "routeEntry \<Rightarrow> string \<times> string" where
  "entry_key e \<equiv> (re_verb e, re_shape e)"

text \<open>Entries of one verb and shape are of one service.\<close>

lemma same_shapes_silent:
  "same_shapes fs es = [] \<Longrightarrow>
     \<exists>own. (\<forall>k e. map_of fs k = Some e \<longrightarrow> own k = entry_owner e) \<and> (\<forall>e \<in> set es. own (entry_key e) = entry_owner e)"
proof (induction es arbitrary: fs)
  case Nil
  show ?case by (rule exI [of _ "\<lambda>k. entry_owner (the (map_of fs k))"]) simp
next
  case (Cons a es)
  show ?case
  proof (cases "map_of fs (entry_key a)")
    case None
    with Cons.prems have "same_shapes (AList.update (entry_key a) a fs) es = []" by simp
    from Cons.IH [OF this] obtain own
      where own: "\<And>k e. map_of (AList.update (entry_key a) a fs) k = Some e \<Longrightarrow> own k = entry_owner e"
        "\<forall>e \<in> set es. own (entry_key e) = entry_owner e" by blast
    have "own k = entry_owner e" if "map_of fs k = Some e" for k e
      using own(1) [of k e] that None by (cases "k = entry_key a") (auto simp: update_conv')
    moreover have "own (entry_key a) = entry_owner a" by (rule own(1)) (simp add: update_conv')
    ultimately show ?thesis using own(2) by auto
  next
    case (Some prev)
    with Cons.prems have "entry_owner prev = entry_owner a" "same_shapes fs es = []" by (auto split: if_splits)
    with Cons.IH [of fs] Some show ?thesis by (metis list.set_cases set_ConsD)
  qed
qed


lemma verb_names: "IsVerb k \<Longrightarrow> kindNames k \<in> set [''get'', ''post'', ''put'', ''patch'', ''delete'', ''head'', ''options'']"
  by (cases k) (simp_all add: IsVerb_def less_eq_kind_def)

lemma ToUpper_verbs: "inj_on ToUpper (set [''get'', ''post'', ''put'', ''patch'', ''delete'', ''head'', ''options''])"
proof -
  have "distinct (map ToUpper [''get'', ''post'', ''put'', ''patch'', ''delete'', ''head'', ''options''])" by code_simp
  then show ?thesis by (simp only: distinct_map)
qed

lemma verb_key_inj:
  assumes "method_wf m" "method_wf m'" and "ToUpper (me_Verb m) = ToUpper (me_Verb m')"
  shows "me_Verb m = me_Verb m'"
  using assms verb_names ToUpper_verbs [THEN inj_onD] unfolding method_wf_def by metis

text \<open>The entries of the table: one per method, its route and shape from the service.\<close>

definition entry_of :: "string \<Rightarrow> string \<Rightarrow> ServiceInfo \<Rightarrow> Method \<Rightarrow> routeEntry" where
  "entry_of pkg svc si m = \<lparr>re_verb = ToUpper (me_Verb m), re_route = registeredRoute si m, re_shape = Shape (registeredRoute si m),
     re_pos = me_Pos m, re_pkg = pkg, re_service = svc, re_method = me_Name m\<rparr>"

definition service_entries :: "string \<times> string \<times> ServiceInfo \<Rightarrow> routeEntry list" where
  "service_entries s = map (entry_of (fst s) (fst (snd s)) (snd (snd s))) (si_Methods (snd (snd s)))"

lemma route_entries_concat: "route_entries p = concat (map service_entries (project_services p))"
  by (simp add: route_entries_def project_methods_def service_entries_def [abs_def] entry_of_def [abs_def] map_concat comp_def case_prod_unfold)

lemma entry_keys_distinct:
  assumes clean: "routes_clean L D manifest base healths p"
    and keys: "distinct (map service_key (project_services p))"
    and wf: "\<And>pkg svc si. (pkg, svc, si) \<in> set (project_services p) \<Longrightarrow> list_all method_wf (si_Methods si)"
  shows "distinct (map entry_key (route_entries p))"
proof -
  have one: "distinct (map entry_key (service_entries s))" if "s \<in> set (project_services p)" for s
  proof -
    obtain pkgName svc si where s: "s = (pkgName, svc, si)" by (cases s)
    with that obtain pkg where "Packages p pkgName = Some pkg" "map_of (p_Services pkg) svc = Some si"
      by (auto simp: project_services_iff)
    from service_methods_silent [OF routes_cleanD(2) [OF clean this]]
    have d: "distinct (map (route_key si) (si_Methods si))" by blast
    have "inj_on (\<lambda>m. entry_key (entry_of pkgName svc si m)) (set (si_Methods si))"
    proof (rule inj_onI)
      fix m m' assume m: "m \<in> set (si_Methods si)" "m' \<in> set (si_Methods si)"
        and eq: "entry_key (entry_of pkgName svc si m) = entry_key (entry_of pkgName svc si m')"
      have "me_Verb m = me_Verb m'" using wf that m eq s by (intro verb_key_inj) (auto simp: list_all_iff entry_of_def)
      then have "route_key si m = route_key si m'" using eq by (simp add: route_key_def entry_of_def)
      then show "m = m'" using d m by (auto simp: distinct_map dest: inj_onD)
    qed
    with d show ?thesis by (auto simp: s service_entries_def distinct_map comp_def)
  qed
  have "same_shapes [] (route_entries p) = []" using clean by (simp add: routes_clean_def checkProjectPathCollision_def Let_def)
  from same_shapes_silent [OF this] obtain own where own: "\<forall>e \<in> set (route_entries p). own (entry_key e) = entry_owner e" by blast
  have "distinct (map (\<lambda>e. (entry_owner e, entry_key e)) (route_entries p))"
    unfolding route_entries_concat
  proof (rule distinct_concat_keys [where key = service_key and h = fst, OF keys])
    fix s assume "s \<in> set (project_services p)"
    from one [OF this] show "distinct (map (\<lambda>e. (entry_owner e, entry_key e)) (service_entries s))"
      by (auto simp: distinct_map inj_on_def)
  qed (auto simp: service_entries_def entry_of_def)
  then have inj: "inj_on (\<lambda>e. (entry_owner e, entry_key e)) (set (route_entries p))" and "distinct (route_entries p)"
    by (simp_all only: distinct_map)
  have "inj_on entry_key (set (route_entries p))"
  proof (rule inj_onI)
    fix e e' assume e: "e \<in> set (route_entries p)" "e' \<in> set (route_entries p)" and eq: "entry_key e = entry_key e'"
    have "entry_owner e = entry_owner e'"
      by (rule trans [OF bspec [OF own e(1), symmetric] trans [OF arg_cong [OF eq, of own] bspec [OF own e(2)]]])
    with eq show "e = e'" by (intro inj_onD [OF inj _ e]) simp
  qed
  with \<open>distinct (route_entries p)\<close> show ?thesis by (simp only: distinct_map)
qed

text \<open>Two routes of one verb with as many segments.\<close>

lemma routes_no_conflict:
  assumes clean: "routes_clean L D manifest base healths p" and keys: "distinct (map entry_key (route_entries p))"
    and ij: "i < length (route_entries p)" "j < i" and verb: "re_verb (route_entries p ! i) = re_verb (route_entries p ! j)"
    and mux: "mux_pattern (Segments (re_route (route_entries p ! i)))" "mux_pattern (Segments (re_route (route_entries p ! j)))"
    and len: "length (Segments (re_route (route_entries p ! i))) = length (Segments (re_route (route_entries p ! j)))"
  shows "\<not> mux_conflict (Segments (re_route (route_entries p ! i))) (Segments (re_route (route_entries p ! j)))"
proof -
  let ?es = "route_entries p"
  have "concat (map (\<lambda>i. concat (map (\<lambda>j. overlap_pair (?es ! i) (?es ! j)) [0..<i])) [1..<length ?es]) = []"
    using clean by (simp add: routes_clean_def checkProjectPathCollision_def Let_def)
  from concat_map_Nil [OF concat_map_Nil [OF this]] have "overlap_pair (?es ! i) (?es ! j) = []" using ij by simp
  moreover have "re_shape (?es ! i) \<noteq> re_shape (?es ! j)"
    using keys ij verb nth_eq_iff_index_eq [of "map entry_key ?es" i j] by auto
  ultimately have "\<not> PatternsConflict (re_route (?es ! i)) (re_route (?es ! j))"
    using verb by (auto simp: overlap_pair_def split: if_splits)
  then show ?thesis using PatternsConflict_sets [OF mux len] by blast
qed

lemma build_project_clean:
  assumes wf: "list_all (\<lambda>f. list_all decl_wf (f_Decls f)) files"
    and clean: "routes_clean L D manifest base healths (build_project base files)"
    and LD: "ascii_tables L D"
  shows "distinct (map entry_key (route_entries (build_project base files)))"
    and "(pkg, svc, si) \<in> set (project_services (build_project base files)) \<Longrightarrow> service_wf base si"
    and "(pkg, svc, si) \<in> set (project_services (build_project base files)) \<Longrightarrow> m \<in> set (si_Methods si) \<Longrightarrow>
      mux_accepts L D (registeredRoute si m)"
proof -
  let ?p = "build_project base files"
  show svc: "service_wf base si" if "(pkg, svc, si) \<in> set (project_services ?p)" for pkg svc si
    using that build_project_services(2) [OF wf] by (auto simp: project_services_iff)
  show "distinct (map entry_key (route_entries ?p))"
  proof (rule entry_keys_distinct [OF clean])
    show "distinct (map service_key (project_services ?p))"
      by (rule project_services_distinct [OF distinct_packages build_project_services(1) [OF wf]])
  qed (use svc service_wf_def in blast)
  assume s: "(pkg, svc, si) \<in> set (project_services ?p)" and m: "m \<in> set (si_Methods si)"
  then obtain k where k: "Packages ?p pkg = Some k" "map_of (p_Services k) svc = Some si"
    by (auto simp: project_services_iff)
  have "method_wf m" "si_basePath si = base" using svc [OF s] m by (auto simp: service_wf_def list_all_iff)
  moreover have "checkBasePathPattern L D manifest base = []" using clean by (simp add: routes_clean_def)
  ultimately show "mux_accepts L D (registeredRoute si m)"
    using routes_cleanD [OF clean k] m LD by (intro method_route_accepted) auto
qed


section \<open>Served routes\<close>

text \<open>The segments of a registered pattern: those of the route, with \<open>{$}\<close> for a root route.\<close>

lemma Join_Nil_iff: "list_all (\<lambda>w. w \<noteq> []) ws \<Longrightarrow> Join ws ''/'' = [] \<longleftrightarrow> ws = []"
  by (cases "(ws, ''/'')" rule: Join.cases) auto

lemma Segments_ServePath:
  "Segments (ServePath base svc m) =
     (if Segments (ServicePrefix svc) @ Segments (method_path m) = [] then Segments base @ [''{$}'']
      else Segments (Resolve base svc m))"
proof -
  let ?ws = "Segments (ServicePrefix svc) @ Segments (method_path m)"
  have "list_all (\<lambda>w. w \<noteq> []) ?ws" using Segments_mem by (auto simp: list_all_iff)
  then have root: "Resolve [] svc m = ''/'' \<longleftrightarrow> ?ws = []" by (simp add: Resolve_segments Join_Nil_iff)
  show ?thesis
  proof (cases "?ws = []")
    case True
    have "Segments (TrimSuffix full ''/'' @ ''/{$}'') = Segments full @ [''{$}'']" for full
    proof -
      have trim: "Segments (TrimSuffix full ''/'') = Segments full"
      proof (cases "HasSuffix full ''/''")
        case True
        then obtain u where "full = u @ ''/''" unfolding HasSuffix_def by (metis append_take_drop_id)
        then show ?thesis using Segments_append [of u "[]"] by (simp add: TrimSuffix_def HasSuffix_def)
      qed (simp add: TrimSuffix_def)
      have "Segments ''{$}'' = [''{$}'']" by code_simp
      then show ?thesis using Segments_append [of "TrimSuffix full ''/''" "''{$}''"] trim by simp
    qed
    moreover have "Segments (Resolve base svc m) = Segments base" using True by (simp add: Segments_Resolve)
    ultimately show ?thesis using True root by (simp add: ServePath_def Let_def)
  next
    case False
    then show ?thesis using root by (auto simp: ServePath_def Let_def)
  qed
qed

text \<open>Paths of patterns whose segments do not end a route have their length and no empty segment.\<close>

lemma pattern_matches_plain:
  "list_all (\<lambda>s. s \<noteq> [] \<and> \<not> EndsRoute s) ss \<Longrightarrow> pattern_matches ss p \<Longrightarrow> length p = length ss \<and> [] \<notin> set p"
  by (induction ss arbitrary: p) (auto split: list.splits if_splits)

lemma pattern_matches_root:
  "list_all (\<lambda>s. s \<noteq> [] \<and> \<not> EndsRoute s) ss \<Longrightarrow> pattern_matches (ss @ [''{$}'']) p \<Longrightarrow> [] \<in> set p"
  by (induction ss arbitrary: p) (auto split: list.splits if_splits)


text \<open>No segment of the base path or of a prefix ends a route.\<close>

definition bounded_routes :: "string \<Rightarrow> Project \<Rightarrow> bool" where
  "bounded_routes base p \<longleftrightarrow>
     list_all (\<lambda>s. \<not> EndsRoute s) (Segments base)
     \<and> list_all (\<lambda>(_, _, si). list_all (\<lambda>s. \<not> EndsRoute s) (Segments (ServicePrefix (si_Primary si)))) (project_services p)"

text \<open>The registered patterns of a project: verb and path, in the order of \<open>project_methods\<close>.\<close>

definition served :: "Project \<Rightarrow> (string \<times> string) list" where
  "served p = map (\<lambda>(_, _, si, m). (ToUpper (me_Verb m), ServePath (si_basePath si) (si_Primary si) m)) (project_methods p)"

lemma project_methods_nth:
  assumes "i < length (project_methods p)"
  obtains pkg svc si m where "project_methods p ! i = (pkg, svc, si, m)" "(pkg, svc, si) \<in> set (project_services p)"
    "m \<in> set (si_Methods si)" "route_entries p ! i = entry_of pkg svc si m"
    "served p ! i = (ToUpper (me_Verb m), ServePath (si_basePath si) (si_Primary si) m)"
proof -
  obtain pkg svc si m where i: "project_methods p ! i = (pkg, svc, si, m)" by (cases "project_methods p ! i")
  then have "(pkg, svc, si, m) \<in> set (project_methods p)" using assms by (metis nth_mem)
  with i assms that show thesis by (auto simp: project_methods_def route_entries_def served_def entry_of_def)
qed


lemma plain_segments:
  assumes wf: "list_all (\<lambda>f. list_all decl_wf (f_Decls f)) files"
    and clean: "routes_clean L D manifest base healths (build_project base files)"
    and LD: "ascii_tables L D"
    and bounded: "bounded_routes base (build_project base files)"
    and s: "(pkg, svc, si) \<in> set (project_services (build_project base files))" and m: "m \<in> set (si_Methods si)"
  shows "list_all (\<lambda>s. s \<noteq> [] \<and> \<not> EndsRoute s) (Segments base)"
    and "list_all (\<lambda>s. s \<noteq> [] \<and> \<not> EndsRoute s) (Segments (registeredRoute si m))"
proof -
  let ?p = "build_project base files"
  obtain k where k: "Packages ?p pkg = Some k" "map_of (p_Services k) svc = Some si"
    using s by (auto simp: project_services_iff)
  have "method_wf m" and base: "si_basePath si = base"
    using build_project_clean(2) [OF wf clean LD s] m by (auto simp: service_wf_def list_all_iff)
  then have "list_all (\<lambda>s. \<not> EndsRoute s) (Segments (method_path m))"
    using method_segments [OF _ LD, of m svc] routes_cleanD(3) [OF clean k m] by (auto simp: list_all_iff)
  moreover have "list_all (\<lambda>s. \<not> EndsRoute s) (Segments base)"
    "list_all (\<lambda>s. \<not> EndsRoute s) (Segments (ServicePrefix (si_Primary si)))"
    using bounded s by (auto simp: bounded_routes_def list_all_iff)
  ultimately show "list_all (\<lambda>s. s \<noteq> [] \<and> \<not> EndsRoute s) (Segments base)"
    "list_all (\<lambda>s. s \<noteq> [] \<and> \<not> EndsRoute s) (Segments (registeredRoute si m))"
    by (auto simp: registeredRoute_def Segments_Resolve base list_all_iff)
qed

text \<open>The registered path of one method, by whether its own part of the route is empty.\<close>

lemma served_segments:
  assumes "si_basePath si = base"
  shows "Segments (ServePath (si_basePath si) (si_Primary si) m) =
     (if Segments (registeredRoute si m) = Segments base then Segments base @ [''{$}''] else Segments (registeredRoute si m))"
  using assms by (simp add: Segments_ServePath registeredRoute_def Segments_Resolve)

lemma root_accepted:
  assumes "mux_accepts L D rt" "list_all (\<lambda>s. s \<noteq> [] \<and> \<not> EndsRoute s) (Segments rt)" "Segments rt' = Segments rt @ [''{$}'']"
  shows "mux_accepts L D rt'"
proof -
  have "SegmentProblem L D ''{$}'' = None" "seg_vars [''{$}''] = []" by code_simp+
  with assms show ?thesis
    by (auto simp: mux_accepts_def mux_pattern_iff Vars_seg_vars list_all_iff simp del: seg_vars_simps(2))
qed

lemma mux_conflict_paths:
  "mux_conflict ss ts \<Longrightarrow> \<exists>p. pattern_matches ss p \<and> pattern_matches ts p"
  by (auto simp: mux_conflict_def)

lemma mux_conflict_sym: "mux_conflict ss ts \<longleftrightarrow> mux_conflict ts ss"
  by (auto simp: mux_conflict_def)


lemma no_shared_path:
  assumes "list_all (\<lambda>s. s \<noteq> [] \<and> \<not> EndsRoute s) ss" "list_all (\<lambda>s. s \<noteq> [] \<and> \<not> EndsRoute s) ts"
  shows "length ss \<noteq> length ts \<Longrightarrow> \<not> mux_conflict ss ts" and "\<not> mux_conflict (ss @ [''{$}'']) ts"
proof -
  note a = pattern_matches_plain [OF assms(1)] and b = pattern_matches_plain [OF assms(2)]
  show "\<not> mux_conflict ss ts" if "length ss \<noteq> length ts" using a b that mux_conflict_paths [of ss ts] by metis
  show "\<not> mux_conflict (ss @ [''{$}'']) ts" using pattern_matches_root [OF assms(1)] b by (fastforce dest!: mux_conflict_paths)
qed

lemma served_accepted:
  assumes "list_all (\<lambda>f. list_all decl_wf (f_Decls f)) files" "routes_clean L D manifest base healths (build_project base files)"
    "ascii_tables L D" "bounded_routes base (build_project base files)"
  shows "list_all (\<lambda>(_, rt). mux_accepts L D rt) (served (build_project base files))"
proof -
  let ?p = "build_project base files"
  have "mux_accepts L D (snd (served ?p ! i))" if n: "i < length (project_methods ?p)" for i
  proof -
    obtain pkg svc si m where s: "(pkg, svc, si) \<in> set (project_services ?p)" and m: "m \<in> set (si_Methods si)"
      and i: "served ?p ! i = (ToUpper (me_Verb m), ServePath (si_basePath si) (si_Primary si) m)"
      using project_methods_nth [OF n] by metis
    have "si_basePath si = base" using build_project_clean(2) [OF assms(1-3) s] by (simp add: service_wf_def)
    note segs = served_segments [OF this, of m]
    have ok: "mux_accepts L D (registeredRoute si m)" using build_project_clean(3) [OF assms(1-3) s m] .
    show ?thesis
    proof (cases "Segments (registeredRoute si m) = Segments base")
      case True
      then show ?thesis using root_accepted [OF ok plain_segments(2) [OF assms s m]] segs by (simp add: i)
    next
      case False
      then show ?thesis using ok segs by (simp add: i mux_accepts_def Vars_seg_vars)
    qed
  qed
  then show ?thesis by (simp add: list_all_length served_def split_beta)
qed

lemma served_no_conflict:
  assumes "list_all (\<lambda>f. list_all decl_wf (f_Decls f)) files" "routes_clean L D manifest base healths (build_project base files)"
    "ascii_tables L D" "bounded_routes base (build_project base files)"
  defines "p \<equiv> build_project base files"
  assumes ij: "i < length (served p)" "j < i" and verb: "fst (served p ! i) = fst (served p ! j)"
  shows "\<not> mux_conflict (Segments (snd (served p ! i))) (Segments (snd (served p ! j)))"
proof -
  have len: "length (served p) = length (project_methods p)" "length (route_entries p) = length (project_methods p)"
    by (simp_all add: served_def route_entries_def)
  have ij': "i < length (project_methods p)" "j < length (project_methods p)" using ij len by simp_all
  obtain pkg svc si m where s: "(pkg, svc, si) \<in> set (project_services p)" "m \<in> set (si_Methods si)"
    and i: "route_entries p ! i = entry_of pkg svc si m"
      "served p ! i = (ToUpper (me_Verb m), ServePath (si_basePath si) (si_Primary si) m)"
    using project_methods_nth [OF ij'(1)] by metis
  obtain pkg' svc' si' m' where s': "(pkg', svc', si') \<in> set (project_services p)" "m' \<in> set (si_Methods si')"
    and j: "route_entries p ! j = entry_of pkg' svc' si' m'"
      "served p ! j = (ToUpper (me_Verb m'), ServePath (si_basePath si') (si_Primary si') m')"
    using project_methods_nth [OF ij'(2)] by metis
  note base = build_project_clean(2) [OF assms(1-3), folded p_def, unfolded service_wf_def, THEN conjunct1]
  note segs = served_segments [OF base [OF s(1)], of m] served_segments [OF base [OF s'(1)], of m']
  note plain = plain_segments [OF assms(1-4), folded p_def, OF s] plain_segments [OF assms(1-4), folded p_def, OF s']
  let ?a = "Segments (registeredRoute si m)" and ?b = "Segments (registeredRoute si' m')"
  have keys: "distinct (map entry_key (route_entries p))" using build_project_clean(1) [OF assms(1-3)] by (simp add: p_def)
  have differ: "?a \<noteq> ?b"
  proof
    assume "?a = ?b"
    then have "entry_key (route_entries p ! i) = entry_key (route_entries p ! j)"
      using verb by (simp add: i j entry_of_def Shape_segments)
    then show False using keys ij len nth_eq_iff_index_eq [of "map entry_key (route_entries p)" i j] by simp
  qed
  consider (one) "?a = Segments base" "?b \<noteq> Segments base" | (other) "?a \<noteq> Segments base" "?b = Segments base"
    | (len) "?a \<noteq> Segments base" "?b \<noteq> Segments base" "length ?a \<noteq> length ?b"
    | (same) "?a \<noteq> Segments base" "?b \<noteq> Segments base" "length ?a = length ?b" using differ by metis
  then show ?thesis
  proof cases
    case same
    have "mux_pattern ?a" "mux_pattern ?b" using plain by (auto simp: mux_pattern_iff list_all_iff dest: in_set_butlastD)
    then show ?thesis using routes_no_conflict [OF assms(2) [folded p_def] keys, of i j] ij len verb same segs
      by (simp add: i j entry_of_def)
  qed (use no_shared_path plain segs mux_conflict_sym in \<open>simp_all add: i j\<close>)
qed


section \<open>Path variables and request fields\<close>

lemma route_variables_names:
  assumes "\<And>n w. map_of written n = Some w \<Longrightarrow> w \<noteq> []" "set names = dom (map_of written)" "[] \<notin> set segs"
  shows "set (fst (route_variables segs names written)) = set names \<union> set (seg_vars segs)"
  using assms
proof (induction segs arbitrary: names written)
  case (Cons seg segs)
  obtain name ok where n: "WildcardName seg = (name, ok)" by (cases "WildcardName seg")
  have "set (fst (route_variables segs (names @ [name]) (AList.update name seg written)))
      = set (names @ [name]) \<union> set (seg_vars segs)"
    using Cons.prems by (intro Cons.IH) (auto simp: dom_update update_conv' split: if_splits)
  then show ?case using Cons n by (auto split: option.splits)
qed simp

lemma routeVariables_names: "set (fst (routeVariables rt)) = set (Vars rt)"
  using route_variables_names [of "[]" "[]" "Segments rt"] by (simp add: routeVariables_def Vars_seg_vars)

lemma BindingKind_none: "BindingKind ds = (b, False) \<Longrightarrow> FindDecorator ds (Binding_String BindPath) = None"
proof (induction ds rule: BindingKind.induct)
  case (3 d ds)
  then show ?case using bindingNamed_String [of BindPath] by (auto split: prod.splits if_splits)
qed simp_all

lemma auto_path_name:
  assumes "RequestFieldBinding f names bodyVerb = (BindPath, True)"
  shows "WireName (Some f) BindPath \<in> names"
proof -
  have "FindDecorator (decs (fd_Decorators f)) (Binding_String BindPath) = None" and "fd_Name f \<in> names"
    using assms BindingKind_none [of "decs (fd_Decorators f)"]
    by (auto simp: RequestFieldBinding_def split: if_splits prod.splits)
  then show ?thesis
    using Arg_FindDecorator by (fastforce simp: WireName_def nameArg_def StringArg_def split: option.splits)
qed

text \<open>The path variables the fields of a flattened request bind.\<close>

definition bound_names :: "FlatField list \<Rightarrow> string \<Rightarrow> string \<Rightarrow> string set" where
  "bound_names flat rt verb =
     {WireName (Some (ff_Field ff)) BindPath | ff.
        ff \<in> set flat \<and> fst (RequestFieldBinding (ff_Field ff) (set (Vars rt)) (IsBodyVerb verb)) = BindPath}"

lemma requestPathFields_all:
  assumes "instanceFields p (p_Name pkg) (me_Request m) = Some (home, flat)"
  obtains rf where "requestPathFields p pkg m (fst (routeVariables rt)) = Some rf" "pps_all rf = bound_names flat rt (me_Verb m)"
    "set (pps_explicit rf) \<subseteq> pps_all rf" "pps_all rf \<subseteq> set (Vars rt) \<union> set (pps_explicit rf)"
proof -
  let ?b = "List.map_filter (bound_path (fst (routeVariables rt)) (IsBodyVerb (me_Verb m))) flat"
  have bound: "bound_path (fst (routeVariables rt)) (IsBodyVerb (me_Verb m)) ff = Some (w, a) \<longleftrightarrow>
      RequestFieldBinding (ff_Field ff) (set (Vars rt)) (IsBodyVerb (me_Verb m)) = (BindPath, a)
      \<and> w = WireName (Some (ff_Field ff)) BindPath" for ff w a
    by (auto simp: bound_path_def routeVariables_names split: prod.splits if_splits)
  have mem: "(w, a) \<in> set ?b \<longleftrightarrow> (\<exists>ff \<in> set flat. bound_path (fst (routeVariables rt)) (IsBodyVerb (me_Verb m)) ff = Some (w, a))" for w a
    by (force simp: List.map_filter_def image_iff)
  have all: "fst ` set ?b = bound_names flat rt (me_Verb m)"
  proof (intro set_eqI iffI)
    fix w assume "w \<in> fst ` set ?b"
    then show "w \<in> bound_names flat rt (me_Verb m)" unfolding bound_names_def
      by (auto simp: mem bound) (metis fst_conv)
  next
    fix w assume "w \<in> bound_names flat rt (me_Verb m)"
    then obtain ff where "ff \<in> set flat" "w = WireName (Some (ff_Field ff)) BindPath"
      "fst (RequestFieldBinding (ff_Field ff) (set (Vars rt)) (IsBodyVerb (me_Verb m))) = BindPath"
      unfolding bound_names_def by blast
    then have "(w, snd (RequestFieldBinding (ff_Field ff) (set (Vars rt)) (IsBodyVerb (me_Verb m)))) \<in> set ?b"
      unfolding mem bound by (metis prod.collapse)
    then show "w \<in> fst ` set ?b" by force
  qed
  have "w \<in> set (Vars rt)" if "(w, True) \<in> set ?b" for w
    using that auto_path_name by (auto simp: mem bound)
  then have "fst ` set ?b \<subseteq> set (Vars rt) \<union> fst ` {x \<in> set ?b. \<not> snd x}" by force
  moreover have "fst ` {x \<in> set ?b. \<not> snd x} \<subseteq> fst ` set ?b" by blast
  ultimately show thesis using all that assms by (simp add: requestPathFields_def Let_def split_beta)
qed

text \<open>
  C14. The path parameters of a method are in order exactly when its route and its request agree:
  without a request the route has no variable, unless the method takes the raw request; with
  one, the variables of the route are exactly the wire names of the flattened fields bound to
  the path, by \<open>@path\<close> or by a name that is a variable of the route.
\<close>

theorem path_variables_bound:
  "checkMethodPathParams p pkg svcName m ds rt = [] \<longleftrightarrow>
     (case me_Request m of
        None \<Rightarrow> Vars rt = [] \<or> fst (RawSides (decs ds))
      | Some req \<Rightarrow>
          (case instanceFields p (p_Name pkg) (Some req) of
             None \<Rightarrow> True
           | Some (_, flat) \<Rightarrow> nt_Name req = None \<and> Vars rt = [] \<or> set (Vars rt) = bound_names flat rt (me_Verb m)))"
proof -
  obtain names written where nw: "routeVariables rt = (names, written)" by (cases "routeVariables rt")
  have names: "set names = set (Vars rt)" using routeVariables_names [of rt] nw by simp
  then have empty: "names = [] \<longleftrightarrow> Vars rt = []" by (metis set_empty)
  show ?thesis
  proof (cases "me_Request m")
    case None
    then show ?thesis using empty by (simp add: checkMethodPathParams_def nw)
  next
    case (Some req)
    show ?thesis
    proof (cases "instanceFields p (p_Name pkg) (Some req)")
      case None
      then have "requestPathFields p pkg m names = None" using Some by (simp add: requestPathFields_def)
      with None Some show ?thesis by (simp add: checkMethodPathParams_def nw)
    next
      case (Some inst)
      obtain home flat where inst: "inst = (home, flat)" by (cases inst)
      obtain rf where rf: "requestPathFields p pkg m names = Some rf" "pps_all rf = bound_names flat rt (me_Verb m)"
        "set (pps_explicit rf) \<subseteq> pps_all rf" "pps_all rf \<subseteq> set (Vars rt) \<union> set (pps_explicit rf)"
        using requestPathFields_all [of p pkg m home flat rt] Some \<open>me_Request m = Some req\<close> nw inst by (metis fst_conv)
      have "(\<forall>x \<in> set (pps_explicit rf). x \<in> set names) \<and> (\<forall>q \<in> set names. q \<in> pps_all rf) \<longleftrightarrow> set (Vars rt) = pps_all rf"
        using rf(3,4) names by blast
      then show ?thesis using \<open>me_Request m = Some req\<close> Some inst rf empty names
        by (auto simp: checkMethodPathParams_def nw Let_def filter_empty_conv)
    qed
  qed
qed

end
