(* ===== verification/Routes_Spec.thy ===== *)
theory Routes_Spec
  imports Paths_Spec
begin

text \<open>
  The properties of a design whose route checks are silent, over the files of a project, and two
  designs that pass the checks although ServeMux refuses their routes.
\<close>

section \<open>Routes ServeMux takes\<close>


text \<open>
  Whatever the base path and the prefixes are, the route of every method of a design whose
  checks are silent is a pattern ServeMux takes, and two routes of one verb with as many
  segments do not conflict.
\<close>

theorem declared_routes:
  assumes "list_all (\<lambda>f. list_all decl_wf (f_Decls f)) files" and "ascii_tables L D"
    and "routes_clean L D manifest base healths (build_project base files)"
  shows "list_all (\<lambda>e. mux_accepts L D (re_route e)) (route_entries (build_project base files))
    \<and> sorted_wrt (\<lambda>a b. re_verb a = re_verb b \<and> length (Segments (re_route a)) = length (Segments (re_route b))
          \<longrightarrow> \<not> mux_conflict (Segments (re_route a)) (Segments (re_route b))) (route_entries (build_project base files))"
  (is "?ok \<and> ?free")
proof
  let ?p = "build_project base files"
  have "mux_accepts L D (re_route e)" if "e \<in> set (route_entries ?p)" for e
    using that build_project_clean(3) [OF assms(1,3,2)]
    by (auto simp: route_entries_concat service_entries_def entry_of_def)
  then show ok: ?ok by (simp add: list_all_iff)
  then have mux: "mux_pattern (Segments (re_route (route_entries ?p ! i)))" if "i < length (route_entries ?p)" for i
    using that by (simp add: list_all_length mux_accepts_def)
  show ?free unfolding sorted_wrt_iff_nth_less
  proof (intro allI impI, elim conjE)
    fix i j assume ij: "i < j" "j < length (route_entries ?p)"
      and eq: "re_verb (route_entries ?p ! i) = re_verb (route_entries ?p ! j)"
        "length (Segments (re_route (route_entries ?p ! i))) = length (Segments (re_route (route_entries ?p ! j)))"
    have i: "i < length (route_entries ?p)" using ij by simp
    show "\<not> mux_conflict (Segments (re_route (route_entries ?p ! i))) (Segments (re_route (route_entries ?p ! j)))"
      unfolding mux_conflict_sym [of "Segments (re_route (route_entries ?p ! i))"]
      by (rule routes_no_conflict [OF assms(3) build_project_clean(1) [OF assms(1,3,2)] ij(2,1) eq(1) [symmetric]
            mux [OF ij(2)] mux [OF i] eq(2) [symmetric]])
  qed
qed

section \<open>Examples\<close>

text \<open>A method \<open>get name path\<close> that takes the raw request, a service with its prefix, and a file of services.\<close>

definition pos0 :: Position where
  "pos0 = \<lparr>pos_Filename = [], pos_Offset = 0, pos_Line = 1, pos_Column = 1\<rparr>"

definition sample_decorator :: "string \<Rightarrow> string \<Rightarrow> Decorator" where
  "sample_decorator name arg = \<lparr>dec_Pos = pos0, dec_Name = name,
     dec_Args = [\<lparr>da_Pos = pos0, da_Name = [], da_Named = False, da_Value = Some (StringLit pos0 arg []), da_Object = None\<rparr>],
     dec_HasParens = True\<rparr>"

definition sample_method :: "string \<Rightarrow> (bool \<times> string) list \<Rightarrow> Method" where
  "sample_method name segs = \<lparr>me_Pos = pos0, me_NamePos = pos0, me_Decorators = [sample_decorator ''rawRequest'' []], me_Doc = [],
     me_Verb = ''get'', me_Name = name,
     me_Path = Some \<lparr>pa_Pos = pos0, pa_Segments = map (\<lambda>(q, w). \<lparr>ps_Pos = pos0, ps_Param = q, ps_Literal = w\<rparr>) segs\<rparr>,
     me_Request = None, me_Response = None, me_BodyComments = [], me_EndPos = pos0\<rparr>"

definition sample_service :: "string \<Rightarrow> string \<Rightarrow> Method list \<Rightarrow> Decl" where
  "sample_service name pfx ms = D_Service \<lparr>sv_Pos = pos0, sv_NamePos = pos0, sv_Decorators = [sample_decorator ''prefix'' pfx],
     sv_Doc = [], sv_Name = name, sv_Members = map SM_Method ms, sv_Extend = False, sv_EndPos = pos0\<rparr>"

definition sample_file :: "Decl list \<Rightarrow> File" where
  "sample_file ds = \<lparr>f_LeadingDoc = [], f_Decorators = [], f_Package = Some \<lparr>pd_Pos = pos0, pd_Doc = [], pd_Name = ''a''\<rparr>,
     f_Decls = ds, f_FreeComments = [], f_ChainComments = Map.empty, f_Comments = []\<rparr>"

definition users_files :: "File list" where
  "users_files = [sample_file
     [sample_service ''Users'' ''/users'' [sample_method ''Show'' [(True, ''id'')], sample_method ''Find'' [(False, ''find'')]],
      sample_service ''Home'' [] [sample_method ''Index'' [(False, [])]]]]"

text \<open>A service whose prefix ends the route, beside the root route of another.\<close>

definition root_files :: "File list" where
  "root_files = [sample_file
     [sample_service ''End'' ''/{$}'' [sample_method ''Stop'' [(False, [])]],
      sample_service ''Home'' [] [sample_method ''Index'' [(False, [])]]]]"

text \<open>A service under \<open>{rest...}\<close>, beside a longer route that meets it.\<close>

definition rest_files :: "File list" where
  "rest_files = [sample_file
     [sample_service ''Files'' ''/a/{rest...}'' [sample_method ''Stop'' [(False, [])]],
      sample_service ''Home'' [] [sample_method ''Index'' [(True, ''x''), (False, ''b''), (False, ''c'')]]]]"

lemma sample_wf: "list_all (\<lambda>f. list_all decl_wf (f_Decls f)) fs" if "fs = users_files \<or> fs = rest_files"
proof -
  have "\<exists>k. IsVerb k \<and> ''get'' = kindNames k" by (rule exI [of _ VerbGet]) (simp add: IsVerb_def less_eq_kind_def)
  moreover have "IsIdent ''Users''" "IsIdent ''Home''" "IsIdent ''Show''" "IsIdent ''Find''" "IsIdent ''Index''" "word_ok ''id''"
    "IsIdent ''Files''" "IsIdent ''Stop''" "word_ok ''x''" "list_all literal_char ''b''" "list_all literal_char ''c''"
    "list_all literal_char ''find''" by code_simp+
  ultimately show ?thesis using that
    by (auto simp: users_files_def rest_files_def sample_file_def sample_service_def sample_method_def method_wf_def name_ok_def
        path_wf_def segment_wf_def)
qed

lemma users_clean:
  "routes_clean isLetter isDigit pos0 ''/v1'' [] (build_project ''/v1'' users_files)"
  "bounded_routes ''/v1'' (build_project ''/v1'' users_files)"
  "served (build_project ''/v1'' users_files) =
     [(''GET'', ''/v1/{$}''), (''GET'', ''/v1/users/{id}''), (''GET'', ''/v1/users/find'')]"
  by code_simp+

lemma ascii_tables_refl: "ascii_tables isLetter isDigit"
  by (simp add: ascii_tables_def)


lemma rest_clean:
  "routes_clean isLetter isDigit pos0 [] [] (build_project [] rest_files)"
  "map re_route (route_entries (build_project [] rest_files)) = [''/a/{rest...}'', ''/{x}/b/c'']"
  by code_simp+

theorem declared_routes_witness: "mux_accepts isLetter isDigit ''/a/{rest...}'' \<and> mux_accepts isLetter isDigit ''/{x}/b/c''"
  using declared_routes [OF sample_wf [OF disjI2 [OF refl]] ascii_tables_refl rest_clean(1)] rest_clean(2)
  by (auto simp: list_all_iff map_eq_Cons_conv)



end
