(* ===== verification/Outputs_Spec.thy ===== *)
theory Outputs_Spec
  imports Outputs Routes_Spec "HOL-Library.Multiset"
begin

text \<open>
  The checks on output directories against the files the generators write. A stub is the
  directory, package and name of a method; the claims of the checks and the segments of the
  generators hold the same stubs, and the checks are silent exactly when the stubs can be
  written side by side.
\<close>

section \<open>Reports and groups\<close>

lemma reportEverySite_nil [simp]: "reportEverySite code sites = [] \<longleftrightarrow> sites = []"
  by (simp add: reportEverySite_def enumerate_eq_zip)

lemma concat_nil: "concat (map f xs) = [] \<longleftrightarrow> (\<forall>x \<in> set xs. f x = [])"
  by simp

lemma small_groups:
  "(\<forall>k \<in> set (sort (remdups (map f xs))). length (filter (\<lambda>x. f x = k) xs) < 2) \<longleftrightarrow> distinct (map f xs)"
  using small_groups_distinct [of f xs] by simp

text \<open>Splitting a list by a key keeps its elements.\<close>

lemma mset_by_key:
  assumes "distinct ks" and "f ` set xs \<subseteq> set ks"
  shows "mset (concat (map (\<lambda>k. filter (\<lambda>x. f x = k) xs) ks)) = mset xs"
  using assms(2)
proof (induction xs)
  case (Cons x xs)
  have step: "mset (concat (map (\<lambda>k. filter (\<lambda>x. f x = k) (x # xs)) js))
      = (if f x \<in> set js then {#x#} else {#}) + mset (concat (map (\<lambda>k. filter (\<lambda>x. f x = k) xs) js))"
    if "distinct js" for js using that by (induction js) auto
  show ?case using Cons step [OF assms(1)] by simp
qed (induction ks; simp)

lemma mset_concat_map_cong: "(\<And>x. x \<in> set xs \<Longrightarrow> mset (f x) = mset (g x)) \<Longrightarrow> mset (concat (map f xs)) = mset (concat (map g xs))"
  by (induction xs) auto

section \<open>The claims of a service\<close>

definition block_dir :: "string \<Rightarrow> string \<Rightarrow> ServiceInfo \<Rightarrow> ServiceDecl option \<Rightarrow> string" where
  "block_dir fileCase svcName si b = OutputSegment svcName (blockGroup si b) fileCase"

text \<open>What the claims of the first blocks are: one per directory, with its blocks' methods.\<close>

definition claims_of :: "string \<Rightarrow> string \<Rightarrow> string \<Rightarrow> ServiceInfo \<Rightarrow> ServiceDecl option list \<Rightarrow> segClaim table \<Rightarrow> bool" where
  "claims_of fileCase pkgName svcName si bs tbl \<longleftrightarrow>
     distinct (map fst tbl)
     \<and> (\<forall>seg. (case map_of tbl seg of None \<Rightarrow> [] | Some c \<Rightarrow> cl_members c)
          = concat (map blockStubMembers (filter (\<lambda>b. block_dir fileCase svcName si b = seg) bs)))
     \<and> (\<forall>seg c. map_of tbl seg = Some c \<longrightarrow> cl_pkg c = pkgName \<and> cl_members c \<noteq> [])"

lemma claims_of_step:
  assumes "claims_of fileCase pkgName svcName si bs tbl"
  shows "claims_of fileCase pkgName svcName si (bs @ [b]) (add_claim pkgName svcName fileCase b (blockGroup si b) tbl)"
proof (cases "blockStubMembers b = []")
  case True
  then show ?thesis using assms by (simp add: claims_of_def add_claim_def)
next
  case False
  let ?seg = "block_dir fileCase svcName si b"
  have "(case map_of tbl ?seg of None \<Rightarrow> [] | Some c \<Rightarrow> cl_members c)
      = concat (map blockStubMembers (filter (\<lambda>b. block_dir fileCase svcName si b = ?seg) bs))"
    using assms by (simp add: claims_of_def)
  then show ?thesis using assms False
    by (cases "map_of tbl ?seg") (auto simp: claims_of_def add_claim_def Let_def block_dir_def)
qed

lemma claims_of_fold:
  assumes "claims_of fileCase pkgName svcName si bs tbl"
  shows "claims_of fileCase pkgName svcName si (bs @ cs) (fold (\<lambda>b. add_claim pkgName svcName fileCase b (blockGroup si b)) cs tbl)"
  using assms
proof (induction cs arbitrary: bs tbl)
  case (Cons c cs)
  from Cons.IH [OF claims_of_step [OF Cons.prems, of c]] show ?case by simp
qed simp

lemma claims_of_service: "claims_of fileCase pkgName svcName si (blocks si) (serviceSegmentClaims pkgName svcName si fileCase)"
  using claims_of_fold [of fileCase pkgName svcName si "[]" "[]" "blocks si"]
  by (simp add: claims_of_def serviceSegmentClaims_def)

section \<open>Stubs\<close>

record stub =
  stub_dir :: string
  stub_pkg :: string
  stub_name :: string

definition service_stubs :: "string \<Rightarrow> string \<times> string \<times> ServiceInfo \<Rightarrow> stub list" where
  "service_stubs fileCase s =
     (let (pkgName, svcName, si) = s
      in if si_Primary si = None then []
         else concat (map (\<lambda>b. map (\<lambda>m. \<lparr>stub_dir = block_dir fileCase svcName si b, stub_pkg = pkgName, stub_name = me_Name m\<rparr>) (Methods b)) (blocks si)))"

definition project_stubs :: "string \<Rightarrow> Project \<Rightarrow> stub list" where
  "project_stubs fileCase p = concat (map (service_stubs fileCase) (project_services p))"

definition claim_stubs :: "string \<Rightarrow> segClaim list \<Rightarrow> stub list" where
  "claim_stubs seg occs = map (\<lambda>(c, m). \<lparr>stub_dir = seg, stub_pkg = cl_pkg c, stub_name = sm_name m\<rparr>) (claim_members occs)"

definition dir_claims :: "string \<Rightarrow> Project \<Rightarrow> string \<Rightarrow> segClaim list" where
  "dir_claims fileCase p seg = map snd (filter (\<lambda>(s, _). s = seg) (project_claims fileCase p))"

lemma filter_key_distinct:
  "distinct (map fst tbl) \<Longrightarrow> map snd (filter (\<lambda>(s, _). s = k) tbl) = (case map_of tbl k of None \<Rightarrow> [] | Some c \<Rightarrow> [c])"
proof (induction tbl)
  case (Cons e tbl)
  have "map snd (filter (\<lambda>(s, _). s = k) tbl) = []" if "k \<notin> fst ` set tbl"
    using that by (force simp: filter_empty_conv)
  with Cons show ?case by (cases e) auto
qed simp

lemma service_dir_stubs:
  "claim_stubs seg (map snd (filter (\<lambda>(s, _). s = seg) (serviceSegmentClaims pkgName svcName si fileCase)))
   = concat (map (\<lambda>b. map (\<lambda>m. \<lparr>stub_dir = seg, stub_pkg = pkgName, stub_name = me_Name m\<rparr>) (Methods b)) (filter (\<lambda>b. block_dir fileCase svcName si b = seg) (blocks si)))"
proof -
  let ?tbl = "serviceSegmentClaims pkgName svcName si fileCase"
  note inv = claims_of_service [of fileCase pkgName svcName si, unfolded claims_of_def]
  have mem: "(case map_of ?tbl seg of None \<Rightarrow> [] | Some c \<Rightarrow> cl_members c)
      = concat (map blockStubMembers (filter (\<lambda>b. block_dir fileCase svcName si b = seg) (blocks si)))" using inv by simp
  have "claim_stubs seg (case map_of ?tbl seg of None \<Rightarrow> [] | Some c \<Rightarrow> [c])
      = map (\<lambda>m. \<lparr>stub_dir = seg, stub_pkg = pkgName, stub_name = sm_name m\<rparr>) (case map_of ?tbl seg of None \<Rightarrow> [] | Some c \<Rightarrow> cl_members c)"
  proof (cases "map_of ?tbl seg")
    case (Some c)
    with inv have "cl_pkg c = pkgName" by blast
    with Some show ?thesis by (simp add: claim_stubs_def claim_members_def)
  qed (simp add: claim_stubs_def claim_members_def)
  also have "\<dots> = concat (map (\<lambda>b. map (\<lambda>m. \<lparr>stub_dir = seg, stub_pkg = pkgName, stub_name = me_Name m\<rparr>) (Methods b)) (filter (\<lambda>b. block_dir fileCase svcName si b = seg) (blocks si)))"
    unfolding mem by (simp add: map_concat blockStubMembers_def comp_def)
  finally show ?thesis using inv by (simp add: filter_key_distinct)
qed

lemma filter_service_stubs:
  "filter (\<lambda>t. stub_dir t = seg) (service_stubs fileCase (pkgName, svcName, si))
   = (if si_Primary si = None then []
      else claim_stubs seg (map snd (filter (\<lambda>(s, _). s = seg) (serviceSegmentClaims pkgName svcName si fileCase))))"
proof -
  have "filter (\<lambda>t. stub_dir t = seg) (concat (map (\<lambda>b. map (\<lambda>m. \<lparr>stub_dir = block_dir fileCase svcName si b, stub_pkg = pkgName, stub_name = me_Name m\<rparr>) (Methods b)) bs))
     = concat (map (\<lambda>b. map (\<lambda>m. \<lparr>stub_dir = seg, stub_pkg = pkgName, stub_name = me_Name m\<rparr>) (Methods b)) (filter (\<lambda>b. block_dir fileCase svcName si b = seg) bs))" for bs
    by (induction bs) (auto simp: comp_def)
  then show ?thesis by (simp add: service_stubs_def service_dir_stubs)
qed

lemma claim_stubs_Nil [simp]: "claim_stubs seg [] = []"
  by (simp add: claim_stubs_def claim_members_def)

lemma claim_stubs_append: "claim_stubs seg (xs @ ys) = claim_stubs seg xs @ claim_stubs seg ys"
  by (simp add: claim_stubs_def claim_members_def)

text \<open>The stubs of a directory are the methods claimed for it.\<close>

lemma dir_stubs: "claim_stubs seg (dir_claims fileCase p seg) = filter (\<lambda>t. stub_dir t = seg) (project_stubs fileCase p)"
proof -
  have "claim_stubs seg (map snd (filter (\<lambda>(s, _). s = seg) (concat (map (\<lambda>(pkgName, svcName, si).
          if si_Primary si = None then [] else serviceSegmentClaims pkgName svcName si fileCase) ss))))
      = filter (\<lambda>t. stub_dir t = seg) (concat (map (service_stubs fileCase) ss))" for ss
  proof (induction ss)
    case (Cons s ss)
    then show ?case by (cases s) (simp add: claim_stubs_append filter_service_stubs)
  qed (simp add: claim_stubs_def claim_members_def)
  then show ?thesis by (simp add: dir_claims_def project_claims_def project_stubs_def)
qed

lemma claimed_dirs: "set (map fst (project_claims fileCase p)) \<supseteq> stub_dir ` set (project_stubs fileCase p)"
proof
  fix seg assume "seg \<in> stub_dir ` set (project_stubs fileCase p)"
  then have "filter (\<lambda>t. stub_dir t = seg) (project_stubs fileCase p) \<noteq> []" by (auto simp: filter_empty_conv)
  then have "dir_claims fileCase p seg \<noteq> []" using dir_stubs [of seg fileCase p] by (auto simp: claim_stubs_def claim_members_def)
  then show "seg \<in> set (map fst (project_claims fileCase p))" by (force simp: dir_claims_def filter_empty_conv)
qed

section \<open>One directory\<close>

lemma claims_nonempty:
  assumes "c \<in> set (dir_claims fileCase p seg)"
  shows "cl_members c \<noteq> []"
proof -
  obtain pkgName svcName si where "(seg, c) \<in> set (serviceSegmentClaims pkgName svcName si fileCase)"
    using assms by (auto simp: dir_claims_def project_claims_def split: if_splits)
  then show ?thesis using claims_of_service [of fileCase pkgName svcName si]
    by (auto simp: claims_of_def)
qed

lemma first_members_names:
  "distinct (map (\<lambda>x. sm_name (snd x)) (first_members seen ms))
   \<and> set (map (\<lambda>x. sm_name (snd x)) (first_members seen ms)) = sm_name ` snd ` set ms - seen"
proof (induction seen ms rule: first_members.induct)
  case (2 seen c m ms)
  show ?case
  proof (cases "sm_name m \<in> seen")
    case True
    with 2(1) show ?thesis by simp
  next
    case False
    with 2(2) have IH: "distinct (map (\<lambda>x. sm_name (snd x)) (first_members (insert (sm_name m) seen) ms))"
      "(\<lambda>x. sm_name (snd x)) ` set (first_members (insert (sm_name m) seen) ms) = sm_name ` snd ` set ms - insert (sm_name m) seen"
      by simp_all
    show ?thesis using False IH(1) by (simp add: IH(2)) blast
  qed
qed simp

lemma first_members_distinct:
  "distinct (map (\<lambda>x. f (sm_name (snd x))) (first_members {} ms)) \<longleftrightarrow> inj_on f (sm_name ` snd ` set ms)"
  using first_members_names [of "{}" ms] distinct_map [of f "map (\<lambda>x. sm_name (snd x)) (first_members {} ms)"]
  by (simp add: comp_def)

lemma shared_files_nil:
  "(\<forall>f \<in> set (sort (remdups (map (\<lambda>(_, m). FileName (sm_name m) fileCase @ ''.go'') firsts))). shared_file P fileCase seg firsts f = [])
   \<longleftrightarrow> distinct (map (\<lambda>x. FileName (sm_name (snd x)) fileCase) firsts)"
proof -
  have nil: "shared_file P fileCase seg firsts f = []
      \<longleftrightarrow> length (filter (\<lambda>x. FileName (sm_name (snd x)) fileCase @ ''.go'' = f) firsts) < 2" for f
    by (auto simp: shared_file_def clash_report_def Let_def case_prod_unfold)
  have "distinct (map (\<lambda>x. FileName (sm_name (snd x)) fileCase @ ''.go'') firsts)
      \<longleftrightarrow> distinct (map (\<lambda>x. FileName (sm_name (snd x)) fileCase) firsts)"
    by (simp add: distinct_map inj_on_def)
  then show ?thesis
    using small_groups [of "\<lambda>x. FileName (sm_name (snd x)) fileCase @ ''.go''" firsts] by (simp add: nil case_prod_unfold)
qed

lemma logic_clash_nil:
  "logic_clash seg firsts x = [] \<longleftrightarrow>
     sm_name (snd x) \<noteq> LogicEmbed \<and> LogicRival (sm_name (snd x)) \<notin> sm_name ` snd ` set firsts"
  proof (cases "find (\<lambda>(_, r). sm_name r = LogicRival (sm_name (snd x))) firsts")
  case None
  then have "LogicRival (sm_name (snd x)) \<notin> sm_name ` snd ` set firsts" by (force simp: find_None_iff)
  with None show ?thesis by (simp add: logic_clash_def Let_def case_prod_unfold)
next
  case (Some r)
  then have "r \<in> set firsts" "sm_name (snd r) = LogicRival (sm_name (snd x))"
    by (auto simp: find_Some_iff case_prod_unfold)
  then have "LogicRival (sm_name (snd x)) \<in> sm_name ` snd ` set firsts" by (metis imageI)
  with Some show ?thesis by (simp add: logic_clash_def clash_report_def Let_def case_prod_unfold)
qed

lemma file_problem_nil: "file_problem fileCase seg x = [] \<longleftrightarrow> GoFileProblem (FileName (sm_name (snd x)) fileCase) = None"
  by (simp add: file_problem_def Let_def split_beta split: option.splits)

lemma reportMethodNameClashes_nil:
  fixes occs defines "N \<equiv> sm_name ` snd ` set (claim_members occs)"
  shows "reportMethodNameClashes P fileCase seg occs = [] \<longleftrightarrow>
     inj_on (\<lambda>n. FileName n fileCase) N
     \<and> (\<forall>n \<in> N. GoFileProblem (FileName n fileCase) = None \<and> n \<noteq> LogicEmbed \<and> LogicRival n \<notin> N)"
proof -
  let ?F = "first_members {} (claim_members occs)"
  have N: "sm_name ` snd ` set ?F = N" using first_members_names [of "{}" "claim_members occs"] by (simp add: N_def image_comp)
  have all: "(\<forall>x \<in> set ?F. Q (sm_name (snd x))) \<longleftrightarrow> (\<forall>n \<in> N. Q n)" for Q unfolding N [symmetric] by simp
  show ?thesis
    unfolding reportMethodNameClashes_def Let_def append_is_Nil_conv concat_nil shared_files_nil
      first_members_distinct [where f = "\<lambda>n. FileName n fileCase"] N_def [symmetric] file_problem_nil logic_clash_nil N
      ball_conj_distrib all [of "\<lambda>n. GoFileProblem (FileName n fileCase) = None"]
      all [of "\<lambda>n. n \<noteq> LogicEmbed"] all [of "\<lambda>n. LogicRival n \<notin> N"]
    by (simp only: conj_ac)
qed

definition stubs_ok :: "string \<Rightarrow> stub list \<Rightarrow> bool" where
  "stubs_ok fileCase T \<longleftrightarrow>
     distinct (map (\<lambda>t. (stub_dir t, FileName (stub_name t) fileCase)) T)
     \<and> (\<forall>t \<in> set T. \<forall>u \<in> set T. stub_dir t = stub_dir u \<longrightarrow> stub_pkg t = stub_pkg u \<and> stub_name u \<noteq> LogicRival (stub_name t))
     \<and> (\<forall>t \<in> set T. GoFileProblem (FileName (stub_name t) fileCase) = None \<and> stub_name t \<noteq> LogicEmbed)"

lemma claim_stubs_simps:
  "stub_name ` set (claim_stubs seg occs) = sm_name ` snd ` set (claim_members occs)"
  "map stub_name (claim_stubs seg occs) = map (\<lambda>x. sm_name (snd x)) (claim_members occs)"
  "t \<in> set (claim_stubs seg occs) \<Longrightarrow> stub_dir t = seg"
  by (force simp: claim_stubs_def)+

lemma claim_stubs_pkgs:
  "(\<And>c. c \<in> set occs \<Longrightarrow> cl_members c \<noteq> []) \<Longrightarrow> stub_pkg ` set (claim_stubs seg occs) = cl_pkg ` set occs"
proof (induction occs)
  case (Cons c occs)
  then have "cl_members c \<noteq> []" by simp
  then have "stub_pkg ` set (claim_stubs seg [c]) = {cl_pkg c}" by (simp add: claim_stubs_def claim_members_def image_comp image_constant_conv comp_def)
  with Cons claim_stubs_append [of seg "[c]" occs] show ?case by (simp add: image_Un)
qed simp

lemma straddle_nil: "reportGroupPackageStraddle seg occs = [] \<longleftrightarrow> (\<forall>a \<in> cl_pkg ` set occs. \<forall>b \<in> cl_pkg ` set occs. a = b)"
  by (cases occs) (auto simp: reportGroupPackageStraddle_def list_all_iff)

lemma member_collisions_nil: "reportGroupMemberCollisions fileCase seg occs = [] \<longleftrightarrow> distinct (map (\<lambda>x. sm_name (snd x)) (claim_members occs))"
  unfolding reportGroupMemberCollisions_def Let_def concat_nil small_groups [symmetric]
  by (intro ball_cong) (auto simp: case_prod_unfold)

lemma check_segment_iff:
  assumes ne: "\<And>c. c \<in> set occs \<Longrightarrow> cl_members c \<noteq> []"
    and d: "length occs < 2 \<Longrightarrow> distinct (map stub_name (claim_stubs seg occs))"
  shows "check_segment P fileCase seg occs = [] \<longleftrightarrow> stubs_ok fileCase (claim_stubs seg occs)"
proof -
  let ?T = "claim_stubs seg occs"
  have pkgs: "(\<forall>a \<in> cl_pkg ` set occs. \<forall>b \<in> cl_pkg ` set occs. a = b) \<longleftrightarrow> (\<forall>t \<in> set ?T. \<forall>u \<in> set ?T. stub_pkg t = stub_pkg u)"
  proof -
    have "stub_pkg ` set ?T = cl_pkg ` set occs" by (rule claim_stubs_pkgs) (rule ne)
    from this [symmetric] show ?thesis by (simp only: ball_simps(9))
  qed
  have one: "\<forall>a \<in> cl_pkg ` set occs. \<forall>b \<in> cl_pkg ` set occs. a = b" if "length occs < 2"
    using that by (cases occs) auto
  have names: "map (\<lambda>x. sm_name (snd x)) (claim_members occs) = map stub_name ?T" by (simp add: claim_stubs_simps)
  have files: "distinct (map (\<lambda>t. (stub_dir t, FileName (stub_name t) fileCase)) ?T)
      \<longleftrightarrow> distinct (map stub_name ?T) \<and> inj_on (\<lambda>n. FileName n fileCase) (stub_name ` set ?T)"
    using claim_stubs_simps(3) [of _ seg occs] by (auto simp: distinct_map inj_on_def)
  have check: "check_segment P fileCase seg occs = [] \<longleftrightarrow>
      inj_on (\<lambda>n. FileName n fileCase) (stub_name ` set ?T)
      \<and> (\<forall>t \<in> set ?T. GoFileProblem (FileName (stub_name t) fileCase) = None \<and> stub_name t \<noteq> LogicEmbed
          \<and> LogicRival (stub_name t) \<notin> stub_name ` set ?T)
      \<and> (\<forall>t \<in> set ?T. \<forall>u \<in> set ?T. stub_pkg t = stub_pkg u) \<and> distinct (map stub_name ?T)"
  proof -
    have "check_segment P fileCase seg occs = [] \<longleftrightarrow>
        reportMethodNameClashes P fileCase seg occs = [] \<and> (\<forall>t \<in> set ?T. \<forall>u \<in> set ?T. stub_pkg t = stub_pkg u)
        \<and> distinct (map stub_name ?T)"
    proof (cases "length occs < 2")
      case True
      with one [OF True, unfolded pkgs] d [OF True] show ?thesis by (simp only: check_segment_def if_True append_Nil2) blast
    next
      case False
      then show ?thesis
        by (simp only: check_segment_def if_False append_is_Nil_conv straddle_nil member_collisions_nil pkgs names)
    qed
    then show ?thesis
      unfolding reportMethodNameClashes_nil claim_stubs_simps(1) [symmetric, where seg = seg] by (simp add: conj_ac)
  qed
  have rivals: "(\<forall>t \<in> set ?T. \<forall>u \<in> set ?T. stub_dir t = stub_dir u \<longrightarrow> stub_pkg t = stub_pkg u \<and> stub_name u \<noteq> LogicRival (stub_name t))
      \<longleftrightarrow> (\<forall>t \<in> set ?T. \<forall>u \<in> set ?T. stub_pkg t = stub_pkg u) \<and> (\<forall>t \<in> set ?T. LogicRival (stub_name t) \<notin> stub_name ` set ?T)"
    using claim_stubs_simps(3) [of _ seg occs] by (auto simp: image_iff) metis+
  show ?thesis unfolding stubs_ok_def check files rivals ball_conj_distrib by (simp only: conj_ac)
qed

text \<open>Stubs can be written side by side exactly when those of each directory can.\<close>

lemma distinct_by_key:
  assumes "\<And>x y. f x = f y \<Longrightarrow> k x = k y"
  shows "distinct (map f xs) \<longleftrightarrow> (\<forall>d. distinct (map f (filter (\<lambda>x. k x = d) xs)))"
proof (induction xs)
  case (Cons x xs)
  have same: "f x \<in> f ` set xs \<longleftrightarrow> f x \<in> f ` {y \<in> set xs. k y = k x}"
  proof
    assume "f x \<in> f ` set xs"
    then obtain y where y: "y \<in> set xs" "f x = f y" by blast
    from assms [OF y(2) [symmetric]] y show "f x \<in> f ` {y \<in> set xs. k y = k x}" by blast
  qed blast
  have step: "distinct (map f (filter (\<lambda>y. k y = d) (x # xs)))
      \<longleftrightarrow> distinct (map f (filter (\<lambda>y. k y = d) xs)) \<and> (k x = d \<longrightarrow> f x \<notin> f ` {y \<in> set xs. k y = d})" for d by auto
  show ?case unfolding step by (simp add: Cons same all_conj_distrib conj_ac)
qed simp

lemma ball_by_key:
  "(\<forall>d \<in> k ` set T. \<forall>t \<in> set (filter (\<lambda>t. k t = d) T). Q t) \<longleftrightarrow> (\<forall>t \<in> set T. Q t)"
  "(\<forall>d \<in> k ` set T. \<forall>t \<in> set (filter (\<lambda>t. k t = d) T). \<forall>u \<in> set (filter (\<lambda>t. k t = d) T). k t = k u \<longrightarrow> R t u)
   \<longleftrightarrow> (\<forall>t \<in> set T. \<forall>u \<in> set T. k t = k u \<longrightarrow> R t u)"
  by auto

lemma stubs_ok_dirs: "stubs_ok fileCase T \<longleftrightarrow> (\<forall>d \<in> stub_dir ` set T. stubs_ok fileCase (filter (\<lambda>t. stub_dir t = d) T))"
proof -
  let ?f = "\<lambda>t. (stub_dir t, FileName (stub_name t) fileCase)"
  have "distinct (map ?f T) \<longleftrightarrow> (\<forall>d. distinct (map ?f (filter (\<lambda>t. stub_dir t = d) T)))"
    by (rule distinct_by_key) simp
  also have "\<dots> \<longleftrightarrow> (\<forall>d \<in> stub_dir ` set T. distinct (map ?f (filter (\<lambda>t. stub_dir t = d) T)))"
  proof -
    define Q where "Q d \<longleftrightarrow> distinct (map ?f (filter (\<lambda>t. stub_dir t = d) T))" for d
    have "Q d" if "d \<notin> stub_dir ` set T" for d
    proof -
      have "filter (\<lambda>t. stub_dir t = d) T = []" using that by (auto simp: filter_empty_conv)
      then show ?thesis by (simp add: Q_def)
    qed
    then show ?thesis unfolding Q_def [symmetric] by blast
  qed
  finally show ?thesis unfolding stubs_ok_def ball_conj_distrib [of "stub_dir ` set T"] ball_by_key by (simp only:)
qed

section \<open>The methods the generators write\<close>

text \<open>The services of a project as \<open>build_project\<close> leaves them: their methods are those of their blocks.\<close>

definition merged :: "ServiceInfo \<Rightarrow> bool" where
  "merged si \<longleftrightarrow> si_Methods si = (if si_Primary si = None then [] else concat (map Methods (blocks si)))"

lemma build_project_tables:
  assumes "Packages (build_project base files) name = Some pkg"
  shows "p_Name pkg = name" and "distinct (map fst (p_Services pkg))"
    and "map_of (p_Services pkg) n = Some si \<Longrightarrow> merged si"
proof -
  obtain fs where pkg: "pkg = fst (runDeclPhase base name fs)" using assms by (rule build_project_package)
  then show "p_Name pkg = name" by (simp add: runDeclPhase_name)
  let ?tbl = "p_Services (c_pkg (collectDecls base name fs))"
  have tbl: "p_Services pkg = map (\<lambda>(n, si). (n, merge_service si)) ?tbl"
    by (simp add: pkg runDeclPhase_def mergeServices_def Let_def)
  note inv = collectDecls_services [of base fs name, unfolded services_inv_def]
  have "map (fst \<circ> (\<lambda>(n, si). (n, merge_service si))) ?tbl = map fst ?tbl" by (rule map_cong) auto
  with inv show "distinct (map fst (p_Services pkg))" unfolding tbl map_map by metis
  assume "map_of (p_Services pkg) n = Some si"
  then obtain si0 where "map_of ?tbl n = Some si0" "si = merge_service si0" unfolding tbl map_of_map by auto
  with inv have "si_Methods si0 = []" "si = merge_service si0" by blast+
  then show "merged si" by (auto simp: merged_def merge_service_def blocks_def comp_def split: option.splits)
qed

lemma build_project_merged: "(pkg, svc, si) \<in> set (project_services (build_project base files)) \<Longrightarrow> merged si"
  using build_project_tables(3) by (auto simp: project_services_iff)

definition generated_stub :: "segment \<times> Method \<Rightarrow> stub" where
  "generated_stub g = \<lparr>stub_dir = sg_dir (fst g), stub_pkg = p_Name (sg_pkg (fst g)), stub_name = me_Name (snd g)\<rparr>"

definition method_stub :: "string \<Rightarrow> string \<times> string \<times> ServiceInfo \<Rightarrow> Method \<Rightarrow> stub" where
  "method_stub fileCase s m =
     \<lparr>stub_dir = OutputSegment (fst (snd s)) (MethodGroupOf (Some (snd (snd s))) (Some m)) fileCase, stub_pkg = fst s, stub_name = me_Name m\<rparr>"

lemma segment_stubs:
  "mset (concat (map (\<lambda>g. map (\<lambda>m. generated_stub (\<lparr>sg_pkg = pkg, sg_name = name, sg_svc = svc, sg_group = g, sg_dir = OutputSegment name g fileCase\<rparr>, m))
      (segment_methods \<lparr>sg_pkg = pkg, sg_name = name, sg_svc = svc, sg_group = g, sg_dir = OutputSegment name g fileCase\<rparr>)) (distinctGroups svc)))
   = mset (map (method_stub fileCase (p_Name pkg, name, svc)) (si_Methods svc))"
proof -
  let ?grp = "\<lambda>m. MethodGroupOf (Some svc) (Some m)" and ?st = "method_stub fileCase (p_Name pkg, name, svc)"
  have "map (\<lambda>m. generated_stub (\<lparr>sg_pkg = pkg, sg_name = name, sg_svc = svc, sg_group = g, sg_dir = OutputSegment name g fileCase\<rparr>, m))
      (segment_methods \<lparr>sg_pkg = pkg, sg_name = name, sg_svc = svc, sg_group = g, sg_dir = OutputSegment name g fileCase\<rparr>)
      = map ?st (filter (\<lambda>m. ?grp m = g) (si_Methods svc))" for g
    by (auto simp: segment_methods_def generated_stub_def method_stub_def)
  then have "concat (map (\<lambda>g. map (\<lambda>m. generated_stub (\<lparr>sg_pkg = pkg, sg_name = name, sg_svc = svc, sg_group = g, sg_dir = OutputSegment name g fileCase\<rparr>, m))
      (segment_methods \<lparr>sg_pkg = pkg, sg_name = name, sg_svc = svc, sg_group = g, sg_dir = OutputSegment name g fileCase\<rparr>)) (distinctGroups svc))
      = map ?st (concat (map (\<lambda>g. filter (\<lambda>m. ?grp m = g) (si_Methods svc)) (distinctGroups svc)))"
    by (simp add: map_concat comp_def)
  moreover have "mset (concat (map (\<lambda>g. filter (\<lambda>m. ?grp m = g) (si_Methods svc)) (distinctGroups svc))) = mset (si_Methods svc)"
    by (rule mset_by_key) (auto simp: distinctGroups_def)
  ultimately show ?thesis by (simp only: mset_map)
qed

lemma generated_stubs:
  assumes "\<And>name pkg. Packages p name = Some pkg \<Longrightarrow> p_Name pkg = name"
  shows "mset (map generated_stub (generated p fileCase)) = mset (concat (map (\<lambda>s. map (method_stub fileCase s) (si_Methods (snd (snd s)))) (project_services p)))"
proof -
  let ?gen = "\<lambda>segs. map generated_stub (concat (map (\<lambda>s. map (Pair s) (segment_methods s)) segs))"
  let ?svc = "\<lambda>ss. concat (map (\<lambda>s. map (method_stub fileCase s) (si_Methods (snd (snd s)))) ss)"
  have service: "mset (?gen (case map_of (p_Services pkg) svcName of None \<Rightarrow> []
        | Some svc \<Rightarrow> map (\<lambda>g. \<lparr>sg_pkg = pkg, sg_name = svcName, sg_svc = svc, sg_group = g, sg_dir = OutputSegment svcName g fileCase\<rparr>) (distinctGroups svc)))
      = mset (?svc (case map_of (p_Services pkg) svcName of None \<Rightarrow> [] | Some si \<Rightarrow> [(p_Name pkg, svcName, si)]))" for pkg svcName
    using segment_stubs [of pkg svcName _ fileCase]
    by (cases "map_of (p_Services pkg) svcName") (simp_all add: map_concat comp_def)
  have gen_append: "?gen (xs @ ys) = ?gen xs @ ?gen ys" for xs ys by simp
  have svc_append: "?svc (xs @ ys) = ?svc xs @ ?svc ys" for xs ys by simp
  have package: "mset (?gen (segments pkg fileCase))
      = mset (?svc (List.map_filter (\<lambda>svcName. map_option (\<lambda>si. (p_Name pkg, svcName, si)) (map_of (p_Services pkg) svcName)) (ServiceNames pkg)))" for pkg
  proof -
    have "mset (?gen (concat (map (\<lambda>name. case map_of (p_Services pkg) name of None \<Rightarrow> []
          | Some svc \<Rightarrow> map (\<lambda>g. \<lparr>sg_pkg = pkg, sg_name = name, sg_svc = svc, sg_group = g, sg_dir = OutputSegment name g fileCase\<rparr>) (distinctGroups svc)) ns)))
        = mset (?svc (List.map_filter (\<lambda>svcName. map_option (\<lambda>si. (p_Name pkg, svcName, si)) (map_of (p_Services pkg) svcName)) ns))" for ns
    proof (induction ns)
      case (Cons n ns)
      have split: "List.map_filter (\<lambda>svcName. map_option (\<lambda>si. (p_Name pkg, svcName, si)) (map_of (p_Services pkg) svcName)) (n # ns)
          = (case map_of (p_Services pkg) n of None \<Rightarrow> [] | Some si \<Rightarrow> [(p_Name pkg, n, si)])
            @ List.map_filter (\<lambda>svcName. map_option (\<lambda>si. (p_Name pkg, svcName, si)) (map_of (p_Services pkg) svcName)) ns"
        by (simp add: List.map_filter_def split: option.splits)
      show ?case unfolding split svc_append list.map concat.simps gen_append mset_append Cons service ..
    qed (simp add: List.map_filter_def)
    then show ?thesis unfolding segments_def .
  qed
  have "mset (?gen (concat (map (\<lambda>name. case Packages p name of None \<Rightarrow> [] | Some pkg \<Rightarrow> segments pkg fileCase) ns)))
      = mset (?svc (concat (map (\<lambda>pkgName. case Packages p pkgName of None \<Rightarrow> []
          | Some pkg \<Rightarrow> List.map_filter (\<lambda>svcName. map_option (\<lambda>si. (pkgName, svcName, si)) (map_of (p_Services pkg) svcName)) (ServiceNames pkg)) ns)))" for ns
  proof (induction ns)
    case (Cons n ns)
    have "mset (?gen (case Packages p n of None \<Rightarrow> [] | Some pkg \<Rightarrow> segments pkg fileCase))
        = mset (?svc (case Packages p n of None \<Rightarrow> []
          | Some pkg \<Rightarrow> List.map_filter (\<lambda>svcName. map_option (\<lambda>si. (n, svcName, si)) (map_of (p_Services pkg) svcName)) (ServiceNames pkg)))"
    proof (cases "Packages p n")
      case (Some pkg)
      with package [of pkg] assms [OF Some] show ?thesis by simp
    qed simp
    with Cons show ?case unfolding list.map concat.simps svc_append gen_append mset_append by (simp only:)
  qed simp
  then show ?thesis unfolding generated_def projectSegments_def project_services_def .
qed

section \<open>Methods and blocks\<close>

lemma service_methods_names:
  "service_methods si seenName seenRoute ms = [] \<Longrightarrow>
     distinct (map me_Name ms) \<and> (\<forall>m \<in> set ms. map_of seenName (me_Name m) = None)"
proof (induction ms arbitrary: seenName seenRoute)
  case (Cons m ms)
  let ?key = "me_Verb m @ '' '' @ Shape (registeredRoute si m)"
  from Cons.prems have new: "map_of seenName (me_Name m) = None" by (auto simp: Let_def split: option.splits)
  with Cons.prems obtain seenRoute' where "service_methods si (AList.update (me_Name m) (me_Pos m) seenName) seenRoute' ms = []"
    by (cases "map_of seenRoute ?key") (auto simp: Let_def)
  from Cons.IH [OF this] new show ?case by (auto split: if_splits)
qed simp

lemma distinct_concat_index:
  assumes "distinct (map f (concat xss))" and "i < length xss" "j < length xss" and "x \<in> set (xss ! i)" "y \<in> set (xss ! j)" "f x = f y"
  shows "i = j"
  using assms
proof (induction xss arbitrary: i j)
  case (Cons xs xss)
  have apart: "f u \<noteq> f v" if "u \<in> set xs" "k < length xss" "v \<in> set (xss ! k)" for u v k
  proof
    assume eq: "f u = f v"
    have "f u \<in> f ` set xs" using that(1) by simp
    moreover have "f u \<in> f ` set (concat xss)" using that(3) nth_mem [OF that(2)] unfolding eq by auto
    ultimately show False using Cons.prems(1) by auto
  qed
  show ?case
  proof (cases i)
    case 0
    then show ?thesis using Cons.prems apart by (cases j) auto
  next
    case (Suc i')
    show ?thesis
    proof (cases j)
      case 0
      then show ?thesis using Suc Cons.prems apart [of y i' x] by auto
    next
      case (Suc j')
      with \<open>i = Suc i'\<close> Cons show ?thesis by simp
    qed
  qed
qed simp

lemma blockOf_method:
  assumes "distinct (map me_Name (concat (map Methods (blocks si))))" and "b \<in> set (blocks si)" "m \<in> set (Methods b)"
  shows "blockOf si m = b"
proof -
  let ?has = "\<lambda>b. list_ex (\<lambda>bm. me_Name bm = me_Name m) (Methods b)"
  obtain i where i: "i < length (blocks si)" "blocks si ! i = b" using assms(2) by (metis in_set_conv_nth)
  have "find ?has (blocks si) \<noteq> None" using assms(2,3) by (auto simp: find_None_iff list_ex_iff)
  then obtain b' where found: "find ?has (blocks si) = Some b'" by blast
  then obtain j where j: "j < length (blocks si)" "blocks si ! j = b'" "?has b'" by (auto simp: find_Some_iff)
  then obtain m' where m': "m' \<in> set (Methods b')" "me_Name m' = me_Name m" by (auto simp: list_ex_iff)
  have "i = j"
    by (rule distinct_concat_index [OF assms(1), where x = m and y = m']) (use i j m' assms(3) in simp_all)
  with i j found show ?thesis by (simp add: blockOf_def)
qed

lemma method_stubs:
  assumes "merged si" and "distinct (map me_Name (si_Methods si))"
  shows "map (method_stub fileCase (pkgName, svcName, si)) (si_Methods si) = service_stubs fileCase (pkgName, svcName, si)"
proof (cases "si_Primary si = None")
  case True
  with assms(1) show ?thesis by (simp add: merged_def service_stubs_def)
next
  case False
  with assms(1) have ms: "si_Methods si = concat (map Methods (blocks si))" by (simp add: merged_def)
  have "method_stub fileCase (pkgName, svcName, si) m
      = \<lparr>stub_dir = block_dir fileCase svcName si b, stub_pkg = pkgName, stub_name = me_Name m\<rparr>"
    if "b \<in> set (blocks si)" "m \<in> set (Methods b)" for b m
  proof -
    have "blockOf si m = b" using blockOf_method [OF _ that] assms(2) ms by simp
    with that(2) show ?thesis by (cases b) (simp_all add: method_stub_def MethodGroupOf_def block_dir_def)
  qed
  then have "map (method_stub fileCase (pkgName, svcName, si)) (si_Methods si)
      = concat (map (\<lambda>b. map (\<lambda>m. \<lparr>stub_dir = block_dir fileCase svcName si b, stub_pkg = pkgName, stub_name = me_Name m\<rparr>) (Methods b)) (blocks si))"
    by (simp add: ms map_concat comp_def cong: map_cong)
  with False show ?thesis by (simp only: service_stubs_def Let_def prod.case if_False)
qed

definition methods_named :: "Project \<Rightarrow> bool" where
  "methods_named p \<longleftrightarrow> (\<forall>(_, _, si) \<in> set (project_services p). merged si \<and> distinct (map me_Name (si_Methods si)))"

lemma methods_namedD:
  "methods_named p \<Longrightarrow> (pkgName, svcName, si) \<in> set (project_services p) \<Longrightarrow> merged si \<and> distinct (map me_Name (si_Methods si))"
  by (auto simp: methods_named_def)

lemma project_stubs_methods:
  assumes "methods_named p"
  shows "concat (map (\<lambda>s. map (method_stub fileCase s) (si_Methods (snd (snd s)))) (project_services p)) = project_stubs fileCase p"
proof -
  have "map (\<lambda>s. map (method_stub fileCase s) (si_Methods (snd (snd s)))) (project_services p) = map (service_stubs fileCase) (project_services p)"
    using methods_namedD [OF assms] method_stubs by (intro map_cong) auto
  then show ?thesis unfolding project_stubs_def by (simp only:)
qed

lemma claim_names_distinct:
  assumes "methods_named p" and "c \<in> set (dir_claims fileCase p seg)"
  shows "distinct (map sm_name (cl_members c))"
proof -
  obtain pkgName svcName si where s: "(pkgName, svcName, si) \<in> set (project_services p)" "si_Primary si \<noteq> None"
    and c: "(seg, c) \<in> set (serviceSegmentClaims pkgName svcName si fileCase)"
    using assms(2) by (auto simp: dir_claims_def project_claims_def split: if_splits)
  have "cl_members c = concat (map blockStubMembers (filter (\<lambda>b. block_dir fileCase svcName si b = seg) (blocks si)))"
    using claims_of_service [of fileCase pkgName svcName si] c by (auto simp: claims_of_def dest: spec [of _ seg])
  then have names: "map sm_name (cl_members c) = map me_Name (concat (map Methods (filter (\<lambda>b. block_dir fileCase svcName si b = seg) (blocks si))))"
    by (simp add: map_concat blockStubMembers_def comp_def)
  have "distinct (map me_Name (concat (map Methods (filter Q bs))))" if "distinct (map me_Name (concat (map Methods bs)))" for Q bs
    using that by (induction bs) auto
  moreover have "distinct (map me_Name (concat (map Methods (blocks si))))"
    using methods_namedD [OF assms(1) s(1)] s(2) unfolding merged_def by (metis)
  ultimately show ?thesis unfolding names .
qed

section \<open>The checks and the files\<close>

lemma group_checks_iff:
  assumes "methods_named p"
  shows "checkProjectGroupChecks P fileCase p = [] \<longleftrightarrow> stubs_ok fileCase (project_stubs fileCase p)"
proof -
  let ?T = "project_stubs fileCase p" and ?segs = "set (map fst (project_claims fileCase p))"
  have seg: "check_segment P fileCase seg (dir_claims fileCase p seg) = [] \<longleftrightarrow> stubs_ok fileCase (filter (\<lambda>t. stub_dir t = seg) ?T)" for seg
  proof -
    have "distinct (map stub_name (claim_stubs seg (dir_claims fileCase p seg)))" if "length (dir_claims fileCase p seg) < 2"
    proof (cases "dir_claims fileCase p seg")
      case (Cons c cs)
      with that have "dir_claims fileCase p seg = [c]" by simp
      with claim_names_distinct [OF assms, of c fileCase seg] show ?thesis
        by (simp add: claim_stubs_def claim_members_def comp_def)
    qed simp
    with check_segment_iff [where occs = "dir_claims fileCase p seg"] claims_nonempty show ?thesis
      unfolding dir_stubs [symmetric] by blast
  qed
  have "checkProjectGroupChecks P fileCase p = [] \<longleftrightarrow> (\<forall>seg \<in> ?segs. stubs_ok fileCase (filter (\<lambda>t. stub_dir t = seg) ?T))"
    unfolding checkProjectGroupChecks_def Let_def concat_nil dir_claims_def [symmetric] seg by simp
  also have "\<dots> \<longleftrightarrow> (\<forall>seg \<in> stub_dir ` set ?T. stubs_ok fileCase (filter (\<lambda>t. stub_dir t = seg) ?T))"
  proof -
    have "stubs_ok fileCase (filter (\<lambda>t. stub_dir t = seg) ?T)" if "seg \<notin> stub_dir ` set ?T" for seg
    proof -
      have none: "filter (\<lambda>t. stub_dir t = seg) ?T = []" using that by (auto simp: filter_empty_conv)
      show ?thesis unfolding none by (simp add: stubs_ok_def)
    qed
    then show ?thesis using claimed_dirs [of fileCase p] by blast
  qed
  finally show ?thesis by (simp only: stubs_ok_dirs [symmetric])
qed

lemma stubs_ok_mset: "mset T = mset T' \<Longrightarrow> stubs_ok fileCase T = stubs_ok fileCase T'"
proof -
  assume eq: "mset T = mset T'"
  then have "mset (map (\<lambda>t. (stub_dir t, FileName (stub_name t) fileCase)) T) = mset (map (\<lambda>t. (stub_dir t, FileName (stub_name t) fileCase)) T')"
    by simp
  from mset_eq_imp_distinct_iff [OF this] mset_eq_setD [OF eq] show ?thesis by (simp add: stubs_ok_def)
qed

lemma distinct_pairs:
  "distinct (concat (map (\<lambda>t. [A t, B t]) T)) \<longleftrightarrow> distinct (map A T) \<and> distinct (map B T) \<and> (\<forall>t \<in> set T. \<forall>u \<in> set T. A t \<noteq> B u)"
  by (induction T) auto

text \<open>Two logic types or constructors of a directory have one name only for rivals, or for one file.\<close>

lemma logic_names_distinct:
  assumes "distinct (map (\<lambda>t. (stub_dir t, FileName (stub_name t) fileCase)) T)"
  shows "distinct (concat (map (\<lambda>t. [(stub_dir t, LogicTypeName (stub_name t)), (stub_dir t, LogicConstructorName (stub_name t))]) T))
    \<longleftrightarrow> (\<forall>t \<in> set T. \<forall>u \<in> set T. stub_dir t = stub_dir u \<longrightarrow> stub_name u \<noteq> LogicRival (stub_name t))"
proof -
  have one: "distinct (map (\<lambda>t. (stub_dir t, LogicTypeName (stub_name t))) T)" "distinct (map (\<lambda>t. (stub_dir t, LogicConstructorName (stub_name t))) T)"
    using assms by (auto simp: distinct_map inj_on_def LogicTypeName_def LogicConstructorName_def)
  have "(stub_dir t, LogicTypeName (stub_name t)) = (stub_dir u, LogicConstructorName (stub_name u))
      \<longleftrightarrow> stub_dir u = stub_dir t \<and> stub_name t = LogicRival (stub_name u)" for t u
    by (auto simp: LogicTypeName_def LogicConstructorName_def LogicRival_def)
  with one show ?thesis unfolding distinct_pairs by auto
qed

lemma build_project_named:
  assumes "list_all (\<lambda>(_, pkg). checkServiceMethods pkg = []) (pr_Packages (build_project base files))"
  shows "methods_named (build_project base files)"
  unfolding methods_named_def
proof clarify
  fix pkgName svcName si assume s: "(pkgName, svcName, si) \<in> set (project_services (build_project base files))"
  then obtain pkg where pkg: "Packages (build_project base files) pkgName = Some pkg" "map_of (p_Services pkg) svcName = Some si"
    by (auto simp: project_services_iff)
  then have "(pkgName, pkg) \<in> set (pr_Packages (build_project base files))" "(svcName, si) \<in> set (p_Services pkg)"
    by (auto dest: map_of_SomeD)
  then have "service_methods si [] [] (si_Methods si) = []" using assms by (force simp: list_all_iff checkServiceMethods_def)
  with build_project_merged [OF s] show "merged si \<and> distinct (map me_Name (si_Methods si))"
    using service_methods_names by blast
qed

lemma group_checks_silent:
  fixes base files defines "p \<equiv> build_project base files"
  assumes "list_all (\<lambda>(_, pkg). checkServiceMethods pkg = []) (pr_Packages p)"
  shows "checkProjectGroupChecks P fileCase p = [] \<longleftrightarrow>
     distinct (map (\<lambda>(s, m). (sg_dir s, methodFile m fileCase)) (generated p fileCase))
     \<and> list_all (\<lambda>(s, _). list_all (\<lambda>(s', _). sg_dir s \<noteq> sg_dir s' \<or> p_Name (sg_pkg s) = p_Name (sg_pkg s')) (generated p fileCase)) (generated p fileCase)
     \<and> list_all (\<lambda>(_, m). GoFileProblem (FileName (me_Name m) fileCase) = None \<and> me_Name m \<noteq> LogicEmbed) (generated p fileCase)
     \<and> distinct (concat (map (\<lambda>(s, m). [(sg_dir s, LogicTypeName (me_Name m)), (sg_dir s, LogicConstructorName (me_Name m))]) (generated p fileCase)))"
proof -
  let ?G = "generated p fileCase" let ?T = "map generated_stub ?G"
  have named: "methods_named p" using assms(2) unfolding p_def by (rule build_project_named)
  have "mset ?T = mset (project_stubs fileCase p)"
    using generated_stubs [of p fileCase] project_stubs_methods [OF named, of fileCase] build_project_tables(1) [of base files] unfolding p_def by simp
  then have checks: "checkProjectGroupChecks P fileCase p = [] \<longleftrightarrow> stubs_ok fileCase ?T"
    using group_checks_iff [OF named] stubs_ok_mset by metis
  have files: "distinct (map (\<lambda>(s, m). (sg_dir s, methodFile m fileCase)) ?G)
      \<longleftrightarrow> distinct (map (\<lambda>t. (stub_dir t, FileName (stub_name t) fileCase)) ?T)"
  proof -
    let ?go = "\<lambda>(d, f). (d, f @ ''.go'')"
    have eq: "map (\<lambda>(s, m). (sg_dir s, methodFile m fileCase)) ?G = map ?go (map (\<lambda>t. (stub_dir t, FileName (stub_name t) fileCase)) ?T)"
      by (simp add: comp_def case_prod_unfold generated_stub_def methodFile_def)
    have "inj_on ?go A" for A by (auto simp: inj_on_def)
    then show ?thesis unfolding eq distinct_map [of ?go] by blast
  qed
  have pkgs: "list_all (\<lambda>(s, _). list_all (\<lambda>(s', _). sg_dir s \<noteq> sg_dir s' \<or> p_Name (sg_pkg s) = p_Name (sg_pkg s')) ?G) ?G
      \<longleftrightarrow> (\<forall>t \<in> set ?T. \<forall>u \<in> set ?T. stub_dir t = stub_dir u \<longrightarrow> stub_pkg t = stub_pkg u)"
    by (simp add: list_all_iff generated_stub_def case_prod_unfold disj_not1)
  have each: "list_all (\<lambda>(_, m). GoFileProblem (FileName (me_Name m) fileCase) = None \<and> me_Name m \<noteq> LogicEmbed) ?G
      \<longleftrightarrow> (\<forall>t \<in> set ?T. GoFileProblem (FileName (stub_name t) fileCase) = None \<and> stub_name t \<noteq> LogicEmbed)"
    by (simp add: list_all_iff generated_stub_def case_prod_unfold)
  have "distinct (concat (map (\<lambda>(s, m). [(sg_dir s, LogicTypeName (me_Name m)), (sg_dir s, LogicConstructorName (me_Name m))]) ?G))
      \<longleftrightarrow> (\<forall>t \<in> set ?T. \<forall>u \<in> set ?T. stub_dir t = stub_dir u \<longrightarrow> stub_name u \<noteq> LogicRival (stub_name t))"
    if "distinct (map (\<lambda>t. (stub_dir t, FileName (stub_name t) fileCase)) ?T)"
    using logic_names_distinct [OF that] by (simp add: comp_def case_prod_unfold generated_stub_def)
  then show ?thesis
    unfolding checks stubs_ok_def files pkgs each imp_conjR ball_conj_distrib by argo
qed

text \<open>
  C16. Where no service repeats a method or a route, the checks on output directories are silent
  exactly when what the generators write fits together: no two methods write the same file of a
  directory, a directory holds methods of one package only, no file name is one the go command
  treats apart, no logic type hides the logger it embeds, and the logic types and their
  constructors in a directory have distinct names.
\<close>

theorem output_files:
  fixes base files defines "p \<equiv> build_project base files"
  assumes "list_all (\<lambda>(_, pkg). checkServiceMethods pkg = []) (pr_Packages p)"
  shows "checkProjectGroupChecks P fileCase p = [] \<longleftrightarrow>
     distinct (map (\<lambda>(s, m). (sg_dir s, methodFile m fileCase)) (generated p fileCase))
     \<and> list_all (\<lambda>(s, _). list_all (\<lambda>(s', _). sg_dir s \<noteq> sg_dir s' \<or> p_Name (sg_pkg s) = p_Name (sg_pkg s')) (generated p fileCase)) (generated p fileCase)
     \<and> list_all (\<lambda>(_, m). GoFileProblem (FileName (me_Name m) fileCase) = None \<and> me_Name m \<noteq> LogicEmbed) (generated p fileCase)
     \<and> distinct (concat (map (\<lambda>(s, m). [(sg_dir s, LogicTypeName (me_Name m)), (sg_dir s, LogicConstructorName (me_Name m))]) (generated p fileCase)))"
  unfolding p_def by (rule group_checks_silent [OF assms(2) [unfolded p_def]])

definition twin_files :: "File list" where
  "twin_files = [sample_file [sample_service ''Users'' [] [sample_method ''GetUser'' [(False, ''a'')], sample_method ''Get_user'' [(False, ''b'')]]]]"

theorem output_files_witness:
  "checkProjectGroupChecks (\<lambda>_. True) FileCaseSnake (build_project [] twin_files) \<noteq> []"
proof -
  have "list_all (\<lambda>(_, pkg). checkServiceMethods pkg = []) (pr_Packages (build_project [] twin_files))" by code_simp
  moreover have "map (\<lambda>(s, m). (sg_dir s, methodFile m FileCaseSnake)) (generated (build_project [] twin_files) FileCaseSnake)
      = [(''users'', ''get_user.go''), (''users'', ''get_user.go'')]" by code_simp
  ultimately show ?thesis using output_files [of "[]" twin_files "\<lambda>_. True" FileCaseSnake] by simp
qed

section \<open>Middlewares\<close>

lemma length_sites_of: "length (sites_of sites name) = length (filter (\<lambda>x. fst x = name) sites)"
  by (simp add: sites_of_def case_prod_unfold)

lemma cross_package_nil: "reportCrossPackageDuplicates sites code msg = [] \<longleftrightarrow> distinct (map fst sites)"
proof -
  have "length (filter (\<lambda>x. fst x = name) sites) < 2 \<longleftrightarrow>
      (let occs = sites_of sites name
       in if length occs < 2 then []
          else reportEverySite code (map (\<lambda>o'. \<lparr>sr_pos = ds_pos o', sr_msg = Msg msg [AStr name],
                 sr_note = Msg ''also declared in package %s'' [AStr (ds_pkg o')], sr_peer = []\<rparr>) occs)) = []" for name
    using length_sites_of [of sites name] by (auto simp: Let_def)
  then show ?thesis
    unfolding reportCrossPackageDuplicates_def concat_nil site_names_def small_groups [symmetric] by blast
qed

lemma sites_of_nonempty: "name \<in> set (site_names sites) \<Longrightarrow> sites_of sites name \<noteq> []"
proof -
  assume "name \<in> set (site_names sites)"
  then have "filter (\<lambda>x. fst x = name) sites \<noteq> []" by (auto simp: site_names_def filter_empty_conv)
  then show ?thesis using length_sites_of [of sites name] by auto
qed

lemma middlewares_silent:
  "checkProjectMiddlewareUniqueness P fileCase p = [] \<longleftrightarrow>
     distinct (map (\<lambda>(name, _). middleware_file fileCase name) (middleware_sites p))"
proof -
  let ?S = "middleware_sites p" and ?file = "middleware_file fileCase"
  have sorted: "set (site_names ?S) = fst ` set ?S" "distinct (site_names ?S)" by (simp_all add: site_names_def)
  have "(let names = filter (\<lambda>n. ?file n = f) (site_names ?S)
        in if length names < 2 then []
           else reportEverySite CodeMiddlewareCollision
             (concat (map (\<lambda>name. map (\<lambda>s.
                 \<lparr>sr_pos = ds_pos s,
                  sr_msg = Msg ''middlewares %s all write the scaffold %s - rename all but one'' [AStr (quotedNames P names), AStr f],
                  sr_note = Msg ''middleware %q in package %q'' [AStr name, AStr (ds_pkg s)], sr_peer = []\<rparr>)
               (sites_of ?S name)) names))) = []
      \<longleftrightarrow> length (filter (\<lambda>n. ?file n = f) (site_names ?S)) < 2" for f
  proof (cases "filter (\<lambda>n. ?file n = f) (site_names ?S)")
    case (Cons n ns)
    then have "n \<in> set (site_names ?S)" using filter_eq_ConsD by fastforce
    with sites_of_nonempty Cons show ?thesis by (auto simp: Let_def)
  qed simp
  then have "checkProjectMiddlewareUniqueness P fileCase p = [] \<longleftrightarrow> distinct (map fst ?S) \<and> distinct (map ?file (site_names ?S))"
    unfolding checkProjectMiddlewareUniqueness_def Let_def append_is_Nil_conv cross_package_nil concat_nil small_groups [symmetric] by simp
  also have "\<dots> \<longleftrightarrow> distinct (map fst ?S) \<and> inj_on ?file (fst ` set ?S)" using sorted by (simp add: distinct_map)
  also have "\<dots> \<longleftrightarrow> distinct (map ?file (map fst ?S))" unfolding distinct_map [of ?file] by simp
  finally show ?thesis by (simp add: comp_def case_prod_unfold)
qed


end
