(* ===== verification/Collisions_Spec.thy ===== *)
theory Collisions_Spec
  imports Collisions Mixins_Spec Services
begin

text \<open>
  What the naming checks decide: the Go identifiers of a package, the members of a struct, the
  keys of a JSON body and the values of an enum are distinct where the checks are silent.
\<close>

section \<open>Identifiers of a package\<close>

lemma emitted_twice_nil: "emitted_twice names n = [] \<longleftrightarrow> length (filter (\<lambda>g. gn_name g = n) names) < 2"
proof -
  let ?xs = "sort_key (\<lambda>n. pos_key (gn_pos n)) (filter (\<lambda>g. gn_name g = n) names)"
  have "(case ?xs of [] \<Rightarrow> [] | first # rest \<Rightarrow> map (h first) rest) = [] \<longleftrightarrow> length ?xs < 2"
    for h :: "goName \<Rightarrow> goName \<Rightarrow> Diagnostic"
    by (cases ?xs rule: list.exhaust; cases "tl ?xs") simp_all
  then show ?thesis unfolding emitted_twice_def by simp
qed


section \<open>JSON keys\<close>

definition on_body :: "Field \<Rightarrow> bool" where
  "on_body f \<longleftrightarrow> fd_Name f \<noteq> [] \<and> snd (JSONShape (Some f)) \<noteq> JSONAbsent"

definition json_key_of :: "Field \<Rightarrow> string" where
  "json_key_of f = fst (JSONShape (Some f))"

lemma json_keys_step:
  "json_keys parent own seen (f # fs) = [] \<longleftrightarrow>
     (if on_body f
      then (case map_of seen (json_key_of f) of
              None \<Rightarrow> json_keys parent own (AList.update (json_key_of f) f seen) fs = []
            | Some prev \<Rightarrow> prev = f \<and> json_keys parent own seen fs = [])
      else json_keys parent own seen fs = [])"
  by (auto simp: on_body_def json_key_of_def Let_def split: prod.splits option.splits)

lemma key_iff:
  assumes "map_of seen (json_key_of f) = None"
  shows "(\<forall>g \<in> set fs. on_body g \<longrightarrow> (if json_key_of g = json_key_of f then g = f else map_of seen (json_key_of g) \<in> {None, Some g}))
     \<longleftrightarrow> (\<forall>g \<in> set fs. on_body g \<longrightarrow> map_of seen (json_key_of g) \<in> {None, Some g})
       \<and> json_key_of f \<notin> json_key_of ` ({g \<in> set fs. on_body g} - {f})"
proof -
  have "on_body g \<longrightarrow> ((if json_key_of g = json_key_of f then g = f else map_of seen (json_key_of g) \<in> {None, Some g})
      \<longleftrightarrow> map_of seen (json_key_of g) \<in> {None, Some g} \<and> (json_key_of f = json_key_of g \<longrightarrow> g = f))" for g
    using assms by simp
  then show ?thesis by blast
qed

lemma json_keys_nil:
  "json_keys parent own seen fs = [] \<longleftrightarrow>
     (\<forall>f \<in> set fs. on_body f \<longrightarrow> map_of seen (json_key_of f) \<in> {None, Some f})
     \<and> inj_on json_key_of {f \<in> set fs. on_body f}"
proof (induction fs arbitrary: seen)
  case (Cons f fs)
  show ?case
  proof (cases "on_body f")
    case True
    have set': "{g \<in> set (f # fs). on_body g} = insert f {g \<in> set fs. on_body g}" using True by auto
    show ?thesis
    proof (cases "map_of seen (json_key_of f)")
      case None
      have "json_keys parent own seen (f # fs) = [] \<longleftrightarrow> json_keys parent own (AList.update (json_key_of f) f seen) fs = []"
        unfolding json_keys_step using True None by simp
      also have "\<dots> \<longleftrightarrow> (\<forall>g \<in> set fs. on_body g \<longrightarrow> (if json_key_of g = json_key_of f then g = f else map_of seen (json_key_of g) \<in> {None, Some g}))
          \<and> inj_on json_key_of {g \<in> set fs. on_body g}"
        unfolding Cons by (auto simp: fun_upd_def)
      also have "\<dots> \<longleftrightarrow> (\<forall>g \<in> set (f # fs). on_body g \<longrightarrow> map_of seen (json_key_of g) \<in> {None, Some g})
          \<and> inj_on json_key_of (insert f {g \<in> set fs. on_body g})"
        unfolding inj_on_insert key_iff [OF None] using None by auto
      finally show ?thesis unfolding set' .
    next
      case (Some prev)
      have "json_keys parent own seen (f # fs) = [] \<longleftrightarrow> prev = f \<and> json_keys parent own seen fs = []"
        unfolding json_keys_step using True Some by simp
      also have "\<dots> \<longleftrightarrow> (\<forall>g \<in> set (f # fs). on_body g \<longrightarrow> map_of seen (json_key_of g) \<in> {None, Some g})
          \<and> inj_on json_key_of (insert f {g \<in> set fs. on_body g})"
        using Some True unfolding Cons inj_on_insert by auto
      finally show ?thesis unfolding set' .
    qed
  next
    case False
    then have "{g \<in> set (f # fs). on_body g} = {g \<in> set fs. on_body g}" by auto
    with False Cons show ?thesis unfolding json_keys_step by simp
  qed
qed simp

text \<open>
  C19. Where no type of the design has two fields of one name, the check on JSON keys is silent
  exactly when the members of the type's JSON body, mixins expanded, have distinct keys.
\<close>

theorem json_keys_distinct:
  assumes "list_all (\<lambda>f. list_all decl_wf (f_Decls f)) files"
    and "mixins_clean (build_project base files)"
    and "type_at (build_project base files) (p_Name own, n) = Some td"
  shows "checkJSONKeysIn (build_project base files) own parent (td_Body td) = [] \<longleftrightarrow>
     distinct (map json_key_of (filter on_body (body_fields (build_project base files) own (td_Body td))))"
proof -
  let ?fs = "body_fields (build_project base files) own (td_Body td)"
  have "distinct (map fd_Name ?fs)"
    using flatten_names_distinct [OF build_project_wf [OF assms(1)] assms(2,3)] by (simp add: body_fields_def comp_def)
  then have "distinct ?fs" by (simp add: distinct_map)
  then show ?thesis by (simp add: checkJSONKeysIn_def json_keys_nil distinct_map)
qed

theorem json_keys_distinct_witness:
  "checkJSONKeysIn (build_project [] demo_files) (newPackage ''shop'') ''type Items'' [demo_mixin ''Page'', demo_field ''count''] = [] \<longleftrightarrow>
     distinct (map json_key_of (filter on_body (body_fields (build_project [] demo_files) (newPackage ''shop'')
       [demo_mixin ''Page'', demo_field ''count''])))"
proof -
  have clean: "mixins_clean (build_project [] demo_files)" by code_simp
  have "type_at (build_project [] demo_files) (p_Name (newPackage ''shop''), ''Items'')
      = Some (demo_type ''Items'' [demo_mixin ''Page'', demo_field ''count''])" by code_simp
  from json_keys_distinct [OF demo_files_wf clean this] show ?thesis by (simp add: demo_type_def)
qed

section \<open>Enums\<close>

definition enum_new :: "EnumValue \<Rightarrow> enum_seen \<Rightarrow> bool" where
  "enum_new v s \<longleftrightarrow> map_of (es_names s) (ev_Name v) = None
     \<and> (ev_Kind v = EnumInt \<longrightarrow> map_of (es_ints s) (ev_IntValue v) = None)
     \<and> (ev_Kind v = EnumString \<longrightarrow> map_of (es_strs s) (ev_StrValue v) = None)"

definition enum_add :: "EnumValue \<Rightarrow> enum_seen \<Rightarrow> enum_seen" where
  "enum_add v s = \<lparr>es_names = AList.update (ev_Name v) (ev_Pos v) (es_names s),
     es_ints = (if ev_Kind v = EnumInt then AList.update (ev_IntValue v) (ev_Pos v) (es_ints s) else es_ints s),
     es_strs = (if ev_Kind v = EnumString then AList.update (ev_StrValue v) (ev_Pos v) (es_strs s) else es_strs s)\<rparr>"

lemma enum_value_nil:
  "fst (enum_value name k p first v s) = [] \<longleftrightarrow> (first \<or> ev_Kind v = k) \<and> enum_new v s"
  by (cases "ev_Kind v") (auto simp: enum_value_def enum_new_def Let_def split: option.splits)

lemma enum_value_new:
  "enum_new v s \<Longrightarrow> snd (enum_value name k p first v s) = enum_add v s"
  by (cases "ev_Kind v") (auto simp: enum_value_def enum_new_def enum_add_def Let_def)

lemma enum_new_add:
  "enum_new v s \<Longrightarrow> enum_new w (enum_add v s) \<longleftrightarrow> enum_new w s \<and> ev_Name w \<noteq> ev_Name v \<and> 
     (ev_Kind w = ev_Kind v \<longrightarrow> EnumMemberWire w \<noteq> EnumMemberWire v)"
  by (cases "ev_Kind v"; cases "ev_Kind w") (auto simp: enum_new_def enum_add_def EnumMemberWire_def)

lemma not_image: "f v \<notin> f ` A \<longleftrightarrow> (\<forall>w \<in> A. f w \<noteq> f v)"
  by (metis image_iff)

lemma enum_values_nil:
  assumes "list_all (\<lambda>v. ev_Kind v = k) vs"
  shows "enum_values name k p first vs s = [] \<longleftrightarrow>
     list_all (\<lambda>v. enum_new v s) vs \<and> distinct (map ev_Name vs) \<and> distinct (map EnumMemberWire vs)"
  using assms
proof (induction vs arbitrary: s first)
  case (Cons v vs)
  have kinds: "\<forall>w \<in> set vs. ev_Kind w = ev_Kind v" using Cons.prems by (simp add: list_all_iff)
  have "enum_values name k p first (v # vs) s = [] \<longleftrightarrow> enum_new v s \<and> enum_values name k p False vs (enum_add v s) = []"
    using Cons.prems enum_value_nil [of name k p first v s] enum_value_new [of v s name k p first]
    by (auto simp: case_prod_unfold Let_def)
  also have "\<dots> \<longleftrightarrow> enum_new v s \<and> list_all (\<lambda>w. enum_new w (enum_add v s)) vs \<and> distinct (map ev_Name vs) \<and> distinct (map EnumMemberWire vs)"
    using Cons by simp
  also have "\<dots> \<longleftrightarrow> list_all (\<lambda>v. enum_new v s) (v # vs) \<and> distinct (map ev_Name (v # vs)) \<and> distinct (map EnumMemberWire (v # vs))"
    using kinds by (auto simp: list_all_iff enum_new_add not_image)
  finally show ?case .
qed simp

lemma enum_values_kinds:
  "enum_values name k p False vs s = [] \<Longrightarrow> list_all (\<lambda>v. ev_Kind v = k) vs"
proof (induction vs arbitrary: s)
  case (Cons v vs)
  then show ?case using enum_value_nil [of name k p False v s] by (auto simp: case_prod_unfold Let_def)
qed simp

text \<open>
  C21. An enum is accepted exactly when it has values, all of one kind, with distinct names and
  distinct values on the wire.
\<close>

theorem enum_ok:
  "check_enum ed = [] \<longleftrightarrow>
     (case EnumValues (Some ed) of
        [] \<Rightarrow> False
      | v # vs \<Rightarrow> list_all (\<lambda>w. ev_Kind w = ev_Kind v) vs \<and> distinct (map ev_Name (v # vs)) \<and> distinct (map EnumMemberWire (v # vs)))"
proof (cases "EnumValues (Some ed)")
  case (Cons v vs)
  let ?s = "\<lparr>es_names = [], es_ints = [], es_strs = []\<rparr>"
  have new: "list_all (\<lambda>v. enum_new v ?s) ws" for ws by (simp add: list_all_iff enum_new_def)
  have "check_enum ed = enum_values (ed_Name ed) (ev_Kind v) (ev_Pos v) True (v # vs) ?s"
    unfolding check_enum_def Cons by (simp only: list.case)
  moreover have "list_all (\<lambda>w. ev_Kind w = ev_Kind v) vs" if "enum_values (ed_Name ed) (ev_Kind v) (ev_Pos v) True (v # vs) ?s = []"
    using that enum_values_kinds by (auto simp: case_prod_unfold Let_def)
  ultimately have "check_enum ed = [] \<longleftrightarrow> list_all (\<lambda>w. ev_Kind w = ev_Kind v) (v # vs)
      \<and> distinct (map ev_Name (v # vs)) \<and> distinct (map EnumMemberWire (v # vs))"
    using enum_values_nil [of "ev_Kind v" "v # vs" "ed_Name ed" "ev_Pos v" True ?s] new [of "v # vs"]
    by (simp del: enum_values.simps distinct.simps list.map) (metis list.pred_inject(2))
  then show ?thesis unfolding Cons by simp
next
  case Nil
  then show ?thesis unfolding check_enum_def Nil by simp
qed

section \<open>Members of a struct\<close>

lemma embed_names_simps [simp]:
  "embed_names [] = []"
  "embed_names (TM_Field v # body) = embed_names body"
  "embed_names (TM_FreeComment c # body) = embed_names body"
  "embed_names (TM_Mixin mx # body) = (case Option.bind (mx_Ref mx) nt_Name of
     Some q \<Rightarrow> if qi_Parts q = [] then embed_names body else goEmbedName (Some q) # embed_names body
   | None \<Rightarrow> embed_names body)"
  by (auto simp: embed_names_def List.map_filter_def goEmbedName_def split: option.splits)

lemma embeds_distinct:
  "fst (check_mixins p own host body sm seen) = [] \<Longrightarrow>
     distinct (embed_names body) \<and> (\<forall>n \<in> set (embed_names body). map_of sm n = None)"
proof (induction body arbitrary: sm seen)
  case (Cons m body)
  show ?case
  proof (cases m)
    case (TM_Mixin mx)
    show ?thesis
    proof (cases "Option.bind (mx_Ref mx) nt_Name")
      case None
      with Cons.prems TM_Mixin have "fst (check_mixins p own host body sm (snd (processMixin p own host mx seen))) = []"
        by (simp add: case_prod_unfold Let_def)
      with Cons.IH None TM_Mixin show ?thesis by simp
    next
      case (Some q)
      with Cons.prems TM_Mixin have new: "map_of sm (goEmbedName (Some q)) = None"
        by (cases "map_of sm (goEmbedName (Some q))") (simp_all add: case_prod_unfold Let_def)
      then obtain e seen' where "fst (check_mixins p own host body (AList.update (goEmbedName (Some q)) e sm) seen') = []"
        using Cons.prems TM_Mixin Some by (auto simp: case_prod_unfold Let_def)
      from Cons.IH [OF this] have "distinct (embed_names body)"
        "\<forall>n \<in> set (embed_names body). n \<noteq> goEmbedName (Some q) \<and> map_of sm n = None"
        by (auto simp: update_conv' split: if_splits)
      with new Some TM_Mixin show ?thesis by auto
    qed
  qed (use Cons in auto)
qed simp

lemma plain_dedup_name:
  assumes "CHR ''_'' \<notin> set n" and "n \<in> set (fst (DedupGoFieldNames names))"
  shows "n \<in> GoFieldName ` set names"
  using assms by (auto simp: DedupGoFieldNames_resolved dedup_spec_def rank_name_def split: if_splits)

lemma generated_members_nil:
  assumes "generated_members p own label err names body = []" and "length names = length (Fields body)"
  shows "''Validate'' \<notin> set names \<and> ''Validate'' \<notin> set (embed_names body)"
  using assms
proof (induction p own label err names body rule: generated_members.induct)
  case (2 p own label err names v body)
  then show ?case by (cases names) (auto simp: Let_def generatedMemberClash_def bodyStructMethods_def Fields_def split: if_splits)
next
  case (3 p own label err names v body)
  then show ?case
    by (auto simp: Let_def generated_mixin_members_def goEmbedName_def bodyStructMethods_def Fields_def
        split: if_splits option.splits)
qed (auto simp: Fields_def)

text \<open>
  C18. A struct the mixin and member checks accept declares no member twice: its fields under their
  deduplicated Go names, its embedded mixins and its generated method, where no embedded type has
  an underscore in its name.
\<close>

theorem struct_members_distinct:
  assumes "checkOneTypeMixins p own host body = []" and "checkGeneratedMemberNames p own label body err = []"
    and "list_all (\<lambda>n. CHR ''_'' \<notin> set n) (embed_names body)"
  shows "distinct (goLevelNames body @ embed_names body @ bodyStructMethods)"
proof -
  have "fst (check_mixins p own host body [] (host_fields host body)) = []" and clash: "fieldEmbedClashes body = []"
    using assms(1) by (auto simp: checkOneTypeMixins_def case_prod_unfold Let_def)
  then have "distinct (embed_names body)" using embeds_distinct by blast
  moreover have "distinct (goLevelNames body)" and len: "length (goLevelNames body) = length (Fields body)"
    by (auto simp: goLevelNames_def DedupGoFieldNames_resolved distinct_map intro!: inj_onI dest: dedup_spec_inj)
  moreover have "n \<notin> set (goLevelNames body)" if "n \<in> set (embed_names body)" for n
  proof
    assume "n \<in> set (goLevelNames body)"
    then have "n \<in> GoFieldName ` fd_Name ` set (Fields body)"
      using plain_dedup_name [of n "map fd_Name (Fields body)"] assms(3) that by (auto simp: goLevelNames_def list_all_iff)
    then show False using clash that by (auto simp: fieldEmbedClashes_def map_filter_def filter_empty_conv)
  qed
  ultimately show ?thesis
    using generated_members_nil [OF _ len] assms(2) by (auto simp: bodyStructMethods_def checkGeneratedMemberNames_def)
qed

theorem struct_members_distinct_witness:
  "distinct (goLevelNames [demo_mixin ''Page'', demo_field ''count''] @ embed_names [demo_mixin ''Page'', demo_field ''count''] @ bodyStructMethods)"
  by (rule struct_members_distinct [of "build_project [] demo_files" "newPackage ''shop''" "''Items''" _ "''type Items''" "[]"]) code_simp+


end
