(* ===== verification/Bindings_Spec.thy ===== *)
theory Bindings_Spec
  imports Placement Mixins_Spec
begin

text \<open>
  What the binding checks decide: where they are silent, the parameters of a request have names of
  their own, and the fields a route or a query fills by name have types the binder reads.
\<close>

section \<open>The fields of an instance\<close>

text \<open>
  The walk through a body and its mixins reads neither the view nor the type arguments, but for
  the types of the fields.
\<close>

definition untyped :: "FlatField \<Rightarrow> Field" where
  "untyped ff = (ff_Field ff)\<lparr>fd_Type := None\<rparr>"

definition same_walk :: "FlatField list \<times> fieldWalk \<Rightarrow> FlatField list \<times> fieldWalk \<Rightarrow> bool" where
  "same_walk a b \<longleftrightarrow> map untyped (fst a) = map untyped (fst b)
     \<and> w_proj (snd a) = w_proj (snd b) \<and> w_expanded (snd a) = w_expanded (snd b)"

lemma level_loop_same:
  assumes mixins: "\<And>mx w w'. w_proj w = w_proj w' \<Longrightarrow> w_expanded w = w_expanded w' \<Longrightarrow> same_walk (mixin mx w) (mixin' mx w')"
    and flds: "\<And>w w' i j v. untyped (field w i v) = untyped (field' w' j v)"
    and "w_proj w = w_proj w'" "w_expanded w = w_expanded w'"
  shows "same_walk (level_loop mixin field i body w) (level_loop mixin' field' i body w')"
  using assms(3,4)
proof (induction body arbitrary: i w w')
  case (Cons m body)
  show ?case
  proof (cases m)
    case (TM_Mixin mx)
    have step: "same_walk (mixin mx w) (mixin' mx w')" using mixins Cons.prems by blast
    then have "same_walk (level_loop mixin field i body (snd (mixin mx w))) (level_loop mixin' field' i body (snd (mixin' mx w')))"
      using Cons.IH by (simp add: same_walk_def)
    with step TM_Mixin show ?thesis by (simp add: same_walk_def case_prod_unfold Let_def)
  qed (use Cons flds in \<open>auto simp: same_walk_def case_prod_unfold Let_def\<close>)
qed (simp add: same_walk_def)

lemma walk_mixin_same:
  assumes level: "\<And>home body tps s o' path tps' s' o'' path' w w'. w_proj w = w_proj w' \<Longrightarrow> w_expanded w = w_expanded w' \<Longrightarrow>
      same_walk (lev home body tps s o' path w) (lev home body tps' s' o'' path' w')"
    and w: "w_proj w = w_proj w'" "w_expanded w = w_expanded w'"
  shows "same_walk (walk_mixin lev home tps s o' path mx w) (walk_mixin lev home tps' s' o'' path' mx w')"
  using w level unfolding walk_mixin_def
  by (auto simp: same_walk_def Let_def split: option.splits prod.splits)

lemma level_same:
  "w_proj w = w_proj w' \<Longrightarrow> w_expanded w = w_expanded w' \<Longrightarrow>
     same_walk (level n home body tps s o' path w) (level n home body tps' s' o'' path' w')"
proof (induction n arbitrary: home body tps s o' path tps' s' o'' path' w w')
  case (Suc n)
  show ?case
    unfolding level.simps Let_def
    by (rule level_loop_same [OF walk_mixin_same])
      (use Suc in \<open>auto simp: untyped_def flat_field_def Let_def\<close>)
qed (simp add: same_walk_def)

lemma flatten_untyped:
  "map untyped (fst (flattenFields p view home body tps args names)) = map untyped (fst (flattenFields p view' home body tps' args' names'))"
proof -
  let ?w = "\<lambda>v n. \<lparr>w_proj = p, w_view = v, w_names = n, w_expanded = {}, w_incomplete = False, w_embedDepths = []\<rparr>"
  let ?run = "\<lambda>v tps args n. level (Suc (length (type_keys p))) home body tps (SubstMap tps args) [] [] (?w v n)"
  have "map untyped (fst (flattenFields p v home body tps args n)) = map untyped (fst (?run v tps args n))" for v tps args n
    unfolding flattenFields_def Let_def case_prod_unfold fst_conv
    by (rule map_nameShadowedByPath) (simp add: untyped_def)
  moreover have "same_walk (?run view tps args names) (?run view' tps' args' names')"
    by (rule level_same) simp_all
  ultimately show ?thesis by (simp add: same_walk_def)
qed

section \<open>Wire names of a request\<close>

definition explicit_keys :: "Field list \<Rightarrow> wireKey list" where
  "explicit_keys fs = List.map_filter (\<lambda>f. map_option (\<lambda>(k, n). wire_key k n) (wireBinding f)) fs"

definition param_key :: "string set \<Rightarrow> bool \<Rightarrow> Field \<Rightarrow> wireKey option" where
  "param_key pathSegs bodyVerb f =
     (let kind = fst (RequestFieldBinding f pathSegs bodyVerb)
      in if IsParam kind then Some (wire_key kind (WireName (Some f) kind)) else None)"

definition param_keys :: "string set \<Rightarrow> bool \<Rightarrow> Field list \<Rightarrow> wireKey list" where
  "param_keys pathSegs bodyVerb fs = List.map_filter (param_key pathSegs bodyVerb) fs"

lemma explicit_keys_simps:
  "explicit_keys [] = []"
  "explicit_keys (f # fs) = (case wireBinding f of None \<Rightarrow> [] | Some (k, n) \<Rightarrow> [wire_key k n]) @ explicit_keys fs"
  by (simp_all add: explicit_keys_def List.map_filter_def split: option.splits)

lemma duplicate_wire_nil:
  "duplicate_wire own parent seen ffs = [] \<longleftrightarrow>
     distinct (explicit_keys (map ff_Field ffs)) \<and> set (explicit_keys (map ff_Field ffs)) \<inter> dom (map_of seen) = {}"
proof (induction ffs arbitrary: seen)
  case (Cons ff ffs)
  show ?case
  proof (cases "wireBinding (ff_Field ff)")
    case (Some kn)
    obtain k n where kn: "kn = (k, n)" by (cases kn)
    have "dom (map_of (AList.update (wire_key k n) ff seen)) = insert (wire_key k n) (dom (map_of seen))" by (simp add: update_conv')
    then have "duplicate_wire own parent (AList.update (wire_key k n) ff seen) ffs = [] \<longleftrightarrow>
        distinct (explicit_keys (map ff_Field ffs)) \<and> set (explicit_keys (map ff_Field ffs)) \<inter> insert (wire_key k n) (dom (map_of seen)) = {}"
      by (simp only: Cons)
    moreover have "duplicate_wire own parent seen (ff # ffs) = [] \<longleftrightarrow>
        wire_key k n \<notin> dom (map_of seen) \<and> duplicate_wire own parent (AList.update (wire_key k n) ff seen) ffs = []"
      by (simp add: Some kn domIff Let_def split: option.split)
    moreover have "explicit_keys (map ff_Field (ff # ffs)) = wire_key k n # explicit_keys (map ff_Field ffs)"
      by (simp add: explicit_keys_simps Some kn)
    ultimately show ?thesis by auto
  qed (use Cons in \<open>simp add: explicit_keys_simps\<close>)
qed (simp add: explicit_keys_simps)

lemma wireBinding_untyped: "wireBinding (f\<lparr>fd_Type := t\<rparr>) = wireBinding f"
  by (cases f) (simp add: wireBinding_def WireName_def nameArg_def Let_def split: option.split)

lemma explicit_keys_untyped: "explicit_keys (map ff_Field ffs) = explicit_keys (map untyped ffs)"
  by (induction ffs) (simp_all add: explicit_keys_def List.map_filter_def untyped_def wireBinding_untyped)

lemma explicit_param:
  assumes "RequestFieldBinding f pathSegs bodyVerb = (kind, False)" and "IsParam kind"
  shows "wireBinding f = Some (kind, WireName (Some f) kind)"
  using assms by (auto simp: RequestFieldBinding_def wireBinding_def IsParam_def Let_def split: if_splits prod.splits)

lemma auto_wire_distinct:
  assumes "auto_wire reqName m pathSegs bodyVerb seen ffs = []" and "distinct (explicit_keys (map ff_Field ffs))"
    and "\<forall>k \<in> set (explicit_keys (map ff_Field ffs)). \<forall>b. map_of seen k = Some b \<longrightarrow> ab_auto b"
  shows "distinct (param_keys pathSegs bodyVerb (map ff_Field ffs))
     \<and> set (param_keys pathSegs bodyVerb (map ff_Field ffs)) \<inter> dom (map_of seen) = {}"
  using assms
proof (induction ffs arbitrary: seen)
  case (Cons ff ffs)
  obtain kind auto where b: "RequestFieldBinding (ff_Field ff) pathSegs bodyVerb = (kind, auto)" by fastforce
  let ?key = "wire_key kind (WireName (Some (ff_Field ff)) kind)"
  have keys: "explicit_keys (map ff_Field (ff # ffs)) =
      (case wireBinding (ff_Field ff) of None \<Rightarrow> [] | Some (k, n) \<Rightarrow> [wire_key k n]) @ explicit_keys (map ff_Field ffs)"
    by (simp add: explicit_keys_simps)
  have rest: "distinct (explicit_keys (map ff_Field ffs))"
    "\<forall>k \<in> set (explicit_keys (map ff_Field ffs)). \<forall>b. map_of seen k = Some b \<longrightarrow> ab_auto b"
    using Cons.prems(2,3) unfolding keys by (simp_all add: Ball_def)
  show ?case
  proof (cases "IsParam kind")
    case False
    then have "auto_wire reqName m pathSegs bodyVerb seen ffs = []" using Cons.prems(1) b by (simp add: Let_def)
    with Cons.IH rest False b show ?thesis by (simp add: param_keys_def param_key_def List.map_filter_def)
  next
    case True
    have explicit: "?key \<in> set (explicit_keys (map ff_Field (ff # ffs)))" "?key \<notin> set (explicit_keys (map ff_Field ffs))" if "\<not> auto"
      using explicit_param [of "ff_Field ff" pathSegs bodyVerb kind] that b True Cons.prems(2) unfolding keys by auto
    have new: "map_of seen ?key = None"
    proof (rule ccontr)
      assume "map_of seen ?key \<noteq> None"
      then obtain prev where "map_of seen ?key = Some prev" by blast
      moreover from this have "\<not> auto \<and> \<not> ab_auto prev" using Cons.prems(1) b True by (simp add: Let_def split: if_splits)
      ultimately show False using explicit(1) Cons.prems(3) by blast
    qed
    let ?seen = "AList.update ?key \<lparr>ab_pos = fd_Pos (ff_Field ff), ab_auto = auto\<rparr> seen"
    have "auto_wire reqName m pathSegs bodyVerb ?seen ffs = []" using Cons.prems(1) b True new by (simp add: Let_def)
    moreover have "\<forall>k \<in> set (explicit_keys (map ff_Field ffs)). \<forall>b. map_of ?seen k = Some b \<longrightarrow> ab_auto b"
      using rest(2) explicit(2) by (cases auto) (auto simp: update_conv')
    moreover have "dom (map_of ?seen) = insert ?key (dom (map_of seen))" by (simp add: update_conv')
    ultimately have "distinct (param_keys pathSegs bodyVerb (map ff_Field ffs))"
      "set (param_keys pathSegs bodyVerb (map ff_Field ffs)) \<inter> insert ?key (dom (map_of seen)) = {}"
      using Cons.IH [of ?seen] rest(1) by (metis, metis)
    moreover have "param_keys pathSegs bodyVerb (map ff_Field (ff # ffs)) = ?key # param_keys pathSegs bodyVerb (map ff_Field ffs)"
      using b True by (simp add: param_keys_def param_key_def List.map_filter_def)
    ultimately show ?thesis using new by auto
  qed
qed (simp add: param_keys_def List.map_filter_def)


definition demo_method :: "string \<Rightarrow> string \<Rightarrow> string \<Rightarrow> Path option \<Rightarrow> Method" where
  "demo_method verb name req path =
     \<lparr>me_Pos = zero_Position, me_NamePos = zero_Position, me_Decorators = [], me_Doc = [], me_Verb = verb, me_Name = name, me_Path = path,
      me_Request = Some (demo_ref req), me_Response = None, me_BodyComments = [], me_EndPos = zero_Position\<rparr>"

definition demo_prefix :: "string \<Rightarrow> Decorator" where
  "demo_prefix s = \<lparr>dec_Pos = zero_Position, dec_Name = ''prefix'',
     dec_Args = [\<lparr>da_Pos = zero_Position, da_Name = [], da_Named = False, da_Value = Some (StringLit zero_Position s s), da_Object = None\<rparr>],
     dec_HasParens = True\<rparr>"

definition demo_service :: "Decorator list \<Rightarrow> Method list \<Rightarrow> ServiceDecl" where
  "demo_service ds ms =
     \<lparr>sv_Pos = zero_Position, sv_NamePos = zero_Position, sv_Decorators = ds, sv_Doc = [], sv_Name = ''Items'',
      sv_Members = map SM_Method ms, sv_Extend = False, sv_EndPos = zero_Position\<rparr>"

definition list_items :: Method where
  "list_items = demo_method ''get'' ''List'' ''Items'' None"

definition demo_project :: "Decorator list \<Rightarrow> Project" where
  "demo_project ds = build_project [] [demo_file ''shop''
     [D_Type (demo_type ''Page'' [demo_field ''size'']),
      D_Type (demo_type ''Items'' [demo_mixin ''Page'', demo_field ''count'']),
      D_Service (demo_service ds [list_items])]]"

definition demo_shop :: "Decorator list \<Rightarrow> Package" where
  "demo_shop ds = the (Packages (demo_project ds) ''shop'')"


section \<open>Types of the parameters bound by name\<close>

definition binder_reads :: "Project \<Rightarrow> string \<Rightarrow> string set \<Rightarrow> FlatField \<Rightarrow> bool" where
  "binder_reads p view pathSegs ff \<longleftrightarrow>
     (case fd_Type (ff_Field ff) of
        None \<Rightarrow> True
      | Some t \<Rightarrow>
          (case RequestFieldBinding (ff_Field ff) pathSegs False of
             (BindPath, True) \<Rightarrow> pathBindable p view (Some t) \<and> \<not> HasDecorator (decs (fd_Decorators (ff_Field ff))) ''nullable''
               \<and> \<not> HasDecorator (decs (fd_Decorators (ff_Field ff))) ''default''
           | (BindQuery, True) \<Rightarrow> wireBindable p view (Some t) \<and> \<not> HasDecorator (decs (fd_Decorators (ff_Field ff))) ''nullable''
               \<and> \<not> sliceBehindPointer ff
           | _ \<Rightarrow> True))"

lemma path_rule_nil:
  assumes "autoPathFieldRule p reqName view pathSegs f = []" and "fd_Type f = Some t" and "RequestFieldBinding f pathSegs False = (BindPath, True)"
  shows "pathFaultOf p view f t = pathBinds"
  using assms by (cases "pathFaultOf p view f t") (simp_all add: autoPathFieldRule_def Let_def)

lemma pathBinds_iff:
  "pathFaultOf p view f t = pathBinds \<longleftrightarrow> pathBindable p view (Some t)
     \<and> \<not> HasDecorator (decs (fd_Decorators f)) ''nullable'' \<and> \<not> HasDecorator (decs (fd_Decorators f)) ''default''"
  by (auto simp: pathFaultOf_def pathBindable_def)

lemma query_rule_nil:
  assumes "bodyBindingVerbRules p reqName verb svcName view pathSegs ff = []" and "fd_Type (ff_Field ff) = Some t"
    and "RequestFieldBinding (ff_Field ff) pathSegs False = (BindQuery, True)"
  shows "wireBindable p view (Some t) \<and> \<not> HasDecorator (decs (fd_Decorators (ff_Field ff))) ''nullable'' \<and> \<not> sliceBehindPointer ff"
  using assms by (auto simp: bodyBindingVerbRules_def Let_def split: if_splits)


definition get_items :: Method where
  "get_items = demo_method ''get'' ''Get'' ''Items'' (Some \<lparr>pa_Pos = zero_Position,
     pa_Segments = [\<lparr>ps_Pos = zero_Position, ps_Param = True, ps_Literal = ''count''\<rparr>]\<rparr>)"

definition get_project :: Project where
  "get_project = build_project [] [demo_file ''shop''
     [D_Type (demo_type ''Page'' [demo_field ''size'']),
      D_Type (demo_type ''Items'' [demo_mixin ''Page'', demo_field ''count'']),
      D_Service (demo_service [] [get_items])]]"


section \<open>A pathless method\<close>

definition optional_items :: TypeDecl where
  "optional_items = demo_type ''Items'' [TM_Field \<lparr>fd_Pos = zero_Position, fd_Doc = [], fd_Name = ''count'',
     fd_Type = Some (TypeRef zero_Position None (Some (demo_ref ''int'')) True True 1), fd_Decorators = []\<rparr>]"


section \<open>Contracts of events\<close>

lemma contract_clashes_nil:
  "contract_clashes seen evs = [] \<longleftrightarrow>
     (let cs = filter (\<lambda>c. c \<noteq> []) (map re_Contract evs) in distinct cs \<and> set cs \<inter> dom (map_of seen) = {})"
proof (induction evs arbitrary: seen)
  case (Cons ev evs)
  show ?case
  proof (cases "re_Contract ev = []")
    case False
    have "dom (map_of (AList.update (re_Contract ev) (en_Pos (re_Decl ev)) seen)) = insert (re_Contract ev) (dom (map_of seen))"
      by (simp add: update_conv')
    moreover have "contract_clashes seen (ev # evs) = [] \<longleftrightarrow> re_Contract ev \<notin> dom (map_of seen)
        \<and> contract_clashes (AList.update (re_Contract ev) (en_Pos (re_Decl ev)) seen) evs = []"
      using False by (simp add: domIff split: option.split)
    ultimately show ?thesis using False Cons [of "AList.update (re_Contract ev) (en_Pos (re_Decl ev)) seen"]
      unfolding Let_def by auto
  qed (use Cons in simp)
qed simp


end
