(* ===== verification/Analysis_Spec.thy ===== *)
theory Analysis_Spec
  imports Analysis Arguments_Spec Values_Spec Mixins_Spec Instances Cycles_Spec Outputs_Spec Collisions_Spec Bindings_Spec
begin

text \<open>
  What an accepted project is: the analyser as a whole returns its diagnostics in order, and a
  project it reports no error on has what the single checks promise.
\<close>

section \<open>Diagnostics of the parts\<close>

lemma collect_opt_part:
  assumes "collect_opt xs = Some ds" and "x \<in> set xs"
  shows "\<exists>es. x = Some es \<and> set es \<subseteq> set ds"
  using assms
proof (induction xs arbitrary: ds)
  case (Cons y ys)
  then obtain es es' where y: "y = Some es" and ys: "collect_opt ys = Some es'" and ds: "ds = es @ es'"
    by (auto simp: bind_eq_Some_conv)
  from Cons.prems(2) consider "x = y" | "x \<in> set ys" by auto
  then show ?case
  proof cases
    case 2
    then show ?thesis using Cons.IH [OF ys] ds by auto
  qed (use y ds in auto)
qed simp

lemma collect_opt_some: "collect_opt xs = Some ds \<Longrightarrow> Some es \<in> set xs \<Longrightarrow> set es \<subseteq> set ds"
  using collect_opt_part by fastforce

lemma analyzed_parts:
  assumes "AnalyzeProject env opts files = Some (p, ds)"
  shows "p = build_project (op_BasePath opts) files"
    and "\<exists>es. project_diagnostics env opts p = Some es \<and> set es \<subseteq> set ds"
    and "map_of (fst (groupFilesByPackage files)) name = Some fs
      \<Longrightarrow> \<exists>es. package_diagnostics env opts p name fs = Some es \<and> set es \<subseteq> set ds"
proof -
  let ?groups = "fst (groupFilesByPackage files)"
  let ?parts = "Some (snd (groupFilesByPackage files))
    # map (\<lambda>name. case map_of ?groups name of None \<Rightarrow> Some [] | Some fs \<Rightarrow> package_diagnostics env opts p name fs) (sorted_keys ?groups)
    @ [project_diagnostics env opts p]"
  show p: "p = build_project (op_BasePath opts) files"
    using assms by (auto simp: AnalyzeProject_def case_prod_unfold Let_def)
  obtain es where es: "collect_opt ?parts = Some es" "ds = sortDiagnostics env es"
    using assms unfolding AnalyzeProject_def Let_def case_prod_unfold p [symmetric] by (auto simp del: collect_opt.simps)
  then have all: "\<exists>es. x = Some es \<and> set es \<subseteq> set ds" if "x \<in> set ?parts" for x
    using collect_opt_part [OF es(1) that] by (simp add: sortDiagnostics_def)
  show "\<exists>es. project_diagnostics env opts p = Some es \<and> set es \<subseteq> set ds" by (rule all) simp
  show "\<exists>es. package_diagnostics env opts p name fs = Some es \<and> set es \<subseteq> set ds" if "map_of ?groups name = Some fs"
  proof (rule all)
    have "name \<in> set (sorted_keys ?groups)" using that map_of_SomeD by (force simp: sorted_keys_def)
    then show "package_diagnostics env opts p name fs \<in> set ?parts" using that by (force simp: image_iff)
  qed
qed

section \<open>Checks that report errors only\<close>

lemma list_all_concat_map: "list_all P (concat (map f xs)) \<longleftrightarrow> list_all (\<lambda>x. list_all P (f x)) xs"
  by (induction xs) auto

lemma package_cycle_errors: "list_all IsError (checkPackageCycles p)"
  by (simp add: checkPackageCycles_def Let_def list_all_iff cycle_diag_def)

lemma report_flows_errors: "list_all IsError (report_flows seen fs)"
  by (induction seen fs rule: report_flows.induct) simp_all

lemma operation_errors: "list_all IsError (checkProjectOperationIDUniqueness p)"
  by (simp add: checkProjectOperationIDUniqueness_def Let_def list_all_iff report_operation_def)

lemma contract_errors: "list_all IsError (contract_clashes seen evs)"
  by (induction seen evs rule: contract_clashes.induct) (auto split: option.splits)

lemma every_site_errors: "list_all IsError (reportEverySite code ss)"
  by (auto simp: reportEverySite_def list_all_iff)

lemma middleware_errors: "list_all IsError (checkProjectMiddlewareUniqueness P fileCase p)"
  by (simp add: checkProjectMiddlewareUniqueness_def reportCrossPackageDuplicates_def list_all_concat_map every_site_errors Let_def)
    (simp add: list_all_iff)

lemma method_errors: "list_all IsError (service_methods si seenName seenRoute ms)"
  by (induction ms arbitrary: seenName seenRoute) (auto simp: Let_def case_prod_unfold split: option.splits)

lemma service_errors: "list_all IsError (checkServiceMethods own)"
  by (simp add: checkServiceMethods_def list_all_concat_map case_prod_unfold method_errors list_all_iff [of _ "p_Services own"])

lemma field_errors: "list_all IsError (check_fields L name seen fs)"
  by (induction L name seen fs rule: check_fields.induct) (auto simp: Let_def split: option.splits)

lemma clash_report_errors: "list_all IsError (clash_report owners msg)"
  by (simp add: clash_report_def every_site_errors)

lemma method_clash_errors: "list_all IsError (reportMethodNameClashes P fileCase seg occs)"
  unfolding reportMethodNameClashes_def file_problem_def shared_file_def logic_clash_def Let_def list_all_append list_all_concat_map
  by (auto simp: list_all_iff [of _ "first_members {} _"] list_all_iff [of _ "sort _"] clash_report_errors split: option.splits)

lemma straddle_errors: "list_all IsError (reportGroupPackageStraddle seg occs)"
  by (simp add: reportGroupPackageStraddle_def every_site_errors)

lemma member_collision_errors: "list_all IsError (reportGroupMemberCollisions fileCase seg occs)"
  unfolding reportGroupMemberCollisions_def Let_def list_all_concat_map
  by (simp add: list_all_iff [of _ "sort _"] every_site_errors)

lemma group_errors: "list_all IsError (checkProjectGroupChecks P fileCase p)"
  unfolding checkProjectGroupChecks_def check_segment_def Let_def list_all_concat_map
  by (simp add: list_all_iff [of _ "sort _"] method_clash_errors straddle_errors member_collision_errors)

lemma collect_body_errors:
  assumes "\<And>mx seen. list_all IsError (fst (nested mx seen))"
  shows "list_all IsError (fst (collect_body nested label pos body seen))"
proof (induction body arbitrary: seen)
  case (Cons m body)
  then show ?case
    using assms by (cases m) (auto simp: add_field_def conflict_at_def case_prod_unfold Let_def split: option.splits)
qed simp

lemma collectMixinFields_errors: "list_all IsError (fst (collectMixinFields n p own pkg name label pos seen visited))"
proof (induction n arbitrary: pkg name seen visited)
  case (Suc n)
  then show ?case
    by (auto simp: cycle_at_def Let_def split: option.splits prod.splits intro!: collect_body_errors)
qed (simp add: cycle_at_def)

lemma processMixin_errors: "list_all IsError (fst (processMixin p own host mx seen))"
  using collectMixinFields_errors
  by (auto simp: processMixin_def resolveMixinTarget_def case_prod_unfold Let_def simp del: collectMixinFields.simps
    split: option.splits Decl.splits)

lemma check_mixins_errors: "list_all IsError (fst (check_mixins p own host body seenMixin seen))"
proof (induction body arbitrary: seenMixin seen)
  case (Cons m body)
  then show ?case by (cases m) (auto simp: processMixin_errors case_prod_unfold Let_def split: option.splits)
qed simp

lemma go_collision_errors: "list_all IsError (reportGoNameCollisions seen)"
  by (auto simp: reportGoNameCollisions_def report_group_def Let_def list_all_iff split: list.splits if_splits)

lemma mixin_errors: "list_all IsError (checkMixins p own)"
  by (auto simp: checkMixins_def checkOneTypeMixins_def checkTypeParamMixin_def list_all_concat_map case_prod_unfold Let_def
    check_mixins_errors go_collision_errors list_all_iff [of _ "p_Types own"] list_all_iff [of _ "p_Errors own"] list_all_iff [of _ "map _ _"])

section \<open>Accepted projects\<close>

lemma project_package:
  assumes "(name, own) \<in> set (pr_Packages (build_project base files))"
  shows "\<exists>fs. map_of (fst (groupFilesByPackage files)) name = Some fs \<and> own = fst (runDeclPhase base name fs)"
  using assms by (auto simp: build_project_def project_packages_def List.map_filter_def Let_def)

text \<open>The checks of a package and of the project whose diagnostics an analysis holds.\<close>

definition package_checks :: "env \<Rightarrow> Project \<Rightarrow> Package \<Rightarrow> Diagnostic list" where
  "package_checks env p own = checkFieldUniqueness (env_Letter env) p own @ checkServiceMethods own @ checkMixins p own"

lemma analyzed_package:
  assumes "AnalyzeProject env opts files = Some (p, ds)" and "(name, own) \<in> set (pr_Packages p)"
  shows "set (package_checks env p own) \<subseteq> set ds"
proof -
  obtain fs where fs: "map_of (fst (groupFilesByPackage files)) name = Some fs" "own = fst (runDeclPhase (op_BasePath opts) name fs)"
    using project_package assms(2) analyzed_parts(1) [OF assms(1)] by metis
  then obtain es where es: "package_diagnostics env opts p name fs = Some es" "set es \<subseteq> set ds"
    using analyzed_parts(3) [OF assms(1)] by metis
  then have "\<exists>ss. runShapePhase env opts p own fs = Some ss \<and> set ss \<subseteq> set es"
    unfolding package_diagnostics_def case_prod_unfold fs(2) [symmetric] by (elim collect_opt_part) simp
  then obtain ss where ss: "runShapePhase env opts p own fs = Some ss" "set ss \<subseteq> set es" by blast
  have "set (checkFieldUniqueness (env_Letter env) p own) \<subseteq> set ss" "set (checkServiceMethods own) \<subseteq> set ss" "set (checkMixins p own) \<subseteq> set ss"
    by (rule collect_opt_some [OF ss(1) [unfolded runShapePhase_def]]; simp)+
  with ss(2) es(2) show ?thesis by (auto simp: package_checks_def)
qed

lemma analyzed_project:
  assumes "AnalyzeProject env opts files = Some (p, ds)"
  shows "set (checkProjectGroupChecks (env_Print env) (op_FileCase opts) p) \<subseteq> set ds"
    and "set (checkProjectMiddlewareUniqueness (env_Print env) (op_FileCase opts) p) \<subseteq> set ds"
    and "set (checkProjectOperationIDUniqueness p) \<subseteq> set ds" and "set (checkProjectEvents p) \<subseteq> set ds"
    and "set (checkPackageCycles p) \<subseteq> set ds" and "set (checkInstantiationCycles p) \<subseteq> set ds"
proof -
  obtain es where es: "project_diagnostics env opts p = Some es" "set es \<subseteq> set ds" using analyzed_parts(2) [OF assms] by blast
  note part = subset_trans [OF collect_opt_some [OF es(1) [unfolded project_diagnostics_def]] es(2)]
  show "set (checkProjectGroupChecks (env_Print env) (op_FileCase opts) p) \<subseteq> set ds"
    "set (checkProjectMiddlewareUniqueness (env_Print env) (op_FileCase opts) p) \<subseteq> set ds"
    "set (checkProjectOperationIDUniqueness p) \<subseteq> set ds" "set (checkProjectEvents p) \<subseteq> set ds"
    "set (checkPackageCycles p) \<subseteq> set ds" "set (checkInstantiationCycles p) \<subseteq> set ds"
    by (rule part; simp)+
qed

lemma check_fields_duplicate: "check_fields L name seen fs = [] \<Longrightarrow> duplicate_fields n fs seen = []"
  by (induction L name seen fs rule: check_fields.induct) (auto simp: Let_def split: option.splits)

lemma accepted_packages:
  assumes "AnalyzeProject env opts files = Some (p, ds)" and "accepted ds" and "(name, own) \<in> set (pr_Packages p)"
  shows "checkServiceMethods own = []" and "checkMixins p own = []"
    and "(n, td) \<in> set (p_Types own) \<Longrightarrow> duplicate_fields n (Fields (td_Body td)) [] = []"
proof -
  have sub: "set (package_checks env p own) \<subseteq> set ds" by (rule analyzed_package [OF assms(1,3)])
  show "checkServiceMethods own = []"
    by (rule errors_silent [OF service_errors assms(2)]) (use sub in \<open>auto simp: package_checks_def\<close>)
  show "checkMixins p own = []"
    by (rule errors_silent [OF mixin_errors assms(2)]) (use sub in \<open>auto simp: package_checks_def\<close>)
  show "duplicate_fields n (Fields (td_Body td)) [] = []" if "(n, td) \<in> set (p_Types own)"
  proof (rule check_fields_duplicate)
    have "set (check_fields (env_Letter env) (td_Name td) [] (Fields (td_Body td))) \<subseteq> set (checkFieldUniqueness (env_Letter env) p own)"
      using that by (force simp: checkFieldUniqueness_def)
    then show "check_fields (env_Letter env) (td_Name td) [] (Fields (td_Body td)) = []"
      by (intro errors_silent [OF field_errors assms(2)]) (use sub in \<open>auto simp: package_checks_def\<close>)
  qed
qed

lemma accepted_mixins:
  assumes "AnalyzeProject env opts files = Some (p, ds)" and "accepted ds"
  shows "mixins_clean p"
  unfolding mixins_clean_def list_all_iff using accepted_packages [OF assms] by blast

lemma accepted_files:
  assumes "AnalyzeProject env opts files = Some (p, ds)" and "accepted ds" and "list_all (\<lambda>f. list_all decl_wf (f_Decls f)) files"
  shows "acyclic {(a, b). names_package p a b}
    \<and> finite {j. (instance_step p view)\<^sup>*\<^sup>* i j}
    \<and> (case type_at p t of None \<Rightarrow> True
       | Some td \<Rightarrow> distinct (map (\<lambda>ff. fd_Name (ff_Field ff)) (fst (flattenFields (Some p) view (fst t) (td_Body td) tps args names))))
    \<and> distinct (map ow_id (operation_owners p))
    \<and> distinct (filter (\<lambda>c. c \<noteq> []) (map re_Contract (events p)))
    \<and> distinct (map (\<lambda>(name, _). middleware_file (op_FileCase opts) name) (middleware_sites p))
    \<and> distinct (map (\<lambda>(s, m). (sg_dir s, methodFile m (op_FileCase opts))) (generated p (op_FileCase opts)))"
proof (intro conjI)
  note project = analyzed_project [OF assms(1)] and p = analyzed_parts(1) [OF assms(1)]
  show "acyclic {(a, b). names_package p a b}"
    using errors_silent [OF package_cycle_errors assms(2) project(5)] by (simp add: package_cycles_silent)
  have "checkInstantiationCycles p = []"
    using errors_silent [OF report_flows_errors assms(2), of "{}" "pr_endlessFlows p"] project(6) by (simp add: checkInstantiationCycles_def)
  then show "finite {j. (instance_step p view)\<^sup>*\<^sup>* i j}" unfolding p by (rule instances_bounded [OF assms(3)])
  show "case type_at p t of None \<Rightarrow> True
     | Some td \<Rightarrow> distinct (map (\<lambda>ff. fd_Name (ff_Field ff)) (fst (flattenFields (Some p) view (fst t) (td_Body td) tps args names)))"
    using flatten_names_distinct [OF build_project_wf [OF assms(3)] accepted_mixins [OF assms(1,2), unfolded p]] unfolding p
    by (auto split: option.split)
  show "distinct (map ow_id (operation_owners p))"
    using errors_silent [OF operation_errors assms(2) project(3)] by (simp add: operation_ids_silent)
  show "distinct (filter (\<lambda>c. c \<noteq> []) (map re_Contract (events p)))"
    using errors_silent [OF contract_errors assms(2), of "[]" "events p"] project(4) by (simp add: checkProjectEvents_def contract_clashes_nil)
  show "distinct (map (\<lambda>(name, _). middleware_file (op_FileCase opts) name) (middleware_sites p))"
    using errors_silent [OF middleware_errors assms(2) project(2)] by (simp add: middlewares_silent)
  have methods: "list_all (\<lambda>(_, pkg). checkServiceMethods pkg = []) (pr_Packages p)"
    using accepted_packages(1) [OF assms(1,2)] by (auto simp: list_all_iff)
  show "distinct (map (\<lambda>(s, m). (sg_dir s, methodFile m (op_FileCase opts))) (generated p (op_FileCase opts)))"
    using errors_silent [OF group_errors assms(2) project(1)] group_checks_silent [OF methods [unfolded p]] unfolding p by blast
qed

section \<open>A sample\<close>

definition sample_opts :: Options where
  "sample_opts = \<lparr>op_SecuritySchemes = None, op_BasePath = [], op_HealthPaths = [], op_FileCase = FileCaseSnake, op_manifest = zero_Position\<rparr>"

text \<open>Every part of an analysis is silent; without a reference between packages there is no cycle to look for.\<close>

definition quiet_parts :: "env \<Rightarrow> Options \<Rightarrow> File list \<Rightarrow> Project \<Rightarrow> bool" where
  "quiet_parts env opts files p \<longleftrightarrow>
     snd (groupFilesByPackage files) = []
     \<and> list_all (\<lambda>(name, fs). package_diagnostics env opts p name fs = Some []) (fst (groupFilesByPackage files))
     \<and> checkBasePathFormat (op_manifest opts) (op_BasePath opts) = []
     \<and> checkBasePathPattern (env_Letter env) (env_Digit env) (op_manifest opts) (op_BasePath opts) = []
     \<and> checkProjectGroupChecks (env_Print env) (op_FileCase opts) p = []
     \<and> checkProjectMiddlewareUniqueness (env_Print env) (op_FileCase opts) p = []
     \<and> checkProjectPathCollision p = [] \<and> checkNestedBindings p = Some []
     \<and> checkProjectOperationIDUniqueness p = [] \<and> checkProjectEvents p = []
     \<and> packageRefs p = [] \<and> checkInstantiationCycles p = []"

lemma collect_opt_silent: "list_all (\<lambda>x. x = Some []) xs \<Longrightarrow> collect_opt xs = Some []"
  by (induction xs) auto

lemma no_refs_no_cycle:
  assumes "packageRefs p = []"
  shows "checkPackageCycles p = []"
proof -
  have "cycle_paths [] names reported = []" for names reported
    by (induction "[] :: refs" names reported rule: cycle_paths.induct) (auto simp: shortestCycle_def ref_keys_def)
  with assms show ?thesis by (simp add: checkPackageCycles_def)
qed

lemma quiet_analysis:
  assumes "quiet_parts env opts files (build_project (op_BasePath opts) files)"
  shows "AnalyzeProject env opts files = Some (build_project (op_BasePath opts) files, [])"
proof -
  let ?p = "build_project (op_BasePath opts) files"
  have "project_diagnostics env opts ?p = Some []"
    using assms no_refs_no_cycle [of ?p] unfolding project_diagnostics_def quiet_parts_def by (intro collect_opt_silent) simp
  moreover have "package_diagnostics env opts ?p name fs = Some []" if "map_of (fst (groupFilesByPackage files)) name = Some fs" for name fs
    using assms map_of_SomeD [OF that] by (auto simp: quiet_parts_def list_all_iff)
  ultimately have "collect_opt (Some (snd (groupFilesByPackage files))
      # map (\<lambda>name. case map_of (fst (groupFilesByPackage files)) name of None \<Rightarrow> Some [] | Some fs \<Rightarrow> package_diagnostics env opts ?p name fs)
          (sorted_keys (fst (groupFilesByPackage files)))
      @ [project_diagnostics env opts ?p]) = Some []"
    using assms by (intro collect_opt_silent) (auto simp: quiet_parts_def list_all_iff split: option.split)
  then show ?thesis
    unfolding AnalyzeProject_def Let_def case_prod_unfold by (simp add: sortDiagnostics_def del: collect_opt.simps)
qed

lemma demo_silent: "quiet_parts sample_env sample_opts demo_files (build_project [] demo_files)"
  by code_simp

section \<open>Properties\<close>

text \<open>
  C6. A design the analysis reports no error on is one the generators can work from: its packages reference each other's types without a cycle, every instance of a
  generic type needs finitely many instances, no type has two fields of one name once its mixins
  are expanded, operation ids and event contracts are distinct, every middleware and every method
  has a file of its own.
\<close>

theorem accepted_project:
  assumes "list_all (\<lambda>f. list_all decl_wf (f_Decls f)) files"
    and "AnalyzeProject env opts files = Some (p, ds)" and "accepted ds"
  shows "acyclic {(a, b). names_package p a b}
    \<and> finite {j. (instance_step p view)\<^sup>*\<^sup>* i j}
    \<and> (case type_at p t of None \<Rightarrow> True
       | Some td \<Rightarrow> distinct (map (\<lambda>ff. fd_Name (ff_Field ff)) (fst (flattenFields (Some p) view (fst t) (td_Body td) tps args names))))
    \<and> distinct (map ow_id (operation_owners p))
    \<and> distinct (filter (\<lambda>c. c \<noteq> []) (map re_Contract (events p)))
    \<and> distinct (map (\<lambda>(name, _). middleware_file (op_FileCase opts) name) (middleware_sites p))
    \<and> distinct (map (\<lambda>(s, m). (sg_dir s, methodFile m (op_FileCase opts))) (generated p (op_FileCase opts)))"
  by (rule accepted_files [OF assms(2,3,1)])

theorem accepted_project_witness:
  "distinct (map (\<lambda>ff. fd_Name (ff_Field ff)) (fst (flattenFields (Some (build_project [] demo_files)) ''shop'' ''shop''
     [demo_mixin ''Page'', demo_field ''count''] [] [] None)))"
proof -
  have "op_BasePath sample_opts = []" by (simp add: sample_opts_def)
  then have run: "AnalyzeProject sample_env sample_opts demo_files = Some (build_project [] demo_files, [])"
    using quiet_analysis [of sample_env sample_opts demo_files] demo_silent by simp
  have "type_at (build_project [] demo_files) (''shop'', ''Items'')
      = Some (demo_type ''Items'' [demo_mixin ''Page'', demo_field ''count''])" by code_simp
  with accepted_project [OF demo_files_wf run, of "''shop''" _ "(''shop'', ''Items'')" "[]" "[]" None] show ?thesis
    by (simp add: demo_type_def)
qed

end
