(* ===== verification/Events.thy ===== *)
theory Events
  imports Token
begin

text \<open>
  The data of the event runtime and the code that wraps handlers: \<^verbatim>\<open>pkg/events/events.go\<close>,
  \<^verbatim>\<open>chain.go\<close>, \<^verbatim>\<open>batch.go\<close>, \<^verbatim>\<open>disposition.go\<close> and the handler part of
  \<^verbatim>\<open>subscribe.go\<close>.

  A Go value of type \<open>any\<close> (a payload, an option, a panic value) is opaque to the runtime and is
  a number here, as a middleware is: what a middleware does is an argument \<open>run\<close> of the functions
  that call one. A handler is a function from the delivery to its outcome, the error it returns
  or the value it panics with, and the delivery as the handler leaves it; a nil message is
  \<open>None\<close>. A Go map from strings is an association list with distinct keys, whose order means
  nothing. Contexts carry values and deadlines the runtime only passes on, and are left out.
\<close>

section \<open>Messages and errors\<close>

type_synonym any = nat
type_synonym middleware = nat
type_synonym Group = string

datatype Disposition =
    DispositionUnset
  | DispositionSettle
  | DispositionRedeliver
  | DispositionReject

fun Disposition_String :: "Disposition \<Rightarrow> string" where
  "Disposition_String DispositionSettle = ''settle''"
| "Disposition_String DispositionRedeliver = ''redeliver''"
| "Disposition_String DispositionReject = ''reject''"
| "Disposition_String DispositionUnset = ''unset''"

record Message =
  m_Event :: string
  m_Key :: string
  m_DedupID :: string
  m_Payload :: string
  m_Metadata :: "(string \<times> string) list"
  m_AdapterOptions :: "(string \<times> (string \<times> any) list) list"
  m_disposition :: Disposition
  m_deliveries :: int

definition Settle :: "Message \<Rightarrow> Message" where
  "Settle m = m\<lparr>m_disposition := DispositionSettle\<rparr>"

definition Redeliver :: "Message \<Rightarrow> Message" where
  "Redeliver m = m\<lparr>m_disposition := DispositionRedeliver\<rparr>"

definition Reject :: "Message \<Rightarrow> Message" where
  "Reject m = m\<lparr>m_disposition := DispositionReject\<rparr>"

definition SetDeliveries :: "Message \<Rightarrow> int \<Rightarrow> Message" where
  "SetDeliveries m n = m\<lparr>m_deliveries := n\<rparr>"

text \<open>
  The errors of the runtime, a constructor for each sentinel and each error type. \<open>Wrapped\<close> is a
  \<open>%w\<close> of \<open>fmt.Errorf\<close> around another error, and \<open>Foreign\<close> an error of a handler, a codec or
  a transport. An \<open>ItemErrors\<close> map is the list of its entries in index order.
\<close>

datatype err =
    ErrNoCodec string
  | ErrNoPublisher
  | ErrNoSubscriber
  | ErrStarted
  | ErrNoGroup
  | ErrNoHandler
  | ErrDuplicateSubscription
  | ErrInvalidBatch message
  | ErrBatchUnsupported
  | ErrBatchGroupShared
  | ErrDispositionUnsupported Disposition
  | ErrCodecMismatch string string string
  | ErrNoPayload
  | ErrNoContract
  | PayloadError string err
  | PanicError string string Group any
  | RegisterError string string Group err
  | UnknownOptionError string string string "string list"
  | PartialPublishError int "int list" string err
  | EnvelopeError nat string err
  | ItemErrors "(int \<times> err option) list"
  | Wrapped message err
  | Foreign any

datatype outcome = Returned "err option" | Panicked any

type_synonym Handler = "Message option \<Rightarrow> outcome \<times> Message option"
type_synonym BatchHandler = "Message option list \<Rightarrow> outcome \<times> Message option list"

record BatchSize =
  bs_Max :: int
  bs_Wait :: int

record Batch =
  b_Size :: BatchSize
  b_Chain :: "middleware option list"
  b_Handle :: "BatchHandler option"

record Subscription =
  s_Event :: string
  s_Consumer :: string
  s_Group :: Group
  s_Chain :: "middleware option list"
  s_Handle :: "Handler option"
  s_Batch :: "Batch option"

section \<open>Chains\<close>

text \<open>A chain entry is \<open>None\<close> for a nil middleware. A nil chain and an empty one are both \<open>[]\<close>.\<close>

type_synonym Chain = "middleware option list"

definition NewChain :: "middleware option list \<Rightarrow> Chain" where
  "NewChain mws = mws"

definition Append :: "Chain \<Rightarrow> middleware option list \<Rightarrow> Chain" where
  "Append c mws = (if mws = [] then c else c @ mws)"

text \<open>The loop of \<open>wrap\<close> runs from the last entry to the first.\<close>

fun wrap_loop :: "(middleware \<Rightarrow> Subscription \<Rightarrow> 'h \<Rightarrow> 'h) \<Rightarrow> Subscription \<Rightarrow> middleware option list \<Rightarrow> 'h \<Rightarrow> 'h" where
  "wrap_loop run sub [] h = h"
| "wrap_loop run sub (c # before) h =
     (case c of None \<Rightarrow> wrap_loop run sub before h | Some mw \<Rightarrow> wrap_loop run sub before (run mw sub h))"

definition wrap :: "(middleware \<Rightarrow> Subscription \<Rightarrow> 'h \<Rightarrow> 'h) \<Rightarrow> Chain \<Rightarrow> Subscription \<Rightarrow> 'h \<Rightarrow> 'h" where
  "wrap run c sub h = wrap_loop run sub (rev c) h"

definition Apply :: "(middleware \<Rightarrow> Subscription \<Rightarrow> Handler \<Rightarrow> Handler) \<Rightarrow> Chain \<Rightarrow> Subscription list \<Rightarrow> Subscription list" where
  "Apply run c subs =
     (if c = [] then subs
      else map (\<lambda>sub. case s_Handle sub of None \<Rightarrow> sub | Some h \<Rightarrow> sub\<lparr>s_Handle := Some (wrap run c sub h)\<rparr>) subs)"

section \<open>Panics\<close>

definition newPanicError :: "Subscription \<Rightarrow> any \<Rightarrow> err" where
  "newPanicError sub r = PanicError (s_Event sub) (s_Consumer sub) (s_Group sub) r"

definition recoverHandler :: "Subscription \<Rightarrow> Handler \<Rightarrow> Disposition \<Rightarrow> Handler" where
  "recoverHandler sub h escaped = (\<lambda>msg. case h msg of
      (Returned e, msg') \<Rightarrow> (Returned e, msg')
    | (Panicked r, msg') \<Rightarrow>
        (Returned (Some (newPanicError sub r)), map_option (\<lambda>m. m\<lparr>m_disposition := escaped\<rparr>) msg'))"

definition recoverBatch :: "Subscription \<Rightarrow> BatchHandler \<Rightarrow> Disposition \<Rightarrow> BatchHandler" where
  "recoverBatch sub h escaped = (\<lambda>batch. case h batch of
      (Returned e, batch') \<Rightarrow> (Returned e, batch')
    | (Panicked r, batch') \<Rightarrow>
        (Returned (Some (newPanicError sub r)),
         map (map_option (\<lambda>m. m\<lparr>m_disposition := escaped\<rparr>)) batch'))"

text \<open>\<open>Recover\<close> as a middleware: a nil handler stays nil.\<close>

definition Recover :: "Subscription \<Rightarrow> Handler option \<Rightarrow> Handler option" where
  "Recover sub next = map_option (\<lambda>h. recoverHandler sub h DispositionUnset) next"

text \<open>The handler \<open>h\<close> of \<open>decorated\<close> is the subscription's own, which \<open>Register\<close> made sure of.\<close>

definition decorated :: "(middleware \<Rightarrow> Subscription \<Rightarrow> Handler \<Rightarrow> Handler) \<Rightarrow> Chain \<Rightarrow> Subscription \<Rightarrow> Handler \<Rightarrow> Disposition \<Rightarrow> Handler" where
  "decorated run busChain sub handle escaped =
     (let h = recoverHandler sub handle DispositionUnset;
          chain = Append busChain (s_Chain sub)
      in if chain = [] then h else recoverHandler sub (wrap run chain sub h) escaped)"

definition decoratedBatch :: "(middleware \<Rightarrow> Subscription \<Rightarrow> BatchHandler \<Rightarrow> BatchHandler) \<Rightarrow> Chain \<Rightarrow> Subscription \<Rightarrow> Batch \<Rightarrow> BatchHandler \<Rightarrow> Disposition \<Rightarrow> BatchHandler" where
  "decoratedBatch run busChain sub batch handle escaped =
     (let h = recoverBatch sub handle DispositionUnset;
          chain = Append busChain (b_Chain batch)
      in if chain = [] then h else recoverBatch sub (wrap run chain sub h) escaped)"

section \<open>Item errors\<close>

definition within :: "(int \<times> err option) list \<Rightarrow> int \<Rightarrow> bool" where
  "within e n \<longleftrightarrow> list_all (\<lambda>(i, _). \<not> (i < 0 \<or> i \<ge> n)) e"

definition indices :: "(int \<times> err option) list \<Rightarrow> int list" where
  "indices e = sort (map fst e)"

definition itemErrors :: "err option list \<Rightarrow> err option" where
  "itemErrors errs =
     (let out = concat (map (\<lambda>(i, e). case e of None \<Rightarrow> [] | Some x \<Rightarrow> [(int i, Some x)]) (enumerate 0 errs))
      in if out = [] then None else Some (ItemErrors out))"

text \<open>
  \<open>failItems\<close>: the items are the indices, into the whole batch, of the messages the function was
  handed, and \<open>errs\<close> the errors of the whole batch, which an item points into. \<open>errors.As\<close> looks
  for the first \<open>ItemErrors\<close> along the errors an error wraps.
\<close>

fun as_item_errors :: "err \<Rightarrow> (int \<times> err option) list option" where
  "as_item_errors (ItemErrors e) = Some e"
| "as_item_errors (PayloadError _ e) = as_item_errors e"
| "as_item_errors (RegisterError _ _ _ e) = as_item_errors e"
| "as_item_errors (PartialPublishError _ _ _ e) = as_item_errors e"
| "as_item_errors (EnvelopeError _ _ e) = as_item_errors e"
| "as_item_errors (Wrapped _ e) = as_item_errors e"
| "as_item_errors _ = None"

definition set_if_nil :: "err option list \<Rightarrow> nat \<Rightarrow> err \<Rightarrow> err option list" where
  "set_if_nil errs i e = (if errs ! i = None then errs[i := Some e] else errs)"

definition failItems :: "nat list \<Rightarrow> err option list \<Rightarrow> err option \<Rightarrow> err option list" where
  "failItems items errs err' =
     (case err' of
        None \<Rightarrow> errs
      | Some e \<Rightarrow>
          (case as_item_errors e of
             Some failed \<Rightarrow>
               if within failed (int (length items))
               then foldl (\<lambda>es (i, itemErr). case itemErr of
                   None \<Rightarrow> es | Some x \<Rightarrow> set_if_nil es (items ! nat i) x) errs failed
               else foldl (\<lambda>es i. set_if_nil es i e) errs items
           | None \<Rightarrow> foldl (\<lambda>es i. set_if_nil es i e) errs items))"

end
