(* ===== verification/Machine.thy ===== *)
theory Machine
  imports Main
begin

text \<open>
  Two contracts of a state machine: an invariant its initial states have and its steps keep, and
  a part of its steps that cannot run forever and stops only at a goal. The state machines of
  the development interpret them; what follows for their runs is proved here once.
\<close>

locale invariant_machine =
  fixes init :: "'s \<Rightarrow> bool" and step :: "'s \<Rightarrow> 's \<Rightarrow> bool" and inv :: "'s \<Rightarrow> bool"
  assumes inv_init: "init s \<Longrightarrow> inv s"
    and inv_step: "inv s \<Longrightarrow> step s s' \<Longrightarrow> inv s'"
begin

lemma inv_steps: "step\<^sup>*\<^sup>* s s' \<Longrightarrow> inv s \<Longrightarrow> inv s'"
  by (induction rule: rtranclp_induct) (auto intro: inv_step)

lemma inv_reachable: "init s \<Longrightarrow> step\<^sup>*\<^sup>* s s' \<Longrightarrow> inv s'"
  by (rule inv_steps) (auto intro: inv_init)

end

locale draining_machine = invariant_machine +
  fixes run :: "'s \<Rightarrow> 's \<Rightarrow> bool" and goal :: "'s \<Rightarrow> bool" and weight :: "'s \<Rightarrow> nat"
  assumes run_step: "run s s' \<Longrightarrow> step s s'"
    and progress: "inv s \<Longrightarrow> \<not> goal s \<Longrightarrow> \<exists>s'. run s s'"
    and decrease: "inv s \<Longrightarrow> run s s' \<Longrightarrow> weight s' < weight s"
begin

lemma inv_run: "inv s \<Longrightarrow> run s s' \<Longrightarrow> inv s'"
  using run_step inv_step by blast

lemma inv_runs: "run\<^sup>*\<^sup>* s s' \<Longrightarrow> inv s \<Longrightarrow> inv s'"
  by (induction rule: rtranclp_induct) (auto intro: inv_run)

text \<open>A run from a state with the invariant is no longer than the state's weight.\<close>

lemma run_length: "(run ^^ n) s s' \<Longrightarrow> inv s \<Longrightarrow> n + weight s' \<le> weight s"
proof (induction n arbitrary: s')
  case (Suc n)
  then obtain t where t: "(run ^^ n) s t" "run t s'" by auto
  then have "inv t" using Suc.prems(2) inv_runs by (metis relpowp_imp_rtranclp)
  then show ?case using Suc.IH [OF t(1) Suc.prems(2)] decrease [OF _ t(2)] by simp
qed simp

text \<open>A run that cannot go on has reached the goal, and from every state some run reaches it.\<close>

lemma stuck_at_goal: "inv s \<Longrightarrow> run\<^sup>*\<^sup>* s s' \<Longrightarrow> \<nexists>t. run s' t \<Longrightarrow> goal s'"
  using inv_runs progress by blast

lemma drains: "inv s \<Longrightarrow> \<exists>s'. run\<^sup>*\<^sup>* s s' \<and> goal s'"
proof (induction "weight s" arbitrary: s rule: less_induct)
  case less
  show ?case
  proof (cases "goal s")
    case False
    then obtain t where t: "run s t" using progress less.prems by blast
    then obtain s' where "run\<^sup>*\<^sup>* t s'" "goal s'"
      using less.hyps [of t] decrease inv_run less.prems by blast
    then show ?thesis using t by (meson converse_rtranclp_into_rtranclp)
  qed blast
qed

end

end
