(* ===== verification/Memory.thy ===== *)
theory Memory
  imports Events Machine "HOL-Library.Multiset" "HOL-Library.Word" "HOL-Library.Signed_Division"
begin

text \<open>
  The in-process transport: \<^verbatim>\<open>pkg/events/memory/memory.go\<close>, as a state machine.

  A state holds the transport's own fields (\<open>Transport\<close>) and the goroutines that run in it, a
  multiset of \<open>thread\<close>s, each at the point it has reached between two accesses to shared state:
  every critical section of the source is one step, and steps of different threads interleave
  in any order. Members are objects the groups, the threads and the watchers share, so they
  live in a list and are named by their index. \<open>Publish\<close> ranges over a Go map, whose order is
  arbitrary, so the order is chosen when a round starts. A message is copied for each target;
  values need no copy here. \<open>t.mu\<close> is held for reading while a publisher picks, and the steps
  that take it for writing are enabled only while no thread does.

  Handlers are not code of the transport: a delivery step takes any error, or none, as the
  handler's answer. The fields \<open>sent\<close>, \<open>handled\<close>, \<open>reported\<close> and \<open>contexts\<close> record what
  happened and steer nothing.
\<close>

section \<open>State\<close>

datatype ctx = Background | Ctx nat

datatype timer = Armed | Fired

record batcher =
  ba_pending :: "Message list"
  ba_timer :: "timer option"
  ba_stopped :: bool

record member =
  mb_sub :: Subscription
  mb_ctx :: ctx
  mb_batch :: "batcher option"
  mb_done :: bool

record group =
  g_members :: "nat list"
  g_next :: "64 word"

type_synonym groupKey = "string \<times> Group"

record Transport =
  groups :: "groupKey \<rightharpoonup> group"
  members :: "member list"
  inflight :: int
  onError :: bool

text \<open>
  The goroutines: a \<open>Subscribe\<close> call with the subscriptions it has left; a \<open>Publish\<close> or
  \<open>PublishBatch\<close> call before its next message, picking with the keys left and the targets so far,
  delivering to the targets left, or between \<open>begin\<close> and handing over; a delivery; a batch on its
  way to the handler; deliveries whose handler has returned and that \<open>finish\<close> has still to count;
  and the watcher of a context, a \<open>stop\<close>, and the call of a timer.
\<close>

datatype thread =
    Subscribing "ctx option" "Subscription list"
  | Starting "Message list"
  | Picking Message "groupKey list" "nat list" "Message list"
  | Sending Message "nat list" "Message list"
  | Begun nat Message "nat list" "Message list"
  | Delivering nat Message
  | Batching nat "Message list"
  | Finishing nat
  | Watching nat
  | Stopping nat
  | Expiring nat

datatype delivery_ctx = Given ctx | HandedOver ctx

record sys = Transport +
  threads :: "thread multiset"
  cancelled :: "nat set"
  crashed :: bool
  sent :: "(nat \<times> Message) multiset"
  handled :: "(nat \<times> Message) multiset"
  contexts :: "(nat \<times> delivery_ctx) list"
  reported :: "(nat \<times> Message option \<times> err) list"

section \<open>Operations\<close>

definition Adapter :: string where "Adapter = ''memory''"

definition KnownOptions :: "string list" where "KnownOptions = []"

definition SubscribesBatches :: bool where "SubscribesBatches \<longleftrightarrow> True"

text \<open>\<open>WithErrorHandler\<close> is the one option; \<open>New\<close> runs the options given.\<close>

definition NewT :: "bool \<Rightarrow> sys" where
  "NewT withErrorHandler =
     \<lparr>groups = Map.empty, members = [], inflight = 0, onError = withErrorHandler,
      threads = {#}, cancelled = {}, crashed = False, sent = {#}, handled = {#},
      contexts = [], reported = []\<rparr>"

definition new_batcher :: batcher where
  "new_batcher = \<lparr>ba_pending = [], ba_timer = None, ba_stopped = False\<rparr>"

definition register :: "ctx option \<Rightarrow> Subscription \<Rightarrow> sys \<Rightarrow> sys" where
  "register given sub s =
     (let c = (case given of None \<Rightarrow> Background | Some c \<Rightarrow> c);
          key = (s_Event sub, s_Group sub);
          g = (case groups s key of None \<Rightarrow> \<lparr>g_members = [], g_next = 0\<rparr> | Some g \<Rightarrow> g);
          i = length (members s);
          m = \<lparr>mb_sub = sub, mb_ctx = c,
               mb_batch = (if s_Batch sub \<noteq> None then Some new_batcher else None), mb_done = False\<rparr>
      in s\<lparr>groups := (groups s)(key \<mapsto> g\<lparr>g_members := g_members g @ [i]\<rparr>),
           members := members s @ [m],
           threads := threads s + (if c \<noteq> Background then {#Watching i#} else {#})\<rparr>)"

text \<open>
  \<open>pick\<close>: \<open>int\<close> reads the 64-bit counter as a signed number and \<open>%\<close> truncates, so the start is
  negative once the counter has passed \<open>2 ^ 63\<close>; a negative index panics.
\<close>

datatype pick_result = Picked nat | NoMember | IndexPanic

fun pick_loop :: "member list \<Rightarrow> nat list \<Rightarrow> int \<Rightarrow> nat list \<Rightarrow> pick_result" where
  "pick_loop ms ids start [] = NoMember"
| "pick_loop ms ids start (i # is) =
     (let idx = (start + int i) smod int (length ids)
      in if idx < 0 then IndexPanic
         else if \<not> mb_done (ms ! (ids ! nat idx)) then Picked (ids ! nat idx)
         else pick_loop ms ids start is)"

definition pick :: "member list \<Rightarrow> group \<Rightarrow> pick_result \<times> group" where
  "pick ms g =
     (let n = length (g_members g)
      in if n = 0 then (NoMember, g)
         else
           let g' = g\<lparr>g_next := g_next g + 1\<rparr>;
               start = sint (g_next g' - 1) smod int n
           in (pick_loop ms (g_members g) start [0..<n], g'))"

definition deliveryContext :: "nat set \<Rightarrow> ctx \<Rightarrow> delivery_ctx" where
  "deliveryContext cancelledCtxs c =
     (case c of Background \<Rightarrow> Given c | Ctx n \<Rightarrow> if n \<notin> cancelledCtxs then Given c else HandedOver c)"

definition handOverTimeout :: int where "handOverTimeout = 30 * 10 ^ 9"

definition begin_delivery :: "sys \<Rightarrow> sys" where
  "begin_delivery s = s\<lparr>inflight := inflight s + 1\<rparr>"

definition finish :: "sys \<Rightarrow> sys" where
  "finish s = s\<lparr>inflight := inflight s - 1\<rparr>"

text \<open>\<open>Drain\<close> returns once the count is not above zero.\<close>

definition Drain_returns :: "sys \<Rightarrow> bool" where
  "Drain_returns s \<longleftrightarrow> \<not> inflight s > 0"

definition take' :: "batcher \<Rightarrow> Message list \<times> batcher" where
  "take' b = (ba_pending b, b\<lparr>ba_timer := None, ba_pending := []\<rparr>)"

definition add :: "Subscription \<Rightarrow> Message \<Rightarrow> batcher \<Rightarrow> Message list option \<times> batcher" where
  "add sub msg b =
     (let b1 = b\<lparr>ba_pending := ba_pending b @ [msg]\<rparr>
      in if ba_stopped b1 \<or> int (length (ba_pending b1)) \<ge> bs_Max (b_Size (the (s_Batch sub)))
         then (let (full, b2) = take' b1 in (Some full, b2))
         else if length (ba_pending b1) = 1 then (None, b1\<lparr>ba_timer := Some Armed\<rparr>)
         else (None, b1))"

definition stop :: "batcher \<Rightarrow> Message list \<times> batcher" where
  "stop b = take' (b\<lparr>ba_stopped := True\<rparr>)"

definition expire :: "batcher \<Rightarrow> Message list \<times> batcher" where
  "expire b = take' b"

definition set_batch :: "nat \<Rightarrow> batcher \<Rightarrow> sys \<Rightarrow> sys" where
  "set_batch i b s = s\<lparr>members := (members s)[i := (members s ! i)\<lparr>mb_batch := Some b\<rparr>]\<rparr>"

text \<open>The batch a \<open>stop\<close> or a timer took is handled by the same goroutine, where it is not empty.\<close>

definition batch_thread :: "nat \<Rightarrow> Message list \<Rightarrow> thread multiset" where
  "batch_thread i batch = (if length batch > 0 then {#Batching i batch#} else {#})"

definition finishing :: "nat \<Rightarrow> thread multiset" where
  "finishing n = (if n = 0 then {#} else {#Finishing n#})"

definition move :: "thread \<Rightarrow> thread multiset \<Rightarrow> sys \<Rightarrow> sys" where
  "move th ths s = s\<lparr>threads := threads s - {#th#} + ths\<rparr>"

text \<open>One group of a publisher's round.\<close>

definition pick_one :: "Message \<Rightarrow> groupKey \<Rightarrow> groupKey list \<Rightarrow> nat list \<Rightarrow> Message list \<Rightarrow> sys \<Rightarrow> sys" where
  "pick_one msg key ks targets rest s =
     (let th = Picking msg (key # ks) targets rest
      in if fst key \<noteq> m_Event msg then move th {#Picking msg ks targets rest#} s
         else case groups s key of
           None \<Rightarrow> move th {#Picking msg ks targets rest#} s
         | Some g \<Rightarrow>
             (case pick (members s) g of (r, g') \<Rightarrow>
                let s' = s\<lparr>groups := (groups s)(key \<mapsto> g')\<rparr>
                in case r of
                     Picked m \<Rightarrow> move th {#Picking msg ks (targets @ [m]) rest#} s'
                   | NoMember \<Rightarrow> move th {#Picking msg ks targets rest#} s'
                   | IndexPanic \<Rightarrow> s'\<lparr>crashed := True\<rparr>))"

text \<open>The delivery to one target, after \<open>begin\<close>: into the member's batch, or on a goroutine.\<close>

definition hand :: "nat \<Rightarrow> Message \<Rightarrow> nat list \<Rightarrow> Message list \<Rightarrow> sys \<Rightarrow> sys" where
  "hand i msg targets rest s =
     (let th = Begun i msg targets rest; m = members s ! i
      in case mb_batch m of
           Some b \<Rightarrow>
             (case add (mb_sub m) msg b of (full, b') \<Rightarrow>
                move th ({#Sending msg targets rest#} + (case full of None \<Rightarrow> {#} | Some ms \<Rightarrow> {#Batching i ms#}))
                  (set_batch i b' s))
         | None \<Rightarrow> move th {#Sending msg targets rest, Delivering i msg#} s)"

text \<open>A handler's error goes to the callback, where one is installed.\<close>

definition report :: "nat \<Rightarrow> Message option \<Rightarrow> err option \<Rightarrow> sys \<Rightarrow> sys" where
  "report i msg e s =
     (case e of
        None \<Rightarrow> s
      | Some x \<Rightarrow> if onError s then s\<lparr>reported := reported s @ [(i, msg, x)]\<rparr> else s)"

definition deliver :: "nat \<Rightarrow> Message \<Rightarrow> err option \<Rightarrow> sys \<Rightarrow> sys" where
  "deliver i msg e s =
     move (Delivering i msg) (finishing 1)
       (report i (Some msg) e
         (s\<lparr>contexts := contexts s @ [(i, deliveryContext (cancelled s) (mb_ctx (members s ! i)))],
            handled := handled s + {#(i, msg)#}\<rparr>))"

definition handle :: "nat \<Rightarrow> Message list \<Rightarrow> err option \<Rightarrow> sys \<Rightarrow> sys" where
  "handle i batch e s =
     move (Batching i batch) (finishing (length batch))
       (report i None e
         (s\<lparr>contexts := contexts s @ [(i, deliveryContext (cancelled s) (mb_ctx (members s ! i)))],
            handled := handled s + mset (map (Pair i) batch)\<rparr>))"

fun is_picking :: "thread \<Rightarrow> bool" where
  "is_picking (Picking _ _ _ _) = True"
| "is_picking _ = False"

definition unlocked :: "sys \<Rightarrow> bool" where
  "unlocked s \<longleftrightarrow> filter_mset is_picking (threads s) = {#}"

definition ended :: "sys \<Rightarrow> ctx \<Rightarrow> bool" where
  "ended s c \<longleftrightarrow> (case c of Background \<Rightarrow> False | Ctx n \<Rightarrow> n \<in> cancelled s)"

definition set_done :: "nat \<Rightarrow> sys \<Rightarrow> sys" where
  "set_done i s = s\<lparr>members := (members s)[i := (members s ! i)\<lparr>mb_done := True\<rparr>]\<rparr>"

section \<open>Steps\<close>

text \<open>What callers do: subscribe, publish one message or a batch, cancel a context.\<close>

inductive call :: "sys \<Rightarrow> sys \<Rightarrow> bool" where
  Subscribe: "\<not> crashed s \<Longrightarrow> call s (s\<lparr>threads := threads s + {#Subscribing c subs#}\<rparr>)"
| Publish: "\<not> crashed s \<Longrightarrow> call s (s\<lparr>threads := threads s + {#Starting [msg]#}\<rparr>)"
| PublishBatch: "\<not> crashed s \<Longrightarrow> call s (s\<lparr>threads := threads s + {#Starting msgs#}\<rparr>)"
| cancel: "\<not> crashed s \<Longrightarrow> call s (s\<lparr>cancelled := insert n (cancelled s)\<rparr>)"

text \<open>The calls at work.\<close>

inductive work :: "sys \<Rightarrow> sys \<Rightarrow> bool" where
  register: "\<not> crashed s \<Longrightarrow> Subscribing c (sub # subs) \<in># threads s \<Longrightarrow> unlocked s \<Longrightarrow>
     work s (register c sub (move (Subscribing c (sub # subs)) {#Subscribing c subs#} s))"
| subscribed: "\<not> crashed s \<Longrightarrow> Subscribing c [] \<in># threads s \<Longrightarrow> work s (move (Subscribing c []) {#} s)"
| start: "\<not> crashed s \<Longrightarrow> Starting (msg # rest) \<in># threads s \<Longrightarrow> distinct ks \<Longrightarrow> set ks = dom (groups s) \<Longrightarrow>
     work s (move (Starting (msg # rest)) {#Picking msg ks [] rest#} s)"
| published: "\<not> crashed s \<Longrightarrow> Starting [] \<in># threads s \<Longrightarrow> work s (move (Starting []) {#} s)"
| pick: "\<not> crashed s \<Longrightarrow> Picking msg (key # ks) targets rest \<in># threads s \<Longrightarrow>
     work s (pick_one msg key ks targets rest s)"
| picked: "\<not> crashed s \<Longrightarrow> Picking msg [] targets rest \<in># threads s \<Longrightarrow>
     work s (move (Picking msg [] targets rest) {#Sending msg targets rest#} s)"
| begun: "\<not> crashed s \<Longrightarrow> Sending msg (i # targets) rest \<in># threads s \<Longrightarrow>
     work s (move (Sending msg (i # targets) rest) {#Begun i msg targets rest#}
       (begin_delivery (s\<lparr>sent := sent s + {#(i, msg)#}\<rparr>)))"
| hand: "\<not> crashed s \<Longrightarrow> Begun i msg targets rest \<in># threads s \<Longrightarrow> work s (hand i msg targets rest s)"
| delivered: "\<not> crashed s \<Longrightarrow> Sending msg [] rest \<in># threads s \<Longrightarrow>
     work s (move (Sending msg [] rest) {#Starting rest#} s)"

text \<open>The deliveries, the watchers and the timers.\<close>

inductive run :: "sys \<Rightarrow> sys \<Rightarrow> bool" where
  deliver: "\<not> crashed s \<Longrightarrow> Delivering i msg \<in># threads s \<Longrightarrow> run s (deliver i msg e s)"
| handle: "\<not> crashed s \<Longrightarrow> Batching i batch \<in># threads s \<Longrightarrow> run s (handle i batch e s)"
| finish: "\<not> crashed s \<Longrightarrow> Finishing (Suc n) \<in># threads s \<Longrightarrow>
     run s (finish (move (Finishing (Suc n)) (finishing n) s))"
| watch: "\<not> crashed s \<Longrightarrow> Watching i \<in># threads s \<Longrightarrow> ended s (mb_ctx (members s ! i)) \<Longrightarrow> unlocked s \<Longrightarrow>
     run s (set_done i (move (Watching i)
       (if mb_batch (members s ! i) \<noteq> None then {#Stopping i#} else {#}) s))"
| stop: "\<not> crashed s \<Longrightarrow> Stopping i \<in># threads s \<Longrightarrow> mb_batch (members s ! i) = Some b \<Longrightarrow>
     stop b = (batch, b') \<Longrightarrow>
     run s (set_batch i b' (move (Stopping i) (batch_thread i batch) s))"
| fire: "\<not> crashed s \<Longrightarrow> i < length (members s) \<Longrightarrow> mb_batch (members s ! i) = Some b \<Longrightarrow>
     ba_timer b = Some Armed \<Longrightarrow>
     run s (set_batch i (b\<lparr>ba_timer := Some Fired\<rparr>) (s\<lparr>threads := threads s + {#Expiring i#}\<rparr>))"
| expire: "\<not> crashed s \<Longrightarrow> Expiring i \<in># threads s \<Longrightarrow> mb_batch (members s ! i) = Some b \<Longrightarrow>
     expire b = (batch, b') \<Longrightarrow>
     run s (set_batch i b' (move (Expiring i) (batch_thread i batch) s))"

inductive step :: "sys \<Rightarrow> sys \<Rightarrow> bool" where
  call: "call s s' \<Longrightarrow> step s s'"
| work: "work s s' \<Longrightarrow> step s s'"
| run: "run s s' \<Longrightarrow> step s s'"

definition initial :: "sys \<Rightarrow> bool" where
  "initial s \<longleftrightarrow> s = NewT True \<or> s = NewT False"

definition reachable :: "sys \<Rightarrow> bool" where
  "reachable s \<longleftrightarrow> (\<exists>s0. initial s0 \<and> step\<^sup>*\<^sup>* s0 s)"

end
