(* ===== verification/Memory_Inv.thy ===== *)
theory Memory_Inv
  imports Memory
begin

text \<open>
  The invariant of the in-process transport. Every message begun is handled, in the hands of a
  thread or pending in a batch, and \<open>inflight\<close> counts those not yet finished; every member a
  group or a thread names exists; and a batch that is filling has a timer that will send it on.
\<close>

section \<open>What threads and batches hold\<close>

fun in_hand :: "thread \<Rightarrow> (nat \<times> Message) multiset" where
  "in_hand (Begun i msg _ _) = {#(i, msg)#}"
| "in_hand (Delivering i msg) = {#(i, msg)#}"
| "in_hand (Batching i msgs) = mset (map (Pair i) msgs)"
| "in_hand _ = {#}"

fun unfinished :: "thread \<Rightarrow> nat" where
  "unfinished (Finishing n) = n"
| "unfinished _ = 0"

definition held :: "thread multiset \<Rightarrow> (nat \<times> Message) multiset" where
  "held ths = sum_mset (image_mset in_hand ths)"

definition to_finish :: "thread multiset \<Rightarrow> nat" where
  "to_finish ths = sum_mset (image_mset unfinished ths)"

definition pend :: "nat \<Rightarrow> member \<Rightarrow> (nat \<times> Message) multiset" where
  "pend i m = (case mb_batch m of None \<Rightarrow> {#} | Some b \<Rightarrow> mset (map (Pair i) (ba_pending b)))"

definition pending :: "member list \<Rightarrow> (nat \<times> Message) multiset" where
  "pending ms = (\<Sum>i<length ms. pend i (ms ! i))"

fun names_ok :: "nat \<Rightarrow> thread \<Rightarrow> bool" where
  "names_ok n (Picking _ _ ts _) \<longleftrightarrow> set ts \<subseteq> {..<n}"
| "names_ok n (Sending _ ts _) \<longleftrightarrow> set ts \<subseteq> {..<n}"
| "names_ok n (Begun i _ ts _) \<longleftrightarrow> i < n \<and> set ts \<subseteq> {..<n}"
| "names_ok n (Delivering i _) \<longleftrightarrow> i < n"
| "names_ok n (Batching i _) \<longleftrightarrow> i < n"
| "names_ok n (Watching i) \<longleftrightarrow> i < n"
| "names_ok n (Stopping i) \<longleftrightarrow> i < n"
| "names_ok n (Expiring i) \<longleftrightarrow> i < n"
| "names_ok n _ \<longleftrightarrow> True"

definition names_inv :: "sys \<Rightarrow> bool" where
  "names_inv s \<longleftrightarrow>
     (\<forall>th. th \<in># threads s \<longrightarrow> names_ok (length (members s)) th) \<and>
     (\<forall>k g. groups s k = Some g \<longrightarrow> set (g_members g) \<subseteq> {..<length (members s)})"

definition count_inv :: "sys \<Rightarrow> bool" where
  "count_inv s \<longleftrightarrow>
     sent s = handled s + held (threads s) + pending (members s) \<and>
     inflight s = int (size (held (threads s)) + to_finish (threads s) + size (pending (members s)))"

text \<open>A filling batch is short of its bound, has not stopped, and its timer is armed or calling.\<close>

definition batch_ok :: "thread multiset \<Rightarrow> nat \<Rightarrow> member \<Rightarrow> bool" where
  "batch_ok ths i m \<longleftrightarrow> (case mb_batch m of None \<Rightarrow> True | Some b \<Rightarrow>
     ba_pending b \<noteq> [] \<longrightarrow>
       \<not> ba_stopped b \<and>
       int (length (ba_pending b)) < bs_Max (b_Size (the (s_Batch (mb_sub m)))) \<and>
       (ba_timer b = Some Armed \<or> ba_timer b = Some Fired \<and> Expiring i \<in># ths))"

definition batch_inv :: "sys \<Rightarrow> bool" where
  "batch_inv s \<longleftrightarrow> (\<forall>i < length (members s). batch_ok (threads s) i (members s ! i))"

definition inv :: "sys \<Rightarrow> bool" where
  "inv s \<longleftrightarrow> names_inv s \<and> count_inv s \<and> batch_inv s"

section \<open>Lemmas on the parts\<close>

lemma held_simps [simp]:
  "held {#} = {#}" "held (add_mset th ths) = in_hand th + held ths"
  "held (ths + ths') = held ths + held ths'"
  by (simp_all add: held_def)

lemma to_finish_simps [simp]:
  "to_finish {#} = 0" "to_finish (add_mset th ths) = unfinished th + to_finish ths"
  "to_finish (ths + ths') = to_finish ths + to_finish ths'"
  by (simp_all add: to_finish_def)

lemma batch_thread_simps [simp]:
  "held (batch_thread i ms) = mset (map (Pair i) ms)" "to_finish (batch_thread i ms) = 0"
  by (simp_all add: batch_thread_def)

lemma finishing_simps [simp]: "held (finishing n) = {#}" "to_finish (finishing n) = n"
  by (simp_all add: finishing_def)

lemma pending_update:
  assumes "i < length ms"
  shows "pending (ms[i := m]) + pend i (ms ! i) = pending ms + pend i m"
proof -
  have fin: "finite {..<length ms}" "i \<in> {..<length ms}" using assms by auto
  have "pending (ms[i := m]) = pend i m + (\<Sum>j\<in>{..<length ms} - {i}. pend j (ms[i := m] ! j))"
    using fin assms by (simp add: pending_def sum.remove [of _ i])
  also have "(\<Sum>j\<in>{..<length ms} - {i}. pend j (ms[i := m] ! j))
      = (\<Sum>j\<in>{..<length ms} - {i}. pend j (ms ! j))"
    by (rule sum.cong) auto
  finally show ?thesis using fin by (simp add: pending_def sum.remove [of _ i])
qed

lemma pending_same:
  assumes "i < length ms" "pend i m = pend i (ms ! i)"
  shows "pending (ms[i := m]) = pending ms"
  using pending_update [OF assms(1), of m] assms(2) by simp

lemma pending_append [simp]: "pending (ms @ [m]) = pending ms + pend (length ms) m"
proof -
  have "(\<Sum>i<length ms. pend i ((ms @ [m]) ! i)) = (\<Sum>i<length ms. pend i (ms ! i))"
    by (rule sum.cong) (auto simp: nth_append)
  then show ?thesis by (simp add: pending_def)
qed

lemma pick_loop_member:
  "pick_loop ms ids start is = Picked m \<Longrightarrow> ids \<noteq> [] \<Longrightarrow> m \<in> set ids \<and> \<not> mb_done (ms ! m)"
proof (induction "is")
  case (Cons i "is")
  let ?idx = "(start + int i) smod int (length ids)"
  have "nat ?idx < length ids" if "0 \<le> ?idx"
    using that Cons.prems(2) smod_int_range [of "int (length ids)" "start + int i"] by auto
  with Cons show ?case by (auto simp: Let_def split: if_splits)
qed simp

lemma pick_member:
  "pick ms g = (Picked m, g') \<Longrightarrow> m \<in> set (g_members g) \<and> \<not> mb_done (ms ! m)"
  by (auto simp: pick_def Let_def split: if_splits dest: pick_loop_member)

lemma pick_members: "pick ms g = (r, g') \<Longrightarrow> g_members g' = g_members g"
  by (auto simp: pick_def Let_def split: if_splits)

section \<open>Names\<close>

lemma names_ok_mono: "names_ok n th \<Longrightarrow> n \<le> n' \<Longrightarrow> names_ok n' th"
  by (cases th) auto

lemmas sys_defs = move_def set_batch_def set_done_def begin_delivery_def finish_def report_def
  deliver_def handle_def

lemma names_invI:
  assumes "names_inv s" "length (members s) \<le> length (members s')"
    and "\<And>th. th \<in># threads s' \<Longrightarrow> th \<in># threads s \<or> names_ok (length (members s')) th"
    and "\<And>k g. groups s' k = Some g \<Longrightarrow> (\<exists>k g'. groups s k = Some g' \<and> g_members g' = g_members g)
      \<or> set (g_members g) \<subseteq> {..<length (members s')}"
  shows "names_inv s'"
proof -
  have "names_ok (length (members s')) th" if "th \<in># threads s'" for th
    using that assms(1,3) names_ok_mono [OF _ assms(2)] unfolding names_inv_def by blast
  moreover have "set (g_members g) \<subseteq> {..<length (members s')}" if "groups s' k = Some g" for k g
    using assms(4) [OF that] assms(1,2) unfolding names_inv_def by fastforce
  ultimately show ?thesis unfolding names_inv_def by blast
qed

lemma names_inv_same:
  assumes "names_inv s" "groups s' = groups s" "length (members s') = length (members s)"
    and "\<And>th. th \<in># threads s' \<Longrightarrow> th \<in># threads s \<or> names_ok (length (members s)) th"
  shows "names_inv s'"
  using assms unfolding names_inv_def by auto

lemma names_group:
  "names_inv s \<Longrightarrow> groups s k = Some g \<Longrightarrow> i \<in> set (g_members g) \<Longrightarrow> i < length (members s)"
  unfolding names_inv_def by blast

lemma in_move: "th \<in># threads (move t ths s) \<Longrightarrow> th \<in># threads s \<or> th \<in># ths"
  by (auto simp: move_def dest: in_diffD)

lemma names_register:
  assumes "names_inv s"
  shows "names_inv (register c sub s)"
proof (rule names_invI [OF assms], goal_cases)
  case 1
  show ?case by (simp add: register_def Let_def)
next
  case (2 th)
  then show ?case by (auto simp: register_def Let_def split: if_splits)
next
  case (3 k g)
  then show ?case
    by (fastforce simp: register_def Let_def less_Suc_eq split: if_splits option.splits
        dest: names_group [OF assms])
qed

lemma names_member: "names_inv s \<Longrightarrow> th \<in># threads s \<Longrightarrow> names_ok (length (members s)) th"
  by (simp add: names_inv_def)

lemma names_move:
  assumes "names_inv s" "\<And>th. th \<in># ths \<Longrightarrow> names_ok (length (members s)) th"
  shows "names_inv (move t ths s)"
  by (rule names_inv_same [OF assms(1)]) (use assms(2) in \<open>auto simp: move_def dest: in_diffD\<close>)

lemma names_pick_one:
  assumes "names_inv s" "Picking msg (key # ks) ts rest \<in># threads s"
  shows "names_inv (pick_one msg key ks ts rest s)"
proof (rule names_invI [OF assms(1)], goal_cases)
  case 1
  show ?case by (simp add: pick_one_def Let_def move_def split: option.split prod.split pick_result.split)
next
  case (2 th)
  have ts: "set ts \<subseteq> {..<length (members s)}" using names_member [OF assms] by simp
  have m: "m < length (members s)" if "groups s key = Some g" "pick (members s) g = (Picked m, g')" for m g g'
    using pick_member [OF that(2)] names_group [OF assms(1) that(1)] by blast
  show ?case using 2 ts m
    by (auto simp: pick_one_def Let_def move_def dest: in_diffD
      split: if_splits option.splits prod.splits pick_result.splits)
next
  case (3 k g)
  then show ?case
    by (fastforce simp: pick_one_def Let_def move_def dest: pick_members
      split: if_splits option.splits prod.splits pick_result.splits)
qed

lemma names_hand:
  assumes "names_inv s" "Begun i msg ts rest \<in># threads s"
  shows "names_inv (hand i msg ts rest s)"
  by (rule names_inv_same [OF assms(1)])
    (use names_member [OF assms] in \<open>auto simp: hand_def Let_def sys_defs dest: in_diffD
      split: option.splits prod.splits\<close>)

lemma names_work: "names_inv s \<Longrightarrow> work s s' \<Longrightarrow> names_inv s'"
proof (erule work.cases, goal_cases)
  case (7 s msg i ts rest)
  then have "names_inv (move (Sending msg (i # ts) rest) {#Begun i msg ts rest#} s)"
    using names_member [of s "Sending msg (i # ts) rest"] by (auto intro!: names_move)
  then show ?case using 7 by (simp add: names_inv_def sys_defs)
qed (auto intro!: names_register names_move names_pick_one names_hand dest: names_member)

lemma names_others [simp]:
  "names_inv (set_batch i b s) = names_inv s" "names_inv (set_done i s) = names_inv s"
  "names_inv (finish s) = names_inv s" "names_inv (report i m e s) = names_inv s"
  "names_inv (s\<lparr>contexts := cs, handled := h\<rparr>) = names_inv s"
  "names_inv (s\<lparr>contexts := cs\<rparr>) = names_inv s"
  by (simp_all add: names_inv_def sys_defs split: option.split)

lemma members_others [simp]:
  "length (members (set_batch i b s)) = length (members s)"
  "length (members (report i m e s)) = length (members s)"
  by (simp_all add: sys_defs split: option.split)

lemma names_run: "names_inv s \<Longrightarrow> run s s' \<Longrightarrow> names_inv s'"
proof (erule run.cases, goal_cases)
  case (6 t i b)
  then show ?case by (auto intro!: names_inv_same [of s] simp: set_batch_def)
qed (auto intro!: names_move simp: deliver_def handle_def batch_thread_def finishing_def
  dest: names_member split: if_splits)

lemma names_call: "names_inv s \<Longrightarrow> call s s' \<Longrightarrow> names_inv s'"
  by (erule call.cases) (auto intro!: names_inv_same [of s])

section \<open>Counts\<close>

lemma count_invI:
  assumes "count_inv s"
    and "sent s' + handled s + held (threads s) + pending (members s)
      = sent s + handled s' + held (threads s') + pending (members s')"
    and "inflight s' - inflight s =
      int (size (held (threads s')) + to_finish (threads s') + size (pending (members s')))
      - int (size (held (threads s)) + to_finish (threads s) + size (pending (members s)))"
  shows "count_inv s'"
proof -
  from assms(1,2) have "sent s' = handled s' + held (threads s') + pending (members s')"
    unfolding count_inv_def by (auto simp: ac_simps)
  with assms(1,3) show ?thesis unfolding count_inv_def by simp
qed

text \<open>The parts of the state the count does not read.\<close>

lemma report_fields [simp]:
  "threads (report i m e s) = threads s" "members (report i m e s) = members s"
  "groups (report i m e s) = groups s" "inflight (report i m e s) = inflight s"
  "sent (report i m e s) = sent s" "handled (report i m e s) = handled s"
  "crashed (report i m e s) = crashed s"
  by (simp_all add: report_def split: option.split)

text \<open>A step that moves one thread on: the rest of the threads stays.\<close>

lemma threads_split: "th \<in># threads s \<Longrightarrow> (\<And>M. threads s = add_mset th M \<Longrightarrow> P) \<Longrightarrow> P"
  by (metis multi_member_split)

lemma add_spec:
  "add sub msg b = (Some ms, b') \<Longrightarrow> ms = ba_pending b @ [msg] \<and> ba_pending b' = []"
  "add sub msg b = (None, b') \<Longrightarrow> ba_pending b' = ba_pending b @ [msg]"
  by (auto simp: add_def Let_def take'_def split: if_splits)

lemma pending_set_batch:
  assumes "i < length (members s)" "mb_batch (members s ! i) = Some b"
  shows "pending (members (set_batch i b' s)) + mset (map (Pair i) (ba_pending b))
    = pending (members s) + mset (map (Pair i) (ba_pending b'))"
  using pending_update [OF assms(1), of "(members s ! i)\<lparr>mb_batch := Some b'\<rparr>"] assms(2)
  by (simp add: set_batch_def pend_def)

lemma count_hand:
  assumes inv: "count_inv s" and th: "Begun i msg ts rest \<in># threads s" and i: "i < length (members s)"
  shows "count_inv (hand i msg ts rest s)"
proof -
  obtain M where M: "threads s = add_mset (Begun i msg ts rest) M" using th threads_split by blast
  show ?thesis
  proof (cases "mb_batch (members s ! i)")
    case None
    then show ?thesis using inv M by (auto simp: count_inv_def hand_def move_def)
  next
    case (Some b)
    obtain full b' where a: "add (mb_sub (members s ! i)) msg b = (full, b')" by fastforce
    note pend = pending_set_batch [OF i Some, of b']
    have size: "size (pending (members (set_batch i b' s))) + length (ba_pending b)
        = size (pending (members s)) + length (ba_pending b')"
      using arg_cong [OF pend, of size] by simp
    show ?thesis
    proof (cases full)
      case None
      with a have "ba_pending b' = ba_pending b @ [msg]" using add_spec(2) by simp
      then show ?thesis using Some a None M pend size
        by (auto intro!: count_invI [OF inv] simp: hand_def move_def set_batch_def)
    next
      case (Some ms)
      with a have "ms = ba_pending b @ [msg]" "ba_pending b' = []" using add_spec(1) by simp_all
      then show ?thesis using \<open>mb_batch _ = Some b\<close> a Some M pend size
        by (auto intro!: count_invI [OF inv] simp: hand_def move_def set_batch_def ac_simps)
    qed
  qed
qed

lemma count_move:
  assumes "count_inv s" "th \<in># threads s" "held ths = in_hand th" "to_finish ths = unfinished th"
  shows "count_inv (move th ths s)"
  using assms by (auto simp: count_inv_def move_def elim!: threads_split)

lemma count_register: "count_inv s \<Longrightarrow> count_inv (register c sub s)"
  by (auto simp: count_inv_def register_def Let_def pend_def new_batcher_def)

lemma count_pick_one:
  assumes "count_inv s" "Picking msg (key # ks) ts rest \<in># threads s"
  shows "count_inv (pick_one msg key ks ts rest s)"
  using assms
  by (auto simp: count_inv_def pick_one_def Let_def move_def elim!: threads_split
      split: option.split prod.split pick_result.split)

lemma count_work: "names_inv s \<Longrightarrow> count_inv s \<Longrightarrow> work s s' \<Longrightarrow> count_inv s'"
proof (erule work.cases, goal_cases)
  case (7 t msg i ts rest)
  then show ?case by (auto simp: count_inv_def sys_defs elim!: threads_split)
next
  case (8 t i msg ts rest)
  then show ?case using names_member [of s "Begun i msg ts rest"] by (auto intro!: count_hand)
qed (auto intro!: count_register count_move count_pick_one)

lemma count_take:
  assumes "count_inv s" "th \<in># threads s" "in_hand th = {#}" "unfinished th = 0"
    "i < length (members s)" "mb_batch (members s ! i) = Some b" "ba_pending b' = []"
  shows "count_inv (set_batch i b' (move th (batch_thread i (ba_pending b)) s))"
proof -
  obtain M where M: "threads s = add_mset th M" using assms(2) threads_split by blast
  note pend = pending_set_batch [OF assms(5,6), of b']
  have "size (pending (members (set_batch i b' s))) + length (ba_pending b)
      = size (pending (members s)) + length (ba_pending b')"
    using arg_cong [OF pend, of size] by simp
  then show ?thesis using M pend assms
    by (auto intro!: count_invI [OF assms(1)] simp: move_def set_batch_def ac_simps)
qed

lemma take'_fields: "take' b = (batch, b') \<Longrightarrow> batch = ba_pending b \<and> ba_pending b' = []"
  by (auto simp: take'_def)

lemma count_run: "names_inv s \<Longrightarrow> count_inv s \<Longrightarrow> run s s' \<Longrightarrow> count_inv s'"
proof (erule run.cases, goal_cases)
  case (4 t i)
  then have "pending ((members s)[i := (members s ! i)\<lparr>mb_done := True\<rparr>]) = pending (members s)"
    using names_member [of s "Watching i"] by (intro pending_same) (auto simp: pend_def)
  with 4 show ?case by (auto simp: count_inv_def sys_defs elim!: threads_split)
next
  case (5 t i b batch b')
  then show ?case using names_member [of s "Stopping i"] count_take [of s "Stopping i" i b b']
    by (auto simp: stop_def dest!: take'_fields)
next
  case (6 t i b)
  then have "pending ((members s)[i := (members s ! i)\<lparr>mb_batch := Some (b\<lparr>ba_timer := Some Fired\<rparr>)\<rparr>])
      = pending (members s)"
    by (intro pending_same) (auto simp: pend_def)
  with 6 show ?case by (auto simp: count_inv_def sys_defs)
next
  case (7 t i b batch b')
  then show ?case using names_member [of s "Expiring i"] count_take [of s "Expiring i" i b b']
    by (auto simp: expire_def dest!: take'_fields)
qed (auto simp: count_inv_def deliver_def handle_def finish_def move_def elim!: threads_split)

lemma count_call: "count_inv s \<Longrightarrow> call s s' \<Longrightarrow> count_inv s'"
  by (erule call.cases) (auto simp: count_inv_def)

section \<open>Batches\<close>

lemma batch_ok_threads:
  "batch_ok ths i m \<Longrightarrow> (Expiring i \<in># ths \<Longrightarrow> Expiring i \<in># ths') \<Longrightarrow> batch_ok ths' i m"
  by (auto simp: batch_ok_def split: option.splits)

lemma batch_ok_empty: "mb_batch m = Some b \<Longrightarrow> ba_pending b = [] \<Longrightarrow> batch_ok ths i m"
  by (simp add: batch_ok_def)

lemma batch_inv_same:
  assumes "batch_inv s" "members s' = members s"
    and "\<And>i. Expiring i \<in># threads s \<Longrightarrow> Expiring i \<in># threads s'"
  shows "batch_inv s'"
  using assms batch_ok_threads unfolding batch_inv_def by metis

lemma in_diff_other [simp]: "x \<noteq> y \<Longrightarrow> x \<in># M - {#y#} \<longleftrightarrow> x \<in># M"
  by (simp add: in_diff_count)

lemma Expiring_move:
  "Expiring i \<in># threads s \<Longrightarrow> th \<noteq> Expiring i \<Longrightarrow> Expiring i \<in># threads (move th ths s)"
  by (simp add: move_def)

lemma batch_move: "batch_inv s \<Longrightarrow> (\<And>i. th \<noteq> Expiring i) \<Longrightarrow> batch_inv (move th ths s)"
  by (rule batch_inv_same, assumption, simp add: move_def) (metis Expiring_move)

text \<open>One batcher changes; a thread may stop expiring it at the same time.\<close>

lemma batch_set:
  assumes "batch_inv s" "members s' = (members s)[i := m]" "i < length (members s)"
    and "\<And>j. j \<noteq> i \<Longrightarrow> Expiring j \<in># threads s \<Longrightarrow> Expiring j \<in># threads s'"
    and "batch_ok (threads s') i m"
  shows "batch_inv s'"
  unfolding batch_inv_def
proof (intro allI impI)
  fix j assume j: "j < length (members s')"
  show "batch_ok (threads s') j (members s' ! j)"
  proof (cases "j = i")
    case False
    then have "batch_ok (threads s) j (members s ! j)" "members s' ! j = members s ! j"
      using assms(1,2) j unfolding batch_inv_def by simp_all
    then show ?thesis using batch_ok_threads assms(4) False by metis
  qed (use assms(2,3,5) in simp)
qed

lemma batch_add:
  assumes "batch_ok ths i m" "mb_batch m = Some b" "add (mb_sub m) msg b = (full, b')"
  shows "batch_ok ths i (m\<lparr>mb_batch := Some b'\<rparr>)"
proof (cases "ba_stopped b \<or> int (length (ba_pending b)) + 1 \<ge> bs_Max (b_Size (the (s_Batch (mb_sub m))))")
  case True
  then have "ba_pending b' = []" using assms(3) by (auto simp: add_def Let_def take'_def)
  then show ?thesis by (simp add: batch_ok_def)
next
  case False
  then have b': "b' = b\<lparr>ba_pending := ba_pending b @ [msg],
      ba_timer := (if ba_pending b = [] then Some Armed else ba_timer b)\<rparr>"
    using assms(3) by (auto simp: add_def Let_def add.commute split: if_splits)
  then show ?thesis using assms(1,2) False by (auto simp: batch_ok_def add.commute)
qed

lemma batch_hand:
  assumes "batch_inv s" "i < length (members s)"
  shows "batch_inv (hand i msg ts rest s)"
proof (cases "mb_batch (members s ! i)")
  case None
  then show ?thesis using batch_move [OF assms(1)] by (simp add: hand_def)
next
  case (Some b)
  obtain full b' where a: "add (mb_sub (members s ! i)) msg b = (full, b')" by fastforce
  let ?m = "(members s ! i)\<lparr>mb_batch := Some b'\<rparr>"
  have ok: "batch_ok (threads s) i ?m"
    using batch_add [OF _ Some a] assms unfolding batch_inv_def by blast
  let ?s = "hand i msg ts rest s"
  have mem: "members ?s = (members s)[i := ?m]"
    using Some a by (simp add: hand_def move_def set_batch_def)
  have ths: "Expiring j \<in># threads ?s" if "Expiring j \<in># threads s" for j
    using that Some a by (simp add: hand_def move_def set_batch_def)
  show ?thesis using batch_set [OF assms(1) mem assms(2)] ths batch_ok_threads [OF ok] by blast
qed

lemma batch_register: "batch_inv s \<Longrightarrow> batch_inv (register c sub s)"
  by (auto simp: batch_inv_def register_def Let_def nth_append new_batcher_def less_Suc_eq
      batch_ok_def [of _ "length _"] intro: batch_ok_threads)

lemma batch_pick_one: "batch_inv s \<Longrightarrow> batch_inv (pick_one msg key ks ts rest s)"
  by (rule batch_inv_same [of s])
    (simp_all add: pick_one_def Let_def move_def split: option.split prod.split pick_result.split)

lemma batch_work: "names_inv s \<Longrightarrow> batch_inv s \<Longrightarrow> work s s' \<Longrightarrow> batch_inv s'"
proof (erule work.cases, goal_cases)
  case (7 t msg i ts rest)
  then have "batch_inv (move (Sending msg (i # ts) rest) {#Begun i msg ts rest#} s)"
    by (auto intro: batch_move)
  then show ?case using 7 by (simp add: batch_inv_def sys_defs)
next
  case (8 t i msg ts rest)
  then show ?case using names_member [of s "Begun i msg ts rest"] by (auto intro!: batch_hand)
qed (auto intro!: batch_register batch_move batch_pick_one)

lemma batch_take:
  assumes "batch_inv s" "i < length (members s)" "ba_pending b' = []"
    and "\<And>j. j \<noteq> i \<Longrightarrow> th \<noteq> Expiring j"
  shows "batch_inv (set_batch i b' (move th ths s))"
proof (rule batch_set [OF assms(1) _ assms(2)])
  fix j assume "j \<noteq> i" "Expiring j \<in># threads s"
  then show "Expiring j \<in># threads (set_batch i b' (move th ths s))"
    using Expiring_move [of j s th ths] assms(4) by (simp add: set_batch_def)
qed (use assms(3) in \<open>auto simp: sys_defs batch_ok_def\<close>)

lemma batch_run: "names_inv s \<Longrightarrow> batch_inv s \<Longrightarrow> run s s' \<Longrightarrow> batch_inv s'"
proof (erule run.cases, goal_cases)
  case (4 t i)
  then have i: "i < length (members s)" using names_member [of s "Watching i"] by simp
  then have "batch_ok (threads s) i (members s ! i)" using 4 by (simp add: batch_inv_def)
  moreover have keep: "Expiring j \<in># threads s'" if "Expiring j \<in># threads s" for j
    using that 4 by (simp add: sys_defs)
  ultimately have "batch_ok (threads s') i (members s ! i)" using batch_ok_threads by blast
  then have "batch_ok (threads s') i ((members s ! i)\<lparr>mb_done := True\<rparr>)"
    by (auto simp: batch_ok_def split: option.splits)
  moreover have "members s' = (members s)[i := (members s ! i)\<lparr>mb_done := True\<rparr>]"
    using 4 by (simp add: sys_defs)
  ultimately show ?case using 4 i keep batch_set by blast
next
  case (5 t i b batch b')
  then show ?case using names_member [of s "Stopping i"] batch_take [of s i b' "Stopping i"]
    by (auto simp: stop_def dest!: take'_fields)
next
  case (6 t i b)
  then have "batch_ok (threads s) i (members s ! i)" by (simp add: batch_inv_def)
  then have "batch_ok (threads s') i ((members s ! i)\<lparr>mb_batch := Some (b\<lparr>ba_timer := Some Fired\<rparr>)\<rparr>)"
    using 6 by (simp add: batch_ok_def sys_defs)
  moreover have "members s'
      = (members s)[i := (members s ! i)\<lparr>mb_batch := Some (b\<lparr>ba_timer := Some Fired\<rparr>)\<rparr>]"
    "\<And>j. Expiring j \<in># threads s \<Longrightarrow> Expiring j \<in># threads s'"
    using 6 by (simp_all add: sys_defs)
  ultimately show ?case using 6 batch_set by blast
next
  case (7 t i b batch b')
  then show ?case using names_member [of s "Expiring i"] batch_take [of s i b' "Expiring i"]
    by (auto simp: expire_def dest!: take'_fields)
qed (auto intro!: batch_inv_same [of s] simp: deliver_def handle_def finish_def move_def)

lemma batch_call: "batch_inv s \<Longrightarrow> call s s' \<Longrightarrow> batch_inv s'"
  by (erule call.cases) (auto intro!: batch_inv_same [of s])

section \<open>The invariant\<close>

lemma sys_inv_init: "initial s \<Longrightarrow> inv s"
  by (auto simp: initial_def inv_def names_inv_def count_inv_def batch_inv_def NewT_def pending_def)

lemma sys_inv_step: "inv s \<Longrightarrow> step s s' \<Longrightarrow> inv s'"
  unfolding inv_def
  by (erule step.cases)
    (auto intro: names_call names_work names_run count_call count_work count_run
      batch_call batch_work batch_run)

interpretation transport: invariant_machine initial step inv
  by unfold_locales (rule sys_inv_init sys_inv_step; assumption)+

lemma reachable_inv: "reachable s \<Longrightarrow> inv s"
  unfolding reachable_def using transport.inv_reachable by blast

end
