(* ===== verification/Memory_Spec.thy ===== *)
theory Memory_Spec
  imports Memory_Inv
begin

text \<open>
  What the in-process transport promises: \<open>Drain\<close> returns only once every message handed to a
  member has been handled, and does return once the publishers have; a batch never exceeds its
  bound; and a group's members take turns.
\<close>

section \<open>Draining\<close>

fun thread_weight :: "thread \<Rightarrow> nat" where
  "thread_weight (Delivering _ _) = 2"
| "thread_weight (Batching _ ms) = 2 * length ms + 1"
| "thread_weight (Finishing n) = n"
| "thread_weight (Watching _) = 4"
| "thread_weight (Stopping _) = 3"
| "thread_weight (Expiring _) = 2"
| "thread_weight _ = 0"

definition member_weight :: "member \<Rightarrow> nat" where
  "member_weight m = (case mb_batch m of None \<Rightarrow> 0 | Some b \<Rightarrow>
     2 * length (ba_pending b) + (if ba_timer b = Some Armed then 3 else 0))"

definition weight :: "sys \<Rightarrow> nat" where
  "weight s = sum_mset (image_mset thread_weight (threads s)) + sum_list (map member_weight (members s))"

text \<open>No call to \<open>Publish\<close> is between counting a delivery and handing it over.\<close>

definition quiet :: "sys \<Rightarrow> bool" where
  "quiet s \<longleftrightarrow> \<not> crashed s \<and> (\<forall>i msg ts rest. Begun i msg ts rest \<notin># threads s)"

lemma weight_members:
  assumes "i < length ms"
  shows "sum_list (map member_weight (ms[i := m])) + member_weight (ms ! i)
    = sum_list (map member_weight ms) + member_weight m"
proof -
  define xs ys where xy: "xs = take i ms" "ys = drop (Suc i) ms"
  have "ms = xs @ ms ! i # ys" unfolding xy using assms by (rule id_take_nth_drop)
  then have "sum_list (map member_weight ms)
      = sum_list (map member_weight (xs @ ms ! i # ys))" by simp
  moreover have "ms[i := m] = xs @ m # ys" unfolding xy using assms by (rule upd_conv_take_nth_drop)
  ultimately show ?thesis by simp
qed

lemma weight_finishing [simp]: "sum_mset (image_mset thread_weight (finishing n)) = n"
  by (simp add: finishing_def)

lemma weight_take:
  assumes "i < length (members s)" "mb_batch (members s ! i) = Some b" "take' b1 = (batch, b')"
    "ba_pending b1 = ba_pending b" "th \<in># threads s" "2 \<le> thread_weight th"
  shows "weight (set_batch i b' (move th (batch_thread i batch) s)) < weight s"
proof -
  obtain M where M: "threads s = add_mset th M" using assms(5) threads_split by blast
  have "member_weight ((members s ! i)\<lparr>mb_batch := Some b'\<rparr>) = 0"
    "2 * length batch \<le> member_weight (members s ! i)"
    using assms(2,3,4) by (auto simp: take'_def member_weight_def)
  then show ?thesis
    using M assms(6) weight_members [OF assms(1), of "(members s ! i)\<lparr>mb_batch := Some b'\<rparr>"]
    by (auto simp: weight_def sys_defs batch_thread_def)
qed

lemma run_decreases: "inv s \<Longrightarrow> run s s' \<Longrightarrow> weight s' < weight s"
proof (erule run.cases, goal_cases)
  case (4 t i)
  then have "i < length (members s)" using names_member [of s "Watching i"] by (simp add: inv_def)
  then have "sum_list (map member_weight ((members s)[i := (members s ! i)\<lparr>mb_done := True\<rparr>]))
      = sum_list (map member_weight (members s))"
    using weight_members [of i "members s" "(members s ! i)\<lparr>mb_done := True\<rparr>"] by (simp add: member_weight_def)
  with 4 show ?case by (auto simp: weight_def sys_defs elim!: threads_split)
next
  case (5 t i b batch b')
  then have "i < length (members s)" using names_member [of s "Stopping i"] by (simp add: inv_def)
  then show ?case using 5 weight_take [of i s b "b\<lparr>ba_stopped := True\<rparr>"] by (simp add: stop_def)
next
  case (6 t i b)
  have "member_weight ((members s ! i)\<lparr>mb_batch := Some (b\<lparr>ba_timer := Some Fired\<rparr>)\<rparr>) + 3
      = member_weight (members s ! i)"
    using 6 by (simp add: member_weight_def)
  then show ?case using 6
      weight_members [of i "members s" "(members s ! i)\<lparr>mb_batch := Some (b\<lparr>ba_timer := Some Fired\<rparr>)\<rparr>"]
    by (simp add: weight_def sys_defs)
next
  case (7 t i b batch b')
  then have "i < length (members s)" using names_member [of s "Expiring i"] by (simp add: inv_def)
  then show ?case using 7 weight_take [of i s b b] by (simp add: expire_def)
qed (auto simp: weight_def deliver_def handle_def finish_def move_def elim!: threads_split)

lemma run_quiet: "quiet s \<Longrightarrow> run s s' \<Longrightarrow> quiet s'"
  by (erule run.cases)
    (auto simp: quiet_def sys_defs batch_thread_def finishing_def split: if_splits option.splits
      dest: in_diffD)

lemma held_not_empty:
  assumes "held ths \<noteq> {#}" shows "\<exists>th \<in># ths. in_hand th \<noteq> {#}"
  using assms by (auto simp: held_def)

lemma pending_not_empty:
  assumes "pending ms \<noteq> {#}"
  shows "\<exists>i b. i < length ms \<and> mb_batch (ms ! i) = Some b \<and> ba_pending b \<noteq> []"
proof -
  have "\<exists>i \<in> {..<length ms}. pend i (ms ! i) \<noteq> {#}"
    using assms unfolding pending_def by (metis sum.neutral)
  then show ?thesis by (auto simp: pend_def split: option.splits)
qed

lemma run_progress:
  assumes "inv s" "quiet s" "\<not> Drain_returns s"
  shows "\<exists>s'. run s s'"
proof -
  have nc: "\<not> crashed s" using assms(2) by (simp add: quiet_def)
  have "held (threads s) \<noteq> {#} \<or> to_finish (threads s) \<noteq> 0 \<or> pending (members s) \<noteq> {#}"
    using assms(1,3) by (auto simp: inv_def count_inv_def Drain_returns_def)
  then consider (held) th where "th \<in># threads s" "in_hand th \<noteq> {#}"
    | (finish) th where "th \<in># threads s" "unfinished th \<noteq> 0"
    | (pending) i b where "i < length (members s)" "mb_batch (members s ! i) = Some b" "ba_pending b \<noteq> []"
  proof (elim disjE)
    assume "held (threads s) \<noteq> {#}"
    then show thesis using held_not_empty that(1) by blast
  next
    assume "to_finish (threads s) \<noteq> 0"
    then show thesis using that(2) by (auto simp: to_finish_def)
  next
    assume "pending (members s) \<noteq> {#}"
    then show thesis using pending_not_empty that(3) by blast
  qed
  then show ?thesis
  proof cases
    case held
    then show ?thesis using assms(2) nc
      by (cases th) (auto simp: quiet_def intro: run.deliver run.handle)
  next
    case finish
    then obtain n where "Finishing (Suc n) \<in># threads s"
      by (cases th) (auto simp: gr0_conv_Suc)
    then show ?thesis using nc run.finish by blast
  next
    case (pending i b)
    then have "ba_timer b = Some Armed \<or> Expiring i \<in># threads s"
      using assms(1) by (auto simp: inv_def batch_inv_def batch_ok_def split: option.splits)
    then show ?thesis
    proof
      assume "ba_timer b = Some Armed"
      then show ?thesis using run.fire [OF nc pending(1,2)] by blast
    next
      assume "Expiring i \<in># threads s"
      then show ?thesis using run.expire [OF nc _ pending(2)] by (metis surj_pair)
    qed
  qed
qed

interpretation drain: draining_machine
  "\<lambda>s. reachable s \<and> quiet s" run "\<lambda>s. inv s \<and> quiet s" run Drain_returns weight
proof (unfold_locales, goal_cases)
  case (1 s)
  then show ?case using reachable_inv by blast
next
  case (2 s s')
  then show ?case using sys_inv_step step.run run_quiet by blast
next
  case (4 s)
  then show ?case using run_progress by blast
next
  case (5 s s')
  then show ?case using run_decreases by blast
qed

section \<open>Batch sizes\<close>

definition batch_bound :: "member \<Rightarrow> int" where
  "batch_bound m = max 1 (bs_Max (b_Size (the (s_Batch (mb_sub m)))))"

definition size_inv :: "sys \<Rightarrow> bool" where
  "size_inv s \<longleftrightarrow> (\<forall>i ms. Batching i ms \<in># threads s \<longrightarrow>
     ms \<noteq> [] \<and> int (length ms) \<le> batch_bound (members s ! i))"

text \<open>Steps keep what a member subscribed to.\<close>

lemma batch_bound_update [simp]:
  "batch_bound (m\<lparr>mb_batch := b\<rparr>) = batch_bound m" "batch_bound (m\<lparr>mb_done := d\<rparr>) = batch_bound m"
  by (simp_all add: batch_bound_def)

lemma nth_update_fun: "xs[i := f (xs ! i)] ! j = (if i = j \<and> j < length xs then f (xs ! j) else xs ! j)"
  by (cases "i < length xs") (auto simp: nth_list_update not_less list_update_beyond)

lemma bound_list_update [simp]:
  "batch_bound (ms[i := (ms ! i)\<lparr>mb_batch := b\<rparr>] ! j) = batch_bound (ms ! j)"
  "batch_bound (ms[i := (ms ! i)\<lparr>mb_done := d\<rparr>] ! j) = batch_bound (ms ! j)"
  using nth_update_fun [of ms i "\<lambda>m. m\<lparr>mb_batch := b\<rparr>" j] nth_update_fun [of ms i "\<lambda>m. m\<lparr>mb_done := d\<rparr>" j]
  by (simp_all only: batch_bound_update split: if_split) auto

lemma size_inv_same:
  assumes "size_inv s" "\<And>j. batch_bound (members s' ! j) = batch_bound (members s ! j)"
    and "\<And>i ms. Batching i ms \<in># threads s' \<Longrightarrow>
      Batching i ms \<in># threads s \<or> ms \<noteq> [] \<and> int (length ms) \<le> batch_bound (members s ! i)"
  shows "size_inv s'"
  unfolding size_inv_def
proof (intro allI impI)
  fix i ms assume "Batching i ms \<in># threads s'"
  from assms(3) [OF this] show "ms \<noteq> [] \<and> int (length ms) \<le> batch_bound (members s' ! i)"
    using assms(1) unfolding assms(2) size_inv_def by blast
qed

lemma size_move:
  "size_inv s \<Longrightarrow> (\<And>i ms. Batching i ms \<in># ths \<Longrightarrow> ms \<noteq> [] \<and> int (length ms) \<le> batch_bound (members s ! i))
     \<Longrightarrow> size_inv (move th ths s)"
  by (rule size_inv_same [of s]) (auto simp: move_def dest: in_diffD)

lemma add_bound:
  assumes "batch_ok ths i m" "mb_batch m = Some b" "add (mb_sub m) msg b = (Some ms, b')"
  shows "ms \<noteq> [] \<and> int (length ms) \<le> batch_bound m"
  using assms add_spec(1) [OF assms(3)]
  by (cases "ba_pending b = []") (auto simp: batch_ok_def batch_bound_def)

lemma size_hand:
  assumes "inv s" "size_inv s" "i < length (members s)"
  shows "size_inv (hand i msg ts rest s)"
proof (cases "mb_batch (members s ! i)")
  case None
  then show ?thesis using assms(2) by (auto simp: hand_def intro!: size_move)
next
  case (Some b)
  obtain full b' where a: "add (mb_sub (members s ! i)) msg b = (full, b')" by fastforce
  have ok: "batch_ok (threads s) i (members s ! i)" using assms by (simp add: inv_def batch_inv_def)
  have "size_inv (set_batch i b' s)"
    by (rule size_inv_same [OF assms(2)]) (auto simp: set_batch_def)
  moreover have "ms \<noteq> [] \<and> int (length ms) \<le> batch_bound (members (set_batch i b' s) ! i)"
    if "full = Some ms" for ms
    using add_bound [OF ok Some] a that by (simp add: set_batch_def)
  ultimately show ?thesis using a Some
    by (simp add: hand_def) (rule size_move, auto split: option.splits)
qed

lemma size_take:
  assumes "inv s" "size_inv s" "i < length (members s)" "mb_batch (members s ! i) = Some b"
    "batch = ba_pending b"
  shows "size_inv (set_batch i b' (move th (batch_thread i batch) s))"
proof -
  have "batch_ok (threads s) i (members s ! i)" using assms by (simp add: inv_def batch_inv_def)
  then have "batch \<noteq> [] \<Longrightarrow> int (length batch) \<le> batch_bound (members s ! i)"
    using assms(4,5) by (auto simp: batch_ok_def batch_bound_def)
  then have "size_inv (move th (batch_thread i batch) s)"
    using assms(2) by (intro size_move) (auto simp: batch_thread_def split: if_splits)
  then show ?thesis
    by (rule size_inv_same) (auto simp: set_batch_def)
qed

lemma size_register:
  assumes "names_inv s" "size_inv s" shows "size_inv (register c sub s)"
proof -
  have "i < length (members s)" if "Batching i ms \<in># threads s" for i ms
    using names_member [OF assms(1) that] by simp
  then show ?thesis using assms(2)
    by (auto simp: size_inv_def register_def Let_def nth_append)
qed

lemma size_pick_one: "size_inv s \<Longrightarrow> size_inv (pick_one msg key ks ts rest s)"
  by (rule size_inv_same [of s])
    (auto simp: pick_one_def Let_def move_def dest: in_diffD
      split: if_splits option.splits prod.splits pick_result.splits)

lemma size_work: "inv s \<Longrightarrow> size_inv s \<Longrightarrow> work s s' \<Longrightarrow> size_inv s'"
proof (erule work.cases, goal_cases)
  case (1 t c sub subs)
  then have "names_inv (move (Subscribing c (sub # subs)) {#Subscribing c subs#} s)"
    "size_inv (move (Subscribing c (sub # subs)) {#Subscribing c subs#} s)"
    by (auto simp: inv_def intro!: names_move size_move)
  then show ?case using 1 size_register by blast
next
  case (7 t msg i ts rest)
  then have "size_inv (move (Sending msg (i # ts) rest) {#Begun i msg ts rest#} s)"
    by (auto intro: size_move)
  then show ?case using 7 by (simp add: size_inv_def sys_defs)
next
  case (8 t i msg ts rest)
  then show ?case using names_member [of s "Begun i msg ts rest"] by (auto simp: inv_def intro!: size_hand)
qed (auto intro!: size_move size_pick_one)

lemma size_run: "inv s \<Longrightarrow> size_inv s \<Longrightarrow> run s s' \<Longrightarrow> size_inv s'"
proof (erule run.cases, goal_cases)
  case (5 t i b batch b')
  then show ?case using names_member [of s "Stopping i"]
    by (auto simp: inv_def stop_def dest!: take'_fields intro!: size_take)
next
  case (7 t i b batch b')
  then show ?case using names_member [of s "Expiring i"]
    by (auto simp: inv_def expire_def dest!: take'_fields intro!: size_take)
qed (auto intro!: size_inv_same [of s] simp: deliver_def handle_def finish_def move_def set_batch_def
  set_done_def finishing_def dest: in_diffD split: if_splits)

lemma size_step: "inv s \<and> size_inv s \<Longrightarrow> step s s' \<Longrightarrow> inv s' \<and> size_inv s'"
proof (intro conjI)
  assume i: "inv s \<and> size_inv s" and st: "step s s'"
  show "inv s'" using i st sys_inv_step by blast
  from st show "size_inv s'"
  proof cases
    case call
    then show ?thesis using i by (auto elim!: call.cases intro!: size_inv_same [of s])
  qed (use i size_work size_run in blast)+
qed

interpretation batches: invariant_machine initial step "\<lambda>s. inv s \<and> size_inv s"
proof (unfold_locales, goal_cases)
  case (1 s)
  then have "size_inv s" by (auto simp: size_inv_def initial_def NewT_def)
  with 1 show ?case by (simp add: sys_inv_init)
next
  case (2 s s')
  then show ?case by (rule size_step)
qed

section \<open>Turns\<close>

lemma sint_small: "uint (w :: 64 word) < 2 ^ 63 \<Longrightarrow> sint w = uint w"
  using signed_take_bit_int_eq_self [of 63 "uint w"] uint_ge_0 [of w]
  by (simp add: sint_uint del: uint_ge_0)

text \<open>The members from a start on, and round to it.\<close>

lemma pick_loop_find:
  assumes "0 \<le> start" "ids \<noteq> []"
  shows "pick_loop ms ids start is
    = (case find (\<lambda>m. \<not> mb_done (ms ! m)) (map (\<lambda>i. ids ! nat ((start + int i) mod int (length ids))) is) of
        None \<Rightarrow> NoMember | Some m \<Rightarrow> Picked m)"
  using assms
proof (induction "is")
  case (Cons i "is")
  have "(start + int i) smod int (length ids) = (start + int i) mod int (length ids)"
    "\<not> (start + int i) mod int (length ids) < 0"
    using Cons.prems by (simp_all add: smod_mod_positive not_less)
  with Cons show ?case by (simp only: pick_loop.simps Let_def list.map find.simps if_False) simp
qed simp

lemma rotate_as_map:
  assumes "ids \<noteq> []"
  shows "map (\<lambda>i. ids ! nat ((int k + int i) mod int (length ids))) [0..<length ids] = rotate k ids"
proof (rule nth_equalityI)
  fix i assume "i < length (map (\<lambda>i. ids ! nat ((int k + int i) mod int (length ids))) [0..<length ids])"
  then have i: "i < length ids" by simp
  have "nat ((int k + int i) mod int (length ids)) = (k + i) mod length ids"
    by (simp add: nat_mod_as_int [symmetric] flip: of_nat_add of_nat_mod)
  then show "map (\<lambda>i. ids ! nat ((int k + int i) mod int (length ids))) [0..<length ids] ! i = rotate k ids ! i"
    using i by (simp add: nth_rotate)
qed simp

lemma pick_rotates:
  assumes "uint (g_next g) < 2 ^ 63"
  shows "fst (pick ms g)
    = (case find (\<lambda>m. \<not> mb_done (ms ! m)) (rotate (unat (g_next g)) (g_members g)) of
        None \<Rightarrow> NoMember | Some m \<Rightarrow> Picked m)"
proof (cases "g_members g = []")
  case False
  let ?n = "length (g_members g)" and ?u = "unat (g_next g)"
  have start: "sint (g_next g) smod int ?n = int (?u mod ?n)"
  proof -
    have "sint (g_next g) = int ?u" using sint_small [OF assms] uint_nat by simp
    then show ?thesis by (simp add: smod_mod_positive of_nat_mod)
  qed
  have "fst (pick ms g) = pick_loop ms (g_members g) (int (?u mod ?n)) [0..<?n]"
    using False start by (simp add: pick_def Let_def)
  also have "\<dots> = (case find (\<lambda>m. \<not> mb_done (ms ! m)) (rotate (?u mod ?n) (g_members g)) of
      None \<Rightarrow> NoMember | Some m \<Rightarrow> Picked m)"
    using False by (simp add: pick_loop_find rotate_as_map)
  finally show ?thesis by (simp flip: rotate_conv_mod)
qed (simp add: pick_def)

section \<open>A run\<close>

text \<open>
  One subscription without a context, of single messages or of batches of one, and one message:
  up to the delivery, and to its end.
\<close>

definition demo_sub :: "bool \<Rightarrow> Subscription" where
  "demo_sub batch = \<lparr>s_Event = ''orders.created'', s_Consumer = ''mail'', s_Group = ''mailers'', s_Chain = [],
     s_Handle = None,
     s_Batch = (if batch then Some \<lparr>b_Size = \<lparr>bs_Max = 1, bs_Wait = 1\<rparr>, b_Chain = [], b_Handle = None\<rparr>
       else None)\<rparr>"

definition demo_member :: "bool \<Rightarrow> member" where
  "demo_member batch = \<lparr>mb_sub = demo_sub batch, mb_ctx = Background,
     mb_batch = (if batch then Some new_batcher else None), mb_done = False\<rparr>"

definition demo_msg :: Message where
  "demo_msg = \<lparr>m_Event = ''orders.created'', m_Key = ''k'', m_DedupID = [], m_Payload = ''{}'',
     m_Metadata = [], m_AdapterOptions = [], m_disposition = DispositionUnset,
     m_deliveries = 0\<rparr>"

abbreviation demo_key :: groupKey where
  "demo_key \<equiv> (''orders.created'', ''mailers'')"

definition demo_at :: "bool \<Rightarrow> 64 word \<Rightarrow> int \<Rightarrow> thread multiset \<Rightarrow> (nat \<times> Message) multiset \<Rightarrow> sys" where
  "demo_at batch n cnt ths begun = (NewT False)
     \<lparr>groups := [demo_key \<mapsto> \<lparr>g_members = [0], g_next = n\<rparr>], members := [demo_member batch],
      inflight := cnt, threads := ths, sent := begun\<rparr>"

definition demo_delivering :: "bool \<Rightarrow> sys" where
  "demo_delivering batch = demo_at batch 1 1
     {#if batch then Batching 0 [demo_msg] else Delivering 0 demo_msg#} {#(0, demo_msg)#}"

lemma demo_event [simp]: "m_Event demo_msg = ''orders.created''"
  by (simp add: demo_msg_def)

lemma demo_member_fields [simp]:
  "mb_done (demo_member batch) = False" "mb_batch (demo_member batch) = (if batch then Some new_batcher else None)"
  by (simp_all add: demo_member_def)

lemma demo_at_fields [simp]:
  "crashed (demo_at batch n c ths b) = False" "threads (demo_at batch n c ths b) = ths"
  "groups (demo_at batch n c ths b) = [demo_key \<mapsto> \<lparr>g_members = [0], g_next = n\<rparr>]"
  "members (demo_at batch n c ths b) = [demo_member batch]"
  by (simp_all add: demo_at_def NewT_def)

lemma demo_subscribed: "step\<^sup>*\<^sup>* (NewT False) (demo_at batch 0 0 {#} {#})"
proof -
  let ?s1 = "(NewT False)\<lparr>threads := {#Subscribing None [demo_sub batch]#}\<rparr>"
  have "call (NewT False) ?s1"
    using call.Subscribe [of "NewT False" None "[demo_sub batch]"] by (simp add: NewT_def)
  moreover have "work ?s1 (demo_at batch 0 0 {#Subscribing None []#} {#})"
    using work.register [of ?s1 None "demo_sub batch" "[]"]
    by (cases batch) (simp_all add: NewT_def unlocked_def register_def move_def demo_sub_def demo_at_def demo_member_def)
  moreover have "work (demo_at batch 0 0 {#Subscribing None []#} {#}) (demo_at batch 0 0 {#} {#})"
    using work.subscribed [of "demo_at batch 0 0 {#Subscribing None []#} {#}" None]
    by (simp add: move_def demo_at_def NewT_def)
  ultimately show ?thesis by (meson step.call step.work converse_rtranclp_into_rtranclp rtranclp.rtrancl_refl)
qed

lemma demo_member_same: "(demo_member True)\<lparr>mb_batch := Some new_batcher\<rparr> = demo_member True"
  by (simp add: demo_member_def)

lemma demo_handed:
  "work (demo_at batch 1 1 {#Begun 0 demo_msg [] []#} {#(0, demo_msg)#})
    (demo_at batch 1 1 {#Sending demo_msg [] [],
       if batch then Batching 0 [demo_msg] else Delivering 0 demo_msg#} {#(0, demo_msg)#})"
proof -
  have "add (mb_sub (demo_member True)) demo_msg new_batcher = (Some [demo_msg], new_batcher)"
    by (simp add: add_def new_batcher_def demo_member_def demo_sub_def take'_def)
  then show ?thesis
    using work.hand [of "demo_at batch 1 1 {#Begun 0 demo_msg [] []#} {#(0, demo_msg)#}" 0 demo_msg "[]" "[]"]
    by (cases batch) (simp_all add: hand_def demo_at_def NewT_def move_def set_batch_def demo_member_same)
qed

lemma demo_picked: "step\<^sup>*\<^sup>* (demo_at batch 0 0 {#} {#}) (demo_at batch 1 0 {#Picking demo_msg [] [0] []#} {#})"
proof -
  have "call (demo_at batch 0 0 {#} {#}) (demo_at batch 0 0 {#Starting [demo_msg]#} {#})"
    using call.Publish [of "demo_at batch 0 0 {#} {#}" demo_msg] by (simp add: demo_at_def NewT_def)
  moreover have "work (demo_at batch 0 0 {#Starting [demo_msg]#} {#})
      (demo_at batch 0 0 {#Picking demo_msg [demo_key] [] []#} {#})"
    using work.start [of "demo_at batch 0 0 {#Starting [demo_msg]#} {#}" demo_msg "[]" "[demo_key]"]
    by (simp add: demo_at_def NewT_def move_def)
  moreover have "work (demo_at batch 0 0 {#Picking demo_msg [demo_key] [] []#} {#})
      (demo_at batch 1 0 {#Picking demo_msg [] [0] []#} {#})"
    using work.pick [of "demo_at batch 0 0 {#Picking demo_msg [demo_key] [] []#} {#}" demo_msg demo_key "[]" "[]" "[]"]
    by (simp add: demo_at_def NewT_def move_def pick_one_def pick_def)
  ultimately show ?thesis by (meson step.call step.work converse_rtranclp_into_rtranclp rtranclp.rtrancl_refl)
qed

lemma demo_published:
  "step\<^sup>*\<^sup>* (demo_at batch 1 0 {#Picking demo_msg [] [0] []#} {#}) (demo_delivering batch)"
proof -
  let ?th = "if batch then Batching 0 [demo_msg] else Delivering 0 demo_msg"
  have "work (demo_at batch 1 0 {#Picking demo_msg [] [0] []#} {#})
      (demo_at batch 1 0 {#Sending demo_msg [0] []#} {#})"
    using work.picked [of "demo_at batch 1 0 {#Picking demo_msg [] [0] []#} {#}" demo_msg "[0]" "[]"]
    by (simp add: demo_at_def NewT_def move_def)
  moreover have "work (demo_at batch 1 0 {#Sending demo_msg [0] []#} {#})
      (demo_at batch 1 1 {#Begun 0 demo_msg [] []#} {#(0, demo_msg)#})"
    using work.begun [of "demo_at batch 1 0 {#Sending demo_msg [0] []#} {#}" demo_msg 0 "[]" "[]"]
    by (simp add: demo_at_def NewT_def move_def begin_delivery_def)
  moreover note demo_handed [of batch]
  moreover have "work (demo_at batch 1 1 {#Sending demo_msg [] [], ?th#} {#(0, demo_msg)#})
      (demo_at batch 1 1 {#Starting [], ?th#} {#(0, demo_msg)#})"
    using work.delivered [of "demo_at batch 1 1 {#Sending demo_msg [] [], ?th#} {#(0, demo_msg)#}" demo_msg "[]"]
    by (simp add: demo_at_def NewT_def move_def)
  moreover have "work (demo_at batch 1 1 {#Starting [], ?th#} {#(0, demo_msg)#}) (demo_delivering batch)"
    using work.published [of "demo_at batch 1 1 {#Starting [], ?th#} {#(0, demo_msg)#}"]
    by (simp add: demo_at_def NewT_def move_def demo_delivering_def)
  ultimately show ?thesis by (meson step.call step.work converse_rtranclp_into_rtranclp rtranclp.rtrancl_refl)
qed

lemma demo_reachable: "reachable (demo_delivering batch)"
  using rtranclp_trans [OF rtranclp_trans [OF demo_subscribed demo_picked] demo_published]
  unfolding reachable_def initial_def by blast

lemma demo_picking_reachable: "reachable (demo_at batch 1 0 {#Picking demo_msg [] [0] []#} {#})"
  using rtranclp_trans [OF demo_subscribed demo_picked] unfolding reachable_def initial_def by blast

lemma demo_quiet: "quiet (demo_delivering batch)"
  by (simp add: quiet_def demo_delivering_def)

lemma reachable_run: "reachable s \<Longrightarrow> run s t \<Longrightarrow> reachable t"
  unfolding reachable_def using step.run rtranclp.rtrancl_into_rtrancl by metis

definition demo_done :: sys where
  "demo_done = finish (move (Finishing (Suc 0)) (finishing 0) (deliver 0 demo_msg None (demo_delivering False)))"

lemma demo_done_reachable: "reachable demo_done"
proof -
  have "run (demo_delivering False) (deliver 0 demo_msg None (demo_delivering False))"
    by (rule run.deliver) (simp_all add: demo_delivering_def)
  then have "reachable (deliver 0 demo_msg None (demo_delivering False))"
    by (rule reachable_run [OF demo_reachable])
  moreover have "run (deliver 0 demo_msg None (demo_delivering False)) demo_done"
    unfolding demo_done_def
    by (rule run.finish)
      (simp_all add: demo_delivering_def deliver_def move_def finishing_def demo_at_def NewT_def report_def)
  ultimately show ?thesis by (rule reachable_run)
qed

section \<open>Properties\<close>

text \<open>
  C35. Once \<open>Drain\<close> returns, every message handed to a member has been handled, exactly once:
  what was handled is what was begun, counted per member and message, and nothing waits in a
  batch. This holds in every reachable state, with publishers at work or not.
\<close>

theorem drain_means_handled:
  assumes "reachable s" and "Drain_returns s"
  shows "handled s = sent s \<and> pending (members s) = {#} \<and> held (threads s) = {#}"
proof -
  have c: "count_inv s" using reachable_inv [OF assms(1)] by (simp add: inv_def)
  then have "size (held (threads s)) = 0" "size (pending (members s)) = 0"
    using assms(2) unfolding count_inv_def Drain_returns_def by linarith+
  with c show ?thesis by (simp add: count_inv_def)
qed

theorem drain_means_handled_witness: "reachable demo_done \<and> handled demo_done = {#(0, demo_msg)#}"
proof -
  have "Drain_returns demo_done" "sent demo_done = {#(0, demo_msg)#}"
    by (simp_all add: Drain_returns_def demo_done_def deliver_def finish_def move_def demo_delivering_def
        demo_at_def NewT_def finishing_def)
  then show ?thesis using drain_means_handled [of demo_done] demo_done_reachable by simp
qed



text \<open>
  \<open>inflight\<close> counts exactly the deliveries begun and not finished, so it is never negative,
  and every message begun is handled, in the hands of one goroutine or pending in one batch:
  none is lost and none is delivered twice.
\<close>

theorem inflight_counts:
  assumes "reachable s"
  shows "sent s = handled s + held (threads s) + pending (members s) \<and>
    inflight s = int (size (held (threads s)) + to_finish (threads s) + size (pending (members s)))"
  using reachable_inv [OF assms] by (simp add: inv_def count_inv_def)

theorem inflight_counts_witness:
  "inflight (demo_delivering False) = 1 \<and> size (held (threads (demo_delivering False))) = 1"
proof -
  have "inflight (demo_delivering False) = 1" "to_finish (threads (demo_delivering False)) = 0"
    "pending (members (demo_delivering False)) = {#}"
    by (simp_all add: demo_delivering_def demo_at_def NewT_def pending_def pend_def)
  then show ?thesis using inflight_counts [OF demo_reachable] by simp
qed

text \<open>
  A batch handed to a handler is not empty and holds at most \<open>Max\<close> messages of its
  subscription (at least one, where \<open>Max\<close> is not positive).
\<close>

theorem batch_within_bound:
  assumes "reachable s" and "Batching i ms \<in># threads s"
  shows "ms \<noteq> [] \<and> int (length ms) \<le> max 1 (bs_Max (b_Size (the (s_Batch (mb_sub (members s ! i))))))"
proof -
  have "size_inv s" using assms(1) batches.inv_reachable unfolding reachable_def by blast
  then show ?thesis using assms(2) unfolding size_inv_def batch_bound_def by blast
qed

theorem batch_within_bound_witness:
  "Batching 0 [demo_msg] \<in># threads (demo_delivering True) \<and> int (length [demo_msg]) \<le> max 1 1"
proof -
  have "Batching 0 [demo_msg] \<in># threads (demo_delivering True)" by (simp add: demo_delivering_def)
  then show ?thesis using batch_within_bound [OF demo_reachable [of True], of 0 "[demo_msg]"]
    by (simp add: demo_delivering_def demo_member_def demo_sub_def)
qed

text \<open>
  A group picks its members in turn: the member picked is the first live one in the list
  rotated by the counter, and none is picked only when every member is done. The counter stays
  below \<open>2 ^ 63\<close>, as it does for any number of publishes a process can make.
\<close>

theorem pick_takes_turns:
  assumes "uint (g_next g) < 2 ^ 63"
  shows "fst (pick ms g)
    = (case find (\<lambda>m. \<not> mb_done (ms ! m)) (rotate (unat (g_next g)) (g_members g)) of
        None \<Rightarrow> NoMember | Some m \<Rightarrow> Picked m)"
  by (rule pick_rotates [OF assms])

theorem pick_takes_turns_witness:
  "fst (pick (replicate 9 (demo_member False))
      \<lparr>g_members = [4, 7, 8], g_next = 4\<rparr>) = Picked 7"
  using pick_takes_turns [of "\<lparr>g_members = [4, 7, 8], g_next = 4\<rparr>"
      "replicate 9 (demo_member False)"]
  by (simp add: rotate_conv_mod [of 4] del: unsigned_numeral)

text \<open>
  Past \<open>2 ^ 63\<close> publishes the counter reads as a negative number, and \<open>pick\<close> indexes a
  group of three out of range: the conversion to \<open>int\<close> comes before the remainder.
\<close>

theorem pick_index_panics:
  "fst (pick ms \<lparr>g_members = [a, b, c], g_next = 2 ^ 63\<rparr>) = IndexPanic"
proof -
  have "sint (2 ^ 63 :: 64 word) = - (2 ^ 63)" by (simp add: sint_uint signed_take_bit_eq_if_negative mask_eq_exp_minus_1)
  then show ?thesis by (simp add: pick_def upt_rec smod_int_alt_def)
qed

end
