(* ===== verification/Memory_Round.thy ===== *)
theory Memory_Round
  imports Memory_Spec
begin

text \<open>
  The groups one \<open>Publish\<close> reaches. While a publisher picks it holds \<open>t.mu\<close> for reading, so no
  member joins a group or ends; other publishers may advance the counters. The round therefore
  finds one live member of every group of the contract that has one.
\<close>

definition of_group :: "sys \<Rightarrow> groupKey \<Rightarrow> nat set" where
  "of_group s k = (case groups s k of None \<Rightarrow> {} | Some g \<Rightarrow> set (g_members g))"

definition live_in :: "sys \<Rightarrow> groupKey \<Rightarrow> nat \<Rightarrow> bool" where
  "live_in s k m \<longleftrightarrow> m \<in> of_group s k \<and> \<not> mb_done (members s ! m)"

text \<open>The targets so far, one for each group visited that the message is for and that is live.\<close>

definition targets_of :: "sys \<Rightarrow> Message \<Rightarrow> groupKey list \<Rightarrow> nat list \<Rightarrow> bool" where
  "targets_of s msg ds ts \<longleftrightarrow>
     list_all2 (live_in s) (filter (\<lambda>k. fst k = m_Event msg \<and> (\<exists>m. live_in s k m)) ds) ts"

definition round_ok :: "sys \<Rightarrow> Message \<Rightarrow> groupKey list \<Rightarrow> nat list \<Rightarrow> bool" where
  "round_ok s msg ks ts \<longleftrightarrow>
     (\<exists>ds. distinct (ds @ ks) \<and> set (ds @ ks) = dom (groups s) \<and> targets_of s msg ds ts)"

definition round_inv :: "sys \<Rightarrow> bool" where
  "round_inv s \<longleftrightarrow> (\<forall>msg ks ts rest. Picking msg ks ts rest \<in># threads s \<longrightarrow> round_ok s msg ks ts)"

section \<open>Picking finds a live member if there is one\<close>

lemma pick_loop_start:
  assumes "start < 0" "- int (length ids) < start" "ids \<noteq> []"
  shows "pick_loop ms ids start [0..<length ids] = IndexPanic"
proof -
  have "start smod int (length ids) = start"
    using assms by (simp add: smod_int_alt_def sgn_if)
  then show ?thesis using assms by (simp add: upt_rec)
qed

lemma pick_complete:
  assumes "pick ms g = (NoMember, g')" "m \<in> set (g_members g)"
  shows "mb_done (ms ! m)"
proof -
  let ?ids = "g_members g" let ?start = "sint (g_next g) smod int (length ?ids)"
  have ne: "?ids \<noteq> []" using assms(2) by auto
  have p: "pick_loop ms ?ids ?start [0..<length ?ids] = NoMember"
    using assms ne by (simp add: pick_def Let_def)
  have "- int (length ?ids) < ?start" using ne smod_int_range [of "int (length ?ids)" "sint (g_next g)"] by simp
  then have "0 \<le> ?start" using p pick_loop_start [of ?start ?ids ms] ne by (cases "?start < 0") auto
  then obtain k where k: "?start = int k" by (rule nonneg_int_cases)
  have "find (\<lambda>m. \<not> mb_done (ms ! m)) (rotate k ?ids) = None"
    using p ne unfolding k pick_loop_find [OF of_nat_0_le_iff ne] rotate_as_map [OF ne]
    by (simp split: option.splits)
  then show ?thesis using assms(2) by (auto simp: find_None_iff)
qed

section \<open>Steps that leave rounds alone\<close>

lemma round_ok_same:
  assumes "round_ok s msg ks ts" "dom (groups s') = dom (groups s)"
    and "\<And>k m. live_in s' k m \<longleftrightarrow> live_in s k m"
  shows "round_ok s' msg ks ts"
proof -
  have "live_in s' = live_in s" using assms(3) by (simp add: fun_eq_iff)
  then show ?thesis using assms(1,2) by (simp add: round_ok_def targets_of_def)
qed

lemma round_inv_same:
  assumes "round_inv s" "dom (groups s') = dom (groups s)"
    and "\<And>k m. live_in s' k m \<longleftrightarrow> live_in s k m"
    and "\<And>msg ks ts rest. Picking msg ks ts rest \<in># threads s' \<Longrightarrow>
      Picking msg ks ts rest \<in># threads s \<or> round_ok s' msg ks ts"
  shows "round_inv s'"
  unfolding round_inv_def
proof (intro allI impI)
  fix msg ks ts rest assume "Picking msg ks ts rest \<in># threads s'"
  from assms(4) [OF this] show "round_ok s' msg ks ts"
    using assms(1) round_ok_same [OF _ assms(2,3)] unfolding round_inv_def by blast
qed

lemma done_list_update [simp]: "mb_done (ms[i := (ms ! i)\<lparr>mb_batch := b\<rparr>] ! j) = mb_done (ms ! j)"
  using nth_update_fun [of ms i "\<lambda>m. m\<lparr>mb_batch := b\<rparr>" j] by (simp only: split: if_split) auto

lemma no_picking: "filter_mset is_picking M = {#} \<Longrightarrow> Picking msg ks ts rest \<notin># M"
  by (metis count_filter_mset count_empty is_picking.simps(1) not_in_iff)

lemma unlocked_round: "filter_mset is_picking (threads s) = {#} \<Longrightarrow> round_inv s"
  using no_picking unfolding round_inv_def by blast

lemma picking_diff: "\<not> is_picking th \<Longrightarrow> filter_mset is_picking (M - {#th#}) = filter_mset is_picking M"
  by (simp add: filter_diff_mset)

section \<open>A round\<close>

lemma round_pick_one:
  assumes "round_inv s" "Picking msg (key # ks) ts rest \<in># threads s"
  shows "round_inv (pick_one msg key ks ts rest s)"
proof -
  let ?s = "pick_one msg key ks ts rest s"
  have mem: "members ?s = members s"
    by (simp add: pick_one_def Let_def move_def split: option.split prod.split pick_result.split)
  have grp: "dom (groups ?s) = dom (groups s)" "of_group ?s = of_group s"
    by (auto simp: pick_one_def Let_def move_def of_group_def fun_eq_iff
        split: option.splits prod.splits pick_result.splits dest: pick_members)
  have live: "live_in ?s = live_in s" using mem grp(2) by (simp add: live_in_def fun_eq_iff)
  obtain ds where ds: "distinct (ds @ key # ks)" "set (ds @ key # ks) = dom (groups s)" "targets_of s msg ds ts"
    using assms unfolding round_inv_def round_ok_def by blast
  have ok: "round_ok ?s msg ks ts'" if "targets_of s msg (ds @ [key]) ts'" for ts'
    using ds that unfolding round_ok_def targets_of_def live grp
    by (intro exI [of _ "ds @ [key]"]) auto
  show ?thesis
  proof (rule round_inv_same [OF assms(1) grp(1)])
    fix msg' ks' ts' rest' assume in': "Picking msg' ks' ts' rest' \<in># threads ?s"
    show "Picking msg' ks' ts' rest' \<in># threads s \<or> round_ok ?s msg' ks' ts'"
    proof (cases "Picking msg' ks' ts' rest' \<in># threads s")
      case False
      show ?thesis
      proof (cases "fst key = m_Event msg")
        case False
        then have "targets_of s msg (ds @ [key]) ts" using ds(3) by (simp add: targets_of_def)
        moreover have "msg' = msg" "ks' = ks" "ts' = ts"
          using in' False \<open>_ \<notin># threads s\<close> by (auto simp: pick_one_def move_def dest: in_diffD)
        ultimately show ?thesis using ok by blast
      next
        case True
        obtain g where g: "groups s key = Some g" using ds(2) by auto
        obtain r g' where p: "pick (members s) g = (r, g')" by fastforce
        have og: "of_group s key = set (g_members g)" using g by (simp add: of_group_def)
        show ?thesis
        proof (cases r)
          case (Picked m)
          then have "live_in s key m" using p pick_member og by (auto simp: live_in_def)
          then have "targets_of s msg (ds @ [key]) (ts @ [m])"
            using ds(3) True unfolding targets_of_def by (auto intro: list_all2_appendI)
          moreover have "msg' = msg" "ks' = ks" "ts' = ts @ [m]"
            using in' True g p Picked \<open>_ \<notin># threads s\<close> by (auto simp: pick_one_def move_def dest: in_diffD)
          ultimately show ?thesis using ok by blast
        next
          case NoMember
          then have "\<not> live_in s key m" for m using p pick_complete og by (auto simp: live_in_def)
          then have "targets_of s msg (ds @ [key]) ts" using ds(3) by (auto simp: targets_of_def)
          moreover have "msg' = msg" "ks' = ks" "ts' = ts"
            using in' True g p NoMember \<open>_ \<notin># threads s\<close> by (auto simp: pick_one_def move_def dest: in_diffD)
          ultimately show ?thesis using ok by blast
        next
          case IndexPanic
          then show ?thesis using in' True g p \<open>_ \<notin># threads s\<close> by (simp add: pick_one_def)
        qed
      qed
    qed simp
  qed (simp add: live)
qed

lemma round_start:
  assumes "round_inv s" "distinct ks" "set ks = dom (groups s)"
  shows "round_inv (move th {#Picking msg ks [] rest#} s)"
proof (rule round_inv_same [OF assms(1)], goal_cases)
  case (3 msg' ks' ts' rest')
  have "round_ok (move th {#Picking msg ks [] rest#} s) msg ks []"
    unfolding round_ok_def by (rule exI [of _ "[]"]) (simp add: assms targets_of_def move_def)
  with 3 show ?case by (auto simp: move_def dest: in_diffD)
qed (auto simp: move_def live_in_def of_group_def)

lemma round_move:
  assumes "round_inv s" "filter_mset is_picking ths = {#}"
  shows "round_inv (move th ths s)"
proof (rule round_inv_same [OF assms(1)], goal_cases)
  case (3 msg ks ts rest)
  then have "Picking msg ks ts rest \<in># ths \<or> Picking msg ks ts rest \<in># threads s"
    by (auto simp: move_def dest: in_diffD)
  then show ?case using no_picking [OF assms(2)] by blast
qed (auto simp: move_def live_in_def of_group_def)

lemma round_fields:
  assumes "round_inv s" "groups s' = groups s" "threads s' = threads s"
    "\<And>m. mb_done (members s' ! m) = mb_done (members s ! m)"
  shows "round_inv s'"
  by (rule round_inv_same [OF assms(1)]) (use assms in \<open>auto simp: live_in_def of_group_def\<close>)

lemma round_work: "round_inv s \<Longrightarrow> work s s' \<Longrightarrow> round_inv s'"
proof (erule work.cases, goal_cases)
  case (1 t c sub subs)
  then have "filter_mset is_picking (threads s') = {#}"
    by (simp add: unlocked_def register_def Let_def move_def picking_diff)
  then show ?case by (rule unlocked_round)
next
  case (7 t msg i ts rest)
  then have "round_inv (move (Sending msg (i # ts) rest) {#Begun i msg ts rest#} s)"
    by (simp add: round_move)
  then show ?case by (rule round_fields) (simp_all add: 7 sys_defs)
next
  case (8 t i msg ts rest)
  have "round_inv (set_batch i b s)" for b
    using 8(1) by (rule round_fields) (simp_all add: set_batch_def)
  then show ?case using 8
    by (auto simp: hand_def Let_def split: option.split prod.split intro!: round_move)
next
  case (3 t msg rest ks)
  then show ?case using round_start by blast
qed (auto intro!: round_move round_pick_one)

lemma round_run: "round_inv s \<Longrightarrow> run s s' \<Longrightarrow> round_inv s'"
proof (erule run.cases, goal_cases)
  case (4 t i)
  then have "filter_mset is_picking (threads s') = {#}"
    by (simp add: unlocked_def sys_defs picking_diff)
  then show ?case by (rule unlocked_round)
next
  case (1 t i msg e)
  have "round_inv (report i (Some msg) e (s\<lparr>contexts := cs, handled := h\<rparr>))" for cs h
    using 1(1) by (rule round_fields) simp_all
  with 1 show ?case by (simp add: deliver_def finishing_def round_move)
next
  case (2 t i batch e)
  have "round_inv (report i None e (s\<lparr>contexts := cs, handled := h\<rparr>))" for cs h
    using 2(1) by (rule round_fields) simp_all
  with 2 show ?case by (simp add: handle_def finishing_def round_move)
next
  case (3 t n)
  then have "round_inv (move (Finishing (Suc n)) (finishing n) s)"
    by (simp add: round_move finishing_def)
  then show ?case by (rule round_fields) (simp_all add: 3 finish_def)
next
  case (5 t i b batch b')
  then have "round_inv (move (Stopping i) (batch_thread i batch) s)"
    by (simp add: round_move batch_thread_def)
  then show ?case by (rule round_fields) (simp_all add: 5 set_batch_def)
next
  case (6 t i b)
  have "round_inv (s\<lparr>threads := threads s + {#Expiring i#}\<rparr>)"
    by (rule round_inv_same [OF 6(1)]) (simp_all add: live_in_def of_group_def)
  then show ?case by (rule round_fields) (simp_all add: 6 set_batch_def)
next
  case (7 t i b batch b')
  then have "round_inv (move (Expiring i) (batch_thread i batch) s)"
    by (simp add: round_move batch_thread_def)
  then show ?case by (rule round_fields) (simp_all add: 7 set_batch_def)
qed

lemma round_step: "round_inv s \<Longrightarrow> step s s' \<Longrightarrow> round_inv s'"
proof (erule step.cases, goal_cases)
  case (1 t t')
  then show ?case
    by (elim call.cases) (auto intro!: round_inv_same [of s] simp: live_in_def of_group_def)
qed (auto intro: round_work round_run)

interpretation rounds: invariant_machine initial step round_inv
  by unfold_locales (auto simp: initial_def NewT_def unlocked_round, rule round_step)

text \<open>
  C37. A message is published to exactly one live member of every group that subscribed to its
  contract and has a live member, and to no other group: when a publisher has picked, its
  targets are one live member for each of these groups, whatever other publishers pick meanwhile.
\<close>

theorem publish_one_per_group:
  assumes "reachable s" and "Picking msg [] targets rest \<in># threads s"
  shows "\<exists>ks. distinct ks \<and> set ks = {k \<in> dom (groups s). fst k = m_Event msg \<and> (\<exists>m. live_in s k m)}
    \<and> list_all2 (live_in s) ks targets"
proof -
  have "round_inv s" using assms(1) rounds.inv_reachable unfolding reachable_def by blast
  then obtain ds where ds: "distinct ds" "set ds = dom (groups s)" "targets_of s msg ds targets"
    using assms(2) unfolding round_inv_def round_ok_def by (metis append_Nil2)
  then show ?thesis unfolding targets_of_def
    by (intro exI [of _ "filter (\<lambda>k. fst k = m_Event msg \<and> (\<exists>m. live_in s k m)) ds"]) auto
qed

theorem publish_one_per_group_witness:
  "\<exists>ks. set ks = {demo_key} \<and> list_all2 (live_in (demo_at False 1 0 {#Picking demo_msg [] [0] []#} {#})) ks [0]"
proof -
  let ?s = "demo_at False 1 0 {#Picking demo_msg [] [0] []#} {#}"
  have "{k \<in> dom (groups ?s). fst k = m_Event demo_msg \<and> (\<exists>m. live_in ?s k m)} = {demo_key}"
    by (auto simp: live_in_def of_group_def)
  then show ?thesis
    using publish_one_per_group [OF demo_picking_reachable [of False], of demo_msg "[0]" "[]"] by auto
qed

end
