(* ===== verification/Bus.thy ===== *)
theory Bus
  imports Events "HOL-Library.AList" "HOL-Library.List_Lexorder" "HOL-Library.Char_ord" "HOL-Library.Product_Lexorder"
begin

text \<open>
  The bus: \<^verbatim>\<open>pkg/events/events.go\<close>, \<^verbatim>\<open>publish.go\<close>, \<^verbatim>\<open>subscribe.go\<close>, \<^verbatim>\<open>plan.go\<close> and
  the typed events of \<^verbatim>\<open>event.go\<close>.

  A transport and a codec are not code of the runtime, so they are records of functions: what
  \<open>Publish\<close> does to the state of a broker, of any type, and what it returns. An optional
  interface is an option. A nil bus or option is \<open>None\<close>. Go orders strings by their bytes, as
  the lexicographic order on \<open>string\<close> does. \<open>strings.EqualFold\<close> is given by lower case: no rune
  beyond ASCII folds to a letter of the two constants it is compared with.
\<close>

section \<open>Codecs, transports and the bus\<close>

record codec =
  c_Name :: string
  c_Marshal :: "any \<Rightarrow> err + string"
  c_Unmarshal :: "string \<Rightarrow> err + any"

record 's Publisher =
  p_Publish :: "Message \<Rightarrow> 's \<Rightarrow> err option \<times> 's"
  p_PublishBatch :: "(Message list \<Rightarrow> 's \<Rightarrow> err option \<times> 's) option"
  p_OptionAware :: "(string \<times> string list) option"
  p_TypeName :: string

record Subscriber =
  sb_CanDisposition :: "(Disposition \<Rightarrow> bool) option"
  sb_SubscribesBatches :: "bool option"
  sb_Subscribe :: "Subscription list \<Rightarrow> err option"

record Envelope =
  e_Event :: string
  e_Key :: string
  e_DedupID :: string
  e_Payload :: any
  e_Metadata :: "(string \<times> string) list"
  e_AdapterOptions :: "(string \<times> (string \<times> any) list) list"

type_synonym PublishOption = "Envelope \<Rightarrow> Envelope"

type_synonym registration = "string \<times> Group"

record 's Bus =
  bus_pub :: "'s Publisher option"
  bus_sub :: "Subscriber option"
  bus_chain :: Chain
  bus_batchChain :: Chain
  bus_required :: "Disposition list"
  bus_defaults :: "PublishOption option list"
  bus_codec :: "codec option"
  bus_perEvent :: "(string \<times> codec option) list"
  bus_subs :: "Subscription list"
  bus_claimed :: "registration list"
  bus_started :: bool

definition zero_Bus :: "'s Bus" where
  "zero_Bus = \<lparr>bus_pub = None, bus_sub = None, bus_chain = [], bus_batchChain = [], bus_required = [],
     bus_defaults = [], bus_codec = None, bus_perEvent = [], bus_subs = [], bus_claimed = [],
     bus_started = False\<rparr>"

definition WithPublisher :: "'s Publisher option \<Rightarrow> 's Bus \<Rightarrow> 's Bus" where
  "WithPublisher p b = b\<lparr>bus_pub := p\<rparr>"

definition WithSubscriber :: "Subscriber option \<Rightarrow> 's Bus \<Rightarrow> 's Bus" where
  "WithSubscriber s b = b\<lparr>bus_sub := s\<rparr>"

definition WithTransport :: "'s Publisher \<Rightarrow> Subscriber \<Rightarrow> 's Bus \<Rightarrow> 's Bus" where
  "WithTransport p s b = b\<lparr>bus_pub := Some p, bus_sub := Some s\<rparr>"

definition WithCodec :: "codec option \<Rightarrow> 's Bus \<Rightarrow> 's Bus" where
  "WithCodec c b = b\<lparr>bus_codec := c\<rparr>"

definition WithMiddleware :: "middleware option list \<Rightarrow> 's Bus \<Rightarrow> 's Bus" where
  "WithMiddleware mws b = b\<lparr>bus_chain := Append (bus_chain b) mws\<rparr>"

definition WithBatchMiddleware :: "middleware option list \<Rightarrow> 's Bus \<Rightarrow> 's Bus" where
  "WithBatchMiddleware mws b = b\<lparr>bus_batchChain := Append (bus_batchChain b) mws\<rparr>"

definition WithCodecFor :: "string \<Rightarrow> codec option \<Rightarrow> 's Bus \<Rightarrow> 's Bus" where
  "WithCodecFor event c b = b\<lparr>bus_perEvent := AList.update event c (bus_perEvent b)\<rparr>"

definition WithPublishDefaults :: "PublishOption option list \<Rightarrow> 's Bus \<Rightarrow> 's Bus" where
  "WithPublishDefaults opts b = b\<lparr>bus_defaults := bus_defaults b @ opts\<rparr>"

definition WithDispositionRequired :: "Disposition \<Rightarrow> 's Bus \<Rightarrow> 's Bus" where
  "WithDispositionRequired d b = b\<lparr>bus_required := bus_required b @ [d]\<rparr>"

definition NewBus :: "('s Bus \<Rightarrow> 's Bus) list \<Rightarrow> 's Bus" where
  "NewBus opts = foldl (\<lambda>b opt. opt b) zero_Bus opts"

section \<open>Codecs\<close>

definition MetaCodec :: string where "MetaCodec = ''content-codec''"

definition MetaPrefix :: string where "MetaPrefix = ''craftgo-''"

definition EqualFold :: "string \<Rightarrow> string \<Rightarrow> bool" where
  "EqualFold s t \<longleftrightarrow> ToLower s = ToLower t"

definition IsReservedMeta :: "string \<Rightarrow> bool" where
  "IsReservedMeta key \<longleftrightarrow>
     (if EqualFold key MetaCodec then True
      else length key \<ge> length MetaPrefix \<and> EqualFold (take (length MetaPrefix) key) MetaPrefix)"

definition CodecFor :: "'s Bus option \<Rightarrow> string \<Rightarrow> err + codec" where
  "CodecFor bus event =
     (case bus of
        None \<Rightarrow> Inl (ErrNoCodec event)
      | Some b \<Rightarrow>
          (case map_of (bus_perEvent b) event of
             Some (Some c) \<Rightarrow> Inr c
           | _ \<Rightarrow> (case bus_codec b of None \<Rightarrow> Inl (ErrNoCodec event) | Some c \<Rightarrow> Inr c)))"

definition meta_get :: "(string \<times> string) list \<Rightarrow> string \<Rightarrow> string" where
  "meta_get m k = (case map_of m k of Some v \<Rightarrow> v | None \<Rightarrow> [])"

definition Decode :: "'s Bus option \<Rightarrow> Message \<Rightarrow> err + any" where
  "Decode bus msg =
     (case CodecFor bus (m_Event msg) of
        Inl e \<Rightarrow> Inl e
      | Inr codec \<Rightarrow>
          let got = meta_get (m_Metadata msg) MetaCodec
          in if got \<noteq> [] \<and> got \<noteq> c_Name codec
             then Inl (ErrCodecMismatch (m_Event msg) got (c_Name codec))
             else case c_Unmarshal codec (m_Payload msg) of
                    Inl e \<Rightarrow> Inl (PayloadError (m_Event msg) e)
                  | Inr v \<Rightarrow> Inr v)"

section \<open>Envelopes and options\<close>

definition WithKey :: "string \<Rightarrow> PublishOption" where
  "WithKey key env = env\<lparr>e_Key := key\<rparr>"

definition WithDedupID :: "string \<Rightarrow> PublishOption" where
  "WithDedupID id' env = env\<lparr>e_DedupID := id'\<rparr>"

definition WithHeader :: "string \<Rightarrow> string \<Rightarrow> PublishOption" where
  "WithHeader key value env = env\<lparr>e_Metadata := AList.update key value (e_Metadata env)\<rparr>"

definition opts_get :: "(string \<times> (string \<times> any) list) list \<Rightarrow> string \<Rightarrow> (string \<times> any) list" where
  "opts_get m adapter = (case map_of m adapter of Some o' \<Rightarrow> o' | None \<Rightarrow> [])"

definition opts_set :: "string \<Rightarrow> string \<Rightarrow> any \<Rightarrow> (string \<times> (string \<times> any) list) list
    \<Rightarrow> (string \<times> (string \<times> any) list) list" where
  "opts_set adapter key value m = AList.update adapter (AList.update key value (opts_get m adapter)) m"

definition WithAdapterOption :: "string \<Rightarrow> string \<Rightarrow> any \<Rightarrow> PublishOption" where
  "WithAdapterOption adapter key value env =
     env\<lparr>e_AdapterOptions := opts_set adapter key value (e_AdapterOptions env)\<rparr>"

definition Envelope_Apply :: "PublishOption option list \<Rightarrow> Envelope \<Rightarrow> Envelope" where
  "Envelope_Apply opts env = foldl (\<lambda>e o'. case o' of None \<Rightarrow> e | Some f \<Rightarrow> f e) env opts"

definition JoinOptions :: "PublishOption option list \<Rightarrow> PublishOption option list \<Rightarrow> PublishOption option list" where
  "JoinOptions defaults opts =
     (if defaults = [] then opts else if opts = [] then defaults else defaults @ opts)"

definition AdapterOption :: "Message option \<Rightarrow> string \<Rightarrow> string \<Rightarrow> any option" where
  "AdapterOption m adapter key =
     (case m of None \<Rightarrow> None | Some m \<Rightarrow> map_of (opts_get (m_AdapterOptions m) adapter) key)"

definition checkAdapterOptions :: "'s Bus \<Rightarrow> Envelope \<Rightarrow> err option" where
  "checkAdapterOptions b env =
     (if e_AdapterOptions env = [] then None
      else case bus_pub b of
        None \<Rightarrow> None
      | Some p \<Rightarrow>
          (case p_OptionAware p of
             None \<Rightarrow> None
           | Some (name, known) \<Rightarrow>
               let opts = opts_get (e_AdapterOptions env) name
               in if opts = [] then None
                  else
                    let known' = sort known
                    in case find (\<lambda>key. key \<notin> set known') (sort (map fst opts)) of
                         None \<Rightarrow> None
                       | Some key \<Rightarrow> Some (UnknownOptionError name key (e_Event env) known')))"

definition encode :: "'s Bus \<Rightarrow> Envelope \<Rightarrow> err + Message" where
  "encode b env =
     (case checkAdapterOptions b env of
        Some e \<Rightarrow> Inl e
      | None \<Rightarrow>
          (case CodecFor (Some b) (e_Event env) of
             Inl e \<Rightarrow> Inl e
           | Inr codec \<Rightarrow>
               (case c_Marshal codec (e_Payload env) of
                  Inl e \<Rightarrow> Inl (Wrapped (Msg ''events: encode %s: %w'' [AStr (e_Event env)]) e)
                | Inr data \<Rightarrow>
                    Inr \<lparr>m_Event = e_Event env, m_Key = e_Key env, m_DedupID = e_DedupID env,
                      m_Payload = data,
                      m_Metadata = AList.update MetaCodec (c_Name codec)
                        (filter (\<lambda>(k, v). \<not> IsReservedMeta k) (e_Metadata env)),
                      m_AdapterOptions = e_AdapterOptions env,
                      m_disposition = DispositionUnset, m_deliveries = 0\<rparr>)))"

definition withDefaults :: "'s Bus \<Rightarrow> Envelope \<Rightarrow> Envelope" where
  "withDefaults b env =
     (if bus_defaults b = [] then env
      else
        let out = Envelope_Apply (bus_defaults b)
              \<lparr>e_Event = e_Event env, e_Key = [], e_DedupID = [], e_Payload = e_Payload env,
               e_Metadata = [], e_AdapterOptions = []\<rparr>;
            out1 = (if e_Key env \<noteq> [] then out\<lparr>e_Key := e_Key env\<rparr> else out);
            out2 = (if e_DedupID env \<noteq> [] then out1\<lparr>e_DedupID := e_DedupID env\<rparr> else out1);
            out3 = foldl (\<lambda>o' (k, v). o'\<lparr>e_Metadata := AList.update k v (e_Metadata o')\<rparr>) out2 (e_Metadata env)
        in foldl (\<lambda>o' (adapter, opts).
             foldl (\<lambda>o'' (k, v). o''\<lparr>e_AdapterOptions := opts_set adapter k v (e_AdapterOptions o'')\<rparr>) o' opts)
             out3 (e_AdapterOptions env))"

section \<open>Publishing\<close>

definition Publish :: "'s Bus option \<Rightarrow> err option \<Rightarrow> string \<Rightarrow> any \<Rightarrow> PublishOption option list \<Rightarrow> 's \<Rightarrow> err option \<times> 's" where
  "Publish bus ctxErr event payload opts st =
     (case bus of
        None \<Rightarrow> (Some ErrNoPublisher, st)
      | Some b \<Rightarrow>
          (case bus_pub b of
             None \<Rightarrow> (Some ErrNoPublisher, st)
           | Some pub \<Rightarrow>
               (case ctxErr of
                  Some e \<Rightarrow> (Some e, st)
                | None \<Rightarrow>
                    let env = Envelope_Apply (JoinOptions (bus_defaults b) opts)
                          \<lparr>e_Event = event, e_Key = [], e_DedupID = [], e_Payload = payload,
                           e_Metadata = [], e_AdapterOptions = []\<rparr>
                    in case encode b env of
                         Inl e \<Rightarrow> (Some e, st)
                       | Inr msg \<Rightarrow> p_Publish pub msg st)))"

definition UnsentAt :: "int list \<Rightarrow> Message list \<Rightarrow> err \<Rightarrow> err" where
  "UnsentAt idxs msgs e =
     (let sorted' = sort idxs
      in case sorted' of
           [] \<Rightarrow> PartialPublishError 0 [] [] e
         | i # _ \<Rightarrow>
             PartialPublishError i sorted'
               (if i \<ge> 0 \<and> i < int (length msgs) then m_Event (msgs ! nat i) else []) e)"

definition UnsentFrom :: "nat \<Rightarrow> Message list \<Rightarrow> err \<Rightarrow> err" where
  "UnsentFrom i msgs e = UnsentAt (map int [i..<length msgs]) msgs e"

text \<open>
  \<open>errors.As\<close> for a \<open>PartialPublishError\<close>: the first along the errors an error wraps. The bus
  writes to the one it finds, so a change is made in its place.
\<close>

fun as_partial :: "err \<Rightarrow> (int \<times> int list \<times> string \<times> err) option" and
    as_partial_list :: "(int \<times> err option) list \<Rightarrow> (int \<times> int list \<times> string \<times> err) option" where
  "as_partial (PartialPublishError n unsent ev e) = Some (n, unsent, ev, e)"
| "as_partial (PayloadError _ e) = as_partial e"
| "as_partial (RegisterError _ _ _ e) = as_partial e"
| "as_partial (EnvelopeError _ _ e) = as_partial e"
| "as_partial (Wrapped _ e) = as_partial e"
| "as_partial (ItemErrors es) = as_partial_list es"
| "as_partial _ = None"
| "as_partial_list [] = None"
| "as_partial_list ((i, None) # es) = as_partial_list es"
| "as_partial_list ((i, Some e) # es) = (case as_partial e of Some p \<Rightarrow> Some p | None \<Rightarrow> as_partial_list es)"

fun set_sent :: "int \<Rightarrow> err \<Rightarrow> err" and set_sent_list :: "int \<Rightarrow> (int \<times> err option) list \<Rightarrow> (int \<times> err option) list" where
  "set_sent n (PartialPublishError _ unsent ev e) = PartialPublishError n unsent ev e"
| "set_sent n (PayloadError ev e) = PayloadError ev (set_sent n e)"
| "set_sent n (RegisterError a b c e) = RegisterError a b c (set_sent n e)"
| "set_sent n (EnvelopeError i ev e) = EnvelopeError i ev (set_sent n e)"
| "set_sent n (Wrapped m e) = Wrapped m (set_sent n e)"
| "set_sent n (ItemErrors es) = ItemErrors (set_sent_list n es)"
| "set_sent n e = e"
| "set_sent_list n [] = []"
| "set_sent_list n ((i, None) # es) = (i, None) # set_sent_list n es"
| "set_sent_list n ((i, Some e) # es) =
     (case as_partial e of
        Some _ \<Rightarrow> (i, Some (set_sent n e)) # es
      | None \<Rightarrow> (i, Some e) # set_sent_list n es)"

fun validate_loop :: "int \<Rightarrow> int list \<Rightarrow> int \<Rightarrow> message option" where
  "validate_loop prev [] n = None"
| "validate_loop prev (i # is) n =
     (if i < 0 \<or> i \<ge> n then Some (Msg ''index %d is outside the batch of %d'' [AInt i, AInt n])
      else if i \<le> prev
      then Some (Msg ''index %d does not follow %d, so the list is not ascending'' [AInt i, AInt prev])
      else validate_loop i is n)"

definition validateUnsent :: "int list \<Rightarrow> int \<Rightarrow> message option" where
  "validateUnsent unsent n =
     (if unsent = [] then Some (Msg ''it names no unsent envelope, so it is not a partial publish'' [])
      else validate_loop (- 1) unsent n)"

definition adapterLabel :: "'s Publisher \<Rightarrow> fmt_arg" where
  "adapterLabel p = (case p_OptionAware p of Some (name, _) \<Rightarrow> AStr name | None \<Rightarrow> AStr (p_TypeName p))"

definition checkedBatch :: "'s Publisher \<Rightarrow> err option \<Rightarrow> Message list \<Rightarrow> err option" where
  "checkedBatch pub err' msgs =
     (case err' of
        None \<Rightarrow> None
      | Some e \<Rightarrow>
          (case as_partial e of
             None \<Rightarrow> Some e
           | Some (sent, unsent, ev, cause) \<Rightarrow>
               (case validateUnsent unsent (int (length msgs)) of
                  Some bad \<Rightarrow>
                    Some (UnsentFrom 0 msgs (Wrapped (Msg
                      ''events: transport %s reported an impossible partial publish (%s); treating the whole batch as unsent: %w''
                      [adapterLabel pub, AErr bad]) cause))
                | None \<Rightarrow> Some (set_sent (hd unsent) e))))"

text \<open>Encoding a batch stops at the first envelope that will not encode.\<close>

fun encode_all :: "'s Bus \<Rightarrow> nat \<Rightarrow> Envelope list \<Rightarrow> err + Message list" where
  "encode_all b i [] = Inr []"
| "encode_all b i (env # envs) =
     (if e_Event env = [] then Inl (EnvelopeError i [] ErrNoContract)
      else case encode b (withDefaults b env) of
        Inl e \<Rightarrow> Inl (EnvelopeError i (e_Event env) e)
      | Inr msg \<Rightarrow>
          (case encode_all b (i + 1) envs of Inl e \<Rightarrow> Inl e | Inr msgs \<Rightarrow> Inr (msg # msgs)))"

text \<open>One message at a time, from index \<open>i\<close> of \<open>msgs\<close>.\<close>

function publish_loop :: "'s Publisher \<Rightarrow> Message list \<Rightarrow> nat \<Rightarrow> 's \<Rightarrow> err option \<times> 's" where
  "publish_loop pub msgs i st =
     (if i < length msgs then
        (case p_Publish pub (msgs ! i) st of
           (Some e, st') \<Rightarrow> (Some (UnsentFrom i msgs e), st')
         | (None, st') \<Rightarrow> publish_loop pub msgs (i + 1) st')
      else (None, st))"
  by pat_completeness auto
termination
  by (relation "measure (\<lambda>(pub, msgs, i, st). length msgs - i)") auto

declare publish_loop.simps [simp del]

definition PublishAll :: "'s Bus option \<Rightarrow> err option \<Rightarrow> Envelope list \<Rightarrow> 's \<Rightarrow> err option \<times> 's" where
  "PublishAll bus ctxErr envs st =
     (if envs = [] then (None, st)
      else case bus of
        None \<Rightarrow> (Some ErrNoPublisher, st)
      | Some b \<Rightarrow>
          (case bus_pub b of
             None \<Rightarrow> (Some ErrNoPublisher, st)
           | Some pub \<Rightarrow>
               (case ctxErr of
                  Some e \<Rightarrow> (Some e, st)
                | None \<Rightarrow>
                    (case encode_all b 0 envs of
                       Inl e \<Rightarrow> (Some e, st)
                     | Inr msgs \<Rightarrow>
                         (case p_PublishBatch pub of
                            Some batch \<Rightarrow>
                              (case batch msgs st of (e, st') \<Rightarrow> (checkedBatch pub e msgs, st'))
                          | None \<Rightarrow> publish_loop pub msgs 0 st)))))"

section \<open>Subscribing\<close>

definition canDisposition :: "Subscriber option \<Rightarrow> Disposition \<Rightarrow> bool" where
  "canDisposition sub d =
     (case sub of
        Some s \<Rightarrow> (case sb_CanDisposition s of Some f \<Rightarrow> f d | None \<Rightarrow> d = DispositionSettle)
      | None \<Rightarrow> d = DispositionSettle)"

definition canBatch :: "Subscriber \<Rightarrow> bool" where
  "canBatch sub \<longleftrightarrow> (case sb_SubscribesBatches sub of Some ok \<Rightarrow> ok | None \<Rightarrow> False)"

definition requireDispositions :: "'s Bus \<Rightarrow> err option" where
  "requireDispositions b =
     map_option ErrDispositionUnsupported (find (\<lambda>d. \<not> canDisposition (bus_sub b) d) (bus_required b))"

definition batchProblem :: "Subscription \<Rightarrow> Batch \<Rightarrow> err option" where
  "batchProblem sub b =
     (if b_Handle b = None then Some ErrNoHandler
      else if s_Handle sub \<noteq> None \<or> length (s_Chain sub) > 0
      then Some (ErrInvalidBatch (Msg ''it takes its handler and chain in Batch, not in Handle and Chain'' []))
      else if bs_Max (b_Size b) < 1
      then Some (ErrInvalidBatch (Msg ''Max %d is below 1'' [AInt (bs_Max (b_Size b))]))
      else if bs_Wait (b_Size b) \<le> 0
      then Some (ErrInvalidBatch (Msg ''Wait %s is not positive'' [AInt (bs_Wait (b_Size b))]))
      else None)"

definition registerError :: "Subscription \<Rightarrow> err \<Rightarrow> err" where
  "registerError sub e = RegisterError (s_Event sub) (s_Consumer sub) (s_Group sub) e"

definition sharesBatchGroup :: "'s Bus \<Rightarrow> Subscription \<Rightarrow> bool" where
  "sharesBatchGroup b sub \<longleftrightarrow>
     list_ex (\<lambda>held. s_Group held = s_Group sub \<and> (s_Batch sub \<noteq> None \<or> s_Batch held \<noteq> None)) (bus_subs b)"

definition handler_problem :: "Subscription \<Rightarrow> err option" where
  "handler_problem sub =
     (case s_Batch sub of
        Some batch \<Rightarrow> batchProblem sub batch
      | None \<Rightarrow> if s_Handle sub = None then Some ErrNoHandler else None)"

definition Register :: "Subscription \<Rightarrow> 's Bus \<Rightarrow> err option \<times> 's Bus" where
  "Register sub b =
     (let refuse = (\<lambda>e. (Some (registerError sub e), b)); key = (s_Event sub, s_Group sub)
      in if bus_started b then refuse ErrStarted
         else case handler_problem sub of
           Some e \<Rightarrow> refuse e
         | None \<Rightarrow>
             if s_Group sub = [] then refuse ErrNoGroup
             else case CodecFor (Some b) (s_Event sub) of
               Inl e \<Rightarrow> refuse e
             | Inr _ \<Rightarrow>
                 (case requireDispositions b of
                    Some e \<Rightarrow> refuse e
                  | None \<Rightarrow>
                      if s_Batch sub \<noteq> None \<and> (case bus_sub b of Some s \<Rightarrow> \<not> canBatch s | None \<Rightarrow> False)
                      then refuse ErrBatchUnsupported
                      else if key \<in> set (bus_claimed b) then refuse ErrDuplicateSubscription
                      else if sharesBatchGroup b sub then refuse ErrBatchGroupShared
                      else (None, b\<lparr>bus_claimed := key # bus_claimed b, bus_subs := bus_subs b @ [sub]\<rparr>)))"

text \<open>\<open>Use\<close> and \<open>UseBatch\<close> panic after \<open>Start\<close>, which is \<open>None\<close> here.\<close>

definition Use :: "middleware option list \<Rightarrow> 's Bus \<Rightarrow> 's Bus option" where
  "Use mws b = (if bus_started b then None else Some (b\<lparr>bus_chain := Append (bus_chain b) mws\<rparr>))"

definition UseBatch :: "middleware option list \<Rightarrow> 's Bus \<Rightarrow> 's Bus option" where
  "UseBatch mws b = (if bus_started b then None else Some (b\<lparr>bus_batchChain := Append (bus_batchChain b) mws\<rparr>))"

definition sub_key :: "Subscription \<Rightarrow> Group \<times> string \<times> string" where
  "sub_key s = (s_Group s, s_Event s, s_Consumer s)"

definition sortedSubscriptions :: "Subscription list \<Rightarrow> Subscription list" where
  "sortedSubscriptions subs = sort_key sub_key subs"

definition decorate :: "(middleware \<Rightarrow> Subscription \<Rightarrow> Handler \<Rightarrow> Handler) \<Rightarrow> (middleware \<Rightarrow> Subscription \<Rightarrow> BatchHandler \<Rightarrow> BatchHandler)
    \<Rightarrow> Chain \<Rightarrow> Chain \<Rightarrow> Disposition \<Rightarrow> Subscription \<Rightarrow> Subscription" where
  "decorate run runBatch chain batchChain escaped sub =
     (case s_Batch sub of
        Some batch \<Rightarrow>
          sub\<lparr>s_Batch := Some (batch\<lparr>b_Handle :=
            map_option (\<lambda>h. decoratedBatch runBatch batchChain sub batch h escaped) (b_Handle batch)\<rparr>)\<rparr>
      | None \<Rightarrow> sub\<lparr>s_Handle := map_option (\<lambda>h. decorated run chain sub h escaped) (s_Handle sub)\<rparr>)"

definition Start :: "(middleware \<Rightarrow> Subscription \<Rightarrow> Handler \<Rightarrow> Handler) \<Rightarrow> (middleware \<Rightarrow> Subscription \<Rightarrow> BatchHandler \<Rightarrow> BatchHandler)
    \<Rightarrow> 's Bus \<Rightarrow> err option \<times> 's Bus" where
  "Start run runBatch b =
     (if bus_started b then (Some ErrStarted, b)
      else
        let b' = b\<lparr>bus_started := True\<rparr>; subs = sortedSubscriptions (bus_subs b)
        in if subs = [] then (None, b')
           else case bus_sub b of
             None \<Rightarrow> (Some ErrNoSubscriber, b')
           | Some s \<Rightarrow>
               let escaped = (if canDisposition (Some s) DispositionRedeliver then DispositionRedeliver
                     else DispositionUnset)
               in case sb_Subscribe s (map (decorate run runBatch (bus_chain b) (bus_batchChain b) escaped) subs) of
                    Some e \<Rightarrow>
                      (Some (Wrapped (Msg ''events: start %d subscription(s): %w'' [AInt (int (length subs))]) e), b')
                  | None \<Rightarrow> (None, b'))"

section \<open>Plans\<close>

record PlanConsumer =
  pc_Event :: string
  pc_Consumer :: string
  pc_Batch :: "BatchSize option"

record PlanGroup =
  pg_Name :: Group
  pg_Consumers :: "PlanConsumer list"

definition plan_consumer :: "Subscription \<Rightarrow> PlanConsumer" where
  "plan_consumer sub = \<lparr>pc_Event = s_Event sub, pc_Consumer = s_Consumer sub,
     pc_Batch = map_option b_Size (s_Batch sub)\<rparr>"

definition plan_step :: "PlanGroup list \<Rightarrow> Subscription \<Rightarrow> PlanGroup list" where
  "plan_step gs sub =
     (if gs \<noteq> [] \<and> pg_Name (last gs) = s_Group sub
      then butlast gs @ [(last gs)\<lparr>pg_Consumers := pg_Consumers (last gs) @ [plan_consumer sub]\<rparr>]
      else gs @ [\<lparr>pg_Name = s_Group sub, pg_Consumers = [plan_consumer sub]\<rparr>])"

definition Plan :: "'s Bus \<Rightarrow> PlanGroup list" where
  "Plan b = foldl plan_step [] (sortedSubscriptions (bus_subs b))"

definition orderedPlan :: "PlanGroup list \<Rightarrow> PlanGroup list" where
  "orderedPlan gs = sort_key pg_Name
     (map (\<lambda>g. g\<lparr>pg_Consumers := sort_key (\<lambda>c. (pc_Event c, pc_Consumer c)) (pg_Consumers g)\<rparr>) gs)"

section \<open>Typed events\<close>

text \<open>
  An event is its contract and its validation, \<open>None\<close> for nil; \<open>T\<close> is the type of its payload,
  a value of which is an \<open>any\<close> here.
\<close>

record Event =
  ev_contract :: string
  ev_validate :: "(any \<Rightarrow> err option) option"

definition validated :: "Event \<Rightarrow> any \<Rightarrow> err option" where
  "validated e payload =
     (case ev_validate e of
        None \<Rightarrow> None
      | Some f \<Rightarrow> map_option (PayloadError (ev_contract e)) (f payload))"

definition Event_Publish :: "Event \<Rightarrow> 's Bus option \<Rightarrow> err option \<Rightarrow> any option \<Rightarrow> PublishOption option list \<Rightarrow> 's \<Rightarrow> err option \<times> 's" where
  "Event_Publish e bus ctxErr payload opts st =
     (case payload of
        None \<Rightarrow> (Some (PayloadError (ev_contract e) ErrNoPayload), st)
      | Some v \<Rightarrow>
          (case validated e v of
             Some x \<Rightarrow> (Some x, st)
           | None \<Rightarrow> Publish bus ctxErr (ev_contract e) v opts st))"

text \<open>Decoding and validating a delivery; the function of a handler runs on the payload.\<close>

definition payload_of :: "Event \<Rightarrow> 's Bus option \<Rightarrow> Message \<Rightarrow> err + any" where
  "payload_of e bus msg =
     (case Decode bus msg of
        Inl x \<Rightarrow> Inl x
      | Inr v \<Rightarrow> (case validated e v of Some x \<Rightarrow> Inl x | None \<Rightarrow> Inr v))"

definition Event_Handler :: "Event \<Rightarrow> 's Bus option \<Rightarrow> (any \<Rightarrow> outcome) \<Rightarrow> Message \<Rightarrow> outcome" where
  "Event_Handler e bus fn msg =
     (case payload_of e bus msg of Inl x \<Rightarrow> Returned (Some x) | Inr v \<Rightarrow> fn v)"

text \<open>
  \<open>BatchHandler\<close>: the function gets the items whose payload is good, each with its index in the
  batch, and leaves the errors it recorded with \<open>Fail\<close>, by index in the batch; it returns its own.
\<close>

definition batch_errs :: "Event \<Rightarrow> 's Bus option \<Rightarrow> Message list \<Rightarrow> err option list" where
  "batch_errs e bus msgs =
     map (\<lambda>msg. case payload_of e bus msg of Inl x \<Rightarrow> Some x | Inr _ \<Rightarrow> None) msgs"

definition batch_items :: "Event \<Rightarrow> 's Bus option \<Rightarrow> Message list \<Rightarrow> (nat \<times> any) list" where
  "batch_items e bus msgs =
     concat (map (\<lambda>(i, msg). case payload_of e bus msg of Inl _ \<Rightarrow> [] | Inr v \<Rightarrow> [(i, v)]) (enumerate 0 msgs))"

definition Event_BatchHandler :: "Event \<Rightarrow> 's Bus option \<Rightarrow> ((nat \<times> any) list \<Rightarrow> err option list \<Rightarrow> err option \<times> err option list)
    \<Rightarrow> Message list \<Rightarrow> err option" where
  "Event_BatchHandler e bus fn msgs =
     (let errs = batch_errs e bus msgs; items = batch_items e bus msgs
      in if length items > 0
         then (case fn items errs of (x, errs') \<Rightarrow> itemErrors (failItems (map fst items) errs' x))
         else itemErrors errs)"

end
