(* ===== verification/Bus_Spec.thy ===== *)
theory Bus_Spec
  imports Bus Machine "HOL-Library.Multiset"
begin

text \<open>
  What the bus promises: which subscriptions it holds, what its plan says of them, that no panic
  leaves a handler, which messages a failed batch left unsent, and that a payload comes back from
  the wire as it went.
\<close>

section \<open>Registration\<close>

inductive bus_step :: "'s Bus \<Rightarrow> 's Bus \<Rightarrow> bool" where
  Register: "Register sub b = (e, b') \<Longrightarrow> bus_step b b'"
| Use: "Use mws b = Some b' \<Longrightarrow> bus_step b b'"
| UseBatch: "UseBatch mws b = Some b' \<Longrightarrow> bus_step b b'"
| Start: "Start run runBatch b = (e, b') \<Longrightarrow> bus_step b b'"

definition fresh :: "'s Bus \<Rightarrow> bool" where
  "fresh b \<longleftrightarrow> bus_subs b = [] \<and> bus_claimed b = [] \<and> \<not> bus_started b"

definition sub_id :: "Subscription \<Rightarrow> registration" where
  "sub_id s = (s_Event s, s_Group s)"

text \<open>A batch subscription holds its group alone.\<close>

definition alone :: "Subscription list \<Rightarrow> bool" where
  "alone subs \<longleftrightarrow> (\<forall>i < length subs. \<forall>j < length subs.
     i \<noteq> j \<longrightarrow> s_Group (subs ! i) = s_Group (subs ! j) \<longrightarrow> s_Batch (subs ! i) = None)"

definition subs_ok :: "'s Bus \<Rightarrow> bool" where
  "subs_ok b \<longleftrightarrow>
     distinct (map sub_id (bus_subs b)) \<and> alone (bus_subs b) \<and>
     (\<forall>s \<in> set (bus_subs b). handler_problem s = None \<and> s_Group s \<noteq> [] \<and>
        (\<exists>c. CodecFor (Some b) (s_Event s) = Inr c))"

definition bus_inv :: "'s Bus \<Rightarrow> bool" where
  "bus_inv b \<longleftrightarrow> set (bus_claimed b) = sub_id ` set (bus_subs b) \<and> subs_ok b"

lemma alone_append:
  assumes "alone subs" and "\<And>h. h \<in> set subs \<Longrightarrow> s_Group h = s_Group sub \<Longrightarrow> s_Batch sub = None \<and> s_Batch h = None"
  shows "alone (subs @ [sub])"
  using assms(1) assms(2) [OF nth_mem] unfolding alone_def
  by (auto simp: nth_append less_Suc_eq split: if_splits)

lemma CodecFor_fields:
  "bus_codec b' = bus_codec b \<Longrightarrow> bus_perEvent b' = bus_perEvent b \<Longrightarrow>
     CodecFor (Some b') e = CodecFor (Some b) e"
  by (simp add: CodecFor_def split: option.split)

lemma bus_inv_same:
  assumes "bus_inv b" "bus_subs b' = bus_subs b" "bus_claimed b' = bus_claimed b"
    "bus_codec b' = bus_codec b" "bus_perEvent b' = bus_perEvent b"
  shows "bus_inv b'"
  using assms CodecFor_fields [OF assms(4,5)] by (simp add: bus_inv_def subs_ok_def)

text \<open>A registration is refused and changes nothing, or passes every check and is recorded.\<close>

lemma Register_result:
  assumes "Register sub b = (e, b')"
  shows "(\<exists>x. e = Some (registerError sub x)) \<and> b' = b \<or>
    e = None \<and> \<not> bus_started b \<and> handler_problem sub = None \<and> s_Group sub \<noteq> [] \<and>
      (\<exists>c. CodecFor (Some b) (s_Event sub) = Inr c) \<and> requireDispositions b = None \<and>
      sub_id sub \<notin> set (bus_claimed b) \<and> \<not> sharesBatchGroup b sub \<and>
      b' = b\<lparr>bus_claimed := sub_id sub # bus_claimed b, bus_subs := bus_subs b @ [sub]\<rparr>"
proof -
  consider "bus_started b" | x where "\<not> bus_started b" "handler_problem sub = Some x"
    | "\<not> bus_started b" "handler_problem sub = None" "s_Group sub = []"
    | "\<not> bus_started b" "handler_problem sub = None" "s_Group sub \<noteq> []" by fastforce
  then show ?thesis
  proof cases
    case 4
    show ?thesis
    proof (cases "CodecFor (Some b) (s_Event sub)")
      case (Inr c)
      let ?unsupported = "s_Batch sub \<noteq> None \<and> (case bus_sub b of Some s \<Rightarrow> \<not> canBatch s | None \<Rightarrow> False)"
      have "Register sub b = (case requireDispositions b of
          Some e \<Rightarrow> (Some (registerError sub e), b)
        | None \<Rightarrow> if ?unsupported then (Some (registerError sub ErrBatchUnsupported), b)
            else if sub_id sub \<in> set (bus_claimed b) then (Some (registerError sub ErrDuplicateSubscription), b)
            else if sharesBatchGroup b sub then (Some (registerError sub ErrBatchGroupShared), b)
            else (None, b\<lparr>bus_claimed := sub_id sub # bus_claimed b, bus_subs := bus_subs b @ [sub]\<rparr>))"
        unfolding Register_def Let_def sub_id_def using 4 Inr by simp
      then consider x where "Register sub b = (Some (registerError sub x), b)"
        | "requireDispositions b = None" "sub_id sub \<notin> set (bus_claimed b)" "\<not> sharesBatchGroup b sub"
          "Register sub b = (None, b\<lparr>bus_claimed := sub_id sub # bus_claimed b, bus_subs := bus_subs b @ [sub]\<rparr>)"
        by (cases "requireDispositions b"; cases ?unsupported; cases "sub_id sub \<in> set (bus_claimed b)";
            cases "sharesBatchGroup b sub"; simp only: option.case if_True if_False simp_thms; blast)
      then show ?thesis using assms 4 Inr by cases (simp_all only: prod.inject, blast+)
    qed (use assms 4 in \<open>auto simp: Register_def Let_def\<close>)
  qed (use assms in \<open>auto simp: Register_def Let_def\<close>)
qed

lemma bus_inv_Register:
  assumes inv: "bus_inv b" and reg: "Register sub b = (e, b')" shows "bus_inv b'"
proof (cases "b' = b")
  case False
  with Register_result [OF reg] obtain c where ok: "handler_problem sub = None" "s_Group sub \<noteq> []"
    "CodecFor (Some b) (s_Event sub) = Inr c" "sub_id sub \<notin> set (bus_claimed b)"
    "\<not> sharesBatchGroup b sub"
    and b': "b' = b\<lparr>bus_claimed := sub_id sub # bus_claimed b, bus_subs := bus_subs b @ [sub]\<rparr>"
    by blast
  have "alone (bus_subs b @ [sub])"
    using inv ok(5) by (intro alone_append) (auto simp: bus_inv_def subs_ok_def sharesBatchGroup_def list_ex_iff)
  moreover have "CodecFor (Some b') e = CodecFor (Some b) e" for e
    using b' by (intro CodecFor_fields) simp_all
  ultimately show ?thesis using inv ok b' by (auto simp: bus_inv_def subs_ok_def)
qed (use inv in simp)

lemma bus_inv_step: "bus_inv b \<Longrightarrow> bus_step b b' \<Longrightarrow> bus_inv b'"
  by (erule bus_step.cases)
    (auto intro: bus_inv_Register bus_inv_same simp: Use_def UseBatch_def Start_def Let_def
      split: if_splits option.splits)

interpretation bus: invariant_machine fresh bus_step bus_inv
proof (unfold_locales, goal_cases)
  case (1 b)
  then show ?case by (simp add: fresh_def bus_inv_def subs_ok_def alone_def)
next
  case (2 b b')
  then show ?case by (rule bus_inv_step)
qed

section \<open>Plans\<close>

definition plan_entries :: "PlanGroup list \<Rightarrow> (Group \<times> PlanConsumer) list" where
  "plan_entries gs = concat (map (\<lambda>g. map (Pair (pg_Name g)) (pg_Consumers g)) gs)"

lemma plan_entries_append [simp]: "plan_entries (gs @ hs) = plan_entries gs @ plan_entries hs"
  by (simp add: plan_entries_def)

lemma plan_step_entries:
  "plan_entries (plan_step gs sub) = plan_entries gs @ [(s_Group sub, plan_consumer sub)]"
  by (cases gs rule: rev_cases) (auto simp: plan_step_def plan_entries_def)

lemma plan_fold_entries:
  "plan_entries (foldl plan_step gs subs) = plan_entries gs @ map (\<lambda>s. (s_Group s, plan_consumer s)) subs"
  by (induction subs arbitrary: gs) (simp_all add: plan_step_entries)

text \<open>Over subscriptions sorted by group, the group of the last entry opened never comes back.\<close>

lemma plan_step_names:
  assumes "sorted_wrt (<) (map pg_Name gs)" "\<forall>g \<in> set gs. pg_Name g \<le> s_Group sub"
  shows "sorted_wrt (<) (map pg_Name (plan_step gs sub))
    \<and> (\<forall>g \<in> set (plan_step gs sub). pg_Name g \<le> s_Group sub)"
proof (cases gs rule: rev_cases)
  case Nil
  then show ?thesis by (simp add: plan_step_def)
next
  case (snoc hs g)
  then show ?thesis using assms
    by (cases "pg_Name g = s_Group sub") (fastforce simp: plan_step_def sorted_wrt_append)+
qed

lemma plan_fold_names:
  assumes "sorted_wrt (<) (map pg_Name gs)" "sorted (map s_Group subs)"
    "\<forall>g \<in> set gs. \<forall>s \<in> set subs. pg_Name g \<le> s_Group s"
  shows "sorted_wrt (<) (map pg_Name (foldl plan_step gs subs))"
  using assms
proof (induction subs arbitrary: gs)
  case (Cons s subs)
  note step = plan_step_names [of gs s]
  have "sorted_wrt (<) (map pg_Name (plan_step gs s))"
    "\<forall>g \<in> set (plan_step gs s). \<forall>t \<in> set subs. pg_Name g \<le> s_Group t"
    using step Cons.prems by (auto intro: order_trans)
  then show ?case using Cons by simp
qed simp

lemma plan_consumers_not_empty:
  "\<forall>g \<in> set gs. pg_Consumers g \<noteq> [] \<Longrightarrow> \<forall>g \<in> set (foldl plan_step gs subs). pg_Consumers g \<noteq> []"
proof (induction subs arbitrary: gs)
  case (Cons s subs)
  have "\<forall>g \<in> set (plan_step gs s). pg_Consumers g \<noteq> []"
    using Cons.prems by (auto simp: plan_step_def dest: in_set_butlastD)
  then show ?case using Cons by simp
qed simp

lemma sorted_groups: "sorted (map s_Group (sortedSubscriptions subs))"
proof -
  have "sorted (map sub_key (sortedSubscriptions subs))" by (simp add: sortedSubscriptions_def)
  then show ?thesis
    by (simp add: sorted_map sub_key_def less_eq_prod_def sorted_wrt_mono_rel
        [where P = "\<lambda>x y. sub_key x \<le> sub_key y"]) (erule sorted_wrt_mono_rel [rotated], auto)
qed

text \<open>The order \<open>Start\<close> hands subscriptions over in is the only one sorted by their keys.\<close>

lemma sortedSubscriptions_unique:
  assumes "distinct (map sub_id subs)" "mset xs = mset subs" "sorted (map sub_key xs)"
  shows "xs = sortedSubscriptions subs"
proof (rule map_sorted_distinct_set_unique [where f = sub_key])
  have "inj_on sub_id (set subs)" "distinct subs" using assms(1) by (simp_all add: distinct_map)
  then have inj: "inj_on sub_key (set subs)" by (auto simp: inj_on_def sub_id_def sub_key_def)
  have set: "set xs = set subs" "set (sortedSubscriptions subs) = set subs"
    using mset_eq_setD [OF assms(2)] by (simp_all add: sortedSubscriptions_def)
  have d: "distinct xs" "distinct (sortedSubscriptions subs)"
    using \<open>distinct subs\<close> mset_eq_imp_distinct_iff [OF assms(2)] by (simp_all add: sortedSubscriptions_def)
  show "inj_on sub_key (set xs \<union> set (sortedSubscriptions subs))" using inj set by simp
  show "distinct (map sub_key xs)" "distinct (map sub_key (sortedSubscriptions subs))"
    using d inj set by (simp_all add: distinct_map)
  show "set xs = set (sortedSubscriptions subs)" using set by simp
  show "sorted (map sub_key (sortedSubscriptions subs))" by (simp add: sortedSubscriptions_def)
qed (rule assms(3))

section \<open>Chains and panics\<close>

lemma wrap_loop_append:
  "wrap_loop run sub (xs @ ys) h = wrap_loop run sub ys (wrap_loop run sub xs h)"
  by (induction xs arbitrary: h) (simp_all split: option.split)

lemma wrap_foldr: "wrap run c sub h = foldr (\<lambda>mw k. case mw of None \<Rightarrow> k | Some m \<Rightarrow> run m sub k) c h"
  by (induction c) (simp_all add: wrap_def wrap_loop_append split: option.split)

lemma recoverHandler_returns: "\<exists>e m. recoverHandler sub h escaped msg = (Returned e, m)"
  by (cases "h msg"; cases "fst (h msg)") (auto simp: recoverHandler_def)

lemma recoverBatch_returns: "\<exists>e ms. recoverBatch sub h escaped batch = (Returned e, ms)"
  by (cases "h batch"; cases "fst (h batch)") (auto simp: recoverBatch_def)

lemma decorated_returns: "\<exists>e m. decorated run c sub h escaped msg = (Returned e, m)"
  by (simp add: decorated_def Let_def recoverHandler_returns)

lemma decoratedBatch_returns: "\<exists>e ms. decoratedBatch run c sub b h escaped batch = (Returned e, ms)"
  by (simp add: decoratedBatch_def Let_def recoverBatch_returns)

section \<open>Unsent messages\<close>

lemma sort_upt [simp]: "sort (map int [i..<n]) = map int [i..<n]"
  by (rule sort_key_id_if_sorted) (simp add: sorted_map sorted_wrt_upt sorted_wrt_mono_rel [of _ "(<)"])

lemma UnsentFrom_eq:
  "i < length msgs \<Longrightarrow>
     UnsentFrom i msgs e = PartialPublishError (int i) (map int [i..<length msgs]) (m_Event (msgs ! i)) e"
  unfolding UnsentFrom_def UnsentAt_def Let_def sort_upt by (simp add: upt_conv_Cons)

lemma validate_loop_None:
  "validate_loop prev is n = None \<Longrightarrow> - 1 \<le> prev \<Longrightarrow>
     sorted_wrt (<) (prev # is) \<and> set is \<subseteq> {0..<n}"
proof (induction prev "is" n rule: validate_loop.induct)
  case (2 prev i "is" n)
  then show ?case by (auto split: if_splits)
qed simp

lemma set_sent_partial:
  "as_partial e = Some (n, unsent, ev, c) \<Longrightarrow> as_partial (set_sent k e) = Some (k, unsent, ev, c)"
  "as_partial_list es = Some (n, unsent, ev, c) \<Longrightarrow> as_partial_list (set_sent_list k es) = Some (k, unsent, ev, c)"
  by (induction e and es rule: as_partial_as_partial_list.induct) (auto split: option.splits)

section \<open>Reserved metadata\<close>

lemma MetaCodec_reserved: "IsReservedMeta MetaCodec"
  by (simp add: IsReservedMeta_def EqualFold_def)

lemma encode_fields:
  assumes "encode b env = Inr msg"
  obtains codec data where "CodecFor (Some b) (e_Event env) = Inr codec"
    "c_Marshal codec (e_Payload env) = Inr data" "m_Event msg = e_Event env" "m_Payload msg = data"
    "m_Key msg = e_Key env" "m_DedupID msg = e_DedupID env" "m_AdapterOptions msg = e_AdapterOptions env"
    "m_Metadata msg = AList.update MetaCodec (c_Name codec)
       (filter (\<lambda>(k, v). \<not> IsReservedMeta k) (e_Metadata env))"
  using assms by (auto simp: encode_def split: option.splits sum.splits)

lemma map_of_filter_key: "map_of (filter (\<lambda>(k, v). P k) xs) k = (if P k then map_of xs k else None)"
  by (induction xs) auto

section \<open>Publishing one at a time\<close>

text \<open>
  A transport of any state, with the messages it has accepted: a publish succeeds and adds the
  message, or fails and adds nothing.
\<close>

definition accepting :: "'s Publisher \<Rightarrow> ('s \<Rightarrow> Message list) \<Rightarrow> bool" where
  "accepting pub accepted \<longleftrightarrow> p_PublishBatch pub = None \<and>
     (\<forall>msg st e st'. p_Publish pub msg st = (e, st') \<longrightarrow>
        accepted st' = (if e = None then accepted st @ [msg] else accepted st))"

lemma publish_loop_accepting:
  assumes "accepting pub accepted" "publish_loop pub msgs i st = (r, st')" "i \<le> length msgs"
  shows "(r = None \<and> accepted st' = accepted st @ drop i msgs) \<or>
    (\<exists>n e. i \<le> n \<and> n < length msgs \<and> r = Some (UnsentFrom n msgs e)
       \<and> accepted st' = accepted st @ take (n - i) (drop i msgs))"
  using assms(2,3)
proof (induction "length msgs - i" arbitrary: i st)
  case 0
  then show ?case by (simp add: publish_loop.simps [of pub msgs i])
next
  case (Suc k)
  then have i: "i < length msgs" "k = length msgs - Suc i" by linarith+
  then have drop: "drop i msgs = msgs ! i # drop (Suc i) msgs" by (simp add: Cons_nth_drop_Suc)
  obtain e st1 where p: "p_Publish pub (msgs ! i) st = (e, st1)" by fastforce
  then have acc: "accepted st1 = (if e = None then accepted st @ [msgs ! i] else accepted st)"
    using assms(1) by (simp add: accepting_def)
  show ?case
  proof (cases e)
    case None
    then have "publish_loop pub msgs (Suc i) st1 = (r, st')"
      using Suc.prems(1) i p by (simp add: publish_loop.simps [of pub msgs i])
    from Suc.hyps(1) [OF i(2) this] i acc None consider "r = None" "accepted st' = accepted st @ drop i msgs"
      | n x where "Suc i \<le> n" "n < length msgs" "r = Some (UnsentFrom n msgs x)"
        "accepted st' = (accepted st @ [msgs ! i]) @ take (n - Suc i) (drop (Suc i) msgs)"
      by (auto simp: drop)
    then show ?thesis
    proof cases
      case (2 n x)
      have "n - i = Suc (n - Suc i)" using 2(1) by simp
      then show ?thesis using 2 by (intro disjI2 exI [of _ n] exI [of _ x]) (simp add: drop)
    qed blast
  next
    case (Some x)
    then have "r = Some (UnsentFrom i msgs x)" "st' = st1"
      using Suc.prems(1) i p by (simp_all add: publish_loop.simps [of pub msgs i])
    then show ?thesis using i acc Some by (intro disjI2 exI [of _ i] exI [of _ x]) simp
  qed
qed

lemma encode_all_length: "encode_all b i envs = Inr msgs \<Longrightarrow> length msgs = length envs"
  by (induction b i envs arbitrary: msgs rule: encode_all.induct) (auto split: if_splits sum.splits)

lemma encode_all_drop:
  "encode_all b i envs = Inr msgs \<Longrightarrow> encode_all b j (drop n envs) = Inr (drop n msgs)"
proof (induction b i envs arbitrary: msgs j n rule: encode_all.induct)
  case (2 b i env envs)
  then obtain msg ms where ms: "encode b (withDefaults b env) = Inr msg" "encode_all b (i + 1) envs = Inr ms"
    "msgs = msg # ms" "e_Event env \<noteq> []"
    by (auto split: if_splits sum.splits)
  show ?case
  proof (cases n)
    case 0
    then show ?thesis using ms 2(1) [OF ms(4,1,2), of "j + 1" 0] by simp
  next
    case (Suc k)
    then show ?thesis using ms 2(1) [OF ms(4,1,2), of j k] by simp
  qed
qed simp

text \<open>An error of \<open>encode_all\<close> is an \<open>EnvelopeError\<close>, so it is not taken for a partial report.\<close>

lemma encode_all_error: "encode_all b i envs = Inl e \<Longrightarrow> \<exists>k ev x. e = EnvelopeError k ev x"
  by (induction b i envs rule: encode_all.induct) (auto split: if_splits sum.splits)

lemma PublishAll_accepting:
  assumes "bus_pub b = Some pub" "accepting pub accepted" "PublishAll (Some b) None envs st = (r, st')"
  shows "(\<exists>msgs. encode_all b 0 envs = Inr msgs \<and>
      (r = None \<and> accepted st' = accepted st @ msgs \<or>
       (\<exists>n e. n < length msgs \<and> r = Some (UnsentFrom n msgs e) \<and> accepted st' = accepted st @ take n msgs))) \<or>
    (\<exists>k ev x. r = Some (EnvelopeError k ev x)) \<and> st' = st"
proof (cases "envs = []")
  case True
  then show ?thesis using assms(3) by (auto simp: PublishAll_def)
next
  case False
  show ?thesis
  proof (cases "encode_all b 0 envs")
    case (Inl e)
    then show ?thesis using False assms encode_all_error [OF Inl] by (auto simp: PublishAll_def)
  next
    case (Inr msgs)
    then have "publish_loop pub msgs 0 st = (r, st')"
      using False assms by (simp add: PublishAll_def accepting_def)
    from publish_loop_accepting [OF assms(2) this] Inr show ?thesis by auto
  qed
qed

section \<open>Batch handlers\<close>

lemma set_if_nil_keeps:
  "length (set_if_nil es i e) = length es" "es ! j = Some x \<Longrightarrow> set_if_nil es i e ! j = Some x"
  by (cases "i = j"; auto simp: set_if_nil_def)+

lemma foldl_set_keeps:
  assumes "\<And>es p j x. es ! j = Some x \<Longrightarrow> f es p ! j = Some x"
  shows "es ! j = Some x \<Longrightarrow> foldl f es ps ! j = Some x"
  using assms by (induction ps arbitrary: es) auto

lemma failItems_keeps:
  assumes "errs ! j = Some x" shows "failItems items errs e ! j = Some x"
  using assms
  by (auto simp: failItems_def set_if_nil_keeps split: option.split prod.split
      intro!: foldl_set_keeps)

lemma foldl_same_length:
  "(\<And>es p. length (f es p) = length es) \<Longrightarrow> length (foldl f es ps) = length es"
  by (induction ps arbitrary: es) auto

lemma length_failItems: "length (failItems items errs e) = length errs"
  by (auto simp: failItems_def set_if_nil_keeps split: option.split prod.split
      intro!: foldl_same_length)

lemma itemErrors_names:
  assumes "i < length errs" "errs ! i = Some x"
  shows "\<exists>es. itemErrors errs = Some (ItemErrors es) \<and> (int i, Some x) \<in> set es"
proof -
  have "(i, Some x) \<in> set (enumerate 0 errs)" using assms by (auto simp: in_set_enumerate_eq)
  then have "(int i, Some x) \<in> set (concat (map (\<lambda>(i, e). case e of None \<Rightarrow> [] | Some x \<Rightarrow> [(int i, Some x)])
      (enumerate 0 errs)))" by force
  moreover then have "concat (map (\<lambda>(i, e). case e of None \<Rightarrow> [] | Some x \<Rightarrow> [(int i, Some x)])
      (enumerate 0 errs)) \<noteq> []" by (metis empty_iff empty_set)
  ultimately show ?thesis unfolding itemErrors_def Let_def by (simp only: if_False) blast
qed

section \<open>Instances\<close>

definition demo_codec :: codec where
  "demo_codec = \<lparr>c_Name = ''unary'', c_Marshal = (\<lambda>v. Inr (replicate v (CHR ''x''))),
     c_Unmarshal = (\<lambda>d. Inr (length d))\<rparr>"

text \<open>A transport that accepts two messages and refuses every other.\<close>

definition demo_pub :: "Message list Publisher" where
  "demo_pub = \<lparr>p_Publish = (\<lambda>msg st. if length st < 2 then (None, st @ [msg]) else (Some (Foreign 1), st)),
     p_PublishBatch = None, p_OptionAware = Some (''memory'', []), p_TypeName = ''*memory.Transport''\<rparr>"

definition demo_bus :: "Message list Bus" where
  "demo_bus = NewBus [WithPublisher (Some demo_pub), WithCodec (Some demo_codec)]"

definition demo_env :: Envelope where
  "demo_env = \<lparr>e_Event = ''orders.created'', e_Key = ''k'', e_DedupID = [], e_Payload = 3,
     e_Metadata = [(''trace'', ''t1''), (''Craftgo-x'', ''y'')], e_AdapterOptions = []\<rparr>"

definition demo_subscription :: Subscription where
  "demo_subscription = \<lparr>s_Event = ''orders.created'', s_Consumer = ''mail'', s_Group = ''mailers'',
     s_Chain = [], s_Handle = Some (\<lambda>msg. (Panicked 7, msg)), s_Batch = None\<rparr>"

definition demo_message :: Message where
  "demo_message = \<lparr>m_Event = [], m_Key = [], m_DedupID = [], m_Payload = [], m_Metadata = [],
     m_AdapterOptions = [], m_disposition = DispositionSettle, m_deliveries = 0\<rparr>"

lemmas demo_defs = demo_codec_def demo_pub_def demo_bus_def demo_env_def demo_subscription_def
  NewBus_def WithPublisher_def WithCodec_def zero_Bus_def

lemma demo_registered:
  "fresh demo_bus" "bus_step\<^sup>*\<^sup>* demo_bus (snd (Register demo_subscription demo_bus))"
  "bus_subs (snd (Register demo_subscription demo_bus)) = [demo_subscription]"
proof -
  show "fresh demo_bus" by (simp add: fresh_def demo_defs)
  show "bus_step\<^sup>*\<^sup>* demo_bus (snd (Register demo_subscription demo_bus))"
    using bus_step.Register [of demo_subscription demo_bus] by (metis prod.collapse r_into_rtranclp)
  show "bus_subs (snd (Register demo_subscription demo_bus)) = [demo_subscription]"
    by (simp add: Register_def handler_problem_def CodecFor_def requireDispositions_def
        sharesBatchGroup_def demo_defs)
qed

lemma demo_encode:
  "encode demo_bus demo_env = Inr \<lparr>m_Event = ''orders.created'', m_Key = ''k'', m_DedupID = [],
     m_Payload = ''xxx'', m_Metadata = [(''trace'', ''t1''), (MetaCodec, ''unary'')], m_AdapterOptions = [],
     m_disposition = DispositionUnset, m_deliveries = 0\<rparr>"
proof -
  have "IsReservedMeta ''Craftgo-x''" "\<not> IsReservedMeta ''trace''" "MetaCodec \<noteq> ''trace''" by code_simp+
  then show ?thesis
    by (simp add: encode_def checkAdapterOptions_def CodecFor_def demo_defs numeral_3_eq_3)
qed

section \<open>Properties\<close>

text \<open>
  C38. Whatever calls to \<open>Register\<close>, \<open>Use\<close>, \<open>UseBatch\<close> and \<open>Start\<close> a bus has seen, the
  subscriptions it holds are well formed: no two share a contract and a group, a batch
  subscription holds its group alone, and each has a handler, a group, valid batch bounds and a
  codec.
\<close>

theorem registered_subscriptions:
  assumes "fresh b0" and "bus_step\<^sup>*\<^sup>* b0 b"
  shows "distinct (map sub_id (bus_subs b)) \<and> alone (bus_subs b) \<and>
    (\<forall>s \<in> set (bus_subs b). handler_problem s = None \<and> s_Group s \<noteq> [] \<and>
       (\<exists>c. CodecFor (Some b) (s_Event s) = Inr c))"
  using bus.inv_reachable [OF assms] unfolding bus_inv_def subs_ok_def by blast

theorem registered_subscriptions_witness:
  "bus_subs (snd (Register demo_subscription demo_bus)) = [demo_subscription] \<and>
   alone (bus_subs (snd (Register demo_subscription demo_bus)))"
  using registered_subscriptions [OF demo_registered(1,2)] demo_registered(3) by blast

text \<open>
  A registration that is refused leaves the bus as it was, and one that is not refused is
  recorded once, at the end.
\<close>

theorem register_all_or_nothing:
  "case Register sub b of (e, b') \<Rightarrow>
     if e = None then bus_subs b' = bus_subs b @ [sub] \<and> \<not> bus_started b else b' = b"
proof -
  obtain e b' where r: "Register sub b = (e, b')" by fastforce
  from Register_result [OF r] show ?thesis unfolding r by auto
qed

text \<open>
  The plan of a bus names every registered subscription, once and with its group and batch
  bounds, in the order \<open>Start\<close> hands them over; its groups are in ascending order, each named
  once and none empty.
\<close>

theorem plan_lists_subscriptions:
  "plan_entries (Plan b) = map (\<lambda>s. (s_Group s, plan_consumer s)) (sortedSubscriptions (bus_subs b)) \<and>
   sorted_wrt (<) (map pg_Name (Plan b)) \<and> list_all (\<lambda>g. pg_Consumers g \<noteq> []) (Plan b)"
  using plan_fold_entries [of "[]"] plan_fold_names [of "[]"] sorted_groups plan_consumers_not_empty [of "[]"]
  by (auto simp: Plan_def plan_entries_def list_all_iff)

text \<open>
  The order subscriptions are handed to the transport in does not depend on the sorting
  algorithm: for subscriptions a bus can hold, there is only one order sorted by group, contract
  and consumer.
\<close>

theorem start_order_unique:
  assumes "fresh b0" and "bus_step\<^sup>*\<^sup>* b0 b" and "mset xs = mset (bus_subs b)" and "sorted (map sub_key xs)"
  shows "xs = sortedSubscriptions (bus_subs b)"
  using sortedSubscriptions_unique [OF _ assms(3,4)] bus.inv_reachable [OF assms(1,2)]
  unfolding bus_inv_def subs_ok_def by blast

theorem start_order_unique_witness:
  "[demo_subscription] = sortedSubscriptions (bus_subs (snd (Register demo_subscription demo_bus)))"
  using start_order_unique [OF demo_registered(1,2), of "[demo_subscription]"] demo_registered(3) by simp

text \<open>
  A chain runs outermost first: its first entry gets the rest of the chain around the handler,
  a nil entry is skipped, and appending to a chain wraps inside it.
\<close>

theorem chain_order:
  "wrap run [] sub h = h \<and> wrap run (None # c) sub h = wrap run c sub h \<and>
   wrap run (Some m # c) sub h = run m sub (wrap run c sub h) \<and>
   wrap run (Append c d) sub h = wrap run c sub (wrap run d sub h)"
  by (simp add: wrap_foldr Append_def)

text \<open>
  No panic leaves a subscription's handler as \<open>Start\<close> wraps it, whatever the handler and the
  middlewares do. A panic that escapes the chain becomes a \<open>PanicError\<close> naming the subscription,
  and the message asks for what \<open>Start\<close> chose, undoing what the chain had asked for.
\<close>

theorem panics_contained:
  "(\<exists>e m. decorated run c sub h escaped msg = (Returned e, m)) \<and>
   (\<exists>e ms. decoratedBatch runb c sub b hb escaped batch = (Returned e, ms)) \<and>
   (Append c (s_Chain sub) \<noteq> [] \<and>
    wrap run (Append c (s_Chain sub)) sub (recoverHandler sub h DispositionUnset) msg = (Panicked r, Some m')
    \<longrightarrow> decorated run c sub h escaped msg
        = (Returned (Some (PanicError (s_Event sub) (s_Consumer sub) (s_Group sub) r)),
           Some (m'\<lparr>m_disposition := escaped\<rparr>)))"
  using decorated_returns decoratedBatch_returns
  by (auto simp: decorated_def Let_def recoverHandler_def newPanicError_def)

theorem panics_contained_witness:
  "decorated (\<lambda>_ _ _ msg. (Panicked 9, msg)) [Some 1] demo_subscription (\<lambda>msg. (Returned None, msg))
     DispositionRedeliver (Some demo_message)
   = (Returned (Some (PanicError ''orders.created'' ''mail'' ''mailers'' 9)),
      Some (demo_message\<lparr>m_disposition := DispositionRedeliver\<rparr>))"
  using panics_contained [where run = "\<lambda>_ _ _ msg. (Panicked 9, msg)" and c = "[Some 1]" and sub = demo_subscription
      and h = "\<lambda>msg. (Returned None, msg)" and escaped = DispositionRedeliver and msg = "Some demo_message"
      and r = 9 and m' = demo_message]
  by (simp add: demo_subscription_def Append_def wrap_def)

text \<open>
  A partial publish the bus reports can be true: it names at least one envelope, in strictly
  ascending order and all within the batch, and \<open>Sent\<close> is the first of them, whatever the
  transport reported.
\<close>

theorem partial_report_valid:
  assumes "checkedBatch pub err' msgs = Some e" and "as_partial e = Some (sent, unsent, ev, cause)" and "msgs \<noteq> []"
  shows "unsent \<noteq> [] \<and> sent = hd unsent \<and> sorted_wrt (<) unsent \<and> set unsent \<subseteq> {0..<int (length msgs)}"
proof -
  obtain x where x: "err' = Some x" using assms(1) by (auto simp: checkedBatch_def split: option.splits)
  obtain n un ev' c where p: "as_partial x = Some (n, un, ev', c)"
    using assms(1,2) x by (cases "as_partial x") (auto simp: checkedBatch_def)
  show ?thesis
  proof (cases "validateUnsent un (int (length msgs))")
    case None
    then have "e = set_sent (hd un) x" using assms(1) x p by (simp add: checkedBatch_def)
    then have u: "unsent = un" "sent = hd un" using set_sent_partial(1) [OF p] assms(2) by auto
    have "un \<noteq> []" "validate_loop (- 1) un (int (length msgs)) = None"
      using None by (auto simp: validateUnsent_def split: if_splits)
    with validate_loop_None [of "- 1" un] u show ?thesis by auto
  next
    case (Some bad)
    then obtain y where "e = UnsentFrom 0 msgs y" using assms(1) x p by (auto simp: checkedBatch_def)
    then have "sent = 0" "unsent = map int [0..<length msgs]" using assms(2,3) by (simp_all add: UnsentFrom_eq)
    then show ?thesis using assms(3)
      by (auto simp: hd_map sorted_wrt_map hd_upt intro: sorted_wrt_mono_rel [OF _ sorted_wrt_upt])
  qed
qed

theorem partial_report_valid_witness:
  "\<exists>e. checkedBatch demo_pub (Some (PartialPublishError 5 [1, 0] [] (Foreign 1))) [demo_message, demo_message] = Some e
     \<and> as_partial e = Some (0, [0, 1], [], Wrapped (Msg
         ''events: transport %s reported an impossible partial publish (%s); treating the whole batch as unsent: %w''
         [AStr ''memory'', AErr (Msg ''index %d does not follow %d, so the list is not ascending'' [AInt 0, AInt 1])])
         (Foreign 1))
     \<and> (0::int) = hd [0, 1]"
proof -
  let ?r = "checkedBatch demo_pub (Some (PartialPublishError 5 [1, 0] [] (Foreign 1))) [demo_message, demo_message]"
  have "\<exists>e. ?r = Some e \<and> as_partial e = Some (0, [0, 1], [], Wrapped (Msg
         ''events: transport %s reported an impossible partial publish (%s); treating the whole batch as unsent: %w''
         [AStr ''memory'', AErr (Msg ''index %d does not follow %d, so the list is not ascending'' [AInt 0, AInt 1])])
         (Foreign 1))"
    by (simp add: checkedBatch_def validateUnsent_def UnsentFrom_eq adapterLabel_def demo_pub_def demo_message_def
        upt_rec)
  then show ?thesis using partial_report_valid [of demo_pub _ "[demo_message, demo_message]"] by blast
qed

text \<open>
  C39. On a transport without batches that accepts or refuses each message, a batch that stops
  partway reports exactly the messages that did not go out, and publishing exactly those again
  sends each message of the batch once, in order.
\<close>

theorem resend_unsent:
  assumes "bus_pub b = Some pub" and "accepting pub accepted"
    and "PublishAll (Some b) None envs st = (Some (PartialPublishError sent unsent ev e), st1)"
    and "PublishAll (Some b) None (map (\<lambda>i. envs ! nat i) unsent) st1 = (None, st2)"
  shows "\<exists>msgs. encode_all b 0 envs = Inr msgs \<and> unsent = map int [nat sent..<length envs] \<and>
    accepted st1 = accepted st @ take (nat sent) msgs \<and> accepted st2 = accepted st @ msgs"
proof -
  from PublishAll_accepting [OF assms(1,2,3)] obtain msgs n x where
    n: "encode_all b 0 envs = Inr msgs" "n < length msgs" "accepted st1 = accepted st @ take n msgs"
    "PartialPublishError sent unsent ev e = UnsentFrom n msgs x" by auto
  have len: "length msgs = length envs" using encode_all_length [OF n(1)] .
  have u: "sent = int n" "unsent = map int [n..<length envs]"
    using n(4) len UnsentFrom_eq [OF n(2), of x] by simp_all
  have envs: "map (\<lambda>i. envs ! nat i) unsent = drop n envs"
    unfolding u by (rule nth_equalityI) (simp_all flip: of_nat_add)
  have "encode_all b 0 (drop n envs) = Inr (drop n msgs)" using encode_all_drop [OF n(1)] .
  then have "accepted st2 = accepted st1 @ drop n msgs"
    using PublishAll_accepting [OF assms(1,2) assms(4) [unfolded envs]] by auto
  then show ?thesis using n(1,3) u by auto
qed

text \<open>A transport that refuses its second attempt.\<close>

definition demo_flaky :: "(Message list \<times> nat) Publisher" where
  "demo_flaky = \<lparr>p_Publish = (\<lambda>msg (ms, n). if n = 1 then (Some (Foreign 1), (ms, n + 1)) else (None, (ms @ [msg], n + 1))),
     p_PublishBatch = None, p_OptionAware = None, p_TypeName = ''demo''\<rparr>"

definition demo_flaky_bus :: "(Message list \<times> nat) Bus" where
  "demo_flaky_bus = NewBus [WithPublisher (Some demo_flaky), WithCodec (Some demo_codec)]"

lemma demo_flaky_accepting: "accepting demo_flaky fst"
  by (auto simp: accepting_def demo_flaky_def split: if_splits)

lemma demo_flaky_encode: "encode demo_flaky_bus demo_env = encode demo_bus demo_env"
  by (simp add: encode_def checkAdapterOptions_def CodecFor_def demo_flaky_bus_def demo_defs)

theorem resend_unsent_witness:
  "\<exists>msgs st2. PublishAll (Some demo_flaky_bus) None [demo_env, demo_env]
       (snd (PublishAll (Some demo_flaky_bus) None [demo_env, demo_env, demo_env] ([], 0))) = (None, st2) \<and>
     encode_all demo_flaky_bus 0 [demo_env, demo_env, demo_env] = Inr msgs \<and> fst st2 = msgs"
proof -
  obtain msg where msg: "encode demo_flaky_bus demo_env = Inr msg"
    "withDefaults demo_flaky_bus demo_env = demo_env" "e_Event demo_env \<noteq> []"
    using demo_encode demo_flaky_encode by (simp add: withDefaults_def demo_flaky_bus_def demo_defs)
  have enc: "encode_all demo_flaky_bus i (replicate k demo_env) = Inr (replicate k msg)" for i k
    by (induction k arbitrary: i) (simp_all add: msg)
  have pub: "bus_pub demo_flaky_bus = Some demo_flaky" by (simp add: demo_flaky_bus_def demo_defs)
  let ?envs = "replicate 3 demo_env"
  have 1: "PublishAll (Some demo_flaky_bus) None ?envs ([], 0)
      = (Some (PartialPublishError 1 [1, 2] (m_Event msg) (Foreign 1)), ([msg], 2))"
    using enc [of 0 3] pub
    by (simp add: PublishAll_def publish_loop.simps demo_flaky_def UnsentFrom_eq numeral_3_eq_3 upt_rec)
  have 2: "PublishAll (Some demo_flaky_bus) None (map (\<lambda>i. ?envs ! nat i) [1, 2]) ([msg], 2) = (None, ([msg, msg, msg], 4))"
    using enc [of 0 2] pub
    by (simp add: PublishAll_def publish_loop.simps demo_flaky_def numeral_3_eq_3 numeral_2_eq_2)
  from resend_unsent [OF pub demo_flaky_accepting 1 2] 1 2 show ?thesis
    by (auto simp: numeral_3_eq_3)
qed

text \<open>
  C40. A payload comes back as it went: with a codec that decodes what it encodes, decoding the
  message a bus made of an envelope gives the envelope's payload.
\<close>

theorem encode_decode:
  assumes "CodecFor (Some b) (e_Event env) = Inr codec"
    and "\<And>v data. c_Marshal codec v = Inr data \<Longrightarrow> c_Unmarshal codec data = Inr v"
    and "encode b env = Inr msg"
  shows "Decode (Some b) msg = Inr (e_Payload env)"
proof (rule encode_fields [OF assms(3)])
  fix c data assume c: "CodecFor (Some b) (e_Event env) = Inr c" "c_Marshal c (e_Payload env) = Inr data"
    "m_Event msg = e_Event env" "m_Payload msg = data"
    "m_Metadata msg = AList.update MetaCodec (c_Name c) (filter (\<lambda>(k, v). \<not> IsReservedMeta k) (e_Metadata env))"
  then have "c = codec" "meta_get (m_Metadata msg) MetaCodec = c_Name codec"
    using assms(1) by (simp_all add: meta_get_def update_conv)
  then show ?thesis using c assms(2) by (simp add: Decode_def)
qed

theorem encode_decode_witness:
  "\<exists>msg. encode demo_bus demo_env = Inr msg \<and> Decode (Some demo_bus) msg = Inr 3"
proof -
  have "CodecFor (Some demo_bus) (e_Event demo_env) = Inr demo_codec"
    by (simp add: CodecFor_def demo_defs)
  moreover have "\<And>v data. c_Marshal demo_codec v = Inr data \<Longrightarrow> c_Unmarshal demo_codec data = Inr v"
    by (auto simp: demo_codec_def)
  ultimately have "Decode (Some demo_bus) msg = Inr (e_Payload demo_env)" if "encode demo_bus demo_env = Inr msg" for msg
    using encode_decode [of demo_bus demo_env demo_codec msg] that by blast
  then show ?thesis using demo_encode by (auto simp: demo_env_def)
qed

text \<open>
  The metadata of a message on the wire: the codec's name under \<open>content-codec\<close>, no other
  reserved key in any case, and every other key of the envelope with its value.
\<close>

theorem encode_metadata:
  assumes "encode b env = Inr msg" and "CodecFor (Some b) (e_Event env) = Inr codec"
  shows "map_of (m_Metadata msg) k
    = (if k = MetaCodec then Some (c_Name codec) else if IsReservedMeta k then None
       else map_of (e_Metadata env) k)"
proof (rule encode_fields [OF assms(1)])
  fix c assume c: "CodecFor (Some b) (e_Event env) = Inr c"
    "m_Metadata msg = AList.update MetaCodec (c_Name c) (filter (\<lambda>(k, v). \<not> IsReservedMeta k) (e_Metadata env))"
  then have "c = codec" using assms(2) by simp
  then show ?thesis using c(2) by (simp add: update_conv map_of_filter_key [of "\<lambda>k. \<not> IsReservedMeta k"])
qed

theorem encode_metadata_witness:
  "\<exists>msg. encode demo_bus demo_env = Inr msg \<and> map_of (m_Metadata msg) ''Craftgo-x'' = None
     \<and> map_of (m_Metadata msg) ''trace'' = Some ''t1''"
proof -
  have codec: "CodecFor (Some demo_bus) (e_Event demo_env) = Inr demo_codec"
    by (simp add: CodecFor_def demo_defs)
  obtain msg where msg: "encode demo_bus demo_env = Inr msg" using demo_encode by blast
  have "IsReservedMeta ''Craftgo-x''" "\<not> IsReservedMeta ''trace''" "MetaCodec \<noteq> ''trace''" "MetaCodec \<noteq> ''Craftgo-x''"
    by code_simp+
  then show ?thesis
    using msg encode_metadata [OF msg codec, of "''Craftgo-x''"] encode_metadata [OF msg codec, of "''trace''"]
    by (auto simp: demo_env_def)
qed

text \<open>
  In a batch, a message whose payload does not decode or validate fails with its own error,
  by its index in the whole batch, whatever the function does with the others and returns for
  them.
\<close>

theorem batch_failures_kept:
  assumes "i < length msgs" and "payload_of e bus (msgs ! i) = Inl x"
    and "\<And>items errs. length (snd (fn items errs)) = length errs"
    and "\<And>items errs j. j \<notin> set (map fst items) \<Longrightarrow> snd (fn items errs) ! j = errs ! j"
  shows "\<exists>es. Event_BatchHandler e bus fn msgs = Some (ItemErrors es) \<and> (int i, Some x) \<in> set es"
proof -
  let ?errs = "batch_errs e bus msgs" and ?items = "batch_items e bus msgs"
  have i: "?errs ! i = Some x" "i < length ?errs" using assms(1,2) by (simp_all add: batch_errs_def)
  have "i \<notin> set (map fst ?items)"
    using assms(1,2) by (auto simp: batch_items_def in_set_enumerate_eq split: sum.splits)
  then have keep: "snd (fn ?items ?errs) ! i = Some x" "i < length (snd (fn ?items ?errs))"
    using assms(3,4) i by simp_all
  show ?thesis
  proof (cases "length ?items > 0")
    case True
    obtain y errs' where fn: "fn ?items ?errs = (y, errs')" by fastforce
    have "failItems (map fst ?items) errs' y ! i = Some x" "i < length (failItems (map fst ?items) errs' y)"
      using keep fn failItems_keeps length_failItems by simp_all
    then show ?thesis using itemErrors_names True fn by (simp add: Event_BatchHandler_def Let_def)
  next
    case False
    then show ?thesis using itemErrors_names i by (simp add: Event_BatchHandler_def Let_def)
  qed
qed

definition demo_event :: Event where
  "demo_event = \<lparr>ev_contract = ''orders.created'', ev_validate = Some (\<lambda>v. if v = 0 then Some (Foreign 5) else None)\<rparr>"

theorem batch_failures_kept_witness:
  "\<exists>es. Event_BatchHandler demo_event (Some demo_bus) (\<lambda>items errs. (Some (Foreign 2), errs))
     [demo_message\<lparr>m_Payload := ''x''\<rparr>, demo_message] = Some (ItemErrors es)
     \<and> (1, Some (PayloadError ''orders.created'' (Foreign 5))) \<in> set es"
proof -
  have "payload_of demo_event (Some demo_bus) demo_message = Inl (PayloadError ''orders.created'' (Foreign 5))"
    by (simp add: payload_of_def Decode_def CodecFor_def demo_message_def demo_event_def validated_def
        meta_get_def demo_defs)
  then show ?thesis
    using batch_failures_kept [of 1 "[demo_message\<lparr>m_Payload := ''x''\<rparr>, demo_message]" demo_event "Some demo_bus"
        "PayloadError ''orders.created'' (Foreign 5)" "\<lambda>items errs. (Some (Foreign 2), errs)"] by simp
qed

end
