(* ===== verification/Spec2Isabelle.thy ===== *)
theory Spec2Isabelle
  imports Lexer_Spec Parser_Spec Route Mixins_Spec Instances Analysis_Spec Routes_Spec Memory_Round Bus_Spec
begin

text \<open>
  craftgo reads a design written in a small language, analyses it and generates Go services and
  OpenAPI documents; the generated code runs on the packages under \<^verbatim>\<open>src/pkg\<close>. This library models
  the front end of the compiler, \<^verbatim>\<open>src/internal\<close>, from source bytes to the flattened fields the
  generators read, and the event runtime, \<^verbatim>\<open>src/pkg/events\<close>, with its in-process transport.

  \<^bold>\<open>How the parts meet.\<close> The lexer turns a source into tokens and diagnostics; the parser turns the
  tokens into a syntax tree, with the lexer's diagnostics first and its own after them. The
  semantic analysis groups the files of a design by package, fills the symbol tables of each
  package, resolves references through them and checks the whole project: type references, mixins,
  cycles between packages and between generic instances, decorators and the bounds they put on
  values, the names and files of the generated code, bindings, routes, operation ids and events.
  \<open>AnalyzeProject\<close> runs every check and sorts what they report. Flattening expands the mixins of a
  type. Routes and Go identifiers are computed from the tree by their own packages, which the
  checks and the generators share. At run time a bus encodes what a service publishes, hands it to
  a transport and wraps the handlers that consume it; the in-process transport delivers within the
  process. \<open>design\<close> below composes the front end; its theorems need no hypothesis because the
  parser's well-formedness theorem supplies what flattening relies on, and \<open>accepted_design\<close> states
  for the sources of a design what \<open>accepted_project\<close> of \<open>Analysis_Spec\<close> states for its files.

  \<^bold>\<open>Theories and sources.\<close>
  \<^item> \<open>Prelude\<close>: Go strings as byte lists, runes and UTF-8, the \<^verbatim>\<open>strings\<close>, \<^verbatim>\<open>slices\<close> and
    \<^verbatim>\<open>unicode\<close> functions the sources call; \<open>Strconv\<close>: \<^verbatim>\<open>strconv\<close> and \<^verbatim>\<open>time\<close> conversions and
    \<^verbatim>\<open>internal/lexer/units.go\<close>.
  \<^item> \<open>Token\<close>, \<open>Lexer\<close>: \<^verbatim>\<open>internal/lexer\<close>. The record \<open>Lexer\<close> has the fields of the Go struct; one
    definition per lexing function; \<open>Tokenize\<close> runs \<open>Next\<close> to the end of the source. \<open>Lexer_Inv\<close>
    states the contract of the lexer's primitives as the locale \<open>lexer_invariant\<close>, which
    \<open>Lexer_Props\<close> and \<open>Lexer_Legal\<close> interpret; \<open>Lexer_Spec\<close> holds the properties.
  \<^item> \<open>Ast\<close>, \<open>Prims\<close>, \<open>Errcat\<close>: \<^verbatim>\<open>internal/ast\<close>, \<^verbatim>\<open>internal/prims\<close> and \<^verbatim>\<open>internal/errcat\<close>.
  \<^item> \<open>Parser_State\<close>, \<open>Parser_Syntax\<close>: \<^verbatim>\<open>internal/parser\<close> in a state monad over the record \<open>Parser\<close>,
    with an explicit flag for a run-time panic. \<open>Parser_Logic\<close>, \<open>Parser_Rules\<close> and \<open>Parser_Total\<close>
    are a weakest-precondition calculus and its rules, one per method, within the locale
    \<open>parser_invariant\<close>; \<open>Parser_Spec\<close> holds the properties.
  \<^item> \<open>Idents\<close>: \<^verbatim>\<open>internal/idents\<close>; \<open>Route\<close>: \<^verbatim>\<open>internal/route\<close>, both with their properties.
  \<^item> \<open>Design\<close>: the tables, lookups and reference checks of \<^verbatim>\<open>internal/semantic\<close> (\<^verbatim>\<open>semantic.go\<close>,
    \<^verbatim>\<open>decls.go\<close>, \<^verbatim>\<open>lookup.go\<close>, \<^verbatim>\<open>typerefs.go\<close>, the grouping of \<^verbatim>\<open>project.go\<close>); \<open>Cycles\<close>:
    \<^verbatim>\<open>package_cycles.go\<close>, \<^verbatim>\<open>instantiation_cycles.go\<close> and the start of \<open>AnalyzeProject\<close>; \<open>Flatten\<close>:
    \<^verbatim>\<open>flatten.go\<close>; \<open>Mixins\<close>: \<^verbatim>\<open>mixin.go\<close>. \<open>Search\<close> is the contract of a breadth-first search, a
    locale that \<open>Cycles_Spec\<close> interprets on both searches of the sources. \<open>Design_Spec\<close>,
    \<open>Flatten_Spec\<close>, \<open>Mixins_Spec\<close> and \<open>Instances\<close> hold the properties.
  \<^item> \<open>Wire\<close>: \<^verbatim>\<open>internal/wire\<close>; \<open>Decorators\<close>: the registry of \<^verbatim>\<open>decorators.go\<close> and the placement and
    uniqueness checks of \<^verbatim>\<open>decorator_sites.go\<close>; \<open>Services\<close>: \<^verbatim>\<open>inherited.go\<close>, \<^verbatim>\<open>groups.go\<close> and
    \<^verbatim>\<open>operations.go\<close>, with what the service tables hold in \<open>Services_Spec\<close>.
  \<^item> \<open>Paths\<close>: \<^verbatim>\<open>paths.go\<close> and the traversal of \<^verbatim>\<open>method_checks.go\<close>; \<open>Paths_Spec\<close> relates its
    silence to the patterns \<^verbatim>\<open>net/http\<close> accepts (\<open>mux_accepts\<close>, from the documentation of
    \<^verbatim>\<open>ServeMux\<close>), and \<open>Routes_Spec\<close> states it over the sources of a design.
  \<^item> \<open>Literals\<close>: \<^verbatim>\<open>decorator_values.go\<close>, \<^verbatim>\<open>enums.go\<close> and sizes; \<open>Bounds\<close>: \<^verbatim>\<open>numeric_domain.go\<close>
    and the bounds of \<^verbatim>\<open>constraint_checks.go\<close>; \<open>Bounds_Spec\<close> holds the properties. A float is the
    rational it denotes, rounded at its width where the code converts.
  \<^item> \<open>Outputs\<close>: \<^verbatim>\<open>project_checks.go\<close> and the segments of \<^verbatim>\<open>internal/codegen/golang/paths.go\<close>, with
    \<open>Outputs_Spec\<close>; \<open>Collisions\<close>: \<^verbatim>\<open>collision_checks.go\<close>, \<^verbatim>\<open>name_case.go\<close> and \<^verbatim>\<open>enum_checks.go\<close>, with
    \<open>Collisions_Spec\<close>.
  \<^item> \<open>Resolved\<close>: \<^verbatim>\<open>resolved.go\<close>, \<^verbatim>\<open>form.go\<close>, \<^verbatim>\<open>types_compat.go\<close> and \<^verbatim>\<open>events.go\<close>; \<open>Bindings\<close> and
    \<open>Placement\<close>: \<^verbatim>\<open>binding_checks.go\<close>, \<^verbatim>\<open>method_checks.go\<close> and \<^verbatim>\<open>event_checks.go\<close>, with
    \<open>Bindings_Spec\<close>.
  \<^item> \<open>Arguments\<close>: \<^verbatim>\<open>decorator_arg_checks.go\<close>, with \<open>Arguments_Spec\<close>; \<open>Values\<close>:
    \<^verbatim>\<open>value_literal_checks.go\<close> and the defaults of \<^verbatim>\<open>constraint_checks.go\<close>, with \<open>Values_Spec\<close>.
  \<^item> \<open>Analysis\<close>: \<^verbatim>\<open>decorator_ref_checks.go\<close>, \<^verbatim>\<open>collections_checks.go\<close>, the phases of \<^verbatim>\<open>semantic.go\<close> and
    \<open>AnalyzeProject\<close> of \<^verbatim>\<open>project.go\<close>, with \<open>Analysis_Spec\<close>.
  \<^item> \<open>Events\<close>, \<open>Bus\<close>: \<^verbatim>\<open>pkg/events\<close>; \<open>Bus_Spec\<close> holds the properties. \<open>Memory\<close>:
    \<^verbatim>\<open>pkg/events/memory\<close> as a step relation whose steps are the critical sections of the code;
    \<open>Machine\<close> has the contracts of a state machine, which \<open>Memory_Inv\<close>, \<open>Memory_Spec\<close> and
    \<open>Memory_Round\<close> interpret.

  \<^bold>\<open>What is shown.\<close> The lexer and the parser end on every input and never panic; tokens carry the
  text and the place of their source; a source without diagnostics is legal; every declaration a
  parser returns is well-formed; one problem is reported once. A design's declarations are all in
  its tables when nothing is reported; the package-cycle check reports nothing exactly when the
  references are acyclic, and otherwise the shortest cycles; where the instantiation check is
  silent, every generic instance needs finitely many others; flattening yields each embedded
  type's fields once and well-formed types; and where the mixin checks are silent no two of them
  share a name. Routes resolve as specified and two patterns conflict exactly when some request
  matches both and neither is more specific; generated identifiers are distinct. Where the checks
  are silent no two methods or middlewares write one file, no struct declares a member twice, up to
  the gap \<open>Collisions_Spec\<close> exhibits, JSON keys, enum values and parameters of a request are
  distinct, and every parameter has a type the binder reads, up to the gap \<open>Bindings_Spec\<close> exhibits.
  The checks of decorator arguments index only arguments that are there, and an accepted default
  meets every bound. An analysis without an error gives these facts together. Where the route
  checks are silent the patterns of a design register with \<^verbatim>\<open>ServeMux\<close>, up to the two gaps \<open>Routes_Spec\<close> exhibits; path
  variables and request fields correspond and operation ids are distinct. The bounds of an integer
  field are reported exactly when no value of its type meets them. The bus registers
  a subscription once per group, contains the panics of handlers and reports what a failed batch
  left unsent; the in-process transport hands a message to one member of each group, keeps batches
  within their bound, and \<open>Drain\<close> returns, and only once everything is handled.

  \<^bold>\<open>Termination and fuel.\<close> The lexer's loops are functions that end because each round shortens what
  is left of the source. A loop or recursion of the parser has the number of tokens plus one as
  its fuel, and running out of it is a panic of the model: \<open>parse_total\<close> shows it never happens.
  The walks over types have one more than the number of declared types, and each level of a walk
  marks a type, so \<open>design_fields_once\<close> holds for every project. The searches for cycles end
  because they mark the nodes they queue. The walks over the fields of nested types for files,
  cookies, bindings and unique items are partial functions, which mark the instances they enter;
  an analysis that does not return is \<open>None\<close>, as is one that panics, and the facts about an accepted
  design are about an analysis that returned. That every walk returns is not shown.

  \<^bold>\<open>Idealisations.\<close> A Go \<^verbatim>\<open>map\<close> whose keys are visited in no order is an association list, and what
  the code computes from it does not depend on the order, or the order is that of the list.
  The identity of a pointer to a name is that of the name with its position, as positions of a
  file are distinct. \<open>ToLower\<close> and \<open>ToUpper\<close> map ASCII, which is what the identifiers of the
  language hold. Values of type \<^verbatim>\<open>any\<close> and middlewares
  are numbers: the code only passes them on. A message of a diagnostic keeps its format and its
  arguments apart.

  \<^bold>\<open>Parameters.\<close> What the checks take from the Go library and from \<^verbatim>\<open>internal/strfmt\<close> is a field of
  the record \<open>env\<close> or an argument: \<open>regexp.Compile\<close> and matching, the string formats, the classes of
  Unicode and the rendering of messages. No property assumes anything of them but \<open>routes_register\<close>,
  which takes the classes of ASCII characters as Unicode gives them.

  \<^bold>\<open>Not modelled.\<close> The formatter, the language server and the generators, which print text from the
  analysed project, but for the segments and the routes the generators write; the printers of tokens
  and diagnostics and the hover texts of decorators; the HTTP, RPC and telemetry packages and the
  broker transports, which adapt third-party clients; the import of protocol buffers and the
  manifest, which read third-party formats; and the command line. Their sources are listed in the
  manifest of this library.
\<close>

section \<open>From design sources to flattened types\<close>

text \<open>The project of a list of design sources, each a file name with its text, under a base path.\<close>

definition design :: "string \<Rightarrow> (string \<times> string) list \<Rightarrow> Project" where
  "design base sources = build_project base (map (\<lambda>(f, src). fst (parse_source f src)) sources)"

lemma parsed_files_wf: "list_all (\<lambda>f. list_all decl_wf (f_Decls f)) (map (\<lambda>(f, src). fst (parse_source f src)) sources)"
  using diags.parse_source_run(4) [OF refl diags_from_NewP] by (auto simp: list_all_iff)

lemma design_wf: "project_wf (design base sources)"
  unfolding design_def by (rule build_project_wf [OF parsed_files_wf])

text \<open>
  C5. Whatever the sources of a design are, flattening a body of it gives the body's own fields
  and those of every type its mixins embed, directly or through other mixins, and each type's
  fields exactly once however many ways lead to it; a mixin cycle ends. So the fuel of the
  walk is never used up.
\<close>

theorem design_fields_once:
  "flat_keys (fst (flattenFields (Some (design base sources)) view home body tps args names)) =
     own_fields home body
     + (\<Sum>t \<in> embedded (design base sources) home body. own_fields (fst t) (type_body (design base sources) t))"
  by (rule flattenFields_walks [OF design_wf])

text \<open>
  C12. Every flattened field of a type of a parsed design has a name and a well-formed type:
  substituting type arguments and requalifying names through any chain of mixins keeps
  \<open>Array\<close> equal to \<open>ArrayDepth > 0\<close>, exactly one of \<open>Map\<close> and \<open>Named\<close> set and no argument nil.
\<close>

theorem design_field_types:
  "case type_at (design base sources) t of
     None \<Rightarrow> True
   | Some td \<Rightarrow> flat_wf (fst (flattenFields (Some (design base sources)) view (fst t) (td_Body td) (td_TypeParams td) [] names))"
proof (cases "type_at (design base sources) t")
  case (Some td)
  then obtain pkg where "Packages (design base sources) (fst t) = Some pkg" "Types pkg (snd t) = Some td"
    by (auto simp: type_at_def bind_eq_Some_conv)
  then have "decl_wf (D_Type td)" using project_wfD(2) [OF design_wf] by blast
  then have "list_all member_wf (td_Body td)" by simp
  with Some show ?thesis by (simp add: flattenFields_wf [OF design_wf])
qed simp

section \<open>Accepted designs\<close>

definition parsed :: "(string \<times> string) list \<Rightarrow> File list" where
  "parsed sources = map (\<lambda>(f, src). fst (parse_source f src)) sources"

lemma parsed_wf: "list_all (\<lambda>f. list_all decl_wf (f_Decls f)) (parsed sources)"
  unfolding parsed_def by (rule parsed_files_wf)

text \<open>The same for the sources of a design: what the parser returns is well-formed, whatever it reads.\<close>

lemmas accepted_design = accepted_files [OF _ _ parsed_wf]

end
